(* ===== verification/Prelude.thy ===== *)
theory Prelude
  imports Main "HOL-Library.List_Lexorder" "HOL-Library.Char_ord"
begin

text \<open>
  Shared vocabulary of the development.  A Go string is a list of bytes, so it is modelled as
  an Isabelle \<^typ>\<open>string\<close>; the functions of Go's \<^verbatim>\<open>strings\<close> package that the program calls are
  defined here with their results in the order Go returns them.  Case mapping and trimming are
  the ASCII part of the package: bytes from 128 upwards are left as they are, where Go and the
  database also fold other letters.
  Instants (\<^verbatim>\<open>time.Time\<close>) are integers, counted in nanoseconds; that the database
  keeps microseconds is not modelled.
  The second half models the three SQL statement shapes the stores use on a list of rows.
\<close>

named_theorems queue_law \<open>the laws a queue source promises the worker\<close>
named_theorems row_simps \<open>how each statement changes the fields of a row\<close>

type_synonym time = int
type_synonym error = string

text \<open>Go's zero \<^verbatim>\<open>time.Time\<close>, the first of January of year one.\<close>

definition zero_time :: time where "zero_time = -62135596800 * 1000000000"

section \<open>Go strings\<close>

definition lower_char :: "char \<Rightarrow> char" where
  "lower_char c =
     (if 65 \<le> (of_char c :: nat) \<and> (of_char c :: nat) \<le> 90 then char_of (of_char c + 32 :: nat) else c)"

definition to_lower :: "string \<Rightarrow> string" where
  "to_lower s = map lower_char s"

definition equal_fold :: "string \<Rightarrow> string \<Rightarrow> bool" where
  "equal_fold s t = (to_lower s = to_lower t)"

definition is_space :: "char \<Rightarrow> bool" where
  "is_space c = ((of_char c :: nat) = 32 \<or> (9 \<le> (of_char c :: nat) \<and> (of_char c :: nat) \<le> 13))"

definition trim_space :: "string \<Rightarrow> string" where
  "trim_space s = rev (dropWhile is_space (rev (dropWhile is_space s)))"

fun cut :: "char \<Rightarrow> string \<Rightarrow> string \<times> string \<times> bool" where
  "cut c [] = ([], [], False)"
| "cut c (x # xs) =
     (if x = c then ([], xs, True) else (let (a, b, ok) = cut c xs in (x # a, b, ok)))"

definition cut_last :: "char \<Rightarrow> string \<Rightarrow> string \<times> string \<times> bool" where
  "cut_last c s =
     (let (a, b, ok) = cut c (rev s) in if ok then (rev b, rev a, True) else (s, [], False))"

fun cut_prefix :: "string \<Rightarrow> string \<Rightarrow> string \<times> bool" where
  "cut_prefix [] s = (s, True)"
| "cut_prefix (p # ps) [] = ([], False)"
| "cut_prefix (p # ps) (x # xs) =
     (if p = x \<and> snd (cut_prefix ps xs) then cut_prefix ps xs else (x # xs, False))"

definition trim_prefix :: "string \<Rightarrow> string \<Rightarrow> string" where
  "trim_prefix p s = fst (cut_prefix p s)"

definition has_suffix :: "string \<Rightarrow> string \<Rightarrow> bool" where
  "has_suffix s t = snd (cut_prefix (rev t) (rev s))"

definition has_line_break :: "string \<Rightarrow> bool" where
  "has_line_break s = list_ex (\<lambda>c. (of_char c :: nat) = 13 \<or> (of_char c :: nat) = 10) s"

fun join :: "string \<Rightarrow> string list \<Rightarrow> string" where
  "join sep [] = []"
| "join sep [x] = x"
| "join sep (x # y # ys) = x @ sep @ join sep (y # ys)"

lemma cut_ok_iff: "snd (snd (cut c s)) \<longleftrightarrow> c \<in> set s"
  by (induction s) (simp_all add: case_prod_unfold Let_def)

lemma cut_missing: "c \<notin> set s \<Longrightarrow> cut c s = (s, [], False)"
  by (induction s) auto

lemma cut_append [simp]: "c \<notin> set a \<Longrightarrow> cut c (a @ c # b) = (a, b, True)"
  by (induction a) auto

lemma cut_found: "cut c s = (a, b, True) \<longleftrightarrow> s = a @ c # b \<and> c \<notin> set a"
proof
  assume h: "cut c s = (a, b, True)"
  then have "c \<in> set s" using cut_ok_iff [of c s] by simp
  then obtain a' b' where s: "s = a' @ c # b'" "c \<notin> set a'" by (meson split_list_first)
  with h have "a' = a" "b' = b" by simp_all
  with s show "s = a @ c # b \<and> c \<notin> set a" by simp
next
  assume "s = a @ c # b \<and> c \<notin> set a"
  then show "cut c s = (a, b, True)" by simp
qed

lemma cut_last_append [simp]: "c \<notin> set b \<Longrightarrow> cut_last c (a @ c # b) = (a, b, True)"
  by (simp add: cut_last_def)

lemma cut_last_ok_iff: "snd (snd (cut_last c s)) \<longleftrightarrow> c \<in> set s"
  using cut_ok_iff [of c "rev s"] by (simp add: cut_last_def case_prod_unfold Let_def)

lemma cut_last_found: "cut_last c s = (a, b, True) \<longleftrightarrow> s = a @ c # b \<and> c \<notin> set b"
proof
  assume h: "cut_last c s = (a, b, True)"
  then have "c \<in> set s" using cut_last_ok_iff [of c s] by simp
  then obtain a' b' where s: "s = a' @ c # b'" "c \<notin> set b'" by (meson split_list_last)
  with h have "a' = a" "b' = b" by simp_all
  with s show "s = a @ c # b \<and> c \<notin> set b" by simp
next
  assume "s = a @ c # b \<and> c \<notin> set b"
  then show "cut_last c s = (a, b, True)" by simp
qed

lemma cut_last_missing: "c \<notin> set s \<Longrightarrow> cut_last c s = (s, [], False)"
  by (simp add: cut_last_def cut_missing)

lemma cut_prefix_append [simp]: "cut_prefix p (p @ r) = (r, True)"
  by (induction p) simp_all

lemma cut_prefix_ok: "snd (cut_prefix p s) \<Longrightarrow> s = p @ fst (cut_prefix p s)"
proof (induction p s rule: cut_prefix.induct)
  case (3 p ps x xs)
  then show ?case by (cases "p = x \<and> snd (cut_prefix ps xs)") auto
qed simp_all

lemma cut_prefix_found: "cut_prefix p s = (r, True) \<longleftrightarrow> s = p @ r"
proof
  assume h: "cut_prefix p s = (r, True)"
  then show "s = p @ r" using cut_prefix_ok [of p s] by simp
qed simp

lemma lower_char_idem [simp]: "lower_char (lower_char c) = lower_char c"
proof (cases "65 \<le> (of_char c :: nat) \<and> (of_char c :: nat) \<le> 90")
  case True
  then have "(of_char (char_of (of_char c + 32 :: nat)) :: nat) = of_char c + 32" by simp
  with True show ?thesis by (simp add: lower_char_def)
next
  case False
  then show ?thesis by (auto simp: lower_char_def)
qed

lemma to_lower_idem [simp]: "to_lower (to_lower s) = to_lower s"
  by (simp add: to_lower_def)

lemma length_to_lower [simp]: "length (to_lower s) = length s"
  by (simp add: to_lower_def)

lemma to_lower_append [simp]: "to_lower (s @ t) = to_lower s @ to_lower t"
  by (simp add: to_lower_def)

lemma to_lower_Nil_iff [simp]: "to_lower s = [] \<longleftrightarrow> s = []"
  by (simp add: to_lower_def)

lemma equal_fold_refl [simp]: "equal_fold s s"
  by (simp add: equal_fold_def)

section \<open>SQL statements on a list of rows\<close>

text \<open>
  \<^verbatim>\<open>UPDATE t SET .. WHERE p\<close> rewrites every row that satisfies \<^verbatim>\<open>p\<close> and reports how many it was,
  \<^verbatim>\<open>DELETE FROM t WHERE p\<close> drops them, and a \<^verbatim>\<open>SELECT\<close> of at most one row yields the first.
\<close>

definition sql_update :: "('r \<Rightarrow> bool) \<Rightarrow> ('r \<Rightarrow> 'r) \<Rightarrow> 'r list \<Rightarrow> 'r list" where
  "sql_update p f rs = map (\<lambda>r. if p r then f r else r) rs"

definition sql_count :: "('r \<Rightarrow> bool) \<Rightarrow> 'r list \<Rightarrow> nat" where
  "sql_count p rs = length (filter p rs)"

definition sql_delete :: "('r \<Rightarrow> bool) \<Rightarrow> 'r list \<Rightarrow> 'r list" where
  "sql_delete p rs = filter (\<lambda>r. \<not> p r) rs"

lemma sql_count_pos [simp]: "0 < sql_count p rs \<longleftrightarrow> (\<exists>r \<in> set rs. p r)"
  by (auto simp: sql_count_def filter_empty_conv)

lemma set_sql_update: "set (sql_update p f rs) = {f r | r. r \<in> set rs \<and> p r} \<union> {r \<in> set rs. \<not> p r}"
  by (auto simp: sql_update_def image_iff)

lemma set_sql_delete [simp]: "set (sql_delete p rs) = {r \<in> set rs. \<not> p r}"
  by (auto simp: sql_delete_def)

lemma map_sql_update: "(\<And>r. p r \<Longrightarrow> k (f r) = k r) \<Longrightarrow> map k (sql_update p f rs) = map k rs"
  by (auto simp: sql_update_def)

lemma length_sql_update [simp]: "length (sql_update p f rs) = length rs"
  by (simp add: sql_update_def)

lemma sql_update_noop: "\<forall>r \<in> set rs. \<not> p r \<Longrightarrow> sql_update p f rs = rs"
  by (simp add: sql_update_def map_idI)

lemma sql_count_zero_update: "sql_count p rs = 0 \<Longrightarrow> sql_update p f rs = rs"
  by (rule sql_update_noop) (auto simp: sql_count_def filter_empty_conv)

lemma distinct_map_sql_delete: "distinct (map k rs) \<Longrightarrow> distinct (map k (sql_delete p rs))"
  by (induction rs) (auto simp: sql_delete_def)

lemma sql_count_simps [simp]:
  "sql_count p [] = 0" "sql_count p (r # rs) = (if p r then Suc (sql_count p rs) else sql_count p rs)"
  by (simp_all add: sql_count_def)

lemma sql_count_mono: "(\<And>r. r \<in> set rs \<Longrightarrow> p r \<Longrightarrow> q r) \<Longrightarrow> sql_count p rs \<le> sql_count q rs"
  by (induction rs) (auto simp: le_SucI)

lemma sql_count_less:
  assumes "\<And>r. r \<in> set rs \<Longrightarrow> p r \<Longrightarrow> q r" and "w \<in> set rs" "q w" "\<not> p w"
  shows "sql_count p rs < sql_count q rs"
  using assms(1,2)
proof (induction rs)
  case (Cons r rs)
  have le: "sql_count p rs \<le> sql_count q rs" by (rule sql_count_mono) (simp add: Cons.prems(1))
  show ?case
  proof (cases "w = r")
    case True
    then show ?thesis using le assms(3,4) by simp
  next
    case False
    then have "sql_count p rs < sql_count q rs" using Cons by simp
    then show ?thesis using Cons.prems(1) [of r] by simp
  qed
qed simp

lemma sql_count_update:
  "(\<And>r. r \<in> set rs \<Longrightarrow> u r \<Longrightarrow> p (f r) \<Longrightarrow> p r \<or> q r) \<Longrightarrow>
   sql_count p (sql_update u f rs) \<le> sql_count p rs + sql_count q rs"
  by (induction rs) (fastforce simp: sql_update_def)+

end
