(* ===== verification/Permission.thy ===== *)
theory Permission
  imports Prelude
begin

text \<open>
  The permission catalogue (\<^verbatim>\<open>internal/models/permission\<close>): a closed registry of resources and the
  actions each of them has, sets of held permissions, and the two resolvers that turn a
  membership row and an API key into such a set.  A Go \<^verbatim>\<open>Set\<close> is a map that may be nil, so
  it is an optional set here.  The locale at the end is the contract the role and key
  endpoints rely on when they refuse to grant what the caller does not hold.
\<close>

type_synonym resource = string
type_synonym action = string
type_synonym permission = string
type_synonym perm_set = "permission set option"

section \<open>The catalogue\<close>

definition ActionRead :: action where "ActionRead = ''read''"
definition ActionWrite :: action where "ActionWrite = ''write''"
definition ActionDelete :: action where "ActionDelete = ''delete''"

lemmas action_defs = ActionRead_def ActionWrite_def ActionDelete_def

definition All :: permission where "All = ''*''"

definition Of :: "resource \<Rightarrow> action \<Rightarrow> permission" where
  "Of r a = r @ '':'' @ a"

record resource_def =
  d_resource :: resource
  d_label :: string
  d_description :: string
  d_actions :: "action list"
  d_infrastructure :: bool

definition entry :: "resource \<Rightarrow> string \<Rightarrow> string \<Rightarrow> action list \<Rightarrow> bool \<Rightarrow> resource_def" where
  "entry r l d as i = \<lparr>d_resource = r, d_label = l, d_description = d, d_actions = as, d_infrastructure = i\<rparr>"

definition actR :: "action list" where "actR = [ActionRead]"
definition actRW :: "action list" where "actRW = [ActionRead, ActionWrite]"
definition actRD :: "action list" where "actRD = [ActionRead, ActionDelete]"
definition actRWD :: "action list" where "actRWD = [ActionRead, ActionWrite, ActionDelete]"
definition actW :: "action list" where "actW = [ActionWrite]"

lemmas action_set_defs = actR_def actRW_def actRD_def actRWD_def actW_def

definition Registry :: "resource_def list" where
  "Registry =
    [entry ''emails'' ''Emails'' ''The delivery log, message detail, and sending.'' actRW False,
     entry ''campaigns'' ''Campaigns'' ''Bulk sends and their per-recipient results.'' actRWD False,
     entry ''templates'' ''Templates'' ''Templates, their versions, stylesheets and languages.'' actRWD False,
     entry ''contacts'' ''Contacts'' ''Addresses the project has delivered to, and their tallies.'' actRD False,
     entry ''subscribers'' ''Subscribers'' ''Subscribers and the lists campaigns send to.'' actRWD False,
     entry ''suppressions'' ''Suppressions'' ''Blocked addresses and unsubscribe lists.'' actRWD False,
     entry ''bounces'' ''Bounces'' ''Bounce reports.'' actRWD False,
     entry ''inbound'' ''Inbound mail'' ''Mail received at the MX listener.'' actRWD False,
     entry ''analytics'' ''Analytics'' ''The dashboard, delivery trend and plan usage.'' actR False,
     entry ''notifications'' ''Notifications'' ''In-project alerts and their read state.'' actRWD False,
     entry ''sandbox'' ''Email sandbox'' ''Captured test mail, and the credentials that fill it.'' actRWD False,
     entry ''domains'' ''Domains'' ''Sending domains, their verification and DKIM keys.'' actRWD True,
     entry ''senders'' ''Sender addresses'' ''The approved From addresses.'' actRWD True,
     entry ''smtp'' ''SMTP servers'' ''Servers, server groups and the project's own relay nodes.'' actRWD True,
     entry ''apikeys'' ''API keys'' ''API keys and SMTP submission credentials.'' actRWD True,
     entry ''webhooks'' ''Webhooks'' ''Outgoing webhooks and their delivery history.'' actRWD True,
     entry ''relay'' ''Relay node enrolment'' ''Enrolling a machine that carries this project's outbound mail.'' actW True,
     entry ''members'' ''Members'' (''Who belongs to the project, its roles, and invitations. '' @
       ''A holder may only grant permissions they hold themselves.'') actRWD True,
     entry ''settings'' ''Project settings'' ''Project configuration.'' actRW True,
     entry ''audit'' ''Audit log'' ''The record of who changed what.'' actR True,
     entry ''data'' ''Data export and erasure'' ''The full project export, and bulk erasure.'' actRD True]"

fun lookup_in :: "resource_def list \<Rightarrow> resource \<Rightarrow> resource_def option" where
  "lookup_in [] r = None"
| "lookup_in (d # ds) r = (if d_resource d = r then Some d else lookup_in ds r)"

definition Lookup :: "resource \<Rightarrow> resource_def option" where
  "Lookup r = lookup_in Registry r"

definition Size :: nat where
  "Size = foldl (\<lambda>n d. n + length (d_actions d)) 0 Registry"

definition Allows :: "resource_def \<Rightarrow> action \<Rightarrow> bool" where
  "Allows d a = List.member (d_actions d) a"

definition Parse :: "permission \<Rightarrow> (resource \<times> action) option" where
  "Parse p =
     (let (res, act, found) = cut (CHR '':'') p in
      if \<not> found then None
      else case Lookup res of
             None \<Rightarrow> None
           | Some d \<Rightarrow> if Allows d act then Some (res, act) else None)"

section \<open>Sets of permissions\<close>

definition NewSet :: "permission list \<Rightarrow> perm_set" where
  "NewSet ps = Some (set ps)"

definition Has :: "perm_set \<Rightarrow> resource \<Rightarrow> action \<Rightarrow> bool" where
  "Has s r a =
     (case s of
        None \<Rightarrow> False
      | Some m \<Rightarrow> if All \<in> m then True else Of r a \<in> m)"

fun Missing :: "perm_set \<Rightarrow> permission list \<Rightarrow> permission list" where
  "Missing s [] = []"
| "Missing s (raw # want) =
     (case Parse raw of
        None \<Rightarrow> Missing s want
      | Some (r, a) \<Rightarrow> if Has s r a then Missing s want else raw # Missing s want)"

definition Touches :: "perm_set \<Rightarrow> resource \<Rightarrow> bool" where
  "Touches s r =
     (case s of
        None \<Rightarrow> False
      | Some m \<Rightarrow>
          if All \<in> m then True
          else case Lookup r of
                 None \<Rightarrow> False
               | Some d \<Rightarrow> list_ex (\<lambda>a. Of r a \<in> m) (d_actions d))"

definition ListOf :: "perm_set \<Rightarrow> string list" where
  "ListOf s = (case s of None \<Rightarrow> [] | Some m \<Rightarrow> sorted_list_of_set m)"

fun from_strings_into :: "permission set \<Rightarrow> permission list \<Rightarrow> permission set" where
  "from_strings_into m [] = m"
| "from_strings_into m (p # ps) =
     (case Parse p of
        None \<Rightarrow> from_strings_into m ps
      | Some (r, a) \<Rightarrow> from_strings_into (insert (Of r a) m) ps)"

definition FromStrings :: "permission list \<Rightarrow> perm_set" where
  "FromStrings ps = Some (from_strings_into {} ps)"

definition ForMember :: "bool \<Rightarrow> permission list \<Rightarrow> bool \<Rightarrow> perm_set" where
  "ForMember owner rolePerms hasRole =
     (if owner then NewSet [All]
      else if hasRole then FromStrings rolePerms
      else Some {})"

definition ForKey :: "permission list \<Rightarrow> bool \<Rightarrow> perm_set" where
  "ForKey perms sandbox =
     (if List.member perms All then NewSet [All]
      else if sandbox then
        map_option (\<lambda>m. insert (Of ''sandbox'' ActionDelete)
                        (insert (Of ''sandbox'' ActionWrite)
                         (insert (Of ''sandbox'' ActionRead) m))) (FromStrings perms)
      else FromStrings perms)"

definition eventResource :: "(string \<times> resource) list" where
  "eventResource =
    [(''email.queued'', ''emails''), (''email.sent'', ''emails''), (''email.failed'', ''emails''),
     (''email.inbound.received'', ''inbound''), (''campaign.progress'', ''campaigns''),
     (''notification.created'', ''notifications''), (''email.suppressed'', ''emails''),
     (''email.cancelled'', ''emails''), (''campaign.started'', ''campaigns''),
     (''campaign.completed'', ''campaigns''), (''inbound.received'', ''inbound'')]"

definition EventResource :: "string \<Rightarrow> resource option" where
  "EventResource t = map_of eventResource t"

section \<open>Facts about the registry\<close>

lemma lookup_in_Some: "lookup_in ds r = Some d \<Longrightarrow> d \<in> set ds \<and> d_resource d = r"
  by (induction ds) (auto split: if_splits)

lemma Lookup_resource: "Lookup r = Some d \<Longrightarrow> d_resource d = r"
  unfolding Lookup_def using lookup_in_Some by blast

lemma Registry_no_colon: "\<forall>d \<in> set Registry. CHR '':'' \<notin> set (d_resource d)"
  by (simp add: Registry_def entry_def)

lemma Lookup_no_colon: "Lookup r = Some d \<Longrightarrow> CHR '':'' \<notin> set r"
  using Registry_no_colon lookup_in_Some unfolding Lookup_def by blast

lemma Registry_distinct: "distinct (map d_resource Registry)"
  by (simp add: Registry_def entry_def)

lemma Registry_actions_no_colon: "\<forall>d \<in> set Registry. \<forall>a \<in> set (d_actions d). CHR '':'' \<notin> set a"
  by (simp add: Registry_def entry_def action_set_defs action_defs)

lemma actions_no_colon: "Lookup r = Some d \<Longrightarrow> Allows d a \<Longrightarrow> CHR '':'' \<notin> set a"
  using Registry_actions_no_colon lookup_in_Some unfolding Lookup_def by (fastforce simp: Allows_def)

lemma Parse_Some_iff:
  "Parse p = Some (r, a) \<longleftrightarrow> p = Of r a \<and> (\<exists>d. Lookup r = Some d \<and> Allows d a)"
proof
  assume h: "Parse p = Some (r, a)"
  obtain res act found where c: "cut (CHR '':'') p = (res, act, found)" by (cases "cut (CHR '':'') p") auto
  from h c have f: "found" by (simp add: Parse_def split: if_splits)
  with h c show "p = Of r a \<and> (\<exists>d. Lookup r = Some d \<and> Allows d a)"
    by (auto simp: Parse_def cut_found Of_def split: option.splits if_splits)
next
  assume h: "p = Of r a \<and> (\<exists>d. Lookup r = Some d \<and> Allows d a)"
  then have "cut (CHR '':'') p = (r, a, True)" using Lookup_no_colon by (auto simp: cut_found Of_def)
  with h show "Parse p = Some (r, a)" by (auto simp: Parse_def)
qed

lemma Of_inject: "CHR '':'' \<notin> set r \<Longrightarrow> CHR '':'' \<notin> set r' \<Longrightarrow> Of r a = Of r' a' \<longleftrightarrow> r = r' \<and> a = a'"
  using cut_append [of "CHR '':''" r a] cut_append [of "CHR '':''" r' a']
  by (metis Of_def append_Cons append_Nil prod.inject)

lemma Of_not_All [simp]: "Of r a \<noteq> All" "All \<noteq> Of r a"
  by (cases r; simp add: Of_def All_def; cases "tl r"; simp)+

lemma Parse_All [simp]: "Parse All = None"
  by (cases "Parse All") (auto simp: Parse_Some_iff)

lemma from_strings_into_eq:
  "from_strings_into m ps = m \<union> {p \<in> set ps. Parse p \<noteq> None}"
proof (induction m ps rule: from_strings_into.induct)
  case (2 m p ps)
  show ?case
  proof (cases "Parse p")
    case None
    with 2 show ?thesis by auto
  next
    case (Some ra)
    obtain r a where ra: "ra = (r, a)" by (cases ra)
    with Some have "p = Of r a" by (simp add: Parse_Some_iff)
    with 2 Some ra show ?thesis by auto
  qed
qed simp

lemma FromStrings_eq: "FromStrings ps = Some {p \<in> set ps. Parse p \<noteq> None}"
  by (simp add: FromStrings_def from_strings_into_eq)

lemma Has_FromStrings: "Has (FromStrings ps) r a \<longleftrightarrow> Of r a \<in> set ps \<and> Parse (Of r a) \<noteq> None"
  by (auto simp: Has_def FromStrings_eq)

lemma Missing_iff:
  "p \<in> set (Missing s want) \<longleftrightarrow> p \<in> set want \<and> (\<exists>r a. Parse p = Some (r, a) \<and> \<not> Has s r a)"
proof (induction s want rule: Missing.induct)
  case (2 s raw want)
  show ?case
  proof (cases "Parse raw")
    case None
    with 2 show ?thesis by auto
  next
    case (Some ra)
    obtain r a where "ra = (r, a)" by (cases ra)
    with 2 Some show ?thesis by (cases "Has s r a") auto
  qed
qed simp

section \<open>The delegation contract\<close>

text \<open>
  What an endpoint that writes roles or keys relies on: a way to say what a list of
  permissions grants, a way to ask what a caller holds, and the list of what the caller
  lacks.  Granting only what is not missing can never widen what anybody holds, however
  often the grant is passed on.
\<close>

fun delegated :: "('s \<Rightarrow> 'p list \<Rightarrow> 'p list) \<Rightarrow> ('p list \<Rightarrow> 's) \<Rightarrow> 's \<Rightarrow> 'p list list \<Rightarrow> bool" where
  "delegated missing grant s [] = True"
| "delegated missing grant s (w # ws) = (missing s w = [] \<and> delegated missing grant (grant w) ws)"

locale delegation =
  fixes parse :: "'p \<Rightarrow> ('r \<times> 'a) option"
    and holds :: "'s \<Rightarrow> 'r \<Rightarrow> 'a \<Rightarrow> bool"
    and grant :: "'p list \<Rightarrow> 's"
    and missing :: "'s \<Rightarrow> 'p list \<Rightarrow> 'p list"
  assumes holds_grant: "holds (grant ps) r a \<Longrightarrow> \<exists>p \<in> set ps. parse p = Some (r, a)"
    and missing_law: "p \<in> set (missing s want) \<longleftrightarrow>
           p \<in> set want \<and> (\<exists>r a. parse p = Some (r, a) \<and> \<not> holds s r a)"
begin

lemma grant_within:
  assumes "missing s want = []" and "holds (grant want) r a"
  shows "holds s r a"
proof (rule ccontr)
  assume "\<not> holds s r a"
  moreover obtain p where "p \<in> set want" "parse p = Some (r, a)" using holds_grant assms(2) by blast
  ultimately have "p \<in> set (missing s want)" by (auto simp: missing_law)
  with assms(1) show False by simp
qed

lemma delegation_chain:
  "delegated missing grant s (ws @ [w]) \<Longrightarrow> holds (grant w) r a \<Longrightarrow> holds s r a"
proof (induction ws arbitrary: s)
  case Nil
  then show ?case using grant_within by simp
next
  case (Cons v ws)
  then have "holds (grant v) r a" by simp
  with Cons.prems show ?case using grant_within [of s v r a] by simp
qed

end

interpretation perms: delegation Parse Has FromStrings Missing
proof
  fix ps r a
  assume "Has (FromStrings ps) r a"
  then obtain r' a' where p: "Of r a \<in> set ps" "Parse (Of r a) = Some (r', a')"
    by (auto simp: Has_FromStrings)
  then have eq: "Of r a = Of r' a'" and d: "\<exists>d. Lookup r' = Some d \<and> Allows d a'"
    by (simp_all add: Parse_Some_iff)
  show "\<exists>p \<in> set ps. Parse p = Some (r, a)"
  proof (cases "CHR '':'' \<in> set r")
    case False
    with eq d Lookup_no_colon have "r = r' \<and> a = a'" by (metis Of_inject)
    with p show ?thesis by blast
  next
    case True
    then obtain x y where r: "r = x @ CHR '':'' # y" "CHR '':'' \<notin> set x" by (meson split_list_first)
    then have "Of r a = Of x (y @ '':'' @ a)" by (simp add: Of_def)
    with eq d r Lookup_no_colon have "a' = y @ '':'' @ a" by (metis Of_inject)
    then have "CHR '':'' \<in> set a'" by simp
    moreover have "CHR '':'' \<notin> set a'" using d actions_no_colon by blast
    ultimately show ?thesis by simp
  qed
next
  fix p s want
  show "p \<in> set (Missing s want) \<longleftrightarrow>
          p \<in> set want \<and> (\<exists>r a. Parse p = Some (r, a) \<and> \<not> Has s r a)"
    by (rule Missing_iff)
qed

section \<open>Properties\<close>

text \<open>
  The catalogue is closed.  A permission string is accepted exactly when it spells a resource
  of the registry, a colon and one of that resource's own actions, and what is read back are those
  two parts; so a wildcard, an unknown resource or an action the resource lacks never parses.
\<close>
lemma parse_is_catalogue:
  "Parse p = Some (r, a) \<longleftrightarrow>
     p = r @ '':'' @ a \<and> (\<exists>d \<in> set Registry. d_resource d = r \<and> a \<in> set (d_actions d))"
proof -
  have "(\<exists>d. Lookup r = Some d \<and> Allows d a) \<longleftrightarrow> (\<exists>d \<in> set Registry. d_resource d = r \<and> a \<in> set (d_actions d))"
  proof
    assume "\<exists>d. Lookup r = Some d \<and> Allows d a"
    then show "\<exists>d \<in> set Registry. d_resource d = r \<and> a \<in> set (d_actions d)"
      using lookup_in_Some unfolding Lookup_def Allows_def by fastforce
  next
    assume "\<exists>d \<in> set Registry. d_resource d = r \<and> a \<in> set (d_actions d)"
    then obtain d where d: "d \<in> set Registry" "d_resource d = r" "a \<in> set (d_actions d)" by blast
    have "lookup_in ds r = Some d" if "d \<in> set ds" "distinct (map d_resource ds)" for ds
      using that d(2) by (induction ds) (auto simp: rev_image_eqI)
    with d Registry_distinct show "\<exists>d. Lookup r = Some d \<and> Allows d a"
      by (auto simp: Lookup_def Allows_def)
  qed
  then show ?thesis by (auto simp: Parse_Some_iff Of_def)
qed

end
