(* ===== verification/Statement.thy ===== *)
theory Statement
  imports Prelude
begin

text \<open>
  Running SQL statements whose outcome the environment decides.  A world is a state together with
  the faults in store for the next statements: a refused statement wrote nothing, an unacknowledged
  one took effect although its caller saw an error.  \<open>andThen\<close> is the code's early return on a
  non-nil error.
\<close>

datatype fault = Refused error | Unacked error

type_synonym 's world = "'s \<times> fault option list"
type_synonym ('s, 'a) answer = "(error + 'a) \<times> 's world"

definition Run :: "('s \<Rightarrow> 's \<times> 'a) \<Rightarrow> 's world \<Rightarrow> ('s, 'a) answer" where
  "Run st w =
     (case w of
        (s, []) \<Rightarrow> (case st s of (s', x) \<Rightarrow> (Inr x, (s', [])))
      | (s, None # fs) \<Rightarrow> (case st s of (s', x) \<Rightarrow> (Inr x, (s', fs)))
      | (s, Some (Refused e) # fs) \<Rightarrow> (Inl e, (s, fs))
      | (s, Some (Unacked e) # fs) \<Rightarrow> (Inl e, (fst (st s), fs)))"

definition Read :: "('s \<Rightarrow> 'a) \<Rightarrow> 's world \<Rightarrow> ('s, 'a) answer" where
  "Read q = Run (\<lambda>s. (s, q s))"

definition Try :: "('s \<Rightarrow> error + ('s \<times> 'a)) \<Rightarrow> 's world \<Rightarrow> ('s, 'a) answer" where
  "Try st w =
     (case Run (\<lambda>s. case st s of Inl e \<Rightarrow> (s, Inl e) | Inr (s', x) \<Rightarrow> (s', Inr x)) w of
        (Inl e, w') \<Rightarrow> (Inl e, w')
      | (Inr (Inl e), w') \<Rightarrow> (Inl e, w')
      | (Inr (Inr x), w') \<Rightarrow> (Inr x, w'))"

definition andThen :: "('s, 'a) answer \<Rightarrow> ('a \<Rightarrow> 's world \<Rightarrow> ('s, 'b) answer) \<Rightarrow> ('s, 'b) answer" where
  "andThen r k = (case r of (Inl e, w) \<Rightarrow> (Inl e, w) | (Inr x, w) \<Rightarrow> k x w)"

definition Return :: "'a \<Rightarrow> 's world \<Rightarrow> ('s, 'a) answer" where
  "Return x w = (Inr x, w)"

lemma Run_calm [simp]: "Run st (s, []) = (Inr (snd (st s)), (fst (st s), []))"
  by (simp add: Run_def case_prod_unfold)

lemma Read_calm [simp]: "Read q (s, []) = (Inr (q s), (s, []))"
  by (simp add: Read_def)

lemma Try_calm [simp]:
  "Try st (s, []) = (case st s of Inl e \<Rightarrow> (Inl e, (s, [])) | Inr (s', x) \<Rightarrow> (Inr x, (s', [])))"
  by (auto simp: Try_def split: sum.splits)

lemma andThen_simps [simp]:
  "andThen (Inl e, w) k = (Inl e, w)" "andThen (Inr x, w) k = k x w"
  by (simp_all add: andThen_def)

lemma Return_simp [simp]: "Return x w = (Inr x, w)"
  by (simp add: Return_def)

text \<open>Whatever the faults, a statement leaves the state as it was or as it wrote it.\<close>

lemma Run_cases:
  assumes "Run st w = (r, w')"
  obtains (ran) "r = Inr (snd (st (fst w)))" "fst w' = fst (st (fst w))"
    | (refused) e where "r = Inl e" "fst w' = fst w"
    | (unacked) e where "r = Inl e" "fst w' = fst (st (fst w))"
proof -
  obtain s fs where w: "w = (s, fs)" by (cases w)
  show thesis
  proof (cases fs)
    case Nil
    with assms w ran show thesis by (auto simp: Run_def split: prod.splits)
  next
    case (Cons f fs')
    with assms w ran refused unacked show thesis
      by (auto simp: Run_def split: option.splits fault.splits prod.splits)
  qed
qed

lemma Run_state:
  "Run st w = (r, w') \<Longrightarrow> fst w' = fst w \<or> fst w' = fst (st (fst w))"
  by (cases rule: Run_cases) auto

lemma Run_Inr:
  assumes "Run st w = (Inr x, w')"
  shows "x = snd (st (fst w)) \<and> fst w' = fst (st (fst w))"
  using assms by (cases rule: Run_cases) auto

lemma Read_state: "Read q w = (r, w') \<Longrightarrow> fst w' = fst w"
  unfolding Read_def by (drule Run_state) auto

lemma Read_Inr: "Read q w = (Inr x, w') \<Longrightarrow> x = q (fst w) \<and> fst w' = fst w"
  unfolding Read_def by (drule Run_Inr) auto

lemma Try_cases:
  assumes "Try st w = (r, w')"
  shows "fst w' = fst w \<and> (\<forall>x. r = Inr x \<longrightarrow> False) \<or>
    (\<exists>s x. st (fst w) = Inr (s, x) \<and> fst w' = s \<and> (r = Inr x \<or> isl r))"
proof -
  let ?st = "\<lambda>s. case st s of Inl e \<Rightarrow> (s, Inl e) | Inr (s', x) \<Rightarrow> (s', Inr x)"
  obtain r0 where run: "Run ?st w = (r0, w')"
    and r: "r = (case r0 of Inl e \<Rightarrow> Inl e | Inr (Inl e) \<Rightarrow> Inl e | Inr (Inr x) \<Rightarrow> Inr x)"
    using assms by (auto simp: Try_def split: prod.splits sum.splits)
  show ?thesis
  proof (cases "st (fst w)")
    case (Inl e)
    from run show ?thesis
      by (cases rule: Run_cases) (use Inl r in \<open>auto\<close>)
  next
    case (Inr sx)
    obtain s x where sx: "sx = (s, x)" by (cases sx)
    from run show ?thesis
      by (cases rule: Run_cases) (use Inr sx r in \<open>auto\<close>)
  qed
qed

lemma andThen_Inr:
  "andThen r k = (Inr y, w) \<Longrightarrow> \<exists>x w1. r = (Inr x, w1) \<and> k x w1 = (Inr y, w)"
  by (auto simp: andThen_def split: prod.splits sum.splits)

text \<open>What an HTTP handler answers.\<close>

datatype 'a response =
    Ok 'a | NoContent | BadRequest error | Unauthorized error | Forbidden error | NotFound error
  | Conflict error | Gone error | TooManyRequests error | Internal error

definition Answer :: "('s, 'a) answer \<Rightarrow> ('a \<Rightarrow> 's world \<Rightarrow> 'b response \<times> 's world) \<Rightarrow> 'b response \<times> 's world" where
  "Answer r k = (case r of (Inl e, w) \<Rightarrow> (Internal e, w) | (Inr x, w) \<Rightarrow> k x w)"

lemma Answer_simps [simp]:
  "Answer (Inl e, w) k = (Internal e, w)" "Answer (Inr x, w) k = k x w"
  by (simp_all add: Answer_def)

text \<open>What holds of the world a statement leaves and of every continuation's world holds at the end.\<close>

lemma Answer_inv:
  assumes "\<And>e w. r = (Inl e, w) \<Longrightarrow> P w" "\<And>x w. r = (Inr x, w) \<Longrightarrow> P (snd (k x w))"
  shows "P (snd (Answer r k))"
  using assms by (auto simp: Answer_def split: prod.splits sum.splits)

lemma Answer_cases:
  assumes "Answer r k = (y, w')"
  obtains (failed) e where "r = (Inl e, w')" "y = Internal e"
    | (ran) x w where "r = (Inr x, w)" "k x w = (y, w')"
  using assms by (auto simp: Answer_def split: prod.splits sum.splits)

section \<open>Parts and transactions\<close>

text \<open>A statement on one part of a larger state.\<close>

definition Zoom :: "('s \<Rightarrow> 't) \<Rightarrow> ('t \<Rightarrow> 's \<Rightarrow> 's) \<Rightarrow> ('t world \<Rightarrow> ('t, 'a) answer) \<Rightarrow> 's world \<Rightarrow> ('s, 'a) answer" where
  "Zoom get put m w =
     (case m (get (fst w), snd w) of (r, (t, fs)) \<Rightarrow> (r, (put t (fst w), fs)))"

text \<open>
  A transaction runs its statements on a copy: an error or the wish not to commit (\<open>False\<close>) leaves
  the state as it was, the commit is one statement more.
\<close>

definition Transaction :: "('s world \<Rightarrow> ('s, 'a \<times> bool) answer) \<Rightarrow> 's world \<Rightarrow> ('s, 'a) answer" where
  "Transaction body w =
     (case body w of
        (Inl e, w') \<Rightarrow> (Inl e, (fst w, snd w'))
      | (Inr (x, False), w') \<Rightarrow> (Inr x, (fst w, snd w'))
      | (Inr (x, True), w') \<Rightarrow> Run (\<lambda>s. (fst w', x)) (fst w, snd w'))"

lemma Zoom_calm [simp]:
  "m (get s, []) = (r, (t, [])) \<Longrightarrow> Zoom get put m (s, []) = (r, (put t s, []))"
  by (simp add: Zoom_def)

lemma Transaction_state:
  assumes "Transaction body w = (r, w')"
  shows "fst w' = fst w \<or> (\<exists>x w1. body w = (Inr (x, True), w1) \<and> fst w' = fst w1)"
proof -
  obtain r0 w1 where b: "body w = (r0, w1)" by (rule prod.exhaust)
  show ?thesis
  proof (cases r0)
    case (Inr xc)
    obtain x c where xc: "xc = (x, c)" by (rule prod.exhaust)
    show ?thesis
      using assms Run_state [of "\<lambda>s. (fst w1, x)" "(fst w, snd w1)" r w']
      by (cases c) (auto simp: Transaction_def b Inr xc)
  qed (use assms b in \<open>auto simp: Transaction_def\<close>)
qed

section \<open>Queries\<close>

text \<open>
  A query changes nothing, answers what it would without faults whenever it answers, and always does
  when there are none; a composition of queries is one.
\<close>

definition answers :: "('s \<Rightarrow> 'a) \<Rightarrow> 's world \<Rightarrow> ('s, 'a) answer \<Rightarrow> bool" where
  "answers f w r = (fst (snd r) = fst w \<and> (\<forall>x. fst r = Inr x \<longrightarrow> x = f (fst w)) \<and> (snd w = [] \<longrightarrow> r = (Inr (f (fst w)), w)))"

definition query :: "('s world \<Rightarrow> ('s, 'a) answer) \<Rightarrow> bool" where
  "query m = (\<exists>f. \<forall>w. answers f w (m w))"

lemma query_calm: "query m \<Longrightarrow> \<exists>x. m (s, []) = (Inr x, (s, []))"
  unfolding query_def answers_def by force

lemma query_Read [intro]: "query (Read q)"
  unfolding query_def
proof (rule exI [of _ q], intro allI)
  fix w
  obtain r w' where m: "Read q w = (r, w')" by (rule prod.exhaust)
  have "Read q (fst w, []) = (Inr (q (fst w)), (fst w, []))" by simp
  then show "answers q w (Read q w)"
    using m Read_state [of q w r w'] Read_Inr [of q w] by (cases w) (auto simp: answers_def)
qed

lemma query_Return [intro]: "query (Return x)"
  unfolding query_def answers_def by (rule exI [of _ "\<lambda>_. x"]) simp

lemma query_andThen [intro]:
  assumes "query m" "\<And>x. query (k x)"
  shows "query (\<lambda>w. andThen (m w) k)"
proof -
  from assms(1) obtain f where f: "answers f w (m w)" for w
    unfolding query_def by blast
  from assms(2) obtain g where g: "answers (g x) w (k x w)" for x w
    unfolding query_def by metis
  show ?thesis
    unfolding query_def
  proof (rule exI [of _ "\<lambda>s. g (f s) s"], intro allI)
    fix w
    obtain r w' where m: "m w = (r, w')" by (rule prod.exhaust)
    show "answers (\<lambda>s. g (f s) s) w (andThen (m w) k)"
      using f [of w] g [of _ w'] m by (cases r) (auto simp: answers_def)
  qed
qed

lemma query_if [intro]: "query m \<Longrightarrow> query n \<Longrightarrow> query (\<lambda>w. if b then m w else n w)"
  by (cases b) auto

lemma query_option [intro]:
  "query m \<Longrightarrow> (\<And>x. query (n x)) \<Longrightarrow> query (\<lambda>w. case a of None \<Rightarrow> m w | Some x \<Rightarrow> n x w)"
  by (cases a) auto

lemma query_list [intro]:
  "query m \<Longrightarrow> (\<And>x xs. query (n x xs)) \<Longrightarrow> query (\<lambda>w. case a of [] \<Rightarrow> m w | x # xs \<Rightarrow> n x xs w)"
  by (cases a) auto

lemma query_Zoom [intro]:
  assumes "query m" "\<And>s. put (get s) s = s"
  shows "query (Zoom get put m)"
proof -
  from assms(1) obtain f where f: "answers f w (m w)" for w
    unfolding query_def by blast
  show ?thesis
    unfolding query_def
  proof (rule exI [of _ "\<lambda>s. f (get s)"], intro allI)
    fix w
    obtain r t fs where m: "m (get (fst w), snd w) = (r, (t, fs))" by (metis prod.collapse)
    show "answers (\<lambda>s. f (get s)) w (Zoom get put m w)"
      using f [of "(get (fst w), snd w)"] m assms(2) by (cases w) (auto simp: Zoom_def answers_def)
  qed
qed

lemma query_answer:
  assumes "query m" "m (fst w, []) = (Inr x, w0)" "m w = (r, w')"
  shows "fst w' = fst w \<and> (isl r \<or> r = Inr x)"
proof -
  from assms(1) obtain f where f: "answers f w (m w)" for w
    unfolding query_def by blast
  show ?thesis using f [of w] f [of "(fst w, [])"] assms(2,3) by (cases r) (auto simp: answers_def)
qed

section \<open>Invariants of calls\<close>

text \<open>What every statement of a call keeps, the call keeps, whatever fails.\<close>

named_theorems keeping

definition keeps :: "('s \<Rightarrow> bool) \<Rightarrow> ('s world \<Rightarrow> 'r \<times> 's world) \<Rightarrow> bool" where
  "keeps I m = (\<forall>w. I (fst w) \<longrightarrow> I (fst (snd (m w))))"

lemma keeps_apply: "keeps I m \<Longrightarrow> I (fst w) \<Longrightarrow> I (fst (snd (m w)))"
  unfolding keeps_def by blast

lemma keeps_stay [keeping]: "keeps I (\<lambda>w. (x, w))"
  by (simp add: keeps_def)

lemma keeps_Return [keeping]: "keeps I (Return x)"
  by (simp add: keeps_def)

lemma keeps_Read [keeping]: "keeps I (Read q)"
  unfolding keeps_def
proof (intro allI impI)
  fix w :: "'a world"
  assume "I (fst w)"
  then show "I (fst (snd (Read q w)))" using Read_state [of q w] by (metis prod.collapse)
qed

lemma keeps_Run:
  assumes "\<And>s. I s \<Longrightarrow> I (fst (st s))"
  shows "keeps I (Run st)"
  unfolding keeps_def
proof (intro allI impI)
  fix w :: "'a world"
  assume "I (fst w)"
  then show "I (fst (snd (Run st w)))"
    using Run_state [of st w] assms by (metis prod.collapse)
qed

lemma keeps_Try:
  assumes "\<And>s s' x. I s \<Longrightarrow> st s = Inr (s', x) \<Longrightarrow> I s'"
  shows "keeps I (Try st)"
  unfolding keeps_def
proof (intro allI impI)
  fix w :: "'a world"
  assume "I (fst w)"
  then show "I (fst (snd (Try st w)))"
    using Try_cases [of st w] assms by (metis prod.collapse)
qed

lemma keeps_bind [keeping]:
  assumes "keeps I m" "\<And>x. keeps I (k x)"
  shows "keeps I (\<lambda>w. case m w of (x, w) \<Rightarrow> k x w)"
  unfolding keeps_def case_prod_unfold using keeps_apply [OF assms(1)] keeps_apply [OF assms(2)] by blast

lemma keeps_andThen [keeping]:
  assumes "keeps I m" "\<And>x. keeps I (k x)"
  shows "keeps I (\<lambda>w. andThen (m w) k)"
  using assms by (auto simp: keeps_def andThen_def case_prod_unfold split: sum.splits) (metis prod.collapse)+

lemma keeps_Answer [keeping]:
  assumes "keeps I m" "\<And>x. keeps I (k x)"
  shows "keeps I (\<lambda>w. Answer (m w) k)"
  using assms by (auto simp: keeps_def Answer_def case_prod_unfold split: sum.splits) (metis prod.collapse)+

lemma keeps_if [keeping]: "keeps I m \<Longrightarrow> keeps I n \<Longrightarrow> keeps I (\<lambda>w. if b then m w else n w)"
  by (cases b) auto

lemma keeps_option [keeping]:
  "keeps I m \<Longrightarrow> (\<And>x. keeps I (n x)) \<Longrightarrow> keeps I (\<lambda>w. case a of None \<Rightarrow> m w | Some x \<Rightarrow> n x w)"
  by (cases a) auto

lemma keeps_sum [keeping]:
  "(\<And>x. keeps I (m x)) \<Longrightarrow> (\<And>x. keeps I (n x)) \<Longrightarrow> keeps I (\<lambda>w. case a of Inl x \<Rightarrow> m x w | Inr x \<Rightarrow> n x w)"
  by (cases a) auto

lemma keeps_prod [keeping]: "(\<And>x y. keeps I (m x y)) \<Longrightarrow> keeps I (\<lambda>w. case a of (x, y) \<Rightarrow> m x y w)"
  by (cases a) auto

lemma keeps_case [keeping]:
  "(\<And>x y. keeps I (m x y)) \<Longrightarrow> keeps I (case p of (x, y) \<Rightarrow> m x y)"
  "keeps I n \<Longrightarrow> (\<And>x. keeps I (k x)) \<Longrightarrow> keeps I (case a of None \<Rightarrow> n | Some x \<Rightarrow> k x)"
  "keeps I n \<Longrightarrow> keeps I n' \<Longrightarrow> keeps I (if b then n else n')"
  by (simp_all split: prod.split option.split)

lemma keeps_Let [keeping]: "keeps I (m x) \<Longrightarrow> keeps I (\<lambda>w. let y = x in m y w)"
  by simp

lemma keeps_Transaction [keeping]:
  assumes "keeps I m"
  shows "keeps I (Transaction m)"
  unfolding keeps_def
proof (intro allI impI)
  fix w :: "'a world"
  assume "I (fst w)"
  then show "I (fst (snd (Transaction m w)))"
    using Transaction_state [of m w] assms unfolding keeps_def by (metis prod.collapse snd_conv)
qed

end
