(* ===== verification/EmailStore.thy ===== *)
theory EmailStore
  imports Statement
begin

text \<open>
  The outbound email table and the statements of \<^verbatim>\<open>internal/domain/email/store.go\<close>, with the rows of
  \<^verbatim>\<open>internal/models/email/email.go\<close>.  A table is the list of its rows, a nullable column an option,
  and each method is one function per SQL statement in the order the code issues them.  Every
  statement may fail: the database carries the faults its environment has in store for the next
  statements, either a refusal (nothing was written) or a lost acknowledgement (it was written,
  the caller saw an error).  \<^verbatim>\<open>relay_assignments\<close> lives here too, because the claim and the
  recovery statements read it.
\<close>

section \<open>Rows\<close>

datatype status =
    StatusPending | StatusQueued | StatusProcessing | StatusSent | StatusFailed
  | StatusSuppressed | StatusScheduled | StatusCancelled

fun status_text :: "status \<Rightarrow> string" where
  "status_text StatusPending = ''pending''"
| "status_text StatusQueued = ''queued''"
| "status_text StatusProcessing = ''processing''"
| "status_text StatusSent = ''sent''"
| "status_text StatusFailed = ''failed''"
| "status_text StatusSuppressed = ''suppressed''"
| "status_text StatusScheduled = ''scheduled''"
| "status_text StatusCancelled = ''cancelled''"

definition validStatuses :: "status list" where
  "validStatuses =
    [StatusPending, StatusQueued, StatusProcessing, StatusSent, StatusFailed, StatusSuppressed,
     StatusScheduled, StatusCancelled]"

definition ValidStatus :: "string \<Rightarrow> bool" where
  "ValidStatus s = List.member (map status_text validStatuses) s"

record attachment =
  at_filename :: string
  at_content :: string
  at_content_type :: string
  at_storage_key :: string
  at_size :: int
  at_template_attachment_id :: string
  at_template_asset_id :: string
  at_content_id :: string

record email =
  e_id :: string
  e_project_id :: string
  e_created_by :: string
  e_api_key_id :: string
  e_credential_id :: string
  e_smtp_server_id :: string
  e_delivered_via :: string
  e_smtp_group_id :: string
  e_sender :: string
  e_recipients :: "string list"
  e_subject :: string
  e_template_name :: string
  e_html_body :: string
  e_text_body :: string
  e_attachments :: "attachment list"
  e_headers :: "string \<rightharpoonup> string"
  e_tags :: "string list"
  e_metadata :: "string \<rightharpoonup> string"
  e_list_unsubscribe_url :: string
  e_list_unsubscribe_mailto :: string
  e_unsubscribe_list_id :: string
  e_tracked :: bool
  e_opened_at :: "time option"
  e_clicked_at :: "time option"
  e_open_count :: int
  e_click_count :: int
  e_list_unsubscribe_post :: bool
  e_signing :: string
  e_system :: bool
  e_status :: status
  e_error_message :: string
  e_attempts :: int
  e_max_attempts :: int
  e_next_attempt_at :: "time option"
  e_claimed_at :: "time option"
  e_created_at :: time
  e_scheduled_at :: "time option"
  e_sent_at :: "time option"

text \<open>The zero value of every field but the status, which every literal of the code sets.\<close>

definition zero_email :: email where
  "zero_email =
     \<lparr>e_id = [], e_project_id = [], e_created_by = [], e_api_key_id = [], e_credential_id = [],
      e_smtp_server_id = [], e_delivered_via = [], e_smtp_group_id = [], e_sender = [],
      e_recipients = [], e_subject = [], e_template_name = [], e_html_body = [], e_text_body = [],
      e_attachments = [], e_headers = Map.empty, e_tags = [], e_metadata = Map.empty,
      e_list_unsubscribe_url = [], e_list_unsubscribe_mailto = [], e_unsubscribe_list_id = [],
      e_tracked = False, e_opened_at = None, e_clicked_at = None, e_open_count = 0,
      e_click_count = 0, e_list_unsubscribe_post = False, e_signing = [], e_system = False,
      e_status = StatusPending, e_error_message = [], e_attempts = 0, e_max_attempts = 0,
      e_next_attempt_at = None, e_claimed_at = None, e_created_at = - 62135596800000000000,
      e_scheduled_at = None, e_sent_at = None\<rparr>"

record assignment =
  as_email_id :: string
  as_node_id :: string
  as_server_id :: string
  as_email_created_at :: time
  as_envelope_from :: string
  as_recipients :: "string list"
  as_raw :: string
  as_delivered :: int
  as_created_at :: time
  as_expires_at :: time

record volume_row =
  v_project :: string
  v_minute :: time
  v_accepted :: int

record key_row =
  k_project :: string
  k_key :: string
  k_email_id :: "string option"
  k_sandbox_email_id :: "string option"
  k_created_at :: time

record db =
  db_emails :: "email list"
  db_assignments :: "assignment list"
  db_volume :: "volume_row list"
  db_keys :: "key_row list"
  db_faults :: "fault option list"

section \<open>Running a statement\<close>

definition pop_fault :: "db \<Rightarrow> fault option \<times> db" where
  "pop_fault d =
     (case db_faults d of
        [] \<Rightarrow> (None, d)
      | f # fs \<Rightarrow> (f, d\<lparr>db_faults := fs\<rparr>))"

definition Exec :: "(db \<Rightarrow> db \<times> 'a) \<Rightarrow> db \<Rightarrow> (error + 'a) \<times> db" where
  "Exec st d =
     (case pop_fault d of
        (None, d') \<Rightarrow> (let (d'', r) = st d' in (Inr r, d''))
      | (Some (Refused e), d') \<Rightarrow> (Inl e, d')
      | (Some (Unacked e), d') \<Rightarrow> (Inl e, fst (st d')))"

definition Query :: "(db \<Rightarrow> 'a) \<Rightarrow> db \<Rightarrow> (error + 'a) \<times> db" where
  "Query q = Exec (\<lambda>d. (d, q d))"

definition update_emails :: "(email \<Rightarrow> bool) \<Rightarrow> (email \<Rightarrow> email) \<Rightarrow> db \<Rightarrow> db \<times> nat" where
  "update_emails p f d =
     (d\<lparr>db_emails := sql_update p f (db_emails d)\<rparr>, sql_count p (db_emails d))"

definition delete_emails :: "(email \<Rightarrow> bool) \<Rightarrow> db \<Rightarrow> db \<times> nat" where
  "delete_emails p d = (d\<lparr>db_emails := sql_delete p (db_emails d)\<rparr>, sql_count p (db_emails d))"

definition rows_affected :: "(error + nat) \<times> db \<Rightarrow> (error + bool) \<times> db" where
  "rows_affected r = (case r of (Inl e, d) \<Rightarrow> (Inl e, d) | (Inr n, d) \<Rightarrow> (Inr (0 < n), d))"

section \<open>The queue source\<close>

definition claimable :: "time \<Rightarrow> email \<Rightarrow> bool" where
  "claimable now e =
     ((e_status e = StatusQueued \<or> e_status e = StatusScheduled) \<and>
      (case e_next_attempt_at e of None \<Rightarrow> False | Some t \<Rightarrow> t \<le> now))"

definition next_key :: "email \<Rightarrow> time" where
  "next_key e = (case e_next_attempt_at e of None \<Rightarrow> 0 | Some t \<Rightarrow> t)"

definition claim_row :: "time \<Rightarrow> email \<Rightarrow> email" where
  "claim_row now e =
     e\<lparr>e_status := StatusProcessing, e_claimed_at := Some now, e_attempts := e_attempts e + 1\<rparr>"

definition claim_ids :: "time \<Rightarrow> nat \<Rightarrow> string set \<Rightarrow> (email \<Rightarrow> bool) \<Rightarrow> email list \<Rightarrow> string list" where
  "claim_ids now limit locked fair es =
     map e_id (take limit (sort_key next_key
       (filter (\<lambda>e. claimable now e \<and> fair e \<and> e_id e \<notin> locked) es)))"

definition claim_stmt :: "time \<Rightarrow> nat \<Rightarrow> string set \<Rightarrow> (db \<Rightarrow> email \<Rightarrow> bool) \<Rightarrow> db \<Rightarrow> db \<times> email list" where
  "claim_stmt now limit locked fair d =
     (let ids = claim_ids now limit locked (fair d) (db_emails d)
      in (d\<lparr>db_emails := sql_update (\<lambda>e. e_id e \<in> set ids) (claim_row now) (db_emails d)\<rparr>,
          map (claim_row now) (filter (\<lambda>e. e_id e \<in> set ids) (db_emails d))))"

definition live_assignment :: "time \<Rightarrow> db \<Rightarrow> string \<Rightarrow> bool" where
  "live_assignment now d i = list_ex (\<lambda>a. as_email_id a = i \<and> now < as_expires_at a) (db_assignments d)"

definition busy :: "time \<Rightarrow> db \<Rightarrow> string \<Rightarrow> nat" where
  "busy now d p =
     sql_count (\<lambda>b. e_project_id b = p \<and> e_status b = StatusProcessing \<and>
                    \<not> live_assignment now d (e_id b)) (db_emails d)"

definition row_number :: "time \<Rightarrow> db \<Rightarrow> email \<Rightarrow> nat" where
  "row_number now d e =
     Suc (sql_count (\<lambda>q. claimable now q \<and> e_project_id q = e_project_id e \<and>
            (next_key q < next_key e \<or> next_key q = next_key e \<and> e_id q < e_id e)) (db_emails d))"

definition fair_share :: "time \<Rightarrow> nat \<Rightarrow> db \<Rightarrow> email \<Rightarrow> bool" where
  "fair_share now perProject d e = (row_number now d e + busy now d (e_project_id e) \<le> perProject)"

definition ClaimDue :: "time \<Rightarrow> nat \<Rightarrow> nat \<Rightarrow> string set \<Rightarrow> db \<Rightarrow> (error + email list) \<times> db" where
  "ClaimDue now limit perProject locked d =
     (if 0 < perProject
      then Exec (claim_stmt now limit locked (fair_share now perProject)) d
      else Exec (claim_stmt now limit locked (\<lambda>_ _. True)) d)"

definition held_under :: "string \<Rightarrow> time \<Rightarrow> time option \<Rightarrow> email \<Rightarrow> bool" where
  "held_under i created claimed e =
     (e_id e = i \<and> e_created_at e = created \<and> e_status e = StatusProcessing \<and>
      claimed \<noteq> None \<and> e_claimed_at e = claimed)"

definition requeue_row :: "time \<Rightarrow> error \<Rightarrow> email \<Rightarrow> email" where
  "requeue_row next msg e =
     e\<lparr>e_status := StatusQueued, e_next_attempt_at := Some next, e_error_message := msg,
       e_claimed_at := None\<rparr>"

definition Requeue ::
    "string \<Rightarrow> time \<Rightarrow> time option \<Rightarrow> time \<Rightarrow> error \<Rightarrow> db \<Rightarrow> (error + bool) \<times> db" where
  "Requeue i created claimed next msg d =
     rows_affected (Exec (update_emails (held_under i created claimed) (requeue_row next msg)) d)"

definition handed_before :: "string \<Rightarrow> time \<Rightarrow> time \<Rightarrow> email \<Rightarrow> bool" where
  "handed_before i created handed e =
     (e_id e = i \<and> e_created_at e = created \<and> e_status e = StatusProcessing \<and>
      (case e_claimed_at e of None \<Rightarrow> False | Some c \<Rightarrow> c \<le> handed))"

definition RequeueHanded ::
    "string \<Rightarrow> time \<Rightarrow> time \<Rightarrow> time \<Rightarrow> error \<Rightarrow> db \<Rightarrow> (error + bool) \<times> db" where
  "RequeueHanded i created handed next msg d =
     rows_affected (Exec (update_emails (handed_before i created handed) (requeue_row next msg)) d)"

definition finalize_row :: "status \<Rightarrow> error \<Rightarrow> string \<Rightarrow> time option \<Rightarrow> email \<Rightarrow> email" where
  "finalize_row st msg via sent e =
     e\<lparr>e_status := st, e_error_message := msg, e_sent_at := sent,
       e_delivered_via := (if via = [] then e_delivered_via e else via),
       e_html_body := (if e_system e then [] else e_html_body e),
       e_text_body := (if e_system e then [] else e_text_body e),
       e_claimed_at := None, e_next_attempt_at := None\<rparr>"

definition Finalize ::
    "string \<Rightarrow> time \<Rightarrow> time option \<Rightarrow> status \<Rightarrow> error \<Rightarrow> string \<Rightarrow> time option \<Rightarrow> db \<Rightarrow> (error + bool) \<times> db" where
  "Finalize i created claimed st msg via sent d =
     rows_affected (Exec (update_emails (held_under i created claimed) (finalize_row st msg via sent)) d)"

definition stuck :: "time \<Rightarrow> time \<Rightarrow> db \<Rightarrow> email \<Rightarrow> bool" where
  "stuck olderThan now d e =
     (e_status e = StatusProcessing \<and>
      (case e_claimed_at e of None \<Rightarrow> False | Some c \<Rightarrow> c < olderThan) \<and>
      \<not> live_assignment now d (e_id e))"

definition recover_row :: "time \<Rightarrow> email \<Rightarrow> email" where
  "recover_row now e =
     e\<lparr>e_status := StatusQueued, e_claimed_at := None, e_next_attempt_at := Some now\<rparr>"

definition RecoverStuck :: "time \<Rightarrow> time \<Rightarrow> db \<Rightarrow> (error + nat) \<times> db" where
  "RecoverStuck olderThan now d =
     Exec (\<lambda>d. update_emails (stuck olderThan now d) (recover_row now) d) d"

section \<open>Accepting, retrying and cancelling\<close>

definition date_trunc_minute :: "time \<Rightarrow> time" where
  "date_trunc_minute t = t - t mod 60000000000"

definition put_row :: "email \<Rightarrow> email" where
  "put_row e = e\<lparr>e_delivered_via := [], e_opened_at := None, e_clicked_at := None,
                 e_open_count := 0, e_click_count := 0\<rparr>"

fun upsert_volume :: "string \<Rightarrow> time \<Rightarrow> volume_row list \<Rightarrow> volume_row list" where
  "upsert_volume p m [] = [\<lparr>v_project = p, v_minute = m, v_accepted = 1\<rparr>]"
| "upsert_volume p m (v # vs) =
     (if v_project v = p \<and> v_minute v = m then v\<lparr>v_accepted := v_accepted v + 1\<rparr> # vs
      else v # upsert_volume p m vs)"

definition same_row :: "email \<Rightarrow> email \<Rightarrow> bool" where
  "same_row e r = (e_id r = e_id e \<and> e_created_at r = e_created_at e)"

definition put_stmt :: "email \<Rightarrow> db \<Rightarrow> db \<times> (error + unit)" where
  "put_stmt e d =
     (if list_ex (same_row e) (db_emails d) then (d, Inl ''duplicate key'')
      else (d\<lparr>db_emails := db_emails d @ [put_row e],
              db_volume := upsert_volume (e_project_id e) (date_trunc_minute (e_created_at e)) (db_volume d)\<rparr>,
            Inr ()))"

definition put_system_stmt :: "email \<Rightarrow> db \<Rightarrow> db \<times> (error + unit)" where
  "put_system_stmt e d =
     (if list_ex (same_row e) (db_emails d) then (d, Inl ''duplicate key'')
      else (d\<lparr>db_emails := db_emails d @ [put_row e]\<rparr>, Inr ()))"

definition flat :: "(error + (error + 'a)) \<times> db \<Rightarrow> (error + 'a) \<times> db" where
  "flat r = (case r of (Inl e, d) \<Rightarrow> (Inl e, d) | (Inr x, d) \<Rightarrow> (x, d))"

definition created_or :: "time \<Rightarrow> email \<Rightarrow> email" where
  "created_or now e = (if e_created_at e = zero_time then e\<lparr>e_created_at := now\<rparr> else e)"

definition Put :: "time \<Rightarrow> email \<Rightarrow> db \<Rightarrow> (error + unit) \<times> db" where
  "Put now e0 d =
     (let e = created_or now e0
      in flat (Exec (if e_system e then put_system_stmt e else put_stmt e) d))"

definition volume_since :: "string \<Rightarrow> time \<Rightarrow> db \<Rightarrow> int" where
  "volume_since p since d =
     sum_list (map v_accepted
       (filter (\<lambda>v. v_project v = p \<and> date_trunc_minute since \<le> v_minute v) (db_volume d)))"

definition AcceptedSince :: "string \<Rightarrow> time \<Rightarrow> db \<Rightarrow> (error + int) \<times> db" where
  "AcceptedSince p since d = Query (volume_since p since) d"

definition hour :: int where "hour = 3600 * 1000000000"
definition day :: int where "day = 24 * hour"

fun check_windows :: "email \<Rightarrow> (int \<times> int \<times> string) list \<Rightarrow> db \<Rightarrow> (error + string) \<times> db" where
  "check_windows e [] d = (Inr [], d)"
| "check_windows e ((limit, since, window) # ws) d =
     (if limit \<le> 0 then check_windows e ws d
      else case Query (volume_since (e_project_id e) (e_created_at e - since)) d of
             (Inl err, d') \<Rightarrow> (Inl err, d')
           | (Inr n, d') \<Rightarrow> if limit \<le> n then (Inr window, d') else check_windows e ws d')"

definition rollback :: "db \<Rightarrow> db \<Rightarrow> db" where
  "rollback d0 d = d0\<lparr>db_faults := db_faults d\<rparr>"

definition PutWithin :: "time \<Rightarrow> email \<Rightarrow> int \<Rightarrow> int \<Rightarrow> db \<Rightarrow> (error + string) \<times> db" where
  "PutWithin now e0 hourly daily d0 =
     (let e = created_or now e0 in
      case Query (\<lambda>_. ()) d0 of  \<comment> \<open>BeginTx\<close>
        (Inl err, d) \<Rightarrow> (Inl err, rollback d0 d)
      | (Inr _, d) \<Rightarrow>
      case Query (\<lambda>_. ()) d of  \<comment> \<open>the advisory lock\<close>
        (Inl err, d) \<Rightarrow> (Inl err, rollback d0 d)
      | (Inr _, d) \<Rightarrow>
      case check_windows e [(hourly, hour, ''hour''), (daily, day, ''day'')] d of
        (Inl err, d) \<Rightarrow> (Inl err, rollback d0 d)
      | (Inr w, d) \<Rightarrow>
      if w \<noteq> [] then (Inr w, rollback d0 d)
      else case flat (Exec (put_stmt e) d) of
        (Inl err, d) \<Rightarrow> (Inl err, rollback d0 d)
      | (Inr _, d) \<Rightarrow>
      case pop_fault d of  \<comment> \<open>Commit\<close>
        (None, d) \<Rightarrow> (Inr [], d)
      | (Some (Refused err), d) \<Rightarrow> (Inl err, rollback d0 d)
      | (Some (Unacked err), d) \<Rightarrow> (Inl err, d))"

definition retryable :: "string \<Rightarrow> string \<Rightarrow> email \<Rightarrow> bool" where
  "retryable p i e = (e_project_id e = p \<and> e_id e = i \<and> e_status e = StatusFailed)"

definition reset_row :: "time \<Rightarrow> string list \<Rightarrow> email \<Rightarrow> email" where
  "reset_row now rcpts e =
     e\<lparr>e_status := StatusQueued, e_error_message := [], e_attempts := 0,
       e_next_attempt_at := Some now, e_claimed_at := None, e_recipients := rcpts\<rparr>"

definition Reset :: "string \<Rightarrow> string \<Rightarrow> string list \<Rightarrow> time \<Rightarrow> db \<Rightarrow> (error + bool) \<times> db" where
  "Reset p i rcpts now d = rows_affected (Exec (update_emails (retryable p i) (reset_row now rcpts)) d)"

definition cancellable :: "string \<Rightarrow> string \<Rightarrow> time \<Rightarrow> email \<Rightarrow> bool" where
  "cancellable p i created e =
     (e_project_id e = p \<and> e_id e = i \<and> e_created_at e = created \<and>
      (e_status e = StatusPending \<or> e_status e = StatusQueued \<or> e_status e = StatusScheduled))"

definition cancel_row :: "email \<Rightarrow> email" where
  "cancel_row e = e\<lparr>e_status := StatusCancelled, e_next_attempt_at := None, e_claimed_at := None\<rparr>"

definition Cancel :: "string \<Rightarrow> string \<Rightarrow> time \<Rightarrow> db \<Rightarrow> (error + bool) \<times> db" where
  "Cancel p i created d = rows_affected (Exec (update_emails (cancellable p i created) cancel_row) d)"

section \<open>How statements change rows\<close>

definition row_at :: "db \<Rightarrow> string \<Rightarrow> time \<Rightarrow> email option" where
  "row_at d i c = find (\<lambda>e. e_id e = i \<and> e_created_at e = c) (db_emails d)"

definition pk :: "email \<Rightarrow> string \<times> time" where
  "pk e = (e_id e, e_created_at e)"

definition pk_ok :: "db \<Rightarrow> bool" where
  "pk_ok d = distinct (map pk (db_emails d))"

definition ids_ok :: "db \<Rightarrow> bool" where
  "ids_ok d = distinct (map e_id (db_emails d))"

lemma ids_ok_pk_ok: "ids_ok d \<Longrightarrow> pk_ok d"
  unfolding ids_ok_def pk_ok_def distinct_map pk_def inj_on_def by auto

lemma row_keys [simp]:
  "e_id (claim_row n e) = e_id e" "e_created_at (claim_row n e) = e_created_at e"
  "e_id (requeue_row t m e) = e_id e" "e_created_at (requeue_row t m e) = e_created_at e"
  "e_id (finalize_row st m v s e) = e_id e" "e_created_at (finalize_row st m v s e) = e_created_at e"
  "e_id (recover_row n e) = e_id e" "e_created_at (recover_row n e) = e_created_at e"
  "e_id (reset_row n rs e) = e_id e" "e_created_at (reset_row n rs e) = e_created_at e"
  "e_id (cancel_row e) = e_id e" "e_created_at (cancel_row e) = e_created_at e"
  "e_id (put_row e) = e_id e" "e_created_at (put_row e) = e_created_at e"
  by (simp_all add: claim_row_def requeue_row_def finalize_row_def recover_row_def reset_row_def
      cancel_row_def put_row_def)

lemma row_projects [simp]:
  "e_project_id (claim_row n e) = e_project_id e" "e_project_id (requeue_row t m e) = e_project_id e"
  "e_project_id (finalize_row st m v s e) = e_project_id e" "e_project_id (recover_row n e) = e_project_id e"
  "e_project_id (reset_row n rs e) = e_project_id e" "e_project_id (cancel_row e) = e_project_id e"
  "e_project_id (put_row e) = e_project_id e"
  by (simp_all add: claim_row_def requeue_row_def finalize_row_def recover_row_def reset_row_def
      cancel_row_def put_row_def)

lemma row_states [simp]:
  "e_status (claim_row n e) = StatusProcessing" "e_claimed_at (claim_row n e) = Some n"
  "e_status (requeue_row t m e) = StatusQueued" "e_claimed_at (requeue_row t m e) = None"
  "e_status (finalize_row st m v s e) = st" "e_claimed_at (finalize_row st m v s e) = None"
  "e_status (recover_row n e) = StatusQueued" "e_claimed_at (recover_row n e) = None"
  "e_status (reset_row n rs e) = StatusQueued" "e_claimed_at (reset_row n rs e) = None"
  "e_status (cancel_row e) = StatusCancelled" "e_claimed_at (cancel_row e) = None"
  "e_status (put_row e) = e_status e" "e_claimed_at (put_row e) = e_claimed_at e"
  by (simp_all add: claim_row_def requeue_row_def finalize_row_def recover_row_def reset_row_def
      cancel_row_def put_row_def)

lemma row_next [simp]:
  "e_next_attempt_at (claim_row n e) = e_next_attempt_at e"
  "e_next_attempt_at (requeue_row t m e) = Some t" "e_next_attempt_at (finalize_row st m v s e) = None"
  "e_next_attempt_at (recover_row n e) = Some n" "e_next_attempt_at (reset_row n rs e) = Some n"
  "e_next_attempt_at (cancel_row e) = None"
  by (simp_all add: claim_row_def requeue_row_def finalize_row_def recover_row_def reset_row_def
      cancel_row_def)

lemma find_sql_update:
  "(\<And>r. p r \<Longrightarrow> q (f r) = q r) \<Longrightarrow>
   find q (sql_update p f rs) = map_option (\<lambda>r. if p r then f r else r) (find q rs)"
  by (induction rs) (auto simp: sql_update_def)

lemma row_at_update:
  assumes "\<And>e. p e \<Longrightarrow> e_id (f e) = e_id e \<and> e_created_at (f e) = e_created_at e"
  shows "row_at (fst (update_emails p f d)) i c = map_option (\<lambda>e. if p e then f e else e) (row_at d i c)"
  unfolding row_at_def update_emails_def by (simp add: find_sql_update assms)

lemma row_at_Some: "row_at d i c = Some e \<Longrightarrow> e \<in> set (db_emails d) \<and> e_id e = i \<and> e_created_at e = c"
  unfolding row_at_def by (metis (mono_tags, lifting) find_Some_iff nth_mem)

lemma row_at_unique:
  assumes "pk_ok d" and "e \<in> set (db_emails d)"
  shows "row_at d (e_id e) (e_created_at e) = Some e"
proof (cases "row_at d (e_id e) (e_created_at e)")
  case None
  then show ?thesis using assms(2) by (auto simp: row_at_def find_None_iff)
next
  case (Some r)
  then have "r \<in> set (db_emails d)" "pk r = pk e" using row_at_Some by (auto simp: pk_def)
  then have "r = e" using assms by (auto simp: pk_ok_def distinct_map inj_on_def)
  with Some show ?thesis by simp
qed

lemma ids_update:
  "(\<And>e. p e \<Longrightarrow> e_id (f e) = e_id e) \<Longrightarrow>
   map e_id (db_emails (fst (update_emails p f d))) = map e_id (db_emails d)"
  by (simp add: update_emails_def map_sql_update)

lemma pk_update:
  "(\<And>e. p e \<Longrightarrow> pk (f e) = pk e) \<Longrightarrow>
   map pk (db_emails (fst (update_emails p f d))) = map pk (db_emails d)"
  by (simp add: update_emails_def map_sql_update)

section \<open>What a statement can do under faults\<close>

text \<open>Whatever the environment does, a statement leaves the tables as they were or as written.\<close>

lemma pop_fault_tables:
  assumes "pop_fault d = (f, d')"
  shows "db_emails d' = db_emails d" "db_assignments d' = db_assignments d"
    "db_volume d' = db_volume d" "db_keys d' = db_keys d"
  using assms by (auto simp: pop_fault_def split: list.splits)

lemma pop_fault_eq: "snd (pop_fault d) = d\<lparr>db_faults := tl (db_faults d)\<rparr>"
  by (cases "db_faults d") (auto simp: pop_fault_def)

lemma Exec_cases:
  assumes "Exec st d = (r, d')"
  obtains (ran) x where "r = Inr x" "st (snd (pop_fault d)) = (d', x)"
    | (refused) err where "r = Inl err" "d' = snd (pop_fault d)"
    | (unacked) err where "r = Inl err" "d' = fst (st (snd (pop_fault d)))"
  using assms by (auto simp: Exec_def split: prod.splits option.splits fault.splits)

lemma Exec_no_fault: "db_faults d = [] \<Longrightarrow> Exec st d = (Inr (snd (st d)), fst (st d))"
  by (simp add: Exec_def pop_fault_def case_prod_unfold Let_def)

lemma row_at_pop [simp]: "row_at (snd (pop_fault d)) i c = row_at d i c"
  by (simp add: row_at_def pop_fault_eq)

lemma emails_pop [simp]: "db_emails (snd (pop_fault d)) = db_emails d"
  by (simp add: pop_fault_eq)

lemma live_assignment_pop [simp]: "live_assignment n (snd (pop_fault d)) i = live_assignment n d i"
  by (simp add: live_assignment_def pop_fault_eq)

lemma pk_ok_pop [simp]: "pk_ok (snd (pop_fault d)) = pk_ok d"
  by (simp add: pk_ok_def)

text \<open>
  An update keyed on one row and reported as a boolean: told \<open>True\<close>, the row was there and
  carries the change; told \<open>False\<close>, nothing changed; told an error, either.
\<close>

lemma keyed_update_cases:
  assumes run: "rows_affected (Exec (update_emails p f) d) = (r, d')"
    and keep: "\<And>e. p e \<Longrightarrow> e_id (f e) = e_id e \<and> e_created_at (f e) = e_created_at e"
    and key: "\<And>e. p e \<Longrightarrow> e_id e = i \<and> e_created_at e = c"
    and ok: "pk_ok d"
  obtains (written) e where "r = Inr True \<or> (\<exists>m. r = Inl m)" "row_at d i c = Some e" "p e"
      "db_emails d' = sql_update p f (db_emails d)"
    | (untouched) "r = Inr False \<or> (\<exists>m. r = Inl m)" "db_emails d' = db_emails d"
        "r = Inr False \<Longrightarrow> \<forall>e. row_at d i c = Some e \<longrightarrow> \<not> p e"
proof -
  obtain r0 where ex: "Exec (update_emails p f) d = (r0, d')" and
    r: "rows_affected (r0, d') = (r, d')"
    using run by (cases "Exec (update_emails p f) d") (auto simp: rows_affected_def split: sum.splits)
  let ?d = "snd (pop_fault d)"
  have there: "\<exists>e. row_at d i c = Some e \<and> p e" if "e \<in> set (db_emails d)" "p e" for e
    using row_at_unique [OF ok that(1)] key [OF that(2)] that(2) by auto
  have hit: "(\<exists>e. row_at d i c = Some e \<and> p e) \<or> db_emails (fst (update_emails p f ?d)) = db_emails d"
    using there by (cases "\<exists>e \<in> set (db_emails d). p e") (auto simp: update_emails_def sql_update_noop)
  have upd: "db_emails (fst (update_emails p f ?d)) = sql_update p f (db_emails d)"
    by (simp add: update_emails_def)
  show thesis
    using ex
  proof (cases rule: Exec_cases)
    case (ran n)
    then have n: "n = sql_count p (db_emails d)" and d': "db_emails d' = sql_update p f (db_emails d)"
      by (auto simp: update_emails_def)
    have r': "r = Inr (0 < n)" using r ran by (simp add: rows_affected_def)
    show thesis
    proof (cases "0 < n")
      case True
      then obtain e where "e \<in> set (db_emails d)" "p e" using n by auto
      with there obtain e' where "row_at d i c = Some e'" "p e'" by blast
      with written [of e'] r' True d' show thesis by simp
    next
      case False
      then have none: "\<forall>e \<in> set (db_emails d). \<not> p e" using n sql_count_pos by (metis neq0_conv)
      then show thesis
        using untouched d' r' False row_at_Some by (simp add: sql_update_noop)
    qed
  next
    case (refused m)
    then have "r = Inl m" using r by (simp add: rows_affected_def)
    with refused untouched show thesis by simp
  next
    case (unacked m)
    then have "r = Inl m" using r by (simp add: rows_affected_def)
    with unacked hit upd written untouched show thesis by auto
  qed
qed

lemma keyed_update:
  assumes "rows_affected (Exec (update_emails p f) d) = (r, d')"
    and "\<And>e. p e \<Longrightarrow> e_id (f e) = e_id e \<and> e_created_at (f e) = e_created_at e"
    and "\<And>e. p e \<Longrightarrow> e_id e = i \<and> e_created_at e = c"
    and "pk_ok d"
  shows "(\<exists>e. r \<noteq> Inr False \<and> row_at d i c = Some e \<and> p e \<and> db_emails d' = sql_update p f (db_emails d)) \<or>
         (r \<noteq> Inr True \<and> db_emails d' = db_emails d \<and>
          (r = Inr False \<longrightarrow> (\<forall>e. row_at d i c = Some e \<longrightarrow> \<not> p e)))"
  by (rule keyed_update_cases [OF assms]) auto

lemma exec_update_emails:
  assumes "Exec (update_emails p f) d = (r, d')"
  shows "db_emails d' = db_emails d \<or> db_emails d' = sql_update p f (db_emails d)"
  using assms by (cases rule: Exec_cases) (auto simp: update_emails_def)

lemma exec_delete_emails:
  assumes "Exec (delete_emails p) d = (r, d')"
  shows "db_emails d' = db_emails d \<or> db_emails d' = sql_delete p (db_emails d)"
  using assms by (cases rule: Exec_cases) (auto simp: delete_emails_def)

lemma rows_affected_db: "rows_affected x = (r, d) \<Longrightarrow> \<exists>r0. x = (r0, d)"
  by (auto simp: rows_affected_def split: prod.splits sum.splits)

lemma flat_db: "flat x = (r, d) \<Longrightarrow> \<exists>r0. x = (r0, d)"
  by (auto simp: flat_def split: prod.splits sum.splits)

lemma put_rows:
  assumes "Put now e d = (r, d')"
  shows "db_emails d' = db_emails d \<or> db_emails d' = db_emails d @ [put_row (created_or now e)]"
proof -
  let ?e = "created_or now e"
  obtain r0 where "Exec (if e_system ?e then put_system_stmt ?e else put_stmt ?e) d = (r0, d')"
    using flat_db [of _ r d'] assms unfolding Put_def Let_def by blast
  then show ?thesis
    by (cases rule: Exec_cases) (auto simp: put_stmt_def put_system_stmt_def split: if_splits)
qed

lemma created_or_simps [simp]:
  "e_id (created_or now e) = e_id e" "e_status (created_or now e) = e_status e"
  "e_claimed_at (created_or now e) = e_claimed_at e" "e_project_id (created_or now e) = e_project_id e"
  "e_system (created_or now e) = e_system e"
  by (simp_all add: created_or_def)

lemma Query_cases:
  assumes "Query q d = (r, d')"
  shows "d' = snd (pop_fault d) \<and> (r = Inr (q d') \<or> (\<exists>m. r = Inl m))"
  using assms unfolding Query_def by (cases rule: Exec_cases) auto

lemma Query_tables:
  assumes "Query q d = (r, d')"
  shows "db_emails d' = db_emails d" "db_volume d' = db_volume d" "db_assignments d' = db_assignments d"
    "db_keys d' = db_keys d"
  using Query_cases [OF assms] by (simp_all add: pop_fault_eq)

lemma check_windows_tables:
  "check_windows e ws d = (r, d') \<Longrightarrow> db_emails d' = db_emails d \<and> db_volume d' = db_volume d"
  by (induction e ws d rule: check_windows.induct)
    (auto split: if_splits prod.splits sum.splits dest: Query_tables(1,2))

lemma rollback_tables [simp]:
  "db_emails (rollback d0 d) = db_emails d0" "db_volume (rollback d0 d) = db_volume d0"
  by (simp_all add: rollback_def)

lemma put_stmt_tables:
  assumes "flat (Exec (put_stmt e) d) = (Inr u, d')"
  shows "db_emails d' = db_emails d @ [put_row e] \<and>
    db_volume d' = upsert_volume (e_project_id e) (date_trunc_minute (e_created_at e)) (db_volume d)"
proof -
  obtain x where x: "Exec (put_stmt e) d = (Inr x, d')" "x = Inr u"
    using assms by (auto simp: flat_def split: prod.splits sum.splits)
  from x(1) show ?thesis
    by (cases rule: Exec_cases) (use x(2) in \<open>auto simp: put_stmt_def pop_fault_eq split: if_splits\<close>)
qed

text \<open>A checked accept either leaves the tables or inserts the row with every window below its limit.\<close>

lemma check_windows_clear:
  "check_windows e ws d = (Inr [], d') \<Longrightarrow> \<forall>(l, s, w) \<in> set ws. w \<noteq> [] \<Longrightarrow>
   \<forall>(l, s, w) \<in> set ws. 0 < l \<longrightarrow> volume_since (e_project_id e) (e_created_at e - s) d < l"
proof (induction ws arbitrary: d)
  case (Cons x ws)
  obtain l s w where x: "x = (l, s, w)" by (cases x)
  show ?case
  proof (cases "l \<le> 0")
    case True
    with Cons x show ?thesis by auto
  next
    case False
    obtain r d1 where q: "Query (volume_since (e_project_id e) (e_created_at e - s)) d = (r, d1)" by fastforce
    with Cons.prems(1) x False obtain n where n: "r = Inr n" by (cases r) auto
    have v: "db_volume d1 = db_volume d" using Query_tables(2) [OF q] .
    then have vs: "volume_since p t d1 = volume_since p t d" for p t by (simp add: volume_since_def)
    have "n = volume_since (e_project_id e) (e_created_at e - s) d"
      using Query_cases [OF q] n vs by auto
    moreover have "n < l" "check_windows e ws d1 = (Inr [], d')"
      using Cons.prems x False q n by (auto split: if_splits)
    ultimately show ?thesis using Cons.IH [of d1] Cons.prems(2) x vs by auto
  qed
qed simp

lemma put_within_cases:
  assumes "PutWithin now e0 hourly daily d = (r, d')"
  obtains (same) "db_emails d' = db_emails d" "db_volume d' = db_volume d" "r \<noteq> Inr []"
    | (put) e where "e = created_or now e0" "r = Inr [] \<or> (\<exists>m. r = Inl m)"
        "db_emails d' = db_emails d @ [put_row e]"
        "db_volume d' = upsert_volume (e_project_id e) (date_trunc_minute (e_created_at e)) (db_volume d)"
        "0 < hourly \<Longrightarrow> volume_since (e_project_id e) (e_created_at e - hour) d < hourly"
        "0 < daily \<Longrightarrow> volume_since (e_project_id e) (e_created_at e - day) d < daily"
proof -
  let ?e = "created_or now e0"
  let ?ws = "[(hourly, hour, ''hour''), (daily, day, ''day'')]"
  obtain r1 d1 where q1: "Query (\<lambda>_. ()) d = (r1, d1)" by fastforce
  obtain r2 d2 where q2: "Query (\<lambda>_. ()) d1 = (r2, d2)" by fastforce
  obtain r3 d3 where c: "check_windows ?e ?ws d2 = (r3, d3)" by fastforce
  obtain r4 d4 where p: "flat (Exec (put_stmt ?e) d3) = (r4, d4)" by fastforce
  note t = Query_tables [OF q1] Query_tables [OF q2] check_windows_tables [OF c]
  have vs: "volume_since p s d2 = volume_since p s d" for p s using t by (simp add: volume_since_def)
  show thesis
  proof (cases "(\<exists>a. r1 = Inr a) \<and> (\<exists>a. r2 = Inr a) \<and> r3 = Inr [] \<and> (\<exists>a. r4 = Inr a)")
    case False
    then have "db_emails d' = db_emails d \<and> db_volume d' = db_volume d \<and> r \<noteq> Inr []"
      using assms q1 q2 c p by (auto simp: PutWithin_def Let_def split: sum.splits if_splits)
    with same show thesis by blast
  next
    case True
    then have r3: "check_windows ?e ?ws d2 = (Inr [], d3)" and r4: "flat (Exec (put_stmt ?e) d3) = (Inr (), d4)"
      using c p by auto
    note put4 = put_stmt_tables [OF r4]
    have lim: "0 < hourly \<longrightarrow> volume_since (e_project_id ?e) (e_created_at ?e - hour) d < hourly"
      "0 < daily \<longrightarrow> volume_since (e_project_id ?e) (e_created_at ?e - day) d < daily"
      using check_windows_clear [OF r3] by (simp_all add: vs)
    obtain f d5 where f: "pop_fault d4 = (f, d5)" by fastforce
    have run: "(r, d') = (case pop_fault d4 of (None, d) \<Rightarrow> (Inr [], d)
        | (Some (Refused err), d5) \<Rightarrow> (Inl err, rollback d d5) | (Some (Unacked err), d) \<Rightarrow> (Inl err, d))"
      using assms q1 q2 c p True by (auto simp: PutWithin_def Let_def)
    show thesis
    proof (cases "\<exists>m. f = Some (Refused m)")
      case True
      with run f same show thesis by auto
    next
      case False
      then have "d' = d5" "r = Inr [] \<or> (\<exists>m. r = Inl m)"
        using run f by (auto split: option.splits fault.splits)
      then show thesis
        using put [of ?e] put4 lim t pop_fault_tables [OF f] by auto
    qed
  qed
qed

lemma put_within_rows:
  assumes "PutWithin now e0 hourly daily d = (r, d')"
  shows "db_emails d' = db_emails d \<or> db_emails d' = db_emails d @ [put_row (created_or now e0)]"
  using assms by (cases rule: put_within_cases) auto

end
