(* ===== verification/Worker.thy ===== *)
theory Worker
  imports EmailStore "HOL-Library.Word"
begin

text \<open>
  The delivery worker (\<^verbatim>\<open>internal/core/queue\<close>): outcomes, the retry backoff in 64-bit
  arithmetic, the poll that recovers and claims, and \<^verbatim>\<open>finish\<close>, which routes one outcome into
  the row.  The Go interface \<^verbatim>\<open>Source\<close> is a record of operations, so the worker's functions
  are written over any source; the locale states what a source promises, the worker's
  guarantees are proved in it, and the email store is shown to be such a source.
\<close>

section \<open>Outcomes\<close>

datatype outcome_kind = KindInvalid | KindDone | KindRetry | KindFail | KindSuppressed | KindHanded

record outcome =
  o_kind :: outcome_kind
  o_err :: "error option"
  o_server_id :: string
  o_refused :: "string list"

definition zero_outcome :: outcome where
  "zero_outcome = \<lparr>o_kind = KindInvalid, o_err = None, o_server_id = [], o_refused = []\<rparr>"

definition Done :: outcome where "Done = zero_outcome\<lparr>o_kind := KindDone\<rparr>"
definition Handed :: outcome where "Handed = zero_outcome\<lparr>o_kind := KindHanded\<rparr>"
definition DoneVia :: "string \<Rightarrow> outcome" where
  "DoneVia sid = zero_outcome\<lparr>o_kind := KindDone, o_server_id := sid\<rparr>"
definition DoneRefusing :: "string \<Rightarrow> error \<Rightarrow> string list \<Rightarrow> outcome" where
  "DoneRefusing sid err refused =
     zero_outcome\<lparr>o_kind := KindDone, o_server_id := sid, o_err := Some err, o_refused := refused\<rparr>"
definition Retry :: "error \<Rightarrow> outcome" where
  "Retry err = zero_outcome\<lparr>o_kind := KindRetry, o_err := Some err\<rparr>"
definition Fail :: "error \<Rightarrow> outcome" where
  "Fail err = zero_outcome\<lparr>o_kind := KindFail, o_err := Some err\<rparr>"
definition Suppressed :: "error \<Rightarrow> outcome" where
  "Suppressed err = zero_outcome\<lparr>o_kind := KindSuppressed, o_err := Some err\<rparr>"

lemmas outcome_defs =
  zero_outcome_def Done_def Handed_def DoneVia_def DoneRefusing_def Retry_def Fail_def Suppressed_def

section \<open>Configuration and backoff\<close>

type_synonym duration = "64 word"

record worker_config =
  w_concurrency :: int
  w_poll_interval :: time
  w_max_attempts :: int
  w_retry_base_delay :: duration
  w_retry_max_delay :: duration
  w_claim_timeout :: time
  w_attempt_timeout :: time
  w_max_per_project :: nat

definition capped_delay :: "worker_config \<Rightarrow> int \<Rightarrow> duration" where
  "capped_delay cfg attempts =
     (let n = max attempts 1;
          d = push_bit (nat (n - 1)) (w_retry_base_delay cfg)
      in if sint (w_retry_max_delay cfg) < sint d \<or> sint d \<le> 0 then w_retry_max_delay cfg else d)"

definition backoff :: "worker_config \<Rightarrow> nat \<Rightarrow> int \<Rightarrow> duration" where
  "backoff cfg rnd attempts =
     (let d = capped_delay cfg attempts;
          jitter = word_of_int (int rnd mod (sint d div 5 + 1))
      in d + jitter)"

section \<open>The source a worker drains\<close>

record 's source =
  src_claim_due :: "time \<Rightarrow> nat \<Rightarrow> nat \<Rightarrow> 's \<Rightarrow> (error + email list) \<times> 's"
  src_requeue :: "string \<Rightarrow> time \<Rightarrow> time option \<Rightarrow> time \<Rightarrow> error \<Rightarrow> 's \<Rightarrow> (error + bool) \<times> 's"
  src_finalize :: "string \<Rightarrow> time \<Rightarrow> time option \<Rightarrow> status \<Rightarrow> error \<Rightarrow> string \<Rightarrow> time option \<Rightarrow> 's \<Rightarrow>
                   (error + bool) \<times> 's"
  src_recover_stuck :: "time \<Rightarrow> time \<Rightarrow> 's \<Rightarrow> (error + nat) \<times> 's"

record final =
  f_job :: email
  f_status :: status
  f_error :: error
  f_refused :: "string list"

section \<open>Routing one outcome\<close>

definition write_ok :: "(error + bool) \<Rightarrow> bool" where
  "write_ok r = (case r of Inl _ \<Rightarrow> False | Inr ok \<Rightarrow> ok)"

definition notifyRefused :: "email \<Rightarrow> status \<Rightarrow> error \<Rightarrow> string list \<Rightarrow> final list" where
  "notifyRefused job st msg refused = [\<lparr>f_job = job, f_status = st, f_error = msg, f_refused = refused\<rparr>]"

definition notify :: "email \<Rightarrow> status \<Rightarrow> error \<Rightarrow> final list" where
  "notify job st msg = notifyRefused job st msg []"

definition settle ::
    "'s source \<Rightarrow> email \<Rightarrow> status \<Rightarrow> error \<Rightarrow> string \<Rightarrow> time option \<Rightarrow> final list \<Rightarrow> 's \<Rightarrow> final list \<times> 's" where
  "settle src job st msg via sent fin s =
     (let (r, s') = src_finalize src (e_id job) (e_created_at job) (e_claimed_at job) st msg via sent s
      in (if write_ok r then fin else [], s'))"

definition err_text :: "outcome \<Rightarrow> error" where
  "err_text out = (case o_err out of None \<Rightarrow> [] | Some e \<Rightarrow> e)"

definition max_attempts :: "worker_config \<Rightarrow> email \<Rightarrow> int" where
  "max_attempts cfg job = (if e_max_attempts job \<le> 0 then w_max_attempts cfg else e_max_attempts job)"

definition finish ::
    "'s source \<Rightarrow> worker_config \<Rightarrow> time \<Rightarrow> nat \<Rightarrow> email \<Rightarrow> outcome \<Rightarrow> 's \<Rightarrow> final list \<times> 's" where
  "finish src cfg now rnd job out s =
     (let msg = err_text out in
      case o_kind out of
        KindHanded \<Rightarrow> ([], s)
      | KindDone \<Rightarrow>
          settle src job StatusSent msg (o_server_id out) (Some now)
            (notifyRefused (job\<lparr>e_sent_at := Some now\<rparr>) StatusSent msg (o_refused out)) s
      | KindRetry \<Rightarrow>
          if max_attempts cfg job \<le> e_attempts job
          then settle src job StatusFailed msg [] None (notify job StatusFailed msg) s
          else (let next = now + sint (backoff cfg rnd (e_attempts job));
                    (r, s') = src_requeue src (e_id job) (e_created_at job) (e_claimed_at job) next msg s
                in ([], s'))
      | KindSuppressed \<Rightarrow>
          settle src job StatusSuppressed msg [] None (notify job StatusSuppressed msg) s
      | _ \<Rightarrow> settle src job StatusFailed msg [] None (notify job StatusFailed msg) s)"

definition Complete ::
    "'s source \<Rightarrow> worker_config \<Rightarrow> time \<Rightarrow> nat \<Rightarrow> email \<Rightarrow> outcome \<Rightarrow> 's \<Rightarrow> final list \<times> 's" where
  "Complete src cfg now rnd job out s = finish src cfg now rnd job out s"

text \<open>The delivery leg may panic, which \<^verbatim>\<open>process\<close> turns into a permanent failure of that job.\<close>

type_synonym 's processor = "email \<Rightarrow> 's \<Rightarrow> (error + outcome) \<times> 's"

definition process :: "'s processor \<Rightarrow> email \<Rightarrow> 's \<Rightarrow> outcome \<times> 's" where
  "process proc job s =
     (case proc job s of
        (Inl panic, s') \<Rightarrow> (Fail (''delivery panicked: '' @ panic), s')
      | (Inr out, s') \<Rightarrow> (out, s'))"

definition deliverOne ::
    "'s source \<Rightarrow> worker_config \<Rightarrow> 's processor \<Rightarrow> time \<Rightarrow> nat \<Rightarrow> email \<Rightarrow> 's \<Rightarrow> final list \<times> 's" where
  "deliverOne src cfg proc now rnd job s =
     (let (out, s') = process proc job s in finish src cfg now rnd job out s')"

text \<open>
  One poll: recovery when the poll interval has passed since the last one, then a claim of as
  many rows as there are idle goroutines.  \<open>shut\<close> says the poll's own context has ended, which
  after a failed recovery ends the poll; the result is the new recovery mark and the claimed
  jobs, which go to the pool in order.
\<close>

definition poll_recover :: "'s source \<Rightarrow> worker_config \<Rightarrow> time \<Rightarrow> time \<Rightarrow> 's \<Rightarrow> (error + nat) \<times> 's" where
  "poll_recover src cfg now marked s =
     (if w_poll_interval cfg \<le> now - marked
      then src_recover_stuck src (now - w_claim_timeout cfg) now s
      else (Inr 0, s))"

definition pollOnce ::
    "'s source \<Rightarrow> worker_config \<Rightarrow> time \<Rightarrow> int \<Rightarrow> bool \<Rightarrow> time \<Rightarrow> 's \<Rightarrow> time \<times> email list \<times> 's" where
  "pollOnce src cfg now free shut marked s =
     (let mark = (if w_poll_interval cfg \<le> now - marked then now else marked) in
      case poll_recover src cfg now marked s of
        (r, s1) \<Rightarrow>
          if isl r \<and> shut then (mark, [], s1)
          else if free \<le> 0 then (mark, [], s1)
          else case src_claim_due src now (nat free) (w_max_per_project cfg) s1 of
                 (Inl _, s2) \<Rightarrow> (mark, [], s2)
               | (Inr claimed, s2) \<Rightarrow> (mark, claimed, s2))"

section \<open>The contract of a source\<close>

text \<open>
  \<open>view s i c\<close> is what a source shows of the row with id \<open>i\<close> created at \<open>c\<close>: its status and
  the claim it is held under.  A write is fenced on the claim: it takes effect only on a row
  that is processing under exactly the claim named, the answer \<open>True\<close> says it took effect,
  and an error says nothing.  No write touches another row.
\<close>

definition fenced ::
    "(string \<Rightarrow> time \<Rightarrow> (status \<times> time option) option) \<Rightarrow>
     (string \<Rightarrow> time \<Rightarrow> (status \<times> time option) option) \<Rightarrow>
     string \<Rightarrow> time \<Rightarrow> time option \<Rightarrow> status \<Rightarrow> (error + bool) \<Rightarrow> bool" where
  "fenced v v' i c claimed st r =
     ((v' = v \<and> r \<noteq> Inr True) \<or>
      (claimed \<noteq> None \<and> v i c = Some (StatusProcessing, claimed) \<and>
       v' = v(i := (v i)(c := Some (st, None))) \<and> r \<noteq> Inr False))"

locale queue_source =
  fixes src :: "'s source"
    and view :: "'s \<Rightarrow> string \<Rightarrow> time \<Rightarrow> (status \<times> time option) option"
    and valid :: "'s \<Rightarrow> bool"
  assumes requeue_fenced: "valid s \<Longrightarrow> src_requeue src i c cl next msg s = (r, s') \<Longrightarrow>
      fenced (view s) (view s') i c cl StatusQueued r"
    and finalize_fenced: "valid s \<Longrightarrow> src_finalize src i c cl st msg via sent s = (r, s') \<Longrightarrow>
      fenced (view s) (view s') i c cl st r"
    and valid_requeue: "valid s \<Longrightarrow> src_requeue src i c cl next msg s = (r, s') \<Longrightarrow> valid s'"
    and valid_finalize: "valid s \<Longrightarrow> src_finalize src i c cl st msg via sent s = (r, s') \<Longrightarrow> valid s'"
begin

abbreviation held :: "'s \<Rightarrow> email \<Rightarrow> bool" where
  "held s job \<equiv> e_claimed_at job \<noteq> None \<and>
     view s (e_id job) (e_created_at job) = Some (StatusProcessing, e_claimed_at job)"

lemma settle_cases:
  assumes "valid s" and "settle src job st msg via sent fin s = (fs, s')"
  shows "valid s'"
    and "(fs = [] \<and> view s' = view s) \<or>
         (held s job \<and> (fs = [] \<or> fs = fin) \<and>
          view s' = (view s)(e_id job := (view s (e_id job))(e_created_at job := Some (st, None))))"
    and "fs \<noteq> [] \<Longrightarrow> held s job \<and> fs = fin \<and> view s' (e_id job) (e_created_at job) = Some (st, None)"
proof -
  obtain r where r: "src_finalize src (e_id job) (e_created_at job) (e_claimed_at job) st msg via sent s = (r, s')"
    and fs: "fs = (if write_ok r then fin else [])"
    using assms(2) by (auto simp: settle_def Let_def split: prod.splits)
  from valid_finalize [OF assms(1) r] show "valid s'" .
  from finalize_fenced [OF assms(1) r] fs
  show *: "(fs = [] \<and> view s' = view s) \<or>
         (held s job \<and> (fs = [] \<or> fs = fin) \<and>
          view s' = (view s)(e_id job := (view s (e_id job))(e_created_at job := Some (st, None))))"
    by (auto simp: fenced_def write_ok_def split: sum.splits if_splits)
  then show "held s job \<and> fs = fin \<and> view s' (e_id job) (e_created_at job) = Some (st, None)"
    if "fs \<noteq> []" using that by auto
qed

lemma finish_requeue_cases:
  assumes "valid s" and "src_requeue src (e_id job) (e_created_at job) (e_claimed_at job) next msg s = (r, s')"
  shows "valid s' \<and> (view s' = view s \<or>
          (held s job \<and>
           view s' = (view s)(e_id job := (view s (e_id job))(e_created_at job := Some (StatusQueued, None)))))"
  using requeue_fenced [OF assms] valid_requeue [OF assms] by (auto simp: fenced_def)

text \<open>Whatever the outcome, only the job's own row can change, and only under the job's claim.\<close>

lemma finish_fenced:
  assumes "valid s" and "finish src cfg now rnd job out s = (fs, s')"
  shows "valid s' \<and>
    ((view s' = view s \<and> fs = []) \<or>
     (held s job \<and> (\<exists>st. st \<noteq> StatusProcessing \<and>
        view s' = (view s)(e_id job := (view s (e_id job))(e_created_at job := Some (st, None))))))"
proof (cases "o_kind out = KindHanded")
  case True
  then show ?thesis using assms by (simp add: finish_def)
next
  case False
  show ?thesis
  proof (cases "o_kind out = KindRetry \<and> \<not> max_attempts cfg job \<le> e_attempts job")
    case True
    then obtain next_at r where
      rq: "src_requeue src (e_id job) (e_created_at job) (e_claimed_at job) next_at (err_text out) s = (r, s')"
      and "fs = []"
      using assms(2) by (auto simp: finish_def Let_def split: prod.splits)
    moreover have "StatusQueued \<noteq> StatusProcessing" by simp
    ultimately show ?thesis using finish_requeue_cases [OF assms(1) rq] by blast
  next
    case retry: False
    then obtain st msg via sent fin where
      "settle src job st msg via sent fin s = (fs, s')" "st \<noteq> StatusProcessing"
      using assms(2) False
      by (cases "o_kind out") (auto simp: finish_def Let_def)
    then show ?thesis using settle_cases [OF assms(1)] by blast
  qed
qed

lemma finish_notifies:
  assumes "valid s" and "finish src cfg now rnd job out s = (fs, s')" and "f \<in> set fs"
  shows "fs = [f] \<and> held s job \<and> e_id (f_job f) = e_id job \<and>
         e_claimed_at (f_job f) = e_claimed_at job \<and>
         f_status f \<in> {StatusSent, StatusFailed, StatusSuppressed} \<and>
         view s' (e_id job) (e_created_at job) = Some (f_status f, None)"
proof (cases "o_kind out = KindHanded \<or> (o_kind out = KindRetry \<and> \<not> max_attempts cfg job \<le> e_attempts job)")
  case True
  then have "fs = []" using assms(2) by (auto simp: finish_def Let_def split: prod.splits)
  with assms(3) show ?thesis by simp
next
  case False
  then obtain st msg via sent job' refused where
    s: "settle src job st msg via sent (notifyRefused job' st msg refused) s = (fs, s')"
    and st: "st \<in> {StatusSent, StatusFailed, StatusSuppressed}" and j: "e_id job' = e_id job"
    and k: "e_claimed_at job' = e_claimed_at job"
    using assms(2)
    by (cases "o_kind out") (auto simp: finish_def Let_def notify_def split: if_splits)
  from assms(3) have "fs \<noteq> []" by auto
  with settle_cases(3) [OF assms(1) s] assms(3) st j k show ?thesis
    by (auto simp: notifyRefused_def)
qed

text \<open>A second outcome for the same claim, whoever brings it, is dropped.\<close>

lemma finish_once:
  assumes "valid s" and "finish src cfg now rnd job out s = (fs, s')" and "fs \<noteq> []"
    and "finish src cfg' now' rnd' job' out' s' = (fs', s'')"
    and "e_id job' = e_id job" "e_created_at job' = e_created_at job"
  shows "fs' = [] \<and> view s'' = view s'"
proof -
  obtain f where "f \<in> set fs" using assms(3) by (cases fs) auto
  with finish_notifies [OF assms(1,2)] have
    "view s' (e_id job) (e_created_at job) = Some (f_status f, None)" by blast
  then have "\<not> held s' job'" using assms(5,6) by auto
  moreover have "valid s'" using finish_fenced [OF assms(1,2)] by blast
  ultimately show ?thesis using finish_fenced [OF _ assms(4)] by blast
qed

end

section \<open>The email store is a source\<close>

definition store_source :: "string set \<Rightarrow> db source" where
  "store_source locked =
     \<lparr>src_claim_due = (\<lambda>now limit perProject. ClaimDue now limit perProject locked),
      src_requeue = Requeue, src_finalize = Finalize, src_recover_stuck = RecoverStuck\<rparr>"

lemma store_source_simps [simp]:
  "src_claim_due (store_source locked) now limit perProject = ClaimDue now limit perProject locked"
  "src_requeue (store_source locked) = Requeue"
  "src_finalize (store_source locked) = Finalize"
  "src_recover_stuck (store_source locked) = RecoverStuck"
  by (simp_all add: store_source_def)

definition claim_view :: "db \<Rightarrow> string \<Rightarrow> time \<Rightarrow> (status \<times> time option) option" where
  "claim_view d i c = map_option (\<lambda>e. (e_status e, e_claimed_at e)) (row_at d i c)"

lemma fenced_update:
  assumes run: "rows_affected (Exec (update_emails (held_under i c cl) f) d) = (r, d')"
    and f: "\<And>e. e_id (f e) = e_id e \<and> e_created_at (f e) = e_created_at e \<and> e_status (f e) = st \<and> e_claimed_at (f e) = None"
    and ok: "pk_ok d"
  shows "fenced (claim_view d) (claim_view d') i c cl st r \<and> pk_ok d'"
proof -
  have key: "\<And>e. held_under i c cl e \<Longrightarrow> e_id e = i \<and> e_created_at e = c" by (simp add: held_under_def)
  have keep: "\<And>e. held_under i c cl e \<Longrightarrow> e_id (f e) = e_id e \<and> e_created_at (f e) = e_created_at e" using f by simp
  consider (written) e where "r \<noteq> Inr False" "row_at d i c = Some e" "held_under i c cl e"
      "db_emails d' = sql_update (held_under i c cl) f (db_emails d)"
    | (untouched) "r \<noteq> Inr True" "db_emails d' = db_emails d"
    using keyed_update [OF run keep key ok] by blast
  then show ?thesis
  proof cases
    case (written e)
    have at: "row_at d' j k = map_option (\<lambda>e. if held_under i c cl e then f e else e) (row_at d j k)" for j k
      using row_at_update [of "held_under i c cl" f d j k] f written(4) by (simp add: row_at_def update_emails_def)
    have "claim_view d' = (claim_view d)(i := (claim_view d i)(c := Some (st, None)))"
    proof (intro ext)
      fix j k
      show "claim_view d' j k = ((claim_view d)(i := (claim_view d i)(c := Some (st, None)))) j k"
      proof (cases "j = i \<and> k = c")
        case True
        then show ?thesis using written(2,3) f by (simp add: claim_view_def at)
      next
        case False
        then show ?thesis
          by (cases "row_at d j k") (use row_at_Some [of d j k] key in \<open>auto simp: claim_view_def at\<close>)
      qed
    qed
    moreover have "claim_view d i c = Some (StatusProcessing, cl)" "cl \<noteq> None"
      using written(2,3) by (auto simp: claim_view_def held_under_def)
    moreover have "pk_ok d'"
      using ok f written(4) by (simp add: pk_ok_def map_sql_update pk_def)
    ultimately show ?thesis using written(1) by (auto simp: fenced_def)
  next
    case untouched
    then have "claim_view d' = claim_view d" by (intro ext) (simp add: claim_view_def row_at_def)
    with untouched ok show ?thesis by (auto simp: fenced_def pk_ok_def)
  qed
qed

interpretation store: queue_source "store_source locked" claim_view pk_ok
proof
  fix s i c cl nxt msg r and s' :: db
  assume v: "pk_ok s" and h: "src_requeue (store_source locked) i c cl nxt msg s = (r, s')"
  from h have "rows_affected (Exec (update_emails (held_under i c cl) (requeue_row nxt msg)) s) = (r, s')"
    by (simp add: Requeue_def)
  from fenced_update [OF this _ v, of StatusQueued]
  show "fenced (claim_view s) (claim_view s') i c cl StatusQueued r" "pk_ok s'" by simp_all
next
  fix s i c cl st msg via sent r and s' :: db
  assume v: "pk_ok s" and h: "src_finalize (store_source locked) i c cl st msg via sent s = (r, s')"
  from h have "rows_affected (Exec (update_emails (held_under i c cl) (finalize_row st msg via sent)) s) = (r, s')"
    by (simp add: Finalize_def)
  from fenced_update [OF this _ v, of st]
  show "fenced (claim_view s) (claim_view s') i c cl st r" "pk_ok s'" by simp_all
qed

section \<open>Retry delays as integers\<close>








section \<open>What an outcome does to the table\<close>

text \<open>
  What one outcome does to the row it is for: the row the specification prescribes, with no
  mention of statements, fences or faults.
\<close>

definition outcome_row :: "worker_config \<Rightarrow> time \<Rightarrow> nat \<Rightarrow> email \<Rightarrow> outcome \<Rightarrow> email \<Rightarrow> email" where
  "outcome_row cfg now rnd job out e =
     (case o_kind out of
        KindHanded \<Rightarrow> e
      | KindDone \<Rightarrow> finalize_row StatusSent (err_text out) (o_server_id out) (Some now) e
      | KindSuppressed \<Rightarrow> finalize_row StatusSuppressed (err_text out) [] None e
      | KindRetry \<Rightarrow>
          if e_attempts job < max_attempts cfg job
          then requeue_row (now + sint (backoff cfg rnd (e_attempts job))) (err_text out) e
          else finalize_row StatusFailed (err_text out) [] None e
      | _ \<Rightarrow> finalize_row StatusFailed (err_text out) [] None e)"

lemma keyed_update_run:
  assumes "db_faults d = []" and "pk_ok d" and "row_at d i c = Some e" and "p e"
    and "\<And>e. p e \<Longrightarrow> e_id (f e) = e_id e \<and> e_created_at (f e) = e_created_at e"
    and "\<And>e. p e \<Longrightarrow> e_id e = i \<and> e_created_at e = c"
  shows "rows_affected (Exec (update_emails p f) d) =
      (Inr True, d\<lparr>db_emails := sql_update p f (db_emails d)\<rparr>)"
    and "row_at (d\<lparr>db_emails := sql_update p f (db_emails d)\<rparr>) j k =
      (if j = i \<and> k = c then Some (f e) else row_at d j k)"
proof -
  have "e \<in> set (db_emails d)" using assms(3) row_at_Some by blast
  with assms(4) have "0 < sql_count p (db_emails d)" by auto
  with assms(1) show "rows_affected (Exec (update_emails p f) d) =
      (Inr True, d\<lparr>db_emails := sql_update p f (db_emails d)\<rparr>)"
    by (simp add: Exec_no_fault rows_affected_def update_emails_def)
  have "row_at (d\<lparr>db_emails := sql_update p f (db_emails d)\<rparr>) j k =
      map_option (\<lambda>e. if p e then f e else e) (row_at d j k)"
    using row_at_update [of p f d j k] assms(5) by (simp add: update_emails_def)
  moreover have "\<not> p x" if "row_at d j k = Some x" "\<not> (j = i \<and> k = c)" for x
    using assms(6) [of x] row_at_Some [OF that(1)] that(2) by auto
  ultimately show "row_at (d\<lparr>db_emails := sql_update p f (db_emails d)\<rparr>) j k =
      (if j = i \<and> k = c then Some (f e) else row_at d j k)"
    using assms(3,4) by (cases "row_at d j k") auto
qed

lemma finish_run:
  assumes "db_faults d = []" and "pk_ok d" and "row_at d (e_id job) (e_created_at job) = Some e"
    and "held_under (e_id job) (e_created_at job) (e_claimed_at job) e"
    and "finish (store_source locked) cfg now rnd job out d = (fs, d')"
  shows "row_at d' j k = (if j = e_id job \<and> k = e_created_at job
           then Some (outcome_row cfg now rnd job out e) else row_at d j k)"
proof -
  have keys: "\<And>x. held_under (e_id job) (e_created_at job) (e_claimed_at job) x \<Longrightarrow>
      e_id x = e_id job \<and> e_created_at x = e_created_at job" by (simp add: held_under_def)
  note run = keyed_update_run [where p = "held_under (e_id job) (e_created_at job) (e_claimed_at job)",
      OF assms(1-4) _ keys]
  have fin: "d' = d\<lparr>db_emails := sql_update (held_under (e_id job) (e_created_at job) (e_claimed_at job))
      (finalize_row st msg via sent) (db_emails d)\<rparr>"
    if "settle (store_source locked) job st msg via sent l d = (fs, d')" for st msg via sent l
    using that run(1) [of "finalize_row st msg via sent"] by (simp add: settle_def Finalize_def Let_def)
  have rq: "d' = d\<lparr>db_emails := sql_update (held_under (e_id job) (e_created_at job) (e_claimed_at job))
      (requeue_row nxt msg) (db_emails d)\<rparr>"
    if "(case Requeue (e_id job) (e_created_at job) (e_claimed_at job) nxt msg d of (r, s') \<Rightarrow> ([], s')) = (fs, d')"
    for nxt msg
    using that run(1) [of "requeue_row nxt msg"] by (simp add: Requeue_def)
  show ?thesis
  proof (cases "o_kind out")
    case KindRetry
    show ?thesis
    proof (cases "max_attempts cfg job \<le> e_attempts job")
      case True
      with KindRetry assms(5) have "settle (store_source locked) job StatusFailed (err_text out) [] None
          (notify job StatusFailed (err_text out)) d = (fs, d')" by (simp add: finish_def Let_def)
      from fin [OF this] run(2) [of "finalize_row StatusFailed (err_text out) [] None"] True KindRetry
      show ?thesis by (simp add: outcome_row_def)
    next
      case False
      with KindRetry assms(5) have "(case Requeue (e_id job) (e_created_at job) (e_claimed_at job)
          (now + sint (backoff cfg rnd (e_attempts job))) (err_text out) d of (r, s') \<Rightarrow> ([], s')) = (fs, d')"
        by (simp add: finish_def Let_def)
      from rq [OF this] run(2) [of "requeue_row (now + sint (backoff cfg rnd (e_attempts job))) (err_text out)"]
        False KindRetry
      show ?thesis by (simp add: outcome_row_def)
    qed
  next
    case KindHanded
    then show ?thesis using assms(3,5) by (simp add: finish_def outcome_row_def)
  next
    case KindDone
    with assms(5) fin run(2) [of "finalize_row StatusSent (err_text out) (o_server_id out) (Some now)"]
    show ?thesis by (fastforce simp: finish_def outcome_row_def Let_def)
  next
    case KindSuppressed
    with assms(5) fin run(2) [of "finalize_row StatusSuppressed (err_text out) [] None"]
    show ?thesis by (fastforce simp: finish_def outcome_row_def Let_def)
  next
    case KindFail
    with assms(5) fin run(2) [of "finalize_row StatusFailed (err_text out) [] None"]
    show ?thesis by (fastforce simp: finish_def outcome_row_def Let_def)
  next
    case KindInvalid
    with assms(5) fin run(2) [of "finalize_row StatusFailed (err_text out) [] None"]
    show ?thesis by (fastforce simp: finish_def outcome_row_def Let_def)
  qed
qed

lemma finish_tables:
  assumes "finish (store_source locked) cfg now rnd job out d = (fs, d')"
  shows "\<exists>f. (\<forall>e. e_id (f e) = e_id e) \<and> (db_emails d' = db_emails d \<or>
    db_emails d' = sql_update (held_under (e_id job) (e_created_at job) (e_claimed_at job)) f (db_emails d))"
proof -
  have fz: "\<exists>f. (\<forall>e. e_id (f e) = e_id e) \<and> (db_emails d' = db_emails d \<or>
      db_emails d' = sql_update (held_under (e_id job) (e_created_at job) (e_claimed_at job)) f (db_emails d))"
    if st_: "settle (store_source locked) job st msg via sent fin d = (fs, d')" for st msg via sent fin
  proof -
    have "snd (Finalize (e_id job) (e_created_at job) (e_claimed_at job) st msg via sent d) = d'"
      using st_ by (auto simp: settle_def Let_def split: prod.splits)
    then obtain r where "Finalize (e_id job) (e_created_at job) (e_claimed_at job) st msg via sent d = (r, d')"
      by (metis prod.collapse)
    then obtain r0 where "Exec (update_emails (held_under (e_id job) (e_created_at job) (e_claimed_at job))
        (finalize_row st msg via sent)) d = (r0, d')" using rows_affected_db by (fastforce simp: Finalize_def)
    from exec_update_emails [OF this] show ?thesis
      by (intro exI [of _ "finalize_row st msg via sent"]) simp
  qed
  show ?thesis
  proof (cases "o_kind out = KindHanded")
    case True
    then show ?thesis using assms by (intro exI [of _ id]) (simp add: finish_def)
  next
    case handed: False
    show ?thesis
    proof (cases "o_kind out = KindRetry \<and> \<not> max_attempts cfg job \<le> e_attempts job")
      case True
      then obtain nxt r where "Requeue (e_id job) (e_created_at job) (e_claimed_at job) nxt (err_text out) d = (r, d')"
        using assms by (auto simp: finish_def Let_def split: prod.splits)
      then obtain r0 where "Exec (update_emails (held_under (e_id job) (e_created_at job) (e_claimed_at job))
          (requeue_row nxt (err_text out))) d = (r0, d')" using rows_affected_db by (fastforce simp: Requeue_def)
      from exec_update_emails [OF this] show ?thesis by (intro exI [of _ "requeue_row nxt (err_text out)"]) simp
    next
      case False
      then show ?thesis using assms handed fz by (cases "o_kind out") (auto simp: finish_def Let_def)
    qed
  qed
qed

section \<open>Properties\<close>

text \<open>
  C11: An outcome is written to the row the specification prescribes for its kind, and to no
  other row: sent with the server that took it, suppressed, failed, or queued again at the
  moment the backoff gives until the attempts run out; a handed message stays processing.
\<close>
theorem outcome_routed:
  assumes "db_faults d = []" and "pk_ok d" and "row_at d (e_id job) (e_created_at job) = Some e"
    and "held_under (e_id job) (e_created_at job) (e_claimed_at job) e"
  shows "row_at (snd (finish (store_source locked) cfg now rnd job out d)) i c =
    (if i = e_id job \<and> c = e_created_at job then Some (outcome_row cfg now rnd job out e) else row_at d i c)"
proof -
  obtain fs d' where "finish (store_source locked) cfg now rnd job out d = (fs, d')" by fastforce
  with finish_run [OF assms this] show ?thesis by simp
qed

definition sample_config :: worker_config where
  "sample_config =
     \<lparr>w_concurrency = 2, w_poll_interval = 1000, w_max_attempts = 5,
      w_retry_base_delay = 30, w_retry_max_delay = 3600, w_claim_timeout = 600,
      w_attempt_timeout = 60, w_max_per_project = 1\<rparr>"

definition claimed_email :: email where
  "claimed_email = zero_email\<lparr>e_id := ''m1'', e_status := StatusProcessing, e_attempts := 2,
     e_claimed_at := Some 40, e_created_at := 7\<rparr>"

definition empty_db :: db where
  "empty_db = \<lparr>db_emails = [], db_assignments = [], db_volume = [], db_keys = [], db_faults = []\<rparr>"

lemmas sample_simps = sample_config_def claimed_email_def zero_email_def empty_db_def

lemma outcome_routed_witness:
  "row_at (snd (finish (store_source {}) sample_config 50 3 claimed_email (Retry ''421'')
      (empty_db\<lparr>db_emails := [claimed_email]\<rparr>))) ''m1'' 7 =
   Some (outcome_row sample_config 50 3 claimed_email (Retry ''421'') claimed_email)"
  using outcome_routed [of "empty_db\<lparr>db_emails := [claimed_email]\<rparr>" claimed_email claimed_email "{}"
      sample_config 50 3 "Retry ''421''" "''m1''" 7]
  by (simp add: sample_simps pk_ok_def row_at_def held_under_def)

text \<open>
  An outcome brought under a claim the row is no longer held under writes nothing and tells
  nobody, whatever statements fail: the row has gone back to the queue, is held by another
  worker, or is settled.
\<close>
lemma lost_claim_writes_nothing:
  assumes "pk_ok d"
    and "\<forall>e \<in> set (db_emails d). \<not> held_under (e_id job) (e_created_at job) (e_claimed_at job) e"
  shows "fst (finish (store_source locked) cfg now rnd job out d) = [] \<and>
         db_emails (snd (finish (store_source locked) cfg now rnd job out d)) = db_emails d"
proof -
  obtain fs d' where f: "finish (store_source locked) cfg now rnd job out d = (fs, d')" by fastforce
  then have "db_emails d' = db_emails d"
    using finish_tables [OF f] sql_update_noop [OF assms(2)] by auto
  moreover have "claim_view d (e_id job) (e_created_at job) \<noteq> Some (StatusProcessing, e_claimed_at job)
      \<or> e_claimed_at job = None"
    using assms(2) row_at_Some by (fastforce simp: claim_view_def held_under_def)
  then have "fs = []" using store.finish_fenced [OF assms(1) f] by auto
  ultimately show ?thesis using f by simp
qed

lemma lost_claim_writes_nothing_witness:
  "fst (finish (store_source {}) sample_config 50 3 claimed_email Done
      (empty_db\<lparr>db_emails := [claimed_email\<lparr>e_claimed_at := Some 45\<rparr>]\<rparr>)) = []"
  using lost_claim_writes_nothing [of "empty_db\<lparr>db_emails := [claimed_email\<lparr>e_claimed_at := Some 45\<rparr>]\<rparr>"
      claimed_email "{}" sample_config 50 3 Done]
  by (simp add: sample_simps pk_ok_def held_under_def)

text \<open>
  Of two outcomes for one claim, brought one after the other by whomever (the worker and a
  relay node's report, or a repeated report), at most one is announced, and the second leaves
  every row's state as the first left it.
\<close>
lemma second_outcome_dropped:
  assumes "pk_ok d" and "finish (store_source locked) cfg now rnd job out d = (fs, d')" and "fs \<noteq> []"
    and "finish (store_source locked) cfg' now' rnd' job' out' d' = (fs', d'')"
    and "pk job' = pk job"
  shows "fs' = [] \<and> claim_view d'' = claim_view d'"
  using store.finish_once [OF assms(1-4)] assms(5) by (simp add: pk_def)

lemma second_outcome_dropped_witness:
  "fst (finish (store_source {}) sample_config 60 3 claimed_email Done
      (snd (finish (store_source {}) sample_config 50 3 claimed_email (Fail ''550'')
        (empty_db\<lparr>db_emails := [claimed_email]\<rparr>)))) = []"
  by (rule second_outcome_dropped [of "empty_db\<lparr>db_emails := [claimed_email]\<rparr>" "{}" sample_config 50 3
        claimed_email "Fail ''550''" _ _ sample_config 60 3 claimed_email Done, THEN conjunct1,
        OF _ prod.collapse [symmetric] _ prod.collapse [symmetric]])
    (simp_all add: sample_simps pk_ok_def finish_def settle_def Finalize_def outcome_defs notify_def
      notifyRefused_def Exec_no_fault update_emails_def rows_affected_def write_ok_def held_under_def
      sql_count_def Let_def)



end
