(* ===== verification/Claims.thy ===== *)
theory Claims
  imports Worker
begin

text \<open>
  What the statements of the queue promise, one by one: which rows a claim takes and in which
  order, how far a project can fill the workers, what recovery brings back, and the two accept
  and cancel statements that race with a claim.  The statements themselves are in EmailStore.
\<close>

lemma volume_upsert:
  "sum_list (map v_accepted (filter q (upsert_volume p m vs))) =
   sum_list (map v_accepted (filter q vs)) + (if q \<lparr>v_project = p, v_minute = m, v_accepted = 1\<rparr> then 1 else 0)"
  if "\<And>v n. q (v\<lparr>v_accepted := n\<rparr>) = q v" and "\<And>v w. v_project v = v_project w \<Longrightarrow> v_minute v = v_minute w \<Longrightarrow> q v = q w"
proof (induction vs)
  case (Cons v vs)
  show ?case
  proof (cases "v_project v = p \<and> v_minute v = m")
    case True
    then have "q v = q \<lparr>v_project = p, v_minute = m, v_accepted = 1\<rparr>" by (intro that(2)) simp_all
    with True show ?thesis by (simp add: that(1))
  next
    case False
    with Cons show ?thesis by auto
  qed
qed simp

lemma volume_since_upsert:
  assumes "db_volume d' = upsert_volume p m (db_volume d)"
  shows "volume_since p s d' \<le> volume_since p s d + 1"
  unfolding volume_since_def assms by (subst volume_upsert) auto

text \<open>
  C13: A send checked against the volume limits is stored whole or not at all, whatever statement
  fails: either neither the row nor the counter moved and the answer is not an acceptance, or
  the row is in, exactly one was counted, and no window of a positive limit holds more than its
  limit.
\<close>
theorem put_within_limit:
  assumes "PutWithin now e hourly daily d = (r, d')"
  shows "let c = created_or now e in
    (db_emails d' = db_emails d \<and> db_volume d' = db_volume d \<and> r \<noteq> Inr []) \<or>
    ((r = Inr [] \<or> isl r) \<and> db_emails d' = db_emails d @ [put_row c] \<and>
     db_volume d' = upsert_volume (e_project_id e) (date_trunc_minute (e_created_at c)) (db_volume d) \<and>
     (0 < hourly \<longrightarrow> volume_since (e_project_id e) (e_created_at c - hour) d' \<le> hourly) \<and>
     (0 < daily \<longrightarrow> volume_since (e_project_id e) (e_created_at c - day) d' \<le> daily))"
  using assms
proof (cases rule: put_within_cases)
  case same
  then show ?thesis by (simp add: Let_def)
next
  case (put c)
  from put(4) have up: "volume_since (e_project_id e) s d' \<le> volume_since (e_project_id e) s d + 1" for s
    using volume_since_upsert [of d' "e_project_id e" _ d s] by (simp add: put(1))
  have "0 < hourly \<Longrightarrow> volume_since (e_project_id e) (e_created_at c - hour) d' \<le> hourly"
    using put(5) up [of "e_created_at c - hour"] by (simp add: put(1))
  moreover have "0 < daily \<Longrightarrow> volume_since (e_project_id e) (e_created_at c - day) d' \<le> daily"
    using put(6) up [of "e_created_at c - day"] by (simp add: put(1))
  ultimately show ?thesis using put by (auto simp: Let_def)
qed

definition two_sent :: db where
  "two_sent = \<lparr>db_emails = [], db_assignments = [],
     db_volume = [\<lparr>v_project = ''p'', v_minute = 0, v_accepted = 2\<rparr>], db_keys = [], db_faults = []\<rparr>"

definition third_email :: email where
  "third_email = zero_email\<lparr>e_id := ''m3'', e_project_id := ''p''\<rparr>"

lemma put_within_limit_witness:
  "volume_since ''p'' (60000000000 - hour) (snd (PutWithin 60000000000 third_email 3 0 two_sent)) \<le> 3"
proof -
  have f: "e_project_id third_email = ''p''" "e_created_at (created_or 60000000000 third_email) = 60000000000"
    by (simp_all add: third_email_def zero_email_def created_or_def zero_time_def)
  have "db_volume (snd (PutWithin 60000000000 third_email 3 0 two_sent)) = db_volume two_sent \<or>
      volume_since ''p'' (60000000000 - hour) (snd (PutWithin 60000000000 third_email 3 0 two_sent)) \<le> 3"
    using put_within_limit [of 60000000000 third_email 3 0 two_sent, OF prod.collapse [symmetric]]
    unfolding f Let_def by auto
  then show ?thesis by (auto simp: volume_since_def two_sent_def)
qed

lemma claim_result:
  assumes "fst (ClaimDue now limit perProject locked d) = Inr jobs" and "j \<in> set jobs"
  shows "\<exists>e x. e \<in> set (db_emails d) \<and> x \<in> set (db_emails d) \<and> e_id x = e_id e \<and> claimable now x \<and> j = claim_row now e"
proof -
  obtain fair d' where ex: "Exec (claim_stmt now limit locked fair) d = (Inr jobs, d')"
    using assms(1) by (metis ClaimDue_def prod.collapse)
  have due: "\<exists>x \<in> set es. e_id x = i \<and> claimable now x" if "i \<in> set (claim_ids now limit locked f es)" for i f es
    using that set_take_subset by (fastforce simp: claim_ids_def)
  from ex show ?thesis
    by (cases rule: Exec_cases) (use assms(2) due in \<open>fastforce simp: claim_stmt_def Let_def\<close>)+
qed

text \<open>
  Cancelling and claiming exclude each other.  A cancellation that reports success leaves the
  row cancelled and no later claim returns it; a row already claimed refuses the cancellation
  and stays as it is.
\<close>
lemma cancel_excludes_claim:
  assumes "ids_ok d" and "Cancel p i c d = (r, d')"
  shows "(r = Inr True \<longrightarrow> (\<exists>e. row_at d' i c = Some e \<and> e_status e = StatusCancelled) \<and>
      (\<forall>now limit perProject locked jobs. fst (ClaimDue now limit perProject locked d') = Inr jobs \<longrightarrow>
        (i, c) \<notin> pk ` set jobs)) \<and>
    ((\<exists>e. row_at d i c = Some e \<and> e_status e = StatusProcessing) \<longrightarrow>
      r \<noteq> Inr True \<and> db_emails d' = db_emails d)"
proof -
  have key: "\<And>e. cancellable p i c e \<Longrightarrow> e_id e = i \<and> e_created_at e = c" by (simp add: cancellable_def)
  have keep: "\<And>e. cancellable p i c e \<Longrightarrow> e_id (cancel_row e) = e_id e \<and> e_created_at (cancel_row e) = e_created_at e"
    by simp
  from assms(2) have run: "rows_affected (Exec (update_emails (cancellable p i c) cancel_row) d) = (r, d')"
    by (simp add: Cancel_def)
  consider (written) e where "row_at d i c = Some e" "cancellable p i c e"
      "db_emails d' = sql_update (cancellable p i c) cancel_row (db_emails d)"
    | (untouched) "r \<noteq> Inr True" "db_emails d' = db_emails d"
    using keyed_update [OF run keep key ids_ok_pk_ok [OF assms(1)]] by blast
  then show ?thesis
  proof cases
    case written
    have row: "row_at d' i c = Some (cancel_row e)"
      using row_at_update [of "cancellable p i c" cancel_row d i c] written
      by (simp add: row_at_def update_emails_def)
    have ids: "ids_ok d'" using assms(1) written(3) by (simp add: ids_ok_def map_sql_update)
    have "(i, c) \<noteq> pk j" if j: "fst (ClaimDue now limit perProject locked d') = Inr jobs" "j \<in> set jobs"
      for now limit perProject locked jobs j
    proof
      assume jc: "(i, c) = pk j"
      obtain e' x where e': "e' \<in> set (db_emails d')" "x \<in> set (db_emails d')" "e_id x = e_id e'"
        "claimable now x" "j = claim_row now e'"
        using claim_result [OF j] by blast
      then have "x = e'" using ids unfolding ids_ok_def distinct_map by (meson inj_onD)
      moreover have "e' = cancel_row e"
        using ids row_at_Some [OF row] e'(1,5) jc unfolding ids_ok_def distinct_map
        by (metis Pair_inject inj_onD pk_def row_keys(1))
      ultimately show False using e'(4) by (simp add: claimable_def)
    qed
    then show ?thesis using row written by (fastforce simp: cancellable_def)
  next
    case untouched
    then show ?thesis by simp
  qed
qed

lemma cancel_excludes_claim_witness:
  "fst (Cancel ''p'' ''m3'' 9 (two_sent\<lparr>db_emails := [third_email\<lparr>e_created_at := 9, e_status := StatusProcessing\<rparr>]\<rparr>))
     \<noteq> Inr True"
  using cancel_excludes_claim [of "two_sent\<lparr>db_emails := [third_email\<lparr>e_created_at := 9, e_status := StatusProcessing\<rparr>]\<rparr>"
      "''p''" "''m3''" 9, OF _ prod.collapse [symmetric]]
  by (simp add: ids_ok_def row_at_def third_email_def zero_email_def)

text \<open>What a claim may take: due, not locked by a peer, and inside its project's share.\<close>

definition eligible :: "time \<Rightarrow> nat \<Rightarrow> string set \<Rightarrow> db \<Rightarrow> email \<Rightarrow> bool" where
  "eligible now perProject locked d e =
     (claimable now e \<and> e_id e \<notin> locked \<and> (0 < perProject \<longrightarrow> fair_share now perProject d e))"

lemma claim_ids_eq:
  "claim_ids now limit locked fair es =
   map e_id (take limit (sort_key next_key (filter (\<lambda>e. claimable now e \<and> fair e \<and> e_id e \<notin> locked) es)))"
  by (simp add: claim_ids_def)

lemma sorted_take_drop:
  assumes "sorted (map f xs)" "x \<in> set (take n xs)" "y \<in> set (drop n xs)"
  shows "f x \<le> f y"
proof -
  have "sorted (map f (take n xs) @ map f (drop n xs))"
    using assms(1) by (simp flip: map_append)
  then show ?thesis using assms(2,3) unfolding sorted_append by auto
qed

lemma claim_run:
  assumes "db_faults d = []"
  shows "\<exists>picked. set picked \<subseteq> {e \<in> set (db_emails d). eligible now perProject locked d e} \<and>
     length picked = min limit (length (filter (eligible now perProject locked d) (db_emails d))) \<and>
     sorted (map next_key picked) \<and> (distinct (db_emails d) \<longrightarrow> distinct picked) \<and>
     (\<forall>x \<in> set picked. \<forall>y \<in> set (db_emails d). eligible now perProject locked d y \<longrightarrow> y \<notin> set picked \<longrightarrow>
        next_key x \<le> next_key y) \<and>
     ClaimDue now limit perProject locked d =
       (Inr (map (claim_row now) (filter (\<lambda>e. e_id e \<in> e_id ` set picked) (db_emails d))),
        d\<lparr>db_emails := sql_update (\<lambda>e. e_id e \<in> e_id ` set picked) (claim_row now) (db_emails d)\<rparr>)"
proof -
  let ?el = "filter (eligible now perProject locked d) (db_emails d)"
  let ?p = "take limit (sort_key next_key ?el)"
  have fair: "filter (\<lambda>e. claimable now e \<and> (if 0 < perProject then fair_share now perProject d e else True) \<and> e_id e \<notin> locked)
      (db_emails d) = ?el"
    by (rule filter_cong) (auto simp: eligible_def)
  have ids: "set (claim_ids now limit locked (if 0 < perProject then fair_share now perProject d else (\<lambda>_. True)) (db_emails d))
      = e_id ` set ?p"
    using fair by (cases "0 < perProject") (simp_all add: claim_ids_def)
  have sub: "set ?p \<subseteq> set ?el" by (metis set_sort set_take_subset)
  have srt: "sorted (map next_key (sort_key next_key ?el))" by simp
  have "next_key x \<le> next_key y" if "x \<in> set ?p" "y \<in> set ?el" "y \<notin> set ?p" for x y
  proof -
    have "y \<in> set (sort_key next_key ?el)" using that by simp
    then have "y \<in> set (drop limit (sort_key next_key ?el))"
      using that(3) by (metis UnE append_take_drop_id set_append)
    with srt that(1) show ?thesis by (rule sorted_take_drop)
  qed
  moreover have "ClaimDue now limit perProject locked d =
       (Inr (map (claim_row now) (filter (\<lambda>e. e_id e \<in> e_id ` set ?p) (db_emails d))),
        d\<lparr>db_emails := sql_update (\<lambda>e. e_id e \<in> e_id ` set ?p) (claim_row now) (db_emails d)\<rparr>)"
    using ids by (cases "0 < perProject") (simp_all add: ClaimDue_def Exec_no_fault assms claim_stmt_def Let_def)
  moreover have "sorted (map next_key ?p)" by (simp add: sorted_wrt_take take_map [symmetric])
  moreover have "distinct ?p" if "distinct (db_emails d)" using that by (simp add: distinct_take)
  ultimately show ?thesis using sub by (intro exI [of _ ?p]) auto
qed

text \<open>
  C8: A claim that is answered returns, for distinct messages, exactly the updated rows: at most
  the limit, each due, unlocked and inside its project's share, claimed at this instant with one
  attempt more; it stops short of the limit only when nothing more was eligible, passes over no
  row that was due earlier than one it took, and changes no other row.
\<close>
theorem claim_due_spec:
  assumes "db_faults d = []" and "ids_ok d"
  shows "\<exists>picked. distinct picked \<and> set picked \<subseteq> {e \<in> set (db_emails d). eligible now perProject locked d e} \<and>
     length picked = min limit (length (filter (eligible now perProject locked d) (db_emails d))) \<and>
     (\<forall>x \<in> set picked. \<forall>y \<in> set (db_emails d). eligible now perProject locked d y \<longrightarrow> y \<notin> set picked \<longrightarrow>
        next_key x \<le> next_key y) \<and>
     (\<exists>jobs. fst (ClaimDue now limit perProject locked d) = Inr jobs \<and>
        set jobs = claim_row now ` set picked \<and> length jobs = length picked) \<and>
     db_emails (snd (ClaimDue now limit perProject locked d)) =
       map (\<lambda>e. if e \<in> set picked then claim_row now e else e) (db_emails d)"
proof -
  have dist: "distinct (db_emails d)" using assms(2) by (simp add: ids_ok_def distinct_map)
  obtain picked where p: "set picked \<subseteq> {e \<in> set (db_emails d). eligible now perProject locked d e}"
     "length picked = min limit (length (filter (eligible now perProject locked d) (db_emails d)))"
     "distinct picked"
     "\<forall>x \<in> set picked. \<forall>y \<in> set (db_emails d). eligible now perProject locked d y \<longrightarrow> y \<notin> set picked \<longrightarrow>
        next_key x \<le> next_key y"
     "ClaimDue now limit perProject locked d =
       (Inr (map (claim_row now) (filter (\<lambda>e. e_id e \<in> e_id ` set picked) (db_emails d))),
        d\<lparr>db_emails := sql_update (\<lambda>e. e_id e \<in> e_id ` set picked) (claim_row now) (db_emails d)\<rparr>)"
    using claim_run [OF assms(1), of now perProject locked limit] dist by blast
  have mem: "e_id e \<in> e_id ` set picked \<longleftrightarrow> e \<in> set picked" if "e \<in> set (db_emails d)" for e
    using assms(2) p(1) that unfolding ids_ok_def distinct_map by (auto dest: inj_onD)
  have rows: "filter (\<lambda>e. e_id e \<in> e_id ` set picked) (db_emails d) = filter (\<lambda>e. e \<in> set picked) (db_emails d)"
    by (rule filter_cong) (simp_all add: mem)
  have set_rows: "set (filter (\<lambda>e. e \<in> set picked) (db_emails d)) = set picked" using p(1) by auto
  have "length (filter (\<lambda>e. e \<in> set picked) (db_emails d)) = length picked"
    using set_rows dist p(3) by (metis distinct_card distinct_filter)
  moreover have "sql_update (\<lambda>e. e_id e \<in> e_id ` set picked) (claim_row now) (db_emails d) =
      map (\<lambda>e. if e \<in> set picked then claim_row now e else e) (db_emails d)"
    unfolding sql_update_def by (rule map_cong) (simp_all add: mem)
  ultimately show ?thesis using p set_rows
    by (intro exI [of _ picked]) (simp add: rows image_set [symmetric] del: image_set)
qed

definition busy_db :: db where
  "busy_db = empty_db\<lparr>db_emails := [claimed_email\<lparr>e_project_id := ''p''\<rparr>,
     zero_email\<lparr>e_id := ''m2'', e_project_id := ''p'', e_status := StatusQueued, e_next_attempt_at := Some 20\<rparr>,
     zero_email\<lparr>e_id := ''m3'', e_project_id := ''p'', e_status := StatusQueued, e_next_attempt_at := Some 10\<rparr>]\<rparr>"

lemma claim_due_spec_witness:
  "\<exists>picked jobs. fst (ClaimDue 50 1 0 {} busy_db) = Inr jobs \<and> set jobs = claim_row 50 ` set picked \<and>
     length picked = 1"
proof -
  have h: "db_faults busy_db = []" "ids_ok busy_db"
    by (simp_all add: busy_db_def empty_db_def ids_ok_def claimed_email_def zero_email_def)
  have n: "length (filter (eligible 50 0 {} busy_db) (db_emails busy_db)) = 2"
    by (simp add: eligible_def claimable_def busy_db_def claimed_email_def zero_email_def)
  show ?thesis using claim_due_spec [OF h, where now = 50 and limit = 1 and perProject = 0 and locked = "{}"]
    unfolding n by auto
qed

text \<open>The rows of a project are ranked without ties, so a share of n admits at most n of them.\<close>

definition ranked_before :: "email \<Rightarrow> email \<Rightarrow> bool" where
  "ranked_before q e = (next_key q < next_key e \<or> next_key q = next_key e \<and> e_id q < e_id e)"

lemma ranked_before_trans: "ranked_before a b \<Longrightarrow> ranked_before b c \<Longrightarrow> ranked_before a c"
  by (auto simp: ranked_before_def)

lemma ranked_before_irrefl: "\<not> ranked_before a a"
  by (simp add: ranked_before_def)

lemma ranked_before_total: "e_id a \<noteq> e_id b \<Longrightarrow> ranked_before a b \<or> ranked_before b a"
  by (auto simp: ranked_before_def)

lemma row_number_less:
  assumes "q \<in> set (db_emails d)" "claimable now q" "e_project_id q = e_project_id e" "ranked_before q e"
  shows "row_number now d q < row_number now d e"
proof -
  have "sql_count (\<lambda>x. claimable now x \<and> e_project_id x = e_project_id q \<and> ranked_before x q) (db_emails d)
      < sql_count (\<lambda>x. claimable now x \<and> e_project_id x = e_project_id e \<and> ranked_before x e) (db_emails d)"
    by (rule sql_count_less [of _ _ _ q])
      (use assms ranked_before_trans [of _ q e] ranked_before_irrefl in simp_all)
  then show ?thesis by (simp add: row_number_def ranked_before_def)
qed

text \<open>Within a project the ranks of the due rows are the numbers from one on.\<close>

lemma ranks:
  assumes ids: "ids_ok d" and C: "C = {e \<in> set (db_emails d). claimable now e \<and> e_project_id e = p}"
  shows "inj_on (row_number now d) C" "row_number now d ` C = {1 .. card C}"
proof -
  show inj: "inj_on (row_number now d) C"
  proof (rule inj_onI)
    fix a b
    assume ab: "a \<in> C" "b \<in> C" "row_number now d a = row_number now d b"
    show "a = b"
    proof (rule ccontr)
      assume "a \<noteq> b"
      then have "e_id a \<noteq> e_id b" using ab C ids unfolding ids_ok_def distinct_map by (auto dest: inj_onD)
      then have "ranked_before a b \<or> ranked_before b a" by (rule ranked_before_total)
      then have "row_number now d a < row_number now d b \<or> row_number now d b < row_number now d a"
        using row_number_less ab C by (metis (mono_tags, lifting) mem_Collect_eq)
      with ab(3) show False by simp
    qed
  qed
  have dist: "distinct (db_emails d)" using ids by (simp add: ids_ok_def distinct_map)
  have "sql_count (\<lambda>e. claimable now e \<and> e_project_id e = p) (db_emails d) = card C"
    unfolding sql_count_def C set_filter [symmetric] by (rule distinct_card [OF distinct_filter [OF dist], symmetric])
  moreover have "row_number now d q \<le> sql_count (\<lambda>e. claimable now e \<and> e_project_id e = p) (db_emails d)" if q: "q \<in> C" for q
    unfolding row_number_def Suc_le_eq by (rule sql_count_less [of _ _ _ q]) (use q C in auto)
  ultimately have "row_number now d ` C \<subseteq> {1 .. card C}" by (auto simp: row_number_def)
  then show "row_number now d ` C = {1 .. card C}"
    by (rule card_subset_eq [rotated]) (simp_all add: card_image [OF inj])
qed

lemma fair_card:
  assumes ids: "ids_ok d"
    and S: "S \<subseteq> {e \<in> set (db_emails d). claimable now e \<and> e_project_id e = p \<and> fair_share now perProject d e}"
  shows "card S + busy now d p \<le> max (busy now d p) perProject"
proof (cases "S = {}")
  case False
  have inj: "inj_on (row_number now d) S"
    using ranks(1) [OF ids refl, of now p] S by (auto elim!: inj_on_subset)
  have "row_number now d ` S \<subseteq> {1 .. perProject - busy now d p}"
    using S by (force simp: fair_share_def row_number_def)
  then have "card (row_number now d ` S) \<le> card {1 .. perProject - busy now d p}" by (intro card_mono) simp_all
  then have "card S \<le> perProject - busy now d p" using card_image [OF inj] by simp
  moreover obtain e where "e \<in> S" using False by blast
  then have "busy now d p \<le> perProject" using S by (auto simp: fair_share_def)
  ultimately show ?thesis by simp
qed simp

text \<open>
  C9: However much a project has queued, one claim never lets it hold more than its share of the
  workers: after the claim its rows being delivered (a row a relay node carries not counted) are at
  most the share, or as many as before when they already exceeded it.
\<close>
theorem fair_claim:
  assumes "db_faults d = []" and "ids_ok d" and "0 < perProject"
  shows "busy now (snd (ClaimDue now limit perProject locked d)) p \<le> max (busy now d p) perProject"
proof -
  have dist: "distinct (db_emails d)" using assms(2) by (simp add: ids_ok_def distinct_map)
  obtain picked where p: "set picked \<subseteq> {e \<in> set (db_emails d). eligible now perProject locked d e}"
     "ClaimDue now limit perProject locked d =
       (Inr (map (claim_row now) (filter (\<lambda>e. e_id e \<in> e_id ` set picked) (db_emails d))),
        d\<lparr>db_emails := sql_update (\<lambda>e. e_id e \<in> e_id ` set picked) (claim_row now) (db_emails d)\<rparr>)"
    using claim_run [OF assms(1), of now perProject locked limit] dist by blast
  let ?new = "sql_update (\<lambda>e. e_id e \<in> e_id ` set picked) (claim_row now) (db_emails d)"
  let ?S = "{e \<in> set picked. e_project_id e = p}"
  have mem: "e_id e \<in> e_id ` set picked \<longleftrightarrow> e \<in> set picked" if "e \<in> set (db_emails d)" for e
    using assms(2) p(1) that unfolding ids_ok_def distinct_map by (auto dest: inj_onD)
  have la: "live_assignment now (d\<lparr>db_emails := es\<rparr>) i = live_assignment now d i" for es i
    by (simp add: live_assignment_def)
  have "busy now (d\<lparr>db_emails := ?new\<rparr>) p \<le> busy now d p + sql_count (\<lambda>e. e \<in> ?S) (db_emails d)"
    unfolding busy_def la select_convs update_convs by (simp, rule sql_count_update) (simp add: mem)
  moreover have "sql_count (\<lambda>e. e \<in> ?S) (db_emails d) = card ?S"
  proof -
    have "set (filter (\<lambda>e. e \<in> ?S) (db_emails d)) = ?S" using p(1) by auto
    moreover have "distinct (filter (\<lambda>e. e \<in> ?S) (db_emails d))" using dist by simp
    ultimately show ?thesis unfolding sql_count_def using distinct_card by fastforce
  qed
  moreover have "card ?S + busy now d p \<le> max (busy now d p) perProject"
    using p(1) assms(3) by (intro fair_card [OF assms(2)]) (auto simp: eligible_def)
  ultimately show ?thesis using p(2) by simp
qed

lemma fair_claim_witness:
  "busy 50 (snd (ClaimDue 50 10 2 {} busy_db)) ''p'' \<le> 2"
proof -
  have "busy 50 busy_db ''p'' = 1"
    by (simp add: busy_def busy_db_def claimed_email_def zero_email_def live_assignment_def empty_db_def)
  then show ?thesis
    using fair_claim [of busy_db 2 50 10 "{}" "''p''"]
    by (simp add: busy_db_def ids_ok_def claimed_email_def zero_email_def empty_db_def)
qed







end
