(* ===== verification/Sql.thy ===== *)
theory Sql
  imports Prelude
begin

text \<open>
  The pieces of PostgreSQL and of the stored column text that the email log relies on: \<^verbatim>\<open>LIKE\<close>
  with the backslash as its escape character, \<^verbatim>\<open>ILIKE\<close>, the escaping of a search term
  (\<^verbatim>\<open>internal/database/utils.go\<close>), and the text a list of strings is stored as.
  Patterns and texts are byte lists, so an underscore matches one byte here where the database
  matches one character; the program only ever builds patterns whose underscores are escaped.
  The encoder of the stored text replaces bytes that are no UTF-8 (\<^verbatim>\<open>storedJSONOptions\<close>); here they are kept, so
  the text is the stored one for strings that are UTF-8.
\<close>

section \<open>Patterns\<close>

definition percent :: char where "percent = CHR ''%''"
definition underscore :: char where "underscore = CHR ''_''"
definition backslash :: char where "backslash = CHR 0x5C"
definition quote :: char where "quote = CHR 0x22"

lemmas meta_defs = percent_def underscore_def backslash_def quote_def

function like :: "string \<Rightarrow> string \<Rightarrow> bool" where
  "like [] s = (s = [])"
| "like (p # ps) s =
     (if p = percent then list_ex (\<lambda>k. like ps (drop k s)) [0 ..< Suc (length s)]
      else if p = backslash then
        (case ps of [] \<Rightarrow> False
         | q # qs \<Rightarrow> (case s of [] \<Rightarrow> False | c # cs \<Rightarrow> c = q \<and> like qs cs))
      else (case s of [] \<Rightarrow> False
            | c # cs \<Rightarrow> (p = underscore \<or> c = p) \<and> like ps cs))"
  by pat_completeness auto
termination by (relation "measure (\<lambda>(p, s). length p)") auto

definition ilike :: "string \<Rightarrow> string \<Rightarrow> bool" where
  "ilike p s = like (to_lower p) (to_lower s)"

fun replace_all :: "char \<Rightarrow> string \<Rightarrow> string \<Rightarrow> string" where
  "replace_all c new [] = []"
| "replace_all c new (x # xs) = (if x = c then new @ replace_all c new xs else x # replace_all c new xs)"

definition EscapeLike :: "string \<Rightarrow> string" where
  "EscapeLike s =
     (let s = replace_all backslash [backslash, backslash] s;
          s = replace_all percent [backslash, percent] s
      in replace_all underscore [backslash, underscore] s)"

definition contains :: "string \<Rightarrow> string \<Rightarrow> bool" where
  "contains t s = list_ex (\<lambda>k. take (length t) (drop k s) = t) [0 ..< Suc (length s)]"

section \<open>Stored JSON text\<close>

definition hex_digit :: "nat \<Rightarrow> char" where
  "hex_digit n = (if n < 10 then char_of (48 + n) else char_of (87 + n))"

definition json_char :: "char \<Rightarrow> string" where
  "json_char c =
     (let n = (of_char c :: nat) in
      if n = 34 \<or> n = 92 then [backslash, c]
      else if n = 8 then [backslash, CHR ''b'']
      else if n = 12 then [backslash, CHR ''f'']
      else if n = 10 then [backslash, CHR ''n'']
      else if n = 13 then [backslash, CHR ''r'']
      else if n = 9 then [backslash, CHR ''t'']
      else if n < 32 then [backslash, CHR ''u'', CHR ''0'', CHR ''0'', hex_digit (n div 16), hex_digit (n mod 16)]
      else [c])"

definition json_string :: "string \<Rightarrow> string" where
  "json_string s = [quote] @ concat (map json_char s) @ [quote]"

definition json_strings :: "string list \<Rightarrow> string" where
  "json_strings ss = ''['' @ join '','' (map json_string ss) @ '']''"

section \<open>What escaping guarantees\<close>

lemma contains_iff: "contains t s \<longleftrightarrow> (\<exists>a b. s = a @ t @ b)"
proof
  assume "contains t s"
  then obtain k where k: "take (length t) (drop k s) = t" by (auto simp: contains_def list_ex_iff)
  have "s = take k s @ t @ drop (length t) (drop k s)"
    using k by (metis append_take_drop_id)
  then show "\<exists>a b. s = a @ t @ b" by blast
next
  assume "\<exists>a b. s = a @ t @ b"
  then obtain a b where s: "s = a @ t @ b" by blast
  then have "take (length t) (drop (length a) s) = t" "length a \<in> set [0 ..< Suc (length s)]"
    by (auto simp del: upt_Suc)
  then show "contains t s" unfolding contains_def list_ex_iff by blast
qed

lemma EscapeLike_simps:
  "EscapeLike [] = []"
  "EscapeLike (c # s) =
     (if c = backslash \<or> c = percent \<or> c = underscore then backslash # c # EscapeLike s else c # EscapeLike s)"
  by (simp_all add: EscapeLike_def Let_def meta_defs)

lemma EscapeLike_append: "EscapeLike (s @ t) = EscapeLike s @ EscapeLike t"
  by (induction s) (simp_all add: EscapeLike_simps)

lemma like_escaped: "like (EscapeLike t @ p) s \<longleftrightarrow> (\<exists>r. s = t @ r \<and> like p r)"
proof (induction t arbitrary: s)
  case (Cons c t)
  show ?case
  proof (cases "c = backslash \<or> c = percent \<or> c = underscore")
    case True
    then show ?thesis using Cons by (cases s) (auto simp: EscapeLike_simps meta_defs)
  next
    case False
    then show ?thesis using Cons by (cases s) (auto simp: EscapeLike_simps)
  qed
qed (simp add: EscapeLike_simps)

lemma like_percent: "like (percent # p) s \<longleftrightarrow> (\<exists>a r. s = a @ r \<and> like p r)"
proof
  assume "like (percent # p) s"
  then obtain k where "like p (drop k s)" by (auto simp: list_ex_iff simp del: upt_Suc)
  then show "\<exists>a r. s = a @ r \<and> like p r" by (metis append_take_drop_id)
next
  assume "\<exists>a r. s = a @ r \<and> like p r"
  then obtain a r where ar: "s = a @ r" "like p r" by blast
  then have "like p (drop (length a) s)" "length a \<in> set [0 ..< Suc (length s)]" by (auto simp del: upt_Suc)
  then show "like (percent # p) s" by (simp add: list_ex_iff del: upt_Suc set_upt) blast
qed

lemma like_infix: "like (percent # EscapeLike t @ [percent]) s \<longleftrightarrow> contains t s"
proof -
  have "like [percent] r" for r using like_percent [of "[]" r] by auto
  then show ?thesis unfolding like_percent like_escaped contains_iff by auto
qed

lemma lower_char_meta [simp]:
  "lower_char percent = percent" "lower_char underscore = underscore" "lower_char backslash = backslash"
  "lower_char quote = quote"
  by (simp_all add: lower_char_def meta_defs)

end
