(* ===== verification/Safetext.thy ===== *)
theory Safetext
  imports Prelude
begin

text \<open>
  Bounding untrusted text (\<^verbatim>\<open>internal/core/safetext\<close>).  Strings are byte lists, so UTF-8 is spelled
  out: \<open>rune_size\<close> is the length of the encoding a string starts with, zero where Go's decoder
  reports an invalid byte.
\<close>

section \<open>UTF-8\<close>

abbreviation code :: "char \<Rightarrow> nat" where
  "code c \<equiv> of_char c"

definition between :: "nat \<Rightarrow> nat \<Rightarrow> char \<Rightarrow> bool" where
  "between lo hi c = (lo \<le> code c \<and> code c \<le> hi)"

definition continuation :: "char \<Rightarrow> bool" where
  "continuation c = between 128 191 c"

definition RuneStart :: "char \<Rightarrow> bool" where
  "RuneStart c = (\<not> continuation c)"

definition second_ok :: "char \<Rightarrow> char \<Rightarrow> bool" where
  "second_ok b c =
     (if code b = 224 then between 160 191 c
      else if code b = 237 then between 128 159 c
      else if code b = 240 then between 144 191 c
      else if code b = 244 then between 128 143 c
      else continuation c)"

definition lead_size :: "char \<Rightarrow> nat" where
  "lead_size b =
     (if code b < 128 then 1
      else if between 194 223 b then 2
      else if between 224 239 b then 3
      else if between 240 244 b then 4
      else 0)"

fun rune_size :: "string \<Rightarrow> nat" where
  "rune_size [] = 0"
| "rune_size (b # s) =
     (if lead_size b \<le> Suc (length s) \<and> (lead_size b \<le> 1 \<or> second_ok b (hd s)) \<and>
         list_all continuation (take (lead_size b - 1) s)
      then lead_size b else 0)"

lemma rune_size_le: "rune_size s \<le> length s"
  by (cases s) auto

function ValidString :: "string \<Rightarrow> bool" where
  "ValidString s =
     (if s = [] then True else if rune_size s = 0 then False else ValidString (drop (rune_size s) s))"
  by pat_completeness auto
termination
  by (relation "measure length") auto

function ToValidUTF8 :: "string \<Rightarrow> string" where
  "ToValidUTF8 s =
     (if s = [] then []
      else if rune_size s = 0 then ToValidUTF8 (tl s)
      else take (rune_size s) s @ ToValidUTF8 (drop (rune_size s) s))"
  by pat_completeness auto
termination
  by (relation "measure length") auto

function runes :: "string \<Rightarrow> string list" where
  "runes s =
     (if s = [] then []
      else (let n = max 1 (rune_size s) in take n s # runes (drop n s)))"
  by pat_completeness auto
termination
  by (relation "measure length") auto

declare ValidString.simps [simp del] ToValidUTF8.simps [simp del] runes.simps [simp del]

section \<open>The package\<close>

definition MaskAddress :: "string \<Rightarrow> string" where
  "MaskAddress addr =
     (let (local, domain, ok) = cut (CHR ''@'') (trim_space addr) in
      if \<not> ok \<or> local = [] then ''***''
      else (if rune_size local = 0 then [CHR 0xEF, CHR 0xBF, CHR 0xBD] else take (rune_size local) local) @ ''***@'' @ domain)"

definition MaskAddresses :: "string list \<Rightarrow> string list" where
  "MaskAddresses addrs = map MaskAddress addrs"

definition storable :: "string \<Rightarrow> string" where
  "storable s = (if \<not> ValidString s then ToValidUTF8 s else s)"

definition Clamp :: "string \<Rightarrow> nat \<Rightarrow> string" where
  "Clamp s0 n =
     (let s = storable s0 in
      if length (runes s) > n then concat (take n (runes s)) else s)"

definition RemoteTextMax :: nat where "RemoteTextMax = 512"

fun cut_back :: "string \<Rightarrow> nat \<Rightarrow> nat" where
  "cut_back s 0 = 0"
| "cut_back s (Suc n) = (if RuneStart (s ! Suc n) then Suc n else cut_back s n)"

definition RemoteText :: "string \<Rightarrow> string" where
  "RemoteText s0 =
     (let s = storable s0 in
      if length s \<le> RemoteTextMax then s else take (cut_back s RemoteTextMax) s)"

section \<open>Cutting keeps text storable\<close>

lemma Valid_Nil [simp]: "ValidString []"
  by (simp add: ValidString.simps)

lemma rune_size_take:
  assumes "0 < rune_size s"
  shows "rune_size (take (rune_size s) s @ t) = rune_size s"
proof (cases s)
  case (Cons b r)
  let ?n = "lead_size b"
  have n: "rune_size s = ?n" "?n \<le> Suc (length r)" "?n \<le> 1 \<or> second_ok b (hd r)"
    "list_all continuation (take (?n - 1) r)" "0 < ?n"
    using assms Cons by (auto split: if_splits)
  have "take ?n s @ t = b # (take (?n - 1) r @ t)" using n(5) Cons by (cases ?n) auto
  moreover have "hd (take (?n - 1) r @ t) = hd r" if "\<not> ?n \<le> 1"
    using that n(2) by (cases r) (auto simp: take_Cons' hd_append)
  ultimately show ?thesis using n by (auto simp: not_le)
qed (use assms in simp)

lemma Valid_rune: "0 < rune_size s \<Longrightarrow> ValidString t \<Longrightarrow> ValidString (take (rune_size s) s @ t)"
  using rune_size_le [of s]
  by (subst ValidString.simps) (simp add: rune_size_take)

lemma ToValid_valid: "ValidString (ToValidUTF8 s)"
proof (induction s rule: ToValidUTF8.induct)
  case (1 s)
  show ?case
    by (subst ToValidUTF8.simps) (use 1 in \<open>auto intro: Valid_rune\<close>)
qed

lemma storable_valid [simp]: "ValidString (storable s)"
  by (simp add: storable_def ToValid_valid)

text \<open>The bytes of an encoding after its first are continuation bytes, its first is not.\<close>

lemma rune_tail:
  assumes "0 < i" "i < rune_size s"
  shows "continuation (s ! i)"
proof (cases s)
  case (Cons b r)
  let ?n = "lead_size b"
  have n: "rune_size s = ?n" "?n \<le> Suc (length r)" "list_all continuation (take (?n - 1) r)"
    using assms Cons by (auto split: if_splits)
  have "i - 1 < length (take (?n - 1) r)" using assms n by simp
  then have "continuation (take (?n - 1) r ! (i - 1))" using n(3) by (simp add: list_all_length)
  then show ?thesis using Cons assms n by (simp add: nth_Cons')
qed (use assms in simp)

lemma Valid_cut:
  assumes "ValidString s" "k < length s" "RuneStart (s ! k)"
  shows "ValidString (take k s)"
  using assms
proof (induction s arbitrary: k rule: ValidString.induct)
  case (1 s)
  let ?n = "rune_size s"
  have n: "0 < ?n" "ValidString (drop ?n s)" "s \<noteq> []"
    using 1(2,3) by (auto simp: ValidString.simps [of s] split: if_splits)
  show ?case
  proof (cases "k < ?n")
    case True
    then have "k = 0" using rune_tail [of k s] 1(4) by (cases k) (auto simp: RuneStart_def)
    then show ?thesis by simp
  next
    case False
    then have "take k s = take ?n s @ take (k - ?n) (drop ?n s)"
      by (metis le_add_diff_inverse not_less take_add)
    moreover have "ValidString (take (k - ?n) (drop ?n s))"
      by (rule 1(1)) (use n False 1(3,4) in \<open>auto simp: not_less\<close>)
    ultimately show ?thesis using n(1) Valid_rune by simp
  qed
qed

lemma cut_back_le: "cut_back s n \<le> n"
  by (induction n) auto

lemma cut_back_start: "cut_back s n = 0 \<or> RuneStart (s ! cut_back s n)"
  by (induction n) auto

lemma Valid_start: "ValidString (b # r) \<Longrightarrow> RuneStart b"
  unfolding ValidString.simps [of "b # r"]
  by (auto simp: RuneStart_def continuation_def between_def lead_size_def split: if_splits)

lemma cut_back_near:
  assumes "ValidString s" "n < length s"
  shows "n < cut_back s n + 4"
  using assms
proof (induction s arbitrary: n rule: ValidString.induct)
  case (1 s)
  let ?n = "rune_size s"
  have r: "0 < ?n" "ValidString (drop ?n s)" "s \<noteq> []"
    using 1(2,3) by (auto simp: ValidString.simps [of s] split: if_splits)
  have four: "?n \<le> 4" by (cases s) (auto simp: lead_size_def)
  show ?case
  proof (cases "n < ?n")
    case True
    then show ?thesis using four by linarith
  next
    case False
    have shift: "cut_back s (m + ?n) = cut_back (drop ?n s) m + ?n \<or> cut_back (drop ?n s) m = 0 \<and> ?n \<le> cut_back s (m + ?n)"
      if "m + ?n < length s" for m
      using that
    proof (induction m)
      case 0
      have "RuneStart (drop ?n s ! 0) \<or> drop ?n s = []"
        using r(2) Valid_start by (cases "drop ?n s") auto
      then have "RuneStart (s ! ?n)" using 0 rune_size_le [of s] by auto
      then show ?case using r(1) by (cases ?n) auto
    next
      case (Suc m)
      then show ?case by (auto simp: add.commute)
    qed
    have "n - ?n < cut_back (drop ?n s) (n - ?n) + 4"
      by (rule 1(1)) (use r False 1(3) in \<open>auto simp: not_less\<close>)
    then show ?thesis using shift [of "n - ?n"] False 1(3) by auto
  qed
qed

text \<open>
  What is kept of a remote party's words is always storable text of at most 512 bytes; it is the
  valid part of what was said, cut short by at most three bytes more than the limit asks.
\<close>

lemma remote_text_bounded:
  "ValidString (RemoteText s) \<and> length (RemoteText s) \<le> 512 \<and>
   (if length (storable s) \<le> 512 then RemoteText s = storable s
    else 508 < length (RemoteText s) \<and> RemoteText s = take (length (RemoteText s)) (storable s))"
proof (cases "length (storable s) \<le> 512")
  case True
  then show ?thesis by (simp add: RemoteText_def RemoteTextMax_def Let_def)
next
  case False
  let ?t = "storable s" and ?k = "cut_back (storable s) 512"
  have k: "?k \<le> 512" by (rule cut_back_le)
  have rt: "RemoteText s = take ?k ?t" using False by (simp add: RemoteText_def RemoteTextMax_def Let_def)
  have near: "512 < ?k + 4" by (rule cut_back_near) (use False in simp_all)
  have "RuneStart (?t ! ?k)" using cut_back_start [of ?t 512] near by linarith
  then have "ValidString (take ?k ?t)" using k False by (intro Valid_cut) simp_all
  then show ?thesis using rt k near False by simp
qed

lemma runes_Nil [simp]: "runes [] = []"
  by (simp add: runes.simps)

lemma runes_rune:
  assumes "0 < rune_size s"
  shows "runes (take (rune_size s) s @ t) = take (rune_size s) s # runes t"
proof -
  let ?u = "take (rune_size s) s @ t"
  have ne: "?u \<noteq> []" using assms by (cases s) auto
  have one: "max 1 (rune_size ?u) = rune_size s" using rune_size_take [OF assms, of t] assms by simp
  have cut: "take (rune_size s) ?u = take (rune_size s) s" "drop (rune_size s) ?u = t"
    using rune_size_le [of s] by simp_all
  show ?thesis unfolding runes.simps [of ?u] if_not_P [OF ne] Let_def one cut ..
qed

lemma clamp_runes:
  assumes "ValidString s"
  shows "ValidString (concat (take n (runes s))) \<and> runes (concat (take n (runes s))) = take n (runes s)"
  using assms
proof (induction s arbitrary: n rule: ValidString.induct)
  case (1 s)
  show ?case
  proof (cases "s = [] \<or> n = 0")
    case True
    then show ?thesis by auto
  next
    case False
    then obtain m where m: "n = Suc m" "s \<noteq> []" by (cases n) auto
    let ?n = "rune_size s"
    have r: "0 < ?n" "ValidString (drop ?n s)"
      using 1(2) m(2) by (auto simp: ValidString.simps [of s] split: if_splits)
    have "runes s = take ?n s # runes (drop ?n s)" using runes_rune [OF r(1), of "drop ?n s"] by simp
    then have cut: "concat (take n (runes s)) = take ?n s @ concat (take m (runes (drop ?n s)))"
      "take n (runes s) = take ?n s # take m (runes (drop ?n s))" using m by simp_all
    have "ValidString (concat (take m (runes (drop ?n s)))) \<and>
        runes (concat (take m (runes (drop ?n s)))) = take m (runes (drop ?n s))"
      by (rule 1(1)) (use r m in simp_all)
    then show ?thesis unfolding cut using r(1) by (simp add: Valid_rune runes_rune)
  qed
qed

text \<open>
  A clamped value is always storable and holds at most the given number of characters, cut
  between characters.
\<close>

lemma clamp_bounded:
  "ValidString (Clamp s n) \<and> length (runes (Clamp s n)) \<le> n \<and> runes (Clamp s n) = take n (runes (storable s))"
  using clamp_runes [OF storable_valid, of n s]
  by (auto simp: Clamp_def Let_def not_less)

end
