(* ===== verification/Keyset.thy ===== *)
theory Keyset
  imports Safetext "HOL-Library.Product_Lexorder"
begin

text \<open>
  Lists that page by position (\<^verbatim>\<open>internal/core/keyset\<close>, \<^verbatim>\<open>internal/core/paging\<close>).  A cursor names
  the last row seen by its creation time and id, and travels as base64; formatting and parsing of
  instants and the check of an id are the standard library's and parameters.  The locale states
  what a store promises of its sort key and proves once that following the cursors reads the whole
  list.
\<close>

section \<open>Cursors\<close>

record cursor =
  cu_created_at :: time
  cu_id :: string

definition zero_cursor :: cursor where
  "zero_cursor = \<lparr>cu_created_at = zero_time, cu_id = []\<rparr>"

definition IsZero :: "cursor \<Rightarrow> bool" where
  "IsZero c = (cu_id c = [] \<or> cu_created_at c = zero_time)"

definition cursorSep :: char where "cursorSep = CHR ''|''"

text \<open>Go's \<^verbatim>\<open>base64.RawURLEncoding\<close>: groups of three bytes, no padding.\<close>

definition b64_alphabet :: string where
  "b64_alphabet = ''ABCDEFGHIJKLMNOPQRSTUVWXYZabcdefghijklmnopqrstuvwxyz0123456789-_''"

definition b64_char :: "nat \<Rightarrow> char" where
  "b64_char n = b64_alphabet ! n"

definition b64_digit :: "char \<Rightarrow> nat option" where
  "b64_digit c =
     (case takeWhile (\<lambda>d. d \<noteq> c) b64_alphabet of
        before \<Rightarrow> if length before < 64 then Some (length before) else None)"

fun b64_encode :: "string \<Rightarrow> string" where
  "b64_encode (a # b # c # s) =
     (let n = of_char a * 65536 + of_char b * 256 + of_char c in
      map b64_char [n div 262144, n div 4096 mod 64, n div 64 mod 64, n mod 64] @ b64_encode s)"
| "b64_encode [a, b] =
     (let n = of_char a * 256 + of_char b in map b64_char [n div 1024, n div 16 mod 64, n mod 16 * 4])"
| "b64_encode [a] = (let n = of_char a in map b64_char [n div 4, n mod 4 * 16])"
| "b64_encode [] = []"

fun b64_digits :: "nat list \<Rightarrow> string option" where
  "b64_digits (w # x # y # z # ds) =
     (let n = w * 262144 + x * 4096 + y * 64 + z in
      map_option (\<lambda>s. char_of (n div 65536) # char_of (n div 256 mod 256) # char_of (n mod 256) # s) (b64_digits ds))"
| "b64_digits [w, x, y] =
     (let n = w * 1024 + x * 16 + y div 4 in Some [char_of (n div 256), char_of (n mod 256)])"
| "b64_digits [w, x] = Some [char_of (w * 4 + x div 16)]"
| "b64_digits [w] = None"
| "b64_digits [] = Some []"

definition b64_decode :: "string \<Rightarrow> string option" where
  "b64_decode s =
     (let ds = map b64_digit (filter (\<lambda>c. c \<noteq> CHR 0x0D \<and> c \<noteq> CHR 0x0A) s) in
      if list_ex (\<lambda>d. d = None) ds then None else b64_digits (map the ds))"

definition Encode :: "(time \<Rightarrow> string) \<Rightarrow> cursor \<Rightarrow> string" where
  "Encode fmt c = (if IsZero c then [] else b64_encode (fmt (cu_created_at c) @ cursorSep # cu_id c))"

definition DecodeCursor :: "(string \<Rightarrow> time option) \<Rightarrow> (string \<Rightarrow> bool) \<Rightarrow> string \<Rightarrow> cursor" where
  "DecodeCursor parse is_uuid s =
     (if s = [] then zero_cursor
      else (case b64_decode s of
              None \<Rightarrow> zero_cursor
            | Some raw \<Rightarrow>
                (let (at, i, ok) = cut cursorSep raw in
                 if \<not> ok \<or> i = [] then zero_cursor
                 else (case parse at of
                         None \<Rightarrow> zero_cursor
                       | Some t \<Rightarrow> if is_uuid i then \<lparr>cu_created_at = t, cu_id = i\<rparr> else zero_cursor))))"

definition Cut :: "'a list \<Rightarrow> int \<Rightarrow> 'a list \<times> bool" where
  "Cut rows limit =
     (if 0 < limit \<and> limit < int (length rows) then (take (nat limit) rows, True) else (rows, False))"

section \<open>Reading a request\<close>

definition DefaultLimit :: int where "DefaultLimit = 50"
definition MaxLimit :: int where "MaxLimit = 200"

record page =
  pg_limit :: int
  pg_offset :: int

text \<open>The framework reads a parameter as a number or answers the default (\<open>None\<close>).\<close>

definition FromWith :: "int option \<Rightarrow> int option \<Rightarrow> int \<Rightarrow> int \<Rightarrow> page" where
  "FromWith limit_param offset_param def0 ceiling0 =
     (let def1 = (if def0 \<le> 0 then DefaultLimit else def0);
          ceiling = (if ceiling0 \<le> 0 then MaxLimit else ceiling0);
          def = min def1 ceiling;
          limit = (case limit_param of None \<Rightarrow> def | Some n \<Rightarrow> if n < 1 then def else n);
          offset = (case offset_param of None \<Rightarrow> 0 | Some n \<Rightarrow> max n 0)
      in \<lparr>pg_limit = min limit ceiling, pg_offset = offset\<rparr>)"

definition From :: "int option \<Rightarrow> int option \<Rightarrow> page" where
  "From limit_param offset_param = FromWith limit_param offset_param DefaultLimit MaxLimit"

definition Optional :: "bool \<Rightarrow> int option \<Rightarrow> int option \<Rightarrow> page" where
  "Optional limit_given limit_param offset_param =
     (if \<not> limit_given then \<lparr>pg_limit = 0, pg_offset = (case offset_param of None \<Rightarrow> 0 | Some n \<Rightarrow> max n 0)\<rparr>
      else From limit_param offset_param)"

definition Exact :: "string \<Rightarrow> error + bool" where
  "Exact m =
     (if m = [] \<or> m = ''contains'' then Inr False
      else if m = ''exact'' then Inr True
      else Inl ''match must be contains or exact'')"

definition MaxSearchTerm :: nat where "MaxSearchTerm = 200"

definition Search :: "string \<Rightarrow> string" where
  "Search param = Clamp (trim_space param) MaxSearchTerm"

record window =
  wi_limit :: int
  wi_cursor :: cursor

definition WindowFrom :: "int option \<Rightarrow> cursor \<Rightarrow> window" where
  "WindowFrom limit_param c = \<lparr>wi_limit = pg_limit (From limit_param None), wi_cursor = c\<rparr>"

definition Fetch :: "window \<Rightarrow> int" where "Fetch w = wi_limit w + 1"

definition listLimit :: "int \<Rightarrow> int" where
  "listLimit n = (if n < 1 \<or> 201 < n then 51 else n)"

section \<open>A page\<close>

definition after_key :: "('r \<Rightarrow> time \<times> string) \<Rightarrow> cursor \<Rightarrow> 'r \<Rightarrow> bool" where
  "after_key key c r = (IsZero c \<or> key r < (cu_created_at c, cu_id c))"

definition newest :: "('r \<Rightarrow> time \<times> string) \<Rightarrow> 'r list \<Rightarrow> 'r list" where
  "newest key rows = rev (sort_key key rows)"

definition page_of :: "('r \<Rightarrow> time \<times> string) \<Rightarrow> int \<Rightarrow> cursor \<Rightarrow> 'r list \<Rightarrow> 'r list" where
  "page_of key n c rows = take (nat (listLimit n)) (newest key (filter (after_key key c) rows))"

text \<open>What a list endpoint answers: the page and the cursor of its last row when there is more.\<close>

definition list_page :: "('r \<Rightarrow> time \<times> string) \<Rightarrow> window \<Rightarrow> 'r list \<Rightarrow> 'r list \<times> cursor option" where
  "list_page key w fetched =
     (let (page, more) = Cut fetched (wi_limit w) in
      (page, if more \<and> page \<noteq> []
             then Some \<lparr>cu_created_at = fst (key (last page)), cu_id = snd (key (last page))\<rparr> else None))"

text \<open>Following the cursors from page to page, at most \<open>fuel\<close> times.\<close>

fun walk :: "('r \<Rightarrow> time \<times> string) \<Rightarrow> (int \<Rightarrow> cursor \<Rightarrow> 'r list) \<Rightarrow> nat \<Rightarrow> int option \<Rightarrow> cursor \<Rightarrow> 'r list" where
  "walk key fetch 0 limit_param c = []"
| "walk key fetch (Suc fuel) limit_param c =
     (let w = WindowFrom limit_param c in
      case list_page key w (fetch (Fetch w) (wi_cursor w)) of
        (page, None) \<Rightarrow> page
      | (page, Some c') \<Rightarrow> page @ walk key fetch fuel limit_param c')"

lemma window_limit: "1 \<le> wi_limit (WindowFrom limit_param c) \<and> wi_limit (WindowFrom limit_param c) \<le> 200"
  by (auto simp: WindowFrom_def From_def FromWith_def Let_def DefaultLimit_def MaxLimit_def split: option.splits)

lemma filter_newest: "filter p (newest key rows) = newest key (filter p rows)"
  by (simp add: newest_def rev_filter [symmetric] filter_sort)

lemma set_newest [simp]: "set (newest key rows) = set rows"
  by (simp add: newest_def)

lemma length_newest [simp]: "length (newest key rows) = length rows"
  by (simp add: newest_def)

lemma newest_strict:
  assumes "distinct (map key rows)"
  shows "sorted_wrt (\<lambda>x y. key y < key x) (newest key rows)"
proof -
  have "sorted (map key (sort_key key rows))" by simp
  moreover have "distinct (map key (sort_key key rows))"
    using assms by (simp add: distinct_map)
  ultimately have "sorted_wrt (<) (map key (sort_key key rows))"
    by (simp add: strict_sorted_iff)
  then show ?thesis unfolding newest_def sorted_wrt_rev sorted_wrt_map by simp
qed

lemma filter_below_nth:
  assumes "sorted_wrt (\<lambda>x y. (key y :: 'k :: linorder) < key x) xs" and "k < length xs"
  shows "filter (\<lambda>x. key x < key (xs ! k)) xs = drop (Suc k) xs"
  using assms
proof (induction xs arbitrary: k)
  case (Cons x xs)
  show ?case
  proof (cases k)
    case 0
    have "filter (\<lambda>y. key y < key x) xs = xs" using Cons.prems(1) by (simp add: filter_id_conv)
    with 0 show ?thesis by simp
  next
    case (Suc j)
    then have j: "j < length xs" using Cons.prems(2) by simp
    then have "key (xs ! j) < key x" using Cons.prems(1) by simp
    then show ?thesis using Suc Cons.IH [OF _ j] Cons.prems(1) by auto
  qed
qed simp

section \<open>What a store promises\<close>

locale keyset =
  fixes key :: "'r \<Rightarrow> time \<times> string" and ident :: "'r \<Rightarrow> 'k"
  assumes separates: "key r = key r' \<Longrightarrow> ident r = ident r'"
begin

lemma distinct_keys: "distinct (map ident rows) \<Longrightarrow> distinct (map key rows)"
  unfolding distinct_map using separates by (metis inj_onD inj_onI)

lemma page_after:
  assumes "distinct (map ident rows)" "newest key rows = all" "k < length all"
    "\<not> IsZero \<lparr>cu_created_at = fst (key (all ! k)), cu_id = snd (key (all ! k))\<rparr>"
  shows "newest key (filter (after_key key \<lparr>cu_created_at = fst (key (all ! k)), cu_id = snd (key (all ! k))\<rparr>) rows)
    = drop (Suc k) all"
proof -
  have "sorted_wrt (\<lambda>x y. key y < key x) all"
    using newest_strict [OF distinct_keys [OF assms(1)]] assms(2) by simp
  from filter_below_nth [OF this assms(3)]
  have below: "filter (\<lambda>x. key x < key (all ! k)) all = drop (Suc k) all" .
  have "after_key key \<lparr>cu_created_at = fst (key (all ! k)), cu_id = snd (key (all ! k))\<rparr> = (\<lambda>x. key x < key (all ! k))"
    using assms(4) by (intro ext) (simp add: after_key_def)
  then show ?thesis using assms(2) below by (simp add: filter_newest [symmetric])
qed

text \<open>Following the cursors from the k-th row on reads exactly what follows it.\<close>

lemma walk_from:
  assumes rows: "distinct (map ident rows)" "\<forall>r \<in> set rows. \<not> IsZero \<lparr>cu_created_at = fst (key r), cu_id = snd (key r)\<rparr>"
    and all: "newest key (filter (after_key key c) rows) = rest" "drop k (newest key rows) = rest"
    and fuel: "length rest < fuel"
  shows "walk key (\<lambda>n c. page_of key n c rows) fuel limit_param c = rest"
  using all fuel
proof (induction fuel arbitrary: c k rest)
  case (Suc fuel)
  let ?w = "WindowFrom limit_param c"
  have lim: "1 \<le> wi_limit ?w" "wi_limit ?w \<le> 200" using window_limit [of limit_param c] by auto
  have c: "wi_cursor ?w = c" by (simp add: WindowFrom_def)
  have "listLimit (Fetch ?w) = wi_limit ?w + 1" using lim by (simp add: listLimit_def Fetch_def)
  then have fetched: "page_of key (Fetch ?w) (wi_cursor ?w) rows = take (Suc (nat (wi_limit ?w))) rest"
    unfolding page_of_def c Suc.prems(1) using lim by (simp add: nat_add_distrib)
  show ?case
  proof (cases "wi_limit ?w < int (length rest)")
    case False
    then have "list_page key ?w (take (Suc (nat (wi_limit ?w))) rest) = (rest, None)"
      using lim by (simp add: list_page_def Cut_def)
    then show ?thesis by (simp add: fetched Let_def)
  next
    case True
    let ?n = "nat (wi_limit ?w)"
    have n: "0 < ?n" "?n < length rest" using True lim by auto
    let ?r = "rest ! (?n - 1)"
    let ?c = "\<lparr>cu_created_at = fst (key ?r), cu_id = snd (key ?r)\<rparr>"
    have last: "last (take ?n rest) = ?r" 
    proof -
      have "take ?n rest \<noteq> []" using n by auto
      from last_conv_nth [OF this] show ?thesis using n by (simp add: min_def)
    qed
    have lp: "list_page key ?w (take (Suc ?n) rest) = (take ?n rest, Some ?c)"
      using n lim True last by (auto simp: list_page_def Cut_def min_def)
    have kn: "k + (?n - 1) < length (newest key rows)" using n Suc.prems(2) by auto
    have r: "?r = newest key rows ! (k + (?n - 1))" using n Suc.prems(2) by auto
    then have mem: "?r \<in> set rows" using nth_mem [OF kn] by simp
    have nz: "\<not> IsZero ?c" using rows(2) mem by blast
    have "newest key (filter (after_key key ?c) rows) = drop (Suc (k + (?n - 1))) (newest key rows)"
      using page_after [OF rows(1) refl kn] nz r by simp
    also have "\<dots> = drop ?n rest" using n Suc.prems(2) by (auto simp: add.commute)
    finally have a: "newest key (filter (after_key key ?c) rows) = drop ?n rest" .
    have b: "drop (k + ?n) (newest key rows) = drop ?n rest" using Suc.prems(2) by (auto simp: add.commute)
    have "walk key (\<lambda>n c. page_of key n c rows) fuel limit_param ?c = drop ?n rest"
      by (rule Suc.IH [OF a b]) (use Suc.prems(3) n in simp)
    then show ?thesis by (simp add: fetched Let_def lp)
  qed
qed simp

lemma walk_all:
  assumes "distinct (map ident rows)" "\<forall>r \<in> set rows. \<not> IsZero \<lparr>cu_created_at = fst (key r), cu_id = snd (key r)\<rparr>"
  shows "walk key (\<lambda>n c. page_of key n c rows) (Suc (length rows)) limit_param zero_cursor = newest key rows"
  by (rule walk_from [OF assms, of _ _ 0]) (simp_all add: zero_cursor_def after_key_def IsZero_def)

end

section \<open>Encoding a cursor\<close>

lemma b64_sound: "n < 64 \<Longrightarrow> b64_digit (b64_char n) = Some n \<and> b64_char n \<noteq> CHR 0x0D \<and> b64_char n \<noteq> CHR 0x0A"
proof -
  assume "n < 64"
  then have "n \<in> set [0..<64]" by simp
  moreover have "list_all (\<lambda>n. b64_digit (b64_char n) = Some n \<and> b64_char n \<noteq> CHR 0x0D \<and> b64_char n \<noteq> CHR 0x0A) [0..<64]"
    by code_simp
  ultimately show ?thesis by (simp only: list_all_iff) blast
qed

fun b64_values :: "string \<Rightarrow> nat list" where
  "b64_values (a # b # c # s) =
     (let n = of_char a * 65536 + of_char b * 256 + of_char c in
      [n div 262144, n div 4096 mod 64, n div 64 mod 64, n mod 64] @ b64_values s)"
| "b64_values [a, b] =
     (let n = of_char a * 256 + of_char b in [n div 1024, n div 16 mod 64, n mod 16 * 4])"
| "b64_values [a] = (let n = of_char a in [n div 4, n mod 4 * 16])"
| "b64_values [] = []"

lemma b64_encode_values: "b64_encode s = map b64_char (b64_values s)"
  by (induction s rule: b64_encode.induct) (simp_all add: Let_def)

lemma of_char_bound: "(of_char c :: nat) < 256"
  by simp

lemma b64_values_bound: "n \<in> set (b64_values s) \<Longrightarrow> n < 64"
proof (induction s rule: b64_values.induct)
  case (1 a b c s)
  have "(of_char a :: nat) * 65536 + of_char b * 256 + of_char c < 64 * 262144"
    using of_char_bound [of a] of_char_bound [of b] of_char_bound [of c] by linarith
  then show ?case using 1 by (auto simp: Let_def less_mult_imp_div_less)
next
  case (2 a b)
  have "(of_char a :: nat) * 256 + of_char b < 64 * 1024"
    using of_char_bound [of a] of_char_bound [of b] by linarith
  then show ?case using 2 by (auto simp: Let_def less_mult_imp_div_less)
next
  case (3 a)
  have "(of_char a :: nat) < 64 * 4" using of_char_bound [of a] by simp
  then show ?case using 3 by (auto simp: Let_def less_mult_imp_div_less)
qed simp

lemma group_value:
  fixes n :: nat
  shows "n div 262144 * 262144 + n div 4096 mod 64 * 4096 + n div 64 mod 64 * 64 + n mod 64 = n"
proof -
  have a: "n = n div 64 * 64 + n mod 64" by simp
  have b: "n div 64 = n div 4096 * 64 + n div 64 mod 64" using div_mult_mod_eq [of "n div 64" 64] by (simp add: div_mult2_eq [symmetric])
  have c: "n div 4096 = n div 262144 * 64 + n div 4096 mod 64" using div_mult_mod_eq [of "n div 4096" 64] by (simp add: div_mult2_eq [symmetric])
  show ?thesis using a b c by linarith
qed

lemma bytes_of_group:
  fixes a b c :: nat
  assumes "a < 256" "b < 256" "c < 256"
  shows "(a * 65536 + b * 256 + c) div 65536 = a" "(a * 65536 + b * 256 + c) div 256 mod 256 = b"
    "(a * 65536 + b * 256 + c) mod 256 = c"
proof -
  have "(a * 65536 + b * 256 + c) = (a * 256 + b) * 256 + c" by simp
  then have d: "(a * 65536 + b * 256 + c) div 256 = a * 256 + b" using assms(3) by simp
  show "(a * 65536 + b * 256 + c) div 256 mod 256 = b" unfolding d using assms(2) by simp
  have "(a * 65536 + b * 256 + c) mod 256 = ((a * 256 + b) * 256 + c) mod 256" by (simp add: algebra_simps)
  also have "\<dots> = c" using assms(3) by (simp only: mod_mult_self3 mod_less)
  finally show "(a * 65536 + b * 256 + c) mod 256 = c" .
  have "(a * 65536 + b * 256 + c) div 65536 = (a * 65536 + b * 256 + c) div 256 div 256"
    by (simp add: div_mult2_eq [symmetric])
  then show "(a * 65536 + b * 256 + c) div 65536 = a" unfolding d using assms(2) by simp
qed

lemma b64_digits_values: "b64_digits (b64_values s) = Some s"
proof (induction s rule: b64_values.induct)
  case (1 a b c s)
  note bytes = bytes_of_group [OF of_char_bound [of a] of_char_bound [of b] of_char_bound [of c]]
  show ?case using 1 by (simp only: b64_values.simps Let_def append.simps b64_digits.simps group_value bytes) simp
next
  case (2 a b)
  let ?n = "of_char a * 256 + of_char b :: nat"
  have "?n div 1024 * 1024 + ?n div 16 mod 64 * 16 + ?n mod 16 * 4 div 4 = ?n"
  proof -
    have "?n div 16 = ?n div 1024 * 64 + ?n div 16 mod 64"
      using div_mult_mod_eq [of "?n div 16" 64] by (simp add: div_mult2_eq [symmetric])
    then show ?thesis using div_mult_mod_eq [of ?n 16] by linarith
  qed
  moreover have "char_of ?n = b"
  proof -
    have "?n mod 256 = of_char b" using of_char_bound [of b] by (simp only: mod_mult_self3 mod_less)
    then show ?thesis by (metis char_of_mod_256 char_of_char)
  qed
  ultimately show ?case by (simp add: Let_def)
next
  case (3 a)
  have "(of_char a :: nat) div 4 * 4 + of_char a mod 4 * 16 div 16 = of_char a" by simp
  then show ?case by (simp add: Let_def)
qed simp

lemma b64_roundtrip: "b64_decode (b64_encode s) = Some s"
proof -
  let ?vs = "b64_values s"
  have keep: "filter (\<lambda>c. c \<noteq> CHR 0x0D \<and> c \<noteq> CHR 0x0A) (b64_encode s) = b64_encode s"
    using b64_sound b64_values_bound unfolding b64_encode_values by (auto simp: filter_id_conv)
  have "map b64_digit (b64_encode s) = map Some ?vs"
    using b64_sound b64_values_bound unfolding b64_encode_values by auto
  then show ?thesis
    unfolding b64_decode_def keep Let_def by (simp add: list_ex_iff o_def b64_digits_values)
qed

text \<open>
  A position survives the trip through the client.  A cursor whose instant the library prints
  without a bar and reads back, and whose id is a valid uuid, is decoded to itself, the first page's
  to the first page's.
\<close>

lemma cursor_roundtrip:
  assumes "parse (fmt (cu_created_at c)) = Some (cu_created_at c)" "CHR ''|'' \<notin> set (fmt (cu_created_at c))"
    "is_uuid (cu_id c)"
  shows "DecodeCursor parse is_uuid (Encode fmt c) = (if IsZero c then zero_cursor else c)"
proof (cases "IsZero c")
  case False
  let ?raw = "fmt (cu_created_at c) @ cursorSep # cu_id c"
  have "b64_encode ?raw \<noteq> []"
  proof
    assume "b64_encode ?raw = []"
    then have "b64_digits (b64_values ?raw) = Some []" by (simp add: b64_encode_values)
    then show False by (simp add: b64_digits_values)
  qed
  moreover have "cut cursorSep ?raw = (fmt (cu_created_at c), cu_id c, True)"
    using assms(2) by (simp add: cut_append cursorSep_def)
  ultimately show ?thesis
    using assms False by (simp add: DecodeCursor_def Encode_def b64_roundtrip IsZero_def)
qed (simp add: Encode_def DecodeCursor_def)

lemma cursor_roundtrip_witness:
  "let c = \<lparr>cu_created_at = 5000000000, cu_id = ''0190''\<rparr>; fmt = (\<lambda>_. ''1970-01-01T00:00:05Z'') in
   Encode fmt c = ''MTk3MC0wMS0wMVQwMDowMDowNVp8MDE5MA'' \<and>
   DecodeCursor (\<lambda>_. Some 5000000000) (\<lambda>_. True) (Encode fmt c) = c"
proof -
  let ?c = "\<lparr>cu_created_at = 5000000000, cu_id = ''0190''\<rparr>"
  have "Encode (\<lambda>_. ''1970-01-01T00:00:05Z'') ?c = ''MTk3MC0wMS0wMVQwMDowMDowNVp8MDE5MA''"
    by (simp add: Encode_def IsZero_def zero_time_def cursorSep_def Let_def b64_char_def b64_alphabet_def)
  moreover have "DecodeCursor (\<lambda>_. Some 5000000000) (\<lambda>_. True) (Encode (\<lambda>_. ''1970-01-01T00:00:05Z'') ?c) =
      (if IsZero ?c then zero_cursor else ?c)"
    by (rule cursor_roundtrip) simp_all
  ultimately show ?thesis by (simp add: Let_def IsZero_def zero_time_def)
qed

text \<open>
  No request can ask a store for more than it will read.  Whatever limit and offset a query
  carries, the window holds between 1 and 200 rows, the store reads exactly one more than the window
  and the search term is storable text of at most 200 characters.
\<close>

lemma window_bounded:
  "1 \<le> wi_limit (WindowFrom limit_param c) \<and> wi_limit (WindowFrom limit_param c) \<le> 200 \<and>
   listLimit (Fetch (WindowFrom limit_param c)) = wi_limit (WindowFrom limit_param c) + 1 \<and>
   0 \<le> pg_offset (From limit_param offset_param) \<and>
   ValidString (Search term) \<and> length (runes (Search term)) \<le> 200"
proof (intro conjI)
  show lim: "1 \<le> wi_limit (WindowFrom limit_param c)" "wi_limit (WindowFrom limit_param c) \<le> 200"
    using window_limit [of limit_param c] by auto
  show "listLimit (Fetch (WindowFrom limit_param c)) = wi_limit (WindowFrom limit_param c) + 1"
    using lim by (simp add: listLimit_def Fetch_def)
  show "0 \<le> pg_offset (From limit_param offset_param)"
    by (cases offset_param) (simp_all add: From_def FromWith_def Let_def)
  have "ValidString (Clamp t n) \<and> length (runes (Clamp t n)) \<le> n" for t n
    using clamp_runes [OF storable_valid, of n t] by (auto simp: Clamp_def Let_def not_less)
  from this [of "trim_space term" 200] show "ValidString (Search term)" "length (runes (Search term)) \<le> 200"
    by (simp_all add: Search_def MaxSearchTerm_def)
qed

end
