(* ===== verification/EmailLog.thy ===== *)
theory EmailLog
  imports Sql EmailStore Keyset
begin

text \<open>
  The rest of \<^verbatim>\<open>internal/domain/email/store.go\<close>: reading the log (single rows with the partition
  window an id implies, filtered lists with a keyset cursor, counts), idempotency keys, tracking
  counters and the retention statements, with \<^verbatim>\<open>internal/core/ids\<close> and \<^verbatim>\<open>internal/core/keyset\<close>.
  Parsing of a textual id is the uuid package's and a parameter (\<open>parse\<close>, the sixteen bytes).
\<close>

section \<open>Looking a row up\<close>

definition idWindow :: time where "idWindow = 3600 * 1000000000"

definition MintedAt :: "(string \<Rightarrow> int list option) \<Rightarrow> string \<Rightarrow> time option" where
  "MintedAt parse i =
     (case parse i of
        None \<Rightarrow> None
      | Some u \<Rightarrow>
          (case drop 6 u of
             [] \<Rightarrow> None
           | b # _ \<Rightarrow>
               if b div 16 \<noteq> 7 then None
               else Some (foldl (\<lambda>n x. n * 256 + x) 0 (take 6 u) * 1000000)))"

definition pruneByID :: "(string \<Rightarrow> int list option) \<Rightarrow> string \<Rightarrow> (time \<times> time) option" where
  "pruneByID parse i =
     (case MintedAt parse i of
        None \<Rightarrow> None
      | Some minted \<Rightarrow> Some (minted - idWindow, minted + idWindow))"

text \<open>
  The three lookups share one shape: the pruned query first, then the whole table when the id
  names no window or the window holds no such row; an error of the pruned query is returned.
\<close>

definition lookup_row :: "(time \<times> time) option \<Rightarrow> (email \<Rightarrow> bool) \<Rightarrow> db \<Rightarrow> (error + email option) \<times> db" where
  "lookup_row window p d =
     (case window of
        None \<Rightarrow> Query (\<lambda>d. find p (db_emails d)) d
      | Some (since, till) \<Rightarrow>
          (case Query (\<lambda>d. find (\<lambda>e. p e \<and> since \<le> e_created_at e \<and> e_created_at e < till) (db_emails d)) d of
             (Inl err, d') \<Rightarrow> (Inl err, d')
           | (Inr (Some e), d') \<Rightarrow> (Inr (Some e), d')
           | (Inr None, d') \<Rightarrow> Query (\<lambda>d. find p (db_emails d)) d'))"

definition Get :: "(string \<Rightarrow> int list option) \<Rightarrow> string \<Rightarrow> string \<Rightarrow> db \<Rightarrow> (error + email option) \<times> db" where
  "Get parse projID i d =
     lookup_row (pruneByID parse i) (\<lambda>e. e_project_id e = projID \<and> e_id e = i \<and> \<not> e_system e) d"

definition GetAny :: "(string \<Rightarrow> int list option) \<Rightarrow> string \<Rightarrow> db \<Rightarrow> (error + email option) \<times> db" where
  "GetAny parse i d = lookup_row (pruneByID parse i) (\<lambda>e. e_id e = i) d"

record tracking_state =
  ts_project_id :: string
  ts_created_at :: time
  ts_open_count :: int
  ts_click_count :: int

definition tracking_of :: "email \<Rightarrow> tracking_state" where
  "tracking_of e =
     \<lparr>ts_project_id = e_project_id e, ts_created_at = e_created_at e,
      ts_open_count = e_open_count e, ts_click_count = e_click_count e\<rparr>"

definition GetTrackingState ::
    "(string \<Rightarrow> int list option) \<Rightarrow> string \<Rightarrow> db \<Rightarrow> (error + tracking_state option) \<times> db" where
  "GetTrackingState parse i d =
     (case lookup_row (pruneByID parse i) (\<lambda>e. e_id e = i) d of
        (Inl err, d') \<Rightarrow> (Inl err, d')
      | (Inr r, d') \<Rightarrow> (Inr (map_option tracking_of r), d'))"

section \<open>Listing\<close>

record email_filter =
  ef_statuses :: "string list"
  ef_cursor :: cursor
  ef_limit :: int
  ef_sender :: string
  ef_recipient :: string
  ef_exact :: bool
  ef_template :: string
  ef_tag :: string
  ef_api_key_id :: string
  ef_smtp_server_id :: string
  ef_from :: "time option"
  ef_to :: "time option"
  ef_after :: "time option"
  ef_search :: string

definition log_key :: "email \<Rightarrow> time \<times> string" where
  "log_key e = (e_created_at e, e_id e)"

definition after_cursor :: "cursor \<Rightarrow> email \<Rightarrow> bool" where
  "after_cursor c e = (IsZero c \<or> log_key e < (cu_created_at c, cu_id c))"

definition in_angles :: "string \<Rightarrow> string" where
  "in_angles addr = ''%<'' @ EscapeLike addr @ ''>%''"

definition sender_matches :: "email_filter \<Rightarrow> email \<Rightarrow> bool" where
  "sender_matches f e =
     (if ef_exact f \<and> ef_sender f \<noteq> [] then
        (let addr = to_lower (trim_space (ef_sender f)) in
         to_lower (e_sender e) = addr \<or> like (in_angles addr) (to_lower (e_sender e)))
      else if ef_sender f \<noteq> [] then
        ilike (''%'' @ EscapeLike (trim_space (ef_sender f)) @ ''%'') (e_sender e)
      else True)"

definition recipient_matches :: "email_filter \<Rightarrow> email \<Rightarrow> bool" where
  "recipient_matches f e =
     (if ef_exact f \<and> ef_recipient f \<noteq> [] then
        (let addr = to_lower (trim_space (ef_recipient f)) in
         list_ex (\<lambda>r. to_lower r = addr \<or> like (in_angles addr) (to_lower r)) (e_recipients e))
      else if ef_recipient f \<noteq> [] then
        ilike (''%'' @ EscapeLike (trim_space (ef_recipient f)) @ ''%'') (json_strings (e_recipients e))
      else True)"

definition search_matches :: "email_filter \<Rightarrow> email \<Rightarrow> bool" where
  "search_matches f e =
     (let term = trim_space (ef_search f); escaped = EscapeLike term in
      if term = [] then True
      else ilike (''%'' @ [quote] @ escaped @ [quote] @ ''%'') (json_strings (e_recipients e)) \<or>
           ilike (''%'' @ escaped @ ''%'') (e_subject e))"

definition row_matches :: "string \<Rightarrow> email_filter \<Rightarrow> email \<Rightarrow> bool" where
  "row_matches projID f e =
     (e_project_id e = projID \<and> \<not> e_system e \<and>
      (ef_statuses f = [] \<or> List.member (ef_statuses f) (status_text (e_status e))) \<and>
      (case ef_from f of None \<Rightarrow> True | Some t \<Rightarrow> t \<le> e_created_at e) \<and>
      (case ef_to f of None \<Rightarrow> True | Some t \<Rightarrow> e_created_at e < t) \<and>
      (case ef_after f of None \<Rightarrow> True | Some t \<Rightarrow> t < e_created_at e) \<and>
      sender_matches f e \<and> recipient_matches f e \<and>
      (ef_template f = [] \<or> to_lower (e_template_name e) = to_lower (ef_template f)) \<and>
      (ef_tag f = [] \<or> List.member (map to_lower (e_tags e)) (to_lower (ef_tag f))) \<and>
      (ef_api_key_id f = [] \<or> e_api_key_id e = ef_api_key_id f) \<and>
      (ef_smtp_server_id f = [] \<or> e_delivered_via e = ef_smtp_server_id f) \<and>
      search_matches f e)"

definition newest_first :: "email list \<Rightarrow> email list" where
  "newest_first es = rev (sort_key log_key es)"

definition ListEmails :: "string \<Rightarrow> email_filter \<Rightarrow> db \<Rightarrow> (error + email list) \<times> db" where
  "ListEmails projID f d =
     Query (\<lambda>d. take (nat (listLimit (ef_limit f)))
       (newest_first (filter (\<lambda>e. row_matches projID f e \<and> after_cursor (ef_cursor f) e) (db_emails d)))) d"

definition count_by :: "(email \<Rightarrow> bool) \<Rightarrow> email list \<Rightarrow> string \<rightharpoonup> nat" where
  "count_by p es = (\<lambda>st. let n = sql_count (\<lambda>e. p e \<and> status_text (e_status e) = st) es
                         in if n = 0 then None else Some n)"

definition CountByStatus ::
    "string \<Rightarrow> time option \<Rightarrow> time option \<Rightarrow> db \<Rightarrow> (error + (string \<rightharpoonup> nat)) \<times> db" where
  "CountByStatus projID since till d =
     Query (\<lambda>d. count_by (\<lambda>e. e_project_id e = projID \<and> \<not> e_system e \<and>
       (case since of None \<Rightarrow> True | Some t \<Rightarrow> t \<le> e_created_at e) \<and>
       (case till of None \<Rightarrow> True | Some t \<Rightarrow> e_created_at e < t)) (db_emails d)) d"

definition CountAllByStatus :: "db \<Rightarrow> (error + (string \<rightharpoonup> nat)) \<times> db" where
  "CountAllByStatus d = Query (\<lambda>d. count_by (\<lambda>_. True) (db_emails d)) d"

section \<open>Idempotency keys\<close>

record key_holder =
  kh_email_id :: string
  kh_sandbox_email_id :: string

definition no_holder :: key_holder where
  "no_holder = \<lparr>kh_email_id = [], kh_sandbox_email_id = []\<rparr>"

definition Pending :: "key_holder \<Rightarrow> bool" where
  "Pending k = (kh_email_id k = [] \<and> kh_sandbox_email_id k = [])"

definition null_str :: "string option \<Rightarrow> string" where
  "null_str s = (case s of None \<Rightarrow> [] | Some x \<Rightarrow> x)"

definition holder_of :: "key_row \<Rightarrow> key_holder" where
  "holder_of r = \<lparr>kh_email_id = null_str (k_email_id r), kh_sandbox_email_id = null_str (k_sandbox_email_id r)\<rparr>"

definition KeyReservationTTL :: time where "KeyReservationTTL = 5 * 60 * 1000000000"

definition key_is :: "string \<Rightarrow> string \<Rightarrow> key_row \<Rightarrow> bool" where
  "key_is p k r = (k_project r = p \<and> k_key r = k)"

definition reserve_stmt :: "string \<Rightarrow> string \<Rightarrow> time \<Rightarrow> db \<Rightarrow> db \<times> nat" where
  "reserve_stmt p k now d =
     (case find (key_is p k) (db_keys d) of
        None \<Rightarrow>
          (d\<lparr>db_keys := db_keys d @ [\<lparr>k_project = p, k_key = k, k_email_id = None,
              k_sandbox_email_id = None, k_created_at = now\<rparr>]\<rparr>, 1)
      | Some r \<Rightarrow>
          if k_email_id r = None \<and> k_sandbox_email_id r = None \<and> k_created_at r < now - KeyReservationTTL
          then (d\<lparr>db_keys := sql_update (key_is p k) (k_created_at_update (\<lambda>_. now)) (db_keys d)\<rparr>, 1)
          else (d, 0))"

text \<open>
  The loop runs twice at most; each round has its own reading of the clock and what other requests
  did between its insert and its read.
\<close>

fun ReserveKey ::
    "string \<Rightarrow> string \<Rightarrow> (time \<times> (db \<Rightarrow> db)) list \<Rightarrow> db \<Rightarrow> (error + (key_holder \<times> bool)) \<times> db" where
  "ReserveKey p k [] d = (Inr (no_holder, False), d)"
| "ReserveKey p k ((now, others) # rounds) d =
     (case Exec (reserve_stmt p k now) d of
        (Inl err, d) \<Rightarrow> (Inl err, d)
      | (Inr n, d) \<Rightarrow>
          if 0 < n then (Inr (no_holder, True), d)
          else case Query (\<lambda>d. map_option holder_of (find (key_is p k) (db_keys d))) (others d) of
                 (Inl err, d) \<Rightarrow> (Inl err, d)
               | (Inr (Some held), d) \<Rightarrow> (Inr (held, False), d)
               | (Inr None, d) \<Rightarrow> ReserveKey p k rounds d)"

definition CompleteKey :: "string \<Rightarrow> string \<Rightarrow> string \<Rightarrow> db \<Rightarrow> (error + unit) \<times> db" where
  "CompleteKey p k emailID d =
     Exec (\<lambda>d. (d\<lparr>db_keys := sql_update (key_is p k) (k_email_id_update (\<lambda>_. Some emailID)) (db_keys d)\<rparr>, ())) d"

definition CompleteSandboxKey :: "string \<Rightarrow> string \<Rightarrow> string \<Rightarrow> db \<Rightarrow> (error + unit) \<times> db" where
  "CompleteSandboxKey p k emailID d =
     Exec (\<lambda>d. (d\<lparr>db_keys :=
       sql_update (key_is p k) (k_sandbox_email_id_update (\<lambda>_. Some emailID)) (db_keys d)\<rparr>, ())) d"

definition ReleaseKey :: "string \<Rightarrow> string \<Rightarrow> db \<Rightarrow> (error + unit) \<times> db" where
  "ReleaseKey p k d =
     Exec (\<lambda>d. (d\<lparr>db_keys := sql_delete (\<lambda>r. key_is p k r \<and> k_email_id r = None \<and> k_sandbox_email_id r = None)
                 (db_keys d)\<rparr>, ())) d"

definition PruneKeysBefore :: "time \<Rightarrow> db \<Rightarrow> (error + nat) \<times> db" where
  "PruneKeysBefore before d =
     Exec (\<lambda>d. (d\<lparr>db_keys := sql_delete (\<lambda>r. k_created_at r < before) (db_keys d)\<rparr>,
                 sql_count (\<lambda>r. k_created_at r < before) (db_keys d))) d"

definition PruneVolumeBefore :: "time \<Rightarrow> db \<Rightarrow> (error + nat) \<times> db" where
  "PruneVolumeBefore before d =
     Exec (\<lambda>d. (d\<lparr>db_volume := sql_delete (\<lambda>v. v_minute v < before) (db_volume d)\<rparr>,
                 sql_count (\<lambda>v. v_minute v < before) (db_volume d))) d"

section \<open>Retention\<close>

definition in_flight :: "email \<Rightarrow> bool" where
  "in_flight e =
     (e_status e = StatusQueued \<or> e_status e = StatusScheduled \<or> e_status e = StatusProcessing)"

definition templateKeyPrefix :: string where "templateKeyPrefix = ''templates/''"

definition ownsKey :: "string \<Rightarrow> bool" where
  "ownsKey key = (key \<noteq> [] \<and> \<not> snd (cut_prefix templateKeyPrefix key))"

definition storageKeys :: "(email \<Rightarrow> bool) \<Rightarrow> email list \<Rightarrow> string list" where
  "storageKeys p es =
     concat (map (\<lambda>e. filter ownsKey (map at_storage_key (e_attachments e)))
       (filter (\<lambda>e. p e \<and> e_attachments e \<noteq> []) es))"

definition aged :: "time \<Rightarrow> email \<Rightarrow> bool" where
  "aged before e = (e_created_at e < before \<and> \<not> in_flight e)"

definition StorageKeysOlderThan :: "time \<Rightarrow> db \<Rightarrow> (error + string list) \<times> db" where
  "StorageKeysOlderThan before d = Query (\<lambda>d. storageKeys (aged before) (db_emails d)) d"

definition PurgeOlderThan :: "time \<Rightarrow> db \<Rightarrow> (error + nat) \<times> db" where
  "PurgeOlderThan before d = Exec (delete_emails (aged before)) d"

definition ClearBodiesOlderThan :: "time \<Rightarrow> db \<Rightarrow> (error + nat) \<times> db" where
  "ClearBodiesOlderThan before d =
     Exec (update_emails (\<lambda>e. aged before e \<and> (e_html_body e \<noteq> [] \<or> e_text_body e \<noteq> []))
       (\<lambda>e. e\<lparr>e_html_body := [], e_text_body := []\<rparr>)) d"

definition ClearAttachmentsOlderThan :: "time \<Rightarrow> db \<Rightarrow> (error + nat) \<times> db" where
  "ClearAttachmentsOlderThan before d =
     Exec (update_emails (\<lambda>e. aged before e \<and> e_attachments e \<noteq> []) (\<lambda>e. e\<lparr>e_attachments := []\<rparr>)) d"

definition StorageKeysForProject :: "string \<Rightarrow> db \<Rightarrow> (error + string list) \<times> db" where
  "StorageKeysForProject projID d = Query (\<lambda>d. storageKeys (\<lambda>e. e_project_id e = projID) (db_emails d)) d"

definition StorageKeysForProjectOlderThan :: "string \<Rightarrow> time \<Rightarrow> db \<Rightarrow> (error + string list) \<times> db" where
  "StorageKeysForProjectOlderThan projID before d =
     Query (\<lambda>d. storageKeys (\<lambda>e. e_project_id e = projID \<and> aged before e) (db_emails d)) d"

definition PurgeProjectOlderThan :: "string \<Rightarrow> time \<Rightarrow> db \<Rightarrow> (error + nat) \<times> db" where
  "PurgeProjectOlderThan projID before d =
     Exec (delete_emails (\<lambda>e. e_project_id e = projID \<and> aged before e)) d"

text \<open>The four forms in which one address appears in a stored message.\<close>

definition address_match :: "string \<Rightarrow> email \<Rightarrow> bool" where
  "address_match addr e =
     (let a = to_lower addr; esc = EscapeLike a; rcpts = to_lower (json_strings (e_recipients e)) in
      to_lower (e_sender e) = a \<or>
      like (''%<'' @ esc @ ''>%'') (to_lower (e_sender e)) \<or>
      like (''%'' @ [quote] @ esc @ [quote] @ ''%'') rcpts \<or>
      like (''%<'' @ esc @ ''>%'') rcpts)"

definition involves :: "string \<Rightarrow> string \<Rightarrow> email \<Rightarrow> bool" where
  "involves projID addr e = (e_project_id e = projID \<and> \<not> in_flight e \<and> address_match addr e)"

definition StorageKeysForAddress :: "string \<Rightarrow> string \<Rightarrow> db \<Rightarrow> (error + string list) \<times> db" where
  "StorageKeysForAddress projID addr d = Query (\<lambda>d. storageKeys (involves projID addr) (db_emails d)) d"

definition PurgeForAddress :: "string \<Rightarrow> string \<Rightarrow> db \<Rightarrow> (error + nat) \<times> db" where
  "PurgeForAddress projID addr d = Exec (delete_emails (involves projID addr)) d"

section \<open>Tracking\<close>

definition coalesce :: "'a option \<Rightarrow> 'a \<Rightarrow> 'a option" where
  "coalesce x y = (case x of None \<Rightarrow> Some y | Some _ \<Rightarrow> x)"

definition opened_row :: "time \<Rightarrow> email \<Rightarrow> email" where
  "opened_row at e = e\<lparr>e_opened_at := coalesce (e_opened_at e) at, e_open_count := e_open_count e + 1\<rparr>"

definition clicked_row :: "time \<Rightarrow> email \<Rightarrow> email" where
  "clicked_row at e =
     e\<lparr>e_clicked_at := coalesce (e_clicked_at e) at, e_opened_at := coalesce (e_opened_at e) at,
       e_click_count := e_click_count e + 1\<rparr>"

definition returning :: "(email \<Rightarrow> bool) \<Rightarrow> (email \<Rightarrow> email) \<Rightarrow> db \<Rightarrow> db \<times> email option" where
  "returning p f d =
     (d\<lparr>db_emails := sql_update p f (db_emails d)\<rparr>, map_option f (find p (db_emails d)))"

definition MarkOpened :: "string \<Rightarrow> time \<Rightarrow> time \<Rightarrow> db \<Rightarrow> (error + (bool \<times> int)) \<times> db" where
  "MarkOpened i createdAt at d =
     (case Exec (returning (\<lambda>e. e_id e = i \<and> e_created_at e = createdAt) (opened_row at)) d of
        (Inl err, d) \<Rightarrow> (Inl err, d)
      | (Inr None, d) \<Rightarrow> (Inr (False, 0), d)
      | (Inr (Some e), d) \<Rightarrow> (Inr (e_opened_at e = Some at, e_open_count e), d))"

definition MarkClicked :: "string \<Rightarrow> time \<Rightarrow> time \<Rightarrow> db \<Rightarrow> (error + int) \<times> db" where
  "MarkClicked i createdAt at d =
     (case Exec (returning (\<lambda>e. e_id e = i \<and> e_created_at e = createdAt) (clicked_row at)) d of
        (Inl err, d) \<Rightarrow> (Inl err, d)
      | (Inr None, d) \<Rightarrow> (Inr 0, d)
      | (Inr (Some e), d) \<Rightarrow> (Inr (e_click_count e), d))"

section \<open>Reading the log\<close>

lemma Query_no_fault: "db_faults d = [] \<Longrightarrow> Query q d = (Inr (q d), d)"
  by (simp add: Query_def Exec_no_fault)

lemma find_unique:
  assumes "distinct (map k xs)" and "x \<in> set xs" "p x" and "\<And>a b. p a \<Longrightarrow> p b \<Longrightarrow> k a = k b"
  shows "find p xs = Some x"
proof (cases "find p xs")
  case None
  with assms(2,3) show ?thesis by (auto simp: find_None_iff)
next
  case (Some y)
  then have y: "y \<in> set xs" "p y" by (auto simp: find_Some_iff)
  then have "k y = k x" using assms(3,4) by blast
  then have "y = x" using assms(1,2) y(1) by (auto simp: distinct_map inj_on_def)
  with Some show ?thesis by simp
qed

lemma lookup_row_whole:
  assumes "db_faults d = []" and "ids_ok d" and "\<And>e. p e \<Longrightarrow> e_id e = i"
  shows "lookup_row window p d = (Inr (find p (db_emails d)), d)"
proof (cases window)
  case None
  then show ?thesis using assms(1) by (simp add: lookup_row_def Query_no_fault)
next
  case (Some w)
  obtain a b where w: "w = (a, b)" by (cases w)
  let ?p = "\<lambda>e. p e \<and> a \<le> e_created_at e \<and> e_created_at e < b"
  show ?thesis
  proof (cases "find ?p (db_emails d)")
    case None
    then show ?thesis using assms(1) by (simp add: lookup_row_def Query_no_fault Some w)
  next
    case (Some e)
    then have e: "e \<in> set (db_emails d)" "p e" by (auto simp: find_Some_iff)
    have "find p (db_emails d) = Some e"
      by (rule find_unique [of e_id]) (use assms(2,3) e in \<open>auto simp: ids_ok_def\<close>)
    then show ?thesis using assms(1) Some \<open>window = Some w\<close> by (simp add: lookup_row_def Query_no_fault w)
  qed
qed

text \<open>
  C29: Naming a partition window never changes an answer.  Whatever instant an id carries, or none,
  and however far the row was created from it, a lookup by project and id, by id alone, and of the
  tracking counters finds exactly the row the whole table holds.
\<close>
theorem pruned_lookup_complete:
  assumes "db_faults d = []" and "ids_ok d"
  shows "Get parse projID i d =
      (Inr (find (\<lambda>e. e_project_id e = projID \<and> e_id e = i \<and> \<not> e_system e) (db_emails d)), d) \<and>
    GetAny parse i d = (Inr (find (\<lambda>e. e_id e = i) (db_emails d)), d) \<and>
    GetTrackingState parse i d =
      (Inr (map_option tracking_of (find (\<lambda>e. e_id e = i) (db_emails d))), d)"
  using lookup_row_whole [OF assms, of "\<lambda>e. e_project_id e = projID \<and> e_id e = i \<and> \<not> e_system e" i]
    lookup_row_whole [OF assms, of "\<lambda>e. e_id e = i" i]
  by (simp add: Get_def GetAny_def GetTrackingState_def)

section \<open>Pages\<close>

lemma filter_newest_first: "filter p (newest_first es) = newest_first (filter p es)"
  by (simp add: newest_first_def rev_filter [symmetric] filter_sort)

lemma set_newest_first [simp]: "set (newest_first es) = set es"
  by (simp add: newest_first_def)

lemma newest_first_strict:
  assumes "distinct (map log_key es)"
  shows "sorted_wrt (\<lambda>x y. log_key y < log_key x) (newest_first es)"
proof -
  have "sorted (map log_key (sort_key log_key es))" by simp
  moreover have "distinct (map log_key (sort_key log_key es))"
    using assms by (simp add: distinct_map)
  ultimately have "sorted_wrt (<) (map log_key (sort_key log_key es))"
    by (simp add: strict_sorted_iff)
  then show ?thesis unfolding newest_first_def sorted_wrt_rev sorted_wrt_map by simp
qed

text \<open>
  Walking the log by cursor skips no message and shows none twice.  A page asked for with the
  cursor of the k-th matching row, newest first, holds exactly the rows that follow it, up to the
  limit, also when several rows share one instant.
\<close>
lemma cursor_page_continues:
  assumes "db_faults d = []" and "pk_ok d"
    and "newest_first (filter (row_matches projID f) (db_emails d)) = rows" and "k < length rows"
    and "ef_cursor f = \<lparr>cu_created_at = e_created_at (rows ! k), cu_id = e_id (rows ! k)\<rparr>"
    and "\<not> IsZero (ef_cursor f)"
  shows "fst (ListEmails projID f d) = Inr (take (nat (listLimit (ef_limit f))) (drop (Suc k) rows))"
proof -
  have inj: "distinct (map log_key (db_emails d))"
    using assms(2) by (auto simp: pk_ok_def pk_def log_key_def distinct_map inj_on_def)
  then have "distinct (map log_key (filter (row_matches projID f) (db_emails d)))"
    by (rule distinct_map_filter)
  from newest_first_strict [OF this] have strict: "sorted_wrt (\<lambda>x y. log_key y < log_key x) rows"
    using assms(3) by simp
  have "newest_first (filter (\<lambda>e. row_matches projID f e \<and> after_cursor (ef_cursor f) e) (db_emails d))
      = filter (after_cursor (ef_cursor f)) rows"
    unfolding assms(3) [symmetric] filter_newest_first filter_filter by simp
  also have "\<dots> = filter (\<lambda>e. log_key e < log_key (rows ! k)) rows"
    using assms(5,6) by (intro filter_cong) (simp_all add: after_cursor_def log_key_def)
  also have "\<dots> = drop (Suc k) rows" by (rule filter_below_nth [OF strict assms(4)])
  finally show ?thesis by (simp add: ListEmails_def Query_no_fault assms(1))
qed

interpretation log_keys: keyset log_key pk
  by unfold_locales (simp add: log_key_def pk_def)

text \<open>The rows one page request reads, and all of them by following the cursors.\<close>

definition log_fetch :: "string \<Rightarrow> email_filter \<Rightarrow> db \<Rightarrow> int \<Rightarrow> cursor \<Rightarrow> email list" where
  "log_fetch projID f d n c =
     (case fst (ListEmails projID (f\<lparr>ef_limit := n, ef_cursor := c\<rparr>) d) of Inl _ \<Rightarrow> [] | Inr rows \<Rightarrow> rows)"

lemma log_fetch_page:
  assumes "db_faults d = []"
  shows "log_fetch projID f d = (\<lambda>n c. page_of log_key n c (filter (row_matches projID f) (db_emails d)))"
proof (intro ext)
  fix n c
  have "row_matches projID (f\<lparr>ef_limit := n, ef_cursor := c\<rparr>) = row_matches projID f"
    by (intro ext) (simp add: row_matches_def sender_matches_def recipient_matches_def search_matches_def)
  moreover have "after_cursor c = after_key log_key c" by (intro ext) (simp add: after_cursor_def after_key_def)
  moreover have "newest_first = newest log_key" by (intro ext) (simp add: newest_first_def newest_def)
  ultimately show "log_fetch projID f d n c = page_of log_key n c (filter (row_matches projID f) (db_emails d))"
    using assms by (simp add: log_fetch_def ListEmails_def Query_no_fault page_of_def conj_commute)
qed

section \<open>Keys\<close>

lemma find_sql_update_key:
  assumes "\<And>r. key_is p k r \<Longrightarrow> key_is p k (f r)"
  shows "find (key_is p k) (sql_update (key_is p k) f rs) = map_option f (find (key_is p k) rs)"
  using assms by (induction rs) (auto simp: sql_update_def)

lemma key_is_simps [simp]:
  "key_is p k (k_created_at_update g r) = key_is p k r" "key_is p k (k_email_id_update h r) = key_is p k r"
  "key_is p k (k_sandbox_email_id_update h r) = key_is p k r"
  "key_is p k \<lparr>k_project = p, k_key = k, k_email_id = e, k_sandbox_email_id = s, k_created_at = t\<rparr>"
  by (simp_all add: key_is_def)

lemma find_append: "find p (xs @ ys) = (case find p xs of None \<Rightarrow> find p ys | Some x \<Rightarrow> Some x)"
  by (induction xs) auto

lemma find_sql_delete_key: "distinct (map (\<lambda>r. (k_project r, k_key r)) rs) \<Longrightarrow> find (key_is p k) rs = Some r \<Longrightarrow> q r \<Longrightarrow>
  find (key_is p k) (sql_delete (\<lambda>r. key_is p k r \<and> q r) rs) = None"
  by (induction rs) (auto simp: sql_delete_def find_None_iff key_is_def image_iff split: if_splits)

definition keys_ok :: "db \<Rightarrow> bool" where
  "keys_ok d = distinct (map (\<lambda>r. (k_project r, k_key r)) (db_keys d))"

lemma reserved_row:
  assumes "ReserveKey p k [(now, others)] d = (Inr (h, True), d')" and "db_faults d = []" and "keys_ok d"
  shows "db_faults d' = [] \<and> keys_ok d' \<and> (\<exists>r. find (key_is p k) (db_keys d') = Some r \<and> k_email_id r = None \<and>
    k_sandbox_email_id r = None \<and> k_created_at r = now)"
proof (cases "find (key_is p k) (db_keys d)")
  case None
  then have "(p, k) \<notin> (\<lambda>r. (k_project r, k_key r)) ` set (db_keys d)"
    by (auto simp: find_None_iff key_is_def)
  with None assms show ?thesis
    by (auto simp: Exec_no_fault reserve_stmt_def find_append keys_ok_def)
next
  case (Some r)
  show ?thesis
  proof (cases "k_email_id r = None \<and> k_sandbox_email_id r = None \<and> k_created_at r < now - KeyReservationTTL")
    case True
    have "map (\<lambda>r. (k_project r, k_key r)) (sql_update (key_is p k) (k_created_at_update (\<lambda>_. now)) (db_keys d))
        = map (\<lambda>r. (k_project r, k_key r)) (db_keys d)"
      by (rule map_sql_update) simp
    with Some True assms show ?thesis
      by (auto simp: Exec_no_fault reserve_stmt_def find_sql_update_key keys_ok_def)
  next
    case False
    with Some assms show ?thesis
      by (auto simp: Exec_no_fault reserve_stmt_def Query_def split: option.splits sum.splits prod.splits)
  qed
qed

lemma reserve_again:
  assumes "db_faults d = []" and "find (key_is p k) (db_keys d) = Some r"
  shows "fst (ReserveKey p k ((now, id) # rounds) d) =
    (if k_email_id r = None \<and> k_sandbox_email_id r = None \<and> k_created_at r < now - KeyReservationTTL
     then Inr (no_holder, True) else Inr (holder_of r, False))"
  using assms by (simp add: Exec_no_fault Query_no_fault reserve_stmt_def)

text \<open>
  C27: One request holds an idempotency key at a time.  After a reservation, a second request within
  the reservation's lifetime is told to wait, whatever the clock says after the first produced a
  message it is handed that message (also after a stray release), after a release, or after the
  lifetime without a result, the key is free again.
\<close>
theorem key_reserved_once:
  assumes "db_faults d = []" and "keys_ok d" and "ReserveKey p k [(t, others)] d = (Inr (h, True), d1)" and "i \<noteq> []"
  shows "(t' \<le> t + KeyReservationTTL \<longrightarrow> fst (ReserveKey p k ((t', id) # rounds) d1) = Inr (no_holder, False)) \<and>
    (t + KeyReservationTTL < t' \<longrightarrow> fst (ReserveKey p k ((t', id) # rounds) d1) = Inr (no_holder, True)) \<and>
    fst (ReserveKey p k ((t', id) # rounds) (snd (CompleteKey p k i d1))) =
      Inr (\<lparr>kh_email_id = i, kh_sandbox_email_id = []\<rparr>, False) \<and>
    fst (ReserveKey p k ((t', id) # rounds) (snd (ReleaseKey p k (snd (CompleteKey p k i d1))))) =
      Inr (\<lparr>kh_email_id = i, kh_sandbox_email_id = []\<rparr>, False) \<and>
    fst (ReserveKey p k ((t', id) # rounds) (snd (ReleaseKey p k d1))) = Inr (no_holder, True)"
proof -
  obtain r where r: "find (key_is p k) (db_keys d1) = Some r" "k_email_id r = None" "k_sandbox_email_id r = None"
    "k_created_at r = t" and ok: "db_faults d1 = []" "keys_ok d1"
    using reserved_row [OF assms(3,1,2)] by blast
  let ?d2 = "snd (CompleteKey p k i d1)"
  let ?r2 = "k_email_id_update (\<lambda>_. Some i) r"
  have d2: "db_faults ?d2 = []" "find (key_is p k) (db_keys ?d2) = Some ?r2"
    using ok r(1) by (simp_all add: CompleteKey_def Exec_no_fault find_sql_update_key)
  have h2: "holder_of ?r2 = \<lparr>kh_email_id = i, kh_sandbox_email_id = []\<rparr>"
    by (simp add: holder_of_def null_str_def r(3))
  have "find (key_is p k) (sql_delete (\<lambda>r. key_is p k r \<and> k_email_id r = None \<and> k_sandbox_email_id r = None) rs) = Some x"
    if "find (key_is p k) rs = Some x" "k_email_id x \<noteq> None" for rs x
    using that by (induction rs) (auto simp: sql_delete_def split: if_splits)
  then have d3: "db_faults (snd (ReleaseKey p k ?d2)) = []"
    "find (key_is p k) (db_keys (snd (ReleaseKey p k ?d2))) = Some ?r2"
    using d2 by (simp_all add: ReleaseKey_def Exec_no_fault)
  have d4: "db_faults (snd (ReleaseKey p k d1)) = []" "find (key_is p k) (db_keys (snd (ReleaseKey p k d1))) = None"
    using ok r find_sql_delete_key [of "db_keys d1" p k r "\<lambda>r. k_email_id r = None \<and> k_sandbox_email_id r = None"]
    by (simp_all add: ReleaseKey_def Exec_no_fault keys_ok_def)
  have "holder_of r = no_holder" by (simp add: holder_of_def null_str_def no_holder_def r)
  then show ?thesis
    using reserve_again [OF ok(1) r(1), of t' rounds] reserve_again [OF d2, of t' rounds]
      reserve_again [OF d3, of t' rounds] r(2,3,4) h2 d4
    by (simp add: Exec_no_fault reserve_stmt_def del: ReserveKey.simps) (simp add: Exec_no_fault reserve_stmt_def)
qed

section \<open>Retention and erasure\<close>

definition owned_keys :: "email \<Rightarrow> string set" where
  "owned_keys e = {k. ownsKey k \<and> (\<exists>a \<in> set (e_attachments e). at_storage_key a = k)}"

lemma storageKeys_set: "set (storageKeys p es) = (\<Union>e \<in> {e \<in> set es. p e}. owned_keys e)"
  by (fastforce simp: storageKeys_def owned_keys_def)

lemma delete_cases:
  "Exec (delete_emails q) d = (r, d') \<Longrightarrow>
     set (db_emails d') = {x \<in> set (db_emails d). \<not> q x} \<or> db_emails d' = db_emails d"
  by (elim Exec_cases) (auto simp: delete_emails_def pop_fault_eq)

definition plain_char :: "char \<Rightarrow> bool" where
  "plain_char c = (let n = (of_char c :: nat) in 32 \<le> n \<and> n \<noteq> 34 \<and> n \<noteq> 92)"

lemma json_char_plain: "plain_char c \<Longrightarrow> json_char c = [c]"
  by (auto simp: json_char_def plain_char_def Let_def)

lemma lower_char_plain: "plain_char (lower_char c) = plain_char c"
proof (cases "65 \<le> (of_char c :: nat) \<and> (of_char c :: nat) \<le> 90")
  case True
  then have "(of_char (lower_char c) :: nat) = of_char c + 32" by (simp add: lower_char_def)
  with True show ?thesis by (auto simp: plain_char_def Let_def)
next
  case False
  then have "lower_char c = c" by (auto simp: lower_char_def)
  then show ?thesis by simp
qed

lemma json_plain: "list_all plain_char s \<Longrightarrow> concat (map json_char s) = s"
  by (induction s) (simp_all add: json_char_plain)

lemma to_lower_split:
  assumes "to_lower r = a @ t @ b"
  shows "\<exists>r1 r2 r3. r = r1 @ r2 @ r3 \<and> to_lower r2 = t"
proof -
  have "r = take (length a) r @ take (length t) (drop (length a) r) @ drop (length t) (drop (length a) r)"
    by (metis append_take_drop_id)
  moreover have "to_lower (take (length t) (drop (length a) r)) = t"
    using assms by (simp add: to_lower_def take_map [symmetric] drop_map [symmetric])
  ultimately show ?thesis by blast
qed

lemma join_contains: "x \<in> set xs \<Longrightarrow> \<exists>a b. join sep xs = a @ x @ b"
proof (induction sep xs rule: join.induct)
  case (2 sep y)
  then show ?case by (auto intro: exI [of _ "[]"])
next
  case (3 sep y z zs)
  show ?case
  proof (cases "x = y")
    case True
    then have "join sep (y # z # zs) = [] @ x @ sep @ join sep (z # zs)" by simp
    then show ?thesis by blast
  next
    case False
    with 3 obtain a b where "join sep (z # zs) = a @ x @ b" by auto
    then have "join sep (y # z # zs) = (y @ sep @ a) @ x @ b" by simp
    then show ?thesis by blast
  qed
qed simp

lemma contains_json_strings:
  assumes "r \<in> set rs" and "contains t (to_lower (json_string r))"
  shows "contains t (to_lower (json_strings rs))"
proof -
  have "json_string r \<in> set (map json_string rs)" using assms(1) by simp
  from join_contains [OF this, of "'',''"] obtain a b where
    "join '','' (map json_string rs) = a @ json_string r @ b" by blast
  moreover obtain c e where "to_lower (json_string r) = c @ t @ e" using assms(2) unfolding contains_iff by blast
  ultimately have "to_lower (json_strings rs) = (to_lower (''['' @ a) @ c) @ t @ e @ to_lower (b @ '']'')"
    by (simp add: json_strings_def to_lower_def)
  then show ?thesis unfolding contains_iff by blast
qed

lemma plain_lower: "list_all plain_char (to_lower s) = list_all plain_char s"
  by (induction s) (simp_all add: to_lower_def lower_char_plain)

lemma json_contains_bare:
  assumes "list_all plain_char a" and "to_lower r = a"
  shows "contains ([quote] @ a @ [quote]) (to_lower (json_string r))"
proof -
  have "list_all plain_char r" using assms plain_lower by metis
  then have "to_lower (json_string r) = [] @ ([quote] @ a @ [quote]) @ []"
    using assms(2) by (simp add: json_string_def json_plain) (simp add: to_lower_def)
  then show ?thesis unfolding contains_iff by blast
qed

lemma json_contains_part:
  assumes "list_all plain_char t" and "contains t (to_lower r)"
  shows "contains t (to_lower (json_string r))"
proof -
  obtain r1 r2 r3 where r: "r = r1 @ r2 @ r3" "to_lower r2 = t"
    using assms(2) to_lower_split unfolding contains_iff by blast
  then have "list_all plain_char r2" using assms(1) plain_lower by metis
  then have "to_lower (json_string r) = to_lower ([quote] @ concat (map json_char r1)) @ t @
      to_lower (concat (map json_char r3) @ [quote])"
    using r by (auto simp: json_string_def json_plain to_lower_def)
  then show ?thesis unfolding contains_iff by blast
qed

lemma like_around:
  assumes "b \<noteq> backslash" "b \<noteq> percent" "b \<noteq> underscore" "c \<noteq> backslash" "c \<noteq> percent" "c \<noteq> underscore"
  shows "like (percent # b # EscapeLike t @ [c, percent]) s = contains (b # t @ [c]) s"
proof -
  have "EscapeLike (b # t @ [c]) = b # EscapeLike t @ [c]"
    using assms by (simp add: EscapeLike_simps EscapeLike_append)
  with like_infix [of "b # t @ [c]" s] show ?thesis by simp
qed

lemma address_match_iff:
  "address_match addr e \<longleftrightarrow>
     (let a = to_lower addr; rcpts = to_lower (json_strings (e_recipients e)) in
      to_lower (e_sender e) = a \<or> contains (''<'' @ a @ ''>'') (to_lower (e_sender e)) \<or>
      contains ([quote] @ a @ [quote]) rcpts \<or> contains (''<'' @ a @ ''>'') rcpts)"
  unfolding address_match_def Let_def
  using like_around [of "CHR ''<''" "CHR ''>''" "to_lower addr"] like_around [of quote quote "to_lower addr"]
  by (simp add: meta_defs del: like.simps)

lemma contains_inner: "contains (a @ t @ b) s \<Longrightarrow> contains t s"
  unfolding contains_iff by (metis append.assoc)

lemma address_match_names:
  "address_match addr e \<Longrightarrow>
     contains (to_lower addr) (to_lower (e_sender e)) \<or> contains (to_lower addr) (to_lower (json_strings (e_recipients e)))"
  unfolding address_match_iff Let_def
  using contains_inner [of "''<''" "to_lower addr" "''>''"] contains_inner [of "[quote]" "to_lower addr" "[quote]"]
    contains_iff [of "to_lower addr" "to_lower addr"]
  by (metis append_Nil append_Nil2)

lemma erasure_only:
  "set (db_emails (snd (PurgeForAddress p addr d))) \<subseteq> set (db_emails d) \<and>
    (\<forall>x \<in> set (db_emails d) - set (db_emails (snd (PurgeForAddress p addr d))).
       e_project_id x = p \<and> \<not> in_flight x \<and>
       (contains (to_lower addr) (to_lower (e_sender x)) \<or> contains (to_lower addr) (to_lower (json_strings (e_recipients x)))))"
proof -
  have "set (db_emails (snd (PurgeForAddress p addr d))) = {x \<in> set (db_emails d). \<not> involves p addr x} \<or>
      db_emails (snd (PurgeForAddress p addr d)) = db_emails d"
    unfolding PurgeForAddress_def by (rule delete_cases, rule prod.collapse [symmetric])
  then show ?thesis using address_match_names by (auto simp: involves_def)
qed

text \<open>
  C26: Erasing an address reaches every settled message of the project it is in, and no message else.  A
  message whose sender, or any of whose recipients, is the address in any case, bare or in angle brackets after
  a display name, is deleted, for an address without quotes, backslashes and control characters, which the
  stored text of the recipients would escape.  Whatever the address, a message that is deleted is a settled one
  of the project and has the address in its sender or its stored recipients; every other message stays as it was.
\<close>
theorem erasure_complete:
  assumes "db_faults d = []" and "e \<in> set (db_emails d)" and "e_project_id e = p" and "\<not> in_flight e"
    and "list_all plain_char addr"
    and "r = e_sender e \<or> r \<in> set (e_recipients e)"
    and "to_lower r = to_lower addr \<or> contains (''<'' @ to_lower addr @ ''>'') (to_lower r)"
  shows "e \<notin> set (db_emails (snd (PurgeForAddress p addr d))) \<and>
    set (db_emails (snd (PurgeForAddress p addr' d'))) \<subseteq> set (db_emails d') \<and>
    (\<forall>x \<in> set (db_emails d') - set (db_emails (snd (PurgeForAddress p addr' d'))).
       e_project_id x = p \<and> \<not> in_flight x \<and>
       (contains (to_lower addr') (to_lower (e_sender x)) \<or> contains (to_lower addr') (to_lower (json_strings (e_recipients x)))))"
proof -
  have plain: "list_all plain_char (to_lower addr)" "list_all plain_char (''<'' @ to_lower addr @ ''>'')"
    using assms(5) by (simp_all add: plain_lower) (simp_all add: plain_char_def)
  have "address_match addr e"
  proof (cases "r = e_sender e")
    case True
    with assms(7) show ?thesis by (auto simp: address_match_iff Let_def)
  next
    case False
    with assms(6) have r: "r \<in> set (e_recipients e)" by simp
    from assms(7) have "contains ([quote] @ to_lower addr @ [quote]) (to_lower (json_string r)) \<or>
        contains (''<'' @ to_lower addr @ ''>'') (to_lower (json_string r))"
      using json_contains_bare [OF plain(1)] json_contains_part [OF plain(2)] by blast
    with r show ?thesis unfolding address_match_iff Let_def using contains_json_strings by blast
  qed
  with assms(1-4) have "e \<notin> set (db_emails (snd (PurgeForAddress p addr d)))"
    by (simp add: PurgeForAddress_def Exec_no_fault delete_emails_def involves_def)
  then show ?thesis using erasure_only by blast
qed

section \<open>Tracking counters\<close>

fun opens :: "string \<Rightarrow> time \<Rightarrow> time list \<Rightarrow> db \<Rightarrow> (error + (bool \<times> int)) list" where
  "opens i c [] d = []"
| "opens i c (at # ats) d = (let (r, d') = MarkOpened i c at d in r # opens i c ats d')"

lemma MarkOpened_run:
  assumes "db_faults d = []" and "pk_ok d" and "row_at d i c = Some e"
  shows "\<exists>d'. MarkOpened i c at d = (Inr (coalesce (e_opened_at e) at = Some at, e_open_count e + 1), d') \<and>
    db_faults d' = [] \<and> pk_ok d' \<and> row_at d' i c = Some (opened_row at e)"
proof -
  let ?p = "\<lambda>e. e_id e = i \<and> e_created_at e = c"
  let ?d = "d\<lparr>db_emails := sql_update ?p (opened_row at) (db_emails d)\<rparr>"
  have f: "find ?p (db_emails d) = Some e" using assms(3) by (simp add: row_at_def)
  have pk: "map pk (sql_update ?p (opened_row at) (db_emails d)) = map pk (db_emails d)"
    by (rule map_sql_update) (simp add: pk_def opened_row_def)
  have "row_at ?d i c = Some (opened_row at e)"
    using find_sql_update [of ?p ?p "opened_row at" "db_emails d"] f row_at_Some [OF assms(3)]
    by (simp add: row_at_def opened_row_def)
  moreover have "MarkOpened i c at d = (Inr (coalesce (e_opened_at e) at = Some at, e_open_count e + 1), ?d)"
    using f by (simp add: MarkOpened_def Exec_no_fault assms(1) returning_def opened_row_def)
  ultimately show ?thesis using assms(1,2) pk by (simp add: pk_ok_def)
qed

lemma opens_later:
  assumes "db_faults d = []" "pk_ok d" "row_at d i c = Some e" "e_opened_at e = Some t"
  shows "opens i c ats d =
    map (\<lambda>k. Inr (ats ! k = t, e_open_count e + int k + 1)) [0 ..< length ats]"
  using assms
proof (induction ats arbitrary: d e)
  case (Cons at ats)
  obtain d' where d': "MarkOpened i c at d = (Inr (coalesce (e_opened_at e) at = Some at, e_open_count e + 1), d')"
    "db_faults d' = []" "pk_ok d'" "row_at d' i c = Some (opened_row at e)"
    using MarkOpened_run [OF Cons.prems(1-3)] by blast
  have "e_opened_at (opened_row at e) = Some t" using Cons.prems(4) by (simp add: opened_row_def coalesce_def)
  note ih = Cons.IH [OF d'(2-4) this]
  have "[0 ..< length (at # ats)] = 0 # map Suc [0 ..< length ats]" by (simp add: map_Suc_upt upt_conv_Cons del: upt_Suc)
  then show ?case using d'(1) ih Cons.prems(4)
    by (auto simp: opened_row_def coalesce_def)
qed simp

text \<open>
  Every open is counted and only the first is the first.  However often and whenever the pixel
  of a message is fetched, the answers count on from the stored number one by one, and an open is
  reported as the first exactly when it happened at the first open's instant.
\<close>
lemma opens_counted:
  assumes "db_faults d = []" and "pk_ok d" and "row_at d i c = Some e" and "e_opened_at e = None"
  shows "opens i c ats d =
    map (\<lambda>k. Inr (ats ! k = ats ! 0, e_open_count e + int k + 1)) [0 ..< length ats]"
proof (cases ats)
  case (Cons at as)
  obtain d' where d': "MarkOpened i c at d = (Inr (coalesce (e_opened_at e) at = Some at, e_open_count e + 1), d')"
    "db_faults d' = []" "pk_ok d'" "row_at d' i c = Some (opened_row at e)"
    using MarkOpened_run [OF assms(1-3)] by blast
  have "e_opened_at (opened_row at e) = Some at" using assms(4) by (simp add: opened_row_def coalesce_def)
  note rest = opens_later [OF d'(2-4) this, of as]
  have "[0 ..< length (at # as)] = 0 # map Suc [0 ..< length as]" by (simp add: map_Suc_upt upt_conv_Cons del: upt_Suc)
  then show ?thesis using Cons d'(1) rest assms(4) by (auto simp: opened_row_def coalesce_def)
qed simp

section \<open>Samples\<close>

definition log_row :: "string \<Rightarrow> time \<Rightarrow> email" where
  "log_row i c = zero_email\<lparr>e_id := i, e_project_id := ''p'', e_created_at := c, e_status := StatusSent,
     e_sender := ''Acme <no@acme.test>'', e_recipients := [''Bob <BOB@x.test>'']\<rparr>"

definition log_db :: db where
  "log_db = \<lparr>db_emails = [log_row ''a'' 5, log_row ''b'' 5, log_row ''c'' 9], db_assignments = [],
     db_volume = [], db_keys = [], db_faults = []\<rparr>"

definition no_filter :: email_filter where
  "no_filter = \<lparr>ef_statuses = [], ef_cursor = \<lparr>cu_created_at = 5, cu_id = ''b''\<rparr>, ef_limit = 10, ef_sender = [],
     ef_recipient = [], ef_exact = False, ef_template = [], ef_tag = [], ef_api_key_id = [],
     ef_smtp_server_id = [], ef_from = None, ef_to = None, ef_after = None, ef_search = []\<rparr>"

lemmas log_simps = log_row_def log_db_def zero_email_def

lemma log_db_ok: "db_faults log_db = []" "ids_ok log_db" "pk_ok log_db" "keys_ok log_db"
  by (simp_all add: log_db_def log_row_def zero_email_def ids_ok_def pk_ok_def pk_def keys_ok_def)

lemma pruned_lookup_complete_witness:
  "GetAny (\<lambda>_. Some [1, 142, 0, 0, 0, 0, 112, 0, 0, 0, 0, 0, 0, 0, 0, 0]) ''b'' log_db = (Inr (Some (log_row ''b'' 5)), log_db)"
  using pruned_lookup_complete [OF log_db_ok(1,2),
      of "\<lambda>_. Some [1, 142, 0, 0, 0, 0, 112, 0, 0, 0, 0, 0, 0, 0, 0, 0]" "''p''" "''b''"]
  by (simp add: log_simps)

lemma cursor_page_continues_sample: "fst (ListEmails ''p'' no_filter log_db) = Inr [log_row ''a'' 5]"
proof -
  have all: "filter (row_matches ''p'' no_filter) (db_emails log_db) = [log_row ''a'' 5, log_row ''b'' 5, log_row ''c'' 9]"
    by (simp add: row_matches_def sender_matches_def recipient_matches_def search_matches_def no_filter_def
        log_simps trim_space_def)
  have rows: "newest_first (filter (row_matches ''p'' no_filter) (db_emails log_db)) =
      [log_row ''c'' 9, log_row ''b'' 5, log_row ''a'' 5]"
    unfolding all by (simp add: newest_first_def log_key_def log_row_def zero_email_def)
  from cursor_page_continues [OF log_db_ok(1,3) rows, of 1] show ?thesis
    by (simp add: no_filter_def log_row_def zero_email_def IsZero_def zero_time_def listLimit_def)
qed

lemma key_reserved_once_witness:
  "fst (ReserveKey ''p'' ''k'' [(20, id)] (snd (ReserveKey ''p'' ''k'' [(10, id)] log_db))) = Inr (no_holder, False)"
proof -
  have "fst (ReserveKey ''p'' ''k'' [(10, id)] log_db) = Inr (no_holder, True)"
    by (simp add: log_db_def Exec_no_fault reserve_stmt_def)
  then have "ReserveKey ''p'' ''k'' [(10, id)] log_db =
      (Inr (no_holder, True), snd (ReserveKey ''p'' ''k'' [(10, id)] log_db))" by (metis prod.collapse)
  from key_reserved_once [OF log_db_ok(1,4) this, of "''m''" 20 "[]"] show ?thesis
    by (simp add: KeyReservationTTL_def)
qed

definition erasure_db :: db where
  "erasure_db = log_db\<lparr>db_emails := [log_row ''a'' 5, (log_row ''b'' 5)\<lparr>e_project_id := ''q''\<rparr>]\<rparr>"

lemma erasure_complete_witness:
  "db_emails (snd (PurgeForAddress ''p'' ''bob@X.test'' erasure_db)) \<noteq> db_emails erasure_db \<and>
   (log_row ''b'' 5)\<lparr>e_project_id := ''q''\<rparr> \<in> set (db_emails (snd (PurgeForAddress ''p'' ''bob@X.test'' erasure_db)))"
proof -
  have "log_row ''a'' 5 \<notin> set (db_emails (snd (PurgeForAddress ''p'' ''bob@X.test'' erasure_db))) \<and>
    set (db_emails (snd (PurgeForAddress ''p'' ''bob@X.test'' erasure_db))) \<subseteq> set (db_emails erasure_db) \<and>
    (\<forall>x \<in> set (db_emails erasure_db) - set (db_emails (snd (PurgeForAddress ''p'' ''bob@X.test'' erasure_db))).
       e_project_id x = ''p'' \<and> \<not> in_flight x \<and>
       (contains (to_lower ''bob@X.test'') (to_lower (e_sender x)) \<or>
        contains (to_lower ''bob@X.test'') (to_lower (json_strings (e_recipients x)))))"
  proof (rule erasure_complete [where r = "''Bob <BOB@x.test>''"])
    show "list_all plain_char ''bob@X.test''" by (simp add: plain_char_def)
    show "to_lower ''Bob <BOB@x.test>'' = to_lower ''bob@X.test'' \<or>
        contains (''<'' @ to_lower ''bob@X.test'' @ ''>'') (to_lower ''Bob <BOB@x.test>'')"
      unfolding contains_iff
      by (rule disjI2, rule exI [of _ "''bob ''"], rule exI [of _ "[]"]) code_simp
  qed (simp_all add: log_simps erasure_db_def in_flight_def)
  moreover have "log_row ''a'' 5 \<in> set (db_emails erasure_db)" "(log_row ''b'' 5)\<lparr>e_project_id := ''q''\<rparr> \<in> set (db_emails erasure_db)"
    "e_project_id ((log_row ''b'' 5)\<lparr>e_project_id := ''q''\<rparr>) \<noteq> ''p''"
    by (simp_all add: erasure_db_def)
  ultimately show ?thesis by (metis DiffI)
qed

lemma opens_counted_sample:
  "opens ''a'' 5 [20, 30] log_db = [Inr (True, 1), Inr (False, 2)]"
proof -
  have "row_at log_db ''a'' 5 = Some (log_row ''a'' 5)" "e_opened_at (log_row ''a'' 5) = None"
    by (simp_all add: row_at_def log_simps)
  from opens_counted [OF log_db_ok(1,3) this, of "[20, 30]"] show ?thesis
    by (simp add: upt_rec log_row_def zero_email_def)
qed

text \<open>
  C39: Following the cursors reads the whole log.  From the first page on, with any page size a
  client may ask for, the pages put together are exactly the matching messages of the project,
  newest first, and after as many pages as there are messages, plus one, none is left.
\<close>
theorem log_walk_complete:
  assumes "db_faults d = []" "pk_ok d" "\<forall>e \<in> set (db_emails d). e_id e \<noteq> [] \<and> e_created_at e \<noteq> zero_time"
  shows "walk log_key (log_fetch projID f d) (Suc (length (db_emails d))) limit_param zero_cursor =
    newest_first (filter (row_matches projID f) (db_emails d))"
proof -
  let ?rows = "filter (row_matches projID f) (db_emails d)"
  have keys: "distinct (map pk ?rows)"
    using assms(2) by (simp add: pk_ok_def distinct_map_filter)
  have nz: "\<forall>r \<in> set ?rows. \<not> IsZero \<lparr>cu_created_at = fst (log_key r), cu_id = snd (log_key r)\<rparr>"
    using assms(3) by (simp add: IsZero_def log_key_def)
  have "newest log_key (filter (after_key log_key zero_cursor) ?rows) = newest log_key ?rows"
    by (simp add: after_key_def IsZero_def zero_cursor_def)
  from log_keys.walk_from [OF keys nz this, of 0 "Suc (length (db_emails d))" limit_param] show ?thesis
    unfolding log_fetch_page [OF assms(1)]
    by (simp add: newest_first_def newest_def le_imp_less_Suc)
qed

lemma log_walk_complete_witness:
  "walk log_key (log_fetch ''p'' no_filter log_db) 4 (Some 1) zero_cursor = [log_row ''c'' 9, log_row ''b'' 5, log_row ''a'' 5]"
proof -
  have all: "filter (row_matches ''p'' no_filter) (db_emails log_db) = [log_row ''a'' 5, log_row ''b'' 5, log_row ''c'' 9]"
    by (simp add: row_matches_def sender_matches_def recipient_matches_def search_matches_def no_filter_def
        log_simps trim_space_def)
  have rows: "newest_first (filter (row_matches ''p'' no_filter) (db_emails log_db)) =
      [log_row ''c'' 9, log_row ''b'' 5, log_row ''a'' 5]"
    unfolding all by (simp add: newest_first_def log_key_def log_row_def zero_email_def)
  have "\<forall>e \<in> set (db_emails log_db). e_id e \<noteq> [] \<and> e_created_at e \<noteq> zero_time"
    by (simp add: log_simps zero_time_def)
  from log_walk_complete [OF log_db_ok(1,3) this, of "''p''" no_filter "Some 1"] show ?thesis
    unfolding rows by (simp add: log_db_def numeral_eq_Suc)
qed

end
