(* ===== verification/Delivery.thy ===== *)
theory Delivery
  imports Worker EmailLog
begin

text \<open>
  The queue as a system: the email table, the jobs worker goroutines hold, the rows relay reports
  have read, the clock, and the log of final notifications.  A step is one statement group of one
  party: a send is accepted, a node polls, a worker writes an outcome, a node dies, a relay report
  reads a row, or ends one it read earlier, whoever claimed it meanwhile, a row is reset, cancelled,
  purged or taken back from a relay node, assignments change, the database starts failing statements.
  Steps of different nodes interleave freely; each is one run of the modelled code.  The clock
  moves between a claim and an outcome written under it, and between a hand-over and the sweep that
  takes it back.
\<close>

record sys =
  sy_db :: db
  sy_now :: time
  sy_flight :: "email list"
  sy_read :: "email list"
  sy_log :: "final list"

definition claim_key :: "email \<Rightarrow> string \<times> time option" where
  "claim_key j = (e_id j, e_claimed_at j)"

inductive step :: "worker_config \<Rightarrow> sys \<Rightarrow> sys \<Rightarrow> bool" for cfg where
  tick: "sy_now s \<le> t \<Longrightarrow> step cfg s (s\<lparr>sy_now := t\<rparr>)"
| fail: "step cfg s (s\<lparr>sy_db := (sy_db s)\<lparr>db_faults := fs\<rparr>\<rparr>)"
| assign: "step cfg s (s\<lparr>sy_db := (sy_db s)\<lparr>db_assignments := as\<rparr>\<rparr>)"
| accept: "e_id e \<notin> e_id ` (set (db_emails (sy_db s)) \<union> set (sy_flight s) \<union> f_job ` set (sy_log s)) \<Longrightarrow>
     e_status e \<noteq> StatusProcessing \<Longrightarrow> Put (sy_now s) e (sy_db s) = (r, d) \<Longrightarrow>
     step cfg s (s\<lparr>sy_db := d\<rparr>)"
| accept_within: "e_id e \<notin> e_id ` (set (db_emails (sy_db s)) \<union> set (sy_flight s) \<union> f_job ` set (sy_log s)) \<Longrightarrow>
     e_status e \<noteq> StatusProcessing \<Longrightarrow> PutWithin (sy_now s) e hourly daily (sy_db s) = (w, d) \<Longrightarrow>
     step cfg s (s\<lparr>sy_db := d\<rparr>)"
| poll: "pollOnce (store_source locked) cfg (sy_now s) free shut marked (sy_db s) = (mark, jobs, d) \<Longrightarrow>
     step cfg s (s\<lparr>sy_db := d, sy_flight := take k jobs @ sy_flight s\<rparr>)"
| deliver: "job \<in> set (sy_flight s) \<Longrightarrow> e_claimed_at job = Some t \<Longrightarrow> t < sy_now s \<Longrightarrow>
     finish (store_source locked) cfg (sy_now s) rnd job out (sy_db s) = (fs, d) \<Longrightarrow>
     step cfg s (s\<lparr>sy_db := d, sy_flight := remove1 job (sy_flight s), sy_log := fs @ sy_log s\<rparr>)"
| read_row: "row \<in> set (db_emails (sy_db s)) \<Longrightarrow> step cfg s (s\<lparr>sy_read := row # sy_read s\<rparr>)"
| forget: "set rows \<subseteq> set (sy_read s) \<Longrightarrow> step cfg s (s\<lparr>sy_read := rows\<rparr>)"
| complete: "row \<in> set (sy_read s) \<Longrightarrow>
     e_claimed_at row = Some t \<Longrightarrow> t < sy_now s \<Longrightarrow>
     Complete (store_source locked) cfg (sy_now s) rnd row out (sy_db s) = (fs, d) \<Longrightarrow>
     step cfg s (s\<lparr>sy_db := d, sy_log := fs @ sy_log s\<rparr>)"
| handed_back: "handed < sy_now s \<Longrightarrow>
     RequeueHanded i c handed (sy_now s) msg (sy_db s) = (r, d) \<Longrightarrow>
     step cfg s (s\<lparr>sy_db := d\<rparr>)"
| die: "step cfg s (s\<lparr>sy_flight := filter alive (sy_flight s)\<rparr>)"
| reset: "Reset p i rcpts (sy_now s) (sy_db s) = (r, d) \<Longrightarrow> step cfg s (s\<lparr>sy_db := d\<rparr>)"
| cancel: "Cancel p i c (sy_db s) = (r, d) \<Longrightarrow> step cfg s (s\<lparr>sy_db := d\<rparr>)"
| purge: "PurgeOlderThan before (sy_db s) = (r, d) \<Longrightarrow> step cfg s (s\<lparr>sy_db := d\<rparr>)"
| purge_project: "PurgeProjectOlderThan p before (sy_db s) = (r, d) \<Longrightarrow> step cfg s (s\<lparr>sy_db := d\<rparr>)"
| purge_address: "PurgeForAddress p addr (sy_db s) = (r, d) \<Longrightarrow> step cfg s (s\<lparr>sy_db := d\<rparr>)"

definition init_sys :: "time \<Rightarrow> sys" where
  "init_sys t =
     \<lparr>sy_db = \<lparr>db_emails = [], db_assignments = [], db_volume = [], db_keys = [], db_faults = []\<rparr>,
      sy_now = t, sy_flight = [], sy_read = [], sy_log = []\<rparr>"

inductive reachable :: "worker_config \<Rightarrow> sys \<Rightarrow> bool" for cfg where
  start: "reachable cfg (init_sys t)"
| next_step: "reachable cfg s \<Longrightarrow> step cfg s s' \<Longrightarrow> reachable cfg s'"

section \<open>Row changes a statement group may make\<close>

text \<open>
  Every step changes the table row by row: a row stays, disappears, or moves on.  \<open>evolve\<close>
  lists the moves: a claim at the present instant, a release of a processing row, and the
  changes of rows no worker holds.
\<close>

definition claim_time :: "email \<Rightarrow> time" where
  "claim_time j = (case e_claimed_at j of None \<Rightarrow> 0 | Some t \<Rightarrow> t)"

definition row_inv :: "sys \<Rightarrow> email \<Rightarrow> bool" where
  "row_inv s e =
     (if e_status e = StatusProcessing
      then (\<exists>c. e_claimed_at e = Some c \<and> c \<le> sy_now s \<and>
              (\<forall>j \<in> set (sy_flight s). e_id j = e_id e \<longrightarrow> claim_time j \<le> c) \<and>
              (\<forall>f \<in> set (sy_log s). e_id (f_job f) = e_id e \<longrightarrow> claim_time (f_job f) < c))
      else ((\<forall>j \<in> set (sy_flight s). e_id j = e_id e \<longrightarrow> claim_time j < sy_now s) \<and>
            (\<forall>f \<in> set (sy_log s). e_id (f_job f) = e_id e \<longrightarrow> claim_time (f_job f) < sy_now s)))"

definition held_jobs :: "sys \<Rightarrow> email list" where
  "held_jobs s = sy_flight s @ map f_job (sy_log s)"

definition sys_inv :: "sys \<Rightarrow> bool" where
  "sys_inv s =
     (ids_ok (sy_db s) \<and>
      distinct (map claim_key (sy_flight s)) \<and> distinct (map claim_key (map f_job (sy_log s))) \<and>
      (\<forall>j \<in> set (held_jobs s). \<exists>t. e_claimed_at j = Some t \<and> t \<le> sy_now s) \<and>
      (\<forall>e \<in> set (db_emails (sy_db s)). row_inv s e))"

lemma set_held_jobs: "set (held_jobs s) = set (sy_flight s) \<union> f_job ` set (sy_log s)"
  by (auto simp: held_jobs_def)

lemma sys_inv_init: "sys_inv (init_sys t)"
  by (simp add: sys_inv_def init_sys_def ids_ok_def held_jobs_def)

lemma claim_key_time:
  assumes "e_claimed_at j = Some t" "e_claimed_at k = Some u"
  shows "claim_key j = claim_key k \<longleftrightarrow> e_id j = e_id k \<and> claim_time j = claim_time k"
  using assms by (simp add: claim_key_def claim_time_def)

text \<open>
  A step that leaves the jobs alone keeps the invariant when each row of the new table either
  was there before or is not processing and comes from a row the held jobs are older than.
\<close>

lemma row_inv_older:
  assumes "row_inv s e" and "e_id e' = e_id e" and "e_status e' \<noteq> StatusProcessing"
    and "sy_flight s' = sy_flight s" "sy_log s' = sy_log s" "sy_now s' = sy_now s"
    and "e_status e = StatusProcessing \<Longrightarrow> claim_time e < sy_now s"
  shows "row_inv s' e'"
proof (cases "e_status e = StatusProcessing")
  case False
  then show ?thesis using assms by (auto simp: row_inv_def)
next
  case True
  then obtain c where c: "e_claimed_at e = Some c" "c \<le> sy_now s"
    and fl: "\<forall>j \<in> set (sy_flight s). e_id j = e_id e \<longrightarrow> claim_time j \<le> c"
    and lg: "\<forall>f \<in> set (sy_log s). e_id (f_job f) = e_id e \<longrightarrow> claim_time (f_job f) < c"
    using assms(1) by (auto simp: row_inv_def)
  have "c < sy_now s" using assms(7) True c by (simp add: claim_time_def)
  then have "claim_time j < sy_now s" if "j \<in> set (sy_flight s)" "e_id j = e_id e" for j
    using fl that by fastforce
  moreover have "claim_time (f_job f) < sy_now s" if "f \<in> set (sy_log s)" "e_id (f_job f) = e_id e" for f
    using lg that c by fastforce
  ultimately show ?thesis using assms(2-6) by (auto simp: row_inv_def)
qed

lemma row_inv_same:
  assumes "row_inv s e" and "e_id e' = e_id e" "e_status e' = e_status e" "e_claimed_at e' = e_claimed_at e"
    and "sy_flight s' = sy_flight s" "sy_log s' = sy_log s" "sy_now s' = sy_now s"
  shows "row_inv s' e'"
  using assms by (simp add: row_inv_def)

lemma quiet_step:
  assumes inv: "sys_inv s" and ids: "ids_ok d"
    and rows: "\<forall>e' \<in> set (db_emails d).
        \<exists>e \<in> set (db_emails (sy_db s)). e_id e' = e_id e \<and>
          ((e_status e' = e_status e \<and> e_claimed_at e' = e_claimed_at e) \<or>
           (e_status e' \<noteq> StatusProcessing \<and>
            (e_status e = StatusProcessing \<longrightarrow> claim_time e < sy_now s)))"
  shows "sys_inv (s\<lparr>sy_db := d\<rparr>)"
proof -
  let ?s = "s\<lparr>sy_db := d\<rparr>"
  have rinv: "\<forall>e \<in> set (db_emails (sy_db s)). row_inv s e" using inv by (simp add: sys_inv_def)
  have "row_inv ?s e'" if mem: "e' \<in> set (db_emails d)" for e'
  proof -
    obtain e where e: "e \<in> set (db_emails (sy_db s))" and eq: "e_id e' = e_id e"
      and how: "(e_status e' = e_status e \<and> e_claimed_at e' = e_claimed_at e) \<or>
           (e_status e' \<noteq> StatusProcessing \<and>
            (e_status e = StatusProcessing \<longrightarrow> claim_time e < sy_now s))"
      using bspec [OF rows mem] by auto
    have ri: "row_inv s e" using rinv e by blast
    from how show ?thesis
    proof
      assume "e_status e' = e_status e \<and> e_claimed_at e' = e_claimed_at e"
      then show ?thesis using row_inv_same [OF ri eq] by simp
    next
      assume h: "e_status e' \<noteq> StatusProcessing \<and>
            (e_status e = StatusProcessing \<longrightarrow> claim_time e < sy_now s)"
      show ?thesis by (rule row_inv_older [OF ri eq]) (use h in auto)
    qed
  qed
  then show ?thesis using inv ids by (simp add: sys_inv_def held_jobs_def)
qed

text \<open>Statements that update or delete rows in place.\<close>

lemma quiet_update:
  assumes inv: "sys_inv s"
    and d: "db_emails d = db_emails (sy_db s) \<or> db_emails d = sql_update p f (db_emails (sy_db s))"
    and f: "\<And>e. e_id (f e) = e_id e \<and> e_status (f e) \<noteq> StatusProcessing"
    and p: "\<And>e. e \<in> set (db_emails (sy_db s)) \<Longrightarrow> p e \<Longrightarrow> e_status e = StatusProcessing \<Longrightarrow>
              claim_time e < sy_now s"
  shows "sys_inv (s\<lparr>sy_db := d\<rparr>)"
proof (rule quiet_step [OF inv])
  have "map e_id (db_emails d) = map e_id (db_emails (sy_db s))"
    using d f by (auto simp: map_sql_update)
  then show "ids_ok d" using inv by (simp add: sys_inv_def ids_ok_def)
  show "\<forall>e' \<in> set (db_emails d).
        \<exists>e \<in> set (db_emails (sy_db s)). e_id e' = e_id e \<and>
          ((e_status e' = e_status e \<and> e_claimed_at e' = e_claimed_at e) \<or>
           (e_status e' \<noteq> StatusProcessing \<and>
            (e_status e = StatusProcessing \<longrightarrow> claim_time e < sy_now s)))"
  proof
    fix e' assume "e' \<in> set (db_emails d)"
    with d obtain e where e: "e \<in> set (db_emails (sy_db s))" "e' = e \<or> (p e \<and> e' = f e)"
      by (auto simp: set_sql_update)
    with f p show "\<exists>e \<in> set (db_emails (sy_db s)). e_id e' = e_id e \<and>
          ((e_status e' = e_status e \<and> e_claimed_at e' = e_claimed_at e) \<or>
           (e_status e' \<noteq> StatusProcessing \<and>
            (e_status e = StatusProcessing \<longrightarrow> claim_time e < sy_now s)))"
      by (intro bexI [of _ e]) auto
  qed
qed

lemma quiet_delete:
  assumes inv: "sys_inv s"
    and d: "db_emails d = db_emails (sy_db s) \<or> db_emails d = sql_delete p (db_emails (sy_db s))"
  shows "sys_inv (s\<lparr>sy_db := d\<rparr>)"
proof (rule quiet_step [OF inv])
  show "ids_ok d" using inv d distinct_map_sql_delete by (auto simp: sys_inv_def ids_ok_def)
  show "\<forall>e' \<in> set (db_emails d).
        \<exists>e \<in> set (db_emails (sy_db s)). e_id e' = e_id e \<and>
          ((e_status e' = e_status e \<and> e_claimed_at e' = e_claimed_at e) \<or>
           (e_status e' \<noteq> StatusProcessing \<and>
            (e_status e = StatusProcessing \<longrightarrow> claim_time e < sy_now s)))"
    using d by auto
qed

lemma accept_rows:
  assumes inv: "sys_inv s"
    and fresh: "e_id e \<notin> e_id ` (set (db_emails (sy_db s)) \<union> set (sy_flight s) \<union> f_job ` set (sy_log s))"
    and st: "e_status e \<noteq> StatusProcessing"
    and put: "db_emails d = db_emails (sy_db s) \<or>
      db_emails d = db_emails (sy_db s) @ [put_row (created_or (sy_now s) e)]"
  shows "sys_inv (s\<lparr>sy_db := d\<rparr>)"
proof -
  let ?r = "put_row (created_or (sy_now s) e)"
  have old: "row_inv (s\<lparr>sy_db := d\<rparr>) x" if "x \<in> set (db_emails (sy_db s))" for x
    using inv that by (simp add: sys_inv_def row_inv_def)
  have new: "row_inv (s\<lparr>sy_db := d\<rparr>) ?r"
  proof -
    have "\<forall>j \<in> set (sy_flight s). e_id j \<noteq> e_id e" "\<forall>f \<in> set (sy_log s). e_id (f_job f) \<noteq> e_id e"
      using fresh by (metis UnCI image_eqI, metis UnCI image_eqI)
    then show ?thesis using st by (simp add: row_inv_def)
  qed
  from put show ?thesis
  proof
    assume "db_emails d = db_emails (sy_db s)"
    with inv old show ?thesis by (simp add: sys_inv_def held_jobs_def ids_ok_def)
  next
    assume d: "db_emails d = db_emails (sy_db s) @ [?r]"
    then have "ids_ok d" using inv fresh by (auto simp: sys_inv_def ids_ok_def)
    with inv old new d show ?thesis by (simp add: sys_inv_def held_jobs_def)
  qed
qed

lemma shrink_step:
  assumes inv: "sys_inv s" and sub: "set fl \<subseteq> set (sy_flight s)" and di: "distinct (map claim_key fl)"
  shows "sys_inv (s\<lparr>sy_flight := fl\<rparr>)"
proof -
  have "row_inv (s\<lparr>sy_flight := fl\<rparr>) e" if "row_inv s e" for e
    using that sub by (auto simp: row_inv_def split: if_splits)
  with assms show ?thesis by (auto simp: sys_inv_def held_jobs_def)
qed

section \<open>Outcomes and claims\<close>

lemma view_row: "pk_ok d \<Longrightarrow> e \<in> set (db_emails d) \<Longrightarrow>
    claim_view d (e_id e) (e_created_at e) = Some (e_status e, e_claimed_at e)"
  by (simp add: claim_view_def row_at_unique)

lemma view_Some: "claim_view d i c = Some (st, cl) \<Longrightarrow>
    \<exists>e \<in> set (db_emails d). e_id e = i \<and> e_created_at e = c \<and> e_status e = st \<and> e_claimed_at e = cl"
  unfolding claim_view_def using row_at_Some by fastforce

text \<open>What \<^verbatim>\<open>finish\<close> does to the rows, read off the fenced view.\<close>

lemma finish_rows:
  assumes ids: "ids_ok d" and fin: "finish (store_source locked) cfg now rnd job out d = (fs, d')"
  shows "ids_ok d' \<and>
    (\<forall>e' \<in> set (db_emails d'). \<exists>e \<in> set (db_emails d). e_id e' = e_id e \<and>
       ((e_status e' = e_status e \<and> e_claimed_at e' = e_claimed_at e) \<or>
        (e_id e = e_id job \<and> e_status e = StatusProcessing \<and> e_claimed_at e = e_claimed_at job \<and>
         e_status e' \<noteq> StatusProcessing))) \<and>
    (fs \<noteq> [] \<longrightarrow> (\<exists>e \<in> set (db_emails d). e_id e = e_id job \<and> e_status e = StatusProcessing \<and>
        e_claimed_at e = e_claimed_at job) \<and>
       (\<forall>e' \<in> set (db_emails d'). e_id e' = e_id job \<longrightarrow> e_status e' \<noteq> StatusProcessing) \<and>
       (\<exists>f. fs = [f] \<and> claim_key (f_job f) = claim_key job))"
proof -
  have pk: "pk_ok d" using ids by (rule ids_ok_pk_ok)
  have F: "pk_ok d' \<and>
    ((claim_view d' = claim_view d \<and> fs = []) \<or>
     ((e_claimed_at job \<noteq> None \<and>
       claim_view d (e_id job) (e_created_at job) = Some (StatusProcessing, e_claimed_at job)) \<and>
      (\<exists>st. st \<noteq> StatusProcessing \<and> claim_view d' =
        (claim_view d)(e_id job := (claim_view d (e_id job))(e_created_at job := Some (st, None))))))"
    by (rule store.finish_fenced [OF pk fin])
  then have pk': "pk_ok d'" by blast
  have idsame: "e_created_at e = e_created_at e'" if "e \<in> set (db_emails d)" "e' \<in> set (db_emails d)" "e_id e = e_id e'" for e e'
    using ids that by (auto simp: ids_ok_def distinct_map inj_on_def)
  have origin: "\<exists>e \<in> set (db_emails d). e_id e' = e_id e \<and> e_created_at e' = e_created_at e \<and>
       ((e_status e' = e_status e \<and> e_claimed_at e' = e_claimed_at e) \<or>
        (e_id e = e_id job \<and> e_status e = StatusProcessing \<and> e_claimed_at e = e_claimed_at job \<and>
         e_status e' \<noteq> StatusProcessing))" if e'_in: "e' \<in> set (db_emails d')" for e'
  proof -
    have v': "claim_view d' (e_id e') (e_created_at e') = Some (e_status e', e_claimed_at e')"
      using view_row [OF pk' e'_in] .
    from F consider (same) "claim_view d' = claim_view d"
      | (set) st where "claim_view d (e_id job) (e_created_at job) = Some (StatusProcessing, e_claimed_at job)"
          "st \<noteq> StatusProcessing"
          "claim_view d' = (claim_view d)(e_id job := (claim_view d (e_id job))(e_created_at job := Some (st, None)))"
      by blast
    then show ?thesis
    proof cases
      case same
      with v' have "claim_view d (e_id e') (e_created_at e') = Some (e_status e', e_claimed_at e')" by simp
      from view_Some [OF this] obtain e where "e \<in> set (db_emails d)" "e_id e = e_id e'"
        "e_created_at e = e_created_at e'" "e_status e = e_status e'" "e_claimed_at e = e_claimed_at e'" by blast
      then show ?thesis by (intro bexI [of _ e]) simp_all
    next
      case (set st)
      show ?thesis
      proof (cases "e_id e' = e_id job \<and> e_created_at e' = e_created_at job")
        case True
        with set v' have "e_status e' = st" by simp
        moreover from view_Some [OF set(1)] obtain e where "e \<in> set (db_emails d)" "e_id e = e_id job"
          "e_created_at e = e_created_at job" "e_status e = StatusProcessing" "e_claimed_at e = e_claimed_at job" by blast
        ultimately show ?thesis using True set(2) by (intro bexI [of _ e]) simp_all
      next
        case False
        with set v' have "claim_view d (e_id e') (e_created_at e') = Some (e_status e', e_claimed_at e')"
          by (auto split: if_splits)
        from view_Some [OF this] obtain e where "e \<in> set (db_emails d)" "e_id e = e_id e'"
        "e_created_at e = e_created_at e'" "e_status e = e_status e'" "e_claimed_at e = e_claimed_at e'" by blast
      then show ?thesis by (intro bexI [of _ e]) simp_all
      qed
    qed
  qed
  have "inj_on e_id (set (db_emails d'))"
  proof (rule inj_onI)
    fix x y assume xy: "x \<in> set (db_emails d')" "y \<in> set (db_emails d')" "e_id x = e_id y"
    from origin [OF xy(1)] obtain ex where ex: "ex \<in> set (db_emails d)" "e_id x = e_id ex" "e_created_at x = e_created_at ex" by blast
    from origin [OF xy(2)] obtain ey where ey: "ey \<in> set (db_emails d)" "e_id y = e_id ey" "e_created_at y = e_created_at ey" by blast
    have "pk x = pk y" using idsame [of ex ey] ex ey xy(3) by (simp add: pk_def)
    then show "x = y" using pk' xy(1,2) by (auto simp: pk_ok_def distinct_map inj_on_def)
  qed
  moreover have "distinct (db_emails d')" using pk' by (simp add: pk_ok_def distinct_map)
  ultimately have ids': "ids_ok d'" by (simp add: ids_ok_def distinct_map)
  have final: "(\<exists>e \<in> set (db_emails d). e_id e = e_id job \<and> e_status e = StatusProcessing \<and>
        e_claimed_at e = e_claimed_at job) \<and>
       (\<forall>e' \<in> set (db_emails d'). e_id e' = e_id job \<longrightarrow> e_status e' \<noteq> StatusProcessing) \<and>
       (\<exists>f. fs = [f] \<and> claim_key (f_job f) = claim_key job)" if "fs \<noteq> []"
  proof -
    from that obtain f where "f \<in> set fs" by (cases fs) auto
    from store.finish_notifies [OF pk fin this] have
      n: "fs = [f]" "claim_view d (e_id job) (e_created_at job) = Some (StatusProcessing, e_claimed_at job)"
      "claim_key (f_job f) = claim_key job" "f_status f \<noteq> StatusProcessing"
      "claim_view d' (e_id job) (e_created_at job) = Some (f_status f, None)"
      by (auto simp: claim_key_def)
    from view_Some [OF n(5)] obtain e0 where e0: "e0 \<in> set (db_emails d')" "e_id e0 = e_id job"
      "e_status e0 = f_status f" by blast
    have "e_status e' \<noteq> StatusProcessing" if "e' \<in> set (db_emails d')" "e_id e' = e_id job" for e'
    proof -
      have "e' = e0" using ids' e0 that by (auto simp: ids_ok_def distinct_map inj_on_def)
      with e0 n(4) show ?thesis by simp
    qed
    with view_Some [OF n(2)] n(1,3) show ?thesis by blast
  qed
  show ?thesis using ids' origin final by blast
qed

lemma settle_step:
  assumes inv: "sys_inv s" and t: "e_claimed_at job = Some t" "t < sy_now s"
    and fin: "finish (store_source locked) cfg (sy_now s) rnd job out (sy_db s) = (fs, d)"
    and sub: "set fl \<subseteq> set (sy_flight s)" and di: "distinct (map claim_key fl)"
  shows "sys_inv (s\<lparr>sy_db := d, sy_flight := fl, sy_log := fs @ sy_log s\<rparr>)"
proof -
  let ?s = "s\<lparr>sy_db := d, sy_flight := fl, sy_log := fs @ sy_log s\<rparr>"
  have ids: "ids_ok (sy_db s)" and rinv: "\<forall>e \<in> set (db_emails (sy_db s)). row_inv s e"
    and cl: "\<forall>j \<in> set (held_jobs s). \<exists>t. e_claimed_at j = Some t \<and> t \<le> sy_now s"
    using inv by (simp_all add: sys_inv_def)
  note R = finish_rows [OF ids fin]
  have t': "claim_time job = t" using t by (simp add: claim_time_def)
  have logged: "e_id (f_job f) = e_id job \<and> claim_time (f_job f) = t \<and> e_claimed_at (f_job f) = Some t" if "f \<in> set fs" for f
  proof -
    have "fs \<noteq> []" using that by auto
    then obtain g where "fs = [g]" "claim_key (f_job g) = claim_key job" using R by blast
    with that t show ?thesis by (auto simp: claim_key_def claim_time_def)
  qed
  have rows: "row_inv ?s e'" if e': "e' \<in> set (db_emails d)" for e'
  proof -
    from R e' obtain e where e: "e \<in> set (db_emails (sy_db s))" "e_id e' = e_id e"
      and how: "(e_status e' = e_status e \<and> e_claimed_at e' = e_claimed_at e) \<or>
        (e_id e = e_id job \<and> e_status e = StatusProcessing \<and> e_claimed_at e = e_claimed_at job \<and>
         e_status e' \<noteq> StatusProcessing)" by blast
    have ri: "row_inv s e" using rinv e by blast
    show ?thesis
    proof (cases "e_status e' = StatusProcessing")
      case True
      then have same: "e_status e = StatusProcessing" "e_claimed_at e' = e_claimed_at e" using how by auto
      have "e_id e' = e_id job \<Longrightarrow> fs = []" using R e' True by blast
      moreover have "\<And>j. j \<in> set fl \<Longrightarrow> j \<in> set (sy_flight s)" using sub by blast
      ultimately show ?thesis using ri same True e logged
        by (auto simp: row_inv_def)
    next
      case False
      have "claim_time j < sy_now s" if j: "j \<in> set fl" "e_id j = e_id e" for j
      proof (cases "e_status e = StatusProcessing")
        case True
        with how False have job: "e_id e = e_id job" "e_claimed_at e = Some t" using t by auto
        then have "claim_time j \<le> t" using ri True j sub by (auto simp: row_inv_def)
        with t show ?thesis by simp
      next
        case False
        then show ?thesis using ri j sub by (auto simp: row_inv_def)
      qed
      moreover have "claim_time (f_job f) < sy_now s" if f: "f \<in> set (sy_log s)" "e_id (f_job f) = e_id e" for f
        using ri f by (fastforce simp: row_inv_def split: if_splits)
      ultimately show ?thesis using False e logged t by (auto simp: row_inv_def)
    qed
  qed
  have base: "distinct (map claim_key (map f_job (sy_log s)))"
    using inv by (simp add: sys_inv_def)
  have keys: "distinct (map claim_key (map f_job (sy_log ?s)))"
  proof (cases "fs = []")
    case True
    then show ?thesis using base by simp
  next
    case False
    then obtain f e where f: "fs = [f]" "claim_key (f_job f) = claim_key job"
      and e: "e \<in> set (db_emails (sy_db s))" "e_id e = e_id job" "e_status e = StatusProcessing"
        "e_claimed_at e = e_claimed_at job" using R by blast
    have "claim_key job \<notin> claim_key ` f_job ` set (sy_log s)"
    proof
      assume "claim_key job \<in> claim_key ` f_job ` set (sy_log s)"
      then obtain g where g: "g \<in> set (sy_log s)" "claim_key (f_job g) = claim_key job" by force
      then have "e_id (f_job g) = e_id e" "claim_time (f_job g) = t"
        using e t by (simp_all add: claim_key_def claim_time_def)
      moreover have "row_inv s e" using rinv e(1) by blast
      ultimately show False using e(3,4) t g by (auto simp: row_inv_def)
    qed
    then show ?thesis using base f by (simp add: image_image)
  qed
  have "\<forall>j \<in> set (held_jobs ?s). \<exists>t. e_claimed_at j = Some t \<and> t \<le> sy_now s"
    using cl sub logged t by (fastforce simp: set_held_jobs)
  then show ?thesis using R rows keys di by (simp add: sys_inv_def)
qed

lemma claim_ids_due:
  assumes "i \<in> set (claim_ids now limit locked fair es)"
  shows "\<exists>e \<in> set es. e_id e = i \<and> claimable now e \<and> fair e \<and> i \<notin> locked"
proof -
  let ?es = "sort_key next_key (filter (\<lambda>e. claimable now e \<and> fair e \<and> e_id e \<notin> locked) es)"
  from assms obtain e where "e \<in> set (take limit ?es)" "e_id e = i" by (auto simp: claim_ids_def)
  moreover from this have "e \<in> set ?es" by (blast dest: in_set_takeD)
  ultimately show ?thesis by auto
qed

definition claimed_by :: "time \<Rightarrow> string list \<Rightarrow> db \<Rightarrow> db \<Rightarrow> (error + email list) \<Rightarrow> bool" where
  "claimed_by now ids d d' r =
     ((\<forall>i \<in> set ids. \<exists>e \<in> set (db_emails d). e_id e = i \<and> claimable now e) \<and>
      db_emails d' = sql_update (\<lambda>e. e_id e \<in> set ids) (claim_row now) (db_emails d) \<and>
      (\<forall>js. r = Inr js \<longrightarrow> js = map (claim_row now) (filter (\<lambda>e. e_id e \<in> set ids) (db_emails d))))"

lemma claim_outcome:
  assumes "ClaimDue now limit perProject locked d = (r, d')"
  shows "(db_emails d' = db_emails d \<and> (\<forall>js. r \<noteq> Inr js)) \<or> (\<exists>ids. claimed_by now ids d d' r)"
proof -
  obtain fair where ex: "Exec (claim_stmt now limit locked fair) d = (r, d')"
    using assms by (auto simp: ClaimDue_def split: if_splits)
  let ?d = "snd (pop_fault d)"
  let ?ids = "claim_ids now limit locked (fair ?d) (db_emails d)"
  have due: "\<forall>i \<in> set ?ids. \<exists>e \<in> set (db_emails d). e_id e = i \<and> claimable now e"
    using claim_ids_due by blast
  from ex show ?thesis
  proof (cases rule: Exec_cases)
    case (ran js)
    with due have "claimed_by now ?ids d d' r" by (auto simp: claimed_by_def claim_stmt_def Let_def)
    then show ?thesis by blast
  next
    case (refused m)
    then show ?thesis by simp
  next
    case (unacked m)
    with due have "claimed_by now ?ids d d' r" by (auto simp: claimed_by_def claim_stmt_def Let_def)
    then show ?thesis by blast
  qed
qed

lemma claim_step:
  assumes inv: "sys_inv s" and cl: "ClaimDue (sy_now s) limit perProject locked (sy_db s) = (r, d)"
    and jobs: "jobs = (case r of Inl _ \<Rightarrow> [] | Inr js \<Rightarrow> js)"
  shows "sys_inv (s\<lparr>sy_db := d, sy_flight := take k jobs @ sy_flight s\<rparr>)"
proof -
  consider (unchanged) "db_emails d = db_emails (sy_db s)" "\<forall>js. r \<noteq> Inr js"
    | (took) ids where "claimed_by (sy_now s) ids (sy_db s) d r"
    using claim_outcome [OF cl] by blast
  then show ?thesis
proof cases
  case unchanged
  then have "jobs = []" using jobs by (cases r) auto
  moreover have "row_inv (s\<lparr>sy_db := d\<rparr>) e" if "row_inv s e" for e using that by (simp add: row_inv_def)
  ultimately show ?thesis using inv unchanged(1) by (simp add: sys_inv_def held_jobs_def ids_ok_def)
next
  case (took ids)
  note claimed = took [unfolded claimed_by_def, THEN conjunct1]
    took [unfolded claimed_by_def, THEN conjunct2, THEN conjunct1]
    took [unfolded claimed_by_def, THEN conjunct2, THEN conjunct2, rule_format]
  let ?rows = "db_emails (sy_db s)"
  let ?took = "filter (\<lambda>e. e_id e \<in> set ids) ?rows"
  let ?s = "s\<lparr>sy_db := d, sy_flight := take k jobs @ sy_flight s\<rparr>"
  have ids: "distinct (map e_id ?rows)" and rinv: "\<forall>e \<in> set ?rows. row_inv s e"
    and clm: "\<forall>j \<in> set (held_jobs s). \<exists>t. e_claimed_at j = Some t \<and> t \<le> sy_now s"
    using inv by (simp_all add: sys_inv_def ids_ok_def)
  have free: "e_status e \<noteq> StatusProcessing" if "e \<in> set ?rows" "e_id e \<in> set ids" for e
  proof -
    from claimed(1) that(2) obtain x where x: "x \<in> set ?rows" "e_id x = e_id e" "claimable (sy_now s) x" by blast
    then have "x = e" using ids that(1) by (auto simp: distinct_map inj_on_def)
    with x show ?thesis by (auto simp: claimable_def)
  qed
  have older: "claim_time j < sy_now s" if "e \<in> set ?rows" "e_id e \<in> set ids" "e_id j = e_id e"
    "j \<in> set (held_jobs s)" for e j
    using free [OF that(1,2)] rinv that by (auto simp: row_inv_def set_held_jobs)
  have took: "\<exists>e \<in> set ?rows. e_id e \<in> set ids \<and> j = claim_row (sy_now s) e" if "j \<in> set (take k jobs)" for j
  proof -
    have "j \<in> set jobs" using that by (rule in_set_takeD)
    then show ?thesis using jobs claimed(3) by (cases r) auto
  qed
  have sub: "distinct (map claim_key (take k jobs))"
  proof -
    have eq: "map claim_key (map (claim_row (sy_now s)) es) = map (\<lambda>e. (e_id e, Some (sy_now s))) es" for es
      by (simp add: claim_key_def)
    have "distinct (map (\<lambda>e. (e_id e, Some (sy_now s))) ?took)"
      using ids by (auto simp: distinct_map inj_on_def)
    moreover have "jobs = [] \<or> jobs = map (claim_row (sy_now s)) ?took" using jobs claimed(3) by (cases r) auto
    ultimately have "distinct (map claim_key jobs)" by (metis eq distinct.simps(1) list.map(1))
    then show ?thesis by (metis distinct_take take_map)
  qed
  have disj: "claim_key ` set (take k jobs) \<inter> claim_key ` set (held_jobs s) = {}"
  proof -
    have "claim_key j \<noteq> claim_key h" if "j \<in> set (take k jobs)" "h \<in> set (held_jobs s)" for j h
    proof
      assume eq: "claim_key j = claim_key h"
      from took [OF that(1)] obtain e where e: "e \<in> set ?rows" "e_id e \<in> set ids" "j = claim_row (sy_now s) e" by blast
      with eq have "e_id h = e_id e" "e_claimed_at h = Some (sy_now s)" by (auto simp: claim_key_def)
      then have "e_id h = e_id e" "claim_time h = sy_now s" by (simp_all add: claim_time_def)
      with older [OF e(1,2) _ that(2)] show False by simp
    qed
    then show ?thesis by blast
  qed
  have rows: "row_inv ?s e'" if e': "e' \<in> set (db_emails d)" for e'
  proof -
    from e' claimed(2) obtain e where e: "e \<in> set ?rows"
      and how: "(e_id e \<in> set ids \<and> e' = claim_row (sy_now s) e) \<or> (e_id e \<notin> set ids \<and> e' = e)"
      by (auto simp: set_sql_update)
    from how show ?thesis
    proof
      assume h: "e_id e \<in> set ids \<and> e' = claim_row (sy_now s) e"
      have "claim_time j \<le> sy_now s" if "j \<in> set (take k jobs)" for j
        using took [OF that] by (auto simp: claim_time_def)
      moreover have "claim_time j < sy_now s" if "j \<in> set (held_jobs s)" "e_id j = e_id e" for j
        using older e h that by blast
      ultimately show ?thesis using h by (fastforce simp: row_inv_def set_held_jobs)
    next
      assume h: "e_id e \<notin> set ids \<and> e' = e"
      then have "e_id j \<noteq> e_id e" if "j \<in> set (take k jobs)" for j using took [OF that] by auto
      moreover have "row_inv s e" using rinv e by blast
      ultimately show ?thesis using h by (auto simp: row_inv_def)
    qed
  qed
  have "\<forall>j \<in> set (held_jobs ?s). \<exists>t. e_claimed_at j = Some t \<and> t \<le> sy_now s"
    using clm took by (fastforce simp: set_held_jobs)
  moreover have "distinct (map claim_key (sy_flight ?s))" "distinct (map claim_key (map f_job (sy_log ?s)))"
    using inv sub disj by (auto simp: sys_inv_def held_jobs_def image_Un image_image)
  moreover have "ids_ok d" using claimed(2) ids by (simp add: ids_ok_def map_sql_update)
  ultimately show ?thesis using rows by (simp add: sys_inv_def)
qed
qed

lemma recover_step:
  assumes inv: "sys_inv s" and old: "olderThan \<le> sy_now s"
    and rec: "RecoverStuck olderThan (sy_now s) (sy_db s) = (r, d)"
  shows "sys_inv (s\<lparr>sy_db := d\<rparr>)"
proof (rule quiet_update [OF inv])
  let ?p = "stuck olderThan (sy_now s) (snd (pop_fault (sy_db s)))"
  show "db_emails d = db_emails (sy_db s) \<or>
        db_emails d = sql_update ?p (recover_row (sy_now s)) (db_emails (sy_db s))"
    using rec unfolding RecoverStuck_def by (cases rule: Exec_cases) (auto simp: update_emails_def)
  fix e assume "?p e" and "e_status e = StatusProcessing"
  then show "claim_time e < sy_now s"
    using old by (auto simp: stuck_def claim_time_def split: option.splits)
qed simp

lemma poll_step:
  assumes inv: "sys_inv s" and timeout: "0 \<le> w_claim_timeout cfg"
    and poll: "pollOnce (store_source locked) cfg (sy_now s) free shut marked (sy_db s) = (mark, jobs, d)"
  shows "sys_inv (s\<lparr>sy_db := d, sy_flight := take k jobs @ sy_flight s\<rparr>)"
proof -
  obtain r1 d1 where r1: "poll_recover (store_source locked) cfg (sy_now s) marked (sy_db s) = (r1, d1)"
    by (cases "poll_recover (store_source locked) cfg (sy_now s) marked (sy_db s)") auto
  let ?s1 = "s\<lparr>sy_db := d1\<rparr>"
  have inv1: "sys_inv ?s1"
  proof (cases "w_poll_interval cfg \<le> sy_now s - marked")
    case True
    with r1 have "RecoverStuck (sy_now s - w_claim_timeout cfg) (sy_now s) (sy_db s) = (r1, d1)"
      by (simp add: poll_recover_def)
    with timeout show ?thesis by (intro recover_step [OF inv, of "sy_now s - w_claim_timeout cfg" r1]) simp_all
  next
    case False
    with r1 have "d1 = sy_db s" by (simp add: poll_recover_def)
    with inv show ?thesis by simp
  qed
  show ?thesis
  proof (cases "(isl r1 \<and> shut) \<or> free \<le> 0")
    case True
    with poll r1 have "jobs = [] \<and> d = d1" by (auto simp: pollOnce_def Let_def split: if_splits)
    with inv1 show ?thesis by simp
  next
    case False
    obtain r2 d2 where r2: "ClaimDue (sy_now s) (nat free) (w_max_per_project cfg) locked d1 = (r2, d2)"
      by (cases "ClaimDue (sy_now s) (nat free) (w_max_per_project cfg) locked d1") auto
    from poll False r2 r1 have jobs: "jobs = (case r2 of Inl _ \<Rightarrow> [] | Inr js \<Rightarrow> js) \<and> d = d2"
      by (auto simp: pollOnce_def Let_def split: sum.splits)
    have "sys_inv (?s1\<lparr>sy_db := d2, sy_flight := take k jobs @ sy_flight ?s1\<rparr>)"
      by (rule claim_step [OF inv1]) (use r2 jobs in simp_all)
    then show ?thesis using jobs by simp
  qed
qed

section \<open>The invariant, and what it gives\<close>

lemma tick_step: "sys_inv s \<Longrightarrow> sy_now s \<le> t \<Longrightarrow> sys_inv (s\<lparr>sy_now := t\<rparr>)"
  by (force simp: sys_inv_def row_inv_def held_jobs_def split: if_splits)

lemma read_step: "sys_inv s \<Longrightarrow> sys_inv (s\<lparr>sy_read := rows\<rparr>)"
  by (simp add: sys_inv_def row_inv_def held_jobs_def)

lemma same_rows_step: "sys_inv s \<Longrightarrow> db_emails d = db_emails (sy_db s) \<Longrightarrow> sys_inv (s\<lparr>sy_db := d\<rparr>)"
  by (rule quiet_step) (auto simp: sys_inv_def ids_ok_def)

lemma step_inv:
  assumes timeout: "0 \<le> w_claim_timeout cfg" and st: "step cfg s s'" and inv: "sys_inv s"
  shows "sys_inv s'"
  using st
proof cases
  case (tick t)
  with inv tick_step show ?thesis by simp
next
  case (fail fs)
  with inv same_rows_step show ?thesis by simp
next
  case (assign as)
  with inv same_rows_step show ?thesis by simp
next
  case (accept e r d)
  with inv accept_rows put_rows show ?thesis by simp
next
  case (accept_within e hourly daily r d)
  with inv accept_rows put_within_rows show ?thesis by simp
next
  case (poll locked free shut marked mark jobs d k)
  with inv timeout poll_step show ?thesis by simp
next
  case (deliver job t locked rnd out fs d)
  have keys: "distinct (map claim_key (sy_flight s))" using inv by (simp add: sys_inv_def)
  show ?thesis unfolding deliver(1)
  proof (rule settle_step [OF inv deliver(3,4,5)])
    show "set (remove1 job (sy_flight s)) \<subseteq> set (sy_flight s)" by (rule set_remove1_subset)
    show "distinct (map claim_key (remove1 job (sy_flight s)))"
      using keys by (auto simp: distinct_map intro: inj_on_subset)
  qed
next
  case (read_row row)
  with inv read_step show ?thesis by simp
next
  case (forget rows)
  with inv read_step show ?thesis by simp
next
  case (complete row t locked rnd out fs d)
  have keys: "distinct (map claim_key (sy_flight s))" using inv by (simp add: sys_inv_def)
  have "sys_inv (s\<lparr>sy_db := d, sy_flight := sy_flight s, sy_log := fs @ sy_log s\<rparr>)"
    by (rule settle_step [OF inv complete(3,4) complete(5) [unfolded Complete_def]]) (use keys in simp_all)
  with complete(1) show ?thesis by simp
next
  case (handed_back handed i c msg r d)
  obtain r0 where "Exec (update_emails (handed_before i c handed) (requeue_row (sy_now s) msg)) (sy_db s) = (r0, d)"
    using handed_back(3) rows_affected_db by (fastforce simp: RequeueHanded_def)
  from quiet_update [OF inv exec_update_emails [OF this]] handed_back(2) show ?thesis
    unfolding handed_back(1) by (force simp: handed_before_def claim_time_def split: option.splits)
next
  case (die alive)
  have "distinct (map claim_key (sy_flight s))" using inv by (simp add: sys_inv_def)
  then show ?thesis unfolding die by (intro shrink_step [OF inv]) (auto simp: distinct_map_filter)
next
  case (reset p i rcpts r d)
  obtain r0 where "Exec (update_emails (retryable p i) (reset_row (sy_now s) rcpts)) (sy_db s) = (r0, d)"
    using reset(2) rows_affected_db by (fastforce simp: Reset_def)
  from quiet_update [OF inv exec_update_emails [OF this]] show ?thesis
    unfolding reset(1) by (simp add: retryable_def)
next
  case (cancel p i c r d)
  obtain r0 where "Exec (update_emails (cancellable p i c) cancel_row) (sy_db s) = (r0, d)"
    using cancel(2) rows_affected_db by (fastforce simp: Cancel_def)
  from quiet_update [OF inv exec_update_emails [OF this]] show ?thesis
    unfolding cancel(1) by (auto simp: cancellable_def)
next
  case (purge before r d)
  from exec_delete_emails [OF purge(2) [unfolded PurgeOlderThan_def]] show ?thesis
    unfolding purge(1) by (rule quiet_delete [OF inv])
next
  case (purge_project p before r d)
  from exec_delete_emails [OF purge_project(2) [unfolded PurgeProjectOlderThan_def]] show ?thesis
    unfolding purge_project(1) by (rule quiet_delete [OF inv])
next
  case (purge_address p addr r d)
  from exec_delete_emails [OF purge_address(2) [unfolded PurgeForAddress_def]] show ?thesis
    unfolding purge_address(1) by (rule quiet_delete [OF inv])
qed

lemma reachable_inv:
  assumes "reachable cfg s" and "0 \<le> w_claim_timeout cfg"
  shows "sys_inv s"
  using assms by (induction rule: reachable.induct) (simp_all add: sys_inv_init step_inv)

definition settled :: "email \<Rightarrow> bool" where
  "settled e = (e_status e = StatusSent \<or> e_status e = StatusSuppressed \<or> e_status e = StatusCancelled)"

text \<open>A row no predicate of the step picks stays as it is; deletion may drop it.\<close>

definition kept :: "email \<Rightarrow> db \<Rightarrow> bool" where
  "kept e d = (e \<in> set (db_emails d) \<or> e_id e \<notin> e_id ` set (db_emails d))"

lemma kept_update:
  assumes "e \<in> set (db_emails d)" and "db_emails d' = db_emails d \<or> db_emails d' = sql_update p f (db_emails d)"
    and "\<not> p e"
  shows "e \<in> set (db_emails d')"
  using assms by (auto simp: set_sql_update)

lemma kept_claim:
  assumes ids: "ids_ok d" and e: "e \<in> set (db_emails d)" "settled e"
    and cl: "ClaimDue now limit perProject locked d = (r, d')"
  shows "e \<in> set (db_emails d')"
  using claim_outcome [OF cl]
proof
  assume "db_emails d' = db_emails d \<and> (\<forall>js. r \<noteq> Inr js)"
  with e show ?thesis by simp
next
  assume "\<exists>ids. claimed_by now ids d d' r"
  then obtain ids where c: "claimed_by now ids d d' r" by blast
  have "e_id e \<notin> set ids"
  proof
    assume "e_id e \<in> set ids"
    with c obtain x where "x \<in> set (db_emails d)" "e_id x = e_id e" "claimable now x"
      by (auto simp: claimed_by_def)
    moreover from this ids e have "x = e" by (auto simp: ids_ok_def distinct_map inj_on_def)
    ultimately show False using e(2) by (auto simp: claimable_def settled_def)
  qed
  with c e(1) show ?thesis by (auto simp: claimed_by_def set_sql_update)
qed

lemma kept_poll:
  assumes ids: "ids_ok d" and e: "e \<in> set (db_emails d)" "settled e"
    and poll: "pollOnce (store_source locked) cfg now free shut marked d = (mark, jobs, d')"
  shows "e \<in> set (db_emails d')"
proof -
  obtain r1 d1 where r1: "poll_recover (store_source locked) cfg now marked d = (r1, d1)"
    by (cases "poll_recover (store_source locked) cfg now marked d") auto
  have "ids_ok d1 \<and> e \<in> set (db_emails d1)"
  proof (cases "w_poll_interval cfg \<le> now - marked")
    case True
    with r1 have "RecoverStuck (now - w_claim_timeout cfg) now d = (r1, d1)" by (simp add: poll_recover_def)
    then have "db_emails d1 = db_emails d \<or> db_emails d1 =
        sql_update (stuck (now - w_claim_timeout cfg) now (snd (pop_fault d))) (recover_row now) (db_emails d)"
      unfolding RecoverStuck_def by (cases rule: Exec_cases) (auto simp: update_emails_def)
    with ids e show ?thesis by (auto simp: ids_ok_def map_sql_update set_sql_update stuck_def settled_def)
  next
    case False
    with r1 ids e show ?thesis by (auto simp: poll_recover_def)
  qed
  moreover have "d' = d1 \<or> (\<exists>r. ClaimDue now (nat free) (w_max_per_project cfg) locked d1 = (r, d'))"
    using poll r1 by (auto simp: pollOnce_def Let_def split: if_splits prod.splits sum.splits)
  ultimately show ?thesis using e(2) kept_claim by blast
qed

lemma kept_finish:
  assumes "finish (store_source locked) cfg now rnd job out d = (fs, d')"
    and "e \<in> set (db_emails d)" "settled e"
  shows "e \<in> set (db_emails d')"
proof -
  obtain f where "db_emails d' = db_emails d \<or>
      db_emails d' = sql_update (held_under (e_id job) (e_created_at job) (e_claimed_at job)) f (db_emails d)"
    using finish_tables [OF assms(1)] by (elim exE conjE)
  then show ?thesis
    by (rule kept_update [OF assms(2)]) (use assms(3) in \<open>auto simp: held_under_def settled_def\<close>)
qed

lemma kept_delete:
  assumes ids: "ids_ok d" and e: "e \<in> set (db_emails d)"
    and dd: "db_emails d' = db_emails d \<or> db_emails d' = sql_delete p (db_emails d)"
  shows "kept e d'"
proof (cases "e \<in> set (db_emails d')")
  case True
  then show ?thesis by (simp add: kept_def)
next
  case False
  with e dd have del: "db_emails d' = sql_delete p (db_emails d)" by metis
  with False e have "p e" by simp
  have "x = e" if "x \<in> set (db_emails d)" "e_id x = e_id e" for x
    using ids that e unfolding ids_ok_def distinct_map by (meson inj_onD)
  with del \<open>p e\<close> have "e_id e \<notin> e_id ` set (db_emails d')" by (metis (mono_tags, lifting) imageE mem_Collect_eq set_sql_delete)
  then show ?thesis by (simp add: kept_def)
qed

lemma settled_step:
  assumes st: "step cfg s s'" and inv: "sys_inv s" and e: "e \<in> set (db_emails (sy_db s))" "settled e"
  shows "kept e (sy_db s')"
  using st
proof cases
  case (accept x r d)
  with put_rows [OF accept(4)] e show ?thesis by (auto simp: kept_def)
next
  case (accept_within x hourly daily r d)
  with put_within_rows [OF accept_within(4)] e show ?thesis by (auto simp: kept_def)
next
  case (poll locked free shut marked mark jobs d k)
  with kept_poll [OF _ e poll(2)] inv show ?thesis by (simp add: kept_def sys_inv_def)
next
  case (deliver job t locked rnd out fs d)
  from kept_finish [OF deliver(5) e] show ?thesis unfolding deliver(1) kept_def by simp
next
  case (complete row t locked rnd out fs d)
  from kept_finish [OF complete(5) [unfolded Complete_def] e] show ?thesis unfolding complete(1) kept_def by simp
next
  case (handed_back handed i c msg r d)
  obtain r0 where "Exec (update_emails (handed_before i c handed) (requeue_row (sy_now s) msg)) (sy_db s) = (r0, d)"
    using handed_back(3) rows_affected_db by (fastforce simp: RequeueHanded_def)
  from kept_update [OF e(1) exec_update_emails [OF this]] e(2) show ?thesis
    unfolding handed_back(1) by (auto simp: kept_def handed_before_def settled_def)
next
  case (reset p i rcpts r d)
  obtain r0 where "Exec (update_emails (retryable p i) (reset_row (sy_now s) rcpts)) (sy_db s) = (r0, d)"
    using reset(2) rows_affected_db by (fastforce simp: Reset_def)
  from kept_update [OF e(1) exec_update_emails [OF this]] e(2) show ?thesis
    unfolding reset(1) by (auto simp: kept_def retryable_def settled_def)
next
  case (cancel p i c r d)
  obtain r0 where "Exec (update_emails (cancellable p i c) cancel_row) (sy_db s) = (r0, d)"
    using cancel(2) rows_affected_db by (fastforce simp: Cancel_def)
  from kept_update [OF e(1) exec_update_emails [OF this]] e(2) show ?thesis
    unfolding cancel(1) by (auto simp: kept_def cancellable_def settled_def)
next
  case (purge before r d)
  have "ids_ok (sy_db s)" using inv by (simp add: sys_inv_def)
  from kept_delete [OF this e(1) exec_delete_emails [OF purge(2) [unfolded PurgeOlderThan_def]]]
  show ?thesis unfolding purge(1) by simp
next
  case (purge_project p before r d)
  have "ids_ok (sy_db s)" using inv by (simp add: sys_inv_def)
  from kept_delete [OF this e(1) exec_delete_emails [OF purge_project(2) [unfolded PurgeProjectOlderThan_def]]]
  show ?thesis unfolding purge_project(1) by simp
next
  case (purge_address p addr r d)
  have "ids_ok (sy_db s)" using inv by (simp add: sys_inv_def)
  from kept_delete [OF this e(1) exec_delete_emails [OF purge_address(2) [unfolded PurgeForAddress_def]]]
  show ?thesis unfolding purge_address(1) by simp
qed (use e in \<open>simp_all add: kept_def\<close>)

section \<open>A settled message stays settled\<close>

definition ids_of :: "db \<Rightarrow> string set" where
  "ids_of d = e_id ` set (db_emails d)"

lemma ids_of_other [simp]:
  "ids_of (d\<lparr>db_faults := fs\<rparr>) = ids_of d" "ids_of (d\<lparr>db_assignments := as\<rparr>) = ids_of d"
  by (simp_all add: ids_of_def)

lemma ids_of_update: "(\<And>e. e_id (f e) = e_id e) \<Longrightarrow>
    db_emails d' = db_emails d \<or> db_emails d' = sql_update p f (db_emails d) \<Longrightarrow> ids_of d' = ids_of d"
  unfolding ids_of_def by (metis list.set_map map_sql_update)

lemma ids_of_claim:
  assumes "ClaimDue now limit perProject locked d = (r, d')"
  shows "ids_of d' = ids_of d"
  using claim_outcome [OF assms]
proof (elim disjE exE conjE)
  fix ids
  assume "claimed_by now ids d d' r"
  then show ?thesis by (intro ids_of_update [of "claim_row now" d' d]) (auto simp: claimed_by_def)
qed (simp add: ids_of_def)

lemma ids_of_poll:
  assumes "pollOnce (store_source locked) cfg now free shut marked d = (mark, jobs, d')"
  shows "ids_of d' = ids_of d"
proof -
  obtain r1 d1 where r1: "poll_recover (store_source locked) cfg now marked d = (r1, d1)"
    by (cases "poll_recover (store_source locked) cfg now marked d") auto
  have "db_emails d1 = db_emails d \<or> db_emails d1 =
        sql_update (stuck (now - w_claim_timeout cfg) now (snd (pop_fault d))) (recover_row now) (db_emails d)"
  proof (cases "w_poll_interval cfg \<le> now - marked")
    case True
    with r1 have "RecoverStuck (now - w_claim_timeout cfg) now d = (r1, d1)" by (simp add: poll_recover_def)
    then show ?thesis
      unfolding RecoverStuck_def by (cases rule: Exec_cases) (auto simp: update_emails_def)
  qed (use r1 in \<open>simp add: poll_recover_def\<close>)
  then have "ids_of d1 = ids_of d" by (rule ids_of_update [rotated]) simp
  moreover have "d' = d1 \<or> (\<exists>r. ClaimDue now (nat free) (w_max_per_project cfg) locked d1 = (r, d'))"
    using assms r1 by (auto simp: pollOnce_def Let_def split: if_splits prod.splits sum.splits)
  ultimately show ?thesis using ids_of_claim by metis
qed

lemma ids_of_finish:
  assumes "finish (store_source locked) cfg now rnd job out d = (fs, d')"
  shows "ids_of d' = ids_of d"
  using finish_tables [OF assms] ids_of_update by metis

lemma ids_of_affected:
  "rows_affected (Exec (update_emails p f) d) = (r, d') \<Longrightarrow> (\<And>e. e_id (f e) = e_id e) \<Longrightarrow> ids_of d' = ids_of d"
  using rows_affected_db exec_update_emails ids_of_update by metis

lemma fresh_subset: "x \<notin> C \<Longrightarrow> A \<subseteq> insert x B \<Longrightarrow> A' = A \<Longrightarrow> A' \<subseteq> B \<union> - C"
  by blast

text \<open>Only an accept adds an id, and it is one the log does not know.\<close>

lemma step_ids:
  assumes "step cfg s s'"
  shows "ids_of (sy_db s') \<subseteq> ids_of (sy_db s) \<union> - e_id ` f_job ` set (sy_log s)"
  using assms
proof cases
  case (accept e r d)
  have "e_id e \<notin> e_id ` f_job ` set (sy_log s)" using accept(2) by blast
  moreover have "ids_of d \<subseteq> insert (e_id e) (ids_of (sy_db s))"
    using put_rows [OF accept(4)] by (auto simp: ids_of_def)
  moreover have "ids_of (sy_db s') = ids_of d" using accept(1) by simp
  ultimately show ?thesis by (rule fresh_subset)
next
  case (accept_within e hourly daily r d)
  have "e_id e \<notin> e_id ` f_job ` set (sy_log s)" using accept_within(2) by blast
  moreover have "ids_of d \<subseteq> insert (e_id e) (ids_of (sy_db s))"
    using put_within_rows [OF accept_within(4)] by (auto simp: ids_of_def)
  moreover have "ids_of (sy_db s') = ids_of d" using accept_within(1) by simp
  ultimately show ?thesis by (rule fresh_subset)
next
  case (purge before r d)
  from exec_delete_emails [OF purge(2) [unfolded PurgeOlderThan_def]] purge(1) show ?thesis
    by (auto simp: ids_of_def)
next
  case (purge_project p before r d)
  from exec_delete_emails [OF purge_project(2) [unfolded PurgeProjectOlderThan_def]] purge_project(1)
  show ?thesis by (auto simp: ids_of_def)
next
  case (purge_address p addr r d)
  from exec_delete_emails [OF purge_address(2) [unfolded PurgeForAddress_def]] purge_address(1)
  show ?thesis by (auto simp: ids_of_def)
qed (auto simp: ids_of_poll ids_of_finish Complete_def RequeueHanded_def Reset_def Cancel_def
      dest: ids_of_affected)

section \<open>What is announced, and how often\<close>

definition terminal :: "final \<Rightarrow> bool" where
  "terminal f = (f_status f = StatusSent \<or> f_status f = StatusSuppressed)"

definition rows_settled :: "sys \<Rightarrow> bool" where
  "rows_settled s = (\<forall>f \<in> set (sy_log s). terminal f \<longrightarrow>
     (\<forall>e \<in> set (db_emails (sy_db s)). e_id e = e_id (f_job f) \<longrightarrow> settled e))"

fun final_order :: "final list \<Rightarrow> bool" where
  "final_order [] = True"
| "final_order (g # fs) =
     ((\<forall>f \<in> set fs. terminal f \<longrightarrow> e_id (f_job f) \<noteq> e_id (f_job g)) \<and> final_order fs)"

lemma old_finals_settled:
  assumes st: "step cfg s s'" and inv: "sys_inv s" "sys_inv s'" and rs: "rows_settled s"
    and f: "f \<in> set (sy_log s)" "terminal f"
    and e': "e' \<in> set (db_emails (sy_db s'))" "e_id e' = e_id (f_job f)"
  shows "settled e'"
proof -
  have "e_id e' \<in> ids_of (sy_db s')" using e'(1) by (simp add: ids_of_def)
  moreover have "e_id e' \<in> e_id ` f_job ` set (sy_log s)" using e'(2) f(1) by simp
  ultimately have "e_id e' \<in> ids_of (sy_db s)" using step_ids [OF st] by blast
  then obtain e where e: "e \<in> set (db_emails (sy_db s))" "e_id e = e_id e'" by (auto simp: ids_of_def)
  with rs f e'(2) have s: "settled e" by (simp add: rows_settled_def)
  from settled_step [OF st inv(1) e(1) s] have "e \<in> set (db_emails (sy_db s'))"
    using e(2) e'(1) by (auto simp: kept_def)
  moreover have "inj_on e_id (set (db_emails (sy_db s')))"
    using inv(2) by (simp add: sys_inv_def ids_ok_def distinct_map)
  ultimately have "e = e'" using e(2) e'(1) by (meson inj_onD)
  with s show ?thesis by simp
qed

lemma new_final:
  assumes inv: "sys_inv s" and rs: "rows_settled s"
    and fin: "finish (store_source locked) cfg now rnd job out (sy_db s) = (fs, d)"
    and ids: "ids_ok d" and g: "g \<in> set fs"
  shows "fs = [g] \<and> (\<forall>f \<in> set (sy_log s). terminal f \<longrightarrow> e_id (f_job f) \<noteq> e_id (f_job g)) \<and>
    (\<forall>e \<in> set (db_emails d). terminal g \<longrightarrow> e_id e = e_id (f_job g) \<longrightarrow> settled e)"
proof -
  have pk: "pk_ok (sy_db s)" using inv by (simp add: sys_inv_def ids_ok_pk_ok)
  from store.finish_notifies [OF pk fin g] have n: "fs = [g]" "e_id (f_job g) = e_id job"
    "claim_view (sy_db s) (e_id job) (e_created_at job) = Some (StatusProcessing, e_claimed_at job)"
    "claim_view d (e_id job) (e_created_at job) = Some (f_status g, None)" by auto
  obtain x where x: "x \<in> set (db_emails (sy_db s))" "e_id x = e_id job" "e_status x = StatusProcessing"
    using n(3) row_at_Some by (fastforce simp: claim_view_def)
  obtain y where y: "y \<in> set (db_emails d)" "e_id y = e_id job" "e_status y = f_status g"
    using n(4) row_at_Some by (fastforce simp: claim_view_def)
  have "e_id (f_job f) \<noteq> e_id (f_job g)" if "f \<in> set (sy_log s)" "terminal f" for f
  proof
    assume "e_id (f_job f) = e_id (f_job g)"
    then have "e_id x = e_id (f_job f)" using x(2) n(2) by simp
    then have "settled x" using rs [unfolded rows_settled_def, THEN bspec, OF that(1)] that(2) x(1) by simp
    with x(3) show False by (simp add: settled_def)
  qed
  moreover have "settled e" if "e \<in> set (db_emails d)" "terminal g" "e_id e = e_id (f_job g)" for e
  proof -
    have "e = y" using ids that n(2) y(1,2) unfolding ids_ok_def distinct_map by (metis inj_onD)
    with y(3) that(2) show ?thesis by (auto simp: terminal_def settled_def)
  qed
  ultimately show ?thesis using n(1) by blast
qed

lemma step_log:
  assumes "step cfg s s'"
  shows "sy_log s' = sy_log s \<or>
    (\<exists>locked now rnd job out fs. finish (store_source locked) cfg now rnd job out (sy_db s) = (fs, sy_db s') \<and>
      sy_log s' = fs @ sy_log s)"
  using assms
proof cases
  case (deliver job t locked rnd out fs d)
  then show ?thesis by auto
next
  case (complete row t locked rnd out fs d)
  then show ?thesis by (auto simp: Complete_def)
qed simp_all

lemma announced_step:
  assumes st: "step cfg s s'" and inv: "sys_inv s" "sys_inv s'" and rs: "rows_settled s" "final_order (sy_log s)"
  shows "rows_settled s' \<and> final_order (sy_log s')"
proof -
  note old = old_finals_settled [OF st inv rs(1)]
  from step_log [OF st] show ?thesis
  proof
    assume "sy_log s' = sy_log s"
    with old rs(2) show ?thesis by (simp add: rows_settled_def)
  next
    assume "\<exists>locked now rnd job out fs. finish (store_source locked) cfg now rnd job out (sy_db s) = (fs, sy_db s') \<and>
      sy_log s' = fs @ sy_log s"
    then obtain locked now rnd job out fs where
      fin: "finish (store_source locked) cfg now rnd job out (sy_db s) = (fs, sy_db s')"
      and log: "sy_log s' = fs @ sy_log s" by blast
    have ids: "ids_ok (sy_db s')" using inv(2) by (simp add: sys_inv_def)
    show ?thesis
    proof (cases fs)
      case Nil
      with log old rs(2) show ?thesis by (simp add: rows_settled_def)
    next
      case (Cons g gs)
      then have "g \<in> set fs" by simp
      note new = new_final [OF inv(1) rs(1) fin ids this]
      then have "sy_log s' = g # sy_log s" using log by simp
      with new old rs(2) show ?thesis by (auto simp: rows_settled_def)
    qed
  qed
qed

lemma reachable_announced:
  assumes "reachable cfg s" and "0 \<le> w_claim_timeout cfg"
  shows "sys_inv s \<and> rows_settled s \<and> final_order (sy_log s)"
  using assms
proof (induction rule: reachable.induct)
  case (start t)
  show ?case by (simp add: sys_inv_init) (simp add: rows_settled_def init_sys_def)
next
  case (next_step s s')
  then show ?case using announced_step step_inv by blast
qed

lemma final_order_split: "final_order (xs @ f # ys) \<Longrightarrow> terminal f' \<Longrightarrow> f' \<in> set ys \<Longrightarrow> e_id (f_job f') \<noteq> e_id (f_job f)"
  by (induction xs) auto

lemma one_of_distinct:
  assumes "distinct (map k xs)" and "\<And>a b. h a \<Longrightarrow> h b \<Longrightarrow> k a = k b"
  shows "length (filter h xs) \<le> 1"
  using assms(1)
proof (induction xs)
  case (Cons x xs)
  show ?case
  proof (cases "h x")
    case True
    have "filter h xs = []"
      unfolding filter_empty_conv using Cons.prems assms(2) [OF True] by auto
    with True show ?thesis by simp
  qed (use Cons in simp)
qed simp

section \<open>Properties\<close>

text \<open>
  C4: Final outcomes are announced once.  In every reachable state of the queue, whatever steps
  nodes, workers, relay reports, operators and the clock took and whichever statements failed,
  each claim of a message was announced at most once, and once a message was announced sent or
  suppressed nothing was ever announced for it again.
\<close>
theorem announced_once:
  assumes "reachable cfg s" and "0 \<le> w_claim_timeout cfg"
  shows "distinct (map (\<lambda>f. claim_key (f_job f)) (sy_log s)) \<and>
    (\<forall>xs g ys f. sy_log s = xs @ g # ys \<and> f \<in> set ys \<and> terminal f \<longrightarrow> e_id (f_job f) \<noteq> e_id (f_job g))"
proof -
  note r = reachable_announced [OF assms]
  have "distinct (map claim_key (map f_job (sy_log s)))" using r by (simp add: sys_inv_def)
  moreover have "map claim_key (map f_job (sy_log s)) = map (\<lambda>f. claim_key (f_job f)) (sy_log s)" by simp
  ultimately have "distinct (map (\<lambda>f. claim_key (f_job f)) (sy_log s))" by metis
  then show ?thesis using r final_order_split by metis
qed

text \<open>
  C5: At most one worker can write.  In every reachable state, of all the jobs any worker still
  carries for one message, at most one is held under the claim the row shows, so at most one of
  their outcomes can be written, and the others are dropped.
\<close>
theorem one_writer:
  assumes "reachable cfg s" and "0 \<le> w_claim_timeout cfg"
  shows "length (filter (\<lambda>j. e_id j = i \<and> (\<exists>e \<in> set (db_emails (sy_db s)).
      held_under (e_id j) (e_created_at j) (e_claimed_at j) e)) (sy_flight s)) \<le> 1"
proof -
  let ?h = "\<lambda>j. e_id j = i \<and> (\<exists>e \<in> set (db_emails (sy_db s)). held_under (e_id j) (e_created_at j) (e_claimed_at j) e)"
  have inv: "sys_inv s" using reachable_inv [OF assms] .
  then have dist: "distinct (map claim_key (sy_flight s))" by (simp add: sys_inv_def)
  have inj: "inj_on e_id (set (db_emails (sy_db s)))" using inv by (simp add: sys_inv_def ids_ok_def distinct_map)
  have same: "claim_key j = claim_key k" if jk: "?h j" "?h k" for j k
  proof -
    obtain e x where "e \<in> set (db_emails (sy_db s))" "held_under (e_id j) (e_created_at j) (e_claimed_at j) e"
      "x \<in> set (db_emails (sy_db s))" "held_under (e_id k) (e_created_at k) (e_claimed_at k) x"
      using jk by blast
    moreover from this have "e = x" using inj jk by (metis held_under_def inj_onD)
    ultimately show ?thesis using jk by (simp add: held_under_def claim_key_def)
  qed
  show ?thesis by (rule one_of_distinct [OF dist]) (rule same)
qed

subsection \<open>A run\<close>

definition queued_email :: email where
  "queued_email = zero_email\<lparr>e_id := ''m1'', e_status := StatusQueued, e_next_attempt_at := Some 0,
     e_created_at := 0, e_max_attempts := 3\<rparr>"

definition run_job :: email where "run_job = claim_row 0 (put_row queued_email)"

definition run_accepted :: sys where
  "run_accepted = (init_sys 0)\<lparr>sy_db := empty_db\<lparr>db_emails := [put_row queued_email],
     db_volume := [\<lparr>v_project = [], v_minute = 0, v_accepted = 1\<rparr>]\<rparr>\<rparr>"

definition run_claimed :: sys where
  "run_claimed = run_accepted\<lparr>sy_db := (sy_db run_accepted)\<lparr>db_emails := [run_job]\<rparr>, sy_flight := [run_job]\<rparr>"

definition run_sent :: sys where
  "run_sent = run_claimed\<lparr>sy_now := 10,
     sy_db := (sy_db run_claimed)\<lparr>db_emails := [finalize_row StatusSent [] ''srv'' (Some 10) run_job]\<rparr>,
     sy_flight := [], sy_log := [\<lparr>f_job = run_job\<lparr>e_sent_at := Some 10\<rparr>, f_status = StatusSent, f_error = [], f_refused = []\<rparr>]\<rparr>"

lemmas run_defs = run_accepted_def run_claimed_def run_sent_def init_sys_def empty_db_def
lemmas row_defs = run_job_def queued_email_def zero_email_def claim_row_def put_row_def finalize_row_def

lemma run_accepts: "step sample_config (init_sys 0) run_accepted"
proof -
  have "Put 0 queued_email (sy_db (init_sys 0)) = (Inr (), sy_db run_accepted)"
    by (simp add: Put_def run_defs created_or_def queued_email_def zero_email_def zero_time_def Exec_no_fault
        put_stmt_def flat_def Let_def date_trunc_minute_def)
  from step.accept [of queued_email "init_sys 0" "Inr ()" "sy_db run_accepted" sample_config] this
  show ?thesis by (simp add: run_defs queued_email_def)
qed

lemma run_claims: "step sample_config run_accepted run_claimed"
proof -
  have "pollOnce (store_source {}) sample_config 0 2 False 0 (sy_db run_accepted) = (0, [run_job], sy_db run_claimed)"
    by (simp add: pollOnce_def poll_recover_def sample_config_def ClaimDue_def Exec_no_fault claim_stmt_def
        claim_ids_def fair_share_def row_number_def busy_def claimable_def run_defs row_defs Let_def sql_update_def)
  from step.poll [of "{}" sample_config run_accepted 2 False 0 0 "[run_job]" "sy_db run_claimed" 1] this
  show ?thesis by (simp add: run_defs)
qed

lemma run_delivers: "step sample_config (run_claimed\<lparr>sy_now := 10\<rparr>) run_sent"
proof -
  have "finish (store_source {}) sample_config 10 0 run_job (DoneVia ''srv'') (sy_db run_claimed) =
      (sy_log run_sent, sy_db run_sent)"
    by (simp add: finish_def settle_def Finalize_def outcome_defs err_text_def Exec_no_fault update_emails_def
        rows_affected_def write_ok_def notifyRefused_def held_under_def sql_update_def run_defs row_defs Let_def)
  from step.deliver [of run_job "run_claimed\<lparr>sy_now := 10\<rparr>" 0 "{}" sample_config 0 "DoneVia ''srv''"
      "sy_log run_sent" "sy_db run_sent"] this
  show ?thesis by (simp add: run_defs) (simp add: row_defs)
qed

lemma run_reachable: "reachable sample_config run_sent"
proof -
  have "reachable sample_config run_claimed"
    using run_accepts run_claims reachable.start reachable.next_step by blast
  moreover have "step sample_config run_claimed (run_claimed\<lparr>sy_now := 10\<rparr>)"
    by (rule step.tick) (simp add: run_defs)
  ultimately show ?thesis using run_delivers reachable.next_step by blast
qed

lemma announced_once_witness:
  "distinct (map (\<lambda>f. claim_key (f_job f)) (sy_log run_sent)) \<and> length (sy_log run_sent) = 1"
  using announced_once [OF run_reachable] by (simp add: run_sent_def sample_config_def)

lemma one_writer_witness:
  "length (filter (\<lambda>j. e_id j = ''m1'' \<and> (\<exists>e \<in> set (db_emails (sy_db run_sent)).
      held_under (e_id j) (e_created_at j) (e_claimed_at j) e)) (sy_flight run_sent)) \<le> 1"
  using one_writer [OF run_reachable, of "''m1''"] by (simp add: sample_config_def)

end
