(* ===== verification/DnsName.thy ===== *)
theory DnsName
  imports Sql
begin

text \<open>
  Host names (\<^verbatim>\<open>internal/core/dnsname\<close>): the list of names that cover a name, and validity.
  Coverage goes by whole labels; the lemmas say when one name covers another, and that the pattern
  the zone query uses finds exactly the names below.
\<close>

fun split_at :: "char \<Rightarrow> string \<Rightarrow> string list" where
  "split_at c [] = [[]]"
| "split_at c (x # xs) =
     (if x = c then [] # split_at c xs
      else (case split_at c xs of [] \<Rightarrow> [[x]] | l # ls \<Rightarrow> (x # l) # ls))"

definition trim_dot :: "string \<Rightarrow> string" where
  "trim_dot s = (if s \<noteq> [] \<and> last s = CHR ''.'' then butlast s else s)"

definition normalizeName :: "string \<Rightarrow> string" where
  "normalizeName name = to_lower (trim_dot (trim_space name))"

definition Covering :: "string \<Rightarrow> string list" where
  "Covering name0 =
     (let name = to_lower (trim_dot (trim_space name0)) in
      if name = [] then []
      else (let labels = split_at (CHR ''.'') name in
            map (\<lambda>i. join ''.'' (drop i labels)) [0 ..< length labels - 1]))"

definition host_char :: "char \<Rightarrow> bool" where
  "host_char c =
     (let n = (of_char c :: nat) in
      97 \<le> n \<and> n \<le> 122 \<or> 65 \<le> n \<and> n \<le> 90 \<or> 48 \<le> n \<and> n \<le> 57 \<or> c = CHR ''-'')"

definition is_digit :: "char \<Rightarrow> bool" where
  "is_digit c = (let n = (of_char c :: nat) in 48 \<le> n \<and> n \<le> 57)"

definition label_valid :: "string \<Rightarrow> bool" where
  "label_valid l =
     (l \<noteq> [] \<and> length l \<le> 63 \<and> hd l \<noteq> CHR ''-'' \<and> last l \<noteq> CHR ''-'' \<and> list_all host_char l)"

definition Valid :: "string \<Rightarrow> bool" where
  "Valid name0 =
     (let name = trim_dot name0; labels = split_at (CHR ''.'') name in
      name \<noteq> [] \<and> length name \<le> 253 \<and> list_all label_valid labels \<and>
      \<not> list_all is_digit (last labels))"

section \<open>Labels\<close>

lemma split_at_ne [simp]: "split_at c s \<noteq> []"
  by (induction s) (auto split: list.splits)

lemma join_split_at [simp]: "join [c] (split_at c s) = s"
proof (induction s)
  case (Cons x xs)
  obtain l ls where l: "split_at c xs = l # ls" by (cases "split_at c xs") auto
  show ?case
  proof (cases "x = c")
    case True
    with Cons l show ?thesis by simp
  next
    case False
    with Cons l show ?thesis by (cases ls) auto
  qed
qed simp

lemma split_at_no_sep: "l \<in> set (split_at c s) \<Longrightarrow> c \<notin> set l"
  by (induction s arbitrary: l) (auto split: list.splits if_splits)

lemma split_at_append: "split_at c (a @ c # b) = split_at c a @ split_at c b"
  by (induction a) (auto split: list.splits simp: append_eq_Cons_conv Cons_eq_append_conv)

lemma split_at_none: "c \<notin> set s \<Longrightarrow> split_at c s = [s]"
  by (induction s) auto

lemma join_append: "xs \<noteq> [] \<Longrightarrow> ys \<noteq> [] \<Longrightarrow> join sep (xs @ ys) = join sep xs @ sep @ join sep ys"
proof (induction sep xs rule: join.induct)
  case (2 sep x)
  then show ?case by (cases ys) auto
next
  case (3 sep x y zs)
  then show ?case by simp
qed simp

text \<open>A clean name is one normalisation leaves alone.\<close>

definition clean :: "string \<Rightarrow> bool" where
  "clean n = (to_lower (trim_dot (trim_space n)) = n)"

definition two_labels :: "string \<Rightarrow> bool" where
  "two_labels n = (CHR ''.'' \<in> set n)"

lemma length_split_at: "length (split_at c s) = Suc (length (filter (\<lambda>x. x = c) s))"
proof (induction s)
  case (Cons x xs)
  then show ?case by (cases "split_at c xs") auto
qed simp

lemma two_labels_iff: "two_labels n \<longleftrightarrow> 2 \<le> length (split_at (CHR ''.'') n)"
  unfolding two_labels_def length_split_at by (induction n) auto

definition below :: "string \<Rightarrow> string \<Rightarrow> bool" where
  "below n m = (\<exists>p. m = p @ CHR ''.'' # n)"

lemma Covering_clean:
  assumes "clean m"
  shows "n \<in> set (Covering m) \<longleftrightarrow> two_labels n \<and> (n = m \<or> below n m)"
proof -
  let ?ls = "split_at (CHR ''.'') m"
  have cov: "set (Covering m) = (\<lambda>i. join ''.'' (drop i ?ls)) ` {0 ..< length ?ls - 1}"
    using assms by (auto simp: Covering_def clean_def Let_def)
  show ?thesis
  proof
    assume "n \<in> set (Covering m)"
    then obtain i where i: "i < length ?ls - 1" "n = join ''.'' (drop i ?ls)" unfolding cov by auto
    have sp: "split_at (CHR ''.'') n = drop i ?ls"
    proof -
      have "split_at (CHR ''.'') (join ''.'' xs) = xs" if "xs \<noteq> []" "\<forall>x \<in> set xs. CHR ''.'' \<notin> set x" for xs
        using that
        by (induction "''.''" xs rule: join.induct) (simp_all add: split_at_none split_at_append)
      moreover have "\<forall>x \<in> set (drop i ?ls). CHR ''.'' \<notin> set x"
        using split_at_no_sep by (metis in_set_dropD)
      ultimately show ?thesis using i by simp
    qed
    have "2 \<le> length (drop i ?ls)" using i(1) by simp
    then have "two_labels n" unfolding two_labels_iff sp .
    moreover have "n = m \<or> below n m"
    proof (cases i)
      case 0
      then show ?thesis using i(2) by simp
    next
      case (Suc j)
      then have ne: "take i ?ls \<noteq> []" "drop i ?ls \<noteq> []" using i(1) by auto
      have "m = join ''.'' (take i ?ls @ drop i ?ls)" by simp
      also have "\<dots> = join ''.'' (take i ?ls) @ ''.'' @ n"
        using join_append [OF ne, of "''.''"] i(2) by (simp only:)
      finally show ?thesis unfolding below_def by auto
    qed
    ultimately show "two_labels n \<and> (n = m \<or> below n m)" ..
  next
    assume h: "two_labels n \<and> (n = m \<or> below n m)"
    then have len: "2 \<le> length (split_at (CHR ''.'') n)" by (simp add: two_labels_iff)
    from h consider "n = m" | p where "m = p @ CHR ''.'' # n" by (auto simp: below_def)
    then show "n \<in> set (Covering m)"
    proof cases
      case 1
      then have "n = join ''.'' (drop 0 ?ls)" "0 < length ?ls - 1" using len by simp_all
      then show ?thesis unfolding cov by (metis atLeastLessThan_iff image_eqI le0)
    next
      case 2
      let ?i = "length (split_at (CHR ''.'') p)"
      have ls: "?ls = split_at (CHR ''.'') p @ split_at (CHR ''.'') n" using 2 by (simp add: split_at_append)
      then have "drop ?i ?ls = split_at (CHR ''.'') n" "?i < length ?ls - 1" using len by simp_all
      then have "n = join ''.'' (drop ?i ?ls)" by simp
      with \<open>?i < length ?ls - 1\<close> show ?thesis unfolding cov by (metis atLeastLessThan_iff image_eqI le0)
    qed
  qed
qed

lemma like_below: "like (''%.'' @ EscapeLike n) m \<longleftrightarrow> below n m"
proof -
  have "''%.'' @ EscapeLike n = percent # EscapeLike (CHR ''.'' # n) @ []"
    by (simp add: EscapeLike_simps meta_defs)
  then show ?thesis
    unfolding below_def by (simp only: like_percent like_escaped) (auto simp: like.simps(1))
qed

end
