(* ===== verification/Domains.thy ===== *)
theory Domains
  imports DnsName Statement
begin

text \<open>
  Sending domains (\<^verbatim>\<open>internal/domain/domains\<close>, \<^verbatim>\<open>internal/models/domain\<close>): claims, DNS
  verification, the zone rule, DKIM key rotation and sharing.  The tables are lists of rows; the
  DNS resolver, key generation and the clock are parameters.  Sealing of private keys happens below
  these statements and is left out: rows carry the plain key the callers see.
\<close>

section \<open>Rows\<close>

record domain_row =
  dm_id :: string
  dm_project_id :: string
  dm_created_by :: string
  dm_domain :: string
  dm_verification_token :: string
  dm_verified :: bool
  dm_verified_at :: "time option"
  dm_created_at :: time
  dm_dkim_selector :: string
  dm_dkim_private_key :: string
  dm_dkim_public_key :: string
  dm_next_selector :: string
  dm_next_private_key :: string
  dm_next_public_key :: string
  dm_spf_verified :: bool
  dm_dkim_verified :: bool
  dm_dmarc_verified :: bool
  dm_checked_at :: "time option"

record grant_row =
  gr_domain_id :: string
  gr_project_id :: string
  gr_granted_by :: string
  gr_accepted_at :: "time option"
  gr_created_at :: time

record project_row =
  pj_id :: string
  pj_name :: string
  pj_slug :: string
  pj_bounce_address :: string

record domain_db =
  dd_domains :: "domain_row list"
  dd_grants :: "grant_row list"
  dd_projects :: "project_row list"

type_synonym dworld = "domain_db world"

definition VerificationPrefix :: string where "VerificationPrefix = ''mailyard-verification=''"

definition TXTRecordValue :: "domain_row \<Rightarrow> string" where
  "TXTRecordValue d = VerificationPrefix @ dm_verification_token d"

definition CanSign :: "domain_row \<Rightarrow> bool" where
  "CanSign d = (dm_verified d \<and> dm_dkim_private_key d \<noteq> [] \<and> dm_dkim_selector d \<noteq> [])"

definition Rotating :: "domain_row \<Rightarrow> bool" where
  "Rotating d = (dm_next_public_key d \<noteq> [] \<and> dm_next_selector d \<noteq> [])"

section \<open>The store\<close>

definition GetDomain :: "string \<Rightarrow> string \<Rightarrow> dworld \<Rightarrow> (domain_db, domain_row option) answer" where
  "GetDomain projID i = Read (\<lambda>s. find (\<lambda>d. dm_project_id d = projID \<and> dm_id d = i) (dd_domains s))"

definition GetVerifiedByName :: "string \<Rightarrow> dworld \<Rightarrow> (domain_db, domain_row option) answer" where
  "GetVerifiedByName name =
     Read (\<lambda>s. find (\<lambda>d. dm_domain d = normalizeName name \<and> dm_verified d) (dd_domains s))"

definition chain_rows :: "string \<Rightarrow> domain_row list \<Rightarrow> domain_row list" where
  "chain_rows name rows =
     rev (sort_key (\<lambda>d. length (dm_domain d))
       (filter (\<lambda>d. dm_domain d \<in> set (Covering name) \<and> dm_verified d) rows))"

definition verifiedChain :: "string \<Rightarrow> dworld \<Rightarrow> (domain_db, domain_row list) answer" where
  "verifiedChain name w =
     (if Covering name = [] then Return [] w
      else Read (\<lambda>s. chain_rows name (dd_domains s)) w)"

definition GetVerifiedCovering :: "string \<Rightarrow> dworld \<Rightarrow> (domain_db, domain_row option) answer" where
  "GetVerifiedCovering name w =
     andThen (verifiedChain name w) (\<lambda>chain w. case chain of [] \<Rightarrow> Return None w | d # _ \<Rightarrow> Return (Some d) w)"

definition granted_any :: "string \<Rightarrow> string list \<Rightarrow> domain_db \<Rightarrow> bool" where
  "granted_any projID owned s =
     list_ex (\<lambda>g. gr_project_id g = projID \<and> List.member owned (gr_domain_id g) \<and> gr_accepted_at g \<noteq> None)
       (dd_grants s)"

definition GetVerifiedCoveringFor ::
    "string \<Rightarrow> string \<Rightarrow> dworld \<Rightarrow> (domain_db, domain_row option) answer" where
  "GetVerifiedCoveringFor name projID w =
     andThen (verifiedChain name w) (\<lambda>chain w.
       case chain of
         [] \<Rightarrow> Return None w
       | d # _ \<Rightarrow>
           if dm_project_id d = projID then Return (Some d) w
           else (let owned = map dm_id (filter (\<lambda>r. dm_project_id r = dm_project_id d) chain) in
                 andThen (Read (granted_any projID owned) w) (\<lambda>granted w.
                   Return (if granted then Some d else None) w)))"

definition zone_taken :: "string \<Rightarrow> string \<Rightarrow> domain_db \<Rightarrow> bool" where
  "zone_taken name projID s =
     list_ex (\<lambda>d. dm_verified d \<and> dm_project_id d \<noteq> projID \<and>
       (dm_domain d \<in> set (Covering name) \<or> like (''%.'' @ EscapeLike name) (dm_domain d))) (dd_domains s)"

definition ZoneTakenByAnother :: "string \<Rightarrow> string \<Rightarrow> dworld \<Rightarrow> (domain_db, bool) answer" where
  "ZoneTakenByAnother name projID =
     Read (zone_taken (to_lower (trim_dot (trim_space name))) projID)"

definition Grant :: "string \<Rightarrow> string \<Rightarrow> string \<Rightarrow> time \<Rightarrow> dworld \<Rightarrow> (domain_db, unit) answer" where
  "Grant domainID projID grantedBy now =
     Run (\<lambda>s. (if list_ex (\<lambda>g. gr_domain_id g = domainID \<and> gr_project_id g = projID) (dd_grants s) then s
                else s\<lparr>dd_grants := dd_grants s @ [\<lparr>gr_domain_id = domainID, gr_project_id = projID,
                        gr_granted_by = grantedBy, gr_accepted_at = None, gr_created_at = now\<rparr>]\<rparr>, ()))"

definition grant_of :: "string \<Rightarrow> string \<Rightarrow> grant_row \<Rightarrow> bool" where
  "grant_of domainID projID g = (gr_domain_id g = domainID \<and> gr_project_id g = projID)"

definition AcceptGrant :: "string \<Rightarrow> string \<Rightarrow> time \<Rightarrow> dworld \<Rightarrow> (domain_db, bool) answer" where
  "AcceptGrant domainID projID now =
     Run (\<lambda>s. (s\<lparr>dd_grants := sql_update (grant_of domainID projID)
                  (gr_accepted_at_update (\<lambda>a. case a of None \<Rightarrow> Some now | Some t \<Rightarrow> Some t)) (dd_grants s)\<rparr>,
                0 < sql_count (grant_of domainID projID) (dd_grants s)))"

definition Revoke :: "string \<Rightarrow> string \<Rightarrow> dworld \<Rightarrow> (domain_db, bool) answer" where
  "Revoke domainID projID =
     Run (\<lambda>s. (s\<lparr>dd_grants := sql_delete (grant_of domainID projID) (dd_grants s)\<rparr>,
                0 < sql_count (grant_of domainID projID) (dd_grants s)))"

record grant_view =
  gv_grant :: grant_row
  gv_project_name :: string
  gv_project_slug :: string
  gv_status :: string

definition GrantStatus :: "time option \<Rightarrow> string" where
  "GrantStatus acceptedAt = (case acceptedAt of None \<Rightarrow> ''pending'' | Some _ \<Rightarrow> ''accepted'')"

definition ListGrants :: "string \<Rightarrow> string \<Rightarrow> dworld \<Rightarrow> (domain_db, grant_view list) answer" where
  "ListGrants ownerProjID domainID =
     Read (\<lambda>s. concat (map (\<lambda>g.
        if list_ex (\<lambda>d. dm_id d = gr_domain_id g \<and> dm_project_id d = ownerProjID) (dd_domains s)
        then (case find (\<lambda>p. pj_id p = gr_project_id g) (dd_projects s) of
                None \<Rightarrow> []
              | Some p \<Rightarrow> [\<lparr>gv_grant = g,
                   gv_project_name = (if gr_accepted_at g = None then [] else pj_name p),
                   gv_project_slug = pj_slug p, gv_status = GrantStatus (gr_accepted_at g)\<rparr>])
        else [])
       (sort_key gr_created_at (filter (\<lambda>g. gr_domain_id g = domainID) (dd_grants s)))))"

record share_view =
  sv_id :: string
  sv_domain :: string
  sv_owner_name :: string
  sv_status :: string
  sv_accepted_at :: "time option"

definition share_of :: "domain_db \<Rightarrow> grant_row \<Rightarrow> share_view list" where
  "share_of s g =
     (case find (\<lambda>d. dm_id d = gr_domain_id g \<and> dm_verified d) (dd_domains s) of
        None \<Rightarrow> []
      | Some d \<Rightarrow>
          (case find (\<lambda>p. pj_id p = dm_project_id d) (dd_projects s) of
             None \<Rightarrow> []
           | Some p \<Rightarrow> [\<lparr>sv_id = dm_id d, sv_domain = dm_domain d, sv_owner_name = pj_name p,
                         sv_status = GrantStatus (gr_accepted_at g), sv_accepted_at = gr_accepted_at g\<rparr>]))"

definition ListShared :: "string \<Rightarrow> dworld \<Rightarrow> (domain_db, share_view list) answer" where
  "ListShared projID =
     Read (\<lambda>s. sort_key sv_domain (concat (map (share_of s) (filter (\<lambda>g. gr_project_id g = projID) (dd_grants s)))))"

definition GetShared :: "string \<Rightarrow> string \<Rightarrow> dworld \<Rightarrow> (domain_db, share_view option) answer" where
  "GetShared projID domainID =
     Read (\<lambda>s. case concat (map (share_of s) (filter (grant_of domainID projID) (dd_grants s))) of
                 [] \<Rightarrow> None | v # _ \<Rightarrow> Some v)"

definition VerifiedNames :: "dworld \<Rightarrow> (domain_db, string list) answer" where
  "VerifiedNames = Read (\<lambda>s. sort (map dm_domain (filter dm_verified (dd_domains s))))"

definition VerifiedNamesIn :: "string \<Rightarrow> dworld \<Rightarrow> (domain_db, string list) answer" where
  "VerifiedNamesIn projID =
     Read (\<lambda>s. sort (map dm_domain (filter (\<lambda>d. dm_project_id d = projID \<and> dm_verified d) (dd_domains s))))"

definition GetByNameIn :: "string \<Rightarrow> string \<Rightarrow> dworld \<Rightarrow> (domain_db, domain_row option) answer" where
  "GetByNameIn projID name =
     Read (\<lambda>s. find (\<lambda>d. dm_project_id d = projID \<and> dm_domain d = normalizeName name) (dd_domains s))"

definition stale_claim :: "string \<Rightarrow> string \<Rightarrow> domain_row \<Rightarrow> bool" where
  "stale_claim name projID d =
     (\<not> dm_verified d \<and> dm_project_id d \<noteq> projID \<and>
      (dm_domain d = name \<or> like (''%.'' @ EscapeLike name) (dm_domain d)))"

definition drop_domains :: "(domain_row \<Rightarrow> bool) \<Rightarrow> domain_db \<Rightarrow> domain_db \<times> nat" where
  "drop_domains p s =
     (s\<lparr>dd_domains := sql_delete p (dd_domains s),
        dd_grants := filter (\<lambda>g. \<not> list_ex (\<lambda>d. p d \<and> dm_id d = gr_domain_id g) (dd_domains s)) (dd_grants s)\<rparr>,
      sql_count p (dd_domains s))"

definition DropStaleClaims :: "string \<Rightarrow> string \<Rightarrow> dworld \<Rightarrow> (domain_db, nat) answer" where
  "DropStaleClaims name projID = Run (drop_domains (stale_claim (normalizeName name) projID))"

definition ListDomains :: "string \<Rightarrow> dworld \<Rightarrow> (domain_db, domain_row list) answer" where
  "ListDomains projID = Read (\<lambda>s. sort_key dm_domain (filter (\<lambda>d. dm_project_id d = projID) (dd_domains s)))"

definition merge_row :: "domain_row \<Rightarrow> domain_row \<Rightarrow> domain_row" where
  "merge_row d r =
     r\<lparr>dm_domain := dm_domain d, dm_verified := dm_verified d, dm_verified_at := dm_verified_at d,
       dm_dkim_selector := dm_dkim_selector d, dm_dkim_private_key := dm_dkim_private_key d,
       dm_dkim_public_key := dm_dkim_public_key d, dm_next_selector := dm_next_selector d,
       dm_next_private_key := dm_next_private_key d, dm_next_public_key := dm_next_public_key d,
       dm_spf_verified := dm_spf_verified d, dm_dkim_verified := dm_dkim_verified d,
       dm_dmarc_verified := dm_dmarc_verified d, dm_checked_at := dm_checked_at d\<rparr>"

definition upsert_row :: "domain_row \<Rightarrow> domain_row list \<Rightarrow> domain_row list" where
  "upsert_row d rows =
     (if list_ex (\<lambda>r. dm_id r = dm_id d) rows
      then sql_update (\<lambda>r. dm_id r = dm_id d) (merge_row d) rows
      else rows @ [d])"

definition unique_names :: "domain_row list \<Rightarrow> bool" where
  "unique_names rows =
     (distinct (map (\<lambda>r. (dm_project_id r, dm_domain r)) rows) \<and>
      distinct (map dm_domain (filter dm_verified rows)))"

definition PutDomain :: "time \<Rightarrow> domain_row \<Rightarrow> dworld \<Rightarrow> (domain_db, unit) answer" where
  "PutDomain now d0 =
     Try (\<lambda>s. let d = (if dm_created_at d0 = zero_time then d0\<lparr>dm_created_at := now\<rparr> else d0);
                  rows = upsert_row (d\<lparr>dm_domain := normalizeName (dm_domain d)\<rparr>) (dd_domains s)
              in if unique_names rows then Inr (s\<lparr>dd_domains := rows\<rparr>, ())
                 else Inl ''duplicate key value violates unique constraint'')"

definition SetVerified :: "string \<Rightarrow> string \<Rightarrow> bool \<Rightarrow> time \<Rightarrow> dworld \<Rightarrow> (domain_db, unit) answer" where
  "SetVerified projID i verified now =
     Try (\<lambda>s. let rows = sql_update (\<lambda>d. dm_project_id d = projID \<and> dm_id d = i)
                (\<lambda>d. d\<lparr>dm_verified := verified, dm_verified_at := Some now\<rparr>) (dd_domains s)
              in if unique_names rows then Inr (s\<lparr>dd_domains := rows\<rparr>, ())
                 else Inl ''duplicate key value violates unique constraint'')"

definition DeleteDomain :: "string \<Rightarrow> string \<Rightarrow> dworld \<Rightarrow> (domain_db, nat) answer" where
  "DeleteDomain projID i = Run (drop_domains (\<lambda>d. dm_project_id d = projID \<and> dm_id d = i))"

definition CountDomains :: "string \<Rightarrow> dworld \<Rightarrow> (domain_db, nat) answer" where
  "CountDomains projID = Read (\<lambda>s. sql_count (\<lambda>d. dm_project_id d = projID) (dd_domains s))"

section \<open>DNS checks\<close>

type_synonym lookup_txt = "string \<Rightarrow> error + string list"

record check_result =
  ck_ownership :: bool
  ck_spf :: bool
  ck_dkim :: bool
  ck_dmarc :: bool
  ck_dkim_next :: bool

definition any_txt :: "(string \<Rightarrow> bool) \<Rightarrow> error + string list \<Rightarrow> bool" where
  "any_txt p r = (case r of Inl _ \<Rightarrow> False | Inr records \<Rightarrow> list_ex p records)"

definition CheckOwnership :: "lookup_txt \<Rightarrow> domain_row \<Rightarrow> bool" where
  "CheckOwnership lookup d = any_txt (\<lambda>txt. trim_space txt = TXTRecordValue d) (lookup (dm_domain d))"

definition CheckSPF :: "lookup_txt \<Rightarrow> string \<Rightarrow> bool" where
  "CheckSPF lookup name =
     any_txt (\<lambda>txt. snd (cut_prefix ''v=spf1'' (to_lower (trim_space txt)))) (lookup name)"

definition DefaultSelector :: string where "DefaultSelector = ''mailyard''"
definition RotatedSelector :: string where "RotatedSelector = ''mailyard2''"

definition NextSelector :: "string \<Rightarrow> string" where
  "NextSelector current = (if current = DefaultSelector \<or> current = [] then RotatedSelector else DefaultSelector)"

definition TXTHost :: "string \<Rightarrow> string \<Rightarrow> string" where
  "TXTHost selector name = (if selector = [] then DefaultSelector else selector) @ ''._domainkey.'' @ name"

fun key_of_parts :: "string list \<Rightarrow> string" where
  "key_of_parts [] = []"
| "key_of_parts (part # parts) =
     (let (tag, val, found) = cut (CHR ''='') (trim_space part) in
      if \<not> found \<or> trim_space tag \<noteq> ''p'' then key_of_parts parts
      else filter (\<lambda>c. c \<noteq> CHR '' '' \<and> c \<noteq> CHR 0x09 \<and> c \<noteq> CHR 0x0D \<and> c \<noteq> CHR 0x0A) val)"

definition dkimPublicKeyOf :: "string \<Rightarrow> string" where
  "dkimPublicKeyOf txt = key_of_parts (split_at (CHR '';'') txt)"

definition publishedKey :: "lookup_txt \<Rightarrow> string \<Rightarrow> string \<Rightarrow> string \<Rightarrow> bool" where
  "publishedKey lookup name selector public =
     (if public = [] \<or> selector = [] then False
      else any_txt (\<lambda>txt. dkimPublicKeyOf txt \<noteq> [] \<and> dkimPublicKeyOf txt = public) (lookup (TXTHost selector name)))"

definition CheckDKIM :: "lookup_txt \<Rightarrow> domain_row \<Rightarrow> bool" where
  "CheckDKIM lookup d = publishedKey lookup (dm_domain d) (dm_dkim_selector d) (dm_dkim_public_key d)"

definition CheckDMARC :: "lookup_txt \<Rightarrow> string \<Rightarrow> bool" where
  "CheckDMARC lookup name =
     any_txt (\<lambda>txt. snd (cut_prefix ''v=dmarc1'' (to_lower (trim_space txt)))) (lookup (''_dmarc.'' @ name))"

definition CheckAll :: "lookup_txt \<Rightarrow> domain_row \<Rightarrow> check_result" where
  "CheckAll lookup d =
     \<lparr>ck_ownership = CheckOwnership lookup d, ck_spf = CheckSPF lookup (dm_domain d),
      ck_dkim = CheckDKIM lookup d, ck_dmarc = CheckDMARC lookup (dm_domain d),
      ck_dkim_next = (Rotating d \<and> publishedKey lookup (dm_domain d) (dm_next_selector d) (dm_next_public_key d))\<rparr>"

section \<open>Handlers\<close>

definition zoneTaken :: error where
  "zoneTaken = ''another project verified a domain in this zone - ask its owner to verify the name and share it with this project''"

text \<open>\<open>hold\<close> is the quota's answer, \<open>fresh\<close> the new row's id and token.\<close>

definition new_claim :: "time \<Rightarrow> string \<times> string \<Rightarrow> string \<Rightarrow> string \<Rightarrow> string \<Rightarrow> domain_row" where
  "new_claim now fresh projID user name =
     \<lparr>dm_id = fst fresh, dm_project_id = projID, dm_created_by = user,
      dm_domain = normalizeName name, dm_verification_token = snd fresh,
      dm_verified = False, dm_verified_at = None, dm_created_at = now,
      dm_dkim_selector = [], dm_dkim_private_key = [], dm_dkim_public_key = [],
      dm_next_selector = [], dm_next_private_key = [], dm_next_public_key = [],
      dm_spf_verified = False, dm_dkim_verified = False, dm_dmarc_verified = False,
      dm_checked_at = None\<rparr>"

definition CreateDomain ::
    "time \<Rightarrow> string option \<Rightarrow> string \<times> string \<Rightarrow> string \<Rightarrow> string \<Rightarrow> string \<Rightarrow> dworld \<Rightarrow>
     domain_row response \<times> dworld" where
  "CreateDomain now hold fresh projID user name w =
     (case hold of
        Some msg \<Rightarrow> (TooManyRequests msg, w)
      | None \<Rightarrow>
          Answer (GetByNameIn projID name w) (\<lambda>existing w.
          if existing \<noteq> None then (Conflict ''this project already claimed this domain'', w)
          else Answer (ZoneTakenByAnother name projID w) (\<lambda>taken w.
          if taken then (Conflict zoneTaken, w)
          else Answer (PutDomain now (new_claim now fresh projID user name) w) (\<lambda>_ w.
                 (Ok (new_claim now fresh projID user name), w)))))"

definition cutOver :: "domain_row \<Rightarrow> check_result \<Rightarrow> domain_row \<times> bool" where
  "cutOver d res =
     (if \<not> Rotating d \<or> \<not> ck_dkim_next res then (d, False)
      else (d\<lparr>dm_dkim_selector := dm_next_selector d, dm_dkim_private_key := dm_next_private_key d,
              dm_dkim_public_key := dm_next_public_key d,
              dm_next_selector := [], dm_next_private_key := [], dm_next_public_key := []\<rparr>, True))"

text \<open>
  Verifying reads the row, checks the zone, asks the DNS and writes the row back.  The two halves
  are separate, because other requests run while the DNS answers.
\<close>

definition verify_begin :: "string \<Rightarrow> string \<Rightarrow> dworld \<Rightarrow> domain_row response \<times> dworld" where
  "verify_begin projID i w =
     Answer (GetDomain projID i w) (\<lambda>found w.
       case found of
         None \<Rightarrow> (NotFound ''domain not found'', w)
       | Some d \<Rightarrow>
           if dm_verified d then (Ok d, w)
           else Answer (ZoneTakenByAnother (dm_domain d) projID w) (\<lambda>taken w.
             if taken then (Conflict zoneTaken, w) else (Ok d, w)))"

definition mint_key :: "(error + string \<times> string) \<Rightarrow> check_result \<Rightarrow> domain_row \<Rightarrow> error + (domain_row \<times> check_result)" where
  "mint_key key res d =
     (if ck_ownership res \<and> dm_dkim_private_key d = []
      then (case key of
              Inl e \<Rightarrow> Inl e
            | Inr (priv, pub) \<Rightarrow>
                Inr (d\<lparr>dm_dkim_selector := DefaultSelector, dm_dkim_private_key := priv, dm_dkim_public_key := pub\<rparr>,
                     res\<lparr>ck_dkim := False\<rparr>))
      else Inr (d, res))"

definition verified_row :: "time \<Rightarrow> domain_row \<Rightarrow> check_result \<Rightarrow> domain_row" where
  "verified_row now d0 res =
     (let d1 = d0\<lparr>dm_verified := ck_ownership res,
                  dm_verified_at := (if ck_ownership res then Some now else dm_verified_at d0)\<rparr>;
          (d2, rotated) = cutOver d1 res
      in d2\<lparr>dm_spf_verified := ck_spf res, dm_dkim_verified := (ck_dkim res \<or> rotated),
            dm_dmarc_verified := ck_dmarc res, dm_checked_at := Some now\<rparr>)"

definition verify_finish ::
    "time \<Rightarrow> lookup_txt \<Rightarrow> (error + string \<times> string) \<Rightarrow> domain_row \<Rightarrow> dworld \<Rightarrow> domain_row response \<times> dworld" where
  "verify_finish now lookup key d0 w =
     (case mint_key key (CheckAll lookup d0) d0 of
        Inl e \<Rightarrow> (Internal e, w)
      | Inr (d1, res) \<Rightarrow>
          (let d = verified_row now d1 res in
           Answer (PutDomain now d w) (\<lambda>_ w.
             if dm_verified d \<and> \<not> dm_verified d0
             then Answer (DropStaleClaims (dm_domain d) (dm_project_id d) w) (\<lambda>_ w. (Ok d, w))
             else (Ok d, w))))"

definition Verify ::
    "time \<Rightarrow> lookup_txt \<Rightarrow> (error + string \<times> string) \<Rightarrow> string \<Rightarrow> string \<Rightarrow> dworld \<Rightarrow>
     domain_row response \<times> dworld" where
  "Verify now lookup key projID i w =
     (case verify_begin projID i w of
        (Ok d, w') \<Rightarrow> verify_finish now lookup key d w'
      | (other, w') \<Rightarrow> (other, w'))"

definition RotateDKIM ::
    "time \<Rightarrow> (error + string \<times> string) \<Rightarrow> string \<Rightarrow> string \<Rightarrow> dworld \<Rightarrow> domain_row response \<times> dworld" where
  "RotateDKIM now key projID i w =
     Answer (GetDomain projID i w) (\<lambda>found w.
       case found of
         None \<Rightarrow> (NotFound ''domain not found'', w)
       | Some d \<Rightarrow>
           if \<not> CanSign d then (Conflict ''the domain has no signing key to rotate - verify ownership first'', w)
           else (case key of
                   Inl e \<Rightarrow> (Internal e, w)
                 | Inr (priv, pub) \<Rightarrow>
                     (let d' = d\<lparr>dm_next_selector := NextSelector (dm_dkim_selector d),
                                dm_next_private_key := priv, dm_next_public_key := pub\<rparr>
                      in Answer (PutDomain now d' w) (\<lambda>_ w. (Ok d', w)))))"

definition CancelDKIMRotation :: "time \<Rightarrow> string \<Rightarrow> string \<Rightarrow> dworld \<Rightarrow> domain_row response \<times> dworld" where
  "CancelDKIMRotation now projID i w =
     Answer (GetDomain projID i w) (\<lambda>found w.
       case found of
         None \<Rightarrow> (NotFound ''domain not found'', w)
       | Some d \<Rightarrow>
           if \<not> Rotating d then (Conflict ''no rotation is pending'', w)
           else (let d' = d\<lparr>dm_next_selector := [], dm_next_private_key := [], dm_next_public_key := []\<rparr>
                 in Answer (PutDomain now d' w) (\<lambda>_ w. (Ok d', w))))"

definition DeleteHandler :: "string \<Rightarrow> string \<Rightarrow> dworld \<Rightarrow> unit response \<times> dworld" where
  "DeleteHandler projID i w =
     Answer (GetDomain projID i w) (\<lambda>found w.
       case found of
         None \<Rightarrow> (NotFound ''domain not found'', w)
       | Some d \<Rightarrow> Answer (DeleteDomain projID (dm_id d) w) (\<lambda>_ w. (NoContent, w)))"

definition owned_domain :: "string \<Rightarrow> string \<Rightarrow> dworld \<Rightarrow> domain_row response \<times> dworld" where
  "owned_domain projID i w =
     Answer (GetDomain projID i w) (\<lambda>found w.
       case found of None \<Rightarrow> (NotFound ''domain not found'', w) | Some d \<Rightarrow> (Ok d, w))"

definition Share ::
    "time \<Rightarrow> string \<Rightarrow> string \<Rightarrow> string \<Rightarrow> string \<Rightarrow> dworld \<Rightarrow> grant_view list response \<times> dworld" where
  "Share now user projID i slug w =
     Answer (GetDomain projID i w) (\<lambda>found w.
       case found of
         None \<Rightarrow> (NotFound ''domain not found'', w)
       | Some d \<Rightarrow>
           if \<not> dm_verified d then (BadRequest ''verify the domain before sharing it'', w)
           else Answer (Read (\<lambda>s. find (\<lambda>p. pj_slug p = slug) (dd_projects s)) w) (\<lambda>p w.
             case p of
               None \<Rightarrow> (NotFound ''project not found'', w)
             | Some p \<Rightarrow>
                 if pj_id p = projID then (BadRequest ''a project cannot share a domain with itself'', w)
                 else Answer (Grant (dm_id d) (pj_id p) user now w) (\<lambda>_ w.
                      Answer (ListGrants projID (dm_id d) w) (\<lambda>gs w. (Ok gs, w)))))"

definition AcceptShare :: "time \<Rightarrow> string \<Rightarrow> string \<Rightarrow> dworld \<Rightarrow> share_view response \<times> dworld" where
  "AcceptShare now projID i w =
     Answer (AcceptGrant i projID now w) (\<lambda>found w.
       if \<not> found then (NotFound ''share not found'', w)
       else Answer (GetShared projID i w) (\<lambda>sh w.
         case sh of None \<Rightarrow> (NotFound ''share not found'', w) | Some v \<Rightarrow> (Ok v, w)))"

definition LeaveShare :: "string \<Rightarrow> string \<Rightarrow> dworld \<Rightarrow> unit response \<times> dworld" where
  "LeaveShare projID i w =
     Answer (Revoke i projID w) (\<lambda>gone w. if gone then (NoContent, w) else (NotFound ''share not found'', w))"

definition Unshare :: "string \<Rightarrow> string \<Rightarrow> string \<Rightarrow> dworld \<Rightarrow> unit response \<times> dworld" where
  "Unshare projID i grantee w =
     Answer (GetDomain projID i w) (\<lambda>found w.
       case found of
         None \<Rightarrow> (NotFound ''domain not found'', w)
       | Some d \<Rightarrow> Answer (Revoke (dm_id d) grantee w) (\<lambda>gone w.
           if gone then (NoContent, w) else (NotFound ''grant not found'', w)))"

section \<open>Who may send as a name\<close>

text \<open>A verified row covers a name when its domain is on the way up from it.\<close>

definition covers :: "domain_db \<Rightarrow> string \<Rightarrow> domain_row \<Rightarrow> bool" where
  "covers s name d = (d \<in> set (dd_domains s) \<and> dm_verified d \<and> dm_domain d \<in> set (Covering name))"

definition closest :: "domain_db \<Rightarrow> string \<Rightarrow> domain_row \<Rightarrow> bool" where
  "closest s name d =
     (covers s name d \<and> (\<forall>r. covers s name r \<longrightarrow> length (dm_domain r) \<le> length (dm_domain d)))"

lemma set_chain_rows [simp]: "set (chain_rows name (dd_domains s)) = {d. covers s name d}"
  by (auto simp: chain_rows_def covers_def)

lemma drop_join_length:
  assumes "i < j" "j < length ls"
  shows "length (join ''.'' (drop j ls)) < length (join ''.'' (drop i ls))"
  using assms
proof (induction ls arbitrary: i j)
  case (Cons l ls)
  obtain j' where j: "j = Suc j'" using Cons.prems by (cases j) auto
  have ls: "ls \<noteq> []" using Cons.prems j by auto
  have len: "length (join ''.'' (l # ls)) = length l + 1 + length (join ''.'' ls)"
    using ls by (cases ls) auto
  show ?case
  proof (cases i)
    case 0
    have "length (join ''.'' (drop j' ls)) \<le> length (join ''.'' ls)"
    proof (cases j')
      case (Suc k)
      then have "length (join ''.'' (drop j' ls)) < length (join ''.'' (drop 0 ls))"
        using Cons.prems j by (intro Cons.IH) simp_all
      then show ?thesis by simp
    qed simp
    then show ?thesis using 0 j len by simp
  next
    case (Suc i')
    then have "length (join ''.'' (drop j' ls)) < length (join ''.'' (drop i' ls))"
      using Cons.prems j by (intro Cons.IH) simp_all
    then show ?thesis using Suc j by simp
  qed
qed simp

lemma Covering_length_inj:
  assumes "a \<in> set (Covering name)" "b \<in> set (Covering name)" "length a = length b"
  shows "a = b"
proof -
  let ?ls = "split_at (CHR ''.'') (to_lower (trim_dot (trim_space name)))"
  have at: "\<exists>i. i < length ?ls - 1 \<and> x = join ''.'' (drop i ?ls)" if "x \<in> set (Covering name)" for x
    using that by (auto simp: Covering_def Let_def split: if_splits)
  from at [OF assms(1)] at [OF assms(2)] obtain i j where ij: "i < length ?ls - 1" "j < length ?ls - 1"
    "a = join ''.'' (drop i ?ls)" "b = join ''.'' (drop j ?ls)" by blast
  have "\<not> i < j" using drop_join_length [of i j ?ls] ij assms(3) by force
  moreover have "\<not> j < i" using drop_join_length [of j i ?ls] ij assms(3) by force
  ultimately have "i = j" by simp
  with ij show ?thesis by simp
qed

lemma verified_name_unique:
  assumes "unique_names rows" "d \<in> set rows" "r \<in> set rows" "dm_verified d" "dm_verified r"
    "dm_domain d = dm_domain r"
  shows "d = r"
proof -
  have "inj_on dm_domain (set (filter dm_verified rows))"
    using assms(1) by (simp add: unique_names_def distinct_map)
  then show ?thesis using assms by (auto dest: inj_onD)
qed

lemma closest_unique:
  assumes "unique_names (dd_domains s)" "closest s name d" "closest s name r"
  shows "d = r"
proof -
  have "length (dm_domain d) = length (dm_domain r)"
    using assms(2,3) by (auto simp: closest_def intro: le_antisym)
  then have "dm_domain d = dm_domain r"
    using assms(2,3) Covering_length_inj by (auto simp: closest_def covers_def)
  then show ?thesis using assms by (auto simp: closest_def covers_def intro: verified_name_unique)
qed

lemma chain_head:
  assumes "chain_rows name (dd_domains s) = d # ds"
  shows "closest s name d"
proof -
  let ?xs = "sort_key (\<lambda>d. length (dm_domain d)) (filter (\<lambda>d. dm_domain d \<in> set (Covering name) \<and> dm_verified d) (dd_domains s))"
  have rev: "?xs = rev ds @ [d]" using assms by (simp add: chain_rows_def rev_swap)
  have "sorted (map (\<lambda>d. length (dm_domain d)) ?xs)" by simp
  then have "\<forall>r \<in> set ds. length (dm_domain r) \<le> length (dm_domain d)" unfolding rev by (simp add: sorted_append)
  moreover have "{r. covers s name r} = set (d # ds)" using assms set_chain_rows [of name s] by (simp only:)
  ultimately show ?thesis unfolding closest_def by (metis (mono_tags) list.set_intros(1) mem_Collect_eq order_refl set_ConsD)
qed

lemma verifiedChain_calm: "verifiedChain name (s, []) = (Inr (chain_rows name (dd_domains s)), (s, []))"
  by (simp add: verifiedChain_def chain_rows_def)

definition authorised :: "domain_db \<Rightarrow> string \<Rightarrow> string \<Rightarrow> domain_row \<Rightarrow> bool" where
  "authorised s name projID d =
     (closest s name d \<and>
      (dm_project_id d = projID \<or>
       (\<exists>g \<in> set (dd_grants s). gr_project_id g = projID \<and> gr_accepted_at g \<noteq> None \<and>
          (\<exists>r. covers s name r \<and> dm_project_id r = dm_project_id d \<and> dm_id r = gr_domain_id g))))"

lemma granted_any_iff:
  "granted_any projID (map dm_id (filter (\<lambda>r. dm_project_id r = p) chain)) s \<longleftrightarrow>
   (\<exists>g \<in> set (dd_grants s). gr_project_id g = projID \<and> gr_accepted_at g \<noteq> None \<and>
      (\<exists>r \<in> set chain. dm_project_id r = p \<and> dm_id r = gr_domain_id g))"
  unfolding granted_any_def list_ex_iff List.member_iff set_map set_filter
  by (rule bex_cong) (auto simp: image_iff)

lemma GetVerifiedCoveringFor_calm:
  "GetVerifiedCoveringFor name projID (s, []) =
     (Inr (case chain_rows name (dd_domains s) of
             [] \<Rightarrow> None
           | d # _ \<Rightarrow> if authorised s name projID d then Some d else None), (s, []))"
proof (cases "chain_rows name (dd_domains s)")
  case Nil
  then show ?thesis by (simp add: GetVerifiedCoveringFor_def verifiedChain_calm)
next
  case (Cons d ds)
  have c: "closest s name d" using chain_head [OF Cons] .
  have cov: "r \<in> set (d # ds) \<longleftrightarrow> covers s name r" for r
    using set_chain_rows [of name s] unfolding Cons by auto
  show ?thesis
    unfolding GetVerifiedCoveringFor_def verifiedChain_calm Cons andThen_simps list.case authorised_def Let_def
      Read_calm Return_simp granted_any_iff cov [symmetric]
    using c by (simp add: Bex_def conj_commute)
qed

end
