(* ===== verification/Zones.thy ===== *)
theory Zones
  imports Domains
begin

text \<open>
  Properties of sending domains: who may send as a name, that a zone has one owner however the
  handlers are called one after another, that only the grantee's own acceptance widens what it may
  send as, and when the signing key changes.  The race between two verifications is shown by a run.
\<close>

section \<open>Authority\<close>

text \<open>
  C23: A project may send as a name exactly when the closest verified domain above it is the
  project's own, or the owner shared that zone with the project and the project accepted: a pending
  offer, a grant on another owner's row and a name that only looks similar give nothing.
\<close>

theorem send_authority:
  assumes "unique_names (dd_domains s)"
  shows "GetVerifiedCoveringFor name projID (s, []) = (Inr (Some d), (s, [])) \<longleftrightarrow> authorised s name projID d"
proof
  assume "GetVerifiedCoveringFor name projID (s, []) = (Inr (Some d), (s, []))"
  then show "authorised s name projID d"
    unfolding GetVerifiedCoveringFor_calm by (simp split: list.splits if_splits)
next
  assume a: "authorised s name projID d"
  then have c: "closest s name d" by (simp add: authorised_def)
  then have "d \<in> set (chain_rows name (dd_domains s))"
    by (simp add: closest_def)
  then obtain r rs where chain: "chain_rows name (dd_domains s) = r # rs" by (cases "chain_rows name (dd_domains s)") auto
  then have "r = d" using closest_unique [OF assms chain_head c] by blast
  then show "GetVerifiedCoveringFor name projID (s, []) = (Inr (Some d), (s, []))"
    unfolding GetVerifiedCoveringFor_calm chain using a by simp
qed

section \<open>Zones\<close>

text \<open>
  The calls a domain serves, each handler run as one transaction, the wait of \<^verbatim>\<open>Verify\<close> for DNS included: \<^verbatim>\<open>fqdn\<close>
  is the validator's check of the name in a new claim.
\<close>

datatype domain_call =
    CreateCall time "string option" "string \<times> string" string string string
  | VerifyCall time lookup_txt "error + string \<times> string" string string
  | RotateCall time "error + string \<times> string" string string
  | CancelCall time string string
  | DeleteCall string string
  | ShareCall time string string string string
  | AcceptCall time string string
  | LeaveCall string string
  | UnshareCall string string string

fun serve :: "domain_call \<Rightarrow> dworld \<Rightarrow> dworld" where
  "serve (CreateCall now hold fresh p user name) w = snd (CreateDomain now hold fresh p user (trim_dot name) w)"
| "serve (VerifyCall now lookup key p i) w = snd (Verify now lookup key p i w)"
| "serve (RotateCall now key p i) w = snd (RotateDKIM now key p i w)"
| "serve (CancelCall now p i) w = snd (CancelDKIMRotation now p i w)"
| "serve (DeleteCall p i) w = snd (DeleteHandler p i w)"
| "serve (ShareCall now user p i slug) w = snd (Share now user p i slug w)"
| "serve (AcceptCall now p i) w = snd (AcceptShare now p i w)"
| "serve (LeaveCall p i) w = snd (LeaveShare p i w)"
| "serve (UnshareCall p i grantee) w = snd (Unshare p i grantee w)"

fun admitted :: "(string \<Rightarrow> bool) \<Rightarrow> domain_call \<Rightarrow> domain_db \<Rightarrow> bool" where
  "admitted fqdn (CreateCall now hold fresh p user name) s =
     (fqdn (trim_dot name) \<and> fst fresh \<notin> set (map dm_id (dd_domains s)))"
| "admitted fqdn _ s = True"

inductive domain_reachable :: "(string \<Rightarrow> bool) \<Rightarrow> domain_db \<Rightarrow> bool" for fqdn where
  start: "dd_domains s = [] \<Longrightarrow> domain_reachable fqdn s"
| call: "domain_reachable fqdn s \<Longrightarrow> admitted fqdn c s \<Longrightarrow> domain_reachable fqdn (fst (serve c (s, fs)))"

definition zone_inv :: "domain_row list \<Rightarrow> bool" where
  "zone_inv rows =
     (unique_names rows \<and> distinct (map dm_id rows) \<and>
      (\<forall>d \<in> set rows. clean (dm_domain d) \<and> two_labels (dm_domain d)) \<and>
      (\<forall>d \<in> set rows. \<forall>r \<in> set rows. dm_verified d \<longrightarrow> dm_verified r \<longrightarrow> below (dm_domain d) (dm_domain r) \<longrightarrow>
         dm_project_id d = dm_project_id r))"

lemma clean_normal: "clean n \<Longrightarrow> normalizeName n = n"
  by (simp add: clean_def normalizeName_def)

lemma zone_taken_clean:
  assumes "clean name" "two_labels name" "\<forall>d \<in> set (dd_domains s). two_labels (dm_domain d)"
  shows "zone_taken name p s \<longleftrightarrow>
    (\<exists>d \<in> set (dd_domains s). dm_verified d \<and> dm_project_id d \<noteq> p \<and>
       (dm_domain d = name \<or> below (dm_domain d) name \<or> below name (dm_domain d)))"
  unfolding zone_taken_def list_ex_iff like_below Covering_clean [OF assms(1)]
  using assms(3) by (intro bex_cong) auto

lemma zone_inv_filter:
  assumes "zone_inv rows"
  shows "zone_inv (filter q rows)"
proof -
  have "distinct (map k (filter q rows))" if "distinct (map k rows)" for k :: "domain_row \<Rightarrow> 'b"
    using that by (induction rows) auto
  moreover have "distinct (map dm_domain (filter dm_verified (filter q rows)))"
    using assms calculation unfolding zone_inv_def unique_names_def distinct_map
    by (auto intro: inj_on_subset)
  ultimately show ?thesis
    using assms unfolding zone_inv_def unique_names_def by (auto simp: distinct_map intro: inj_on_subset)
qed

lemma zone_inv_add:
  assumes "zone_inv rows" "unique_names (rows @ [d])" "dm_id d \<notin> set (map dm_id rows)" "\<not> dm_verified d"
    "clean (dm_domain d)" "two_labels (dm_domain d)"
  shows "zone_inv (rows @ [d])"
  using assms unfolding zone_inv_def by auto

lemma zone_inv_replace:
  assumes inv: "zone_inv (dd_domains s)" and d0: "d0 \<in> set (dd_domains s)"
    and un: "unique_names (sql_update (\<lambda>r. dm_id r = dm_id d0) f (dd_domains s))"
    and same: "dm_id (f d0) = dm_id d0" "dm_project_id (f d0) = dm_project_id d0" "dm_domain (f d0) = dm_domain d0"
    and held: "dm_verified (f d0) \<Longrightarrow> dm_verified d0 \<or> \<not> zone_taken (dm_domain d0) (dm_project_id d0) s"
  shows "zone_inv (sql_update (\<lambda>r. dm_id r = dm_id d0) f (dd_domains s))"
proof -
  let ?rows = "dd_domains s"
  have only: "r = d0" if "r \<in> set ?rows" "dm_id r = dm_id d0" for r
    using inv d0 that by (auto simp: zone_inv_def distinct_map dest: inj_onD)
  have upd: "sql_update (\<lambda>r. dm_id r = dm_id d0) f ?rows = map (\<lambda>r. if r = d0 then f d0 else r) ?rows"
    unfolding sql_update_def using only by (intro map_cong) auto
  have mem: "r \<in> set (map (\<lambda>r. if r = d0 then f d0 else r) ?rows) \<longleftrightarrow> r = f d0 \<or> r \<in> set ?rows \<and> r \<noteq> d0" for r
    using d0 by auto
  have cl: "clean (dm_domain d0)" "two_labels (dm_domain d0)" using inv d0 by (auto simp: zone_inv_def)
  have two: "\<forall>d \<in> set ?rows. two_labels (dm_domain d)" using inv by (simp add: zone_inv_def)
  have near: "dm_project_id r = dm_project_id d0"
    if "dm_verified (f d0)" "r \<in> set ?rows" "dm_verified r"
      "below (dm_domain d0) (dm_domain r) \<or> below (dm_domain r) (dm_domain d0)" for r
    using held [OF that(1)] inv d0 that(2-) zone_taken_clean [OF cl two]
    unfolding zone_inv_def by metis
  have self: "\<not> below n n" for n by (simp add: below_def)
  have ids: "map dm_id (map (\<lambda>r. if r = d0 then f d0 else r) ?rows) = map dm_id ?rows"
    using same by simp
  show ?thesis
    unfolding zone_inv_def
  proof (intro conjI)
    show "distinct (map dm_id (sql_update (\<lambda>r. dm_id r = dm_id d0) f ?rows))"
      unfolding upd ids using inv by (simp add: zone_inv_def)
    show "\<forall>d \<in> set (sql_update (\<lambda>r. dm_id r = dm_id d0) f ?rows). clean (dm_domain d) \<and> two_labels (dm_domain d)"
      unfolding upd using inv cl same by (auto simp: zone_inv_def)
    show "\<forall>d \<in> set (sql_update (\<lambda>r. dm_id r = dm_id d0) f ?rows). \<forall>r \<in> set (sql_update (\<lambda>r. dm_id r = dm_id d0) f ?rows).
        dm_verified d \<longrightarrow> dm_verified r \<longrightarrow> below (dm_domain d) (dm_domain r) \<longrightarrow> dm_project_id d = dm_project_id r"
      unfolding upd
    proof (intro ballI impI)
      fix d r
      assume d: "d \<in> set (map (\<lambda>r. if r = d0 then f d0 else r) ?rows)"
        and r: "r \<in> set (map (\<lambda>r. if r = d0 then f d0 else r) ?rows)"
        and v: "dm_verified d" "dm_verified r" "below (dm_domain d) (dm_domain r)"
      from d r consider "d = f d0" "r = f d0" | "d = f d0" "r \<in> set ?rows" | "r = f d0" "d \<in> set ?rows"
        | "d \<in> set ?rows" "r \<in> set ?rows" unfolding mem by blast
      then show "dm_project_id d = dm_project_id r"
      proof cases
        case 2
        then show ?thesis using near [of r] v same by simp
      next
        case 3
        then show ?thesis using near [of d] v same by simp
      next
        case 4
        then show ?thesis using inv v by (simp add: zone_inv_def)
      qed (use v self in simp)
    qed
  qed (fact un)
qed

text \<open>What each statement leaves of the invariant.\<close>

abbreviation held_zones :: "dworld \<Rightarrow> bool" where
  "held_zones w \<equiv> zone_inv (dd_domains (fst w))"

lemma Answer_held:
  assumes "\<And>e w. r = (Inl e, w) \<Longrightarrow> held_zones w" "\<And>x w. r = (Inr x, w) \<Longrightarrow> held_zones (snd (k x w))"
  shows "held_zones (snd (Answer r k))"
  by (rule Answer_inv) (fact assms)+

lemma Answer_same:
  assumes "\<And>e w. r = (Inl e, w) \<Longrightarrow> fst w = s" "\<And>x w. r = (Inr x, w) \<Longrightarrow> fst (snd (k x w)) = s"
  shows "fst (snd (Answer r k)) = s"
  by (rule Answer_inv) (fact assms)+

lemma GetDomain_Inr:
  "GetDomain p i w = (Inr x, w') \<Longrightarrow>
   fst w' = fst w \<and> x = find (\<lambda>d. dm_project_id d = p \<and> dm_id d = i) (dd_domains (fst w))"
  unfolding GetDomain_def by (drule Read_Inr) simp

lemma GetDomain_Some:
  "GetDomain p i w = (Inr (Some d), w') \<Longrightarrow>
   fst w' = fst w \<and> d \<in> set (dd_domains (fst w)) \<and> dm_project_id d = p \<and> dm_id d = i"
  by (drule GetDomain_Inr) (metis (mono_tags, lifting) find_Some_iff nth_mem)

lemma GetDomain_state: "GetDomain p i w = (r, w') \<Longrightarrow> fst w' = fst w"
  unfolding GetDomain_def by (rule Read_state)

lemma ZoneTaken_Inr:
  "ZoneTakenByAnother name p w = (Inr x, w') \<Longrightarrow> clean name \<Longrightarrow> fst w' = fst w \<and> x = zone_taken name p (fst w)"
  unfolding ZoneTakenByAnother_def by (drule Read_Inr) (simp add: clean_def)

lemma ZoneTaken_state: "ZoneTakenByAnother name p w = (r, w') \<Longrightarrow> fst w' = fst w"
  unfolding ZoneTakenByAnother_def by (rule Read_state)

lemma PutDomain_cases:
  assumes "PutDomain now d w = (r, w')"
  shows "fst w' = fst w \<or>
    (\<exists>t. let rows = upsert_row (d\<lparr>dm_created_at := t, dm_domain := normalizeName (dm_domain d)\<rparr>) (dd_domains (fst w))
     in unique_names rows \<and> fst w' = (fst w)\<lparr>dd_domains := rows\<rparr>)"
  using Try_cases [OF assms [unfolded PutDomain_def]]
  by (auto simp: Let_def split: if_splits intro: exI [of _ "dm_created_at d"] exI [of _ now])

lemma drop_domains_held: "zone_inv (dd_domains s) \<Longrightarrow> zone_inv (dd_domains (fst (drop_domains q s)))"
  by (simp add: drop_domains_def sql_delete_def zone_inv_filter)

lemma Run_held:
  assumes "Run st w = (r, w')" "held_zones w" "zone_inv (dd_domains (fst (st (fst w))))"
  shows "held_zones w'"
  using Run_state [OF assms(1)] assms(2,3) by auto

lemma Put_held:
  assumes "PutDomain now d w = (r, w')" "held_zones w" "d0 \<in> set (dd_domains (fst w))"
    "dm_id d = dm_id d0" "dm_domain d = dm_domain d0"
    "dm_verified d \<Longrightarrow> dm_verified d0 \<or> \<not> zone_taken (dm_domain d0) (dm_project_id d0) (fst w)"
  shows "held_zones w'"
proof -
  let ?d = "\<lambda>t. d\<lparr>dm_created_at := t, dm_domain := normalizeName (dm_domain d)\<rparr>"
  have cl: "normalizeName (dm_domain d0) = dm_domain d0"
    using assms(2,3) by (simp add: zone_inv_def clean_normal)
  have up: "upsert_row (?d t) (dd_domains (fst w)) =
      sql_update (\<lambda>r. dm_id r = dm_id d0) (merge_row (?d t)) (dd_domains (fst w))" for t
    using assms(3,4) by (auto simp: upsert_row_def list_ex_iff)
  have "zone_inv (upsert_row (?d t) (dd_domains (fst w)))"
    if "unique_names (upsert_row (?d t) (dd_domains (fst w)))" for t
    unfolding up
    by (rule zone_inv_replace [OF assms(2,3)])
       (use that [unfolded up] assms(4-6) cl in \<open>simp_all add: merge_row_def\<close>)
  then show ?thesis using PutDomain_cases [OF assms(1)] assms(2) by (auto simp: Let_def)
qed

lemma Create_held:
  assumes "held_zones w" "clean (normalizeName name)" "two_labels (normalizeName name)"
    "fst fresh \<notin> set (map dm_id (dd_domains (fst w)))"
  shows "held_zones (snd (CreateDomain now hold fresh p user name w))"
proof (cases hold)
  case (Some m)
  then show ?thesis using assms(1) by (simp add: CreateDomain_def)
next
  case None
  have add: "held_zones w3"
    if "PutDomain now d w2 = (r, w3)" "fst w2 = fst w" "dm_domain d = normalizeName name"
      "dm_id d = fst fresh" "\<not> dm_verified d" for w2 w3 d r
    using PutDomain_cases [OF that(1)]
  proof (elim disjE exE)
    fix t
    let ?d = "d\<lparr>dm_created_at := t, dm_domain := normalizeName (dm_domain d)\<rparr>"
    assume "let rows = upsert_row ?d (dd_domains (fst w2))
       in unique_names rows \<and> fst w3 = (fst w2)\<lparr>dd_domains := rows\<rparr>"
    moreover have "upsert_row ?d (dd_domains (fst w2)) = dd_domains (fst w2) @ [?d]"
      using assms(4) that(2,4) by (force simp: upsert_row_def list_ex_iff)
    moreover have "zone_inv (dd_domains (fst w2) @ [?d])" if "unique_names (dd_domains (fst w2) @ [?d])"
      using that assms \<open>fst w2 = fst w\<close> \<open>dm_domain d = _\<close> \<open>dm_id d = _\<close> \<open>\<not> dm_verified d\<close>
      by (intro zone_inv_add) (simp_all add: clean_normal)
    ultimately show ?thesis by (simp add: Let_def)
  qed (use assms(1) that(2) in simp)
  show ?thesis
    unfolding CreateDomain_def None option.case Let_def
  proof (rule Answer_held, goal_cases)
    case (1 e w1)
    then show ?case using assms(1) by (auto simp: GetByNameIn_def dest: Read_state)
  next
    case (2 x w1)
    then have w1: "fst w1 = fst w" by (auto simp: GetByNameIn_def dest: Read_state)
    show ?case
    proof (cases "x = None")
      case True
      show ?thesis
        unfolding True simp_thms if_False
      proof (rule Answer_held, goal_cases)
        case (1 e w2)
        then show ?case using assms(1) w1 by (auto dest: ZoneTaken_state)
      next
        case (2 taken w2)
        then have w2: "fst w2 = fst w" using w1 by (auto dest: ZoneTaken_state)
        show ?case
        proof (cases taken)
          case False
          have "held_zones (snd (Answer (PutDomain now (new_claim now fresh p user name) w2)
              (\<lambda>_ w. (Ok (new_claim now fresh p user name), w))))"
          proof (rule Answer_held)
            fix e w3
            assume "PutDomain now (new_claim now fresh p user name) w2 = (Inl e, w3)"
            then show "held_zones w3" by (rule add [OF _ w2]) (simp_all add: new_claim_def)
          next
            fix u w3
            assume "PutDomain now (new_claim now fresh p user name) w2 = (Inr u, w3)"
            then have "held_zones w3" by (rule add [OF _ w2]) (simp_all add: new_claim_def)
            then show "held_zones (snd (Ok (new_claim now fresh p user name), w3))" by simp
          qed
          then show ?thesis using False by simp
        qed (use assms(1) w2 in simp)
      qed
    qed (use assms(1) w1 in simp)
  qed
qed

lemma mint_key_same:
  "mint_key key res d = Inr (d1, res1) \<Longrightarrow>
   dm_id d1 = dm_id d \<and> dm_domain d1 = dm_domain d \<and> dm_project_id d1 = dm_project_id d \<and>
   ck_ownership res1 = ck_ownership res \<and> dm_verified d1 = dm_verified d"
  by (auto simp: mint_key_def split: if_splits sum.splits)

lemma verified_row_same:
  "dm_id (verified_row now d res) = dm_id d" "dm_domain (verified_row now d res) = dm_domain d"
  "dm_project_id (verified_row now d res) = dm_project_id d"
  "dm_verified (verified_row now d res) = ck_ownership res"
  by (auto simp: verified_row_def cutOver_def Let_def split: prod.splits)

lemma Drop_held:
  "held_zones w \<Longrightarrow> DropStaleClaims name p w = (r, w') \<Longrightarrow> held_zones w'"
  unfolding DropStaleClaims_def by (erule Run_held) (simp_all add: drop_domains_held)

lemma Delete_held:
  "held_zones w \<Longrightarrow> DeleteDomain p i w = (r, w') \<Longrightarrow> held_zones w'"
  unfolding DeleteDomain_def by (erule Run_held) (simp_all add: drop_domains_held)

lemma finish_held:
  assumes "held_zones w" "d0 \<in> set (dd_domains (fst w))"
    "dm_verified d0 \<or> \<not> zone_taken (dm_domain d0) (dm_project_id d0) (fst w)"
  shows "held_zones (snd (verify_finish now lookup key d0 w))"
proof (cases "mint_key key (CheckAll lookup d0) d0")
  case (Inl e)
  then show ?thesis using assms(1) by (simp add: verify_finish_def)
next
  case (Inr p)
  obtain d1 res where p: "p = (d1, res)" by (cases p)
  note same = mint_key_same [OF Inr [unfolded p]]
  let ?d = "verified_row now d1 res"
  have put: "held_zones w1" if "PutDomain now ?d w = (r, w1)" for r w1
    by (rule Put_held [OF that assms(1,2)]) (use same assms(3) in \<open>simp_all add: verified_row_same\<close>)
  show ?thesis
    unfolding verify_finish_def Inr p sum.case prod.case Let_def
  proof (rule Answer_held, goal_cases)
    case (1 e w1)
    then show ?case by (rule put)
  next
    case (2 u w1)
    then have "held_zones w1" by (rule put)
    then have "held_zones (snd (Answer (DropStaleClaims (dm_domain ?d) (dm_project_id ?d) w1) (\<lambda>_ w. (Ok ?d, w))))"
      by (intro Answer_held) (simp_all add: Drop_held)
    then show ?case using \<open>held_zones w1\<close> by simp
  qed
qed

lemma begin_Ok:
  assumes "verify_begin p i w = (Ok d, w')" "held_zones w"
  shows "fst w' = fst w \<and> d \<in> set (dd_domains (fst w)) \<and>
    (dm_verified d \<or> \<not> zone_taken (dm_domain d) (dm_project_id d) (fst w))"
  using assms(1) unfolding verify_begin_def
proof (cases rule: Answer_cases)
  case (ran x w1)
  then obtain d1 where x: "x = Some d1" by (auto split: option.splits)
  note got = GetDomain_Some [OF ran(1) [unfolded x]]
  have cl: "clean (dm_domain d1)" using got assms(2) by (simp add: zone_inv_def)
  show ?thesis
  proof (cases "dm_verified d1")
    case True
    then show ?thesis using ran(2) x got by simp
  next
    case False
    with ran(2) x have "Answer (ZoneTakenByAnother (dm_domain d1) p w1)
       (\<lambda>taken w. if taken then (Conflict zoneTaken, w) else (Ok d1, w)) = (Ok d, w')" by simp
    then show ?thesis
    proof (cases rule: Answer_cases)
      case (ran taken w2)
      then show ?thesis using got ZoneTaken_Inr [OF ran(1) cl] by (auto split: if_splits)
    qed simp
  qed
qed simp

lemma begin_state: "fst (snd (verify_begin p i w)) = fst w"
  unfolding verify_begin_def
proof (rule Answer_same, goal_cases)
  case (1 e w1)
  then show ?case by (rule GetDomain_state)
next
  case (2 x w1)
  then have w1: "fst w1 = fst w" by (rule GetDomain_state)
  then show ?case
  proof (cases x)
    case (Some d)
    have "fst (snd (Answer (ZoneTakenByAnother (dm_domain d) p w1)
       (\<lambda>taken w. if taken then (Conflict zoneTaken, w) else (Ok d, w)))) = fst w"
      using w1 by (intro Answer_same) (auto dest: ZoneTaken_state)
    then show ?thesis using Some w1 by simp
  qed (use w1 in simp)
qed

lemma Verify_held:
  assumes "held_zones w"
  shows "held_zones (snd (Verify now lookup key p i w))"
proof -
  obtain r w1 where Pair: "verify_begin p i w = (r, w1)" by (rule prod.exhaust)
  show ?thesis
  proof (cases "\<exists>d. r = Ok d")
    case True
    then obtain d where r: "r = Ok d" by blast
    have b: "fst w1 = fst w \<and> d \<in> set (dd_domains (fst w)) \<and>
      (dm_verified d \<or> \<not> zone_taken (dm_domain d) (dm_project_id d) (fst w))"
      by (rule begin_Ok [OF Pair [unfolded r] assms])
    have "held_zones (snd (verify_finish now lookup key d w1))"
      by (rule finish_held) (use b assms in simp_all)
    then show ?thesis by (simp add: Verify_def Pair r)
  next
    case False
    then have "snd (Verify now lookup key p i w) = w1"
      by (cases r) (auto simp: Verify_def Pair)
    then show ?thesis using begin_state [of p i w] assms by (simp add: Pair)
  qed
qed

lemma found_held:
  assumes "held_zones w"
    "\<And>w1. held_zones w1 \<Longrightarrow> held_zones (snd (k None w1))"
    "\<And>d w1. held_zones w1 \<Longrightarrow> d \<in> set (dd_domains (fst w1)) \<Longrightarrow> held_zones (snd (k (Some d) w1))"
  shows "held_zones (snd (Answer (GetDomain p i w) k))"
proof (rule Answer_held)
  fix e w1
  assume "GetDomain p i w = (Inl e, w1)"
  then show "held_zones w1" using assms(1) GetDomain_state by metis
next
  fix x w1
  assume g: "GetDomain p i w = (Inr x, w1)"
  then have w1: "held_zones w1" using assms(1) GetDomain_state by metis
  show "held_zones (snd (k x w1))"
  proof (cases x)
    case None
    then show ?thesis using assms(2) w1 by simp
  next
    case (Some d)
    then show ?thesis using GetDomain_Some [of p i w d w1] g w1 by (auto intro!: assms(3))
  qed
qed

lemma rewrite_held:
  assumes "held_zones w" "d \<in> set (dd_domains (fst w))"
    "dm_id d' = dm_id d" "dm_domain d' = dm_domain d" "dm_verified d' = dm_verified d"
  shows "held_zones (snd (Answer (PutDomain now d' w) (\<lambda>_ w. (y, w))))"
proof (rule Answer_held)
  fix e w1
  assume "PutDomain now d' w = (Inl e, w1)"
  then show "held_zones w1" by (rule Put_held [OF _ assms(1,2)]) (simp_all add: assms(3-5))
next
  fix u w1
  assume "PutDomain now d' w = (Inr u, w1)"
  then have "held_zones w1" by (rule Put_held [OF _ assms(1,2)]) (simp_all add: assms(3-5))
  then show "held_zones (snd (y, w1))" by simp
qed

lemma grants_held:
  assumes "Run (\<lambda>s. (s\<lparr>dd_grants := g s\<rparr>, x s)) w = (r, w')" "held_zones w"
  shows "held_zones w'"
  by (rule Run_held [OF assms]) (use assms(2) in simp)

lemma Grant_held: "Grant a b c n w = (r, w') \<Longrightarrow> held_zones w \<Longrightarrow> held_zones w'"
  unfolding Grant_def by (erule Run_held) (simp_all)

lemma Read_held: "Read q w = (r, w') \<Longrightarrow> held_zones w \<Longrightarrow> held_zones w'"
  by (drule Read_state) simp

lemma ListGrants_held: "ListGrants p a w = (r, w') \<Longrightarrow> held_zones w \<Longrightarrow> held_zones w'"
  unfolding ListGrants_def by (rule Read_held)

text \<open>A name the validator accepts is stored in its normal form.\<close>

lemma trim_space_id: "\<not> is_space (hd s) \<Longrightarrow> \<not> is_space (last s) \<Longrightarrow> trim_space s = s"
proof (cases s)
  case (Cons c cs)
  assume h: "\<not> is_space (hd s)" "\<not> is_space (last s)"
  have "dropWhile is_space s = s" using h(1) Cons by simp
  moreover have "dropWhile is_space (rev s) = rev s"
    using h(2) Cons by (metis dropWhile_eq_self_iff hd_rev list.distinct(1) rev_is_Nil_conv)
  ultimately show ?thesis by (simp add: trim_space_def)
qed (simp add: trim_space_def)

lemma space_lower [simp]: "is_space (lower_char c) \<longleftrightarrow> is_space c"
  by (auto simp: is_space_def lower_char_def)

lemma dot_lower [simp]: "lower_char c = CHR ''.'' \<longleftrightarrow> c = CHR ''.''"
proof -
  have "(of_char (lower_char c) :: nat) = 46 \<longleftrightarrow> (of_char c :: nat) = 46"
    by (auto simp: lower_char_def)
  moreover have "(of_char c :: nat) = 46 \<longleftrightarrow> c = CHR ''.''" for c
    using of_char_eq_iff [where 'a = nat, of c "CHR ''.''"] by simp
  ultimately show ?thesis by blast
qed

lemma host_not_space: "host_char c \<Longrightarrow> \<not> is_space c"
  by (auto simp: host_char_def is_space_def Let_def)

lemma host_not_dot: "host_char c \<Longrightarrow> c \<noteq> CHR ''.''"
  by (auto simp: host_char_def Let_def)

lemma join_hd: "l \<noteq> [] \<Longrightarrow> hd (join sep (l # ls)) = hd l"
  by (cases ls) auto

lemma join_last:
  "ls \<noteq> [] \<Longrightarrow> last ls \<noteq> [] \<Longrightarrow> join sep ls \<noteq> [] \<and> last (join sep ls) = last (last ls)"
  by (induction sep ls rule: join.induct) auto

lemma Valid_ends:
  assumes "Valid n"
  shows "trim_dot n \<noteq> [] \<and> host_char (hd (trim_dot n)) \<and> host_char (last (trim_dot n))"
proof -
  let ?m = "trim_dot n"
  obtain l ls where sp: "split_at (CHR ''.'') ?m = l # ls" by (cases "split_at (CHR ''.'') ?m") auto
  have all: "list_all label_valid (l # ls)" "?m \<noteq> []" using assms sp by (simp_all add: Valid_def Let_def)
  then have l: "l \<noteq> []" "host_char (hd l)" by (auto simp: label_valid_def list_all_iff)
  have "label_valid (last (l # ls))" using all(1) by (metis last_in_set list.distinct(1) list_all_iff)
  then have r: "last (l # ls) \<noteq> []" "host_char (last (last (l # ls)))" by (auto simp: label_valid_def list_all_iff)
  have m: "?m = join ''.'' (l # ls)" using join_split_at [of "CHR ''.''" ?m] sp by simp
  show ?thesis
    using all(2) l(2) r(2) join_hd [OF l(1)] join_last [OF _ r(1)] unfolding m by simp
qed

lemma Valid_normal:
  assumes "Valid n"
  shows "normalizeName n = to_lower (trim_dot n)" "clean (normalizeName n)"
    "two_labels (trim_dot n) \<Longrightarrow> two_labels (normalizeName n)"
proof -
  let ?m = "trim_dot n"
  note ends = Valid_ends [OF assms]
  have n: "n = ?m \<or> n = ?m @ ''.''"
    unfolding trim_dot_def using append_butlast_last_id [of n] by (cases "n \<noteq> [] \<and> last n = CHR ''.''") auto
  have "trim_space n = n"
  proof (rule trim_space_id)
    show "\<not> is_space (hd n)" using n ends host_not_space by (metis hd_append2)
    show "\<not> is_space (last n)"
      using n
    proof
      assume "n = ?m"
      then show ?thesis using ends host_not_space by metis
    next
      assume "n = ?m @ ''.''"
      then have "last n = CHR ''.''" by (metis last_snoc)
      then show ?thesis by (simp add: is_space_def)
    qed
  qed
  then show norm: "normalizeName n = to_lower ?m" by (simp add: normalizeName_def)
  have low: "trim_space (to_lower ?m) = to_lower ?m" "trim_dot (to_lower ?m) = to_lower ?m"
    using ends host_not_space host_not_dot
    by (auto simp: to_lower_def hd_map last_map trim_dot_def intro!: trim_space_id)
  show "clean (normalizeName n)" unfolding norm clean_def by (simp add: low)
  show "two_labels (normalizeName n)" if "two_labels ?m"
    using that unfolding norm two_labels_def to_lower_def by (force simp: image_iff lower_char_def)
qed

lemma serve_held:
  assumes "held_zones w" "admitted fqdn c (fst w)" "\<And>n. fqdn n \<Longrightarrow> Valid n \<and> two_labels (trim_dot n)"
  shows "held_zones (serve c w)"
proof (cases c)
  case (CreateCall now hold fresh p user name)
  then have "Valid (trim_dot name)" "two_labels (trim_dot (trim_dot name))" using assms(2,3) by auto
  then show ?thesis
    using Valid_normal [of "trim_dot name"] assms(1,2) unfolding CreateCall
    by (simp only: serve.simps) (rule Create_held, simp_all)
next
  case (VerifyCall now lookup key p i)
  then show ?thesis using Verify_held [OF assms(1)] by simp
next
  case (RotateCall now key p i)
  then show ?thesis
    unfolding RotateCall serve.simps RotateDKIM_def
    by (intro found_held [OF assms(1)])
       (auto simp: Let_def split: sum.splits intro!: rewrite_held)
next
  case (CancelCall now p i)
  then show ?thesis
    unfolding CancelCall serve.simps CancelDKIMRotation_def
    by (intro found_held [OF assms(1)]) (auto simp: Let_def intro!: rewrite_held)
next
  case (DeleteCall p i)
  then show ?thesis
    unfolding DeleteCall serve.simps DeleteHandler_def
    by (intro found_held [OF assms(1)]) (auto intro!: Answer_held dest: Delete_held [rotated])
next
  case (ShareCall now user p i slug)
  have k: "held_zones (snd (Answer (Grant a b user now w1) (\<lambda>_ w. Answer (ListGrants p a w) (\<lambda>gs w. (Ok gs, w)))))"
    if "held_zones w1" for a b w1
  proof (rule Answer_held)
    fix e w2
    assume "Grant a b user now w1 = (Inl e, w2)"
    then show "held_zones w2" using that by (rule Grant_held)
  next
    fix u w2
    assume "Grant a b user now w1 = (Inr u, w2)"
    then have "held_zones w2" using that by (rule Grant_held)
    then show "held_zones (snd (Answer (ListGrants p a w2) (\<lambda>gs w. (Ok gs, w))))"
      using ListGrants_held by (intro Answer_held) simp_all
  qed
  show ?thesis
    unfolding ShareCall serve.simps Share_def
    apply (intro found_held [OF assms(1)])
     apply simp
    subgoal for d w1
      using k by (auto split: option.splits intro!: Answer_held dest: Read_held)
    done
next
  case (AcceptCall now p i)
  have a: "held_zones w1" if "AcceptGrant i p now w = (r, w1)" for r w1
    using that assms(1) unfolding AcceptGrant_def by (rule grants_held)
  show ?thesis
    unfolding AcceptCall serve.simps AcceptShare_def GetShared_def
    by (intro Answer_held) (auto split: option.splits intro!: Answer_held dest: a Read_held)
next
  case (LeaveCall p i)
  have a: "held_zones w1" if "Revoke i p w = (r, w1)" for r w1
    using that assms(1) unfolding Revoke_def by (rule grants_held)
  show ?thesis
    unfolding LeaveCall serve.simps LeaveShare_def by (intro Answer_held) (auto dest: a)
next
  case (UnshareCall p i grantee)
  have a: "held_zones w2" if "Revoke j grantee w1 = (r, w2)" "held_zones w1" for j r w1 w2
    using that unfolding Revoke_def by (rule grants_held)
  show ?thesis
    unfolding UnshareCall serve.simps Unshare_def
    by (intro found_held [OF assms(1)]) (auto intro!: Answer_held dest: a)
qed

lemma reachable_held:
  assumes "domain_reachable fqdn s" "\<And>n. fqdn n \<Longrightarrow> Valid n \<and> two_labels (trim_dot n)"
  shows "zone_inv (dd_domains s)"
  using assms(1)
proof induction
  case (start s)
  then show ?case by (simp add: zone_inv_def unique_names_def)
next
  case (call s c fs)
  then show ?case using serve_held [of "(s, fs)" fqdn c] assms(2) by simp
qed

lemma Covering_at:
  "x \<in> set (Covering name) \<Longrightarrow>
   \<exists>i. i < length (split_at (CHR ''.'') (to_lower (trim_dot (trim_space name)))) - 1 \<and>
       x = join ''.'' (drop i (split_at (CHR ''.'') (to_lower (trim_dot (trim_space name)))))"
  by (auto simp: Covering_def Let_def split: if_splits)

lemma drop_join_below:
  assumes "i < j" "j < length ls"
  shows "below (join ''.'' (drop j ls)) (join ''.'' (drop i ls))"
proof -
  have "drop i ls = take (j - i) (drop i ls) @ drop j ls"
    using assms by (metis append_take_drop_id drop_drop le_add_diff_inverse2 less_imp_le_nat)
  moreover have "take (j - i) (drop i ls) \<noteq> []" "drop j ls \<noteq> []" using assms by auto
  ultimately have "join ''.'' (drop i ls) = join ''.'' (take (j - i) (drop i ls)) @ ''.'' @ join ''.'' (drop j ls)"
    by (metis join_append)
  then show ?thesis by (auto simp: below_def)
qed

lemma Covering_nested:
  assumes "a \<in> set (Covering name)" "b \<in> set (Covering name)"
  shows "a = b \<or> below a b \<or> below b a"
proof -
  let ?ls = "split_at (CHR ''.'') (to_lower (trim_dot (trim_space name)))"
  from Covering_at [OF assms(1)] Covering_at [OF assms(2)] obtain i j where
    ij: "i < length ?ls - 1" "a = join ''.'' (drop i ?ls)" "j < length ?ls - 1" "b = join ''.'' (drop j ?ls)" by blast
  consider "i = j" | "i < j" | "j < i" by linarith
  then show ?thesis
    by cases (use ij drop_join_below [of i j ?ls] drop_join_below [of j i ?ls] in auto)
qed

text \<open>
  C22: As long as each handler runs on its own, all verified domains on the way up from any name
  belong to one project, whatever projects claim, verify, rotate, share and delete and whatever
  statements fail: nobody holds a name inside a zone another project verified.
\<close>

theorem zone_one_owner:
  assumes "domain_reachable fqdn s" "\<And>n. fqdn n \<Longrightarrow> Valid n \<and> two_labels (trim_dot n)"
    "covers s name d" "covers s name r"
  shows "dm_project_id d = dm_project_id r"
proof -
  have inv: "zone_inv (dd_domains s)" using reachable_held [OF assms(1,2)] .
  from Covering_nested assms(3,4) consider "dm_domain d = dm_domain r" | "below (dm_domain d) (dm_domain r)"
    | "below (dm_domain r) (dm_domain d)" by (force simp: covers_def)
  then show ?thesis
  proof cases
    case 1
    then have "d = r"
      using inv assms(3,4) by (auto simp: zone_inv_def covers_def intro: verified_name_unique)
    then show ?thesis by simp
  qed (use inv assms(3,4) in \<open>auto simp: zone_inv_def covers_def\<close>)
qed

definition dns_sample :: lookup_txt where
  "dns_sample name = Inr [''mailyard-verification=t1'']"

definition claim_and_verify :: "string \<Rightarrow> string \<Rightarrow> string \<Rightarrow> domain_call list" where
  "claim_and_verify p i name =
     [CreateCall 1 None (i, ''t1'') p ''u'' name, VerifyCall 2 dns_sample (Inr (''k'', ''k'')) p i]"

definition fqdn_sample :: "string \<Rightarrow> bool" where
  "fqdn_sample n = (Valid n \<and> two_labels (trim_dot n))"

definition no_domains :: domain_db where
  "no_domains = \<lparr>dd_domains = [], dd_grants = [], dd_projects = []\<rparr>"

definition serve_all :: "domain_call list \<Rightarrow> domain_db \<Rightarrow> domain_db" where
  "serve_all cs s = fold (\<lambda>c s. fst (serve c (s, []))) cs s"

fun admitted_all :: "domain_call list \<Rightarrow> domain_db \<Rightarrow> bool" where
  "admitted_all [] s = True"
| "admitted_all (c # cs) s = (admitted fqdn_sample c s \<and> admitted_all cs (fst (serve c (s, []))))"

lemma serve_all_reachable:
  "domain_reachable fqdn_sample s \<Longrightarrow> admitted_all cs s \<Longrightarrow> domain_reachable fqdn_sample (serve_all cs s)"
  by (induction cs arbitrary: s) (auto simp: serve_all_def intro: domain_reachable.call)

definition two_zones :: domain_db where
  "two_zones = serve_all (claim_and_verify ''p'' ''d1'' ''Example.com.'' @ claim_and_verify ''p'' ''d2'' ''mail.example.com'') no_domains"

lemma two_zones_admitted: "admitted_all (claim_and_verify ''p'' ''d1'' ''Example.com.'' @ claim_and_verify ''p'' ''d2'' ''mail.example.com'') no_domains"
  by code_simp

lemma two_zones_rows: "map (\<lambda>d. (dm_id d, dm_domain d, dm_verified d)) (dd_domains two_zones) =
   [(''d1'', ''example.com'', True), (''d2'', ''mail.example.com'', True)]"
  by code_simp

theorem zone_one_owner_witness:
  "\<exists>s d r. domain_reachable fqdn_sample s \<and> d \<noteq> r \<and> covers s ''a.mail.example.com'' d \<and>
     covers s ''a.mail.example.com'' r \<and> dm_project_id d = dm_project_id r"
proof -
  have reach: "domain_reachable fqdn_sample two_zones"
    unfolding two_zones_def
    by (rule serve_all_reachable [OF domain_reachable.start two_zones_admitted]) (simp add: no_domains_def)
  have "map dm_domain (filter (covers two_zones ''a.mail.example.com'') (dd_domains two_zones)) = [''example.com'', ''mail.example.com'']"
    unfolding covers_def by code_simp
  then obtain d r where dr: "filter (covers two_zones ''a.mail.example.com'') (dd_domains two_zones) = [d, r]"
    "dm_domain d = ''example.com''" "dm_domain r = ''mail.example.com''"
    by (auto simp: map_eq_Cons_conv)
  have both: "covers two_zones ''a.mail.example.com'' d" "covers two_zones ''a.mail.example.com'' r"
    using arg_cong [OF dr(1), of set] by auto
  have "dm_project_id d = dm_project_id r"
    by (rule zone_one_owner [OF reach _ both]) (simp add: fqdn_sample_def)
  moreover have "d \<noteq> r" using dr(2,3) by auto
  ultimately show ?thesis using reach both by blast
qed

text \<open>
  The check and the write of a verification are two statements with the DNS lookups between them.
  Two projects verifying nested names at the same time both pass the check, and the second write
  even brings back the claim the first one dropped.
\<close>

definition race_start :: dworld where
  "race_start = (serve_all [CreateCall 1 None (''d1'', ''t1'') ''p'' ''u'' ''example.com'',
     CreateCall 1 None (''d2'', ''t1'') ''q'' ''u'' ''mail.example.com''] no_domains, [])"

definition raced :: domain_db where
  "raced =
     (case (fst (verify_begin ''p'' ''d1'' race_start), fst (verify_begin ''q'' ''d2'' race_start)) of
        (Ok a, Ok b) \<Rightarrow>
          fst (snd (verify_finish 3 dns_sample (Inr (''k'', ''k'')) b
            (snd (verify_finish 3 dns_sample (Inr (''k'', ''k'')) a race_start))))
      | _ \<Rightarrow> no_domains)"

lemma nested_zones_race:
  "map (\<lambda>d. (dm_project_id d, dm_domain d, dm_verified d)) (dd_domains raced) =
     [(''p'', ''example.com'', True), (''q'', ''mail.example.com'', True)]"
  by code_simp

section \<open>Consent\<close>

text \<open>The calls on grants other than the acceptance by one project.\<close>

fun offers_only :: "string \<Rightarrow> domain_call \<Rightarrow> bool" where
  "offers_only q (ShareCall now user p i slug) = True"
| "offers_only q (AcceptCall now p i) = (p \<noteq> q)"
| "offers_only q (LeaveCall p i) = True"
| "offers_only q (UnshareCall p i grantee) = True"
| "offers_only q _ = False"

definition accepted_by :: "string \<Rightarrow> domain_db \<Rightarrow> string set" where
  "accepted_by q s = gr_domain_id ` {g \<in> set (dd_grants s). gr_project_id g = q \<and> gr_accepted_at g \<noteq> None}"

definition no_gain :: "string \<Rightarrow> domain_db \<Rightarrow> domain_db \<Rightarrow> bool" where
  "no_gain q s s' = (dd_domains s' = dd_domains s \<and> accepted_by q s' \<subseteq> accepted_by q s)"

lemma authorised_accepted:
  "authorised s name q d \<longleftrightarrow> closest s name d \<and>
     (dm_project_id d = q \<or> (\<exists>r. covers s name r \<and> dm_project_id r = dm_project_id d \<and> dm_id r \<in> accepted_by q s))"
  unfolding authorised_def accepted_by_def by (auto simp: image_iff)

lemma authorised_no_gain:
  assumes "no_gain q s s'" "authorised s' name q d"
  shows "authorised s name q d"
proof -
  have "covers s' = covers s" using assms(1) by (intro ext) (simp add: covers_def no_gain_def)
  then have "closest s' = closest s" "covers s' = covers s" by (auto simp: closest_def fun_eq_iff)
  then show ?thesis using assms unfolding authorised_accepted no_gain_def by auto
qed

lemma no_gain_refl [simp]: "no_gain q s s"
  by (simp add: no_gain_def)

lemma Read_no_gain: "Read f w = (r, w') \<Longrightarrow> no_gain q s (fst w) \<Longrightarrow> no_gain q s (fst w')"
  by (drule Read_state) simp

lemma Run_no_gain:
  "Run st w = (r, w') \<Longrightarrow> no_gain q s (fst w) \<Longrightarrow> no_gain q s (fst (st (fst w))) \<Longrightarrow> no_gain q s (fst w')"
  by (drule Run_state) auto

lemma Grant_no_gain:
  assumes "Grant i p user now w = (r, w')" "no_gain q s (fst w)"
  shows "no_gain q s (fst w')"
  by (rule Run_no_gain [OF assms(1) [unfolded Grant_def] assms(2)])
     (use assms(2) in \<open>auto simp: no_gain_def accepted_by_def\<close>)

lemma Revoke_no_gain:
  assumes "Revoke i p w = (r, w')" "no_gain q s (fst w)"
  shows "no_gain q s (fst w')"
  by (rule Run_no_gain [OF assms(1) [unfolded Revoke_def] assms(2)])
     (use assms(2) in \<open>auto simp: no_gain_def accepted_by_def\<close>)

lemma Accept_no_gain:
  assumes "AcceptGrant i p now w = (r, w')" "no_gain q s (fst w)" "p \<noteq> q"
  shows "no_gain q s (fst w')"
  by (rule Run_no_gain [OF assms(1) [unfolded AcceptGrant_def] assms(2)])
     (use assms(2,3) in \<open>auto simp: no_gain_def accepted_by_def grant_of_def set_sql_update\<close>)

lemma Answer_no_gain:
  assumes "\<And>e w. r = (Inl e, w) \<Longrightarrow> no_gain q s (fst w)" "\<And>x w. r = (Inr x, w) \<Longrightarrow> no_gain q s (fst (snd (k x w)))"
  shows "no_gain q s (fst (snd (Answer r k)))"
  by (rule Answer_inv) (fact assms)+

lemma GetDomain_no_gain: "GetDomain p i w = (r, w') \<Longrightarrow> no_gain q s (fst w) \<Longrightarrow> no_gain q s (fst w')"
  unfolding GetDomain_def by (rule Read_no_gain)

lemma ListGrants_no_gain: "ListGrants p i w = (r, w') \<Longrightarrow> no_gain q s (fst w) \<Longrightarrow> no_gain q s (fst w')"
  unfolding ListGrants_def by (rule Read_no_gain)

lemma GetShared_no_gain: "GetShared p i w = (r, w') \<Longrightarrow> no_gain q s (fst w) \<Longrightarrow> no_gain q s (fst w')"
  unfolding GetShared_def by (rule Read_no_gain)

lemmas no_gain_rules = Grant_no_gain Revoke_no_gain Accept_no_gain GetDomain_no_gain ListGrants_no_gain
  GetShared_no_gain Read_no_gain

lemma offers_no_gain:
  assumes "offers_only q c"
  shows "no_gain q s (fst (serve c (s, fs)))"
proof (cases c)
  case (ShareCall now user p i slug)
  have k: "no_gain q s (fst (snd (Answer (Grant a b user now w1) (\<lambda>_ w. Answer (ListGrants p a w) (\<lambda>gs w. (Ok gs, w))))))"
    if "no_gain q s (fst w1)" for a b w1
    by (rule Answer_no_gain, erule Grant_no_gain [OF _ that], rule Answer_no_gain)
       (auto dest!: ListGrants_no_gain Grant_no_gain [OF _ that])
  show ?thesis
    unfolding ShareCall serve.simps Share_def
    apply (rule Answer_no_gain)
     apply (erule GetDomain_no_gain, simp)
    subgoal for x w
      using k by (auto dest!: GetDomain_no_gain [where q = q and s = s] split: option.splits intro!: Answer_no_gain
          dest: Read_no_gain)
    done
qed (use assms in \<open>auto simp: AcceptShare_def LeaveShare_def Unshare_def split: option.splits
       intro!: Answer_no_gain dest!: no_gain_rules\<close>)

text \<open>
  C24: Sharing a domain, leaving or ending a share, and another project's acceptance never let a
  project send as a name it could not send as before: only its own acceptance does.
\<close>

theorem acceptance_needed:
  assumes "offers_only q c" "authorised (fst (serve c (s, fs))) name q d"
  shows "authorised s name q d"
  by (rule authorised_no_gain [OF offers_no_gain [OF assms(1)] assms(2)])

definition shared_zone :: domain_db where
  "shared_zone = serve_all [ShareCall 5 ''u'' ''p'' ''d1'' ''other'', AcceptCall 6 ''q'' ''d1'']
     (two_zones\<lparr>dd_projects := [\<lparr>pj_id = ''q'', pj_name = ''Q'', pj_slug = ''other'', pj_bounce_address = []\<rparr>]\<rparr>)"

theorem acceptance_needed_witness:
  "\<exists>d. dm_domain d = ''mail.example.com'' \<and> dm_project_id d = ''p'' \<and>
     authorised shared_zone ''mail.example.com'' ''q'' d"
proof -
  let ?s' = "fst (serve (ShareCall 7 ''u'' ''p'' ''d2'' ''other'') (shared_zone, []))"
  have "map_option (\<lambda>d. (dm_domain d, dm_project_id d))
      (case fst (GetVerifiedCoveringFor ''mail.example.com'' ''q'' (?s', [])) of Inl e \<Rightarrow> None | Inr x \<Rightarrow> x)
      = Some (''mail.example.com'', ''p'')"
    by code_simp
  then obtain d where d: "dm_domain d = ''mail.example.com''" "dm_project_id d = ''p''"
    "authorised ?s' ''mail.example.com'' ''q'' d"
    unfolding GetVerifiedCoveringFor_calm by (auto split: list.splits if_splits)
  have "authorised shared_zone ''mail.example.com'' ''q'' d"
    by (rule acceptance_needed [OF _ d(3)]) simp
  with d show ?thesis by blast
qed

theorem send_authority_witness:
  "\<exists>d. GetVerifiedCoveringFor ''x.mail.example.com'' ''q'' (shared_zone, []) = (Inr (Some d), (shared_zone, [])) \<and>
     authorised shared_zone ''x.mail.example.com'' ''q'' d"
proof -
  have un: "unique_names (dd_domains shared_zone)" by code_simp
  have "(case fst (GetVerifiedCoveringFor ''x.mail.example.com'' ''q'' (shared_zone, [])) of Inl e \<Rightarrow> None | Inr x \<Rightarrow> x) \<noteq> None"
    by code_simp
  then obtain d where "authorised shared_zone ''x.mail.example.com'' ''q'' d"
    unfolding GetVerifiedCoveringFor_calm by (auto split: list.splits if_splits)
  then show ?thesis using send_authority [OF un, of "''x.mail.example.com''" "''q''" d] by blast
qed

section \<open>Signing keys\<close>

type_synonym signing = "string \<times> string \<times> string"

definition signing_of :: "domain_row \<Rightarrow> signing" where
  "signing_of d = (dm_dkim_selector d, dm_dkim_private_key d, dm_dkim_public_key d)"

definition pending_of :: "domain_row \<Rightarrow> signing" where
  "pending_of d = (dm_next_selector d, dm_next_private_key d, dm_next_public_key d)"

definition signs_with :: "string \<Rightarrow> signing set \<Rightarrow> dworld \<Rightarrow> bool" where
  "signs_with i ks w = (\<forall>d \<in> set (dd_domains (fst w)). dm_id d = i \<longrightarrow> signing_of d \<in> ks)"

lemma signs_same: "fst w' = fst w \<Longrightarrow> signs_with i ks w \<Longrightarrow> signs_with i ks w'"
  by (simp add: signs_with_def)

lemma Put_signs:
  assumes "PutDomain now d w = (r, w')" "signs_with i ks w" "dm_id d = i \<Longrightarrow> signing_of d \<in> ks"
  shows "signs_with i ks w'"
  using PutDomain_cases [OF assms(1)] assms(2,3)
  by (auto simp: signs_with_def Let_def upsert_row_def set_sql_update merge_row_def signing_of_def split: if_splits)

lemma Run_signs:
  assumes "Run st w = (r, w')" "signs_with i ks w" "set (dd_domains (fst (st (fst w)))) \<subseteq> set (dd_domains (fst w))"
  shows "signs_with i ks w'"
  using Run_state [OF assms(1)] assms(2,3) by (auto simp: signs_with_def)

lemma Answer_signs:
  assumes "\<And>e w. r = (Inl e, w) \<Longrightarrow> signs_with i ks w" "\<And>x w. r = (Inr x, w) \<Longrightarrow> signs_with i ks (snd (k x w))"
  shows "signs_with i ks (snd (Answer r k))"
  by (rule Answer_inv) (fact assms)+

lemma GetDomain_signs: "GetDomain p j w = (r, w') \<Longrightarrow> signs_with i ks w \<Longrightarrow> signs_with i ks w'"
  by (drule GetDomain_state) (rule signs_same)

lemma Drop_signs: "DropStaleClaims n p w = (r, w') \<Longrightarrow> signs_with i ks w \<Longrightarrow> signs_with i ks w'"
  unfolding DropStaleClaims_def by (erule Run_signs) (auto simp: drop_domains_def)

lemma Delete_signs: "DeleteDomain p j w = (r, w') \<Longrightarrow> signs_with i ks w \<Longrightarrow> signs_with i ks w'"
  unfolding DeleteDomain_def by (erule Run_signs) (auto simp: drop_domains_def)

definition published_pending :: "lookup_txt \<Rightarrow> domain_row \<Rightarrow> bool" where
  "published_pending lookup d =
     (Rotating d \<and> publishedKey lookup (dm_domain d) (dm_next_selector d) (dm_next_public_key d))"

lemma verified_row_signing:
  "signing_of (verified_row now d res) = signing_of d \<or>
   Rotating d \<and> ck_dkim_next res \<and> signing_of (verified_row now d res) = pending_of d"
  by (auto simp: verified_row_def cutOver_def Let_def signing_of_def pending_of_def Rotating_def)

lemma finish_signs:
  assumes "signs_with i ks w" "dm_id d = i \<Longrightarrow> dm_dkim_private_key d \<noteq> []" "dm_id d = i \<Longrightarrow> signing_of d \<in> ks"
    "dm_id d = i \<Longrightarrow> published_pending lookup d \<Longrightarrow> pending_of d \<in> ks"
  shows "signs_with i ks (snd (verify_finish now lookup key d w))"
proof (cases "mint_key key (CheckAll lookup d) d")
  case (Inl e)
  then show ?thesis using assms(1) by (simp add: verify_finish_def)
next
  case (Inr p)
  obtain d1 res where p: "p = (d1, res)" by (cases p)
  have keep: "d1 = d \<and> res = CheckAll lookup d" if "dm_id d = i"
    using Inr p assms(2) [OF that] by (auto simp: mint_key_def)
  let ?d = "verified_row now d1 res"
  have ok: "dm_id ?d = i \<Longrightarrow> signing_of ?d \<in> ks"
    using mint_key_same [OF Inr [unfolded p]] keep assms(3,4) verified_row_signing [of now d1 res]
    by (auto simp: verified_row_same CheckAll_def published_pending_def)
  have put: "signs_with i ks w1" if "PutDomain now ?d w = (r, w1)" for r w1
    by (rule Put_signs [OF that assms(1) ok])
  show ?thesis
    unfolding verify_finish_def Inr p sum.case prod.case Let_def
  proof (rule Answer_signs)
    fix e w1
    assume "PutDomain now ?d w = (Inl e, w1)"
    then show "signs_with i ks w1" by (rule put)
  next
    fix u w1
    assume "PutDomain now ?d w = (Inr u, w1)"
    then have "signs_with i ks w1" by (rule put)
    moreover from this have "signs_with i ks (snd (Answer (DropStaleClaims (dm_domain ?d) (dm_project_id ?d) w1) (\<lambda>_ w. (Ok ?d, w))))"
      by (intro Answer_signs) (simp_all add: Drop_signs)
    ultimately show "signs_with i ks (snd (if dm_verified ?d \<and> \<not> dm_verified d
         then Answer (DropStaleClaims (dm_domain ?d) (dm_project_id ?d) w1) (\<lambda>_ w. (Ok ?d, w)) else (Ok ?d, w1)))"
      by simp
  qed
qed

definition may_sign_with :: "domain_row \<Rightarrow> domain_call \<Rightarrow> signing set" where
  "may_sign_with d c =
     {signing_of d} \<union>
     (case c of VerifyCall now lookup key p i \<Rightarrow>
        if i = dm_id d \<and> published_pending lookup d then {pending_of d} else {} | _ \<Rightarrow> {})"

lemma found_signs:
  assumes "distinct (map dm_id (dd_domains (fst w)))" "d \<in> set (dd_domains (fst w))" "dm_id d = i" "signs_with i ks w"
    and none: "\<And>w1. signs_with i ks w1 \<Longrightarrow> signs_with i ks (snd (k None w1))"
    and some: "\<And>x w1. signs_with i ks w1 \<Longrightarrow> (dm_id x = i \<Longrightarrow> x = d) \<Longrightarrow> signs_with i ks (snd (k (Some x) w1))"
  shows "signs_with i ks (snd (Answer (GetDomain p j w) k))"
proof (rule Answer_signs)
  fix e w1
  assume "GetDomain p j w = (Inl e, w1)"
  then show "signs_with i ks w1" using assms(4) by (rule GetDomain_signs)
next
  fix x w1
  assume g: "GetDomain p j w = (Inr x, w1)"
  then have w1: "signs_with i ks w1" using assms(4) by (rule GetDomain_signs)
  show "signs_with i ks (snd (k x w1))"
  proof (cases x)
    case (Some y)
    then have "y \<in> set (dd_domains (fst w))" using GetDomain_Some g by blast
    then have "dm_id y = i \<Longrightarrow> y = d" using assms(1-3) by (auto simp: distinct_map dest: inj_onD)
    then show ?thesis unfolding Some by (rule some [OF w1])
  qed (use none w1 in simp)
qed

lemma grants_signs:
  "Run (\<lambda>s. (s\<lparr>dd_grants := g s\<rparr>, x s)) w = (r, w') \<Longrightarrow> signs_with i ks w \<Longrightarrow> signs_with i ks w'"
  by (erule Run_signs) simp_all

lemma Grant_signs: "Grant a b c n w = (r, w') \<Longrightarrow> signs_with i ks w \<Longrightarrow> signs_with i ks w'"
  unfolding Grant_def by (erule Run_signs) auto

lemma Read_signs: "Read f w = (r, w') \<Longrightarrow> signs_with i ks w \<Longrightarrow> signs_with i ks w'"
  by (drule Read_state) (rule signs_same)

lemma ListGrants_signs: "ListGrants p a w = (r, w') \<Longrightarrow> signs_with i ks w \<Longrightarrow> signs_with i ks w'"
  unfolding ListGrants_def by (rule Read_signs)

lemma GetShared_signs: "GetShared p a w = (r, w') \<Longrightarrow> signs_with i ks w \<Longrightarrow> signs_with i ks w'"
  unfolding GetShared_def by (rule Read_signs)

lemma Zone_signs: "ZoneTakenByAnother p a w = (r, w') \<Longrightarrow> signs_with i ks w \<Longrightarrow> signs_with i ks w'"
  unfolding ZoneTakenByAnother_def by (rule Read_signs)

lemma GetByNameIn_signs: "GetByNameIn p a w = (r, w') \<Longrightarrow> signs_with i ks w \<Longrightarrow> signs_with i ks w'"
  unfolding GetByNameIn_def by (rule Read_signs)

lemma Accept_signs: "AcceptGrant a b n w = (r, w') \<Longrightarrow> signs_with i ks w \<Longrightarrow> signs_with i ks w'"
  unfolding AcceptGrant_def by (rule grants_signs)

lemma Revoke_signs: "Revoke a b w = (r, w') \<Longrightarrow> signs_with i ks w \<Longrightarrow> signs_with i ks w'"
  unfolding Revoke_def by (rule grants_signs)

lemma put_answer_signs:
  assumes "signs_with i ks w" "dm_id d = i \<Longrightarrow> signing_of d \<in> ks"
  shows "signs_with i ks (snd (Answer (PutDomain now d w) (\<lambda>_ w. (y, w))))"
  by (rule Answer_signs) (auto dest: Put_signs [OF _ assms])

lemma begin_signs:
  assumes "signs_with i ks w"
  shows "signs_with i ks (snd (verify_begin p j w))"
  using signs_same [OF begin_state assms] .

lemma serve_signs:
  assumes dist: "distinct (map dm_id (dd_domains s))" and d: "d \<in> set (dd_domains s)"
    and key: "dm_dkim_private_key d \<noteq> []" and adm: "admitted fqdn c s"
  shows "signs_with (dm_id d) (may_sign_with d c) (serve c (s, fs))"
proof -
  have one: "x = d" if "x \<in> set (dd_domains s)" "dm_id x = dm_id d" for x
    using that dist d by (auto simp: distinct_map dest: inj_onD)
  have start: "signs_with (dm_id d) (may_sign_with d c) (s, fs)"
    using one by (auto simp: signs_with_def may_sign_with_def)
  have found: "signs_with (dm_id d) (may_sign_with d c) (snd (Answer (GetDomain p j (s, fs)) k))"
    if "\<And>w1. signs_with (dm_id d) (may_sign_with d c) w1 \<Longrightarrow> signs_with (dm_id d) (may_sign_with d c) (snd (k None w1))"
      "\<And>x w1. signs_with (dm_id d) (may_sign_with d c) w1 \<Longrightarrow> (dm_id x = dm_id d \<Longrightarrow> x = d) \<Longrightarrow>
         signs_with (dm_id d) (may_sign_with d c) (snd (k (Some x) w1))"
    for p j and k :: "domain_row option \<Rightarrow> dworld \<Rightarrow> 'z response \<times> dworld"
    by (rule found_signs [where d = d]) (use dist d start that in simp_all)
  have own: "signing_of d \<in> may_sign_with d c" by (simp add: may_sign_with_def)
  show ?thesis
  proof (cases c)
    case (CreateCall now hold fresh p user name)
    have "dm_id (new_claim now fresh p user (trim_dot name)) \<noteq> dm_id d"
      using adm d unfolding CreateCall by (auto simp: new_claim_def)
    then have put: "signs_with (dm_id d) ks w2"
      if "PutDomain now (new_claim now fresh p user (trim_dot name)) w1 = (r, w2)" "signs_with (dm_id d) ks w1" for r w1 w2 ks
      using that by (auto intro: Put_signs)
    then show ?thesis
      using start unfolding CreateCall serve.simps CreateDomain_def
      by (auto split: option.splits intro!: Answer_signs dest!: GetByNameIn_signs Zone_signs put)
  next
    case (VerifyCall now lookup key p i)
    obtain r w1 where b: "verify_begin p i (s, fs) = (r, w1)" by (rule prod.exhaust)
    have w1: "signs_with (dm_id d) (may_sign_with d c) w1" using begin_signs [OF start, of p i] b by simp
    show ?thesis
    proof (cases "\<exists>x. r = Ok x")
      case True
      then obtain x where r: "r = Ok x" by blast
      have x: "x \<in> set (dd_domains s) \<and> dm_id x = i" using b unfolding r verify_begin_def
        by (auto simp: Answer_def split: prod.splits sum.splits option.splits if_splits dest!: GetDomain_Some)
      have "signs_with (dm_id d) (may_sign_with d c) (snd (verify_finish now lookup key x w1))"
        by (rule finish_signs [OF w1]) (use x one key own VerifyCall in \<open>auto simp: may_sign_with_def\<close>)
      then show ?thesis unfolding VerifyCall by (simp add: Verify_def b r)
    next
      case False
      then have "snd (Verify now lookup key p i (s, fs)) = w1" by (cases r) (auto simp: Verify_def b)
      then show ?thesis using w1 unfolding VerifyCall by simp
    qed
  next
    case (RotateCall now key p i)
    show ?thesis
      unfolding RotateCall serve.simps RotateDKIM_def unfolding RotateCall [symmetric]
      by (intro found) (auto simp: Let_def split: sum.splits intro!: put_answer_signs, use own in \<open>auto simp: signing_of_def\<close>)
  next
    case (CancelCall now p i)
    show ?thesis
      unfolding CancelCall serve.simps CancelDKIMRotation_def unfolding CancelCall [symmetric]
      by (intro found) (auto simp: Let_def intro!: put_answer_signs, use own in \<open>auto simp: signing_of_def\<close>)
  next
    case (DeleteCall p i)
    show ?thesis
      unfolding DeleteCall serve.simps DeleteHandler_def unfolding DeleteCall [symmetric]
      by (intro found) (auto intro!: Answer_signs dest!: Delete_signs)
  next
    case (ShareCall now user p i slug)
    show ?thesis
      unfolding ShareCall serve.simps Share_def unfolding ShareCall [symmetric]
      by (intro found) (auto split: option.splits intro!: Answer_signs dest!: Grant_signs ListGrants_signs Read_signs)
  next
    case (AcceptCall now p i)
    then show ?thesis
      using start unfolding AcceptCall serve.simps AcceptShare_def
      by (auto split: option.splits intro!: Answer_signs dest!: Accept_signs GetShared_signs)
  next
    case (LeaveCall p i)
    then show ?thesis
      using start unfolding LeaveCall serve.simps LeaveShare_def by (auto intro!: Answer_signs dest!: Revoke_signs)
  next
    case (UnshareCall p i grantee)
    show ?thesis
      unfolding UnshareCall serve.simps Unshare_def unfolding UnshareCall [symmetric]
      by (intro found) (auto intro!: Answer_signs dest!: Revoke_signs)
  qed
qed

text \<open>
  C25: Once a domain has a signing key, a call changes it only by verifying the domain at a moment
  when the DNS publishes the pending key, and then to exactly that pending key: starting,
  repeating or cancelling a rotation, a failed lookup and a failed statement leave the key that
  signs as it is.
\<close>

theorem signing_key_cutover:
  assumes "distinct (map dm_id (dd_domains s))" "d \<in> set (dd_domains s)" "dm_dkim_private_key d \<noteq> []"
    "admitted fqdn c s" "d' \<in> set (dd_domains (fst (serve c (s, fs))))" "dm_id d' = dm_id d"
  shows "signing_of d' = signing_of d \<or>
    (\<exists>now lookup key p. c = VerifyCall now lookup key p (dm_id d) \<and> published_pending lookup d \<and>
       signing_of d' = pending_of d)"
proof -
  have "signing_of d' \<in> may_sign_with d c"
    using serve_signs [OF assms(1-4), of fs] assms(5,6) by (simp add: signs_with_def)
  then show ?thesis by (auto simp: may_sign_with_def split: domain_call.splits if_splits)
qed

definition rotating_zone :: domain_db where
  "rotating_zone = serve_all [RotateCall 5 (Inr (''n'', ''n'')) ''p'' ''d1''] two_zones"

definition dns_rotated :: lookup_txt where
  "dns_rotated name =
     Inr (if name = ''mailyard2._domainkey.example.com'' then [''v=DKIM1; k=rsa; p=n'']
          else [''mailyard-verification=t1''])"

lemma row_at: "map (\<lambda>d. (a d, b d)) rows = (x, y) # xs \<Longrightarrow> \<exists>d \<in> set rows. a d = x \<and> b d = y"
  by (cases rows) auto

theorem signing_key_cutover_witness:
  "\<exists>d d'. d \<in> set (dd_domains rotating_zone) \<and>
     d' \<in> set (dd_domains (fst (serve (VerifyCall 9 dns_rotated (Inl ''x'') ''p'' ''d1'') (rotating_zone, [])))) \<and>
     signing_of d = (''mailyard'', ''k'', ''k'') \<and> signing_of d' = (''mailyard2'', ''n'', ''n'') \<and> signing_of d' = pending_of d"
proof -
  let ?c = "VerifyCall 9 dns_rotated (Inl ''x'') ''p'' ''d1''"
  let ?s' = "fst (serve ?c (rotating_zone, []))"
  have dist: "distinct (map dm_id (dd_domains rotating_zone))" by code_simp
  have "map (\<lambda>d. (dm_id d, signing_of d)) (dd_domains rotating_zone) =
      [(''d1'', ''mailyard'', ''k'', ''k''), (''d2'', ''mailyard'', ''k'', ''k'')]" by code_simp
  from row_at [OF this] obtain d where d: "d \<in> set (dd_domains rotating_zone)" "dm_id d = ''d1''"
    "signing_of d = (''mailyard'', ''k'', ''k'')" by blast
  have "map (\<lambda>d. (dm_id d, signing_of d)) (dd_domains ?s') =
      [(''d1'', ''mailyard2'', ''n'', ''n''), (''d2'', ''mailyard'', ''k'', ''k'')]" by code_simp
  from row_at [OF this] obtain d' where d': "d' \<in> set (dd_domains ?s')" "dm_id d' = ''d1''"
    "signing_of d' = (''mailyard2'', ''n'', ''n'')" by blast
  have "signing_of d' = pending_of d"
    using signing_key_cutover [OF dist d(1) _ _ d'(1), of "\<lambda>_. True"] d d' by (auto simp: signing_of_def)
  then show ?thesis using d d' by blast
qed

end
