(* ===== verification/Servers.thy ===== *)
theory Servers
  imports Domains Safetext "HOL-Library.Product_Lexorder"
begin

text \<open>
  Outbound servers (\<^verbatim>\<open>internal/models/smtpserver\<close>, \<^verbatim>\<open>internal/domain/smtpserver\<close>): the sender
  rules, the project's servers and groups, and the platform's shared pool, with the freshness of
  relay nodes joined in as the queries do.  Passwords are the plain ones callers see.
\<close>

section \<open>Providers\<close>

record descriptor =
  ds_id :: string
  ds_label :: string
  ds_dial :: bool
  ds_re_signs :: bool
  ds_options :: "(string \<times> bool) list"

definition ProviderSMTP :: string where "ProviderSMTP = ''smtp''"
definition ProviderSES :: string where "ProviderSES = ''ses''"
definition OptSESRegion :: string where "OptSESRegion = ''region''"
definition OptSESConfigurationSet :: string where "OptSESConfigurationSet = ''configuration_set''"

definition smtpDescriptor :: descriptor where
  "smtpDescriptor = \<lparr>ds_id = ProviderSMTP, ds_label = ''SMTP'', ds_dial = True, ds_re_signs = False, ds_options = []\<rparr>"

definition sesDescriptor :: descriptor where
  "sesDescriptor =
     \<lparr>ds_id = ProviderSES, ds_label = ''Amazon SES (API)'', ds_dial = False, ds_re_signs = True,
      ds_options = [(OptSESRegion, True), (OptSESConfigurationSet, False)]\<rparr>"

definition descriptors :: "descriptor list" where
  "descriptors = [smtpDescriptor, sesDescriptor]"

definition names_provider :: "string \<Rightarrow> descriptor \<Rightarrow> bool" where
  "names_provider provider d = (ds_id d = provider \<or> provider = [] \<and> ds_id d = ProviderSMTP)"

definition Known :: "string \<Rightarrow> bool" where
  "Known provider = (provider = [] \<or> provider \<in> {ProviderSMTP, ProviderSES})"

definition option_at :: "(string \<times> string) list \<Rightarrow> string \<Rightarrow> string" where
  "option_at options k = (case map_of options k of None \<Rightarrow> [] | Some v \<Rightarrow> v)"

definition ValidateOptions :: "string \<Rightarrow> (string \<times> string) list \<Rightarrow> error option" where
  "ValidateOptions provider options =
     (case find (names_provider provider) descriptors of
        None \<Rightarrow> Some (''unknown mail provider '' @ [CHR 0x22] @ provider @ [CHR 0x22])
      | Some d \<Rightarrow>
          (case find (\<lambda>(k, required). required \<and> trim_space (option_at options k) = []) (ds_options d) of
             None \<Rightarrow> None
           | Some (k, _) \<Rightarrow> Some (ds_label d @ '' requires '' @ k)))"

definition ReSigns :: "string \<Rightarrow> bool" where
  "ReSigns provider =
     (case find (names_provider provider) descriptors of None \<Rightarrow> False | Some d \<Rightarrow> ds_re_signs d)"

definition Dials :: "string \<Rightarrow> bool" where
  "Dials provider =
     (case find (names_provider provider) descriptors of None \<Rightarrow> False | Some d \<Rightarrow> ds_dial d)"

definition UsesAmbientCredentials :: "string \<Rightarrow> string \<Rightarrow> bool" where
  "UsesAmbientCredentials provider username = (provider = ProviderSES \<and> username = [])"

section \<open>Servers\<close>

record server =
  srv_id :: string
  srv_project_id :: string
  srv_name :: string
  srv_host :: string
  srv_port :: int
  srv_username :: string
  srv_password :: string
  srv_encryption :: string
  srv_skip_dkim :: bool
  srv_allowed_emails :: "string list"
  srv_allowed_domains :: "string list"
  srv_group_id :: string
  srv_priority :: int
  srv_status :: string
  srv_validation_error :: string
  srv_validated_at :: "time option"
  srv_created_at :: time
  srv_node_id :: string
  srv_last_seen_at :: "time option"
  srv_provider :: string
  srv_provider_config :: "(string \<times> string) list"

definition StatusEnabled :: string where "StatusEnabled = ''enabled''"
definition StatusInvalid :: string where "StatusInvalid = ''invalid''"

definition DialChanged :: "server \<Rightarrow> server \<Rightarrow> bool" where
  "DialChanged a b =
     (srv_host a \<noteq> srv_host b \<or> srv_port a \<noteq> srv_port b \<or> srv_encryption a \<noteq> srv_encryption b \<or>
      srv_username a \<noteq> srv_username b \<or> srv_password a \<noteq> srv_password b \<or>
      length (srv_provider_config a) \<noteq> length (srv_provider_config b) \<or>
      list_ex (\<lambda>(k, v). option_at (srv_provider_config b) k \<noteq> v) (srv_provider_config a))"

definition IsNode :: "server \<Rightarrow> bool" where "IsNode s = (srv_node_id s \<noteq> [])"

definition SkipsDKIM :: "server \<Rightarrow> bool" where
  "SkipsDKIM s = (srv_skip_dkim s \<or> ReSigns (srv_provider s))"

definition without_at :: "string \<Rightarrow> string" where
  "without_at d = fst (cut_prefix ''@'' d)"

definition bare_domain :: "string \<Rightarrow> string" where
  "bare_domain d = without_at (trim_space d)"

definition NormalizeServer :: "server \<Rightarrow> server" where
  "NormalizeServer s =
     s\<lparr>srv_skip_dkim := SkipsDKIM s,
       srv_provider := (if srv_provider s = [] then ProviderSMTP else srv_provider s),
       srv_allowed_domains := map (\<lambda>d. to_lower (trim_space (bare_domain d))) (srv_allowed_domains s)\<rparr>"

record spec =
  sp_provider :: string
  sp_host :: string
  sp_port :: int
  sp_username :: string
  sp_password :: string
  sp_encryption :: string
  sp_tls :: "string option"
  sp_options :: "(string \<times> string) list"
  sp_guard_private :: bool
  sp_ambient_credentials :: bool
  sp_conversation_timeout :: time

definition Spec :: "string option \<Rightarrow> server \<Rightarrow> spec" where
  "Spec tls s =
     \<lparr>sp_provider = srv_provider s, sp_host = srv_host s, sp_port = srv_port s,
      sp_username = srv_username s, sp_password = srv_password s, sp_encryption = srv_encryption s,
      sp_tls = tls, sp_options = srv_provider_config s,
      sp_guard_private = (srv_project_id s \<noteq> []), sp_ambient_credentials = (srv_project_id s = []),
      sp_conversation_timeout = 0\<rparr>"

definition AllowsSender :: "server \<Rightarrow> string \<Rightarrow> bool" where
  "AllowsSender s sender =
     (if srv_allowed_emails s = [] then True
      else (let (_, domain, hasAt) = cut_last (CHR ''@'') sender in
            list_ex (\<lambda>allowed. equal_fold allowed sender \<or>
              (case cut_prefix ''*@'' allowed of (wild, ok) \<Rightarrow> ok \<and> hasAt \<and> equal_fold wild domain))
             (srv_allowed_emails s)))"

definition AllowsDomain :: "server \<Rightarrow> string \<Rightarrow> bool" where
  "AllowsDomain s sender =
     (if srv_allowed_domains s = [] then True
      else (let (_, host, ok) = cut_last (CHR ''@'') sender in
            if \<not> ok \<or> host = [] then False
            else list_ex (\<lambda>d. equal_fold (bare_domain d) (to_lower host)) (srv_allowed_domains s)))"

record shared_server =
  sh_server :: server
  sh_security_mode :: string

definition SecurityPermissive :: string where "SecurityPermissive = ''permissive''"
definition SecurityStrict :: string where "SecurityStrict = ''strict''"

definition ValidSecurityMode :: "string \<Rightarrow> bool" where
  "ValidSecurityMode mode = (mode = SecurityPermissive \<or> mode = SecurityStrict)"

record group =
  gp_id :: string
  gp_project_id :: string
  gp_name :: string
  gp_slug :: string
  gp_description :: string
  gp_default :: bool
  gp_created_at :: time

record node_row =
  nd_id :: string
  nd_server_id :: string
  nd_last_seen_at :: "time option"
  nd_mode :: string

record smtp_db =
  sd_servers :: "server list"
  sd_groups :: "group list"
  sd_shared :: "shared_server list"
  sd_nodes :: "node_row list"
  sd_domains :: domain_db

type_synonym sworld = "smtp_db world"

section \<open>The project's servers\<close>

definition StaleAfter :: time where "StaleAfter = 10 * 60 * 1000000000"

definition node_of :: "smtp_db \<Rightarrow> string \<Rightarrow> node_row option" where
  "node_of s i = find (\<lambda>n. nd_server_id n = i) (sd_nodes s)"

definition joined :: "smtp_db \<Rightarrow> server \<Rightarrow> server" where
  "joined s srv =
     (case node_of s (srv_id srv) of
        None \<Rightarrow> srv\<lparr>srv_node_id := [], srv_last_seen_at := None\<rparr>
      | Some n \<Rightarrow> srv\<lparr>srv_node_id := nd_id n, srv_last_seen_at := nd_last_seen_at n\<rparr>)"

definition FreshSince :: "time \<Rightarrow> time" where "FreshSince now = now - StaleAfter"

definition fresh :: "time \<Rightarrow> smtp_db \<Rightarrow> server \<Rightarrow> bool" where
  "fresh now s srv =
     (case node_of s (srv_id srv) of
        None \<Rightarrow> True
      | Some n \<Rightarrow> (case nd_last_seen_at n of None \<Rightarrow> False | Some t \<Rightarrow> FreshSince now < t))"

definition in_pick_order :: "server list \<Rightarrow> server list" where
  "in_pick_order = sort_key (\<lambda>v. (srv_priority v, srv_created_at v))"

definition GetServer :: "string \<Rightarrow> string \<Rightarrow> sworld \<Rightarrow> (smtp_db, server option) answer" where
  "GetServer projID i =
     Read (\<lambda>s. map_option (joined s) (find (\<lambda>v. srv_project_id v = projID \<and> srv_id v = i) (sd_servers s)))"

definition GetAnyServer :: "string \<Rightarrow> sworld \<Rightarrow> (smtp_db, server option) answer" where
  "GetAnyServer i = Read (\<lambda>s. map_option (joined s) (find (\<lambda>v. srv_id v = i) (sd_servers s)))"

definition ListServers :: "string \<Rightarrow> sworld \<Rightarrow> (smtp_db, server list) answer" where
  "ListServers projID =
     Read (\<lambda>s. map (joined s) (in_pick_order (filter (\<lambda>v. srv_project_id v = projID) (sd_servers s))))"

definition ListInGroup :: "time \<Rightarrow> string \<Rightarrow> string \<Rightarrow> sworld \<Rightarrow> (smtp_db, server list) answer" where
  "ListInGroup now projID groupID =
     Read (\<lambda>s. map (joined s) (in_pick_order
       (filter (\<lambda>v. srv_project_id v = projID \<and> srv_group_id v = groupID \<and> fresh now s v) (sd_servers s))))"

definition merge_server :: "server \<Rightarrow> server \<Rightarrow> server" where
  "merge_server v r =
     r\<lparr>srv_name := srv_name v, srv_host := srv_host v, srv_port := srv_port v,
       srv_username := srv_username v, srv_password := srv_password v, srv_encryption := srv_encryption v,
       srv_skip_dkim := srv_skip_dkim v, srv_allowed_emails := srv_allowed_emails v,
       srv_allowed_domains := srv_allowed_domains v, srv_group_id := srv_group_id v,
       srv_priority := srv_priority v, srv_provider := srv_provider v,
       srv_provider_config := srv_provider_config v\<rparr>"

definition PutServer :: "time \<Rightarrow> server \<Rightarrow> sworld \<Rightarrow> (smtp_db, server) answer" where
  "PutServer now v0 =
     Run (\<lambda>s. let v = NormalizeServer (if srv_created_at v0 = zero_time then v0\<lparr>srv_created_at := now\<rparr> else v0)
       in (s\<lparr>sd_servers :=
             (if list_ex (\<lambda>r. srv_id r = srv_id v) (sd_servers s)
              then sql_update (\<lambda>r. srv_id r = srv_id v) (merge_server v) (sd_servers s)
              else sd_servers s @ [v])\<rparr>, v))"

definition server_is :: "string \<Rightarrow> string \<Rightarrow> server \<Rightarrow> bool" where
  "server_is projID i v = (srv_project_id v = projID \<and> srv_id v = i)"

definition DeleteServer :: "string \<Rightarrow> string \<Rightarrow> sworld \<Rightarrow> (smtp_db, unit) answer" where
  "DeleteServer projID i = Run (\<lambda>s. (s\<lparr>sd_servers := sql_delete (server_is projID i) (sd_servers s)\<rparr>, ()))"

definition SetStatus ::
    "string \<Rightarrow> string \<Rightarrow> string \<Rightarrow> string \<Rightarrow> time option \<Rightarrow> sworld \<Rightarrow> (smtp_db, unit) answer" where
  "SetStatus projID i status err validatedAt =
     Run (\<lambda>s. (s\<lparr>sd_servers := sql_update (server_is projID i)
        (\<lambda>v. v\<lparr>srv_status := status, srv_validation_error := err, srv_validated_at := validatedAt\<rparr>) (sd_servers s)\<rparr>, ()))"

definition tested :: "time \<Rightarrow> string \<Rightarrow> server \<Rightarrow> server" where
  "tested now testErr v =
     v\<lparr>srv_status := (if srv_status v \<in> {StatusEnabled, StatusInvalid}
                      then (if testErr = [] then StatusEnabled else StatusInvalid) else srv_status v),
       srv_validation_error := RemoteText testErr, srv_validated_at := Some now\<rparr>"

definition RecordTest :: "time \<Rightarrow> string \<Rightarrow> string \<Rightarrow> string \<Rightarrow> sworld \<Rightarrow> (smtp_db, string) answer" where
  "RecordTest now projID i testErr =
     Run (\<lambda>s. (s\<lparr>sd_servers := sql_update (server_is projID i) (tested now testErr) (sd_servers s)\<rparr>,
        (case find (server_is projID i) (sd_servers s) of None \<Rightarrow> [] | Some v \<Rightarrow> srv_status (tested now testErr v))))"

definition SettingsChangedNote :: string where
  "SettingsChangedNote =
     ''settings changed since the last failure - run a connection test to put the server back into rotation''"

definition NoteSettingsChanged :: "string \<Rightarrow> string \<Rightarrow> sworld \<Rightarrow> (smtp_db, unit) answer" where
  "NoteSettingsChanged projID i =
     Run (\<lambda>s. (s\<lparr>sd_servers := sql_update (\<lambda>v. server_is projID i v \<and> srv_status v = StatusInvalid)
        (srv_validation_error_update (\<lambda>_. SettingsChangedNote)) (sd_servers s)\<rparr>, ()))"

definition MarkInvalid :: "time \<Rightarrow> string \<Rightarrow> string \<Rightarrow> string \<Rightarrow> sworld \<Rightarrow> (smtp_db, bool) answer" where
  "MarkInvalid now projID i reason =
     Run (\<lambda>s. let p = (\<lambda>v. server_is projID i v \<and> srv_status v = StatusEnabled) in
        (s\<lparr>sd_servers := sql_update p
           (\<lambda>v. v\<lparr>srv_status := StatusInvalid, srv_validation_error := RemoteText reason, srv_validated_at := Some now\<rparr>)
           (sd_servers s)\<rparr>, 0 < sql_count p (sd_servers s)))"

definition PickEnabled :: "string \<Rightarrow> string \<Rightarrow> sworld \<Rightarrow> (smtp_db, server option) answer" where
  "PickEnabled projID sender w =
     andThen (ListServers projID w) (\<lambda>servers w.
       Return (find (\<lambda>v. srv_status v = StatusEnabled \<and> AllowsSender v sender \<and> AllowsDomain v sender) servers) w)"

definition CountServers :: "string \<Rightarrow> sworld \<Rightarrow> (smtp_db, nat) answer" where
  "CountServers projID = Read (\<lambda>s. sql_count (\<lambda>v. srv_project_id v = projID) (sd_servers s))"

section \<open>Groups\<close>

definition group_is :: "string \<Rightarrow> string \<Rightarrow> group \<Rightarrow> bool" where
  "group_is projID i g = (gp_project_id g = projID \<and> gp_id g = i)"

definition GetGroup :: "string \<Rightarrow> string \<Rightarrow> sworld \<Rightarrow> (smtp_db, group option) answer" where
  "GetGroup projID i = Read (\<lambda>s. find (group_is projID i) (sd_groups s))"

definition GetBySlug :: "string \<Rightarrow> string \<Rightarrow> sworld \<Rightarrow> (smtp_db, group option) answer" where
  "GetBySlug projID slug = Read (\<lambda>s. find (\<lambda>g. gp_project_id g = projID \<and> gp_slug g = slug) (sd_groups s))"

definition default_of :: "string \<Rightarrow> group \<Rightarrow> bool" where
  "default_of projID g = (gp_project_id g = projID \<and> gp_default g)"

definition GetDefault :: "string \<Rightarrow> sworld \<Rightarrow> (smtp_db, group option) answer" where
  "GetDefault projID = Read (\<lambda>s. find (default_of projID) (sd_groups s))"

definition ListGroups :: "string \<Rightarrow> sworld \<Rightarrow> (smtp_db, group list) answer" where
  "ListGroups projID =
     Read (\<lambda>s. sort_key (\<lambda>g. (\<not> gp_default g, gp_name g)) (filter (\<lambda>g. gp_project_id g = projID) (sd_groups s)))"

text \<open>The table's unique indexes: the id, the slug in a project, and one default per project.\<close>

definition unique_groups :: "group list \<Rightarrow> bool" where
  "unique_groups rows =
     (distinct (map gp_id rows) \<and> distinct (map (\<lambda>g. (gp_project_id g, gp_slug g)) rows) \<and>
      distinct (map gp_project_id (filter gp_default rows)))"

definition upsert_group :: "group \<Rightarrow> group list \<Rightarrow> group list" where
  "upsert_group g rows =
     (if list_ex (\<lambda>r. gp_id r = gp_id g) rows
      then sql_update (\<lambda>r. gp_id r = gp_id g)
             (\<lambda>r. r\<lparr>gp_name := gp_name g, gp_slug := gp_slug g, gp_description := gp_description g\<rparr>) rows
      else rows @ [g])"

definition PutGroup :: "time \<Rightarrow> group \<Rightarrow> sworld \<Rightarrow> (smtp_db, unit) answer" where
  "PutGroup now g0 =
     Try (\<lambda>s. let g = (if gp_created_at g0 = zero_time then g0\<lparr>gp_created_at := now\<rparr> else g0);
                  rows = upsert_group g (sd_groups s)
       in if unique_groups rows then Inr (s\<lparr>sd_groups := rows\<rparr>, ())
          else Inl ''duplicate key value violates unique constraint'')"

definition default_group :: "time \<Rightarrow> string \<Rightarrow> string \<Rightarrow> group" where
  "default_group now newid projID =
     \<lparr>gp_id = newid, gp_project_id = projID, gp_name = ''Default'', gp_slug = ''default'',
      gp_description = ''Used when a send names no group.'', gp_default = True, gp_created_at = now\<rparr>"

definition EnsureDefault :: "time \<Rightarrow> string \<Rightarrow> string \<Rightarrow> sworld \<Rightarrow> (smtp_db, group option) answer" where
  "EnsureDefault now newid projID w =
     (case GetDefault projID w of
        (Inl e, w) \<Rightarrow> (Inl e, w)
      | (Inr (Some g), w) \<Rightarrow> (Inr (Some g), w)
      | (Inr None, w) \<Rightarrow>
          (case PutGroup now (default_group now newid projID) w of
             (Inr _, w) \<Rightarrow> (Inr (Some (default_group now newid projID)), w)
           | (Inl err, w) \<Rightarrow>
               (case GetDefault projID w of
                  (Inr (Some again), w) \<Rightarrow> (Inr (Some again), w)
                | (_, w) \<Rightarrow> (Inl err, w))))"

definition SetDefault :: "string \<Rightarrow> string \<Rightarrow> sworld \<Rightarrow> (smtp_db, bool) answer" where
  "SetDefault projID i =
     Transaction (\<lambda>w.
       andThen (Run (\<lambda>s. (s\<lparr>sd_groups := sql_update (default_of projID) (gp_default_update (\<lambda>_. False)) (sd_groups s)\<rparr>, ())) w)
       (\<lambda>_ w. andThen (Run (\<lambda>s. (s\<lparr>sd_groups := sql_update (group_is projID i) (gp_default_update (\<lambda>_. True)) (sd_groups s)\<rparr>,
                               sql_count (group_is projID i) (sd_groups s))) w)
       (\<lambda>n w. Return (if n = 0 then (False, False) else (True, True)) w)))"

definition DeleteGroup :: "string \<Rightarrow> string \<Rightarrow> string \<Rightarrow> sworld \<Rightarrow> (smtp_db, unit) answer" where
  "DeleteGroup projID i defaultGroupID =
     Transaction (\<lambda>w.
       andThen (Run (\<lambda>s. (s\<lparr>sd_servers := sql_update (\<lambda>v. srv_project_id v = projID \<and> srv_group_id v = i)
                               (srv_group_id_update (\<lambda>_. defaultGroupID)) (sd_servers s)\<rparr>, ())) w)
       (\<lambda>_ w. andThen (Run (\<lambda>s. (s\<lparr>sd_groups := sql_delete (\<lambda>g. group_is projID i g \<and> \<not> gp_default g) (sd_groups s)\<rparr>, ())) w)
       (\<lambda>_ w. Return ((), True) w)))"

definition SlugTaken :: "string \<Rightarrow> string \<Rightarrow> string \<Rightarrow> sworld \<Rightarrow> (smtp_db, bool) answer" where
  "SlugTaken projID slug exceptID =
     Read (\<lambda>s. 0 < sql_count (\<lambda>g. gp_project_id g = projID \<and> gp_slug g = slug \<and>
                                (exceptID = [] \<or> gp_id g \<noteq> exceptID)) (sd_groups s))"

section \<open>The shared pool\<close>

definition joined_shared :: "smtp_db \<Rightarrow> shared_server \<Rightarrow> shared_server" where
  "joined_shared s v = v\<lparr>sh_server := joined s (sh_server v)\<rparr>"

definition shared_order :: "shared_server list \<Rightarrow> shared_server list" where
  "shared_order = sort_key (\<lambda>v. (srv_priority (sh_server v), srv_created_at (sh_server v)))"

definition GetSharedServer :: "string \<Rightarrow> sworld \<Rightarrow> (smtp_db, shared_server option) answer" where
  "GetSharedServer i = Read (\<lambda>s. map_option (joined_shared s) (find (\<lambda>v. srv_id (sh_server v) = i) (sd_shared s)))"

definition ListSharedServers :: "sworld \<Rightarrow> (smtp_db, shared_server list) answer" where
  "ListSharedServers = Read (\<lambda>s. map (joined_shared s) (shared_order (sd_shared s)))"

definition ListEnabled :: "time \<Rightarrow> sworld \<Rightarrow> (smtp_db, shared_server list) answer" where
  "ListEnabled now =
     Read (\<lambda>s. map (joined_shared s) (shared_order
       (filter (\<lambda>v. srv_status (sh_server v) = StatusEnabled \<and> fresh now s (sh_server v)) (sd_shared s))))"

definition PutShared :: "time \<Rightarrow> shared_server \<Rightarrow> sworld \<Rightarrow> (smtp_db, shared_server) answer" where
  "PutShared now v0 =
     Run (\<lambda>s. let v = v0\<lparr>sh_server := NormalizeServer (if srv_created_at (sh_server v0) = zero_time
                            then (sh_server v0)\<lparr>srv_created_at := now\<rparr> else sh_server v0),
                          sh_security_mode := (if sh_security_mode v0 = [] then SecurityPermissive else sh_security_mode v0)\<rparr>
       in (s\<lparr>sd_shared :=
             (if list_ex (\<lambda>r. srv_id (sh_server r) = srv_id (sh_server v)) (sd_shared s)
              then sql_update (\<lambda>r. srv_id (sh_server r) = srv_id (sh_server v))
                     (\<lambda>r. r\<lparr>sh_server := (merge_server (sh_server v) (sh_server r))\<lparr>srv_group_id := srv_group_id (sh_server r)\<rparr>,
                            sh_security_mode := sh_security_mode v\<rparr>) (sd_shared s)
              else sd_shared s @ [v])\<rparr>, v))"

definition update_shared :: "string \<Rightarrow> (server \<Rightarrow> server) \<Rightarrow> shared_server list \<Rightarrow> shared_server list" where
  "update_shared i f = sql_update (\<lambda>v. srv_id (sh_server v) = i) (\<lambda>v. v\<lparr>sh_server := f (sh_server v)\<rparr>)"

definition DeleteShared :: "string \<Rightarrow> sworld \<Rightarrow> (smtp_db, unit) answer" where
  "DeleteShared i = Run (\<lambda>s. (s\<lparr>sd_shared := sql_delete (\<lambda>v. srv_id (sh_server v) = i) (sd_shared s)\<rparr>, ()))"

definition SetSharedStatus :: "string \<Rightarrow> string \<Rightarrow> string \<Rightarrow> time option \<Rightarrow> sworld \<Rightarrow> (smtp_db, unit) answer" where
  "SetSharedStatus i status err validatedAt =
     Run (\<lambda>s. (s\<lparr>sd_shared := update_shared i
        (\<lambda>v. v\<lparr>srv_status := status, srv_validation_error := err, srv_validated_at := validatedAt\<rparr>) (sd_shared s)\<rparr>, ()))"

definition RecordSharedTest :: "time \<Rightarrow> string \<Rightarrow> string \<Rightarrow> sworld \<Rightarrow> (smtp_db, string) answer" where
  "RecordSharedTest now i testErr =
     Run (\<lambda>s. (s\<lparr>sd_shared := update_shared i (tested now testErr) (sd_shared s)\<rparr>,
        (case find (\<lambda>v. srv_id (sh_server v) = i) (sd_shared s) of
           None \<Rightarrow> [] | Some v \<Rightarrow> srv_status (tested now testErr (sh_server v)))))"

definition NoteSharedSettingsChanged :: "string \<Rightarrow> sworld \<Rightarrow> (smtp_db, unit) answer" where
  "NoteSharedSettingsChanged i =
     Run (\<lambda>s. (s\<lparr>sd_shared := update_shared i
        (\<lambda>v. if srv_status v = StatusInvalid then v\<lparr>srv_validation_error := SettingsChangedNote\<rparr> else v) (sd_shared s)\<rparr>, ()))"

definition CountShared :: "sworld \<Rightarrow> (smtp_db, nat) answer" where
  "CountShared = Read (\<lambda>s. length (sd_shared s))"

section \<open>The default group\<close>

text \<open>What the group statements of all requests may do, interleaved in any order with any faults.\<close>

inductive group_step :: "smtp_db \<Rightarrow> smtp_db \<Rightarrow> bool" where
  put: "group_step s (fst (snd (PutGroup now g (s, fs))))"
| ensure: "group_step s (fst (snd (EnsureDefault now newid p (s, fs))))"
| promote: "group_step s (fst (snd (SetDefault p i (s, fs))))"
| drop: "group_step s (fst (snd (DeleteGroup p i d (s, fs))))"

definition one_default :: "string \<Rightarrow> smtp_db \<Rightarrow> bool" where
  "one_default p s = (sql_count (default_of p) (sd_groups s) = 1)"

lemma distinct_count: "distinct (map f xs) \<longleftrightarrow> (\<forall>y. sql_count (\<lambda>x. f x = y) xs \<le> 1)"
proof (induction xs)
  case (Cons x xs)
  have "f x \<notin> f ` set xs \<longleftrightarrow> sql_count (\<lambda>z. f z = f x) xs = 0"
    by (simp add: sql_count_def filter_empty_conv image_iff) metis
  moreover have "(\<forall>y. sql_count (\<lambda>z. f z = y) (x # xs) \<le> 1) \<longleftrightarrow>
      sql_count (\<lambda>z. f z = f x) xs = 0 \<and> (\<forall>y. sql_count (\<lambda>z. f z = y) xs \<le> 1)" (is "?l = ?r")
  proof
    assume l: ?l
    have "sql_count (\<lambda>z. f z = y) xs \<le> 1" for y
      using spec [OF l, of y] by (cases "f x = y") simp_all
    moreover have "sql_count (\<lambda>z. f z = f x) xs = 0" using spec [OF l, of "f x"] by simp
    ultimately show ?r by simp
  next
    assume r: ?r
    show ?l
    proof
      fix y
      show "sql_count (\<lambda>z. f z = y) (x # xs) \<le> 1"
        using conjunct1 [OF r] spec [OF conjunct2 [OF r], of y] by (cases "f x = y") simp_all
    qed
  qed
  ultimately show ?case using Cons.IH by simp
qed simp

lemma unique_groups_iff:
  "unique_groups rows \<longleftrightarrow> distinct (map gp_id rows) \<and> distinct (map (\<lambda>g. (gp_project_id g, gp_slug g)) rows) \<and>
     (\<forall>p. sql_count (default_of p) rows \<le> 1)"
proof -
  have "sql_count (\<lambda>x. gp_project_id x = p) (filter gp_default rows) = sql_count (default_of p) rows" for p
    by (induction rows) (auto simp: default_of_def)
  then show ?thesis by (simp add: unique_groups_def distinct_count [of gp_project_id])
qed

lemma sql_count_map: "sql_count p (map f xs) = sql_count (\<lambda>x. p (f x)) xs"
  by (induction xs) auto

lemma sql_count_cong: "(\<And>x. x \<in> set xs \<Longrightarrow> p x = q x) \<Longrightarrow> sql_count p xs = sql_count q xs"
  by (induction xs) auto

definition promoted :: "string \<Rightarrow> string \<Rightarrow> group list \<Rightarrow> group list" where
  "promoted p i rows = sql_update (group_is p i) (gp_default_update (\<lambda>_. True))
     (sql_update (default_of p) (gp_default_update (\<lambda>_. False)) rows)"

lemma SetDefault_state:
  assumes "SetDefault p i w = (r, w')"
  shows "fst w' = fst w \<or> (0 < sql_count (group_is p i) (sd_groups (fst w)) \<and>
     fst w' = (fst w)\<lparr>sd_groups := promoted p i (sd_groups (fst w))\<rparr>)"
  using Transaction_state [OF assms [unfolded SetDefault_def]]
proof (elim disjE exE conjE)
  fix x w1
  assume h: "andThen (Run (\<lambda>s. (s\<lparr>sd_groups := sql_update (default_of p) (gp_default_update (\<lambda>_. False)) (sd_groups s)\<rparr>, ())) w)
       (\<lambda>_ w. andThen (Run (\<lambda>s. (s\<lparr>sd_groups := sql_update (group_is p i) (gp_default_update (\<lambda>_. True)) (sd_groups s)\<rparr>,
                               sql_count (group_is p i) (sd_groups s))) w)
       (\<lambda>n w. Return (if n = 0 then (False, False) else (True, True)) w)) = (Inr (x, True), w1)"
    and w': "fst w' = fst w1"
  from andThen_Inr [OF h] obtain u w2 where u: "Run (\<lambda>s. (s\<lparr>sd_groups := sql_update (default_of p) (gp_default_update (\<lambda>_. False)) (sd_groups s)\<rparr>, ())) w = (Inr u, w2)"
    and k: "andThen (Run (\<lambda>s. (s\<lparr>sd_groups := sql_update (group_is p i) (gp_default_update (\<lambda>_. True)) (sd_groups s)\<rparr>,
                               sql_count (group_is p i) (sd_groups s))) w2)
       (\<lambda>n w. Return (if n = 0 then (False, False) else (True, True)) w) = (Inr (x, True), w1)" by blast
  from andThen_Inr [OF k] obtain n w3 where n: "Run (\<lambda>s. (s\<lparr>sd_groups := sql_update (group_is p i) (gp_default_update (\<lambda>_. True)) (sd_groups s)\<rparr>,
                               sql_count (group_is p i) (sd_groups s))) w2 = (Inr n, w3)"
    and e: "Return (if n = 0 then (False, False) else (True, True)) w3 = (Inr (x, True), w1)" by blast
  have same: "sql_count (group_is p i) (sql_update (default_of p) (gp_default_update (\<lambda>_. False)) rows)
      = sql_count (group_is p i) rows" for rows
    unfolding sql_update_def sql_count_map by (rule sql_count_cong) (simp add: group_is_def)
  show ?thesis
    using Run_Inr [OF u] Run_Inr [OF n] e w' same by (simp add: promoted_def split: if_splits)
qed simp

lemma promoted_count:
  assumes "distinct (map gp_id rows)" "0 < sql_count (group_is p i) rows"
  shows "sql_count (default_of q) (promoted p i rows) = (if q = p then 1 else sql_count (default_of q) rows)"
proof (cases "q = p")
  case True
  have "sql_count (default_of q) (promoted p i rows) = sql_count (group_is p i) rows"
    unfolding promoted_def sql_update_def sql_count_map
    by (rule sql_count_cong) (auto simp: True default_of_def group_is_def)
  moreover have "sql_count (group_is p i) rows \<le> sql_count (\<lambda>g. gp_id g = i) rows"
    by (rule sql_count_mono) (simp add: group_is_def)
  moreover have "sql_count (\<lambda>g. gp_id g = i) rows \<le> 1"
    using assms(1) unfolding distinct_count by blast
  ultimately have "sql_count (default_of q) (promoted p i rows) = 1" using assms(2) by linarith
  then show ?thesis using True by simp
next
  case False
  have "sql_count (default_of q) (promoted p i rows) = sql_count (default_of q) rows"
    unfolding promoted_def sql_update_def sql_count_map
    by (rule sql_count_cong) (use False in \<open>auto simp: default_of_def group_is_def\<close>)
  then show ?thesis using False by simp
qed

lemma promoted_unique:
  assumes "unique_groups rows" "0 < sql_count (group_is p i) rows"
  shows "unique_groups (promoted p i rows)"
proof -
  have "map gp_id (promoted p i rows) = map gp_id rows"
    "map (\<lambda>g. (gp_project_id g, gp_slug g)) (promoted p i rows) = map (\<lambda>g. (gp_project_id g, gp_slug g)) rows"
    unfolding promoted_def by (simp_all add: map_sql_update)
  then show ?thesis using assms promoted_count [of rows p i] by (simp add: unique_groups_iff)
qed

definition groups_inv :: "string \<Rightarrow> smtp_db \<Rightarrow> bool" where
  "groups_inv p s = (unique_groups (sd_groups s) \<and> one_default p s)"

lemma SetDefault_inv:
  assumes "SetDefault q i w = (r, w')" "groups_inv p (fst w)"
  shows "groups_inv p (fst w')"
  using SetDefault_state [OF assms(1)]
proof (elim disjE conjE)
  assume n: "0 < sql_count (group_is q i) (sd_groups (fst w))"
    and w': "fst w' = (fst w)\<lparr>sd_groups := promoted q i (sd_groups (fst w))\<rparr>"
  have u: "unique_groups (sd_groups (fst w))" using assms(2) by (simp add: groups_inv_def)
  then have "distinct (map gp_id (sd_groups (fst w)))" by (simp add: unique_groups_def)
  note count = promoted_count [OF this n, of p]
  show ?thesis
    using promoted_unique [OF u n] count assms(2) w' by (simp add: groups_inv_def one_default_def split: if_splits)
qed (use assms(2) in simp)

lemma upsert_count:
  assumes "unique_groups rows"
  shows "sql_count (default_of p) (upsert_group g rows) =
    sql_count (default_of p) rows + (if default_of p g \<and> gp_id g \<notin> set (map gp_id rows) then 1 else 0)"
proof (cases "gp_id g \<in> set (map gp_id rows)")
  case True
  then have "upsert_group g rows = sql_update (\<lambda>r. gp_id r = gp_id g)
       (\<lambda>r. r\<lparr>gp_name := gp_name g, gp_slug := gp_slug g, gp_description := gp_description g\<rparr>) rows"
    by (auto simp: upsert_group_def list_ex_iff)
  moreover have "sql_count (default_of p) (sql_update (\<lambda>r. gp_id r = gp_id g)
       (\<lambda>r. r\<lparr>gp_name := gp_name g, gp_slug := gp_slug g, gp_description := gp_description g\<rparr>) rows) =
     sql_count (default_of p) rows"
    unfolding sql_update_def sql_count_map by (rule sql_count_cong) (simp add: default_of_def)
  ultimately show ?thesis using True by simp
next
  case False
  then have "upsert_group g rows = rows @ [g]" by (simp add: upsert_group_def list_ex_iff image_iff) metis
  then show ?thesis using False by (simp add: sql_count_def)
qed

lemma PutGroup_inv:
  assumes "PutGroup now g w = (r, w')" "groups_inv p (fst w)"
  shows "groups_inv p (fst w')"
proof -
  from Try_cases [OF assms(1) [unfolded PutGroup_def]]
  have "fst w' = fst w \<or> (\<exists>g. unique_groups (upsert_group g (sd_groups (fst w))) \<and>
      fst w' = (fst w)\<lparr>sd_groups := upsert_group g (sd_groups (fst w))\<rparr>)"
    by (auto simp: Let_def split: if_splits)
  moreover have "sql_count (default_of p) (upsert_group g (sd_groups (fst w))) = 1"
    if "unique_groups (upsert_group g (sd_groups (fst w)))" for g
  proof -
    have "1 \<le> sql_count (default_of p) (upsert_group g (sd_groups (fst w)))"
      using upsert_count [of "sd_groups (fst w)" p g] assms(2) by (simp add: groups_inv_def one_default_def)
    moreover have "sql_count (default_of p) (upsert_group g (sd_groups (fst w))) \<le> 1"
      using that by (simp add: unique_groups_iff)
    ultimately show ?thesis by linarith
  qed
  ultimately show ?thesis using assms(2) by (auto simp: groups_inv_def one_default_def)
qed

lemma GetDefault_inv: "GetDefault q w = (r, w') \<Longrightarrow> groups_inv p (fst w) \<Longrightarrow> groups_inv p (fst w')"
  unfolding GetDefault_def by (drule Read_state) simp

lemma EnsureDefault_inv:
  assumes "EnsureDefault now newid q w = (r, w')" "groups_inv p (fst w)"
  shows "groups_inv p (fst w')"
  using assms unfolding EnsureDefault_def
  by (auto split: prod.splits sum.splits option.splits dest!: GetDefault_inv PutGroup_inv)

lemma DeleteGroup_inv:
  assumes "DeleteGroup q i d w = (r, w')" "groups_inv p (fst w)"
  shows "groups_inv p (fst w')"
proof -
  let ?rows = "sd_groups (fst w)" and ?q = "\<lambda>g. group_is q i g \<and> \<not> gp_default g"
  have "sd_groups (fst w') = ?rows \<or> sd_groups (fst w') = sql_delete ?q ?rows"
    using Transaction_state [OF assms(1) [unfolded DeleteGroup_def]]
    by (auto dest!: andThen_Inr Run_Inr)
  moreover have "sql_count (default_of c) (sql_delete ?q rows) = sql_count (default_of c) rows" for c rows
    by (induction rows) (auto simp: sql_delete_def default_of_def)
  moreover have "unique_groups (sql_delete ?q ?rows)"
    using assms(2) calculation(2) unfolding groups_inv_def unique_groups_iff
    by (auto intro: distinct_map_sql_delete)
  ultimately show ?thesis using assms(2) by (auto simp: groups_inv_def one_default_def)
qed

text \<open>
  A project that has a default group keeps exactly one: whatever group requests run, in any
  order, with statements refused, lost or cut off in the middle, the next state again has exactly
  one default group for the project, so every send that names no group resolves.
\<close>

lemma default_group_kept:
  assumes "group_step\<^sup>*\<^sup>* s s'" "unique_groups (sd_groups s)" "one_default p s"
  shows "unique_groups (sd_groups s') \<and> one_default p s'"
proof -
  have "groups_inv p s'" using assms(1)
  proof (induction rule: rtranclp_induct)
    case (step s1 s2)
    from step(2,3) show ?case
      by (cases rule: group_step.cases) (metis PutGroup_inv EnsureDefault_inv SetDefault_inv DeleteGroup_inv prod.collapse fst_conv)+
  qed (use assms in \<open>simp add: groups_inv_def\<close>)
  then show ?thesis by (simp add: groups_inv_def)
qed

definition group_sample :: "string \<Rightarrow> bool \<Rightarrow> group" where
  "group_sample i d = \<lparr>gp_id = i, gp_project_id = ''p'', gp_name = i, gp_slug = i, gp_description = [],
     gp_default = d, gp_created_at = 0\<rparr>"

definition smtp_sample :: smtp_db where
  "smtp_sample = \<lparr>sd_servers = [], sd_groups = [group_sample ''g1'' True, group_sample ''g2'' False], sd_shared = [],
     sd_nodes = [], sd_domains = \<lparr>dd_domains = [], dd_grants = [], dd_projects = []\<rparr>\<rparr>"

theorem default_group_kept_witness:
  "let s' = fst (snd (SetDefault ''p'' ''g2'' (smtp_sample, [None, None, Some (Unacked ''lost'')]))) in
   map gp_default (sd_groups s') = [False, True] \<and> one_default ''p'' s'"
proof -
  let ?s' = "fst (snd (SetDefault ''p'' ''g2'' (smtp_sample, [None, None, Some (Unacked ''lost'')])))"
  have "group_step\<^sup>*\<^sup>* smtp_sample ?s'" by (rule r_into_rtranclp, rule group_step.promote)
  moreover have "unique_groups (sd_groups smtp_sample)" by code_simp
  moreover have "one_default ''p'' smtp_sample" by code_simp
  ultimately have "one_default ''p'' ?s'" using default_group_kept by blast
  moreover have "map gp_default (sd_groups ?s') = [False, True]" by code_simp
  ultimately show ?thesis by (simp add: Let_def)
qed

end
