(* ===== verification/Address.thy ===== *)
theory Address
  imports EmailStore
begin

text \<open>
  Addresses and recipient lists (\<^verbatim>\<open>internal/domain/email/recipients.go\<close> and the address helpers
  of \<^verbatim>\<open>internal/core/smtpclient\<close>).  Parsing and printing of an RFC 5322 address are the standard
  library's \<^verbatim>\<open>net/mail\<close> and parameters: \<open>parse\<close> yields the bare address, \<open>parse_list\<close> names and
  addresses, \<open>print\<close> the address with a display name.
\<close>

type_synonym parser = "string \<Rightarrow> string option"

definition EnvelopeAddress :: "parser \<Rightarrow> string \<Rightarrow> string" where
  "EnvelopeAddress parse from = (case parse from of None \<Rightarrow> from | Some addr \<Rightarrow> addr)"

definition senderDomain :: "parser \<Rightarrow> string \<Rightarrow> string" where
  "senderDomain parse from =
     (let (_, host, ok) = cut_last (CHR ''@'') (EnvelopeAddress parse from) in
      if \<not> ok \<or> host = [] then [] else to_lower host)"

definition FormatAddress :: "(string \<Rightarrow> string \<Rightarrow> string) \<Rightarrow> string \<Rightarrow> string \<Rightarrow> string" where
  "FormatAddress print name0 addr0 =
     (let name = trim_space name0; addr = trim_space addr0 in
      if name = [] then addr else print name addr)"

definition mailboxKey :: "parser \<Rightarrow> string \<Rightarrow> string" where
  "mailboxKey parse addr = to_lower (EnvelopeAddress parse addr)"

text \<open>One address per mailbox, the first wins; \<open>seen\<close> are the mailboxes met so far.\<close>

fun first_of_mailbox :: "parser \<Rightarrow> string set \<Rightarrow> string list \<Rightarrow> string list" where
  "first_of_mailbox parse seen [] = []"
| "first_of_mailbox parse seen (addr # addrs) =
     (let k = mailboxKey parse addr in
      if k \<in> seen then first_of_mailbox parse seen addrs
      else addr # first_of_mailbox parse (insert k seen) addrs)"

definition comma_join :: "string list \<Rightarrow> string" where
  "comma_join xs = join '', '' xs"

definition foldRecipients :: "parser \<Rightarrow> string list \<Rightarrow> string list \<Rightarrow> string list \<Rightarrow> string list \<times> string \<times> string" where
  "foldRecipients parse to cc bcc =
     (if cc = [] \<and> bcc = [] then (to, [], [])
      else (first_of_mailbox parse {} (to @ cc @ bcc), comma_join to, comma_join cc))"

record addressing =
  ad_to :: "string list"
  ad_cc :: "string list"
  ad_bcc :: "string list"

definition addressList ::
    "(string \<Rightarrow> (string \<times> string) list option) \<Rightarrow> (string \<Rightarrow> string \<Rightarrow> string) \<Rightarrow> string \<Rightarrow> string list" where
  "addressList parse_list print header =
     (if header = [] then []
      else (case parse_list header of
              None \<Rightarrow> [header]
            | Some addrs \<Rightarrow> map (\<lambda>(name, addr). FormatAddress print name addr) addrs))"

definition HeaderDisplayTo :: string where "HeaderDisplayTo = ''To''"
definition HeaderDisplayCc :: string where "HeaderDisplayCc = ''Cc''"
definition HeaderReplyTo :: string where "HeaderReplyTo = ''Reply-To''"

definition header_at :: "(string \<rightharpoonup> string) \<Rightarrow> string \<Rightarrow> string" where
  "header_at h k = (case h k of None \<Rightarrow> [] | Some v \<Rightarrow> v)"

definition splitRecipients ::
    "parser \<Rightarrow> (string \<Rightarrow> (string \<times> string) list option) \<Rightarrow> (string \<Rightarrow> string \<Rightarrow> string) \<Rightarrow> email \<Rightarrow> addressing" where
  "splitRecipients parse parse_list print e =
     (let headerTo = header_at (e_headers e) HeaderDisplayTo in
      if headerTo = [] then \<lparr>ad_to = e_recipients e, ad_cc = [], ad_bcc = []\<rparr>
      else (let to = addressList parse_list print headerTo;
                cc = addressList parse_list print (header_at (e_headers e) HeaderDisplayCc);
                named = set (map (mailboxKey parse) (to @ cc))
            in \<lparr>ad_to = to, ad_cc = cc, ad_bcc = filter (\<lambda>a. mailboxKey parse a \<notin> named) (e_recipients e)\<rparr>))"

section \<open>Folding and splitting\<close>

lemma first_of_mailbox_keys:
  "distinct (map (mailboxKey parse) (first_of_mailbox parse seen xs)) \<and>
   mailboxKey parse ` set (first_of_mailbox parse seen xs) = mailboxKey parse ` set xs - seen"
  by (induction xs arbitrary: seen) (auto simp: Let_def)

lemma first_of_mailbox_subset: "set (first_of_mailbox parse seen xs) \<subseteq> set xs"
  by (induction xs arbitrary: seen) (auto simp: Let_def)

lemma first_of_mailbox_append:
  "first_of_mailbox parse seen (xs @ ys) =
   first_of_mailbox parse seen xs @ first_of_mailbox parse (seen \<union> mailboxKey parse ` set xs) ys"
  by (induction xs arbitrary: seen) (auto simp: Let_def insert_absorb)

lemma filter_first_of_mailbox:
  assumes "N \<subseteq> seen"
  shows "filter (\<lambda>a. mailboxKey parse a \<notin> N) (first_of_mailbox parse seen xs) = first_of_mailbox parse seen xs"
proof -
  have "mailboxKey parse a \<notin> N" if "a \<in> set (first_of_mailbox parse seen xs)" for a
    using first_of_mailbox_keys [of parse seen xs] that assms by blast
  then show ?thesis by (simp add: filter_id_conv)
qed

text \<open>
  What is asked of \<^verbatim>\<open>net/mail\<close>: a list of addresses written with commas between them is read as these addresses,
  and no address is empty.
\<close>

definition reads_lists :: "parser \<Rightarrow> (string \<Rightarrow> (string \<times> string) list option) \<Rightarrow> bool" where
  "reads_lists parse parse_list =
     (parse [] = None \<and>
      (\<forall>as. as \<noteq> [] \<and> (\<forall>a \<in> set as. parse a \<noteq> None) \<longrightarrow>
         (\<exists>rs. parse_list (comma_join as) = Some rs \<and> map (\<lambda>r. Some (snd r)) rs = map parse as)))"

definition reprints :: "parser \<Rightarrow> (string \<Rightarrow> string \<Rightarrow> string) \<Rightarrow> string \<Rightarrow> bool" where
  "reprints parse print a = (\<exists>b. parse a = Some b \<and> (\<forall>name. parse (FormatAddress print name b) = Some b))"

lemma addressList_keys:
  assumes lib: "reads_lists parse parse_list" and ok: "\<forall>a \<in> set as. reprints parse print a"
  shows "map (mailboxKey parse) (addressList parse_list print (comma_join as)) = map (mailboxKey parse) as \<and>
    (as \<noteq> [] \<longrightarrow> comma_join as \<noteq> [])"
proof (cases as)
  case (Cons a as')
  have parsed: "\<forall>a \<in> set as. parse a \<noteq> None" using ok by (auto simp: reprints_def)
  have full: "comma_join as \<noteq> []"
  proof
    assume "comma_join as = []"
    then have "a = []" unfolding comma_join_def Cons by (cases as') simp_all
    then show False using parsed lib by (simp add: Cons reads_lists_def)
  qed
  obtain rs where rs: "parse_list (comma_join as) = Some rs" "map (\<lambda>r. Some (snd r)) rs = map parse as"
    using lib parsed Cons unfolding reads_lists_def by blast
  have "map (mailboxKey parse) (map (\<lambda>(name, addr). FormatAddress print name addr) rs) = map (mailboxKey parse) as"
    using rs(2) ok
  proof (induction rs arbitrary: as)
    case (Cons r rs)
    then obtain a as' where as: "as = a # as'" "parse a = Some (snd r)" "map (\<lambda>r. Some (snd r)) rs = map parse as'" by auto
    with Cons.prems(2) have "parse (FormatAddress print (fst r) (snd r)) = Some (snd r)" by (auto simp: reprints_def)
    then show ?case using Cons.IH [OF as(3)] Cons.prems(2) as by (auto simp: mailboxKey_def EnvelopeAddress_def case_prod_unfold)
  qed simp
  then show ?thesis using full rs(1) by (simp add: addressList_def)
qed (simp add: comma_join_def addressList_def)

text \<open>
  C40: Every mailbox the caller named gets the message once, and a Bcc recipient stands in no header.
  The envelope of a folded message holds each mailbox of the three lists exactly once; and read back
  from the stored row, the To and Cc lists are the caller's, mailbox by mailbox, and the Bcc list is
  exactly the caller's, less repetitions and mailboxes the headers name anyway.  For To and Cc addresses
  the library parses, and parses again as it prints them, by a library that reads a list of addresses with
  commas between them as these addresses.
\<close>
theorem recipients_roundtrip:
  assumes fold: "foldRecipients parse to cc bcc = (envelope, headerTo, headerCc)" and some: "cc \<noteq> [] \<or> bcc \<noteq> []" "to \<noteq> []"
    and row: "e_recipients e = envelope" "header_at (e_headers e) HeaderDisplayTo = headerTo"
      "header_at (e_headers e) HeaderDisplayCc = headerCc"
    and lib: "reads_lists parse parse_list" and ok: "\<forall>a \<in> set (to @ cc). reprints parse print a"
  shows "distinct (map (mailboxKey parse) envelope) \<and>
    mailboxKey parse ` set envelope = mailboxKey parse ` set (to @ cc @ bcc) \<and>
    map (mailboxKey parse) (ad_to (splitRecipients parse parse_list print e)) = map (mailboxKey parse) to \<and>
    map (mailboxKey parse) (ad_cc (splitRecipients parse parse_list print e)) = map (mailboxKey parse) cc \<and>
    ad_bcc (splitRecipients parse parse_list print e) =
      first_of_mailbox parse (mailboxKey parse ` set (to @ cc)) bcc"
proof -
  let ?N = "mailboxKey parse ` set (to @ cc)"
  have headers: "headerTo = comma_join to" "headerCc = comma_join cc" using fold some by (auto simp: foldRecipients_def)
  note keys = addressList_keys [OF lib, of _ print]
  have lists: "map (mailboxKey parse) (addressList parse_list print headerTo) = map (mailboxKey parse) to"
    "map (mailboxKey parse) (addressList parse_list print headerCc) = map (mailboxKey parse) cc" "headerTo \<noteq> []"
    using keys [of to] keys [of cc] ok some(2) unfolding headers by simp_all
  have env: "envelope = first_of_mailbox parse {} (to @ cc @ bcc)" using fold some by (auto simp: foldRecipients_def)
  have split: "envelope = first_of_mailbox parse {} (to @ cc) @ first_of_mailbox parse ?N bcc"
    unfolding env using first_of_mailbox_append [of parse "{}" "to @ cc" bcc] by simp
  have named: "set (map (mailboxKey parse) (addressList parse_list print headerTo @ addressList parse_list print headerCc)) = ?N"
    by (simp only: map_append lists) auto
  have "filter (\<lambda>a. mailboxKey parse a \<notin> ?N) (first_of_mailbox parse {} (to @ cc)) = []"
    using first_of_mailbox_subset [of parse "{}" "to @ cc"] by (auto simp: filter_empty_conv)
  moreover have "filter (\<lambda>a. mailboxKey parse a \<notin> ?N) (first_of_mailbox parse ?N bcc) = first_of_mailbox parse ?N bcc"
    by (rule filter_first_of_mailbox) simp
  ultimately have bcc: "filter (\<lambda>a. mailboxKey parse a \<notin> ?N) envelope = first_of_mailbox parse ?N bcc"
    unfolding split by simp
  have out: "splitRecipients parse parse_list print e =
      \<lparr>ad_to = addressList parse_list print headerTo, ad_cc = addressList parse_list print headerCc,
       ad_bcc = first_of_mailbox parse ?N bcc\<rparr>"
    unfolding splitRecipients_def Let_def row named bcc using lists(3) by simp
  show ?thesis
    unfolding out using first_of_mailbox_keys [of parse "{}" "to @ cc @ bcc"] lists by (simp add: env)
qed

definition bcc_sample :: email where
  "bcc_sample = zero_email \<lparr>e_recipients := [''a@x'', ''b@x'', ''c@x''], e_headers := [''To'' \<mapsto> ''a@x'', ''Cc'' \<mapsto> ''b@x'']\<rparr>"

text \<open>A library of plain addresses: anything without a comma is one.\<close>

definition plain_parser :: parser where
  "plain_parser a = (if a = [] \<or> CHR '','' \<in> set a then None else Some a)"

fun cut_commas :: "string \<Rightarrow> string \<Rightarrow> string list" where
  "cut_commas acc [] = [acc]"
| "cut_commas acc (c # s) = (if c = CHR '','' then acc # cut_commas [] (drop 1 s) else cut_commas (acc @ [c]) s)"

lemma cut_commas_word: "CHR '','' \<notin> set a \<Longrightarrow> cut_commas acc (a @ s) = cut_commas (acc @ a) s"
  by (induction a arbitrary: acc) auto

lemma cut_commas_join: "as \<noteq> [] \<Longrightarrow> \<forall>a \<in> set as. CHR '','' \<notin> set a \<Longrightarrow> cut_commas [] (comma_join as) = as"
  unfolding comma_join_def
proof (induction as)
  case (Cons a as)
  then show ?case
    using cut_commas_word [of a "[]" "[]"] cut_commas_word [of a "[]"] by (cases as) auto
qed simp

lemma plain_library: "reads_lists plain_parser (\<lambda>s. Some (map (Pair []) (cut_commas [] s)))"
proof -
  have "cut_commas [] (comma_join as) = as \<and> map Some as = map plain_parser as"
    if "as \<noteq> []" "\<forall>a \<in> set as. plain_parser a \<noteq> None" for as
    using cut_commas_join [of as] that by (auto simp: plain_parser_def split: if_splits)
  then show ?thesis by (auto simp: reads_lists_def plain_parser_def o_def)
qed

lemma recipients_roundtrip_witness:
  "ad_bcc (splitRecipients plain_parser (\<lambda>s. Some (map (Pair []) (cut_commas [] s))) (\<lambda>n a. a) bcc_sample) = [''c@x''] \<and>
   distinct (map (mailboxKey plain_parser) (e_recipients bcc_sample))"
proof -
  have fold: "foldRecipients plain_parser [''a@x''] [''b@x''] [''c@x'', ''A@x''] = ([''a@x'', ''b@x'', ''c@x''], ''a@x'', ''b@x'')"
    by code_simp
  have row: "e_recipients bcc_sample = [''a@x'', ''b@x'', ''c@x'']" "header_at (e_headers bcc_sample) HeaderDisplayTo = ''a@x''"
      "header_at (e_headers bcc_sample) HeaderDisplayCc = ''b@x''"
    by (simp_all add: bcc_sample_def HeaderDisplayTo_def HeaderDisplayCc_def header_at_def)
  have ok: "\<forall>a \<in> set ([''a@x''] @ [''b@x'']). reprints plain_parser (\<lambda>n a. a) a"
    by (simp add: reprints_def plain_parser_def FormatAddress_def trim_space_def is_space_def Let_def)
  have bcc: "first_of_mailbox plain_parser (mailboxKey plain_parser ` set ([''a@x''] @ [''b@x''])) [''c@x'', ''A@x''] = [''c@x'']"
    by code_simp
  show ?thesis using recipients_roundtrip [OF fold _ _ row plain_library ok] row(1) bcc by simp
qed

end
