(* ===== verification/Routing.thy ===== *)
theory Routing
  imports Servers Zones Address
begin

text \<open>
  Which servers may carry a message (\<^verbatim>\<open>internal/domain/email/resolveserver.go\<close>).  Parsing an
  address (\<open>parse\<close>) is a parameter.
\<close>

definition senderAddress :: "parser \<Rightarrow> string \<Rightarrow> string" where
  "senderAddress parse from = EnvelopeAddress parse from"

record route =
  rt_server_id :: string
  rt_group_id :: string

text \<open>The domain store is one part of the database.\<close>

definition covering_for :: "string \<Rightarrow> string \<Rightarrow> sworld \<Rightarrow> (smtp_db, domain_row option) answer" where
  "covering_for name projID = Zoom sd_domains (\<lambda>t s. s\<lparr>sd_domains := t\<rparr>) (GetVerifiedCoveringFor name projID)"

definition ownsVerifiedDomain :: "parser \<Rightarrow> string \<Rightarrow> string \<Rightarrow> sworld \<Rightarrow> (smtp_db, bool) answer" where
  "ownsVerifiedDomain parse projID sender w =
     (let host = senderDomain parse sender in
      if host = [] then Return False w
      else andThen (covering_for host projID w) (\<lambda>d w. Return (d \<noteq> None) w))"

datatype refusal = RequestError error | StoreError error

definition RequireVerifiedSender :: "parser \<Rightarrow> string \<Rightarrow> string \<Rightarrow> sworld \<Rightarrow> refusal option \<times> sworld" where
  "RequireVerifiedSender parse projID sender w =
     (let host = senderDomain parse sender in
      if host = [] then (Some (RequestError (''sender '' @ sender @ '' has no domain'')), w)
      else (case ownsVerifiedDomain parse projID sender w of
              (Inl e, w) \<Rightarrow> (Some (StoreError e), w)
            | (Inr ok, w) \<Rightarrow>
                (if ok then None
                 else Some (RequestError (''domain '' @ host @ '' is not verified by this project - add it under Domains and complete DNS verification before sending as '' @ sender)), w)))"

definition admits :: "server \<Rightarrow> string \<Rightarrow> bool" where
  "admits v sender = (AllowsSender v sender \<and> AllowsDomain v sender)"

text \<open>
  The pool is walked with what is known about the sender's domain: asked at most once, and only
  when a strict server admits the sender.
\<close>

fun shared_walk ::
    "parser \<Rightarrow> string \<Rightarrow> string \<Rightarrow> bool option \<Rightarrow> shared_server list \<Rightarrow> sworld \<Rightarrow> (smtp_db, server list) answer" where
  "shared_walk parse projID sender verified [] w = Return [] w"
| "shared_walk parse projID sender verified (v # pool) w =
     (if \<not> admits (sh_server v) sender then shared_walk parse projID sender verified pool w
      else if sh_security_mode v = SecurityStrict then
        andThen (case verified of Some b \<Rightarrow> Return b w | None \<Rightarrow> ownsVerifiedDomain parse projID sender w) (\<lambda>b w.
          andThen (shared_walk parse projID sender (Some b) pool w) (\<lambda>out w.
            Return (if b then sh_server v # out else out) w))
      else andThen (shared_walk parse projID sender verified pool w) (\<lambda>out w. Return (sh_server v # out) w))"

definition resolveShared :: "time \<Rightarrow> parser \<Rightarrow> string \<Rightarrow> string \<Rightarrow> sworld \<Rightarrow> (smtp_db, server list) answer" where
  "resolveShared now parse projID sender w =
     andThen (CountServers projID w) (\<lambda>owned w.
       if 0 < owned then Return [] w
       else andThen (ListEnabled now w) (\<lambda>pool w. shared_walk parse projID sender None pool w))"

definition resolveGroup :: "string \<Rightarrow> string \<Rightarrow> sworld \<Rightarrow> (smtp_db, group option) answer" where
  "resolveGroup projID groupID w =
     (if groupID \<noteq> [] then
        andThen (GetGroup projID groupID w) (\<lambda>g w. if g \<noteq> None then Return g w else GetDefault projID w)
      else GetDefault projID w)"

definition usable :: "string \<Rightarrow> server \<Rightarrow> bool" where
  "usable sender v = (srv_status v = StatusEnabled \<and> admits v sender)"

definition ResolveCandidates ::
    "time \<Rightarrow> parser \<Rightarrow> string \<Rightarrow> string \<Rightarrow> route \<Rightarrow> sworld \<Rightarrow> (smtp_db, server list) answer" where
  "ResolveCandidates now parse projID sender route w =
     (if rt_server_id route \<noteq> [] then
        andThen (GetServer projID (rt_server_id route) w) (\<lambda>srv w.
          case srv of
            None \<Rightarrow> Return [] w
          | Some v \<Rightarrow> Return (if usable sender v then [v] else []) w)
      else
        andThen (resolveGroup projID (rt_group_id route) w) (\<lambda>group w.
        andThen (case group of
                   None \<Rightarrow> Return [] w
                 | Some g \<Rightarrow> andThen (ListInGroup now projID (gp_id g) w) (\<lambda>servers w. Return (filter (usable sender) servers) w))
          (\<lambda>members w. if members \<noteq> [] then Return members w
                       else resolveShared now parse projID sender w)))"

definition ResolveServer ::
    "time \<Rightarrow> parser \<Rightarrow> string \<Rightarrow> string \<Rightarrow> route \<Rightarrow> sworld \<Rightarrow> (smtp_db, server option) answer" where
  "ResolveServer now parse projID sender route w =
     andThen (ResolveCandidates now parse projID sender route w) (\<lambda>candidates w.
       Return (case candidates of [] \<Rightarrow> None | v # _ \<Rightarrow> Some v) w)"

section \<open>What a candidate is\<close>

text \<open>The group a route names, or the project's default group when it names none or a deleted one.\<close>

definition routed_group :: "smtp_db \<Rightarrow> string \<Rightarrow> string \<Rightarrow> group option" where
  "routed_group s projID groupID =
     (case (if groupID = [] then None else find (group_is projID groupID) (sd_groups s)) of
        Some g \<Rightarrow> Some g
      | None \<Rightarrow> find (default_of projID) (sd_groups s))"

definition own_candidates :: "time \<Rightarrow> smtp_db \<Rightarrow> string \<Rightarrow> string \<Rightarrow> string \<Rightarrow> server list" where
  "own_candidates now s projID sender groupID =
     (case routed_group s projID groupID of
        None \<Rightarrow> []
      | Some g \<Rightarrow> map (joined s) (in_pick_order (filter (\<lambda>v. srv_project_id v = projID \<and> srv_group_id v = gp_id g \<and>
                    fresh now s v \<and> usable sender v) (sd_servers s))))"

definition may_send :: "parser \<Rightarrow> smtp_db \<Rightarrow> string \<Rightarrow> string \<Rightarrow> bool" where
  "may_send parse s projID sender =
     (senderDomain parse sender \<noteq> [] \<and> (\<exists>d. authorised (sd_domains s) (senderDomain parse sender) projID d))"

definition shared_candidates :: "time \<Rightarrow> parser \<Rightarrow> smtp_db \<Rightarrow> string \<Rightarrow> string \<Rightarrow> server list" where
  "shared_candidates now parse s projID sender =
     (if \<exists>v \<in> set (sd_servers s). srv_project_id v = projID then []
      else map (\<lambda>v. joined s (sh_server v)) (shared_order (filter (\<lambda>v. usable sender (sh_server v) \<and> fresh now s (sh_server v) \<and>
             (sh_security_mode v = SecurityStrict \<longrightarrow> may_send parse s projID sender)) (sd_shared s))))"

definition candidates :: "time \<Rightarrow> parser \<Rightarrow> smtp_db \<Rightarrow> string \<Rightarrow> string \<Rightarrow> route \<Rightarrow> server list" where
  "candidates now parse s projID sender route =
     (if rt_server_id route \<noteq> [] then
        (case find (server_is projID (rt_server_id route)) (sd_servers s) of
           None \<Rightarrow> [] | Some v \<Rightarrow> if usable sender v then [joined s v] else [])
      else (let own = own_candidates now s projID sender (rt_group_id route) in
            if own \<noteq> [] then own else shared_candidates now parse s projID sender))"

lemma joined_fields [simp]:
  "srv_id (joined s v) = srv_id v" "srv_project_id (joined s v) = srv_project_id v"
  "srv_status (joined s v) = srv_status v" "srv_priority (joined s v) = srv_priority v"
  "srv_created_at (joined s v) = srv_created_at v" "srv_group_id (joined s v) = srv_group_id v"
  "srv_provider (joined s v) = srv_provider v" "srv_skip_dkim (joined s v) = srv_skip_dkim v"
  by (simp_all add: joined_def split: option.splits)

lemma joined_rules [simp]:
  "AllowsSender (joined s v) sender = AllowsSender v sender"
  "AllowsDomain (joined s v) sender = AllowsDomain v sender"
  "admits (joined s v) sender = admits v sender" "usable sender (joined s v) = usable sender v"
  by (simp_all add: AllowsSender_def AllowsDomain_def admits_def usable_def joined_def split: option.splits)

lemma authorised_some:
  assumes "unique_names (dd_domains s)"
  shows "(\<exists>d. authorised s name projID d) \<longleftrightarrow>
    fst (GetVerifiedCoveringFor name projID (s, [])) \<noteq> Inr None"
proof (cases "chain_rows name (dd_domains s)")
  case Nil
  then have none: "\<not> covers s name d" for d using set_chain_rows [of name s] by auto
  show ?thesis unfolding GetVerifiedCoveringFor_calm Nil using none by (simp add: authorised_def closest_def)
next
  case (Cons d ds)
  have "authorised s name projID r \<Longrightarrow> r = d" for r
    using closest_unique [OF assms _ chain_head [OF Cons]] by (auto simp: authorised_def)
  then have "(\<exists>r. authorised s name projID r) \<longleftrightarrow> authorised s name projID d" by blast
  then show ?thesis unfolding GetVerifiedCoveringFor_calm Cons by simp
qed

lemma covering_for_calm:
  "\<exists>x. covering_for name projID (s, []) = (Inr x, (s, [])) \<and>
     GetVerifiedCoveringFor name projID (sd_domains s, []) = (Inr x, (sd_domains s, []))"
  by (simp add: covering_for_def Zoom_def GetVerifiedCoveringFor_calm)

lemma owns_calm:
  assumes "unique_names (dd_domains (sd_domains s))"
  shows "ownsVerifiedDomain parse projID sender (s, []) = (Inr (may_send parse s projID sender), (s, []))"
proof (cases "senderDomain parse sender = []")
  case True
  then show ?thesis by (simp add: ownsVerifiedDomain_def may_send_def)
next
  case False
  from covering_for_calm [of "senderDomain parse sender" projID s] obtain x where
    x: "covering_for (senderDomain parse sender) projID (s, []) = (Inr x, (s, []))"
    "GetVerifiedCoveringFor (senderDomain parse sender) projID (sd_domains s, []) = (Inr x, (sd_domains s, []))" by blast
  have "may_send parse s projID sender \<longleftrightarrow> x \<noteq> None"
    using authorised_some [OF assms, of "senderDomain parse sender" projID] False x(2) by (simp add: may_send_def)
  then show ?thesis using False x(1) by (simp add: ownsVerifiedDomain_def Let_def)
qed

lemma shared_walk_calm:
  assumes "unique_names (dd_domains (sd_domains s))"
    and "verified = None \<or> verified = Some (may_send parse s projID sender)"
  shows "shared_walk parse projID sender verified pool (s, []) =
    (Inr (map sh_server (filter (\<lambda>v. admits (sh_server v) sender \<and>
       (sh_security_mode v = SecurityStrict \<longrightarrow> may_send parse s projID sender)) pool)), (s, []))"
  using assms(2)
proof (induction pool arbitrary: verified)
  case (Cons v pool)
  then show ?case
    using owns_calm [OF assms(1), of parse projID sender]
    by (cases verified) auto
qed simp

lemma candidates_calm:
  assumes "unique_names (dd_domains (sd_domains s))"
  shows "ResolveCandidates now parse projID sender route (s, []) =
    (Inr (candidates now parse s projID sender route), (s, []))"
proof (cases "rt_server_id route = []")
  case False
  have "find (\<lambda>v. srv_project_id v = projID \<and> srv_id v = rt_server_id route) (sd_servers s) =
      find (server_is projID (rt_server_id route)) (sd_servers s)"
    by (simp add: server_is_def [abs_def])
  then show ?thesis
    using False by (auto simp: ResolveCandidates_def candidates_def GetServer_def split: option.splits)
next
  case True
  have grp: "resolveGroup projID (rt_group_id route) (s, []) = (Inr (routed_group s projID (rt_group_id route)), (s, []))"
    by (auto simp: resolveGroup_def routed_group_def GetGroup_def GetDefault_def split: option.splits)
  have order: "filter p (in_pick_order xs) = in_pick_order (filter p xs)" for p xs
    by (simp add: in_pick_order_def filter_sort)
  have shared: "filter p (shared_order xs) = shared_order (filter p xs)" for p xs
    by (simp add: shared_order_def filter_sort)
  have pool: "resolveShared now parse projID sender (s, []) = (Inr (shared_candidates now parse s projID sender), (s, []))"
    unfolding resolveShared_def shared_candidates_def CountServers_def ListEnabled_def
    by (auto simp: shared_walk_calm [OF assms] joined_shared_def filter_map o_def shared usable_def conj_ac
        intro!: arg_cong [where f = "map _"] arg_cong [where f = shared_order] filter_cong)
  have own: "(case routed_group s projID (rt_group_id route) of None \<Rightarrow> Return [] (s, [])
        | Some g \<Rightarrow> andThen (ListInGroup now projID (gp_id g) (s, [])) (\<lambda>servers w. Return (filter (usable sender) servers) w))
      = (Inr (own_candidates now s projID sender (rt_group_id route)), (s, []))"
    by (auto simp: own_candidates_def ListInGroup_def filter_map o_def order conj_ac split: option.splits
        intro!: arg_cong [where f = "map _"] arg_cong [where f = in_pick_order] filter_cong)
  show ?thesis
    unfolding ResolveCandidates_def grp andThen_simps own candidates_def Let_def pool
    using True by simp
qed

lemma verifiedChain_query: "query (verifiedChain name)"
  unfolding verifiedChain_def [abs_def] by blast

lemma covering_query: "query (covering_for name projID)"
  unfolding covering_for_def
proof (rule query_Zoom)
  have "query (GetVerifiedCoveringFor name projID)"
    unfolding GetVerifiedCoveringFor_def [abs_def] Let_def
    by (intro query_andThen query_list query_if query_Read query_Return verifiedChain_query)
  then show "query (GetVerifiedCoveringFor name projID)" .
qed simp

lemma owns_query: "query (ownsVerifiedDomain parse projID sender)"
  unfolding ownsVerifiedDomain_def [abs_def] Let_def
  by (intro query_if query_andThen query_Return covering_query)

lemma shared_walk_query: "query (shared_walk parse projID sender verified pool)"
proof (induction pool arbitrary: verified)
  case Nil
  show ?case by (simp only: shared_walk.simps) blast
next
  case (Cons v pool)
  show ?case
    unfolding shared_walk.simps
    by (intro query_if query_andThen query_Return Cons.IH)
       (cases verified; simp only: option.case; intro owns_query query_Return)
qed

lemma candidates_query: "query (ResolveCandidates now parse projID sender route)"
  unfolding ResolveCandidates_def [abs_def] resolveShared_def [abs_def] resolveGroup_def [abs_def]
    GetServer_def GetGroup_def GetDefault_def CountServers_def ListEnabled_def ListInGroup_def
  by (intro query_if query_andThen query_option query_Return query_Read shared_walk_query)

text \<open>
  C30: The candidates for a message are exactly the pinned server, or the fresh usable members of the
  routed group in priority order, or, for a project that owns no server at all, the fresh usable
  servers of the platform's pool in priority order, a strict one only when the project may send as
  the sender's domain.  A statement that fails makes the whole answer an error, never another list.
\<close>

theorem candidates_exact:
  assumes "unique_names (dd_domains (sd_domains (fst w)))"
    "ResolveCandidates now parse projID sender route w = (r, w')"
  shows "fst w' = fst w \<and> (isl r \<or> r = Inr (candidates now parse (fst w) projID sender route)) \<and>
    (snd w = [] \<longrightarrow> \<not> isl r)"
proof -
  note calm = candidates_calm [OF assms(1), of now parse projID sender route]
  have "\<not> isl r" if "snd w = []"
    using calm assms(2) that by (cases w) auto
  then show ?thesis using query_answer [OF candidates_query calm assms(2)] by blast
qed

definition server_sample :: "string \<Rightarrow> string \<Rightarrow> int \<Rightarrow> server" where
  "server_sample i p prio =
     \<lparr>srv_id = i, srv_project_id = p, srv_name = i, srv_host = ''h'', srv_port = 25, srv_username = [], srv_password = [],
      srv_encryption = ''starttls'', srv_skip_dkim = False, srv_allowed_emails = [], srv_allowed_domains = [],
      srv_group_id = ''g1'', srv_priority = prio, srv_status = ''enabled'', srv_validation_error = [],
      srv_validated_at = None, srv_created_at = 0, srv_node_id = [], srv_last_seen_at = None,
      srv_provider = [], srv_provider_config = []\<rparr>"

definition routing_sample :: smtp_db where
  "routing_sample = smtp_sample\<lparr>
     sd_servers := [server_sample ''s1'' ''p'' 2, server_sample ''s2'' ''p'' 1],
     sd_shared := [\<lparr>sh_server = server_sample ''t1'' [] 1, sh_security_mode = SecurityStrict\<rparr>,
                   \<lparr>sh_server = server_sample ''t2'' [] 2, sh_security_mode = SecurityPermissive\<rparr>],
     sd_domains := shared_zone\<rparr>"

definition no_route :: route where
  "no_route = \<lparr>rt_server_id = [], rt_group_id = []\<rparr>"

theorem candidates_exact_witness:
  "map srv_id (candidates 0 (\<lambda>_. None) routing_sample ''p'' ''a@example.com'' no_route) = [''s2'', ''s1''] \<and>
   map srv_id (candidates 0 (\<lambda>_. None) routing_sample ''q'' ''a@example.com'' no_route) = [''t1'', ''t2''] \<and>
   map srv_id (candidates 0 (\<lambda>_. None) routing_sample ''q'' ''a@other.com'' no_route) = [''t2'']"
proof -
  have un: "unique_names (dd_domains (sd_domains (fst (routing_sample, []))))" by code_simp
  have c: "fst (ResolveCandidates 0 (\<lambda>_. None) p sender no_route (routing_sample, [])) =
      Inr (candidates 0 (\<lambda>_. None) routing_sample p sender no_route)" for p sender
    using candidates_exact [OF un, of 0 "\<lambda>_. None" p sender no_route]
    by (metis fst_conv prod.collapse snd_conv)
  have "map_sum id (map srv_id) (fst (ResolveCandidates 0 (\<lambda>_. None) ''p'' ''a@example.com'' no_route (routing_sample, []))) = Inr [''s2'', ''s1'']"
    "map_sum id (map srv_id) (fst (ResolveCandidates 0 (\<lambda>_. None) ''q'' ''a@example.com'' no_route (routing_sample, []))) = Inr [''t1'', ''t2'']"
    "map_sum id (map srv_id) (fst (ResolveCandidates 0 (\<lambda>_. None) ''q'' ''a@other.com'' no_route (routing_sample, []))) = Inr [''t2'']"
    by code_simp+
  then show ?thesis unfolding c by simp
qed

end
