(* ===== verification/Suppressions.thy ===== *)
theory Suppressions
  imports Statement Sql Address Keyset
begin

text \<open>
  The do-not-send list, the delivery failures and the unsubscribe lists
  (\<^verbatim>\<open>internal/domain/suppression\<close>, \<^verbatim>\<open>internal/domain/bounce\<close>, \<^verbatim>\<open>internal/domain/unsubscribelist\<close>):
  the statements of the three stores, the handlers on them, and the intake of the reports that
  anyone may send.  An empty list id is the column's \<^verbatim>\<open>NULL\<close>.  Ids and the current time are
  arguments: a call that would mint an id is handed the one it mints.
\<close>

section \<open>Rows\<close>

definition KindBounce :: string where "KindBounce = ''bounce''"
definition KindComplaint :: string where "KindComplaint = ''complaint''"
definition KindManual :: string where "KindManual = ''manual''"
definition KindListUnsubscribe :: string where "KindListUnsubscribe = ''list_unsubscribe''"

definition ValidKinds :: "string set" where
  "ValidKinds = {KindBounce, KindComplaint, KindManual, KindListUnsubscribe}"

record suppression =
  sp_id :: string
  sp_project_id :: string
  sp_email :: string
  sp_kind :: string
  sp_reason :: string
  sp_list_id :: string
  sp_list_name :: string
  sp_created_at :: time

definition Global :: "suppression \<Rightarrow> bool" where
  "Global p = (sp_list_id p = [])"

definition TypeHard :: string where "TypeHard = ''hard''"
definition TypeSoft :: string where "TypeSoft = ''soft''"
definition TypeComplaint :: string where "TypeComplaint = ''complaint''"

definition ValidTypes :: "string set" where
  "ValidTypes = {TypeHard, TypeSoft, TypeComplaint}"

record bounce =
  bo_id :: string
  bo_project_id :: string
  bo_email_id :: string
  bo_recipient :: string
  bo_type :: string
  bo_reason :: string
  bo_created_at :: time

record unsubscribe_list =
  ul_id :: string
  ul_project_id :: string
  ul_name :: string
  ul_public_name :: string
  ul_description :: string
  ul_active :: bool
  ul_suppressed_count :: int
  ul_created_at :: time
  ul_updated_at :: "time option"

definition Display :: "unsubscribe_list \<Rightarrow> string" where
  "Display l = (if ul_public_name l \<noteq> [] then ul_public_name l else ul_name l)"

record sup_db =
  su_suppressions :: "suppression list"
  su_bounces :: "bounce list"
  su_lists :: "unsubscribe_list list"

type_synonym su_world = "sup_db world"

section \<open>The store of suppressions\<close>

text \<open>An address as every statement compares it.\<close>

definition bare_address :: "string \<Rightarrow> string" where
  "bare_address s = to_lower (trim_space s)"

definition block_key :: "suppression \<Rightarrow> string \<times> string \<times> string" where
  "block_key p = (sp_project_id p, sp_email p, sp_list_id p)"

definition supp_key :: "suppression \<Rightarrow> time \<times> string" where
  "supp_key p = (sp_created_at p, sp_id p)"

definition scanned :: "unsubscribe_list list \<Rightarrow> suppression \<Rightarrow> suppression" where
  "scanned ls p =
     p\<lparr>sp_list_name := (case find (\<lambda>l. ul_id l = sp_list_id p) ls of None \<Rightarrow> [] | Some l \<Rightarrow> ul_name l)\<rparr>"

record supp_filter =
  sf_kind :: string
  sf_search :: string
  sf_email :: string
  sf_limit :: int
  sf_cursor :: cursor

definition supp_matches :: "string \<Rightarrow> supp_filter \<Rightarrow> suppression \<Rightarrow> bool" where
  "supp_matches projID f p =
     (sp_project_id p = projID \<and>
      (sf_kind f \<noteq> [] \<longrightarrow> sp_kind p = sf_kind f) \<and>
      (sf_search f \<noteq> [] \<longrightarrow> like (EscapeLike (bare_address (sf_search f)) @ [percent]) (sp_email p)) \<and>
      (sf_email f \<noteq> [] \<longrightarrow> sp_email p = bare_address (sf_email f)))"

definition ListSuppressions :: "string \<Rightarrow> supp_filter \<Rightarrow> su_world \<Rightarrow> (sup_db, suppression list) answer" where
  "ListSuppressions projID f =
     Read (\<lambda>s. map (scanned (su_lists s))
       (page_of supp_key (sf_limit f) (sf_cursor f) (filter (supp_matches projID f) (su_suppressions s))))"

text \<open>What the write path fills in before it speaks to the database.\<close>

definition prepared :: "string \<Rightarrow> time \<Rightarrow> suppression \<Rightarrow> suppression" where
  "prepared new_id now p =
     p\<lparr>sp_id := if sp_id p = [] then new_id else sp_id p,
       sp_created_at := if sp_created_at p = zero_time then now else sp_created_at p,
       sp_email := bare_address (sp_email p)\<rparr>"

definition stored :: "suppression \<Rightarrow> suppression" where
  "stored p = p\<lparr>sp_list_name := []\<rparr>"

definition insert_stmt :: "suppression \<Rightarrow> sup_db \<Rightarrow> error + (sup_db \<times> suppression)" where
  "insert_stmt p s =
     (if \<exists>r \<in> set (su_suppressions s). sp_id r = sp_id p then Inl ''duplicate key value violates unique constraint''
      else Inr (s\<lparr>su_suppressions := su_suppressions s @ [stored p]\<rparr>, p))"

definition upsert_stmt :: "suppression \<Rightarrow> sup_db \<Rightarrow> error + (sup_db \<times> suppression)" where
  "upsert_stmt p s =
     (let same = (\<lambda>r. block_key r = block_key p) in
      case find same (su_suppressions s) of
        Some r \<Rightarrow>
          Inr (s\<lparr>su_suppressions := sql_update same (\<lambda>r. r\<lparr>sp_kind := sp_kind p, sp_reason := sp_reason p\<rparr>) (su_suppressions s)\<rparr>,
               p\<lparr>sp_id := sp_id r, sp_created_at := sp_created_at r\<rparr>)
      | None \<Rightarrow> insert_stmt p s)"

definition UpsertSuppression :: "string \<Rightarrow> time \<Rightarrow> suppression \<Rightarrow> su_world \<Rightarrow> (sup_db, suppression) answer" where
  "UpsertSuppression new_id now p = Try (upsert_stmt (prepared new_id now p))"

fun upsert_each :: "time \<Rightarrow> (string \<times> suppression) list \<Rightarrow> su_world \<Rightarrow> (sup_db, unit \<times> bool) answer" where
  "upsert_each now [] w = Return ((), True) w"
| "upsert_each now ((new_id, p) # ps) w =
     andThen (UpsertSuppression new_id now p w) (\<lambda>_ w. upsert_each now ps w)"

definition UpsertAll :: "time \<Rightarrow> (string \<times> suppression) list \<Rightarrow> su_world \<Rightarrow> (sup_db, unit) answer" where
  "UpsertAll now ps w = andThen (Run (\<lambda>s. (s, ())) w) (\<lambda>_ w. Transaction (upsert_each now ps) w)"

definition InsertSuppression ::
    "string \<Rightarrow> time \<Rightarrow> suppression \<Rightarrow> su_world \<Rightarrow> (sup_db, suppression \<times> bool) answer" where
  "InsertSuppression new_id now p0 =
     (let p = prepared new_id now p0 in
      Try (\<lambda>s. if \<exists>r \<in> set (su_suppressions s). block_key r = block_key p then Inr (s, (p, False))
               else (case insert_stmt p s of Inl e \<Rightarrow> Inl e | Inr (s', p') \<Rightarrow> Inr (s', (p', True)))))"

definition drop_blocks :: "(suppression \<Rightarrow> bool) \<Rightarrow> su_world \<Rightarrow> (sup_db, nat) answer" where
  "drop_blocks q =
     Run (\<lambda>s. (s\<lparr>su_suppressions := sql_delete q (su_suppressions s)\<rparr>, sql_count q (su_suppressions s)))"

definition DeleteSuppression :: "string \<Rightarrow> string \<Rightarrow> su_world \<Rightarrow> (sup_db, bool) answer" where
  "DeleteSuppression projID email w =
     andThen (drop_blocks (\<lambda>p. sp_project_id p = projID \<and> sp_email p = bare_address email \<and> sp_list_id p = []) w)
       (\<lambda>n w. Return (0 < n) w)"

definition DeleteForList :: "string \<Rightarrow> string \<Rightarrow> string \<Rightarrow> su_world \<Rightarrow> (sup_db, bool) answer" where
  "DeleteForList projID email listID w =
     andThen (drop_blocks (\<lambda>p. sp_project_id p = projID \<and> sp_email p = bare_address email \<and> sp_list_id p = listID) w)
       (\<lambda>n w. Return (0 < n) w)"

definition PurgeSuppressionsForAddress :: "string \<Rightarrow> string \<Rightarrow> su_world \<Rightarrow> (sup_db, nat) answer" where
  "PurgeSuppressionsForAddress projID email =
     drop_blocks (\<lambda>p. sp_project_id p = projID \<and> sp_email p = bare_address email)"

text \<open>Blocked for a send of one scope: globally, or by leaving that list.\<close>

definition blocks :: "string \<Rightarrow> string \<Rightarrow> suppression \<Rightarrow> bool" where
  "blocks projID listID p =
     (sp_project_id p = projID \<and> (sp_list_id p = [] \<or> listID \<noteq> [] \<and> sp_list_id p = listID))"

definition IsSuppressedForList :: "string \<Rightarrow> string \<Rightarrow> string \<Rightarrow> su_world \<Rightarrow> (sup_db, bool) answer" where
  "IsSuppressedForList projID email listID =
     Read (\<lambda>s. 0 < sql_count (\<lambda>p. blocks projID listID p \<and> sp_email p = bare_address email) (su_suppressions s))"

definition IsSuppressed :: "string \<Rightarrow> string \<Rightarrow> su_world \<Rightarrow> (sup_db, bool) answer" where
  "IsSuppressed projID email = IsSuppressedForList projID email []"

definition CountForList :: "string \<Rightarrow> string \<Rightarrow> su_world \<Rightarrow> (sup_db, nat) answer" where
  "CountForList projID listID =
     Read (\<lambda>s. sql_count (\<lambda>p. sp_project_id p = projID \<and> sp_list_id p = listID) (su_suppressions s))"

definition FilterSuppressedForList ::
    "parser \<Rightarrow> string \<Rightarrow> string \<Rightarrow> string list \<Rightarrow> su_world \<Rightarrow> (sup_db, string list \<times> string list) answer" where
  "FilterSuppressedForList parse projID listID emails w =
     (if emails = [] then Return ([], []) w
      else (let bare = map (mailboxKey parse) emails in
        andThen (Read (\<lambda>s. remdups (map sp_email
                   (filter (\<lambda>p. blocks projID listID p \<and> sp_email p \<in> set bare) (su_suppressions s)))) w)
          (\<lambda>hit w. Return (filter (\<lambda>raw. mailboxKey parse raw \<notin> set hit) emails,
                           filter (\<lambda>raw. mailboxKey parse raw \<in> set hit) emails) w)))"

definition FilterSuppressed ::
    "parser \<Rightarrow> string \<Rightarrow> string list \<Rightarrow> su_world \<Rightarrow> (sup_db, string list \<times> string list) answer" where
  "FilterSuppressed parse projID emails = FilterSuppressedForList parse projID [] emails"

section \<open>The store of bounces\<close>

definition bounce_key :: "bounce \<Rightarrow> time \<times> string" where
  "bounce_key b = (bo_created_at b, bo_id b)"

definition prepared_bounce :: "string \<Rightarrow> time \<Rightarrow> bounce \<Rightarrow> bounce" where
  "prepared_bounce new_id now b =
     b\<lparr>bo_id := if bo_id b = [] then new_id else bo_id b,
       bo_created_at := if bo_created_at b = zero_time then now else bo_created_at b\<rparr>"

definition PutBounce :: "string \<Rightarrow> time \<Rightarrow> bounce \<Rightarrow> su_world \<Rightarrow> (sup_db, bounce) answer" where
  "PutBounce new_id now b0 =
     (let b = prepared_bounce new_id now b0 in
      Try (\<lambda>s. if \<exists>r \<in> set (su_bounces s). bo_id r = bo_id b then Inl ''duplicate key value violates unique constraint''
               else Inr (s\<lparr>su_bounces := su_bounces s @ [b]\<rparr>, b)))"

record bounce_filter =
  bf_type :: string
  bf_search :: string
  bf_email :: string
  bf_limit :: int
  bf_cursor :: cursor

definition bounce_matches :: "string \<Rightarrow> bounce_filter \<Rightarrow> bounce \<Rightarrow> bool" where
  "bounce_matches projID f b =
     (bo_project_id b = projID \<and>
      (bf_type f \<noteq> [] \<longrightarrow> bo_type b = bf_type f) \<and>
      (bf_search f \<noteq> [] \<longrightarrow> like (EscapeLike (bare_address (bf_search f)) @ [percent]) (to_lower (bo_recipient b))) \<and>
      (bf_email f \<noteq> [] \<longrightarrow> to_lower (bo_recipient b) = bare_address (bf_email f)))"

definition ListBounces :: "string \<Rightarrow> bounce_filter \<Rightarrow> su_world \<Rightarrow> (sup_db, bounce list) answer" where
  "ListBounces projID f =
     Read (\<lambda>s. page_of bounce_key (bf_limit f) (bf_cursor f) (filter (bounce_matches projID f) (su_bounces s)))"

definition DeleteByEmail :: "string \<Rightarrow> string \<Rightarrow> su_world \<Rightarrow> (sup_db, nat) answer" where
  "DeleteByEmail projID email =
     (let q = (\<lambda>b. bo_project_id b = projID \<and> to_lower (bo_recipient b) = bare_address email) in
      Run (\<lambda>s. (s\<lparr>su_bounces := sql_delete q (su_bounces s)\<rparr>, sql_count q (su_bounces s))))"

definition HasHardBounce :: "string \<Rightarrow> string \<Rightarrow> su_world \<Rightarrow> (sup_db, bool) answer" where
  "HasHardBounce projID email =
     Read (\<lambda>s. 0 < sql_count (\<lambda>b. bo_project_id b = projID \<and> to_lower (bo_recipient b) = bare_address email \<and>
       bo_type b = TypeHard) (su_bounces s))"

section \<open>The store of unsubscribe lists\<close>

definition GetList :: "string \<Rightarrow> string \<Rightarrow> su_world \<Rightarrow> (sup_db, unsubscribe_list option) answer" where
  "GetList projID i = Read (\<lambda>s. find (\<lambda>l. ul_project_id l = projID \<and> ul_id l = i) (su_lists s))"

definition GetAnyList :: "string \<Rightarrow> su_world \<Rightarrow> (sup_db, unsubscribe_list option) answer" where
  "GetAnyList i = Read (\<lambda>s. find (\<lambda>l. ul_id l = i) (su_lists s))"

definition GetListByName :: "string \<Rightarrow> string \<Rightarrow> su_world \<Rightarrow> (sup_db, unsubscribe_list option) answer" where
  "GetListByName projID name =
     Read (\<lambda>s. find (\<lambda>l. ul_project_id l = projID \<and> to_lower (ul_name l) = to_lower name) (su_lists s))"

definition AllLists :: "string \<Rightarrow> su_world \<Rightarrow> (sup_db, unsubscribe_list list) answer" where
  "AllLists projID = Read (\<lambda>s. sort_key ul_name (filter (\<lambda>l. ul_project_id l = projID) (su_lists s)))"

definition list_name_key :: "unsubscribe_list \<Rightarrow> string \<times> string" where
  "list_name_key l = (ul_project_id l, to_lower (ul_name l))"

definition put_list_rows :: "unsubscribe_list \<Rightarrow> unsubscribe_list list \<Rightarrow> unsubscribe_list list" where
  "put_list_rows l ls =
     (if \<exists>r \<in> set ls. ul_id r = ul_id l
      then sql_update (\<lambda>r. ul_id r = ul_id l)
             (\<lambda>r. r\<lparr>ul_name := ul_name l, ul_public_name := ul_public_name l, ul_description := ul_description l,
                   ul_active := ul_active l, ul_updated_at := ul_updated_at l\<rparr>) ls
      else ls @ [l\<lparr>ul_suppressed_count := 0\<rparr>])"

definition PutList :: "time \<Rightarrow> unsubscribe_list \<Rightarrow> su_world \<Rightarrow> (sup_db, unsubscribe_list) answer" where
  "PutList now l0 =
     (let l = l0\<lparr>ul_created_at := if ul_created_at l0 = zero_time then now else ul_created_at l0\<rparr> in
      Try (\<lambda>s. let ls = put_list_rows l (su_lists s) in
               if distinct (map list_name_key ls) then Inr (s\<lparr>su_lists := ls\<rparr>, l)
               else Inl ''duplicate key value violates unique constraint''))"

definition DeleteList :: "string \<Rightarrow> string \<Rightarrow> su_world \<Rightarrow> (sup_db, unit) answer" where
  "DeleteList projID i =
     Run (\<lambda>s. (s\<lparr>su_lists := sql_delete (\<lambda>l. ul_project_id l = projID \<and> ul_id l = i) (su_lists s)\<rparr>, ()))"

section \<open>Handlers of the do-not-send list\<close>

text \<open>A request once its fields were normalized and validated.\<close>

record create_input =
  ci_email :: string
  ci_kind :: string
  ci_reason :: string
  ci_list_id :: string

definition suppression_of :: "create_input \<Rightarrow> string \<Rightarrow> suppression" where
  "suppression_of i projID =
     \<lparr>sp_id = [], sp_project_id = projID, sp_email = ci_email i,
      sp_kind = (if ci_kind i = [] then KindManual else ci_kind i), sp_reason = ci_reason i,
      sp_list_id = ci_list_id i, sp_list_name = [], sp_created_at = zero_time\<rparr>"

definition SuppressionsHandler ::
    "string \<Rightarrow> string \<Rightarrow> string \<Rightarrow> string \<Rightarrow> int option \<Rightarrow> cursor \<Rightarrow> su_world \<Rightarrow>
     (suppression list \<times> cursor option) response \<times> su_world" where
  "SuppressionsHandler projID kind search email limit_param c w0 =
     (if kind \<noteq> [] \<and> kind \<notin> ValidKinds then (BadRequest (''unknown suppression kind '' @ kind), w0)
      else (let w = WindowFrom limit_param c in
        Answer (ListSuppressions projID
            \<lparr>sf_kind = kind, sf_search = Search search, sf_email = Search email, sf_limit = Fetch w,
             sf_cursor = wi_cursor w\<rparr> w0)
          (\<lambda>rows w1. (Ok (list_page supp_key w rows), w1))))"

text \<open>The names of the lists the entries point at, or the refusal.\<close>

fun listNames ::
    "string \<Rightarrow> create_input list \<Rightarrow> (string \<rightharpoonup> string) \<Rightarrow> su_world \<Rightarrow> (string \<rightharpoonup> string) response \<times> su_world" where
  "listNames projID [] names w = (Ok names, w)"
| "listNames projID (i # is) names w =
     (if ci_list_id i = [] \<or> names (ci_list_id i) \<noteq> None then listNames projID is names w
      else Answer (GetList projID (ci_list_id i) w) (\<lambda>l w.
        case l of
          None \<Rightarrow> (BadRequest (''unsubscribe list '' @ ci_list_id i @ '' not found in this project''), w)
        | Some l \<Rightarrow> listNames projID is (names(ci_list_id i \<mapsto> ul_name l)) w))"

text \<open>The refusal as the answer of the whole request.\<close>

fun refuse :: "'a response \<Rightarrow> 'b response" where
  "refuse (Ok x) = NoContent"
| "refuse NoContent = NoContent"
| "refuse (BadRequest e) = BadRequest e"
| "refuse (Unauthorized e) = Unauthorized e"
| "refuse (Forbidden e) = Forbidden e"
| "refuse (NotFound e) = NotFound e"
| "refuse (Conflict e) = Conflict e"
| "refuse (Gone e) = Gone e"
| "refuse (TooManyRequests e) = TooManyRequests e"
| "refuse (Internal e) = Internal e"

definition with_names ::
    "string \<Rightarrow> create_input list \<Rightarrow> su_world \<Rightarrow> ((string \<rightharpoonup> string) \<Rightarrow> su_world \<Rightarrow> 'b response \<times> su_world) \<Rightarrow>
     'b response \<times> su_world" where
  "with_names projID is w k =
     (case listNames projID is Map.empty w of
        (Ok names, w) \<Rightarrow> k names w
      | (r, w) \<Rightarrow> (refuse r, w))"

definition CreateSuppression ::
    "string \<Rightarrow> string \<Rightarrow> time \<Rightarrow> create_input \<Rightarrow> su_world \<Rightarrow> suppression response \<times> su_world" where
  "CreateSuppression projID new_id now i w =
     with_names projID [i] w (\<lambda>names w.
       let p = (suppression_of i projID)\<lparr>sp_list_name := (case names (ci_list_id i) of None \<Rightarrow> [] | Some n \<Rightarrow> n)\<rparr> in
       Answer (InsertSuppression new_id now p w) (\<lambda>(p, created) w.
         (if \<not> created then Conflict ''this address is already suppressed in that scope'' else Ok p, w)))"

definition ImportSuppressions ::
    "string \<Rightarrow> time \<Rightarrow> (string \<times> create_input) list \<Rightarrow> su_world \<Rightarrow> nat response \<times> su_world" where
  "ImportSuppressions projID now is w =
     with_names projID (map snd is) w (\<lambda>_ w.
       Answer (UpsertAll now (map (\<lambda>(new_id, i). (new_id, suppression_of i projID)) is) w)
         (\<lambda>_ w. (Ok (length is), w)))"

definition DeleteSuppressionHandler :: "string \<Rightarrow> string \<Rightarrow> string \<Rightarrow> su_world \<Rightarrow> unit response \<times> su_world" where
  "DeleteSuppressionHandler projID email listID w =
     (if email = [] then (BadRequest ''email query parameter is required'', w)
      else Answer (if listID = [] then DeleteSuppression projID email w else DeleteForList projID email listID w)
        (\<lambda>ok w. (if ok then NoContent else NotFound ''no suppression for this email in that scope'', w)))"

section \<open>Handlers of the bounces\<close>

definition BouncesHandler ::
    "string \<Rightarrow> string \<Rightarrow> string \<Rightarrow> string \<Rightarrow> int option \<Rightarrow> cursor \<Rightarrow> su_world \<Rightarrow>
     (bounce list \<times> cursor option) response \<times> su_world" where
  "BouncesHandler projID kind search email limit_param c w0 =
     (let w = WindowFrom limit_param c; btype = bare_address kind in
      if btype \<noteq> [] \<and> btype \<notin> ValidTypes then (BadRequest ''type must be hard, soft or complaint'', w0)
      else Answer (ListBounces projID
            \<lparr>bf_type = btype, bf_search = Search search, bf_email = Search email, bf_limit = Fetch w,
             bf_cursor = wi_cursor w\<rparr> w0)
          (\<lambda>rows w1. (Ok (list_page bounce_key w rows), w1)))"

definition DeleteBounces :: "string \<Rightarrow> string \<Rightarrow> su_world \<Rightarrow> nat response \<times> su_world" where
  "DeleteBounces projID email w =
     (if email = [] then (BadRequest ''email query parameter is required'', w)
      else Answer (DeleteByEmail projID email w)
        (\<lambda>n w. (if n = 0 then NotFound ''no bounce reports for this email'' else Ok n, w)))"

record ingest_input =
  ii_recipient :: string
  ii_email_id :: string
  ii_type :: string
  ii_reason :: string

definition kind_for :: "string \<Rightarrow> string" where
  "kind_for btype = (if btype = TypeComplaint then KindComplaint else KindBounce)"

definition block_for :: "string \<Rightarrow> string \<Rightarrow> string \<Rightarrow> string \<Rightarrow> suppression" where
  "block_for projID addr kind reason =
     \<lparr>sp_id = [], sp_project_id = projID, sp_email = addr, sp_kind = kind, sp_reason = reason,
      sp_list_id = [], sp_list_name = [], sp_created_at = zero_time\<rparr>"

definition bounce_for :: "string \<Rightarrow> string \<Rightarrow> string \<Rightarrow> string \<Rightarrow> string \<Rightarrow> bounce" where
  "bounce_for projID emailID recipient btype reason =
     \<lparr>bo_id = [], bo_project_id = projID, bo_email_id = emailID, bo_recipient = recipient, bo_type = btype,
      bo_reason = reason, bo_created_at = zero_time\<rparr>"

definition Ingest ::
    "string \<Rightarrow> string \<Rightarrow> string \<Rightarrow> time \<Rightarrow> ingest_input \<Rightarrow> su_world \<Rightarrow> (bounce \<times> bool) response \<times> su_world" where
  "Ingest projID bounce_id block_id now i w =
     (let btype = (if ii_type i = [] then TypeHard else ii_type i) in
      Answer (PutBounce bounce_id now (bounce_for projID (ii_email_id i) (ii_recipient i) btype (ii_reason i)) w)
        (\<lambda>b w.
          if btype = TypeHard \<or> btype = TypeComplaint
          then Answer (UpsertSuppression block_id now
                 (block_for projID (ii_recipient i) (kind_for btype) (ii_reason i)) w) (\<lambda>_ w. (Ok (b, True), w))
          else (Ok (b, False), w)))"

section \<open>Reports anyone may send\<close>

record reported_recipient =
  rr_address :: string
  rr_type :: string
  rr_suppress :: bool
  rr_reason :: string

record report =
  re_email_id :: string
  re_recipients :: "reported_recipient list"

definition maxReportRecipients :: nat where "maxReportRecipients = 100"
definition maxReason :: nat where "maxReason = 1000"

definition addressedTo :: "parser \<Rightarrow> string list \<Rightarrow> string \<Rightarrow> bool" where
  "addressedTo parse recipients addr =
     list_ex (\<lambda>r. equal_fold (trim_space (EnvelopeAddress parse r)) (bare_address addr)) recipients"

text \<open>
  One reported recipient: nothing, a bounce, or a bounce and a block.  The fresh ids come with the
  recipient; a failed statement skips what is left of this recipient only.
\<close>

definition record_recipient ::
    "parser \<Rightarrow> bool \<Rightarrow> time \<Rightarrow> email \<Rightarrow> bool \<Rightarrow> (string \<times> string) \<times> reported_recipient \<Rightarrow> su_world \<Rightarrow> nat \<times> su_world" where
  "record_recipient parse suppressions now sent historyOnly x w =
     (case x of ((bounce_id, block_id), rec) \<Rightarrow>
      if \<not> addressedTo parse (e_recipients sent) (rr_address rec) then (0, w)
      else (let reason = Clamp (rr_reason rec) maxReason in
        case PutBounce bounce_id now (bounce_for (e_project_id sent) (e_id sent) (rr_address rec) (rr_type rec) reason) w of
          (Inl _, w) \<Rightarrow> (0, w)
        | (Inr _, w) \<Rightarrow>
            if rr_suppress rec \<and> \<not> historyOnly \<and> suppressions
            then (case UpsertSuppression block_id now
                     (block_for (e_project_id sent) (rr_address rec) (kind_for (rr_type rec)) reason) w of
                    (Inl _, w) \<Rightarrow> (0, w)
                  | (Inr _, w) \<Rightarrow> (1, w))
            else (1, w)))"

fun record_each ::
    "parser \<Rightarrow> bool \<Rightarrow> time \<Rightarrow> email \<Rightarrow> bool \<Rightarrow> ((string \<times> string) \<times> reported_recipient) list \<Rightarrow> su_world \<Rightarrow> nat \<times> su_world" where
  "record_each parse suppressions now sent historyOnly [] w = (0, w)"
| "record_each parse suppressions now sent historyOnly (x # xs) w =
     (case record_recipient parse suppressions now sent historyOnly x w of
        (n, w) \<Rightarrow> (case record_each parse suppressions now sent historyOnly xs w of (m, w) \<Rightarrow> (n + m, w)))"

text \<open>
  The lookup of the sent message is the email store's \<open>GetAny\<close>; \<open>allow\<close> is the channel's condition on
  the message, \<open>sole\<close> its refusal to block on a shared one; \<open>suppressions\<close> tells whether the intake
  has a store to block in.
\<close>

record intake =
  in_suppressions :: bool
  in_allow :: "email \<Rightarrow> bool"
  in_sole :: bool

definition Record ::
    "parser \<Rightarrow> (string \<Rightarrow> error + email option) \<Rightarrow> intake \<Rightarrow> time \<Rightarrow> (nat \<Rightarrow> string \<times> string) \<Rightarrow> report \<Rightarrow> su_world \<Rightarrow> nat \<times> su_world" where
  "Record parse lookup i now ids r w =
     (let sid = trim_space (re_email_id r) in
      if sid = [] then (0, w)
      else (case lookup sid of
              Inl _ \<Rightarrow> (0, w)
            | Inr None \<Rightarrow> (0, w)
            | Inr (Some sent) \<Rightarrow>
                if \<not> in_allow i sent then (0, w)
                else record_each parse (in_suppressions i) now sent (in_sole i \<and> 1 < length (e_recipients sent))
                       (map (\<lambda>(k, rec). (ids k, rec)) (enumerate 0 (take maxReportRecipients (re_recipients r)))) w))"

section \<open>Handlers of the unsubscribe lists\<close>

definition with_count :: "unsubscribe_list \<Rightarrow> su_world \<Rightarrow> unsubscribe_list response \<times> su_world" where
  "with_count l w =
     Answer (CountForList (ul_project_id l) (ul_id l) w) (\<lambda>n w. (Ok (l\<lparr>ul_suppressed_count := int n\<rparr>), w))"

fun count_each :: "string \<Rightarrow> unsubscribe_list list \<Rightarrow> su_world \<Rightarrow> (sup_db, unsubscribe_list list) answer" where
  "count_each projID [] w = Return [] w"
| "count_each projID (l # ls) w =
     andThen (CountForList projID (ul_id l) w) (\<lambda>n w.
       andThen (count_each projID ls w) (\<lambda>out w. Return (l\<lparr>ul_suppressed_count := int n\<rparr> # out) w))"

definition ListLists :: "string \<Rightarrow> su_world \<Rightarrow> unsubscribe_list list response \<times> su_world" where
  "ListLists projID w =
     Answer (AllLists projID w) (\<lambda>ls w. Answer (count_each projID ls w) (\<lambda>ls w. (Ok ls, w)))"

definition GetListHandler :: "string \<Rightarrow> string \<Rightarrow> su_world \<Rightarrow> unsubscribe_list response \<times> su_world" where
  "GetListHandler projID i w =
     Answer (GetList projID i w) (\<lambda>l w.
       case l of None \<Rightarrow> (NotFound ''unsubscribe list not found'', w) | Some l \<Rightarrow> with_count l w)"

record list_input =
  li_name :: string
  li_public_name :: string
  li_description :: string

definition CreateList ::
    "string \<Rightarrow> string \<Rightarrow> time \<Rightarrow> list_input \<Rightarrow> su_world \<Rightarrow> unsubscribe_list response \<times> su_world" where
  "CreateList projID new_id now i w =
     Answer (GetListByName projID (li_name i) w) (\<lambda>existing w.
       if existing \<noteq> None then (Conflict ''an unsubscribe list with this name already exists'', w)
       else Answer (PutList now
              \<lparr>ul_id = new_id, ul_project_id = projID, ul_name = li_name i, ul_public_name = li_public_name i,
               ul_description = li_description i, ul_active = True, ul_suppressed_count = 0,
               ul_created_at = zero_time, ul_updated_at = None\<rparr> w) (\<lambda>l w. (Ok l, w)))"

record list_patch =
  lp_name :: "string option"
  lp_public_name :: "string option"
  lp_description :: "string option"
  lp_active :: "bool option"

definition given :: "'a option \<Rightarrow> 'a \<Rightarrow> 'a" where
  "given x old = (case x of None \<Rightarrow> old | Some new \<Rightarrow> new)"

definition patched :: "list_patch \<Rightarrow> time \<Rightarrow> unsubscribe_list \<Rightarrow> unsubscribe_list" where
  "patched i now l =
     l\<lparr>ul_name := given (lp_name i) (ul_name l), ul_public_name := given (lp_public_name i) (ul_public_name l),
       ul_description := given (lp_description i) (ul_description l), ul_active := given (lp_active i) (ul_active l),
       ul_updated_at := Some now\<rparr>"

definition UpdateList ::
    "string \<Rightarrow> string \<Rightarrow> time \<Rightarrow> list_patch \<Rightarrow> su_world \<Rightarrow> unsubscribe_list response \<times> su_world" where
  "UpdateList projID i now p w =
     Answer (GetList projID i w) (\<lambda>l w.
       case l of
         None \<Rightarrow> (NotFound ''unsubscribe list not found'', w)
       | Some l \<Rightarrow>
           Answer (case lp_name p of
                     Some n \<Rightarrow> (if n \<noteq> ul_name l then GetListByName projID n w else Return None w)
                   | None \<Rightarrow> Return None w) (\<lambda>clash w.
             if (case clash of None \<Rightarrow> False | Some c \<Rightarrow> ul_id c \<noteq> ul_id l)
             then (Conflict ''an unsubscribe list with this name already exists'', w)
             else Answer (PutList now (patched p now l) w) (\<lambda>l w. with_count l w)))"

definition DeleteListHandler :: "string \<Rightarrow> string \<Rightarrow> su_world \<Rightarrow> unit response \<times> su_world" where
  "DeleteListHandler projID i w =
     Answer (GetList projID i w) (\<lambda>l w.
       case l of
         None \<Rightarrow> (NotFound ''unsubscribe list not found'', w)
       | Some l \<Rightarrow> Answer (DeleteList projID (ul_id l) w) (\<lambda>_ w. (NoContent, w)))"

end
