(* ===== verification/Blocklist.thy ===== *)
theory Blocklist
  imports Suppressions
begin

text \<open>
  What the do-not-send list guarantees: the invariant of its tables, the agreement of the send-time
  filter with the single lookup, what lifting a block leaves alone, what an import does as a whole
  and how little a report from outside can do.
\<close>

section \<open>Addresses\<close>

lemma is_space_lower [simp]: "is_space (lower_char c) = is_space c"
  by (cases "65 \<le> (of_char c :: nat) \<and> (of_char c :: nat) \<le> 90") (auto simp: lower_char_def is_space_def)

lemma dropWhile_lower: "dropWhile is_space (to_lower s) = to_lower (dropWhile is_space s)"
  by (induction s) (simp_all add: to_lower_def)

lemma rev_lower: "rev (to_lower s) = to_lower (rev s)"
  by (simp add: to_lower_def rev_map)

lemma trim_lower: "trim_space (to_lower s) = to_lower (trim_space s)"
  by (simp add: trim_space_def dropWhile_lower rev_lower)

lemma dropWhile_prefix: "dropWhile P (x @ y) = x @ y \<Longrightarrow> dropWhile P x = x"
proof (cases x)
  case (Cons a x')
  assume h: "dropWhile P (x @ y) = x @ y"
  have "\<not> P a"
  proof
    assume "P a"
    then have "length (dropWhile P (x @ y)) \<le> length (x' @ y)" using Cons length_dropWhile_le [of P "x' @ y"] by simp
    then show False using h Cons by simp
  qed
  then show ?thesis using Cons by simp
qed simp

lemma trim_idem [simp]: "trim_space (trim_space s) = trim_space s"
proof -
  let ?d = "dropWhile is_space"
  let ?t = "rev (?d (rev (?d s)))"
  have "?d s = ?t @ rev (takeWhile is_space (rev (?d s)))"
    by (metis rev_append rev_rev_ident takeWhile_dropWhile_id)
  then have "?d ?t = ?t" using dropWhile_prefix dropWhile_idem by metis
  then show ?thesis by (simp add: trim_space_def dropWhile_idem)
qed

lemma bare_idem [simp]: "bare_address (bare_address s) = bare_address s"
  by (simp add: bare_address_def trim_lower)

section \<open>The tables\<close>

definition sup_ok :: "sup_db \<Rightarrow> bool" where
  "sup_ok s =
     (distinct (map sp_id (su_suppressions s)) \<and> distinct (map block_key (su_suppressions s)) \<and>
      (\<forall>p \<in> set (su_suppressions s). sp_email p = bare_address (sp_email p)) \<and>
      distinct (map bo_id (su_bounces s)) \<and> distinct (map list_name_key (su_lists s)))"

lemma sup_okI:
  assumes "sup_ok s" "su_bounces s' = su_bounces s" "su_lists s' = su_lists s"
    "distinct (map sp_id (su_suppressions s'))" "distinct (map block_key (su_suppressions s'))"
    "\<forall>p \<in> set (su_suppressions s'). sp_email p = bare_address (sp_email p)"
  shows "sup_ok s'"
  using assms by (simp add: sup_ok_def)

lemma insert_ok:
  assumes "sup_ok s" "insert_stmt p s = Inr (s', x)" "\<forall>r \<in> set (su_suppressions s). block_key r \<noteq> block_key p"
    "sp_email p = bare_address (sp_email p)"
  shows "sup_ok s'"
proof -
  have s': "s' = s\<lparr>su_suppressions := su_suppressions s @ [stored p]\<rparr>" and new: "sp_id p \<notin> sp_id ` set (su_suppressions s)"
    using assms(2) by (auto simp: insert_stmt_def split: if_splits)
  show ?thesis
    by (rule sup_okI [OF assms(1)]) (use assms(1,3,4) new in \<open>auto simp: s' sup_ok_def stored_def block_key_def\<close>)
qed

lemma upsert_ok:
  assumes "sup_ok s" "upsert_stmt p s = Inr (s', x)" "sp_email p = bare_address (sp_email p)"
  shows "sup_ok s'"
proof (cases "find (\<lambda>r. block_key r = block_key p) (su_suppressions s)")
  case None
  then have "insert_stmt p s = Inr (s', x)" using assms(2) by (simp add: upsert_stmt_def)
  then show ?thesis
    by (rule insert_ok [OF assms(1) _ _ assms(3)]) (use None in \<open>auto simp: find_None_iff\<close>)
next
  case (Some r)
  let ?f = "\<lambda>r. r\<lparr>sp_kind := sp_kind p, sp_reason := sp_reason p\<rparr>"
  have s': "s' = s\<lparr>su_suppressions := sql_update (\<lambda>r. block_key r = block_key p) ?f (su_suppressions s)\<rparr>"
    using assms(2) Some by (auto simp: upsert_stmt_def)
  have "map sp_id (su_suppressions s') = map sp_id (su_suppressions s)"
    "map block_key (su_suppressions s') = map block_key (su_suppressions s)"
    by (simp_all add: s' map_sql_update block_key_def)
  moreover have "\<forall>p \<in> set (su_suppressions s'). sp_email p = bare_address (sp_email p)"
    using assms(1) by (auto simp: s' sup_ok_def set_sql_update)
  ultimately show ?thesis using assms(1) by (intro sup_okI [OF assms(1)]) (simp_all add: s' sup_ok_def)
qed

lemma prepared_email: "sp_email (prepared i now p) = bare_address (sp_email (prepared i now p))"
  by (simp add: prepared_def)

lemma keeps_Upsert [keeping]: "keeps sup_ok (UpsertSuppression i now p)"
  unfolding UpsertSuppression_def by (rule keeps_Try) (erule (1) upsert_ok, rule prepared_email)

lemma keeps_InsertSuppression [keeping]: "keeps sup_ok (InsertSuppression i now p)"
  unfolding InsertSuppression_def Let_def
proof (rule keeps_Try)
  fix s s' x
  let ?p = "prepared i now p"
  assume ok: "sup_ok s" and st: "(if \<exists>r \<in> set (su_suppressions s). block_key r = block_key ?p then Inr (s, (?p, False))
      else (case insert_stmt ?p s of Inl e \<Rightarrow> Inl e | Inr (s', p') \<Rightarrow> Inr (s', (p', True)))) = Inr (s', x)"
  show "sup_ok s'"
  proof (cases "\<exists>r \<in> set (su_suppressions s). block_key r = block_key ?p")
    case False
    then obtain p' where "insert_stmt ?p s = Inr (s', p')" using st by (auto split: sum.splits)
    then show ?thesis by (rule insert_ok [OF ok]) (use False prepared_email in auto)
  qed (use ok st in auto)
qed

lemma keeps_drop_blocks [keeping]: "keeps sup_ok (drop_blocks q)"
  unfolding drop_blocks_def by (rule keeps_Run) (auto simp: sup_ok_def distinct_map_sql_delete)

lemma keeps_upsert_each [keeping]: "keeps sup_ok (upsert_each now ps)"
proof (induction ps)
  case Nil
  have "upsert_each now [] = (\<lambda>w. Return ((), True) w)" by (rule ext) simp
  then show ?case by (simp only:) (rule keeping)
next
  case (Cons x ps)
  have "upsert_each now (x # ps) = (\<lambda>w. andThen (UpsertSuppression (fst x) now (snd x) w) (\<lambda>_ w. upsert_each now ps w))"
    by (rule ext) (cases x, simp)
  then show ?case by (simp only:) (intro keeping Cons.IH)
qed

lemma keeps_PutBounce [keeping]: "keeps sup_ok (PutBounce i now b)"
  unfolding PutBounce_def Let_def
  by (rule keeps_Try) (force simp: sup_ok_def split: if_splits)

lemma keeps_DeleteByEmail [keeping]: "keeps sup_ok (DeleteByEmail projID email)"
  unfolding DeleteByEmail_def Let_def by (rule keeps_Run) (auto simp: sup_ok_def distinct_map_sql_delete)

lemma keeps_PutList [keeping]: "keeps sup_ok (PutList now l)"
  unfolding PutList_def Let_def by (rule keeps_Try) (auto simp: sup_ok_def Let_def split: if_splits)

lemma keeps_DeleteList [keeping]: "keeps sup_ok (DeleteList projID i)"
  unfolding DeleteList_def by (rule keeps_Run) (auto simp: sup_ok_def distinct_map_sql_delete)

lemma keeps_listNames [keeping]: "keeps I (listNames projID is names)"
proof (induction "is" arbitrary: names)
  case Nil
  have "listNames projID [] names = (\<lambda>w. (Ok names, w))" by (rule ext) simp
  then show ?case by (simp only:) (rule keeping)
next
  case (Cons i "is")
  have "listNames projID (i # is) names = (\<lambda>w.
      if ci_list_id i = [] \<or> names (ci_list_id i) \<noteq> None then listNames projID is names w
      else Answer (GetList projID (ci_list_id i) w) (\<lambda>l w.
        case l of
          None \<Rightarrow> (BadRequest (''unsubscribe list '' @ ci_list_id i @ '' not found in this project''), w)
        | Some l \<Rightarrow> listNames projID is (names(ci_list_id i \<mapsto> ul_name l)) w))"
    by (rule ext) simp
  then show ?case by (simp only: GetList_def) (intro keeping Cons.IH)
qed

lemma keeps_with_names [keeping]:
  assumes "\<And>names. keeps I (k names)"
  shows "keeps I (\<lambda>w. with_names projID is w k)"
proof -
  have "with_names projID is w k =
      (case listNames projID is Map.empty w of (r, w) \<Rightarrow> (case r of Ok names \<Rightarrow> k names | r \<Rightarrow> Pair (refuse r)) w)" for w
    by (simp add: with_names_def case_prod_unfold split: response.split)
  moreover have "keeps I ((case r of Ok names \<Rightarrow> k names | r \<Rightarrow> Pair (refuse r)))" for r
    using assms by (cases r) (auto intro: keeping)
  ultimately show ?thesis by (simp only:) (intro keeping)
qed

lemmas handler_defs = CreateSuppression_def ImportSuppressions_def DeleteSuppressionHandler_def
  UpsertAll_def DeleteSuppression_def DeleteForList_def DeleteBounces_def Ingest_def CreateList_def
  UpdateList_def DeleteListHandler_def with_count_def GetList_def GetListByName_def CountForList_def Let_def

lemma keeps_record_each:
  assumes "\<And>i b. I' b \<Longrightarrow> keeps I (PutBounce i now b)" "\<And>i p. J p \<Longrightarrow> keeps I (UpsertSuppression i now p)"
    "\<And>rec reason. rec \<in> snd ` set xs \<Longrightarrow> addressedTo parse (e_recipients sent) (rr_address rec) \<Longrightarrow>
       I' (bounce_for (e_project_id sent) (e_id sent) (rr_address rec) (rr_type rec) reason)"
    "\<And>rec reason. rec \<in> snd ` set xs \<Longrightarrow> addressedTo parse (e_recipients sent) (rr_address rec) \<Longrightarrow> \<not> historyOnly \<Longrightarrow>
       J (block_for (e_project_id sent) (rr_address rec) (kind_for (rr_type rec)) reason)"
  shows "keeps I (record_each parse sups now sent historyOnly xs)"
  using assms(3,4)
proof (induction xs)
  case Nil
  have "record_each parse sups now sent historyOnly [] = (\<lambda>w. (0, w))" by (rule ext) simp
  then show ?case by (simp only:) (rule keeping)
next
  case (Cons x xs)
  obtain bi ki rec where x: "x = ((bi, ki), rec)" by (metis prod.exhaust)
  have bounce: "addressedTo parse (e_recipients sent) (rr_address rec) \<Longrightarrow>
      keeps I (PutBounce bi now (bounce_for (e_project_id sent) (e_id sent) (rr_address rec) (rr_type rec) reason))" for reason
    using assms(1) Cons.prems(1) by (simp add: x)
  have block: "addressedTo parse (e_recipients sent) (rr_address rec) \<Longrightarrow> \<not> historyOnly \<Longrightarrow>
      keeps I (UpsertSuppression ki now (block_for (e_project_id sent) (rr_address rec) (kind_for (rr_type rec)) reason))" for reason
    using assms(2) Cons.prems(2) by (simp add: x)
  have one: "keeps I (record_recipient parse sups now sent historyOnly x)"
  proof (cases "addressedTo parse (e_recipients sent) (rr_address rec)")
    case False
    then have "record_recipient parse sups now sent historyOnly x = (\<lambda>w. (0, w))"
      by (intro ext) (simp add: record_recipient_def x)
    then show ?thesis by (simp only:) (rule keeping)
  next
    case True
    let ?reason = "Clamp (rr_reason rec) maxReason"
    let ?put = "PutBounce bi now (bounce_for (e_project_id sent) (e_id sent) (rr_address rec) (rr_type rec) ?reason)"
    let ?up = "UpsertSuppression ki now (block_for (e_project_id sent) (rr_address rec) (kind_for (rr_type rec)) ?reason)"
    have up: "rr_suppress rec \<and> \<not> historyOnly \<and> sups \<Longrightarrow> keeps I ?up" using block True by blast
    have "record_recipient parse sups now sent historyOnly x = (\<lambda>w. case ?put w of (r, w) \<Rightarrow>
        (case r of Inl _ \<Rightarrow> (0, w)
         | Inr _ \<Rightarrow> if rr_suppress rec \<and> \<not> historyOnly \<and> sups
             then (case ?up w of (r, w) \<Rightarrow> (case r of Inl _ \<Rightarrow> (0, w) | Inr _ \<Rightarrow> (1, w))) else (1, w)))"
      using True by (intro ext) (auto simp: record_recipient_def x Let_def case_prod_unfold split: sum.split)
    moreover have inner: "keeps I (\<lambda>w. if rr_suppress rec \<and> \<not> historyOnly \<and> sups
             then (case ?up w of (r, w) \<Rightarrow> (case r of Inl _ \<Rightarrow> (0, w) | Inr _ \<Rightarrow> (1, w))) else (1, w))"
    proof (cases "rr_suppress rec \<and> \<not> historyOnly \<and> sups")
      case True
      then show ?thesis by (simp only: if_True simp_thms) (intro keeping up True)
    next
      case False
      then show ?thesis by (simp only: if_False) (intro keeping)
    qed
    ultimately show ?thesis by (simp only:) (intro keeps_bind keeps_sum keeps_stay bounce True inner)
  qed
  have "record_each parse sups now sent historyOnly (x # xs) = (\<lambda>w. case record_recipient parse sups now sent historyOnly x w of
        (n, w) \<Rightarrow> (case record_each parse sups now sent historyOnly xs w of (m, w) \<Rightarrow> (n + m, w)))"
    by (rule ext) simp
  moreover have "keeps I (record_each parse sups now sent historyOnly xs)" using Cons by simp
  ultimately show ?case by (simp only:) (intro keeping one)
qed

lemma keeps_Record:
  assumes "\<And>sent. lookup (trim_space (re_email_id r)) = Inr (Some sent) \<Longrightarrow> in_allow i sent \<Longrightarrow>
      keeps I (record_each parse (in_suppressions i) now sent (in_sole i \<and> 1 < length (e_recipients sent))
        (map (\<lambda>(k, rec). (ids k, rec)) (enumerate 0 (take maxReportRecipients (re_recipients r)))))"
  shows "keeps I (Record parse lookup i now ids r)"
  using assms unfolding keeps_def Record_def Let_def by (auto split: sum.splits option.splits)

section \<open>Every history\<close>

text \<open>The requests and reports that change the tables, under any faults.\<close>

inductive su_step :: "sup_db \<Rightarrow> sup_db \<Rightarrow> bool" where
  create: "CreateSuppression projID i now inp (s, fs) = (r, w) \<Longrightarrow> su_step s (fst w)"
| import_all: "ImportSuppressions projID now inps (s, fs) = (r', w) \<Longrightarrow> su_step s (fst w)"
| unblock: "DeleteSuppressionHandler projID email listID (s, fs) = (r'', w) \<Longrightarrow> su_step s (fst w)"
| ingest: "Ingest projID i k now ing (s, fs) = (r1, w) \<Longrightarrow> su_step s (fst w)"
| forget: "DeleteBounces projID email (s, fs) = (r2, w) \<Longrightarrow> su_step s (fst w)"
| report: "Record parse lookup ik now ids rep (s, fs) = (r3, w) \<Longrightarrow> su_step s (fst w)"
| erase: "PurgeSuppressionsForAddress projID email (s, fs) = (r7, w) \<Longrightarrow> su_step s (fst w)"
| new_list: "CreateList projID i now li (s, fs) = (r4, w) \<Longrightarrow> su_step s (fst w)"
| edit_list: "UpdateList projID i now lp (s, fs) = (r5, w) \<Longrightarrow> su_step s (fst w)"
| drop_list: "DeleteListHandler projID i (s, fs) = (r6, w) \<Longrightarrow> su_step s (fst w)"

lemma keeps_after: "keeps I m \<Longrightarrow> m (s, fs) = (r, w) \<Longrightarrow> I s \<Longrightarrow> I (fst w)"
  using keeps_apply [of I m "(s, fs)"] by simp

lemma keeps_reads [keeping]:
  "keeps I (GetList projID i)" "keeps I (GetListByName projID n)" "keeps I (CountForList projID i)"
  by (simp_all add: GetList_def GetListByName_def CountForList_def keeps_Read)

lemma keeps_UpsertAll [keeping]: "keeps sup_ok (UpsertAll now ps)"
  unfolding UpsertAll_def by (intro keeping keeps_Run) simp

lemma keeps_handlers:
  "keeps sup_ok (CreateSuppression projID i now inp)" "keeps sup_ok (ImportSuppressions projID now inps)"
  "keeps sup_ok (DeleteSuppressionHandler projID email listID)" "keeps sup_ok (Ingest projID i k now ing)"
  "keeps sup_ok (DeleteBounces projID email)" "keeps sup_ok (PurgeSuppressionsForAddress projID email)"
  "keeps sup_ok (CreateList projID i now li)" "keeps sup_ok (DeleteListHandler projID i)"
  unfolding CreateSuppression_def ImportSuppressions_def DeleteSuppressionHandler_def Ingest_def DeleteBounces_def
    PurgeSuppressionsForAddress_def CreateList_def DeleteListHandler_def DeleteSuppression_def DeleteForList_def Let_def
  by (intro keeping)+

lemma keeps_UpdateList: "keeps sup_ok (UpdateList projID i now p)"
  unfolding UpdateList_def with_count_def by (intro keeping)

lemma keeps_Record_ok: "keeps sup_ok (Record parse lookup ik now ids rep)"
  by (rule keeps_Record, rule keeps_record_each [of "\<lambda>_. True" _ _ "\<lambda>_. True"]) (auto intro: keeping)

lemmas after_steps = keeps_handlers [THEN keeps_after] keeps_UpdateList [THEN keeps_after] keeps_Record_ok [THEN keeps_after]

lemma su_step_ok: "su_step s s' \<Longrightarrow> sup_ok s \<Longrightarrow> sup_ok s'"
  by (induction rule: su_step.induct) (erule after_steps, assumption)+

text \<open>
  C37: The tables stay sound.  Whatever requests, imports and outside reports arrive in whatever
  order and whichever statements fail, there is at most one block per project, address and scope,
  ids are unique, addresses are kept bare and lowercased, and no two unsubscribe lists of a project
  have names differing only in case.
\<close>
theorem tables_sound:
  assumes "su_step\<^sup>*\<^sup>* s s'" "sup_ok s"
  shows "distinct (map block_key (su_suppressions s')) \<and> distinct (map sp_id (su_suppressions s')) \<and>
    (\<forall>p \<in> set (su_suppressions s'). sp_email p = bare_address (sp_email p)) \<and>
    distinct (map bo_id (su_bounces s')) \<and> distinct (map list_name_key (su_lists s'))"
proof -
  from assms have "sup_ok s'" by (induction rule: rtranclp_induct) (auto dest: su_step_ok)
  then show ?thesis by (simp add: sup_ok_def)
qed

section \<open>The filter before a send\<close>

lemma IsSuppressed_calm:
  "fst (IsSuppressedForList projID addr listID (s, [])) =
     Inr (\<exists>p \<in> set (su_suppressions s). blocks projID listID p \<and> sp_email p = bare_address addr)"
  by (simp add: IsSuppressedForList_def)

lemma Filter_Inr:
  assumes "FilterSuppressedForList parse projID listID emails w = (Inr (allowed, blocked), w')"
  shows "fst w' = fst w \<and>
    allowed = filter (\<lambda>r. \<not> (\<exists>p \<in> set (su_suppressions (fst w)). blocks projID listID p \<and> sp_email p = mailboxKey parse r)) emails \<and>
    blocked = filter (\<lambda>r. \<exists>p \<in> set (su_suppressions (fst w)). blocks projID listID p \<and> sp_email p = mailboxKey parse r) emails"
proof (cases "emails = []")
  case True
  then show ?thesis using assms by (simp add: FilterSuppressedForList_def)
next
  case False
  let ?hits = "\<lambda>s. remdups (map sp_email (filter (\<lambda>p. blocks projID listID p \<and> sp_email p \<in> set (map (mailboxKey parse) emails)) (su_suppressions s)))"
  obtain r w1 where read: "Read ?hits w = (r, w1)" by (rule prod.exhaust)
  have r: "r = Inr (?hits (fst w)) \<and> fst w1 = fst w"
    using assms False read Read_Inr [of ?hits w] Read_state [OF read] by (cases r) (auto simp: FilterSuppressedForList_def)
  have hit: "mailboxKey parse e \<in> set (?hits (fst w)) \<longleftrightarrow>
      (\<exists>p \<in> set (su_suppressions (fst w)). blocks projID listID p \<and> sp_email p = mailboxKey parse e)" if "e \<in> set emails" for e
    using that by force
  show ?thesis
    using assms False read r hit by (auto simp: FilterSuppressedForList_def cong: filter_cong)
qed

text \<open>
  C34: The send-time filter is the lookup, recipient by recipient.  Whatever fails, the filter either
  fails or splits the recipients in their order into those the single lookup answers free and those
  it answers blocked, for a send of the same scope, and changes nothing; display names do not matter.
  This is for recipients whose mailbox, as the library parses it, has no space at either end: the lookup
  trims what it is asked and the filter does not, and the mail library yields such a mailbox for a quoted local
  part that begins with a space.
\<close>
theorem filter_agrees:
  assumes "FilterSuppressedForList parse projID listID emails w = (Inr (allowed, blocked), w')"
    and "\<forall>r \<in> set emails. trim_space (EnvelopeAddress parse r) = EnvelopeAddress parse r"
  shows "fst w' = fst w \<and>
    allowed = filter (\<lambda>r. fst (IsSuppressedForList projID (EnvelopeAddress parse r) listID (fst w, [])) = Inr False) emails \<and>
    blocked = filter (\<lambda>r. fst (IsSuppressedForList projID (EnvelopeAddress parse r) listID (fst w, [])) = Inr True) emails"
proof -
  have "mailboxKey parse r = bare_address (EnvelopeAddress parse r)" if "r \<in> set emails" for r
    using assms(2) that by (simp add: mailboxKey_def bare_address_def)
  then show ?thesis using Filter_Inr [OF assms(1)] by (auto simp: IsSuppressed_calm cong: filter_cong)
qed

section \<open>Lifting a block\<close>

lemma drop_blocks_result:
  assumes "drop_blocks q w = (r, w')"
  shows "(fst w' = fst w \<and> isl r) \<or>
    (fst w' = (fst w)\<lparr>su_suppressions := sql_delete q (su_suppressions (fst w))\<rparr> \<and>
     (isl r \<or> r = Inr (sql_count q (su_suppressions (fst w)))))"
  using assms unfolding drop_blocks_def by (cases rule: Run_cases) auto

text \<open>
  Lifting a block lifts that block.  Whatever fails, an unblock request touches no row of
  another address, project or scope, in particular no list opt-out when no list is named; it answers
  success exactly with the removal of the block and "not found" only when there was none.
\<close>
lemma unblock_exact:
  assumes "DeleteSuppressionHandler projID email listID w = (r, w')" "email \<noteq> []"
  defines "gone \<equiv> \<lambda>p. block_key p = (projID, bare_address email, listID)"
  shows "filter (\<lambda>p. \<not> gone p) (su_suppressions (fst w')) = filter (\<lambda>p. \<not> gone p) (su_suppressions (fst w)) \<and>
    su_bounces (fst w') = su_bounces (fst w) \<and> su_lists (fst w') = su_lists (fst w) \<and>
    (r = NoContent \<longrightarrow> (\<exists>p \<in> set (su_suppressions (fst w)). gone p) \<and> (\<forall>p \<in> set (su_suppressions (fst w')). \<not> gone p)) \<and>
    (\<forall>e. r = NotFound e \<longrightarrow> (\<forall>p \<in> set (su_suppressions (fst w)). \<not> gone p))"
proof -
  have g: "gone = (\<lambda>p. sp_project_id p = projID \<and> sp_email p = bare_address email \<and> sp_list_id p = listID)"
    by (auto simp: gone_def block_key_def)
  obtain r0 w0 where d: "drop_blocks gone w = (r0, w0)" by (rule prod.exhaust)
  have "DeleteSuppressionHandler projID email listID w =
      Answer (andThen (drop_blocks gone w) (\<lambda>n. Return (0 < n)))
        (\<lambda>ok w. (if ok then NoContent else NotFound ''no suppression for this email in that scope'', w))"
    using assms(2) by (simp add: DeleteSuppressionHandler_def DeleteSuppression_def DeleteForList_def g del: Return_simp)
  then have w': "w' = w0" and r: "r = (case r0 of Inl e \<Rightarrow> Internal e
      | Inr n \<Rightarrow> if 0 < n then NoContent else NotFound ''no suppression for this email in that scope'')"
    using assms(1) d by (cases r0; auto)+
  have zero: "sql_count gone (su_suppressions (fst w)) = 0 \<longleftrightarrow> (\<forall>p \<in> set (su_suppressions (fst w)). \<not> gone p)"
    by (auto simp: sql_count_def filter_empty_conv)
  show ?thesis
    using drop_blocks_result [OF d] zero by (auto simp: w' r sql_delete_def split: sum.splits if_splits)
qed

section \<open>Imports\<close>

definition holds_block :: "sup_db \<Rightarrow> suppression \<Rightarrow> bool" where
  "holds_block s p =
     (\<exists>r \<in> set (su_suppressions s). block_key r = block_key p \<and> sp_kind r = sp_kind p \<and> sp_reason r = sp_reason p)"

lemma upsert_holds:
  assumes "upsert_stmt p s = Inr (s', x)"
  shows "holds_block s' p \<and> (\<forall>q. block_key q \<noteq> block_key p \<longrightarrow> holds_block s q \<longrightarrow> holds_block s' q) \<and>
    block_key ` set (su_suppressions s') = insert (block_key p) (block_key ` set (su_suppressions s))"
proof (cases "find (\<lambda>r. block_key r = block_key p) (su_suppressions s)")
  case None
  then have "s' = s\<lparr>su_suppressions := su_suppressions s @ [stored p]\<rparr>"
    using assms by (auto simp: upsert_stmt_def insert_stmt_def split: if_splits)
  then show ?thesis by (auto simp: holds_block_def stored_def block_key_def)
next
  case (Some r)
  let ?f = "\<lambda>r. r\<lparr>sp_kind := sp_kind p, sp_reason := sp_reason p\<rparr>"
  have s': "su_suppressions s' = sql_update (\<lambda>r. block_key r = block_key p) ?f (su_suppressions s)"
    using assms Some by (auto simp: upsert_stmt_def)
  have r: "r \<in> set (su_suppressions s)" "block_key r = block_key p" using Some by (auto simp: find_Some_iff)
  have key: "block_key (?f q) = block_key q" for q by (simp add: block_key_def)
  have "?f r \<in> set (su_suppressions s')" unfolding s' set_sql_update using r by blast
  then have "holds_block s' p" unfolding holds_block_def using r(2) key [of r] by (intro bexI [of _ "?f r"]) simp_all
  moreover have "holds_block s' q" if "block_key q \<noteq> block_key p" "holds_block s q" for q
    using that unfolding holds_block_def s' set_sql_update by fastforce
  moreover have "map block_key (su_suppressions s') = map block_key (su_suppressions s)"
    by (simp add: s' map_sql_update key)
  then have "block_key ` set (su_suppressions s') = block_key ` set (su_suppressions s)"
    by (metis set_map)
  ultimately show ?thesis using r by (metis imageI insert_absorb)
qed

definition import_key :: "suppression \<Rightarrow> string \<times> string \<times> string" where
  "import_key p = (sp_project_id p, bare_address (sp_email p), sp_list_id p)"

definition asks_for :: "sup_db \<Rightarrow> suppression \<Rightarrow> bool" where
  "asks_for s p =
     (\<exists>r \<in> set (su_suppressions s). block_key r = import_key p \<and> sp_kind r = sp_kind p \<and> sp_reason r = sp_reason p)"

lemma asks_for_prepared: "asks_for s p = holds_block s (prepared i now p)"
  by (simp add: asks_for_def holds_block_def import_key_def block_key_def prepared_def)

lemma import_key_prepared: "block_key (prepared i now p) = import_key p"
  by (simp add: import_key_def block_key_def prepared_def)

text \<open>The last entry for a block decides what it says.\<close>

fun deciding :: "(string \<times> suppression) list \<Rightarrow> suppression list" where
  "deciding [] = []"
| "deciding ((i, p) # ps) =
     (if list_ex (\<lambda>q. import_key (snd q) = import_key p) ps then deciding ps else p # deciding ps)"

lemma Upsert_Inr:
  assumes "UpsertSuppression i now p w = (Inr x, w')"
  obtains s' where "upsert_stmt (prepared i now p) (fst w) = Inr (s', x)" "fst w' = s'"
  using Try_cases [of "upsert_stmt (prepared i now p)" w "Inr x" w'] assms
  by (auto simp: UpsertSuppression_def)

lemma upsert_each_asks:
  assumes "upsert_each now ps w = (Inr x, w')"
  shows "snd x \<and> (\<forall>p \<in> set (deciding ps). asks_for (fst w') p) \<and>
    (\<forall>q. asks_for (fst w) q \<longrightarrow> (\<forall>p \<in> snd ` set ps. import_key p \<noteq> import_key q) \<longrightarrow> asks_for (fst w') q)"
  using assms
proof (induction ps arbitrary: w)
  case (Cons ip ps)
  obtain i p where ip: "ip = (i, p)" by (rule prod.exhaust)
  obtain y w1 where up: "UpsertSuppression i now p w = (Inr y, w1)" and rest: "upsert_each now ps w1 = (Inr x, w')"
  proof -
    have "andThen (UpsertSuppression i now p w) (\<lambda>_ w. upsert_each now ps w) = (Inr x, w')" using Cons.prems by (simp add: ip)
    from andThen_Inr [OF this] show thesis using that by blast
  qed
  obtain s1 where s1: "upsert_stmt (prepared i now p) (fst w) = Inr (s1, y)" "fst w1 = s1" using Upsert_Inr [OF up] by blast
  note held = upsert_holds [OF s1(1), folded asks_for_prepared s1(2), unfolded import_key_prepared]
  note ih = Cons.IH [OF rest]
  have keep: "asks_for (fst w1) q" if "asks_for (fst w) q" "import_key q \<noteq> import_key p" for q
    using held that import_key_prepared asks_for_prepared by metis
  show ?case
    using ih held keep by (auto simp: ip list_ex_iff split: if_splits)
qed auto

lemma upsert_all_result:
  assumes "UpsertAll now ps w = (r, w')"
  shows "(fst w' = fst w \<and> isl r) \<or> (\<forall>p \<in> set (deciding ps). asks_for (fst w') p)"
proof -
  obtain r0 w0 where begin_tx: "Run (\<lambda>s. (s, ())) w = (r0, w0)" by (rule prod.exhaust)
  have same: "fst w0 = fst w" using Run_state [OF begin_tx] by auto
  show ?thesis
  proof (cases r0)
    case (Inl e)
    then show ?thesis using assms begin_tx same by (auto simp: UpsertAll_def)
  next
    case (Inr u)
    then have t: "Transaction (upsert_each now ps) w0 = (r, w')" using assms begin_tx by (simp add: UpsertAll_def)
    obtain b w1 where b: "upsert_each now ps w0 = (b, w1)" by (rule prod.exhaust)
    show ?thesis
    proof (cases b)
      case (Inl e)
      then show ?thesis using t b same by (auto simp: Transaction_def)
    next
      case (Inr x)
      note asks = upsert_each_asks [OF b [unfolded Inr]]
      obtain y where x: "x = (y, True)" using asks by (cases x) auto
      have "Run (\<lambda>s. (fst w1, y)) (fst w0, snd w1) = (r, w')" using t b by (simp add: Transaction_def Inr x)
      then show ?thesis using asks same by (cases rule: Run_cases) auto
    qed
  qed
qed

text \<open>The list names are read before anything is written.\<close>

lemma listNames_state: "listNames projID is names w = (r, w') \<Longrightarrow> fst w' = fst w \<and> r \<noteq> NoContent"
proof (induction "is" arbitrary: names w)
  case (Cons i "is")
  show ?case
  proof (cases "ci_list_id i = [] \<or> names (ci_list_id i) \<noteq> None")
    case True
    then show ?thesis using Cons by auto
  next
    case False
    obtain l w1 where l: "GetList projID (ci_list_id i) w = (l, w1)" by (rule prod.exhaust)
    have same: "fst w1 = fst w" using Read_state l unfolding GetList_def by blast
    show ?thesis using Cons.prems False same Cons.IH [of _ w1] by (auto simp: l Answer_def split: sum.splits option.splits)
  qed
qed auto

text \<open>
  C38: An import lands whole or not at all.  Whatever fails, either nothing changed, which a refused
  or failed import may also have left, or every block asked for stands, with the kind and reason of
  the last entry that names it; success is answered only then, with the number of entries, and an
  import naming a list of another project changes nothing.
\<close>
theorem import_all_or_nothing:
  assumes "ImportSuppressions projID now is w = (r, w')"
  defines "asked \<equiv> deciding (map (\<lambda>(i, c). (i, suppression_of c projID)) is)"
  shows "(fst w' = fst w \<and> (\<forall>n. r \<noteq> Ok n) \<or> (\<forall>p \<in> set asked. asks_for (fst w') p)) \<and>
    (\<forall>n. r = Ok n \<longrightarrow> n = length is) \<and> (\<forall>e. r = BadRequest e \<longrightarrow> fst w' = fst w)"
proof -
  let ?ps = "map (\<lambda>(i, c). (i, suppression_of c projID)) is"
  obtain q w1 where q: "listNames projID (map snd is) Map.empty w = (q, w1)" by (rule prod.exhaust)
  note same = listNames_state [OF q]
  show ?thesis
  proof (cases "\<exists>names. q = Ok names")
    case False
    then have "(r, w') = (refuse q, w1)"
      using assms(1) q by (cases q) (auto simp: ImportSuppressions_def with_names_def)
    then show ?thesis using False same by (cases q) auto
  next
    case True
    obtain u w2 where u: "UpsertAll now ?ps w1 = (u, w2)" by (rule prod.exhaust)
    have "(r, w') = (case u of Inl e \<Rightarrow> (Internal e, w2) | Inr _ \<Rightarrow> (Ok (length is), w2))"
      using assms(1) q u True by (auto simp: ImportSuppressions_def with_names_def split: sum.split)
    then show ?thesis using upsert_all_result [OF u] same unfolding asked_def by (cases u) auto
  qed
qed

section \<open>What a report can do\<close>

definition confined :: "parser \<Rightarrow> email \<Rightarrow> bool \<Rightarrow> sup_db \<Rightarrow> sup_db \<Rightarrow> bool" where
  "confined parse sent may_block s0 s =
     (su_lists s = su_lists s0 \<and>
      (\<exists>new. su_bounces s = su_bounces s0 @ new \<and>
        (\<forall>b \<in> set new. bo_project_id b = e_project_id sent \<and> bo_email_id b = e_id sent \<and>
           addressedTo parse (e_recipients sent) (bo_recipient b))) \<and>
      (\<exists>new. map block_key (su_suppressions s) = map block_key (su_suppressions s0) @ new) \<and>
      (\<forall>p \<in> set (su_suppressions s) - set (su_suppressions s0).
         may_block \<and> sp_project_id p = e_project_id sent \<and> sp_list_id p = [] \<and>
         addressedTo parse (e_recipients sent) (sp_email p)))"

lemma confined_refl: "confined parse sent b s s"
  by (simp add: confined_def)

lemma confined_bounce:
  assumes "confined parse sent m s0 s" "bo_project_id b = e_project_id sent" "bo_email_id b = e_id sent"
    "addressedTo parse (e_recipients sent) (bo_recipient b)"
  shows "confined parse sent m s0 (s\<lparr>su_bounces := su_bounces s @ [b]\<rparr>)"
proof -
  obtain new where new: "su_bounces s = su_bounces s0 @ new" "\<forall>b \<in> set new. bo_project_id b = e_project_id sent \<and>
      bo_email_id b = e_id sent \<and> addressedTo parse (e_recipients sent) (bo_recipient b)"
    using assms(1) by (auto simp: confined_def)
  have "su_bounces (s\<lparr>su_bounces := su_bounces s @ [b]\<rparr>) = su_bounces s0 @ (new @ [b])" using new(1) by simp
  moreover have "\<forall>b \<in> set (new @ [b]). bo_project_id b = e_project_id sent \<and> bo_email_id b = e_id sent \<and>
      addressedTo parse (e_recipients sent) (bo_recipient b)" using new(2) assms(2-4) by auto
  ultimately show ?thesis using assms(1) unfolding confined_def
    by (metis (no_types, lifting) sup_db.select_convs(1,3) sup_db.surjective sup_db.update_convs(2))
qed

lemma upsert_rows:
  assumes "upsert_stmt p s = Inr (s', x)"
  shows "su_lists s' = su_lists s \<and> su_bounces s' = su_bounces s \<and>
    (\<exists>new. map block_key (su_suppressions s') = map block_key (su_suppressions s) @ new) \<and>
    (\<forall>q \<in> set (su_suppressions s') - set (su_suppressions s). block_key q = block_key p) \<and>
    (\<forall>q \<in> set (su_suppressions s'). sp_id q = sp_id p \<or> (\<exists>r \<in> set (su_suppressions s). sp_id r = sp_id q))"
proof (cases "find (\<lambda>r. block_key r = block_key p) (su_suppressions s)")
  case None
  then have "s' = s\<lparr>su_suppressions := su_suppressions s @ [stored p]\<rparr>"
    using assms by (auto simp: upsert_stmt_def insert_stmt_def split: if_splits)
  then show ?thesis by (auto simp: stored_def block_key_def)
next
  case (Some r)
  then have "s' = s\<lparr>su_suppressions := sql_update (\<lambda>r. block_key r = block_key p)
      (\<lambda>r. r\<lparr>sp_kind := sp_kind p, sp_reason := sp_reason p\<rparr>) (su_suppressions s)\<rparr>"
    using assms by (auto simp: upsert_stmt_def)
  then show ?thesis by (auto simp: map_sql_update block_key_def set_sql_update)
qed

lemma confined_block:
  assumes "confined parse sent True s0 s" "upsert_stmt p s = Inr (s', x)" "sp_project_id p = e_project_id sent"
    "sp_list_id p = []" "addressedTo parse (e_recipients sent) (sp_email p)"
  shows "confined parse sent True s0 s'"
proof -
  note rows = upsert_rows [OF assms(2)]
  obtain n1 where "map block_key (su_suppressions s) = map block_key (su_suppressions s0) @ n1"
    using assms(1) by (auto simp: confined_def)
  moreover obtain n2 where "map block_key (su_suppressions s') = map block_key (su_suppressions s) @ n2" using rows by blast
  ultimately have "map block_key (su_suppressions s') = map block_key (su_suppressions s0) @ (n1 @ n2)" by simp
  moreover have "sp_project_id q = e_project_id sent \<and> sp_list_id q = [] \<and> addressedTo parse (e_recipients sent) (sp_email q)"
    if "q \<in> set (su_suppressions s')" "q \<notin> set (su_suppressions s0)" for q
  proof (cases "q \<in> set (su_suppressions s)")
    case True
    then show ?thesis using assms(1) that by (auto simp: confined_def)
  next
    case False
    then have "block_key q = block_key p" using rows that by blast
    then show ?thesis using assms(3-5) by (simp add: block_key_def)
  qed
  ultimately show ?thesis using assms(1) rows unfolding confined_def by auto
qed

lemma addressedTo_bare: "addressedTo parse rs (bare_address a) = addressedTo parse rs a"
  by (simp add: addressedTo_def)

lemma confined_Put:
  "bo_project_id b = e_project_id sent \<and> bo_email_id b = e_id sent \<and> addressedTo parse (e_recipients sent) (bo_recipient b) \<Longrightarrow>
   keeps (confined parse sent m s0) (PutBounce i now b)"
  unfolding PutBounce_def Let_def
  by (rule keeps_Try) (auto simp: prepared_bounce_def split: if_splits intro!: confined_bounce)

lemma confined_Upsert:
  "sp_project_id p = e_project_id sent \<and> sp_list_id p = [] \<and> addressedTo parse (e_recipients sent) (sp_email p) \<and> m \<Longrightarrow>
   keeps (confined parse sent m s0) (UpsertSuppression i now p)"
  unfolding UpsertSuppression_def
  by (rule keeps_Try) (auto simp: prepared_def addressedTo_bare dest: confined_block)

lemma record_each_count: "record_each parse sups now sent h xs w = (n, w') \<Longrightarrow> n \<le> length xs"
proof (induction xs arbitrary: w n w')
  case (Cons x xs)
  obtain m w1 where x: "record_recipient parse sups now sent h x w = (m, w1)" by (rule prod.exhaust)
  have "m \<le> 1" using x by (auto simp: record_recipient_def Let_def split: prod.splits sum.splits if_splits)
  moreover obtain k w2 where r: "record_each parse sups now sent h xs w1 = (k, w2)" by (rule prod.exhaust)
  ultimately show ?case using Cons.IH [OF r] Cons.prems x r by simp
qed simp

text \<open>
  C35: A report from outside reaches its message's recipients and nothing else.  Whatever it claims
  and whatever fails, a report that names no message the channel is entitled to changes nothing; any
  other adds bounces of that message only, for addresses it went to, adds or rewrites global blocks
  of the sending project only, for such addresses, removes none, and on a channel that does not
  block on shared messages blocks nobody when the message had several recipients.  At most a hundred
  recipients are acted on.
\<close>
theorem report_confined:
  assumes "Record parse lookup i now ids r w = (n, w')"
  shows "n \<le> 100 \<and>
    (case lookup (trim_space (re_email_id r)) of
       Inr (Some sent) \<Rightarrow>
         confined parse sent (\<not> (in_sole i \<and> 1 < length (e_recipients sent))) (fst w) (fst w') \<and>
         (\<not> in_allow i sent \<longrightarrow> w' = w)
     | _ \<Rightarrow> w' = w)"
proof -
  let ?recs = "map (\<lambda>(k, rec). (ids k, rec)) (enumerate 0 (take maxReportRecipients (re_recipients r)))"
  have count: "n \<le> 100"
    using assms by (auto simp: Record_def Let_def maxReportRecipients_def split: if_splits sum.splits option.splits
        dest!: record_each_count)
  have one: "confined parse sent (\<not> (in_sole i \<and> 1 < length (e_recipients sent))) (fst w) (fst w')"
    if "lookup (trim_space (re_email_id r)) = Inr (Some sent)" for sent
  proof -
    let ?m = "\<not> (in_sole i \<and> 1 < length (e_recipients sent))"
    have "keeps (confined parse sent ?m (fst w)) (Record parse lookup i now ids r)"
    proof (rule keeps_Record)
      fix sent'
      assume "lookup (trim_space (re_email_id r)) = Inr (Some sent')"
      then have s: "sent' = sent" using that by simp
      show "keeps (confined parse sent ?m (fst w)) (record_each parse (in_suppressions i) now sent'
          (in_sole i \<and> 1 < length (e_recipients sent')) ?recs)"
        unfolding s
        by (rule keeps_record_each [of
              "\<lambda>b. bo_project_id b = e_project_id sent \<and> bo_email_id b = e_id sent \<and> addressedTo parse (e_recipients sent) (bo_recipient b)" _ _
              "\<lambda>p. sp_project_id p = e_project_id sent \<and> sp_list_id p = [] \<and> addressedTo parse (e_recipients sent) (sp_email p) \<and> ?m",
              OF confined_Put confined_Upsert])
          (simp_all add: bounce_for_def block_for_def)
    qed
    from keeps_apply [OF this, of w] show ?thesis using assms confined_refl by simp
  qed
  show ?thesis
    using count one assms by (auto simp: Record_def Let_def split: if_splits sum.splits option.splits)
qed

section \<open>A report stops the next message\<close>

definition id_free :: "sup_db \<Rightarrow> string \<times> string \<Rightarrow> bool" where
  "id_free s i = ((\<forall>b \<in> set (su_bounces s). bo_id b \<noteq> fst i) \<and> (\<forall>p \<in> set (su_suppressions s). sp_id p \<noteq> snd i))"

lemma PutBounce_calm:
  "id_free s i \<Longrightarrow> PutBounce (fst i) now (bounce_for projID e a t reason) (s, []) =
     (Inr (prepared_bounce (fst i) now (bounce_for projID e a t reason)),
      (s\<lparr>su_bounces := su_bounces s @ [prepared_bounce (fst i) now (bounce_for projID e a t reason)]\<rparr>, []))"
  by (auto simp: PutBounce_def Let_def id_free_def prepared_bounce_def bounce_for_def)

lemma record_recipient_calm:
  assumes "id_free s i"
  shows "\<exists>n s'. record_recipient parse True now sent False (i, rec) (s, []) = (n, (s', [])) \<and>
    block_key ` set (su_suppressions s) \<subseteq> block_key ` set (su_suppressions s') \<and>
    (rr_suppress rec \<and> addressedTo parse (e_recipients sent) (rr_address rec) \<longrightarrow>
       (e_project_id sent, bare_address (rr_address rec), []) \<in> block_key ` set (su_suppressions s')) \<and>
    (\<forall>j. id_free s j \<and> fst j \<noteq> fst i \<and> snd j \<noteq> snd i \<longrightarrow> id_free s' j)"
proof (cases "addressedTo parse (e_recipients sent) (rr_address rec)")
  case False
  then show ?thesis by (cases i) (auto simp: record_recipient_def)
next
  case True
  obtain bi ki where i: "i = (bi, ki)" by (rule prod.exhaust)
  let ?reason = "Clamp (rr_reason rec) maxReason"
  let ?b = "prepared_bounce bi now (bounce_for (e_project_id sent) (e_id sent) (rr_address rec) (rr_type rec) ?reason)"
  let ?s1 = "s\<lparr>su_bounces := su_bounces s @ [?b]\<rparr>"
  have put: "PutBounce bi now (bounce_for (e_project_id sent) (e_id sent) (rr_address rec) (rr_type rec) ?reason) (s, []) =
      (Inr ?b, (?s1, []))" using PutBounce_calm [OF assms] by (simp add: i)
  have bid: "bo_id ?b = bi" by (simp add: prepared_bounce_def bounce_for_def)
  show ?thesis
  proof (cases "rr_suppress rec")
    case False
    then show ?thesis using True put bid by (auto simp: record_recipient_def Let_def i id_free_def)
  next
    case sup: True
    let ?p = "block_for (e_project_id sent) (rr_address rec) (kind_for (rr_type rec)) ?reason"
    have "\<exists>x s'. upsert_stmt (prepared ki now ?p) ?s1 = Inr (s', x)"
      using assms by (auto simp: upsert_stmt_def insert_stmt_def id_free_def prepared_def block_for_def Let_def i split: option.split)
    then obtain x s' where st: "upsert_stmt (prepared ki now ?p) ?s1 = Inr (s', x)" by blast
    then have up: "UpsertSuppression ki now ?p (?s1, []) = (Inr x, (s', []))" by (simp add: UpsertSuppression_def)
    have run: "record_recipient parse True now sent False (i, rec) (s, []) = (1, (s', []))"
      using True sup put up by (simp add: record_recipient_def Let_def i)
    have key: "block_key (prepared ki now ?p) = (e_project_id sent, bare_address (rr_address rec), [])"
      by (simp add: block_key_def prepared_def block_for_def)
    have pid: "sp_id (prepared ki now ?p) = ki" by (simp add: prepared_def block_for_def)
    show ?thesis
      using run upsert_holds [OF st] upsert_rows [OF st] key pid bid by (auto simp: id_free_def i)
  qed
qed

lemma record_each_calm:
  assumes "\<forall>x \<in> set xs. id_free s (fst x)" "distinct (map (fst \<circ> fst) xs)" "distinct (map (snd \<circ> fst) xs)"
  shows "\<exists>n s'. record_each parse True now sent False xs (s, []) = (n, (s', [])) \<and>
    block_key ` set (su_suppressions s) \<subseteq> block_key ` set (su_suppressions s') \<and>
    (\<forall>x \<in> set xs. rr_suppress (snd x) \<and> addressedTo parse (e_recipients sent) (rr_address (snd x)) \<longrightarrow>
       (e_project_id sent, bare_address (rr_address (snd x)), []) \<in> block_key ` set (su_suppressions s'))"
  using assms
proof (induction xs arbitrary: s)
  case (Cons x xs)
  obtain i rec where x: "x = (i, rec)" by (rule prod.exhaust)
  obtain n1 s1 where one: "record_recipient parse True now sent False (i, rec) (s, []) = (n1, (s1, []))"
    "block_key ` set (su_suppressions s) \<subseteq> block_key ` set (su_suppressions s1)"
    "rr_suppress rec \<and> addressedTo parse (e_recipients sent) (rr_address rec) \<longrightarrow>
       (e_project_id sent, bare_address (rr_address rec), []) \<in> block_key ` set (su_suppressions s1)"
    "\<forall>j. id_free s j \<and> fst j \<noteq> fst i \<and> snd j \<noteq> snd i \<longrightarrow> id_free s1 j"
    using record_recipient_calm [of s i parse now sent rec] Cons.prems(1) x by auto
  have "\<forall>y \<in> set xs. id_free s1 (fst y)"
  proof
    fix y
    assume y: "y \<in> set xs"
    have "fst (fst y) \<noteq> fst i" "snd (fst y) \<noteq> snd i" using Cons.prems(2,3) y by (force simp: x)+
    then show "id_free s1 (fst y)" using one(4) Cons.prems(1) y by (metis list.set_intros(2))
  qed
  then obtain n2 s2 where rest: "record_each parse True now sent False xs (s1, []) = (n2, (s2, []))"
    "block_key ` set (su_suppressions s1) \<subseteq> block_key ` set (su_suppressions s2)"
    "\<forall>x \<in> set xs. rr_suppress (snd x) \<and> addressedTo parse (e_recipients sent) (rr_address (snd x)) \<longrightarrow>
       (e_project_id sent, bare_address (rr_address (snd x)), []) \<in> block_key ` set (su_suppressions s2)"
    using Cons.IH [of s1] Cons.prems(2,3) by auto
  have "record_each parse True now sent False (x # xs) (s, []) = (n1 + n2, (s2, []))"
    using one(1) rest(1) by (simp add: x)
  then show ?case using one(2,3) rest(2,3) by (auto simp: x)
qed simp

text \<open>
  C36: What a report blocks, the next send leaves out.  The channel the report comes by accepts reports on
  this message and has blocking turned on, and where it blocks only for messages to one recipient the message
  has no more than one.  Then, when nothing fails and the ids minted are new, a report of a permanent failure
  about an address its message went to, in any spelling of the case and among the first hundred the report
  names, ends with that address blocked: a send of the same project to it, whatever its scope and however
  the address is written, is filtered.
\<close>
theorem report_stops_mail:
  assumes "lookup (trim_space (re_email_id r)) = Inr (Some sent)" "trim_space (re_email_id r) \<noteq> []"
    and "in_allow i sent" "in_suppressions i" "\<not> (in_sole i \<and> 1 < length (e_recipients sent))"
    and ids: "inj (\<lambda>k. fst (ids k))" "inj (\<lambda>k. snd (ids k))" "\<forall>k. id_free s (ids k)"
    and rec: "rec \<in> set (take 100 (re_recipients r))" "rr_suppress rec" "addressedTo parse (e_recipients sent) (rr_address rec)"
    and again: "mailboxKey parse addr = bare_address (rr_address rec)"
  shows "fst (FilterSuppressedForList parse (e_project_id sent) listID [addr]
    (snd (Record parse lookup i now ids r (s, [])))) = Inr ([], [addr])"
proof -
  let ?recs = "map (\<lambda>(k, rec). (ids k, rec)) (enumerate 0 (take maxReportRecipients (re_recipients r)))"
  have "\<forall>x \<in> set ?recs. id_free s (fst x)" using ids(3) by auto
  moreover have "map (fst \<circ> fst) ?recs = map (\<lambda>k. fst (ids k)) (map fst (enumerate 0 (take maxReportRecipients (re_recipients r))))"
    "map (snd \<circ> fst) ?recs = map (\<lambda>k. snd (ids k)) (map fst (enumerate 0 (take maxReportRecipients (re_recipients r))))"
    by (simp_all only: map_map) (simp_all add: o_def case_prod_unfold)
  then have "distinct (map (fst \<circ> fst) ?recs)" "distinct (map (snd \<circ> fst) ?recs)"
    using ids(1,2) by (simp_all only: map_fst_enumerate) (simp_all add: distinct_map inj_on_def)
  ultimately obtain n s' where run: "record_each parse True now sent False ?recs (s, []) = (n, (s', []))"
    "\<forall>x \<in> set ?recs. rr_suppress (snd x) \<and> addressedTo parse (e_recipients sent) (rr_address (snd x)) \<longrightarrow>
       (e_project_id sent, bare_address (rr_address (snd x)), []) \<in> block_key ` set (su_suppressions s')"
    using record_each_calm [of ?recs s parse now sent] by auto
  have "rec \<in> snd ` set ?recs"
  proof -
    have "rec \<in> set (map snd ?recs)"
      using rec(1) by (simp add: maxReportRecipients_def o_def case_prod_unfold del: set_map)
    then show ?thesis by (simp only: set_map)
  qed
  then have "(e_project_id sent, bare_address (rr_address rec), []) \<in> block_key ` set (su_suppressions s')"
    using run(2) rec(2,3) by auto
  then obtain p where p: "p \<in> set (su_suppressions s')" "blocks (e_project_id sent) listID p" "sp_email p = mailboxKey parse addr"
    using again by (auto simp: block_key_def blocks_def)
  have shared: "(in_sole i \<and> 1 < length (e_recipients sent)) = False" using assms(5) by blast
  have "Record parse lookup i now ids r (s, []) =
      record_each parse True now sent (in_sole i \<and> 1 < length (e_recipients sent)) ?recs (s, [])"
    using assms(1-4) by (simp add: Record_def Let_def)
  then have "snd (Record parse lookup i now ids r (s, [])) = (s', [])" unfolding shared run(1) by simp
  then show ?thesis using p by (force simp: FilterSuppressedForList_def Let_def)
qed

section \<open>Reading the whole list\<close>

interpretation block_keys: keyset supp_key sp_id
  by unfold_locales (simp add: supp_key_def)

interpretation bounce_keys: keyset bounce_key bo_id
  by unfold_locales (simp add: bounce_key_def)

definition blocks_fetch :: "string \<Rightarrow> supp_filter \<Rightarrow> sup_db \<Rightarrow> int \<Rightarrow> cursor \<Rightarrow> suppression list" where
  "blocks_fetch projID f s n c =
     (case fst (ListSuppressions projID (f\<lparr>sf_limit := n, sf_cursor := c\<rparr>) (s, [])) of Inl _ \<Rightarrow> [] | Inr rows \<Rightarrow> rows)"

lemma newest_map:
  assumes "\<And>r. key (g r) = key r"
  shows "newest key (map g rows) = map g (newest key rows)"
proof -
  have "insort_key key (g x) (map g xs) = map g (insort_key key x xs)" for x xs
    by (induction xs) (simp_all add: assms)
  then have "sort_key key (map g rows) = map g (sort_key key rows)" by (induction rows) simp_all
  then show ?thesis by (simp add: newest_def rev_map)
qed

text \<open>
  Following the cursors reads every block.  With any page size, the pages put together are the
  matching blocks of the project with the names of their lists, newest first, each once, and after
  as many pages as there are blocks, plus one, none is left.
\<close>
lemma blocks_walk_complete:
  assumes "sup_ok s" "\<forall>p \<in> set (su_suppressions s). sp_id p \<noteq> [] \<and> sp_created_at p \<noteq> zero_time"
  shows "walk supp_key (blocks_fetch projID f s) (Suc (length (filter (supp_matches projID f) (su_suppressions s)))) limit_param zero_cursor =
    map (scanned (su_lists s)) (newest supp_key (filter (supp_matches projID f) (su_suppressions s)))"
proof -
  let ?rows = "filter (supp_matches projID f) (su_suppressions s)"
  let ?g = "scanned (su_lists s)"
  have g: "supp_key (?g r) = supp_key r" "sp_id (?g r) = sp_id r" "after_key supp_key c (?g r) = after_key supp_key c r" for r c
    by (simp_all add: scanned_def supp_key_def after_key_def)
  have m: "supp_matches projID (f\<lparr>sf_limit := n, sf_cursor := c\<rparr>) = supp_matches projID f" for n c
    by (rule ext) (simp add: supp_matches_def)
  have fetch: "blocks_fetch projID f s = (\<lambda>n c. page_of supp_key n c (map ?g ?rows))"
    by (intro ext) (simp add: blocks_fetch_def ListSuppressions_def m page_of_def filter_map o_def g newest_map [of supp_key "scanned (su_lists s)"] take_map)
  have "distinct (map sp_id (map ?g ?rows))"
    using assms(1) by (simp add: o_def g sup_ok_def distinct_map_filter)
  moreover have "\<forall>r \<in> set (map ?g ?rows). \<not> IsZero \<lparr>cu_created_at = fst (supp_key r), cu_id = snd (supp_key r)\<rparr>"
    using assms(2) by (auto simp: IsZero_def g) (auto simp: supp_key_def)
  ultimately show ?thesis
    using block_keys.walk_all [of "map ?g ?rows" limit_param] by (simp add: fetch newest_map g)
qed

section \<open>Samples\<close>

definition block_row :: "string \<Rightarrow> string \<Rightarrow> string \<Rightarrow> time \<Rightarrow> suppression" where
  "block_row i addr list at =
     \<lparr>sp_id = i, sp_project_id = ''p'', sp_email = addr, sp_kind = KindManual, sp_reason = [], sp_list_id = list,
      sp_list_name = [], sp_created_at = at\<rparr>"

definition block_db :: sup_db where
  "block_db =
     \<lparr>su_suppressions = [block_row ''1'' ''a@x'' [] 5, block_row ''2'' ''b@x'' ''L'' 6], su_bounces = [],
      su_lists = [\<lparr>ul_id = ''L'', ul_project_id = ''p'', ul_name = ''News'', ul_public_name = [], ul_description = [],
        ul_active = True, ul_suppressed_count = 0, ul_created_at = 1, ul_updated_at = None\<rparr>]\<rparr>"

definition block_mail :: email where
  "block_mail = zero_email\<lparr>e_id := ''m'', e_project_id := ''p'', e_recipients := [''C@x'']\<rparr>"

definition block_report :: report where
  "block_report = \<lparr>re_email_id = ''m'', re_recipients =
     [\<lparr>rr_address = ''c@x'', rr_type = TypeHard, rr_suppress = True, rr_reason = ''gone''\<rparr>]\<rparr>"

definition open_intake :: intake where
  "open_intake = \<lparr>in_suppressions = True, in_allow = (\<lambda>_. True), in_sole = True\<rparr>"

definition minted :: "nat \<Rightarrow> string \<times> string" where
  "minted k = (replicate (k + 2) CHR ''i'', replicate (k + 2) CHR ''i'')"

lemma block_db_ok: "sup_ok block_db"
proof -
  have "bare_address ''a@x'' = ''a@x''" "bare_address ''b@x'' = ''b@x''" by code_simp+
  then show ?thesis by (simp add: sup_ok_def block_db_def block_row_def block_key_def)
qed

lemma tables_sound_witness:
  "distinct (map block_key (su_suppressions (fst (snd
     (Ingest ''p'' ''3'' ''4'' 9 \<lparr>ii_recipient = ''d@x'', ii_email_id = [], ii_type = [], ii_reason = []\<rparr> (block_db, []))))))"
proof -
  let ?r = "Ingest ''p'' ''3'' ''4'' 9 \<lparr>ii_recipient = ''d@x'', ii_email_id = [], ii_type = [], ii_reason = []\<rparr> (block_db, [])"
  have "su_step block_db (fst (snd ?r))" by (rule su_step.ingest) (rule prod.collapse [symmetric])
  then have "su_step\<^sup>*\<^sup>* block_db (fst (snd ?r))" by (rule r_into_rtranclp [of su_step])
  from tables_sound [OF this block_db_ok] show ?thesis by blast
qed

lemma filter_agrees_witness:
  "FilterSuppressedForList Some ''p'' ''L'' [''A@x'', ''b@x'', ''c@x''] (block_db, []) =
     (Inr ([''c@x''], [''A@x'', ''b@x'']), (block_db, [])) \<and>
   fst (IsSuppressedForList ''p'' ''A@x'' ''L'' (block_db, [])) = Inr True"
proof -
  have run: "FilterSuppressedForList Some ''p'' ''L'' [''A@x'', ''b@x'', ''c@x''] (block_db, []) =
     (Inr ([''c@x''], [''A@x'', ''b@x'']), (block_db, []))" by code_simp
  have trim: "\<forall>r \<in> set [''A@x'', ''b@x'', ''c@x'']. trim_space (EnvelopeAddress Some r) = EnvelopeAddress Some r" by code_simp
  have "''A@x'' \<in> set [''A@x'', ''b@x'']" by simp
  also have "[''A@x'', ''b@x''] = filter (\<lambda>r. fst (IsSuppressedForList ''p'' (EnvelopeAddress Some r) ''L'' (block_db, [])) = Inr True)
      [''A@x'', ''b@x'', ''c@x'']"
    using filter_agrees [OF run trim] by simp
  finally have "''A@x'' \<in> set (filter (\<lambda>r. fst (IsSuppressedForList ''p'' (EnvelopeAddress Some r) ''L'' (block_db, [])) = Inr True)
      [''A@x'', ''b@x'', ''c@x''])" .
  then show ?thesis using run by (simp only: set_filter mem_Collect_eq EnvelopeAddress_def option.case)
qed

lemma unblock_exact_witness:
  "\<exists>w'. DeleteSuppressionHandler ''p'' '' B@x'' ''L'' (block_db, []) = (NoContent, w') \<and>
     (\<forall>p \<in> set (su_suppressions (fst w')). block_key p \<noteq> (''p'', bare_address '' B@x'', ''L''))"
proof -
  obtain r w' where run: "DeleteSuppressionHandler ''p'' '' B@x'' ''L'' (block_db, []) = (r, w')" by (rule prod.exhaust)
  have "fst (DeleteSuppressionHandler ''p'' '' B@x'' ''L'' (block_db, [])) = NoContent" by code_simp
  with run have "r = NoContent" by simp
  with unblock_exact [OF run] run show ?thesis by blast
qed

lemma import_all_or_nothing_witness:
  "fst (snd (ImportSuppressions ''p'' 9 [(''3'', \<lparr>ci_email = ''d@x'', ci_kind = [], ci_reason = [], ci_list_id = []\<rparr>),
      (''4'', \<lparr>ci_email = ''e@x'', ci_kind = [], ci_reason = [], ci_list_id = ''K''\<rparr>)] (block_db, []))) = block_db"
proof -
  let ?i = "ImportSuppressions ''p'' 9 [(''3'', \<lparr>ci_email = ''d@x'', ci_kind = [], ci_reason = [], ci_list_id = []\<rparr>),
      (''4'', \<lparr>ci_email = ''e@x'', ci_kind = [], ci_reason = [], ci_list_id = ''K''\<rparr>)] (block_db, [])"
  have "fst ?i = BadRequest ''unsubscribe list K not found in this project'' " by code_simp
  with import_all_or_nothing [OF prod.collapse [of ?i, symmetric]] show ?thesis by auto
qed

lemma report_confined_witness:
  "confined Some block_mail True block_db
     (fst (snd (Record Some (\<lambda>_. Inr (Some block_mail)) open_intake 9 minted block_report (block_db, []))))"
  using report_confined [OF prod.collapse [symmetric], of Some "\<lambda>_. Inr (Some block_mail)" open_intake 9 minted block_report "(block_db, [])"]
  by (simp add: open_intake_def block_mail_def)

lemma report_stops_mail_witness:
  "fst (FilterSuppressedForList Some ''p'' [] [''C@x'']
     (snd (Record Some (\<lambda>_. Inr (Some block_mail)) open_intake 9 minted block_report (block_db, [])))) = Inr ([], [''C@x''])"
proof -
  let ?rec = "\<lparr>rr_address = ''c@x'', rr_type = TypeHard, rr_suppress = True, rr_reason = ''gone''\<rparr>"
  have "inj (\<lambda>k. fst (minted k))" "inj (\<lambda>k. snd (minted k))" by (auto simp: minted_def inj_on_def)
  moreover have "\<forall>k. id_free block_db (minted k)"
    by (auto simp: id_free_def block_db_def block_row_def minted_def)
  moreover have "trim_space (re_email_id block_report) \<noteq> []" by code_simp
  moreover have "?rec \<in> set (take 100 (re_recipients block_report))" by (simp add: block_report_def)
  moreover have "addressedTo Some (e_recipients block_mail) (rr_address ?rec)" "mailboxKey Some ''C@x'' = bare_address (rr_address ?rec)"
    by code_simp+
  moreover have "e_project_id block_mail = ''p''" "length (e_recipients block_mail) = 1" by (simp_all add: block_mail_def)
  ultimately show ?thesis
    using report_stops_mail [of "\<lambda>_. Inr (Some block_mail)" block_report block_mail open_intake minted block_db ?rec Some "''C@x''" "[]" 9]
    by (simp add: open_intake_def)
qed

lemma blocks_walk_complete_witness:
  "length (walk supp_key (blocks_fetch ''p'' \<lparr>sf_kind = [], sf_search = [], sf_email = [], sf_limit = 0, sf_cursor = zero_cursor\<rparr> block_db)
     3 (Some 1) zero_cursor) = 2"
proof -
  let ?f = "\<lparr>sf_kind = [], sf_search = [], sf_email = [], sf_limit = 0, sf_cursor = zero_cursor\<rparr>"
  have "filter (supp_matches ''p'' ?f) (su_suppressions block_db) = su_suppressions block_db"
    by (simp add: block_db_def block_row_def supp_matches_def)
  moreover have "length (su_suppressions block_db) = 2" by (simp add: block_db_def)
  moreover have "\<forall>p \<in> set (su_suppressions block_db). sp_id p \<noteq> [] \<and> sp_created_at p \<noteq> zero_time"
    by (simp add: block_db_def block_row_def zero_time_def)
  ultimately show ?thesis
    using blocks_walk_complete [OF block_db_ok, of "''p''" ?f "Some 1"] by (simp add: numeral_eq_Suc)
qed

section \<open>Addresses longer than a search term\<close>

lemma runes_ascii: "list_all (\<lambda>c. code c < 128) s \<Longrightarrow> runes s = map (\<lambda>c. [c]) s \<and> ValidString s"
proof (induction s)
  case (Cons c s)
  then have "rune_size (c # s) = 1" by (simp add: lead_size_def)
  then show ?case using Cons runes.simps [of "c # s"] ValidString.simps [of "c # s"] by simp
qed simp

lemma Clamp_ascii: "list_all (\<lambda>c. code c < 128) s \<Longrightarrow> Clamp s n = take n s"
proof -
  assume a: "list_all (\<lambda>c. code c < 128) s"
  have "concat (take n (map (\<lambda>c. [c]) s)) = take n s" by (simp add: take_map)
  then show ?thesis using runes_ascii [OF a] by (simp add: Clamp_def storable_def)
qed

lemma trim_space_length: "length (trim_space s) \<le> length s"
  using length_dropWhile_le [of is_space "rev (dropWhile is_space s)"] length_dropWhile_le [of is_space s]
  by (simp add: trim_space_def)

lemma page_member:
  assumes "p \<in> set (map g (page_of key n c (filter q rows)))"
  shows "\<exists>r. q r \<and> p = g r"
proof -
  have "set (page_of key n c (filter q rows)) \<subseteq> set (newest key (filter (after_key key c) (filter q rows)))"
    unfolding page_of_def by (rule set_take_subset)
  then show ?thesis using assms by auto
qed

text \<open>
  The exact look-up of an address longer than a search term asks for another address: the handler
  never answers a block of it, although the send-time filter stops it.
\<close>

lemma long_address_not_found:
  assumes "list_all (\<lambda>c. code c < 128) e" "trim_space e = e" "200 < length e"
    and "fst (SuppressionsHandler projID kind [] e limit_param c w) = Ok (page, next_cursor)" "p \<in> set page"
  shows "sp_email p \<noteq> e"
proof
  assume e: "sp_email p = e"
  have searched: "Search e = take 200 e" using assms(1,2) by (simp add: Search_def MaxSearchTerm_def Clamp_ascii)
  let ?w = "WindowFrom limit_param c"
  let ?f = "\<lparr>sf_kind = kind, sf_search = Search [], sf_email = Search e, sf_limit = Fetch ?w, sf_cursor = wi_cursor ?w\<rparr>"
  obtain rows w1 where rows: "ListSuppressions projID ?f w = (Inr rows, w1)" "list_page supp_key ?w rows = (page, next_cursor)"
    using assms(4) by (auto simp: SuppressionsHandler_def Let_def Answer_def split: if_splits prod.splits sum.splits)
  have "set page \<subseteq> set rows" using rows(2) by (auto simp: list_page_def Cut_def split: if_splits dest: in_set_takeD)
  then have "p \<in> set rows" using assms(5) by blast
  moreover have "rows = map (scanned (su_lists (fst w))) (page_of supp_key (sf_limit ?f) (sf_cursor ?f)
      (filter (supp_matches projID ?f) (su_suppressions (fst w))))"
    using Read_Inr [OF rows(1) [unfolded ListSuppressions_def]] by simp
  ultimately have "p \<in> set (map (scanned (su_lists (fst w))) (page_of supp_key (sf_limit ?f) (sf_cursor ?f)
      (filter (supp_matches projID ?f) (su_suppressions (fst w)))))" by (simp only:)
  from page_member [OF this] obtain q where q: "supp_matches projID ?f q" "p = scanned (su_lists (fst w)) q" by blast
  have "sp_email q = e" using q(2) e by (simp add: scanned_def)
  then have "e = bare_address (take 200 e)" using q(1) assms(3) by (auto simp: supp_matches_def searched)
  then have "length e \<le> 200"
  proof -
    have "length e = length (bare_address (take 200 e))" using \<open>e = bare_address (take 200 e)\<close> by metis
    then show ?thesis using trim_space_length [of "take 200 e"] by (simp add: bare_address_def)
  qed
  then show False using assms(3) by simp
qed

end
