(* ===== verification/Smtp.thy ===== *)
theory Smtp
  imports Servers Address
begin

text \<open>
  Delivering one message over one connection (\<^verbatim>\<open>internal/core/smtpclient\<close>) and the two providers
  behind one interface (\<^verbatim>\<open>internal/core/transport\<close>).  The peer is a script of replies; the standard
  library's \<^verbatim>\<open>net/smtp\<close> turns a reply other than the expected one into an error.  Rendering the
  message (\<open>build\<close>), its DKIM signature (\<open>sign\<close>) and the printing of a reply's code (\<open>show_code\<close>) are
  parameters.
\<close>

section \<open>Messages\<close>

record client_attachment =
  ca_filename :: string
  ca_content :: string
  ca_content_type :: string
  ca_content_id :: string

text \<open>A DKIM signer is its domain, selector and key, a sender's signature what \<^verbatim>\<open>Signing\<close> carries.\<close>

datatype signer = Signer string string string

record signing =
  sg_kind :: string
  sg_private :: string
  sg_public :: string
  sg_autocrypt :: string
  sg_public_key :: "client_attachment option"

record message =
  ms_from :: string
  ms_envelope_from :: string
  ms_to :: "string list"
  ms_header_to :: string
  ms_cc :: string
  ms_reply_to :: string
  ms_subject :: string
  ms_html :: string
  ms_text :: string
  ms_attachments :: "client_attachment list"
  ms_headers :: "string \<rightharpoonup> string"
  ms_list_unsubscribe_url :: string
  ms_list_unsubscribe_mailto :: string
  ms_list_unsubscribe_post :: bool
  ms_email_id :: string
  ms_sign :: "signer option"
  ms_signing :: "signing option"

section \<open>Failures\<close>

record send_error =
  se_stage :: string
  se_recipient :: string
  se_code :: int
  se_msg :: string
  se_err :: error

definition StageRcpt :: string where "StageRcpt = ''RCPT TO''"
definition StageMail :: string where "StageMail = ''MAIL FROM''"
definition StageData :: string where "StageData = ''DATA''"

definition Permanent :: "send_error \<Rightarrow> bool" where
  "Permanent e = (500 \<le> se_code e \<and> se_code e < 600)"

definition RejectedRecipient :: "send_error \<Rightarrow> string" where
  "RejectedRecipient e = (if se_stage e \<noteq> StageRcpt then [] else se_recipient e)"

text \<open>The errors a delivery can end with, one constructor per Go type.\<close>

datatype delivery_error =
    SendError send_error
  | RecipientRefusals "send_error list" bool
  | ConfigError error
  | SesFailure bool bool error
  | Plain error

definition refusals_text :: "send_error list \<Rightarrow> error" where
  "refusals_text fs = join '', '' (map (\<lambda>f. se_recipient f @ '': '' @ se_err f) fs)"

fun error_text :: "(nat \<Rightarrow> string) \<Rightarrow> delivery_error \<Rightarrow> error" where
  "error_text show (SendError e) = se_err e"
| "error_text show (RecipientRefusals fs delivered) =
     (if delivered then ''delivered, but '' @ show (length fs) @ '' recipient(s) were refused''
      else ''every recipient was refused'') @ '': '' @ refusals_text fs"
| "error_text show (ConfigError e) = e"
| "error_text show (SesFailure p f e) = e"
| "error_text show (Plain e) = e"

text \<open>The three interfaces a delivery error is asked through.\<close>

record failure =
  fa_permanent :: bool
  fa_rejected :: string
  fa_text :: error

fun as_failure :: "(nat \<Rightarrow> string) \<Rightarrow> delivery_error \<Rightarrow> failure option" where
  "as_failure show (SendError e) = Some \<lparr>fa_permanent = Permanent e, fa_rejected = RejectedRecipient e, fa_text = se_err e\<rparr>"
| "as_failure show (RecipientRefusals fs delivered) =
     Some \<lparr>fa_permanent = (\<not> delivered), fa_rejected = [], fa_text = error_text show (RecipientRefusals fs delivered)\<rparr>"
| "as_failure show (ConfigError e) = None"
| "as_failure show (SesFailure p f e) = Some \<lparr>fa_permanent = p, fa_rejected = [], fa_text = e\<rparr>"
| "as_failure show (Plain e) = None"

fun as_refusals :: "delivery_error \<Rightarrow> (bool \<times> send_error list) option" where
  "as_refusals (RecipientRefusals fs delivered) = Some (delivered, fs)"
| "as_refusals e = None"

fun server_fault :: "delivery_error \<Rightarrow> bool" where
  "server_fault (ConfigError e) = True"
| "server_fault (SesFailure p f e) = f"
| "server_fault e = False"

section \<open>The dialogue\<close>

datatype reply = Fine | Reply int string | Broken error

record peer =
  pe_connect :: "(bool \<times> error) option"
  pe_auth :: reply
  pe_mail :: "string \<Rightarrow> reply"
  pe_rcpt :: "nat \<Rightarrow> string \<Rightarrow> reply"
  pe_data :: reply
  pe_write :: reply
  pe_close :: reply
  pe_quit :: reply

fun smtpReply :: "reply \<Rightarrow> int \<times> string" where
  "smtpReply (Reply c msg) = (c, msg)"
| "smtpReply r = (0, [])"

fun reply_text :: "(int \<Rightarrow> string) \<Rightarrow> reply \<Rightarrow> error" where
  "reply_text show_code (Reply c msg) = show_code c @ '' '' @ msg"
| "reply_text show_code (Broken e) = e"
| "reply_text show_code Fine = []"

definition wrapSendError :: "(int \<Rightarrow> string) \<Rightarrow> string \<Rightarrow> string \<Rightarrow> string \<Rightarrow> reply \<Rightarrow> send_error" where
  "wrapSendError show_code stage recipient what r =
     (let (c, msg) = smtpReply r in
      \<lparr>se_stage = stage, se_recipient = recipient, se_code = c, se_msg = msg,
       se_err = what @ '': '' @ reply_text show_code r\<rparr>)"

definition authFault :: "reply \<Rightarrow> bool" where
  "authFault r = (case r of Reply c msg \<Rightarrow> c = 535 \<or> c = 534 \<or> c = 538 | _ \<Rightarrow> False)"

definition classifyAuth :: "(int \<Rightarrow> string) \<Rightarrow> reply \<Rightarrow> delivery_error" where
  "classifyAuth show_code r =
     (let e = ''smtp auth failed: '' @ reply_text show_code r in if authFault r then ConfigError e else Plain e)"

text \<open>
  Every recipient is offered; a permanent refusal of one among several is kept, anything else ends
  the attempt (\<open>Inl\<close>).
\<close>

fun rcpt_each ::
    "(int \<Rightarrow> string) \<Rightarrow> parser \<Rightarrow> peer \<Rightarrow> bool \<Rightarrow> nat \<Rightarrow> string list \<Rightarrow> send_error list \<Rightarrow> send_error + send_error list" where
  "rcpt_each show_code parse p single i [] refused = Inr refused"
| "rcpt_each show_code parse p single i (addr # addrs) refused =
     (let rcpt = EnvelopeAddress parse addr; r = pe_rcpt p i rcpt in
      if r = Fine then rcpt_each show_code parse p single (Suc i) addrs refused
      else (let se = wrapSendError show_code StageRcpt rcpt ''smtp rcpt to failed'' r in
            if \<not> Permanent se \<or> single then Inl se
            else rcpt_each show_code parse p single (Suc i) addrs (refused @ [se])))"

definition envelope_from :: "message \<Rightarrow> string" where
  "envelope_from msg = (if ms_envelope_from msg \<noteq> [] then ms_envelope_from msg else ms_from msg)"

text \<open>Build, then sign, and nothing between.\<close>

definition rawMessage ::
    "(message \<Rightarrow> error + string) \<Rightarrow> (signer \<Rightarrow> string \<Rightarrow> error + string) \<Rightarrow> message \<Rightarrow> error + string" where
  "rawMessage build sign msg =
     (case build msg of
        Inl e \<Rightarrow> Inl (''build message: '' @ e)
      | Inr raw \<Rightarrow>
          (case ms_sign msg of
             None \<Rightarrow> Inr raw
           | Some k \<Rightarrow> (case sign k raw of Inl e \<Rightarrow> Inl (''dkim sign: '' @ e) | Inr signed \<Rightarrow> Inr signed)))"

text \<open>The answer and, when the peer took the message, the bytes it holds and for whom.\<close>

definition after_rcpt ::
    "(int \<Rightarrow> string) \<Rightarrow> (message \<Rightarrow> error + string) \<Rightarrow> (signer \<Rightarrow> string \<Rightarrow> error + string) \<Rightarrow> peer \<Rightarrow> message \<Rightarrow>
     send_error list \<Rightarrow> delivery_error option \<times> string option" where
  "after_rcpt show_code build sign p msg refused =
     (case build msg of
        Inl e \<Rightarrow> (Some (SendError \<lparr>se_stage = StageData, se_recipient = [], se_code = 0, se_msg = [],
                                  se_err = ''build message: '' @ e\<rparr>), None)
      | Inr raw0 \<Rightarrow>
          (case (case ms_sign msg of None \<Rightarrow> Inr raw0 | Some k \<Rightarrow> sign k raw0) of
             Inl e \<Rightarrow> (Some (Plain (''signing failed: '' @ e)), None)
           | Inr raw \<Rightarrow>
               if pe_data p \<noteq> Fine then (Some (SendError (wrapSendError show_code StageData [] ''smtp data failed'' (pe_data p))), None)
               else if pe_write p \<noteq> Fine then (Some (Plain (''smtp write failed: '' @ reply_text show_code (pe_write p))), None)
               else if pe_close p \<noteq> Fine then (Some (SendError (wrapSendError show_code StageData [] ''smtp close failed'' (pe_close p))), None)
               else (if refused \<noteq> [] then Some (RecipientRefusals refused True)
                     else if pe_quit p \<noteq> Fine then Some (Plain (reply_text show_code (pe_quit p))) else None, Some raw)))"

definition sendViaClient ::
    "(int \<Rightarrow> string) \<Rightarrow> parser \<Rightarrow> (message \<Rightarrow> error + string) \<Rightarrow> (signer \<Rightarrow> string \<Rightarrow> error + string) \<Rightarrow> peer \<Rightarrow> bool \<Rightarrow>
     message \<Rightarrow> delivery_error option \<times> string option" where
  "sendViaClient show_code parse build sign p auth msg =
     (if auth \<and> pe_auth p \<noteq> Fine then (Some (classifyAuth show_code (pe_auth p)), None)
      else (let envFrom = envelope_from msg; r = pe_mail p (EnvelopeAddress parse envFrom) in
        if r \<noteq> Fine then (Some (SendError (wrapSendError show_code StageMail envFrom ''smtp mail from failed'' r)), None)
        else (case rcpt_each show_code parse p (length (ms_to msg) = 1) 0 (ms_to msg) [] of
                Inl se \<Rightarrow> (Some (SendError se), None)
              | Inr refused \<Rightarrow>
                  if length refused = length (ms_to msg) then (Some (RecipientRefusals refused False), None)
                  else after_rcpt show_code build sign p msg refused)))"

text \<open>A connection that could not be opened; the flag says the certificate did not verify.\<close>

definition classifyTLS :: "bool \<times> error \<Rightarrow> delivery_error" where
  "classifyTLS x = (if fst x then ConfigError (snd x) else Plain (snd x))"

definition SendSmtp ::
    "(int \<Rightarrow> string) \<Rightarrow> parser \<Rightarrow> (message \<Rightarrow> error + string) \<Rightarrow> (signer \<Rightarrow> string \<Rightarrow> error + string) \<Rightarrow> peer \<Rightarrow> spec \<Rightarrow>
     message \<Rightarrow> delivery_error option \<times> string option" where
  "SendSmtp show_code parse build sign p sp msg =
     (case pe_connect p of
        Some x \<Rightarrow> (Some (classifyTLS x), None)
      | None \<Rightarrow> sendViaClient show_code parse build sign p (sp_username sp \<noteq> []) msg)"

section \<open>Amazon SES\<close>

datatype ses_error =
    MessageRejected | MailFromDomainNotVerified | AccountSuspended | SendingPaused | BadRequestException
  | NotFoundException | ApiCode string | Throttled | Unknown

definition refused_credentials :: "string set" where
  "refused_credentials = {''InvalidClientTokenId'', ''SignatureDoesNotMatch'', ''UnrecognizedClientException''}"

definition classifySES :: "ses_error \<times> error \<Rightarrow> delivery_error" where
  "classifySES x =
     (case x of (k, e) \<Rightarrow>
      if k \<in> {MessageRejected, MailFromDomainNotVerified, AccountSuspended, SendingPaused, BadRequestException, NotFoundException}
      then SesFailure True False e
      else (case k of ApiCode c \<Rightarrow> SesFailure False (c \<in> refused_credentials) e | _ \<Rightarrow> SesFailure False False e))"

definition sesMaxRawBytes :: nat where "sesMaxRawBytes = 10 * 1024 * 1024"

definition ErrSESNeedsKey :: error where
  "ErrSESNeedsKey = ''an Amazon SES server needs an access key id and secret - only the shared pool and the platform mail project may send on this machine's own AWS credentials''"

text \<open>
  What opening the provider yields: its configuration set, the static key pair or (\<open>None\<close>) the
  machine's own credentials, whose resolution is the environment's.
\<close>

definition openSES :: "(string \<Rightarrow> error option) \<Rightarrow> spec \<Rightarrow> delivery_error + string \<times> (string \<times> string) option" where
  "openSES default_chain sp =
     (let region = option_at (sp_options sp) OptSESRegion in
      if region = [] then Inl (Plain (''ses: '' @ OptSESRegion @ '' is required''))
      else if sp_username sp \<noteq> []
      then Inr (option_at (sp_options sp) OptSESConfigurationSet, Some (sp_username sp, sp_password sp))
      else if \<not> sp_ambient_credentials sp then Inl (SesFailure False True ErrSESNeedsKey)
      else (case default_chain region of
              Some e \<Rightarrow> Inl (Plain (''ses: no credentials (set an access key on the server, or give this machine a role): '' @ e))
            | None \<Rightarrow> Inr (option_at (sp_options sp) OptSESConfigurationSet, None)))"

definition SendSes ::
    "(string \<Rightarrow> error option) \<Rightarrow> (message \<Rightarrow> error + string) \<Rightarrow> (signer \<Rightarrow> string \<Rightarrow> error + string) \<Rightarrow>
     (string \<Rightarrow> (string \<times> string) option \<Rightarrow> string \<Rightarrow> string list \<Rightarrow> (ses_error \<times> error) option) \<Rightarrow> (nat \<Rightarrow> string) \<Rightarrow> spec \<Rightarrow>
     message \<Rightarrow> delivery_error option \<times> string option" where
  "SendSes default_chain build sign api show sp msg =
     (case openSES default_chain sp of
        Inl e \<Rightarrow> (Some e, None)
      | Inr (confSet, creds) \<Rightarrow>
          (case rawMessage build sign msg of
             Inl e \<Rightarrow> (Some (Plain e), None)
           | Inr raw \<Rightarrow>
               if length raw > sesMaxRawBytes
               then (Some (SesFailure True False (''message is '' @ show (length raw) @ '' bytes, over the '' @
                       show sesMaxRawBytes @ '' byte limit SES accepts'')), None)
               else (case api confSet creds raw (ms_to msg) of
                       Some x \<Rightarrow> (Some (classifySES x), None)
                     | None \<Rightarrow> (None, Some raw))))"

section \<open>Opening a provider\<close>

text \<open>The world outside: the peer met at each position of a walk, and Amazon's API.\<close>

record network =
  nw_show_code :: "int \<Rightarrow> string"
  nw_show :: "nat \<Rightarrow> string"
  nw_peer :: "nat \<Rightarrow> peer"
  nw_default_chain :: "string \<Rightarrow> error option"
  nw_ses :: "nat \<Rightarrow> string \<Rightarrow> (string \<times> string) option \<Rightarrow> string \<Rightarrow> string list \<Rightarrow> (ses_error \<times> error) option"
  nw_build :: "message \<Rightarrow> error + string"
  nw_sign :: "signer \<Rightarrow> string \<Rightarrow> error + string"

definition Deliver :: "network \<Rightarrow> parser \<Rightarrow> nat \<Rightarrow> spec \<Rightarrow> message \<Rightarrow> delivery_error option \<times> string option" where
  "Deliver n parse i sp msg =
     (let id = (if sp_provider sp = [] then ProviderSMTP else sp_provider sp) in
      if id = ProviderSMTP then SendSmtp (nw_show_code n) parse (nw_build n) (nw_sign n) (nw_peer n i) sp msg
      else if id = ProviderSES then SendSes (nw_default_chain n) (nw_build n) (nw_sign n) (nw_ses n i) (nw_show n) sp msg
      else (Some (Plain (''unknown mail provider '' @ [CHR 0x22] @ sp_provider sp @ [CHR 0x22])), None))"

section \<open>What an answer can say\<close>

definition names_recipients :: "parser \<Rightarrow> message \<Rightarrow> delivery_error \<Rightarrow> bool" where
  "names_recipients parse msg err =
     ((\<forall>show f. as_failure show err = Some f \<longrightarrow> fa_rejected f = [] \<or> fa_rejected f \<in> EnvelopeAddress parse ` set (ms_to msg)) \<and>
      (\<forall>acc fs x. as_refusals err = Some (acc, fs) \<longrightarrow> x \<in> set fs \<longrightarrow>
         Permanent x \<and> RejectedRecipient x \<in> EnvelopeAddress parse ` set (ms_to msg)))"

lemma names_simple [simp]:
  "names_recipients parse msg (Plain e)" "names_recipients parse msg (ConfigError e)"
  "names_recipients parse msg (SesFailure a b e)"
  "se_stage x \<noteq> StageRcpt \<Longrightarrow> names_recipients parse msg (SendError x)"
  by (simp_all add: names_recipients_def RejectedRecipient_def)

lemma wrap_fields [simp]:
  "se_stage (wrapSendError show_code stage recipient what r) = stage"
  "se_recipient (wrapSendError show_code stage recipient what r) = recipient"
  "se_code (wrapSendError show_code stage recipient what r) = fst (smtpReply r)"
  by (simp_all add: wrapSendError_def Let_def case_prod_unfold)

lemma rcpt_each_result:
  assumes "rcpt_each show_code parse p single i addrs refused = r" "set addrs \<subseteq> A"
    "\<forall>x \<in> set refused. Permanent x \<and> RejectedRecipient x \<in> EnvelopeAddress parse ` A"
  shows "case r of Inl x \<Rightarrow> RejectedRecipient x \<in> EnvelopeAddress parse ` A
    | Inr out \<Rightarrow> (\<forall>x \<in> set out. Permanent x \<and> RejectedRecipient x \<in> EnvelopeAddress parse ` A) \<and>
        length out \<le> length refused + length addrs"
  using assms
proof (induction addrs arbitrary: i refused)
  case (Cons addr addrs)
  let ?rcpt = "EnvelopeAddress parse addr"
  let ?r = "pe_rcpt p i ?rcpt"
  let ?se = "wrapSendError show_code StageRcpt ?rcpt ''smtp rcpt to failed'' ?r"
  have named: "RejectedRecipient ?se \<in> EnvelopeAddress parse ` A"
    using Cons.prems(2) by (simp add: RejectedRecipient_def)
  show ?case
  proof (cases "?r = Fine")
    case True
    then show ?thesis using Cons.IH [of "Suc i" refused] Cons.prems by (auto simp: Let_def split: sum.splits)
  next
    case False
    show ?thesis
    proof (cases "\<not> Permanent ?se \<or> single")
      case True
      then have "r = Inl ?se" using False Cons.prems(1) by (simp add: Let_def)
      then show ?thesis using named by simp
    next
      case go: False
      then have "rcpt_each show_code parse p single (Suc i) addrs (refused @ [?se]) = r"
        using False Cons.prems(1) by (simp add: Let_def)
      moreover have "\<forall>x \<in> set (refused @ [?se]). Permanent x \<and> RejectedRecipient x \<in> EnvelopeAddress parse ` A"
        using Cons.prems(3) go named by auto
      ultimately show ?thesis using Cons.IH [of "Suc i" "refused @ [?se]"] Cons.prems(2) by (auto split: sum.splits)
    qed
  qed
qed auto

lemma after_rcpt_names:
  assumes "fst (after_rcpt show_code build sign p msg refused) = Some err"
    "\<forall>x \<in> set refused. Permanent x \<and> RejectedRecipient x \<in> EnvelopeAddress parse ` set (ms_to msg)"
  shows "names_recipients parse msg err"
proof -
  have "(\<exists>e. err = Plain e) \<or> (\<exists>x. err = SendError x \<and> se_stage x = StageData) \<or> err = RecipientRefusals refused True"
    using assms(1) by (auto simp: after_rcpt_def split: sum.splits if_splits)
  moreover have "StageData \<noteq> StageRcpt" by (simp add: StageData_def StageRcpt_def)
  moreover have "names_recipients parse msg (RecipientRefusals refused True)"
    using assms(2) by (auto simp: names_recipients_def)
  ultimately show ?thesis by auto
qed

lemma Deliver_names:
  assumes "fst (Deliver n parse i sp msg) = Some err"
  shows "names_recipients parse msg err"
proof -
  have smtp: "names_recipients parse msg err" if "fst (sendViaClient sc parse b s p auth msg) = Some err" for sc b s p auth
  proof -
    let ?r = "rcpt_each sc parse p (length (ms_to msg) = 1) 0 (ms_to msg) []"
    have mail: "StageMail \<noteq> StageRcpt" by (simp add: StageMail_def StageRcpt_def)
    note each = rcpt_each_result [of sc parse p "length (ms_to msg) = 1" 0 "ms_to msg" "[]", OF refl order_refl]
    show ?thesis
    proof (cases ?r)
      case (Inl x)
      then have "names_recipients parse msg (SendError x)" using each by (auto simp: names_recipients_def)
      then show ?thesis using that Inl mail
        by (auto simp: sendViaClient_def Let_def classifyAuth_def split: if_splits)
    next
      case (Inr refused)
      then have named: "\<forall>x \<in> set refused. Permanent x \<and> RejectedRecipient x \<in> EnvelopeAddress parse ` set (ms_to msg)"
        using each by auto
      have "names_recipients parse msg (RecipientRefusals refused False)"
        using named by (auto simp: names_recipients_def)
      then show ?thesis using that Inr mail after_rcpt_names [OF _ named]
        by (auto simp: sendViaClient_def Let_def classifyAuth_def split: if_splits)
    qed
  qed
  have ses: "names_recipients parse msg err" if "fst (SendSes dc b s api sh sp msg) = Some err" for dc b s api sh
    using that by (auto simp: SendSes_def openSES_def Let_def classifySES_def split: sum.splits option.splits if_splits ses_error.splits prod.splits)
  show ?thesis
    using assms smtp ses by (auto simp: Deliver_def Let_def SendSmtp_def classifyTLS_def split: if_splits option.splits)
qed

end
