(* ===== verification/Assignments.thy ===== *)
theory Assignments
  imports EmailStore EmailLog
begin

text \<open>
  The messages handed to relay nodes that fetch their mail
  (\<^verbatim>\<open>internal/domain/relaynode/store.go\<close>): a row of \<^verbatim>\<open>relay_assignments\<close> per message, keyed on the
  message and written only in the name of the node it is assigned to.  The first half says what each
  statement does to the rows, the second runs it.
\<close>

section \<open>The statements on rows\<close>

definition reassigned :: "assignment \<Rightarrow> assignment \<Rightarrow> assignment" where
  "reassigned a b =
     a\<lparr>as_email_id := as_email_id b, as_email_created_at := as_email_created_at b, as_delivered := as_delivered b\<rparr>"

definition assign_rows :: "assignment \<Rightarrow> assignment list \<Rightarrow> assignment list" where
  "assign_rows a as =
     (if list_ex (\<lambda>b. as_email_id b = as_email_id a) as
      then sql_update (\<lambda>b. as_email_id b = as_email_id a) (reassigned a) as
      else as @ [a\<lparr>as_delivered := 0\<rparr>])"

definition held_by :: "string \<Rightarrow> string \<Rightarrow> assignment \<Rightarrow> bool" where
  "held_by nodeID emailID a = (as_node_id a = nodeID \<and> as_email_id a = emailID)"

definition by_created :: "assignment list \<Rightarrow> assignment list" where
  "by_created = sort_key as_created_at"

definition by_expiry :: "assignment list \<Rightarrow> assignment list" where
  "by_expiry = sort_key as_expires_at"

section \<open>Running them\<close>

definition change_assignments :: "(assignment list \<Rightarrow> assignment list) \<Rightarrow> db \<Rightarrow> db \<times> unit" where
  "change_assignments f d = (d\<lparr>db_assignments := f (db_assignments d)\<rparr>, ())"

definition AssignRow :: "assignment \<Rightarrow> db \<Rightarrow> (error + unit) \<times> db" where
  "AssignRow a = Exec (change_assignments (assign_rows a))"

definition ListAssigned :: "string \<Rightarrow> nat \<Rightarrow> string list \<Rightarrow> db \<Rightarrow> (error + assignment list) \<times> db" where
  "ListAssigned nodeID limit holding =
     Query (\<lambda>d. take limit (by_created
       (filter (\<lambda>a. as_node_id a = nodeID \<and> as_email_id a \<notin> set holding) (db_assignments d))))"

definition GetAssignment :: "string \<Rightarrow> string \<Rightarrow> db \<Rightarrow> (error + assignment option) \<times> db" where
  "GetAssignment nodeID emailID = Query (\<lambda>d. find (held_by nodeID emailID) (db_assignments d))"

definition UpdateAssignment ::
    "string \<Rightarrow> string \<Rightarrow> string list \<Rightarrow> int \<Rightarrow> time \<Rightarrow> db \<Rightarrow> (error + unit) \<times> db" where
  "UpdateAssignment nodeID emailID recipients delivered expires =
     Exec (change_assignments (sql_update (held_by nodeID emailID)
       (\<lambda>a. a\<lparr>as_recipients := recipients, as_delivered := delivered, as_expires_at := expires\<rparr>)))"

definition ExtendAssignments :: "string \<Rightarrow> string list \<Rightarrow> time \<Rightarrow> db \<Rightarrow> (error + unit) \<times> db" where
  "ExtendAssignments nodeID emailIDs expires d =
     (if emailIDs = [] then (Inr (), d)
      else Exec (change_assignments (sql_update (\<lambda>a. as_node_id a = nodeID \<and> as_email_id a \<in> set emailIDs)
             (as_expires_at_update (\<lambda>_. expires)))) d)"

definition DeleteAssignment :: "string \<Rightarrow> string \<Rightarrow> db \<Rightarrow> (error + bool) \<times> db" where
  "DeleteAssignment nodeID emailID d =
     rows_affected (Exec (\<lambda>d. (d\<lparr>db_assignments := sql_delete (held_by nodeID emailID) (db_assignments d)\<rparr>,
                               sql_count (held_by nodeID emailID) (db_assignments d))) d)"

definition ExpiredAssignments :: "time \<Rightarrow> nat \<Rightarrow> db \<Rightarrow> (error + assignment list) \<times> db" where
  "ExpiredAssignments now limit =
     Query (\<lambda>d. take limit (by_expiry (filter (\<lambda>a. as_expires_at a \<le> now) (db_assignments d))))"

section \<open>What they leave alone\<close>

text \<open>No statement on assignments touches a message; none makes an assignment but \<open>Assign\<close>.\<close>

definition quiet :: "db \<Rightarrow> db \<Rightarrow> bool" where
  "quiet d d' = (\<exists>as fs. d' = d\<lparr>db_assignments := as, db_faults := fs\<rparr> \<and>
     (\<lambda>a. (as_node_id a, as_email_id a)) ` set as \<subseteq> (\<lambda>a. (as_node_id a, as_email_id a)) ` set (db_assignments d))"

lemma quiet_refl [simp]: "quiet d d"
  unfolding quiet_def by (intro exI [of _ "db_assignments d"] exI [of _ "db_faults d"]) simp

lemma quiet_faults [simp]: "quiet d (d\<lparr>db_faults := fs\<rparr>)"
  unfolding quiet_def by (intro exI [of _ "db_assignments d"] exI [of _ fs]) simp

lemma quiet_pop [simp]: "quiet d (snd (pop_fault d))"
  by (simp add: pop_fault_eq)

lemma quiet_trans: "quiet a b \<Longrightarrow> quiet b c \<Longrightarrow> quiet a c"
  unfolding quiet_def by (elim exE conjE) (rule exI, rule exI, rule conjI, simp, auto)

lemma quiet_emails: "quiet d d' \<Longrightarrow> db_emails d' = db_emails d"
  by (auto simp: quiet_def)

lemma quiet_keys:
  "quiet d d' \<Longrightarrow> (\<lambda>a. (as_node_id a, as_email_id a)) ` set (db_assignments d') \<subseteq>
     (\<lambda>a. (as_node_id a, as_email_id a)) ` set (db_assignments d)"
  by (auto simp: quiet_def)

lemma quiet_exec:
  assumes "Exec st d = (r, d')" and "\<And>d. quiet d (fst (st d))"
  shows "quiet d d'"
  using assms(1)
proof (cases rule: Exec_cases)
  case (ran x)
  then show ?thesis using assms(2) [of "snd (pop_fault d)"] quiet_trans [OF quiet_pop] by (metis fst_conv)
qed (use assms(2) [of "snd (pop_fault d)"] quiet_trans [OF quiet_pop] in auto)

lemma quiet_query: "Query q d = (r, d') \<Longrightarrow> quiet d d'"
  unfolding Query_def by (erule quiet_exec) simp

lemma quiet_change:
  assumes "(\<lambda>a. (as_node_id a, as_email_id a)) ` set as \<subseteq> (\<lambda>a. (as_node_id a, as_email_id a)) ` set (db_assignments d)"
  shows "quiet d (d\<lparr>db_assignments := as\<rparr>)"
  using assms unfolding quiet_def by (intro exI [of _ as] exI [of _ "db_faults d"]) simp

lemma quiet_reads:
  "ListAssigned n l h d = (r1, d') \<Longrightarrow> quiet d d'"
  "GetAssignment n i d = (r2, d') \<Longrightarrow> quiet d d'"
  "ExpiredAssignments now l d = (r3, d') \<Longrightarrow> quiet d d'"
  by (auto simp: ListAssigned_def GetAssignment_def ExpiredAssignments_def intro: quiet_query)

lemma quiet_update_rows:
  assumes "\<And>a. as_node_id (f a) = as_node_id a \<and> as_email_id (f a) = as_email_id a"
  shows "quiet d (fst (change_assignments (sql_update p f) d))"
  unfolding change_assignments_def fst_conv using assms
  by (intro quiet_change) (auto simp: sql_update_def image_iff split: if_splits)

lemma quiet_writes:
  "UpdateAssignment n i rs k t d = (r1, d') \<Longrightarrow> quiet d d'"
  "ExtendAssignments n is t d = (r1, d') \<Longrightarrow> quiet d d'"
  unfolding UpdateAssignment_def ExtendAssignments_def
  by (erule quiet_exec, rule quiet_update_rows, simp)
    (auto split: if_splits elim!: quiet_exec intro: quiet_update_rows)

lemma quiet_drop:
  assumes "DeleteAssignment n i d = (r, d')"
  shows "quiet d d'"
proof -
  obtain r0 where ex: "Exec (\<lambda>d. (d\<lparr>db_assignments := sql_delete (held_by n i) (db_assignments d)\<rparr>,
      sql_count (held_by n i) (db_assignments d))) d = (r0, d')"
    using assms rows_affected_db by (fastforce simp: DeleteAssignment_def)
  have "quiet d (d\<lparr>db_assignments := sql_delete (held_by n i) (db_assignments d)\<rparr>)" for d
    by (rule quiet_change) (auto simp: sql_delete_def)
  then show ?thesis by (intro quiet_exec [OF ex]) simp
qed

lemma quiet_get:
  assumes "GetAny parse i d = (r, d')"
  shows "quiet d d'"
  using assms unfolding GetAny_def lookup_row_def
  by (auto intro: quiet_query quiet_trans split: option.splits prod.splits sum.splits)

lemmas quiet_statements = quiet_reads quiet_writes quiet_drop quiet_get

end
