(* ===== verification/Processor.thy ===== *)
theory Processor
  imports Assignments Worker Routing Suppressions Smtp
begin

text \<open>
  The worker's half of a delivery (\<^verbatim>\<open>internal/domain/email/processor.go\<close>, \<^verbatim>\<open>signing.go\<close>): the sender
  re-checked, the candidates walked with everything that belongs to one server set per server, the
  outcome classified, bounces and blocks recorded.  Parameters are the connection to a provider
  (\<open>dial\<close>, told the position in the walk), rendering and cryptography, attachment loading and the
  identity presented to a relay node.  Deliveries and notices are kept as traces of the
  state; \<open>pr_pull\<close> is how long an assignment to a pull node stands, if there are such nodes.
\<close>

section \<open>State\<close>

record sender_row =
  sn_id :: string
  sn_project_id :: string
  sn_email :: string
  sn_name :: string

record signing_key =
  sk_sender_id :: string
  sk_project_id :: string
  sk_kind :: string
  sk_private :: string
  sk_public :: string
  sk_fingerprint :: string
  sk_sign :: bool
  sk_attach_key :: bool

definition SigningPGP :: string where "SigningPGP = ''pgp''"
definition SigningSMIME :: string where "SigningSMIME = ''smime''"

record delivery =
  dl_index :: nat
  dl_server_id :: string
  dl_spec :: spec
  dl_message :: message

record proc_db =
  pd_smtp :: smtp_db
  pd_sup :: sup_db
  pd_senders :: "sender_row list"
  pd_keys :: "signing_key list"
  pd_deliveries :: "delivery list"
  pd_assignments :: "assignment list"
  pd_notices :: "(string \<times> string) list"

text \<open>The bounce address of each project.\<close>

definition pd_projects :: "proc_db \<Rightarrow> (string \<times> string) list" where
  "pd_projects s = map (\<lambda>r. (pj_id r, pj_bounce_address r)) (dd_projects (sd_domains (pd_smtp s)))"

type_synonym pworld = "proc_db world"

definition in_smtp :: "(sworld \<Rightarrow> (smtp_db, 'a) answer) \<Rightarrow> pworld \<Rightarrow> (proc_db, 'a) answer" where
  "in_smtp = Zoom pd_smtp (\<lambda>t s. s\<lparr>pd_smtp := t\<rparr>)"

definition in_sup :: "(su_world \<Rightarrow> (sup_db, 'a) answer) \<Rightarrow> pworld \<Rightarrow> (proc_db, 'a) answer" where
  "in_sup = Zoom pd_sup (\<lambda>t s. s\<lparr>pd_sup := t\<rparr>)"

text \<open>An event outside the database cannot fail as a statement does.\<close>

definition event :: "(proc_db \<Rightarrow> proc_db) \<Rightarrow> pworld \<Rightarrow> pworld" where
  "event f w = (f (fst w), snd w)"

section \<open>Configuration\<close>

record processor =
  pr_auto_suppress :: bool
  pr_bounce_address :: string
  pr_allow_private_smtp :: bool
  pr_conversation_timeout :: time
  pr_platform_project :: "string option"
  pr_relay_client :: "(string \<Rightarrow> string \<Rightarrow> error + string) option"
  pr_pull :: "time option"
  pr_notify :: bool
  pr_dial :: "nat \<Rightarrow> spec \<Rightarrow> message \<Rightarrow> delivery_error option"
  pr_parse :: parser
  pr_build :: "message \<Rightarrow> error + string"
  pr_sign :: "signer \<Rightarrow> string \<Rightarrow> error + string"
  pr_load :: "string \<Rightarrow> attachment \<Rightarrow> error + string"
  pr_html_to_text :: "string \<Rightarrow> string"
  pr_signer :: "string \<Rightarrow> string \<Rightarrow> string \<Rightarrow> error + signer"
  pr_mailsign :: "signing_key \<Rightarrow> error + unit"
  pr_autocrypt :: "string \<Rightarrow> error + string"
  pr_encode :: "string \<Rightarrow> string"
  pr_show :: "nat \<Rightarrow> string"

section \<open>The message\<close>

definition hasBytesElsewhere :: "attachment \<Rightarrow> bool" where
  "hasBytesElsewhere a =
     (at_content a = [] \<and> (at_storage_key a \<noteq> [] \<or> at_template_attachment_id a \<noteq> [] \<or> at_template_asset_id a \<noteq> []))"

fun rehydrate :: "processor \<Rightarrow> string \<Rightarrow> attachment list \<Rightarrow> error + attachment list" where
  "rehydrate p projID [] = Inr []"
| "rehydrate p projID (a # as) =
     (if \<not> hasBytesElsewhere a
      then (case rehydrate p projID as of Inl e \<Rightarrow> Inl e | Inr out \<Rightarrow> Inr (a # out))
      else (case pr_load p projID a of
              Inl e \<Rightarrow> Inl (''load attachment '' @ [CHR 0x22] @ at_filename a @ [CHR 0x22] @ '': '' @ e)
            | Inr content \<Rightarrow>
                (case rehydrate p projID as of Inl e \<Rightarrow> Inl e | Inr out \<Rightarrow> Inr (a\<lparr>at_content := content\<rparr> # out))))"

definition toClientAttachments :: "attachment list \<Rightarrow> client_attachment list" where
  "toClientAttachments = map (\<lambda>a.
     \<lparr>ca_filename = at_filename a, ca_content = at_content a, ca_content_type = at_content_type a,
      ca_content_id = at_content_id a\<rparr>)"

definition newMessage :: "processor \<Rightarrow> email \<Rightarrow> attachment list \<Rightarrow> message" where
  "newMessage p e attachments =
     (let text = (if e_text_body e = [] \<and> e_html_body e \<noteq> [] then pr_html_to_text p (e_html_body e) else e_text_body e);
          headerTo = header_at (e_headers e) HeaderDisplayTo;
          cc = header_at (e_headers e) HeaderDisplayCc;
          replyTo = header_at (e_headers e) HeaderReplyTo;
          headers = (if headerTo \<noteq> [] \<or> cc \<noteq> [] \<or> replyTo \<noteq> []
                     then (e_headers e)(HeaderDisplayTo := None, HeaderDisplayCc := None, HeaderReplyTo := None)
                     else e_headers e)
      in \<lparr>ms_from = e_sender e, ms_envelope_from = [], ms_to = e_recipients e, ms_header_to = headerTo, ms_cc = cc,
          ms_reply_to = replyTo, ms_subject = e_subject e, ms_html = e_html_body e, ms_text = text,
          ms_attachments = toClientAttachments attachments, ms_headers = headers,
          ms_list_unsubscribe_url = e_list_unsubscribe_url e, ms_list_unsubscribe_mailto = e_list_unsubscribe_mailto e,
          ms_list_unsubscribe_post = e_list_unsubscribe_post e, ms_email_id = e_id e, ms_sign = None, ms_signing = None\<rparr>)"

section \<open>Signatures\<close>

definition GetSenderByEmail :: "string \<Rightarrow> string \<Rightarrow> pworld \<Rightarrow> (proc_db, (sender_row \<times> signing_key option) option) answer" where
  "GetSenderByEmail projID addr =
     Read (\<lambda>s. map_option (\<lambda>r. (r, find (\<lambda>k. sk_sender_id k = sn_id r) (pd_keys s)))
       (find (\<lambda>r. sn_project_id r = projID \<and> sn_email r = to_lower addr) (pd_senders s)))"

definition GetSigning :: "string \<Rightarrow> string \<Rightarrow> pworld \<Rightarrow> (proc_db, signing_key option) answer" where
  "GetSigning projID senderID =
     Read (\<lambda>s. find (\<lambda>k. sk_project_id k = projID \<and> sk_sender_id k = senderID) (pd_keys s))"

definition signs :: "(sender_row \<times> signing_key option) option \<Rightarrow> bool" where
  "signs reg = (case reg of Some (_, Some k) \<Rightarrow> sk_sign k | _ \<Rightarrow> False)"

definition signingFor :: "(sender_row \<times> signing_key option) option \<Rightarrow> bool \<Rightarrow> string" where
  "signingFor reg disable = (case reg of Some (_, Some k) \<Rightarrow> if signs reg \<and> \<not> disable then sk_kind k else [] | _ \<Rightarrow> [])"

definition publicKeyFilename :: "string \<Rightarrow> string" where
  "publicKeyFilename fingerprint =
     (let i = (if length fingerprint > 16 then drop (length fingerprint - 16) fingerprint else fingerprint) in
      ''OpenPGP_0x'' @ i @ ''.asc'')"

definition signing_of :: "processor \<Rightarrow> signing_key \<Rightarrow> error + signing" where
  "signing_of p k =
     (case pr_mailsign p k of
        Inl e \<Rightarrow> Inl e
      | Inr _ \<Rightarrow>
          (let plain = \<lparr>sg_kind = sk_kind k, sg_private = sk_private k, sg_public = sk_public k, sg_autocrypt = [],
                        sg_public_key = None\<rparr> in
           if sk_kind k = SigningPGP \<and> sk_attach_key k
           then (case pr_autocrypt p (sk_public k) of
                   Inl e \<Rightarrow> Inl e
                 | Inr keydata \<Rightarrow> Inr (plain\<lparr>sg_autocrypt := keydata,
                     sg_public_key := Some \<lparr>ca_filename = publicKeyFilename (sk_fingerprint k),
                       ca_content = pr_encode p (sk_public k), ca_content_type = ''application/pgp-keys'',
                       ca_content_id = []\<rparr>\<rparr>))
           else Inr plain))"

definition signAs :: "processor \<Rightarrow> string \<Rightarrow> string \<Rightarrow> message \<Rightarrow> pworld \<Rightarrow> (proc_db, message) answer" where
  "signAs p projID from msg w =
     (let addr = to_lower (EnvelopeAddress (pr_parse p) from) in
      andThen (GetSenderByEmail projID addr w) (\<lambda>reg w.
        case reg of
          None \<Rightarrow> Return msg w
        | Some (r, None) \<Rightarrow> Return msg w
        | Some (r, Some _) \<Rightarrow>
            andThen (GetSigning projID (sn_id r) w) (\<lambda>key w.
              case key of
                None \<Rightarrow> Return msg w
              | Some k \<Rightarrow> (case signing_of p k of Inl e \<Rightarrow> (Inl e, w) | Inr g \<Rightarrow> Return (msg\<lparr>ms_signing := Some g\<rparr>) w))))"

definition signerFor :: "processor \<Rightarrow> email \<Rightarrow> pworld \<Rightarrow> (proc_db, signer option) answer" where
  "signerFor p e w =
     (let host = senderDomain (pr_parse p) (e_sender e) in
      if host = [] then Return None w
      else andThen (in_smtp (covering_for host (e_project_id e)) w) (\<lambda>d w.
        case d of
          None \<Rightarrow> Return None w
        | Some d \<Rightarrow>
            if \<not> CanSign d then Return None w
            else (case pr_signer p (dm_domain d) (dm_dkim_selector d) (dm_dkim_private_key d) of
                    Inl e \<Rightarrow> (Inl e, w)
                  | Inr k \<Rightarrow> Return (Some k) w)))"

section \<open>The return path\<close>

definition orSender :: "parser \<Rightarrow> string \<Rightarrow> email \<Rightarrow> string" where
  "orSender parse configured e = (if configured \<noteq> [] then configured else EnvelopeAddress parse (e_sender e))"

text \<open>The project's bounce address once read, \<open>None\<close> before; a failed read leaves it empty.\<close>

type_synonym project_bounce = "string option"

definition read_bounce :: "string \<Rightarrow> project_bounce \<Rightarrow> pworld \<Rightarrow> string \<times> pworld" where
  "read_bounce projID bounce w =
     (case bounce of
        Some addr \<Rightarrow> (addr, w)
      | None \<Rightarrow> (case Read (\<lambda>s. map_of (pd_projects s) projID) w of
                  (Inr (Some addr), w) \<Rightarrow> (addr, w)
                | (_, w) \<Rightarrow> ([], w)))"

definition returnPathFor ::
    "processor \<Rightarrow> email \<Rightarrow> server \<Rightarrow> project_bounce \<Rightarrow> pworld \<Rightarrow> (string \<times> project_bounce) \<times> pworld" where
  "returnPathFor p e srv bounce w =
     (if srv_project_id srv = [] then ((orSender (pr_parse p) (pr_bounce_address p) e, bounce), w)
      else (case read_bounce (e_project_id e) bounce w of
              (addr, w) \<Rightarrow> ((orSender (pr_parse p) addr e, Some addr), w)))"

section \<open>What a failure leaves behind\<close>

definition recordRejection :: "processor \<Rightarrow> time \<Rightarrow> string \<times> string \<Rightarrow> email \<Rightarrow> failure \<Rightarrow> pworld \<Rightarrow> pworld" where
  "recordRejection p now ids e f w =
     (if fa_rejected f = [] then w
      else (let w1 = snd (in_sup (PutBounce (fst ids) now (bounce_for (e_project_id e) (e_id e) (fa_rejected f) TypeHard (fa_text f))) w)
            in if \<not> pr_auto_suppress p then w1
               else snd (in_sup (UpsertSuppression (snd ids) now
                           (block_for (e_project_id e) (fa_rejected f) KindBounce (fa_text f))) w1)))"

fun recordRefusals ::
    "processor \<Rightarrow> time \<Rightarrow> (nat \<Rightarrow> string \<times> string) \<Rightarrow> nat \<Rightarrow> email \<Rightarrow> send_error list \<Rightarrow> pworld \<Rightarrow> string list \<times> pworld" where
  "recordRefusals p now ids i e [] w = ([], w)"
| "recordRefusals p now ids i e (x # xs) w =
     (case as_failure (pr_show p) (SendError x) of
        None \<Rightarrow> recordRefusals p now ids (Suc i) e xs w
      | Some f \<Rightarrow>
          if fa_rejected f = [] then recordRefusals p now ids (Suc i) e xs w
          else (case recordRefusals p now ids (Suc i) e xs (recordRejection p now (ids i) e f w) of
                  (refused, w) \<Rightarrow> (fa_rejected f # refused, w)))"

definition takeOutOfRotation :: "processor \<Rightarrow> time \<Rightarrow> server \<Rightarrow> delivery_error \<Rightarrow> pworld \<Rightarrow> pworld" where
  "takeOutOfRotation p now srv cause w =
     (if srv_project_id srv = [] \<or> IsNode srv then w
      else (case in_smtp (MarkInvalid now (srv_project_id srv) (srv_id srv) (RemoteText (error_text (pr_show p) cause))) w of
              (Inl _, w) \<Rightarrow> w
            | (Inr moved, w) \<Rightarrow>
                if \<not> moved \<or> \<not> pr_notify p then w
                else event (\<lambda>s. s\<lparr>pd_notices := pd_notices s @ [(srv_project_id srv, srv_id srv)]\<rparr>) w))"

section \<open>The walk\<close>

definition nodeTLS :: "processor \<Rightarrow> server \<Rightarrow> error + string option" where
  "nodeTLS p srv =
     (if \<not> IsNode srv then Inr None
      else (case pr_relay_client p of
              None \<Rightarrow> Inl (''server '' @ srv_name srv @ '' is a relay node but no client identity is configured'')
            | Some tls \<Rightarrow> (case tls (srv_node_id srv) (srv_host srv) of Inl e \<Rightarrow> Inl e | Inr t \<Rightarrow> Inr (Some t))))"

definition spec_for :: "processor \<Rightarrow> string option \<Rightarrow> server \<Rightarrow> spec" where
  "spec_for p tls srv =
     (let sp = Spec tls srv;
          sp = (if pr_allow_private_smtp p then sp\<lparr>sp_guard_private := False\<rparr> else sp);
          sp = (if srv_project_id srv \<noteq> [] then sp\<lparr>sp_conversation_timeout := pr_conversation_timeout p\<rparr> else sp)
      in (if srv_project_id srv \<noteq> [] \<and> pr_platform_project p = Some (srv_project_id srv)
          then sp\<lparr>sp_ambient_credentials := True\<rparr> else sp))"

definition ModePull :: string where "ModePull = ''pull''"

definition Pulls :: "node_row \<Rightarrow> bool" where "Pulls n = (nd_mode n = ModePull)"

definition Target :: "server \<Rightarrow> pworld \<Rightarrow> (proc_db, string \<times> bool) answer" where
  "Target srv w =
     andThen (Read (\<lambda>s. node_of (pd_smtp s) (srv_id srv)) w) (\<lambda>n w.
       case n of None \<Rightarrow> Return ([], False) w | Some n \<Rightarrow> Return (nd_id n, Pulls n) w)"

definition assignment_for :: "time \<Rightarrow> time \<Rightarrow> email \<Rightarrow> string \<Rightarrow> string \<Rightarrow> string \<Rightarrow> string \<Rightarrow> assignment" where
  "assignment_for now ttl e nodeID serverID envelopeFrom raw =
     \<lparr>as_email_id = e_id e, as_node_id = nodeID, as_server_id = serverID, as_email_created_at = e_created_at e,
      as_envelope_from = envelopeFrom, as_recipients = e_recipients e, as_raw = raw, as_delivered = 0,
      as_created_at = now, as_expires_at = now + ttl\<rparr>"

definition Assign :: "time \<Rightarrow> time \<Rightarrow> email \<Rightarrow> string \<Rightarrow> string \<Rightarrow> string \<Rightarrow> string \<Rightarrow> pworld \<Rightarrow> (proc_db, unit) answer" where
  "Assign now ttl e nodeID serverID envelopeFrom raw =
     Run (\<lambda>s. (s\<lparr>pd_assignments :=
       assign_rows (assignment_for now ttl e nodeID serverID envelopeFrom raw) (pd_assignments s)\<rparr>, ()))"

text \<open>One candidate: the outcome that ends the walk, or the error it goes on with.\<close>

datatype step = Ends outcome | GoesOn delivery_error

definition dial_candidate ::
    "processor \<Rightarrow> time \<Rightarrow> (nat \<Rightarrow> string \<times> string) \<Rightarrow> email \<Rightarrow> nat \<Rightarrow> server \<Rightarrow> message \<Rightarrow> pworld \<Rightarrow> step \<times> pworld" where
  "dial_candidate p now ids e i srv msg w =
     (case nodeTLS p srv of
        Inl err \<Rightarrow> (GoesOn (Plain err), w)
      | Inr tls \<Rightarrow>
          (let sp = spec_for p tls srv;
               w = event (\<lambda>s. s\<lparr>pd_deliveries := pd_deliveries s @ [\<lparr>dl_index = i, dl_server_id = srv_id srv, dl_spec = sp, dl_message = msg\<rparr>]\<rparr>) w
           in case pr_dial p i sp msg of
                None \<Rightarrow> (Ends (DoneVia (srv_id srv)), w)
              | Some err \<Rightarrow>
                  (case as_refusals err of
                     Some (accepted, fs) \<Rightarrow>
                       (case recordRefusals p now ids 0 e fs w of
                          (refused, w) \<Rightarrow>
                            (Ends (if accepted then DoneRefusing (srv_id srv) (error_text (pr_show p) err) refused
                                   else Fail (error_text (pr_show p) err)), w))
                   | None \<Rightarrow>
                       if server_fault err then (GoesOn err, takeOutOfRotation p now srv err w)
                       else (case as_failure (pr_show p) err of
                               Some f \<Rightarrow> if fa_permanent f
                                         then (Ends (Fail (error_text (pr_show p) err)), recordRejection p now (ids 0) e f w)
                                         else (GoesOn err, w)
                             | None \<Rightarrow> (GoesOn err, w)))))"

definition try_candidate ::
    "processor \<Rightarrow> time \<Rightarrow> (nat \<Rightarrow> string \<times> string) \<Rightarrow> email \<Rightarrow> nat \<Rightarrow> server \<Rightarrow> message \<Rightarrow> pworld \<Rightarrow> step \<times> pworld" where
  "try_candidate p now ids e i srv msg w =
     (case pr_pull p of
        Some ttl \<Rightarrow>
          if \<not> IsNode srv then dial_candidate p now ids e i srv msg w
          else (case Target srv w of
                  (Inl perr, w) \<Rightarrow> (GoesOn (Plain perr), w)
                | (Inr (nodeID, pulls), w) \<Rightarrow>
                    if \<not> pulls then dial_candidate p now ids e i srv msg w
                    else (case rawMessage (pr_build p) (pr_sign p) msg of
                            Inl rerr \<Rightarrow> (Ends (Retry rerr), w)
                          | Inr raw \<Rightarrow>
                              (case Assign now ttl e nodeID (srv_id srv) (ms_envelope_from msg) raw w of
                                 (Inl aerr, w) \<Rightarrow> (GoesOn (Plain aerr), w)
                               | (Inr _, w) \<Rightarrow> (Ends Handed, w))))
      | None \<Rightarrow> dial_candidate p now ids e i srv msg w)"

definition prepare :: "message \<Rightarrow> signer option \<Rightarrow> server \<Rightarrow> string \<Rightarrow> message" where
  "prepare msg k srv addr =
     msg\<lparr>ms_sign := (if \<not> SkipsDKIM srv then k else None), ms_envelope_from := addr\<rparr>"

fun failover ::
    "processor \<Rightarrow> time \<Rightarrow> (nat \<Rightarrow> string \<times> string) \<Rightarrow> email \<Rightarrow> message \<Rightarrow> signer option \<Rightarrow> nat \<Rightarrow> server list \<Rightarrow>
     error \<Rightarrow> project_bounce \<Rightarrow> pworld \<Rightarrow> outcome \<times> pworld" where
  "failover p now ids e msg k i [] sendErr bounce w = (Retry sendErr, w)"
| "failover p now ids e msg k i (srv # rest) sendErr bounce w =
     (case returnPathFor p e srv bounce w of
        ((addr, bounce), w) \<Rightarrow>
          (case try_candidate p now ids e i srv (prepare msg k srv addr) w of
             (Ends out, w) \<Rightarrow> (out, w)
           | (GoesOn err, w) \<Rightarrow> failover p now ids e msg k (Suc i) rest (error_text (pr_show p) err) bounce w))"

definition pickServers :: "processor \<Rightarrow> time \<Rightarrow> email \<Rightarrow> pworld \<Rightarrow> (proc_db, server list) answer" where
  "pickServers p now e =
     in_smtp (ResolveCandidates now (pr_parse p) (e_project_id e) (senderAddress (pr_parse p) (e_sender e))
       \<lparr>rt_server_id = e_smtp_server_id e, rt_group_id = e_smtp_group_id e\<rparr>)"

fun refusal_text :: "refusal \<Rightarrow> error" where
  "refusal_text (RequestError e) = e"
| "refusal_text (StoreError e) = e"

definition check_sender :: "processor \<Rightarrow> email \<Rightarrow> pworld \<Rightarrow> refusal option \<times> pworld" where
  "check_sender p e w =
     (case RequireVerifiedSender (pr_parse p) (e_project_id e) (senderAddress (pr_parse p) (e_sender e)) (pd_smtp (fst w), snd w) of
        (r, (t, fs)) \<Rightarrow> (r, ((fst w)\<lparr>pd_smtp := t\<rparr>, fs)))"

definition Process :: "processor \<Rightarrow> time \<Rightarrow> (nat \<Rightarrow> string \<times> string) \<Rightarrow> email \<Rightarrow> pworld \<Rightarrow> outcome \<times> pworld" where
  "Process p now ids e w =
     (case check_sender p e w of
        (Some r, w) \<Rightarrow> (Fail (refusal_text r), w)
      | (None, w) \<Rightarrow>
        (case pickServers p now e w of
           (Inl err, w) \<Rightarrow> (Retry (''pick smtp server: '' @ err), w)
         | (Inr [], w) \<Rightarrow> (Fail ''no enabled smtp server accepts this sender'', w)
         | (Inr (c # cs), w) \<Rightarrow>
           (case rehydrate p (e_project_id e) (e_attachments e) of
              Inl err \<Rightarrow> (Retry err, w)
            | Inr attachments \<Rightarrow>
              (case (if e_signing e \<noteq> [] then signAs p (e_project_id e) (e_sender e) (newMessage p e attachments) w
                     else Return (newMessage p e attachments) w) of
                 (Inl err, w) \<Rightarrow> (Retry (''sender signature: '' @ err), w)
               | (Inr msg, w) \<Rightarrow>
                 (case (if list_ex (\<lambda>s. \<not> SkipsDKIM s) (c # cs) then signerFor p e w else Return None w) of
                    (Inl err, w) \<Rightarrow> (Retry (''dkim signer: '' @ err), w)
                  | (Inr k, w) \<Rightarrow> failover p now ids e msg k 0 (c # cs) [] None w)))))"

end
