(* ===== verification/Failover.thy ===== *)
theory Failover
  imports Processor Blocklist
begin

text \<open>
  What a delivery attempt guarantees: which server is offered the message, with which return path,
  signature, guard and credentials, when the walk stops, and what a refusal leaves behind.
\<close>

section \<open>What the steps leave alone\<close>

text \<open>The parts a bounce or a block cannot reach, and those a server's status cannot.\<close>

definition only_sup :: "proc_db \<Rightarrow> proc_db \<Rightarrow> bool" where
  "only_sup s s' =
     (pd_smtp s' = pd_smtp s \<and> pd_senders s' = pd_senders s \<and> pd_keys s' = pd_keys s \<and>
      pd_deliveries s' = pd_deliveries s \<and> pd_assignments s' = pd_assignments s \<and> pd_notices s' = pd_notices s)"

definition only_smtp :: "proc_db \<Rightarrow> proc_db \<Rightarrow> bool" where
  "only_smtp s s' =
     (pd_sup s' = pd_sup s \<and> pd_senders s' = pd_senders s \<and> pd_keys s' = pd_keys s \<and>
      pd_deliveries s' = pd_deliveries s \<and> pd_assignments s' = pd_assignments s)"

lemma in_sup_state: "only_sup (fst w) (fst (snd (in_sup m w)))"
  by (auto simp: only_sup_def in_sup_def Zoom_def split: prod.split)

lemma in_smtp_state: "only_smtp (fst w) (fst (snd (in_smtp m w)))"
  by (auto simp: only_smtp_def in_smtp_def Zoom_def split: prod.split)

lemma only_sup_trans: "only_sup s t \<Longrightarrow> only_sup t u \<Longrightarrow> only_sup s u"
  by (simp add: only_sup_def)

lemma only_refl [simp]: "only_sup s s" "only_smtp s s"
  by (simp_all add: only_sup_def only_smtp_def)

lemma recordRejection_state: "only_sup (fst w) (fst (recordRejection p now ids e f w))"
  unfolding recordRejection_def Let_def
  by (auto intro: in_sup_state only_sup_trans [OF in_sup_state in_sup_state])

lemma recordRefusals_state: "only_sup (fst w) (fst (snd (recordRefusals p now ids i e fs w)))"
proof (induction fs arbitrary: i w)
  case (Cons x fs)
  have "only_sup (fst w) (fst (snd (recordRefusals p now ids (Suc i) e fs (recordRejection p now (ids i) e f w))))" for f
    using recordRejection_state Cons.IH by (rule only_sup_trans)
  then show ?case using Cons.IH [of w "Suc i"] by (simp add: case_prod_unfold)
qed simp

lemma takeOutOfRotation_state: "only_smtp (fst w) (fst (takeOutOfRotation p now srv err w))"
proof -
  let ?m = "in_smtp (MarkInvalid now (srv_project_id srv) (srv_id srv) (RemoteText (error_text (pr_show p) err)))"
  obtain r w1 where m: "?m w = (r, w1)" by (rule prod.exhaust)
  have "only_smtp (fst w) (fst w1)" using in_smtp_state [of w] m by (metis snd_conv)
  then show ?thesis
    using m by (cases r) (auto simp: takeOutOfRotation_def event_def only_smtp_def)
qed

lemma only_sup_projects: "only_sup s s' \<Longrightarrow> pd_projects s' = pd_projects s"
  by (simp add: only_sup_def pd_projects_def)

lemma takeOutOfRotation_projects: "pd_projects (fst (takeOutOfRotation p now srv err w)) = pd_projects (fst w)"
proof -
  let ?m = "MarkInvalid now (srv_project_id srv) (srv_id srv) (RemoteText (error_text (pr_show p) err))"
  obtain r t fs where m: "?m (pd_smtp (fst w), snd w) = (r, (t, fs))" by (metis prod.exhaust)
  have "sd_domains t = sd_domains (pd_smtp (fst w))"
    using Run_state [OF m [unfolded MarkInvalid_def]] by (auto simp: Let_def)
  then show ?thesis
    using m by (cases r) (auto simp: takeOutOfRotation_def event_def pd_projects_def in_smtp_def Zoom_def)
qed

lemma returnPathFor_run:
  assumes "returnPathFor p e srv bounce w = ((addr, bounce'), w')"
    and "\<forall>a. bounce = Some a \<longrightarrow> a = [] \<or> map_of (pd_projects (fst w)) (e_project_id e) = Some a"
  shows "fst w' = fst w \<and>
    (\<forall>a. bounce' = Some a \<longrightarrow> a = [] \<or> map_of (pd_projects (fst w)) (e_project_id e) = Some a) \<and>
    (if srv_project_id srv = [] then addr = orSender (pr_parse p) (pr_bounce_address p) e
     else \<exists>a. addr = orSender (pr_parse p) a e \<and> (a = [] \<or> map_of (pd_projects (fst w)) (e_project_id e) = Some a))"
proof -
  obtain r w1 where read: "Read (\<lambda>s. map_of (pd_projects s) (e_project_id e)) w = (r, w1)" by (rule prod.exhaust)
  have same: "fst w1 = fst w" using Read_state [OF read] .
  have found: "r = Inr x \<Longrightarrow> x = map_of (pd_projects (fst w)) (e_project_id e)" for x
    using Read_Inr [of "\<lambda>s. map_of (pd_projects s) (e_project_id e)" w x w1] read by simp
  show ?thesis
    using assms same found read
    by (auto simp: returnPathFor_def read_bounce_def split: if_splits option.splits sum.splits)
qed

section \<open>One candidate\<close>

definition answer_of :: "processor \<Rightarrow> delivery \<Rightarrow> delivery_error option" where
  "answer_of p d = pr_dial p (dl_index d) (dl_spec d) (dl_message d)"

definition taken :: "delivery_error option \<Rightarrow> bool" where
  "taken a = (a = None \<or> (\<exists>fs. a = Some (RecipientRefusals fs True)))"

definition permanent :: "processor \<Rightarrow> delivery_error \<Rightarrow> bool" where
  "permanent p err = (\<exists>f. as_failure (pr_show p) err = Some f \<and> fa_permanent f)"

text \<open>The answers that are about the message, and end the walk.\<close>

definition final :: "processor \<Rightarrow> delivery_error option \<Rightarrow> bool" where
  "final p a = (taken a \<or> (\<exists>err. a = Some err \<and> (as_refusals err \<noteq> None \<or> \<not> server_fault err \<and> permanent p err)))"

definition verdict :: "processor \<Rightarrow> delivery \<Rightarrow> step \<Rightarrow> bool" where
  "verdict p d st =
     (case st of
        GoesOn err \<Rightarrow> \<not> final p (answer_of p d) \<and> answer_of p d = Some err
      | Ends out \<Rightarrow> final p (answer_of p d) \<and> o_kind out = (if taken (answer_of p d) then KindDone else KindFail) \<and>
                 (taken (answer_of p d) \<longrightarrow> o_server_id out = dl_server_id d))"

lemma as_refusals_Some: "as_refusals err = Some (acc, fs) \<longleftrightarrow> err = RecipientRefusals fs acc"
  by (cases err) auto

lemma dial_candidate_run:
  assumes "dial_candidate p now ids e i srv msg w = (st, w')"
  shows "pd_projects (fst w') = pd_projects (fst w) \<and>
    ((pd_deliveries (fst w') = pd_deliveries (fst w) \<and> isl (nodeTLS p srv) \<and> (\<exists>err. st = GoesOn err)) \<or>
     (\<exists>tls d. nodeTLS p srv = Inr tls \<and>
        d = \<lparr>dl_index = i, dl_server_id = srv_id srv, dl_spec = spec_for p tls srv, dl_message = msg\<rparr> \<and>
        pd_deliveries (fst w') = pd_deliveries (fst w) @ [d] \<and> verdict p d st))"
proof (cases "nodeTLS p srv")
  case (Inl err)
  then show ?thesis using assms by (auto simp: dial_candidate_def)
next
  case (Inr tls)
  let ?sp = "spec_for p tls srv"
  let ?d = "\<lparr>dl_index = i, dl_server_id = srv_id srv, dl_spec = ?sp, dl_message = msg\<rparr>"
  let ?w = "event (\<lambda>s. s\<lparr>pd_deliveries := pd_deliveries s @ [?d]\<rparr>) w"
  have w1: "pd_deliveries (fst ?w) = pd_deliveries (fst w) @ [?d]" "pd_projects (fst ?w) = pd_projects (fst w)"
    by (simp_all add: event_def pd_projects_def)
  have a: "answer_of p ?d = pr_dial p i ?sp msg" by (simp add: answer_of_def)
  have "pd_projects (fst w') = pd_projects (fst ?w) \<and> pd_deliveries (fst w') = pd_deliveries (fst ?w) \<and> verdict p ?d st"
  proof (cases "pr_dial p i ?sp msg")
    case None
    then show ?thesis using assms Inr a by (auto simp: dial_candidate_def Let_def verdict_def final_def taken_def outcome_defs)
  next
    case (Some err)
    show ?thesis
    proof (cases "as_refusals err")
      case (Some af)
      obtain acc fs where af: "af = (acc, fs)" by (rule prod.exhaust)
      obtain refused w2 where rr: "recordRefusals p now ids 0 e fs ?w = (refused, w2)" by (rule prod.exhaust)
      have w2: "pd_projects (fst w2) = pd_projects (fst ?w) \<and> pd_deliveries (fst w2) = pd_deliveries (fst ?w)"
        using recordRefusals_state [of ?w p now ids 0 e fs] rr
        by (simp add: only_sup_projects) (simp add: only_sup_def)
      show ?thesis
        using assms Inr a \<open>pr_dial p i ?sp msg = Some err\<close> Some af rr w2
        by (auto simp: dial_candidate_def Let_def verdict_def final_def taken_def outcome_defs as_refusals_Some split: if_splits)
    next
      case none: None
      show ?thesis
      proof (cases "server_fault err")
        case True
        have "pd_deliveries (fst (takeOutOfRotation p now srv err ?w)) = pd_deliveries (fst ?w)"
          using takeOutOfRotation_state [of ?w p now srv err] by (simp add: only_smtp_def)
        then show ?thesis using takeOutOfRotation_projects [of p now srv err ?w]
          using assms Inr a \<open>pr_dial p i ?sp msg = Some err\<close> none True
          by (auto simp: dial_candidate_def Let_def verdict_def final_def taken_def)
      next
        case False
        show ?thesis
        proof (cases "permanent p err")
          case True
          then obtain f where f: "as_failure (pr_show p) err = Some f" "fa_permanent f" by (auto simp: permanent_def)
          have "only_sup (fst ?w) (fst (recordRejection p now (ids 0) e f ?w))" by (rule recordRejection_state)
          then have "pd_deliveries (fst (recordRejection p now (ids 0) e f ?w)) = pd_deliveries (fst ?w)"
            "pd_projects (fst (recordRejection p now (ids 0) e f ?w)) = pd_projects (fst ?w)"
            by (simp_all add: only_sup_projects) (simp add: only_sup_def)
          then show ?thesis
            using assms Inr a \<open>pr_dial p i ?sp msg = Some err\<close> none False True f
            by (auto simp: dial_candidate_def Let_def verdict_def final_def taken_def outcome_defs)
        next
          case notperm: False
          then show ?thesis
            using assms Inr a \<open>pr_dial p i ?sp msg = Some err\<close> none False
            by (auto simp: dial_candidate_def Let_def verdict_def final_def taken_def permanent_def split: option.splits if_splits)
        qed
      qed
    qed
  qed
  then show ?thesis using w1 Inr by auto
qed

lemma Target_state:
  assumes "Target srv w = (r, w')"
  shows "fst w' = fst w"
proof -
  obtain x w1 where read: "Read (\<lambda>s. node_of (pd_smtp s) (srv_id srv)) w = (x, w1)" by (rule prod.exhaust)
  from Read_state [OF read] show ?thesis
    using assms read by (cases x) (auto simp: Target_def split: option.splits)
qed

text \<open>A candidate is dialled, or the message goes to its node with one row written and nothing else.\<close>

lemma try_candidate_cases:
  assumes "try_candidate p now ids e i srv msg w = (st, w')"
  obtains (dialled) w1 where "fst w1 = fst w" "dial_candidate p now ids e i srv msg w1 = (st, w')"
    | (pulled) "pd_smtp (fst w') = pd_smtp (fst w)" "pd_sup (fst w') = pd_sup (fst w)"
        "pd_deliveries (fst w') = pd_deliveries (fst w)" "IsNode srv \<and> pr_pull p \<noteq> None"
        "\<forall>out. st = Ends out \<longrightarrow> o_kind out = KindHanded \<or> o_kind out = KindRetry \<and> isl (rawMessage (pr_build p) (pr_sign p) msg)"
proof (cases "pr_pull p = None \<or> \<not> IsNode srv")
  case True
  then show thesis using assms dialled [of w] by (auto simp: try_candidate_def split: option.splits)
next
  case False
  then obtain ttl where t: "pr_pull p = Some ttl" "IsNode srv" by auto
  obtain r w1 where target: "Target srv w = (r, w1)" by (rule prod.exhaust)
  note same = Target_state [OF target]
  show thesis
  proof (cases "\<exists>nodeID raw. r = Inr (nodeID, True) \<and> rawMessage (pr_build p) (pr_sign p) msg = Inr raw")
    case False
    then show thesis
      using assms t target same dialled [of w1] pulled
      by (auto simp: try_candidate_def outcome_defs split: sum.splits if_splits)
  next
    case True
    then obtain nodeID raw where raw: "r = Inr (nodeID, True)" "rawMessage (pr_build p) (pr_sign p) msg = Inr raw" by blast
    obtain r2 w2 where a: "Assign now ttl e nodeID (srv_id srv) (ms_envelope_from msg) raw w1 = (r2, w2)" by (rule prod.exhaust)
    have "pd_smtp (fst w2) = pd_smtp (fst w) \<and> pd_sup (fst w2) = pd_sup (fst w) \<and> pd_deliveries (fst w2) = pd_deliveries (fst w)"
      using Run_state [OF a [unfolded Assign_def]] same by auto
    then show thesis
      using assms t target raw a pulled by (cases r2) (auto simp: try_candidate_def outcome_defs)
  qed
qed

text \<open>The candidates that are always dialled when their turn comes.\<close>

definition dialable :: "processor \<Rightarrow> server \<Rightarrow> bool" where
  "dialable p srv = (\<not> isl (nodeTLS p srv) \<and> (pr_pull p = None \<or> \<not> IsNode srv))"

lemma try_candidate_run:
  assumes "try_candidate p now ids e i srv msg w = (st, w')"
  shows "pd_projects (fst w') = pd_projects (fst w) \<and>
    ((pd_deliveries (fst w') = pd_deliveries (fst w) \<and> \<not> dialable p srv \<and>
      (\<forall>out. st = Ends out \<longrightarrow> IsNode srv \<and> pr_pull p \<noteq> None \<and>
         (o_kind out = KindHanded \<or> o_kind out = KindRetry \<and> isl (rawMessage (pr_build p) (pr_sign p) msg)))) \<or>
     (\<exists>tls d. nodeTLS p srv = Inr tls \<and>
        d = \<lparr>dl_index = i, dl_server_id = srv_id srv, dl_spec = spec_for p tls srv, dl_message = msg\<rparr> \<and>
        pd_deliveries (fst w') = pd_deliveries (fst w) @ [d] \<and> verdict p d st))"
  using assms
proof (cases rule: try_candidate_cases)
  case (dialled w1)
  from dial_candidate_run [OF dialled(2)] dialled(1) show ?thesis unfolding dialable_def by auto
next
  case pulled
  then show ?thesis by (simp add: pd_projects_def dialable_def)
qed

section \<open>The walk\<close>

text \<open>Everything a delivery carries that depends on the server.\<close>

definition carries ::
    "processor \<Rightarrow> email \<Rightarrow> (string \<times> string) list \<Rightarrow> message \<Rightarrow> signer option \<Rightarrow> server \<Rightarrow> delivery \<Rightarrow> bool" where
  "carries p e projects msg k srv d =
     (dl_server_id d = srv_id srv \<and>
      (\<exists>tls. nodeTLS p srv = Inr tls \<and> dl_spec d = spec_for p tls srv) \<and>
      (\<exists>addr. dl_message d = prepare msg k srv addr \<and>
         (if srv_project_id srv = [] then addr = orSender (pr_parse p) (pr_bounce_address p) e
          else \<exists>a. addr = orSender (pr_parse p) a e \<and> (a = [] \<or> map_of projects (e_project_id e) = Some a))))"

text \<open>
  The walk, without its state: a candidate is passed over, dialled, or handed the message; a dialled one ends
  the walk with its answer or leaves it to the next.
\<close>

fun offered ::
    "processor \<Rightarrow> email \<Rightarrow> (string \<times> string) list \<Rightarrow> message \<Rightarrow> signer option \<Rightarrow> nat \<Rightarrow> server list \<Rightarrow> delivery list \<Rightarrow>
     outcome \<Rightarrow> bool" where
  "offered p e projects msg k i [] ds out = (ds = [] \<and> o_kind out = KindRetry)"
| "offered p e projects msg k i (srv # rest) ds out =
     ((\<not> dialable p srv \<and> offered p e projects msg k (Suc i) rest ds out) \<or>
      (\<exists>d ds'. ds = d # ds' \<and> dl_index d = i \<and> carries p e projects msg k srv d \<and>
         (if final p (answer_of p d) then ds' = [] \<and> verdict p d (Ends out)
          else offered p e projects msg k (Suc i) rest ds' out)) \<or>
      (ds = [] \<and> \<not> dialable p srv \<and> IsNode srv \<and> pr_pull p \<noteq> None \<and>
         (o_kind out = KindHanded \<or>
          o_kind out = KindRetry \<and> (\<exists>addr. isl (rawMessage (pr_build p) (pr_sign p) (prepare msg k srv addr))))))"

lemma failover_run:
  assumes "failover p now ids e msg k i cands sendErr bounce w = (out, w')"
    and "\<forall>a. bounce = Some a \<longrightarrow> a = [] \<or> map_of (pd_projects (fst w)) (e_project_id e) = Some a"
  shows "\<exists>ds. pd_deliveries (fst w') = pd_deliveries (fst w) @ ds \<and> offered p e (pd_projects (fst w)) msg k i cands ds out"
  using assms
proof (induction cands arbitrary: i sendErr bounce w)
  case Nil
  then have "out = Retry sendErr" "w' = w" by auto
  then show ?case by (simp add: outcome_defs)
next
  case (Cons srv rest)
  obtain addr b w1 where path: "returnPathFor p e srv bounce w = ((addr, b), w1)" by (metis prod.exhaust)
  note path_run = returnPathFor_run [OF path Cons.prems(2)]
  obtain st w2 where tried: "try_candidate p now ids e i srv (prepare msg k srv addr) w1 = (st, w2)" by (rule prod.exhaust)
  note tried_run = try_candidate_run [OF tried]
  have projects: "pd_projects (fst w2) = pd_projects (fst w)" using tried_run path_run by simp
  have carry: "carries p e (pd_projects (fst w)) msg k srv d"
    if "nodeTLS p srv = Inr tls" "d = \<lparr>dl_index = i, dl_server_id = srv_id srv, dl_spec = spec_for p tls srv, dl_message = prepare msg k srv addr\<rparr>"
    for tls d
    unfolding carries_def using that path_run by (intro conjI exI [of _ tls] exI [of _ addr]) simp_all
  have rest: "\<exists>ds. pd_deliveries (fst w') = pd_deliveries (fst w2) @ ds \<and> offered p e (pd_projects (fst w)) msg k (Suc i) rest ds out"
    if "st = GoesOn err" for err
  proof -
    have "failover p now ids e msg k (Suc i) rest (error_text (pr_show p) err) b w2 = (out, w')"
      using Cons.prems(1) path tried that by simp
    moreover have "\<forall>a. b = Some a \<longrightarrow> a = [] \<or> map_of (pd_projects (fst w2)) (e_project_id e) = Some a"
      using path_run projects by simp
    ultimately show ?thesis using Cons.IH [of "Suc i"] projects by metis
  qed
  have stop: "out = o'" "w' = w2" if "st = Ends o'" for o' using Cons.prems(1) path tried that by auto
  from tried_run consider
      (none) "pd_deliveries (fst w2) = pd_deliveries (fst w1)" "\<not> dialable p srv"
        "\<forall>o'. st = Ends o' \<longrightarrow> IsNode srv \<and> pr_pull p \<noteq> None \<and> (o_kind o' = KindHanded \<or>
           o_kind o' = KindRetry \<and> isl (rawMessage (pr_build p) (pr_sign p) (prepare msg k srv addr)))"
    | (one) tls d where "nodeTLS p srv = Inr tls"
        "d = \<lparr>dl_index = i, dl_server_id = srv_id srv, dl_spec = spec_for p tls srv, dl_message = prepare msg k srv addr\<rparr>"
        "pd_deliveries (fst w2) = pd_deliveries (fst w1) @ [d]" "verdict p d st" by auto
  then show ?case
  proof cases
    case none
    show ?thesis
    proof (cases st)
      case (Ends o')
      then show ?thesis using none stop path_run by (intro exI [of _ "[]"]) auto
    next
      case (GoesOn err)
      with rest none path_run show ?thesis by auto
    qed
  next
    case one
    show ?thesis
    proof (cases st)
      case (Ends o')
      have "final p (answer_of p d)" using one(4) Ends by (simp add: verdict_def)
      moreover have "dl_index d = i" using one(2) by simp
      ultimately show ?thesis
        using one(3,4) stop [OF Ends] Ends path_run carry [OF one(1,2)] by (intro exI [of _ "[d]"]) simp
    next
      case (GoesOn err)
      obtain ds where ds: "pd_deliveries (fst w') = pd_deliveries (fst w2) @ ds"
        "offered p e (pd_projects (fst w)) msg k (Suc i) rest ds out" using rest [OF GoesOn] by blast
      have "\<not> final p (answer_of p d)" using one(4) GoesOn unfolding verdict_def by auto
      moreover have "dl_index d = i" using one(2) by simp
      ultimately show ?thesis
        using one(3) ds path_run carry [OF one(1,2)] by (intro exI [of _ "d # ds"]) simp
    qed
  qed
qed

text \<open>What a walk says of the first \<open>n\<close> candidates, those whose turn came.\<close>

definition walked ::
    "processor \<Rightarrow> email \<Rightarrow> (string \<times> string) list \<Rightarrow> message \<Rightarrow> signer option \<Rightarrow> nat \<Rightarrow> server list \<Rightarrow> delivery list \<Rightarrow>
     outcome \<Rightarrow> nat \<Rightarrow> bool" where
  "walked p e projects msg k i cands ds out n =
     (n \<le> length cands \<and>
      (\<forall>d \<in> set ds. \<exists>j < n. dl_index d = i + j \<and> carries p e projects msg k (cands ! j) d) \<and>
      sorted_wrt (<) (map dl_index ds) \<and>
      (\<forall>j < n. dialable p (cands ! j) \<longrightarrow> i + j \<in> dl_index ` set ds) \<and>
      (\<forall>d \<in> set (butlast ds). \<not> final p (answer_of p d)) \<and>
      (case o_kind out of
         KindDone \<Rightarrow> ds \<noteq> [] \<and> taken (answer_of p (last ds)) \<and> o_server_id out = dl_server_id (last ds)
       | KindFail \<Rightarrow> ds \<noteq> [] \<and> final p (answer_of p (last ds)) \<and> \<not> taken (answer_of p (last ds))
       | KindRetry \<Rightarrow> (\<forall>d \<in> set ds. \<not> final p (answer_of p d)) \<and>
           (n = length cands \<or>
            0 < n \<and> IsNode (cands ! (n - 1)) \<and> pr_pull p \<noteq> None \<and>
              (\<exists>addr. isl (rawMessage (pr_build p) (pr_sign p) (prepare msg k (cands ! (n - 1)) addr))))
       | KindHanded \<Rightarrow> (\<forall>d \<in> set ds. \<not> final p (answer_of p d)) \<and> 0 < n \<and> IsNode (cands ! (n - 1)) \<and> pr_pull p \<noteq> None
       | _ \<Rightarrow> False))"

lemma walked_past:
  assumes "walked p e projects msg k (Suc i) rest ds out n" "\<not> dialable p srv"
  shows "walked p e projects msg k i (srv # rest) ds out (Suc n)"
  using assms unfolding walked_def
  by (auto simp: All_less_Suc2 Ex_less_Suc2 nth_Cons' split: outcome_kind.splits)

lemma walked_on:
  assumes "walked p e projects msg k (Suc i) rest ds out n" "dl_index d = i" "carries p e projects msg k srv d"
    "\<not> final p (answer_of p d)"
  shows "walked p e projects msg k i (srv # rest) (d # ds) out (Suc n)"
proof -
  have "\<forall>x \<in> set ds. i < dl_index x" using assms(1) by (force simp: walked_def)
  moreover have "\<forall>x \<in> set (butlast (d # ds)). \<not> final p (answer_of p x)" using assms(1,4) by (auto simp: walked_def)
  ultimately show ?thesis
    using assms unfolding walked_def
    by (auto simp: All_less_Suc2 Ex_less_Suc2 nth_Cons' split: outcome_kind.splits)
qed

lemma walked_end:
  assumes "dl_index d = i" "carries p e projects msg k srv d" "verdict p d (Ends out)"
  shows "walked p e projects msg k i (srv # rest) [d] out 1"
  using assms by (auto simp: walked_def verdict_def split: if_splits)

lemma offered_walked: "offered p e projects msg k i cands ds out \<Longrightarrow> \<exists>n. walked p e projects msg k i cands ds out n"
proof (induction cands arbitrary: i ds)
  case Nil
  then show ?case by (auto simp: walked_def)
next
  case (Cons srv rest)
  from Cons.prems consider
      (past) "\<not> dialable p srv" "offered p e projects msg k (Suc i) rest ds out"
    | (dialled) d ds' where "ds = d # ds'" "dl_index d = i" "carries p e projects msg k srv d"
        "if final p (answer_of p d) then ds' = [] \<and> verdict p d (Ends out) else offered p e projects msg k (Suc i) rest ds' out"
    | (handed) "ds = []" "\<not> dialable p srv" "IsNode srv" "pr_pull p \<noteq> None"
        "o_kind out = KindHanded \<or> o_kind out = KindRetry \<and> (\<exists>addr. isl (rawMessage (pr_build p) (pr_sign p) (prepare msg k srv addr)))"
    by auto
  then show ?case
  proof cases
    case past
    then show ?thesis using Cons.IH walked_past by blast
  next
    case dialled
    show ?thesis
    proof (cases "final p (answer_of p d)")
      case True
      then have "ds = [d]" "verdict p d (Ends out)" using dialled(1,4) by simp_all
      then show ?thesis using walked_end [OF dialled(2,3)] by blast
    next
      case False
      then obtain n where "walked p e projects msg k (Suc i) rest ds' out n" using Cons.IH dialled(4) by auto
      then show ?thesis using walked_on dialled(1-3) False by blast
    qed
  next
    case handed
    then have "walked p e projects msg k i (srv # rest) ds out 1" by (auto simp: walked_def)
    then show ?thesis by blast
  qed
qed

section \<open>Before the walk\<close>

lemma query_state: "query m \<Longrightarrow> fst (snd (m w)) = fst w"
  unfolding query_def answers_def by blast

lemma in_smtp_query: "query m \<Longrightarrow> query (in_smtp m)"
  unfolding in_smtp_def by (rule query_Zoom) simp_all

lemma check_sender_run:
  assumes "check_sender p e w = (r, w')"
  shows "fst w' = fst w"
proof -
  let ?w = "(pd_smtp (fst w), snd w)"
  let ?sender = "senderAddress (pr_parse p) (e_sender e)"
  obtain q w1 where own: "ownsVerifiedDomain (pr_parse p) (e_project_id e) ?sender ?w = (q, w1)" by (rule prod.exhaust)
  have "fst w1 = pd_smtp (fst w)" using query_state [OF owns_query] own by (metis fst_conv snd_conv)
  then show ?thesis
    using assms own by (cases w1; cases q) (auto simp: check_sender_def RequireVerifiedSender_def Let_def split: if_splits)
qed

lemma pickServers_run:
  assumes "pickServers p now e w = (r, w')" "unique_names (dd_domains (sd_domains (pd_smtp (fst w))))"
  shows "fst w' = fst w \<and> (isl r \<or> r = Inr (candidates now (pr_parse p) (pd_smtp (fst w)) (e_project_id e)
    (senderAddress (pr_parse p) (e_sender e)) \<lparr>rt_server_id = e_smtp_server_id e, rt_group_id = e_smtp_group_id e\<rparr>))"
proof -
  let ?m = "ResolveCandidates now (pr_parse p) (e_project_id e) (senderAddress (pr_parse p) (e_sender e))
      \<lparr>rt_server_id = e_smtp_server_id e, rt_group_id = e_smtp_group_id e\<rparr>"
  have q: "query (in_smtp ?m)" by (rule in_smtp_query [OF candidates_query])
  have calm: "in_smtp ?m (fst w, []) = (Inr (candidates now (pr_parse p) (pd_smtp (fst w)) (e_project_id e)
    (senderAddress (pr_parse p) (e_sender e)) \<lparr>rt_server_id = e_smtp_server_id e, rt_group_id = e_smtp_group_id e\<rparr>), (fst w, []))"
    unfolding in_smtp_def Zoom_def by (simp add: candidates_calm [OF assms(2)])
  show ?thesis using query_answer [OF q calm] assms(1) unfolding pickServers_def by blast
qed

lemma signAs_run:
  assumes "signAs p projID from msg w = (r, w')"
  shows "fst w' = fst w \<and> (\<forall>m. r = Inr m \<longrightarrow> (\<exists>g. m = msg\<lparr>ms_signing := g\<rparr>) \<or> m = msg)"
proof -
  let ?addr = "to_lower (EnvelopeAddress (pr_parse p) from)"
  obtain r1 w1 where reg: "GetSenderByEmail projID ?addr w = (r1, w1)" by (rule prod.exhaust)
  have s1: "fst w1 = fst w" using Read_state reg unfolding GetSenderByEmail_def by blast
  show ?thesis
  proof (cases "\<exists>x k. r1 = Inr (Some (x, Some k))")
    case False
    then show ?thesis using assms reg s1 by (auto simp: signAs_def Let_def andThen_def split: sum.splits option.splits)
  next
    case True
    then obtain x k0 where r1: "r1 = Inr (Some (x, Some k0))" by blast
    obtain r2 w2 where key: "GetSigning projID (sn_id x) w1 = (r2, w2)" by (rule prod.exhaust)
    have s2: "fst w2 = fst w1" using Read_state key unfolding GetSigning_def by blast
    show ?thesis
      using assms reg s1 r1 key s2
      by (auto simp: signAs_def Let_def andThen_def split: sum.splits option.splits)
  qed
qed

text \<open>A signer is the key of the closest verified domain, and only one the project may send as.\<close>

definition may_sign :: "processor \<Rightarrow> email \<Rightarrow> proc_db \<Rightarrow> signer \<Rightarrow> bool" where
  "may_sign p e s k =
     (\<exists>d. authorised (sd_domains (pd_smtp s)) (senderDomain (pr_parse p) (e_sender e)) (e_project_id e) d \<and> CanSign d \<and>
        pr_signer p (dm_domain d) (dm_dkim_selector d) (dm_dkim_private_key d) = Inr k)"

lemma signerFor_run:
  assumes "signerFor p e w = (r, w')"
  shows "fst w' = fst w \<and> (\<forall>k. r = Inr (Some k) \<longrightarrow> may_sign p e (fst w) k)"
proof (cases "senderDomain (pr_parse p) (e_sender e) = []")
  case True
  then show ?thesis using assms by (auto simp: signerFor_def)
next
  case False
  let ?host = "senderDomain (pr_parse p) (e_sender e)"
  obtain q w1 where cov: "in_smtp (covering_for ?host (e_project_id e)) w = (q, w1)" by (rule prod.exhaust)
  obtain x where calm: "covering_for ?host (e_project_id e) (pd_smtp (fst w), []) = (Inr x, (pd_smtp (fst w), []))"
    "GetVerifiedCoveringFor ?host (e_project_id e) (sd_domains (pd_smtp (fst w)), []) = (Inr x, (sd_domains (pd_smtp (fst w)), []))"
    using covering_for_calm by blast
  have "in_smtp (covering_for ?host (e_project_id e)) (fst w, []) = (Inr x, (fst w, []))"
    unfolding in_smtp_def Zoom_def by (simp add: calm(1))
  from query_answer [OF in_smtp_query [OF covering_query] this cov]
  have w1: "fst w1 = fst w" and q: "isl q \<or> q = Inr x" by auto
  have "x = Some d \<Longrightarrow> authorised (sd_domains (pd_smtp (fst w))) ?host (e_project_id e) d" for d
    using calm(2) by (auto simp: GetVerifiedCoveringFor_calm split: list.splits if_splits)
  then show ?thesis
    using assms False cov w1 q
    by (auto simp: signerFor_def Let_def may_sign_def andThen_def split: sum.splits option.splits if_splits)
qed

text \<open>Why an attempt may end before the walk.\<close>

abbreviation route_of :: "email \<Rightarrow> route" where
  "route_of e \<equiv> \<lparr>rt_server_id = e_smtp_server_id e, rt_group_id = e_smtp_group_id e\<rparr>"

abbreviation candidates_of :: "processor \<Rightarrow> time \<Rightarrow> email \<Rightarrow> proc_db \<Rightarrow> server list" where
  "candidates_of p now e s \<equiv>
     candidates now (pr_parse p) (pd_smtp s) (e_project_id e) (senderAddress (pr_parse p) (e_sender e)) (route_of e)"

definition unwelcome :: "processor \<Rightarrow> time \<Rightarrow> email \<Rightarrow> pworld \<Rightarrow> bool" where
  "unwelcome p now e w = (fst (check_sender p e w) \<noteq> None \<or> candidates_of p now e (fst w) = [])"

definition hindered :: "processor \<Rightarrow> email \<Rightarrow> pworld \<Rightarrow> bool" where
  "hindered p e w =
     (snd w \<noteq> [] \<or> isl (rehydrate p (e_project_id e) (e_attachments e)) \<or> e_signing e \<noteq> [] \<or>
      (\<exists>d :: domain_row. isl (pr_signer p (dm_domain d) (dm_dkim_selector d) (dm_dkim_private_key d))))"

lemma calm_state: "query m \<Longrightarrow> snd w = [] \<Longrightarrow> m w = (r, w') \<Longrightarrow> \<not> isl r \<and> w' = w"
  using query_calm [of m "fst w"] by (cases w) auto

lemma check_sender_calm:
  assumes "check_sender p e w = (r, w')" "snd w = []"
  shows "w' = w"
proof -
  let ?w = "(pd_smtp (fst w), snd w)"
  let ?sender = "senderAddress (pr_parse p) (e_sender e)"
  obtain q w1 where own: "ownsVerifiedDomain (pr_parse p) (e_project_id e) ?sender ?w = (q, w1)" by (rule prod.exhaust)
  have "w1 = ?w" using calm_state [OF owns_query _ own] assms(2) by simp
  then show ?thesis
    using assms own by (cases w; cases q) (auto simp: check_sender_def RequireVerifiedSender_def Let_def split: if_splits)
qed

lemma pickServers_calm: "pickServers p now e w = (r, w') \<Longrightarrow> snd w = [] \<Longrightarrow> \<not> isl r \<and> w' = w"
  unfolding pickServers_def by (rule calm_state [OF in_smtp_query [OF candidates_query]])

lemma signerFor_calm:
  assumes "signerFor p e w = (Inl err, w')" "snd w = []"
  shows "\<exists>d :: domain_row. isl (pr_signer p (dm_domain d) (dm_dkim_selector d) (dm_dkim_private_key d))"
proof -
  let ?host = "senderDomain (pr_parse p) (e_sender e)"
  obtain q w1 where cov: "in_smtp (covering_for ?host (e_project_id e)) w = (q, w1)" by (rule prod.exhaust)
  have q: "\<not> isl q" using calm_state [OF in_smtp_query [OF covering_query] assms(2) cov] by blast
  show ?thesis
  proof (rule ccontr)
    assume "\<not> ?thesis"
    then have ok: "pr_signer p (dm_domain d) (dm_dkim_selector d) (dm_dkim_private_key d) \<noteq> Inl x" for d :: domain_row and x
      by (metis sum.disc(1))
    show False
      using assms(1) cov q ok
      by (auto simp: signerFor_def Let_def andThen_def split: sum.splits option.splits if_splits)
  qed
qed

text \<open>The stages of an attempt: it ends before the walk with no delivery, or walks the candidates.\<close>

lemma Process_run:
  assumes "Process p now ids e w = (out, w')" "unique_names (dd_domains (sd_domains (pd_smtp (fst w))))"
  obtains (early) "fst w' = fst w" "o_kind out = KindFail \<and> unwelcome p now e w \<or> o_kind out = KindRetry \<and> hindered p e w"
    | (walk) msg k w1 cands where "fst w1 = fst w" "failover p now ids e msg k 0 cands [] None w1 = (out, w')"
        "cands = candidates now (pr_parse p) (pd_smtp (fst w)) (e_project_id e) (senderAddress (pr_parse p) (e_sender e))
           \<lparr>rt_server_id = e_smtp_server_id e, rt_group_id = e_smtp_group_id e\<rparr>"
        "\<exists>attachments g. msg = (newMessage p e attachments)\<lparr>ms_signing := g\<rparr>"
        "\<And>x. k = Some x \<Longrightarrow> may_sign p e (fst w) x"
proof -
  obtain r0 w0 where sender: "check_sender p e w = (r0, w0)" by (rule prod.exhaust)
  have s0: "fst w0 = fst w" using check_sender_run [OF sender] .
  show thesis
  proof (cases r0)
    case (Some r)
    then have "unwelcome p now e w" using sender by (simp add: unwelcome_def)
    then show thesis using assms(1) sender s0 early Some by (auto simp: Process_def outcome_defs)
  next
    case None
    obtain r1 w1 where pick: "pickServers p now e w0 = (r1, w1)" by (rule prod.exhaust)
    note picked = pickServers_run [OF pick, unfolded s0, OF assms(2)]
    show thesis
    proof (cases "\<exists>c cs. r1 = Inr (c # cs)")
      case False
      show thesis
      proof (cases r1)
        case (Inl err)
        have "snd w \<noteq> []"
        proof
          assume calm: "snd w = []"
          have "w0 = w" by (rule check_sender_calm [OF sender calm])
          then show False using pickServers_calm [OF pick] calm Inl by simp
        qed
        then have "hindered p e w" by (simp add: hindered_def)
        then show thesis using assms(1) sender None pick picked early Inl by (auto simp: Process_def outcome_defs)
      next
        case (Inr cs)
        then have "cs = []" using False by (cases cs) auto
        then have "unwelcome p now e w" using Inr picked by (simp add: unwelcome_def)
        then show thesis using assms(1) sender None pick picked early Inr \<open>cs = []\<close> by (auto simp: Process_def outcome_defs)
      qed
    next
      case True
      then obtain c cs where r1: "r1 = Inr (c # cs)" by blast
      show thesis
      proof (cases "rehydrate p (e_project_id e) (e_attachments e)")
        case (Inl err)
        then have "hindered p e w" by (simp add: hindered_def)
        then show thesis using assms(1) sender None pick r1 picked early Inl by (auto simp: Process_def outcome_defs)
      next
        case (Inr att)
        let ?sign = "if e_signing e \<noteq> [] then signAs p (e_project_id e) (e_sender e) (newMessage p e att) w1
            else Return (newMessage p e att) w1"
        obtain r2 w2 where sig: "?sign = (r2, w2)" by (rule prod.exhaust)
        have s2: "fst w2 = fst w1" and m2: "\<forall>m. r2 = Inr m \<longrightarrow> (\<exists>g. m = (newMessage p e att)\<lparr>ms_signing := g\<rparr>)"
        proof -
          have same: "newMessage p e att = (newMessage p e att)\<lparr>ms_signing := None\<rparr>" by (simp add: newMessage_def Let_def)
          show "fst w2 = fst w1" "\<forall>m. r2 = Inr m \<longrightarrow> (\<exists>g. m = (newMessage p e att)\<lparr>ms_signing := g\<rparr>)"
            using sig signAs_run [of p "e_project_id e" "e_sender e" "newMessage p e att" w1 r2 w2] same
            by (auto split: if_splits)
        qed
        show thesis
        proof (cases r2)
          case (Inl err)
          then have "e_signing e \<noteq> []" using sig by auto
          then have "hindered p e w" by (simp add: hindered_def)
          then show thesis using assms(1) sender None pick r1 \<open>rehydrate p (e_project_id e) (e_attachments e) = Inr att\<close> sig s2 picked early Inl
            by (auto simp: Process_def outcome_defs)
        next
          case r2: (Inr msg)
          let ?k = "if list_ex (\<lambda>s. \<not> SkipsDKIM s) (c # cs) then signerFor p e w2 else Return None w2"
          obtain r3 w3 where ks: "?k = (r3, w3)" by (rule prod.exhaust)
          have s3: "fst w3 = fst w2" and k3: "\<forall>x. r3 = Inr (Some x) \<longrightarrow> may_sign p e (fst w2) x"
            using ks signerFor_run [of p e w2 r3 w3] by (auto split: if_splits)
          have all: "Process p now ids e w = (case ?k of (Inl err, w) \<Rightarrow> (Retry (''dkim signer: '' @ err), w)
              | (Inr k, w) \<Rightarrow> failover p now ids e msg k 0 (c # cs) [] None w)"
            using sender None pick r1 \<open>rehydrate p (e_project_id e) (e_attachments e) = Inr att\<close> sig r2
            by (simp add: Process_def del: failover.simps)
          show thesis
          proof (cases r3)
            case (Inl err)
            have "hindered p e w"
            proof (cases "snd w = [] \<and> e_signing e = []")
              case True
              then have "w0 = w" using check_sender_calm [OF sender] by simp
              moreover have "w1 = w0" using pickServers_calm [OF pick] True \<open>w0 = w\<close> by simp
              moreover have "w2 = w1" using sig True by simp
              ultimately have "signerFor p e w = (Inl err, w3)" using ks Inl by (auto split: if_splits)
              then show ?thesis using signerFor_calm True unfolding hindered_def by blast
            qed (auto simp: hindered_def)
            then show thesis using assms(1) all ks s3 s2 picked early Inl by (auto simp: outcome_defs)
          next
            case (Inr k)
            have "failover p now ids e msg k 0 (c # cs) [] None w3 = (out, w')" using assms(1) all ks Inr by simp
            moreover have "fst w3 = fst w" using s3 s2 picked by simp
            moreover have "\<exists>attachments g. msg = (newMessage p e attachments)\<lparr>ms_signing := g\<rparr>" using m2 r2 by blast
            moreover have "k = Some x \<Longrightarrow> may_sign p e (fst w) x" for x using k3 Inr s2 picked by auto
            moreover have "c # cs = candidates now (pr_parse p) (pd_smtp (fst w)) (e_project_id e)
                (senderAddress (pr_parse p) (e_sender e)) \<lparr>rt_server_id = e_smtp_server_id e, rt_group_id = e_smtp_group_id e\<rparr>"
              using picked r1 by simp
            ultimately show thesis using walk [of w3 msg k "c # cs"] by blast
          qed
        qed
      qed
    qed
  qed
qed

section \<open>The attempt as a whole\<close>





text \<open>
  C32: A message is offered to one server after another until one answers for it, and not once more.  Whatever
  fails, the candidates have their turns in their order, and each one whose turn came was offered the message,
  unless it is a relay node that could not be dialled; all answers before the last were about the server only.
  The attempt is done exactly when the last answer took the message, for somebody at least, and names that
  server; it fails for good only when the last answer refused the message for good, or before any offer when
  the sender's check refused it or no server is a candidate; it is retried when every candidate had its turn
  and none answered for the message - or when the message could not be built for a pull node, or nothing was
  offered because a statement failed or its attachments or signatures could not be had - and handed over
  only to a node's queue.
\<close>
theorem offered_until_answered:
  assumes "Process p now ids e w = (out, w')" "unique_names (dd_domains (sd_domains (pd_smtp (fst w))))"
  shows "\<exists>ds n. pd_deliveries (fst w') = pd_deliveries (fst w) @ ds \<and>
    n \<le> length (candidates_of p now e (fst w)) \<and>
    (\<forall>d \<in> set ds. dl_index d < n \<and> dl_server_id d = srv_id (candidates_of p now e (fst w) ! dl_index d)) \<and>
    sorted_wrt (<) (map dl_index ds) \<and>
    (\<forall>j < n. dialable p (candidates_of p now e (fst w) ! j) \<longrightarrow> j \<in> dl_index ` set ds) \<and>
    (\<forall>d \<in> set (butlast ds). \<not> final p (answer_of p d)) \<and>
    (o_kind out = KindDone \<longleftrightarrow> ds \<noteq> [] \<and> taken (answer_of p (last ds))) \<and>
    (o_kind out = KindDone \<longrightarrow> o_server_id out = dl_server_id (last ds)) \<and>
    (o_kind out = KindFail \<longrightarrow>
       ds \<noteq> [] \<and> final p (answer_of p (last ds)) \<and> \<not> taken (answer_of p (last ds)) \<or> ds = [] \<and> unwelcome p now e w) \<and>
    (o_kind out \<in> {KindRetry, KindHanded} \<longrightarrow> (\<forall>d \<in> set ds. \<not> final p (answer_of p d))) \<and>
    (o_kind out = KindRetry \<longrightarrow>
       n = length (candidates_of p now e (fst w)) \<or>
       0 < n \<and> IsNode (candidates_of p now e (fst w) ! (n - 1)) \<and> pr_pull p \<noteq> None \<and>
         (\<exists>m. ms_to m = e_recipients e \<and> isl (rawMessage (pr_build p) (pr_sign p) m)) \<or>
       n = 0 \<and> hindered p e w) \<and>
    (o_kind out = KindHanded \<longrightarrow> 0 < n \<and> IsNode (candidates_of p now e (fst w) ! (n - 1)) \<and> pr_pull p \<noteq> None) \<and>
    o_kind out \<in> {KindDone, KindFail, KindRetry, KindHanded}"
  using assms
proof (cases rule: Process_run)
  case early
  then show ?thesis by (intro exI [of _ "[]"] exI [of _ 0]) auto
next
  case (walk msg k w1 cands)
  have "\<forall>a. None = Some a \<longrightarrow> a = [] \<or> map_of (pd_projects (fst w1)) (e_project_id e) = Some a" by simp
  from failover_run [OF walk(2) this] obtain ds n where ds: "pd_deliveries (fst w') = pd_deliveries (fst w) @ ds"
    "walked p e (pd_projects (fst w)) msg k 0 cands ds out n"
    using walk(1) offered_walked by metis
  have cands: "candidates_of p now e (fst w) = cands" using walk(3) by simp
  have to: "ms_to (prepare msg k srv addr) = e_recipients e" for srv addr
    using walk(4) by (auto simp: prepare_def newMessage_def Let_def)
  have server: "dl_index d < n \<and> dl_server_id d = srv_id (cands ! dl_index d)" if "d \<in> set ds" for d
    using ds(2) that unfolding walked_def carries_def by auto
  have stops: "taken a \<Longrightarrow> final p a" for a by (simp add: final_def)
  have none: "ds \<noteq> [] \<Longrightarrow> \<forall>d \<in> set ds. \<not> final p (answer_of p d) \<Longrightarrow> \<not> taken (answer_of p (last ds))"
    using stops last_in_set by blast
  from ds(2) have parts: "n \<le> length cands" "sorted_wrt (<) (map dl_index ds)"
    "\<forall>j < n. dialable p (cands ! j) \<longrightarrow> j \<in> dl_index ` set ds" "\<forall>d \<in> set (butlast ds). \<not> final p (answer_of p d)"
    by (simp_all add: walked_def)
  have verdict: "case o_kind out of
         KindDone \<Rightarrow> ds \<noteq> [] \<and> taken (answer_of p (last ds)) \<and> o_server_id out = dl_server_id (last ds)
       | KindFail \<Rightarrow> ds \<noteq> [] \<and> final p (answer_of p (last ds)) \<and> \<not> taken (answer_of p (last ds))
       | KindRetry \<Rightarrow> (\<forall>d \<in> set ds. \<not> final p (answer_of p d)) \<and>
           (n = length cands \<or> 0 < n \<and> IsNode (cands ! (n - 1)) \<and> pr_pull p \<noteq> None \<and>
              (\<exists>m. ms_to m = e_recipients e \<and> isl (rawMessage (pr_build p) (pr_sign p) m)))
       | KindHanded \<Rightarrow> (\<forall>d \<in> set ds. \<not> final p (answer_of p d)) \<and> 0 < n \<and> IsNode (cands ! (n - 1)) \<and> pr_pull p \<noteq> None
       | _ \<Rightarrow> False"
    using ds(2) to unfolding walked_def by (cases "o_kind out") (simp_all, blast)
  have ends: "o_kind out = KindDone \<longleftrightarrow> ds \<noteq> [] \<and> taken (answer_of p (last ds))"
    "o_kind out = KindDone \<longrightarrow> o_server_id out = dl_server_id (last ds)"
    "o_kind out = KindFail \<longrightarrow> ds \<noteq> [] \<and> final p (answer_of p (last ds)) \<and> \<not> taken (answer_of p (last ds))"
    "o_kind out \<in> {KindRetry, KindHanded} \<longrightarrow> (\<forall>d \<in> set ds. \<not> final p (answer_of p d))"
    "o_kind out = KindRetry \<longrightarrow> n = length cands \<or> 0 < n \<and> IsNode (cands ! (n - 1)) \<and> pr_pull p \<noteq> None \<and>
        (\<exists>m. ms_to m = e_recipients e \<and> isl (rawMessage (pr_build p) (pr_sign p) m))"
    "o_kind out = KindHanded \<longrightarrow> 0 < n \<and> IsNode (cands ! (n - 1)) \<and> pr_pull p \<noteq> None"
    "o_kind out \<in> {KindDone, KindFail, KindRetry, KindHanded}"
    using verdict none by (cases "o_kind out"; force)+
  show ?thesis
    unfolding cands
    by (rule exI [of _ ds], rule exI [of _ n], intro conjI)
      (use ds(1) parts server ends in \<open>blast+\<close>)
qed

section \<open>What a refusal leaves behind\<close>

lemma keeps_in_sup: "keeps I m \<Longrightarrow> I (pd_sup (fst w)) \<Longrightarrow> I (pd_sup (fst (snd (in_sup m w))))"
  using keeps_apply [of I m "(pd_sup (fst w), snd w)"] by (auto simp: in_sup_def Zoom_def split: prod.splits)

lemma addressedTo_recipient:
  "a \<in> EnvelopeAddress parse ` set rs \<Longrightarrow> addressedTo parse rs a"
  by (auto simp: addressedTo_def list_ex_iff equal_fold_def bare_address_def)

lemma rejection_confined:
  assumes "confined parse e (pr_auto_suppress p) s0 (pd_sup (fst w))" "addressedTo parse (e_recipients e) (fa_rejected f) \<or> fa_rejected f = []"
  shows "confined parse e (pr_auto_suppress p) s0 (pd_sup (fst (recordRejection p now ids e f w)))"
proof (cases "fa_rejected f = []")
  case True
  then show ?thesis using assms(1) by (simp add: recordRejection_def)
next
  case False
  then have to: "addressedTo parse (e_recipients e) (fa_rejected f)" using assms(2) by simp
  let ?b = "bounce_for (e_project_id e) (e_id e) (fa_rejected f) TypeHard (fa_text f)"
  let ?s = "block_for (e_project_id e) (fa_rejected f) KindBounce (fa_text f)"
  let ?w = "snd (in_sup (PutBounce (fst ids) now ?b) w)"
  have put: "confined parse e (pr_auto_suppress p) s0 (pd_sup (fst ?w))"
    by (rule keeps_in_sup [OF confined_Put assms(1)]) (simp add: bounce_for_def to)
  have "confined parse e (pr_auto_suppress p) s0 (pd_sup (fst (snd (in_sup (UpsertSuppression (snd ids) now ?s) ?w))))"
    if "pr_auto_suppress p"
    by (rule keeps_in_sup [OF confined_Upsert put]) (simp add: block_for_def to that)
  then show ?thesis using put False by (cases "pr_auto_suppress p") (simp_all add: recordRejection_def Let_def)
qed

lemma refusals_confined:
  assumes "confined parse e (pr_auto_suppress p) s0 (pd_sup (fst w))" "\<forall>x \<in> set fs. addressedTo parse (e_recipients e) (RejectedRecipient x)"
  shows "confined parse e (pr_auto_suppress p) s0 (pd_sup (fst (snd (recordRefusals p now ids i e fs w))))"
  using assms
proof (induction fs arbitrary: i w)
  case (Cons x fs)
  let ?f = "\<lparr>fa_permanent = Permanent x, fa_rejected = RejectedRecipient x, fa_text = se_err x\<rparr>"
  have "confined parse e (pr_auto_suppress p) s0 (pd_sup (fst (recordRejection p now (ids i) e ?f w)))"
    by (rule rejection_confined [OF Cons.prems(1)]) (use Cons.prems(2) in simp)
  then show ?case using Cons.IH [of w "Suc i"] Cons.IH [of "recordRejection p now (ids i) e ?f w" "Suc i"] Cons.prems
    by (simp add: case_prod_unfold)
qed simp

lemma dial_confined:
  assumes "dial_candidate p now ids e i srv msg w = (st, w')" "ms_to msg = e_recipients e"
    "\<And>j sp m err. pr_dial p j sp m = Some err \<Longrightarrow> names_recipients (pr_parse p) m err"
    and ok: "confined (pr_parse p) e (pr_auto_suppress p) s0 (pd_sup (fst w))"
  shows "confined (pr_parse p) e (pr_auto_suppress p) s0 (pd_sup (fst w'))"
proof (cases "nodeTLS p srv")
  case (Inl err)
  then show ?thesis using assms(1) ok by (auto simp: dial_candidate_def)
next
  case tls: (Inr tls)
  let ?sp = "spec_for p tls srv"
  let ?w = "event (\<lambda>s. s\<lparr>pd_deliveries := pd_deliveries s @
      [\<lparr>dl_index = i, dl_server_id = srv_id srv, dl_spec = ?sp, dl_message = msg\<rparr>]\<rparr>) w"
  have w1: "confined (pr_parse p) e (pr_auto_suppress p) s0 (pd_sup (fst ?w))" using ok by (simp add: event_def)
  show ?thesis
  proof (cases "pr_dial p i ?sp msg")
    case None
    then show ?thesis using assms(1) tls w1 by (auto simp: dial_candidate_def Let_def)
  next
    case (Some err)
    note named = assms(3) [OF Some]
    have single: "addressedTo (pr_parse p) (e_recipients e) (fa_rejected f) \<or> fa_rejected f = []"
      if "as_failure (pr_show p) err = Some f" for f
      using named that assms(2) addressedTo_recipient [of "fa_rejected f" "pr_parse p" "e_recipients e"]
      unfolding names_recipients_def by metis
    have each: "\<forall>x \<in> set fs. addressedTo (pr_parse p) (e_recipients e) (RejectedRecipient x)"
      if "as_refusals err = Some (acc, fs)" for acc fs
      using named that assms(2) addressedTo_recipient unfolding names_recipients_def by metis
    have out: "pd_sup (fst (takeOutOfRotation p now srv err ?w)) = pd_sup (fst ?w)"
      using takeOutOfRotation_state [of ?w p now srv err] by (simp add: only_smtp_def)
    show ?thesis
    proof (cases "as_refusals err")
      case af: (Some af)
      obtain acc fs where fs: "af = (acc, fs)" by (rule prod.exhaust)
      obtain refused w2 where rr: "recordRefusals p now ids 0 e fs ?w = (refused, w2)" by (rule prod.exhaust)
      have "confined (pr_parse p) e (pr_auto_suppress p) s0 (pd_sup (fst w2))"
        using refusals_confined [where w = ?w, OF w1 each [OF af [unfolded fs]], of now ids 0] rr by simp
      then show ?thesis using assms(1) tls Some af fs rr by (auto simp: dial_candidate_def Let_def)
    next
      case none: None
      show ?thesis
      proof (cases "\<not> server_fault err \<and> (\<exists>f. as_failure (pr_show p) err = Some f \<and> fa_permanent f)")
        case True
        then obtain f where f: "as_failure (pr_show p) err = Some f" "fa_permanent f" by blast
        have "confined (pr_parse p) e (pr_auto_suppress p) s0 (pd_sup (fst (recordRejection p now (ids 0) e f ?w)))"
          by (rule rejection_confined [OF w1 single [OF f(1)]])
        then show ?thesis using assms(1) tls Some none True f by (auto simp: dial_candidate_def Let_def)
      next
        case False
        then show ?thesis using assms(1) tls Some none w1 out
          by (auto simp: dial_candidate_def Let_def split: option.splits if_splits)
      qed
    qed
  qed
qed

lemma try_confined:
  assumes "try_candidate p now ids e i srv msg w = (st, w')" "ms_to msg = e_recipients e"
    "\<And>j sp m err. pr_dial p j sp m = Some err \<Longrightarrow> names_recipients (pr_parse p) m err"
    and ok: "confined (pr_parse p) e (pr_auto_suppress p) s0 (pd_sup (fst w))"
  shows "confined (pr_parse p) e (pr_auto_suppress p) s0 (pd_sup (fst w'))"
  using assms(1)
proof (cases rule: try_candidate_cases)
  case (dialled w1)
  from dialled(2) show ?thesis by (rule dial_confined) (use assms(2-4) dialled(1) in auto)
next
  case pulled
  then show ?thesis using ok by simp
qed

lemma failover_confined:
  assumes "failover p now ids e msg k i cands sendErr bounce w = (out, w')" "ms_to msg = e_recipients e"
    "\<And>j sp m err. pr_dial p j sp m = Some err \<Longrightarrow> names_recipients (pr_parse p) m err"
    and ok: "confined (pr_parse p) e (pr_auto_suppress p) s0 (pd_sup (fst w))"
  shows "confined (pr_parse p) e (pr_auto_suppress p) s0 (pd_sup (fst w'))"
  using assms(1,4)
proof (induction cands arbitrary: i sendErr bounce w)
  case (Cons srv rest)
  obtain addr b w1 where path: "returnPathFor p e srv bounce w = ((addr, b), w1)" by (metis prod.exhaust)
  have w1: "fst w1 = fst w"
  proof -
    obtain r w2 where read: "Read (\<lambda>s. map_of (pd_projects s) (e_project_id e)) w = (r, w2)" by (rule prod.exhaust)
    show ?thesis using path read Read_state [OF read]
      by (auto simp: returnPathFor_def read_bounce_def split: if_splits option.splits sum.splits)
  qed
  obtain st w2 where tried: "try_candidate p now ids e i srv (prepare msg k srv addr) w1 = (st, w2)" by (rule prod.exhaust)
  have w2: "confined (pr_parse p) e (pr_auto_suppress p) s0 (pd_sup (fst w2))"
    by (rule try_confined [OF tried _ assms(3)]) (use assms(2) Cons.prems(2) w1 in \<open>simp_all add: prepare_def\<close>)
  show ?case
  proof (cases st)
    case (Ends o')
    then show ?thesis using Cons.prems(1) path tried w2 by auto
  next
    case (GoesOn err)
    then have "failover p now ids e msg k (Suc i) rest (error_text (pr_show p) err) b w2 = (out, w')"
      using Cons.prems(1) path tried by simp
    then show ?thesis using Cons.IH w2 by blast
  qed
qed auto

text \<open>
  C33: A refused delivery reaches the refused recipients and nothing else.  With the providers the
  program has, whatever the peers answer and whatever fails, an attempt adds bounces of this message
  only, for addresses it goes to, never for its sender or its return path; it adds or rewrites
  global blocks of the sending project for such addresses only, and only when the operator wants
  rejections to block; and it removes none.
\<close>
theorem refusals_stay_with_recipients:
  assumes "Process p now ids e w = (out, w')" "unique_names (dd_domains (sd_domains (pd_smtp (fst w))))"
    "pr_dial p = (\<lambda>i sp msg. fst (Deliver n (pr_parse p) i sp msg))"
  shows "confined (pr_parse p) e (pr_auto_suppress p) (pd_sup (fst w)) (pd_sup (fst w'))"
  using assms(1,2)
proof (cases rule: Process_run)
  case early
  then show ?thesis using confined_refl by simp
next
  case (walk msg k w1 cands)
  have "ms_to msg = e_recipients e" using walk(4) by (auto simp: newMessage_def Let_def)
  moreover have "names_recipients (pr_parse p) m err" if "pr_dial p j sp m = Some err" for j sp m err
    using that Deliver_names unfolding assms(3) by blast
  moreover have "confined (pr_parse p) e (pr_auto_suppress p) (pd_sup (fst w)) (pd_sup (fst w1))"
    using confined_refl walk(1) by simp
  ultimately show ?thesis using failover_confined [OF walk(2)] by blast
qed

section \<open>Samples\<close>

definition proc_sample :: "(nat \<Rightarrow> spec \<Rightarrow> message \<Rightarrow> delivery_error option) \<Rightarrow> processor" where
  "proc_sample dial =
     \<lparr>pr_auto_suppress = True, pr_bounce_address = ''bounce@pool'', pr_allow_private_smtp = False,
      pr_conversation_timeout = 60, pr_platform_project = None, pr_relay_client = None, pr_pull = None, pr_notify = True,
      pr_dial = dial, pr_parse = (\<lambda>_. None), pr_build = (\<lambda>m. Inr (ms_text m)), pr_sign = (\<lambda>k raw. Inr raw),
      pr_load = (\<lambda>p a. Inl ''gone''), pr_html_to_text = id, pr_signer = (\<lambda>d sel key. Inr (Signer d sel key)),
      pr_mailsign = (\<lambda>k. Inr ()), pr_autocrypt = Inr, pr_encode = id, pr_show = (\<lambda>_. ''n'')\<rparr>"

definition proc_db_sample :: proc_db where
  "proc_db_sample =
     \<lparr>pd_smtp = routing_sample, pd_sup = block_db, pd_senders = [], pd_keys = [], pd_deliveries = [],
      pd_assignments = [], pd_notices = []\<rparr>"

definition proc_mail :: email where
  "proc_mail = zero_email\<lparr>e_id := ''m'', e_project_id := ''q'', e_sender := ''a@example.com'', e_recipients := [''c@x''],
     e_text_body := ''hello''\<rparr>"

definition second_takes :: "nat \<Rightarrow> spec \<Rightarrow> message \<Rightarrow> delivery_error option" where
  "second_takes i sp msg = (if i = 0 then Some (Plain ''timeout'') else None)"

abbreviation proc_run where
  "proc_run p fs \<equiv> Process p 0 minted proc_mail (proc_db_sample, fs)"

lemma proc_db_names: "unique_names (dd_domains (sd_domains (pd_smtp (fst (proc_db_sample, fs)))))"
  unfolding proc_db_sample_def by simp code_simp

definition kind_peer :: "reply \<Rightarrow> peer" where
  "kind_peer quit =
     \<lparr>pe_connect = None, pe_auth = Fine, pe_mail = (\<lambda>_. Fine), pe_rcpt = (\<lambda>_ _. Fine), pe_data = Fine, pe_write = Fine,
      pe_close = Fine, pe_quit = quit\<rparr>"

definition net_sample :: "(nat \<Rightarrow> peer) \<Rightarrow> network" where
  "net_sample peers =
     \<lparr>nw_show_code = (\<lambda>_. ''550''), nw_show = (\<lambda>_. ''n''), nw_peer = peers, nw_default_chain = (\<lambda>_. None),
      nw_ses = (\<lambda>_ _ _ _ _. None), nw_build = (\<lambda>m. Inr (ms_text m)), nw_sign = (\<lambda>k raw. Inr raw)\<rparr>"

definition on_net :: "network \<Rightarrow> processor" where
  "on_net n = proc_sample (\<lambda>i sp msg. fst (Deliver n (\<lambda>_. None) i sp msg))"

definition rejecting :: peer where
  "rejecting = (kind_peer Fine)\<lparr>pe_rcpt := (\<lambda>_ _. Reply 550 ''no such user'')\<rparr>"

text \<open>The sample attempts, evaluated together.\<close>

lemma sample_runs:
  "(let r = proc_run (proc_sample second_takes) [] in
    (o_kind (fst r), map (\<lambda>d. (dl_server_id d, ms_envelope_from (dl_message d), sp_guard_private (dl_spec d))) (pd_deliveries (fst (snd r))))) =
    (KindDone, [(''t1'', ''bounce@pool'', False), (''t2'', ''bounce@pool'', False)]) \<and>
   o_kind (fst (proc_run (proc_sample second_takes) [Some (Refused ''connection lost'')])) = KindFail \<and>
   map bo_recipient (su_bounces (pd_sup (fst (snd (proc_run (on_net (net_sample (\<lambda>_. rejecting))) []))))) = [''c@x''] \<and>
   (let n = net_sample (\<lambda>i. kind_peer (if i = 0 then Broken ''EOF'' else Fine)); r = proc_run (on_net n) [] in
    (o_server_id (fst r), map (\<lambda>d. (dl_server_id d, snd (Deliver n (\<lambda>_. None) (dl_index d) (dl_spec d) (dl_message d)))) (pd_deliveries (fst (snd r))))) =
    (''t2'', [(''t1'', Some ''hello''), (''t2'', Some ''hello'')])"
  by code_simp

lemma second_takes_run:
  "o_kind (fst (proc_run (proc_sample second_takes) [])) = KindDone"
  "map (\<lambda>d. (dl_server_id d, ms_envelope_from (dl_message d), sp_guard_private (dl_spec d)))
     (pd_deliveries (fst (snd (proc_run (proc_sample second_takes) [])))) =
     [(''t1'', ''bounce@pool'', False), (''t2'', ''bounce@pool'', False)]"
  using sample_runs unfolding Let_def by blast+


lemma offered_until_answered_witness:
  "\<exists>ds. pd_deliveries (fst (snd (proc_run (proc_sample second_takes) []))) = ds \<and> ds \<noteq> [] \<and>
     o_server_id (fst (proc_run (proc_sample second_takes) [])) = dl_server_id (last ds) \<and>
     (\<forall>d \<in> set (butlast ds). \<not> final (proc_sample second_takes) (answer_of (proc_sample second_takes) d))"
  using offered_until_answered [OF prod.collapse [symmetric] proc_db_names, of "proc_sample second_takes" 0 minted proc_mail "[]"]
    second_takes_run(1) by (auto simp: proc_db_sample_def)

lemma refusals_stay_with_recipients_witness:
  "confined (\<lambda>_. None) proc_mail True block_db
     (pd_sup (fst (snd (proc_run (on_net (net_sample (\<lambda>_. rejecting))) [])))) \<and>
   map bo_recipient (su_bounces (pd_sup (fst (snd (proc_run (on_net (net_sample (\<lambda>_. rejecting))) []))))) = [''c@x'']"
proof -
  let ?n = "net_sample (\<lambda>_. rejecting)"
  have "pr_dial (on_net ?n) = (\<lambda>i sp msg. fst (Deliver ?n (pr_parse (on_net ?n)) i sp msg))"
    by (simp add: on_net_def proc_sample_def)
  from refusals_stay_with_recipients [where now = 0 and ids = minted and e = proc_mail, OF prod.collapse [symmetric] proc_db_names this, of "[]"]
  have "confined (\<lambda>_. None) proc_mail True block_db (pd_sup (fst (snd (proc_run (on_net ?n) []))))"
    by (simp add: on_net_def proc_sample_def proc_db_sample_def)
  moreover have "map bo_recipient (su_bounces (pd_sup (fst (snd (proc_run (on_net ?n) []))))) = [''c@x'']" using sample_runs by blast
  ultimately show ?thesis by blast
qed

text \<open>
  A server that takes the message and breaks the connection before answering \<^verbatim>\<open>QUIT\<close> is treated as one
  that did not take it: the walk goes on, and the next server holds the message as well.
\<close>

lemma broken_quit_delivers_twice:
  "let n = net_sample (\<lambda>i. kind_peer (if i = 0 then Broken ''EOF'' else Fine));
       r = proc_run (on_net n) [] in
   o_server_id (fst r) = ''t2'' \<and>
   map (\<lambda>d. (dl_server_id d, snd (Deliver n (\<lambda>_. None) (dl_index d) (dl_spec d) (dl_message d)))) (pd_deliveries (fst (snd r))) =
     [(''t1'', Some ''hello''), (''t2'', Some ''hello'')]"
  using sample_runs unfolding Let_def by blast

text \<open>
  A database that fails while the sender is checked again fails the message for good, although the
  same attempt delivers it when the database answers.
\<close>

lemma sender_check_outage_fails_message:
  "o_kind (fst (proc_run (proc_sample second_takes) [Some (Refused ''connection lost'')])) = KindFail \<and>
   o_kind (fst (proc_run (proc_sample second_takes) [])) = KindDone"
  using sample_runs unfolding Let_def by blast

end
