(* ===== verification/Relay.thy ===== *)
theory Relay
  imports Assignments Delivery Suppressions Safetext
begin

text \<open>
  Mail carried by a relay node that fetches it (\<^verbatim>\<open>internal/domain/relaynode/pull.go\<close>, \<^verbatim>\<open>report.go\<close>): the
  node claims its assignments, its reports end the messages through the queue's \<open>Complete\<close> and feed
  the bounce intake, and a timer takes back what a silent node holds.  Go visits the messages of a
  report in an order it does not fix, which is the argument \<open>order\<close>; \<open>valid_id\<close> is the UUID parser.
\<close>

section \<open>Claiming\<close>

definition claimMaxBytes :: nat where "claimMaxBytes = 32 * 1024 * 1024"

record claimed_message =
  cm_id :: string
  cm_envelope_from :: string
  cm_recipients :: "string list"
  cm_raw :: string

definition claimed_view :: "assignment \<Rightarrow> claimed_message" where
  "claimed_view a = \<lparr>cm_id = as_email_id a, cm_envelope_from = as_envelope_from a,
     cm_recipients = as_recipients a, cm_raw = as_raw a\<rparr>"

text \<open>The batch: at least one message, then as many as fit.\<close>

fun batch_from :: "nat \<Rightarrow> assignment list \<Rightarrow> claimed_message list" where
  "batch_from n [] = []"
| "batch_from n (a # as) =
     (if claimMaxBytes < n + length (as_raw a) then []
      else claimed_view a # batch_from (n + length (as_raw a)) as)"

fun claim_batch :: "assignment list \<Rightarrow> claimed_message list" where
  "claim_batch [] = []"
| "claim_batch (a # as) = claimed_view a # batch_from (length (as_raw a)) as"

definition claim_limit :: "int \<Rightarrow> int \<Rightarrow> int" where
  "claim_limit configured asked = (if 0 < asked \<and> asked < configured then asked else configured)"

text \<open>One look of an approved node's claim, the holdings extended first.\<close>

definition Claim ::
    "string \<Rightarrow> int \<Rightarrow> time \<Rightarrow> time \<Rightarrow> int \<Rightarrow> string list \<Rightarrow> db \<Rightarrow> (error + claimed_message list) \<times> db" where
  "Claim nodeID claim_max ttl now asked holding d =
     (case ExtendAssignments nodeID holding (now + ttl) d of
        (Inl e, d) \<Rightarrow> (Inl e, d)
      | (Inr _, d) \<Rightarrow>
          (case ListAssigned nodeID (nat (claim_limit claim_max asked)) holding d of
             (Inl e, d) \<Rightarrow> (Inl e, d)
           | (Inr as, d) \<Rightarrow> (Inr (claim_batch as), d)))"

section \<open>Reporting\<close>

record report_outcome =
  ro_email_id :: string
  ro_recipient :: string
  ro_delivered :: bool
  ro_permanent :: bool
  ro_reason :: string

definition maxReasonLen :: nat where "maxReasonLen = 1000"

definition replacement :: string where "replacement = map char_of [239::nat, 191, 189]"

definition rune_text :: "string \<Rightarrow> string" where
  "rune_text r = (if rune_size r = 0 then replacement else r)"

definition clampReason :: "string \<Rightarrow> string" where
  "clampReason reason =
     (if length (runes reason) \<le> maxReasonLen then reason
      else concat (map rune_text (take maxReasonLen (runes reason))))"

definition usable :: "(string \<Rightarrow> bool) \<Rightarrow> report_outcome \<Rightarrow> bool" where
  "usable valid_id out = (ro_email_id out \<noteq> [] \<and> ro_recipient out \<noteq> [] \<and> valid_id (ro_email_id out))"

definition reported_ids :: "(string \<Rightarrow> bool) \<Rightarrow> report_outcome list \<Rightarrow> string list" where
  "reported_ids valid_id outs = remdups (map ro_email_id (filter (usable valid_id) outs))"

definition reported_of :: "(string \<Rightarrow> bool) \<Rightarrow> report_outcome list \<Rightarrow> string \<Rightarrow> report_outcome list" where
  "reported_of valid_id outs i = filter (\<lambda>out. usable valid_id out \<and> ro_email_id out = i) outs"

definition count_delivered :: "report_outcome list \<Rightarrow> int" where
  "count_delivered outs = int (length (filter ro_delivered outs))"

definition last_reason :: "report_outcome list \<Rightarrow> string" where
  "last_reason outs =
     foldl (\<lambda>r out. if \<not> ro_delivered out \<and> ro_reason out \<noteq> [] then clampReason (ro_reason out) else r) [] outs"

definition unreported :: "report_outcome list \<Rightarrow> string list \<Rightarrow> string list" where
  "unreported outs rcpts = filter (\<lambda>r. to_lower r \<notin> (to_lower \<circ> ro_recipient) ` set outs) rcpts"

definition report_outcome_for :: "assignment \<Rightarrow> report_outcome list \<Rightarrow> outcome" where
  "report_outcome_for a outs =
     (if as_delivered a + count_delivered outs = 0
      then Fail (if last_reason outs = [] then ''every recipient was refused by the destination'' else last_reason outs)
      else DoneVia (as_server_id a))"

text \<open>The part of a report about one message: the announcements, and whether it ended the message.\<close>

definition complete_one ::
    "worker_config \<Rightarrow> string set \<Rightarrow> (string \<Rightarrow> int list option) \<Rightarrow> time \<Rightarrow> time \<Rightarrow> nat \<Rightarrow> string \<Rightarrow>
     string \<Rightarrow> report_outcome list \<Rightarrow> db \<Rightarrow> (final list \<times> nat) \<times> db" where
  "complete_one cfg locked parse now ttl rnd nodeID i outs d =
     (case GetAssignment nodeID i d of
        (Inl _, d) \<Rightarrow> (([], 0), d)
      | (Inr None, d) \<Rightarrow> (([], 0), d)
      | (Inr (Some a), d) \<Rightarrow>
          if unreported outs (as_recipients a) \<noteq> []
          then (([], 0), snd (UpdateAssignment nodeID i (unreported outs (as_recipients a))
                                (as_delivered a + count_delivered outs) (now + ttl) d))
          else (case GetAny parse i d of
                  (Inl _, d) \<Rightarrow> (([], 0), d)
                | (Inr None, d) \<Rightarrow> (([], 0), d)
                | (Inr (Some row), d) \<Rightarrow>
                    (case DeleteAssignment nodeID i d of
                       (Inl _, d) \<Rightarrow> (([], 0), d)
                     | (Inr False, d) \<Rightarrow> (([], 0), d)
                     | (Inr True, d) \<Rightarrow>
                         (case Complete (store_source locked) cfg now rnd row (report_outcome_for a outs) d of
                            (fs, d) \<Rightarrow> ((fs, 1), d)))))"

fun complete_each ::
    "worker_config \<Rightarrow> string set \<Rightarrow> (string \<Rightarrow> int list option) \<Rightarrow> time \<Rightarrow> time \<Rightarrow> nat \<Rightarrow> string \<Rightarrow>
     (string \<Rightarrow> report_outcome list) \<Rightarrow> string list \<Rightarrow> db \<Rightarrow> (final list \<times> nat) \<times> db" where
  "complete_each cfg locked parse now ttl rnd nodeID outs_of [] d = (([], 0), d)"
| "complete_each cfg locked parse now ttl rnd nodeID outs_of (i # is) d =
     (case complete_one cfg locked parse now ttl rnd nodeID i (outs_of i) d of
        ((fs, n), d) \<Rightarrow>
          (case complete_each cfg locked parse now ttl rnd nodeID outs_of is d of
             ((gs, m), d) \<Rightarrow> ((gs @ fs, n + m), d)))"

definition completeAssigned ::
    "worker_config \<Rightarrow> string set \<Rightarrow> (string \<Rightarrow> int list option) \<Rightarrow> (string \<Rightarrow> bool) \<Rightarrow> (string list \<Rightarrow> string list) \<Rightarrow>
     time \<Rightarrow> time \<Rightarrow> nat \<Rightarrow> string \<Rightarrow> report_outcome list \<Rightarrow> db \<Rightarrow> (final list \<times> nat) \<times> db" where
  "completeAssigned cfg locked parse valid_id order now ttl rnd nodeID outs d =
     complete_each cfg locked parse now ttl rnd nodeID (reported_of valid_id outs) (order (reported_ids valid_id outs)) d"

text \<open>What a report tells the bounce intake: each refusal, a permanent one as a block.\<close>

definition reported_recipient_of :: "report_outcome \<Rightarrow> reported_recipient" where
  "reported_recipient_of out =
     \<lparr>rr_address = ro_recipient out, rr_type = (if ro_permanent out then TypeHard else TypeSoft),
      rr_suppress = ro_permanent out, rr_reason = ro_reason out\<rparr>"

definition maxReportOutcomes :: nat where "maxReportOutcomes = 500"

definition node_intake :: "string \<Rightarrow> intake" where
  "node_intake projID = \<lparr>in_suppressions = True,
     in_allow = (\<lambda>sent. projID \<noteq> [] \<longrightarrow> e_project_id sent = projID), in_sole = False\<rparr>"

fun record_reports ::
    "parser \<Rightarrow> (string \<Rightarrow> int list option) \<Rightarrow> intake \<Rightarrow> time \<Rightarrow> (nat \<Rightarrow> nat \<Rightarrow> string \<times> string) \<Rightarrow>
     (string \<Rightarrow> report_outcome list) \<Rightarrow> string list \<Rightarrow> db \<Rightarrow> su_world \<Rightarrow> nat \<times> su_world" where
  "record_reports parse idparse intake now ids refusals_of [] d w = (0, w)"
| "record_reports parse idparse intake now ids refusals_of (i # is) d w =
     (case Record parse (\<lambda>i. fst (GetAny idparse i d)) intake now (ids (length is))
             \<lparr>re_email_id = i, re_recipients = map reported_recipient_of (refusals_of i)\<rparr> w of
        (n, w) \<Rightarrow>
          (case record_reports parse idparse intake now ids refusals_of is (snd (GetAny idparse (trim_space i) d)) w of
             (m, w) \<Rightarrow> (n + m, w)))"

datatype report_answer = NotApproved | TooMany | Recorded nat

record node_identity =
  ni_id :: string
  ni_project_id :: string
  ni_pulls :: bool
  ni_approved :: bool

definition refusals_of :: "(string \<Rightarrow> bool) \<Rightarrow> report_outcome list \<Rightarrow> report_outcome list" where
  "refusals_of valid_id outs = filter (\<lambda>out. usable valid_id out \<and> \<not> ro_delivered out) outs"

definition Report ::
    "worker_config \<Rightarrow> string set \<Rightarrow> parser \<Rightarrow> (string \<Rightarrow> int list option) \<Rightarrow> (string \<Rightarrow> bool) \<Rightarrow> (string list \<Rightarrow> string list) \<Rightarrow>
     (nat \<Rightarrow> nat \<Rightarrow> string \<times> string) \<Rightarrow> time \<Rightarrow> time \<Rightarrow> nat \<Rightarrow> node_identity \<Rightarrow> report_outcome list \<Rightarrow>
     db \<Rightarrow> su_world \<Rightarrow> report_answer \<times> final list \<times> db \<times> su_world" where
  "Report cfg locked parse idparse valid_id order ids now ttl rnd node outs d w =
     (if \<not> ni_approved node then (NotApproved, [], d, w)
      else if maxReportOutcomes < length outs then (TooMany, [], d, w)
      else (case (if ni_pulls node
                  then completeAssigned cfg locked idparse valid_id order now ttl rnd (ni_id node) outs d
                  else (([], 0), d)) of
              ((fs, finished), d) \<Rightarrow>
                (case record_reports parse idparse (node_intake (ni_project_id node)) now ids
                        (reported_of valid_id (refusals_of valid_id outs))
                        (order (reported_ids valid_id (refusals_of valid_id outs))) d w of
                   (n, w) \<Rightarrow> (Recorded n, fs, d, w))))"

section \<open>Taking back\<close>

definition release_reason :: "string \<Rightarrow> error" where
  "release_reason nodeID = ''relay node '' @ nodeID @ '' stopped claiming the message''"

fun release_each :: "time \<Rightarrow> assignment list \<Rightarrow> nat \<Rightarrow> db \<Rightarrow> (nat \<times> error option) \<times> db" where
  "release_each now [] n d = ((n, None), d)"
| "release_each now (a # as) n d =
     (case DeleteAssignment (as_node_id a) (as_email_id a) d of
        (Inl e, d) \<Rightarrow> ((n, Some e), d)
      | (Inr False, d) \<Rightarrow> release_each now as n d
      | (Inr True, d) \<Rightarrow>
          (case RequeueHanded (as_email_id a) (as_email_created_at a) (as_created_at a) now
                  (release_reason (as_node_id a)) d of
             (Inl e, d) \<Rightarrow> ((n, Some e), d)
           | (Inr ok, d) \<Rightarrow> release_each now as (if ok then Suc n else n) d))"

definition ReleaseExpired :: "time \<Rightarrow> db \<Rightarrow> (nat \<times> error option) \<times> db" where
  "ReleaseExpired now d =
     (case ExpiredAssignments now 200 d of
        (Inl e, d) \<Rightarrow> ((0, Some e), d)
      | (Inr as, d) \<Rightarrow> release_each now as 0 d)"

end
