(* ===== verification/Handover.thy ===== *)
theory Handover
  imports Relay "HOL-Library.Multiset"
begin

text \<open>
  What a message handed to a relay node goes through: a report or a sweep is nothing the delivery
  system could not do, a report ends each message exactly as its recipients' outcomes say, and a
  claim hands out a bounded batch.
\<close>

section \<open>Every run is a run of the delivery system\<close>

text \<open>Claims lie in the past; that is kept by everything a report or a sweep does.\<close>

definition past_claims :: "sys \<Rightarrow> bool" where
  "past_claims s = (\<forall>e \<in> set (db_emails (sy_db s)). \<forall>t. e_claimed_at e = Some t \<longrightarrow> t < sy_now s)"

text \<open>Each row left is one of before, with its claim or without one.\<close>

definition disclaimed :: "db \<Rightarrow> db \<Rightarrow> bool" where
  "disclaimed d d' =
     (\<forall>e' \<in> set (db_emails d'). \<exists>e \<in> set (db_emails d). e_id e' = e_id e \<and>
        (e_claimed_at e' = e_claimed_at e \<or> e_claimed_at e' = None))"

lemma disclaimed_refl [simp]: "disclaimed d d"
  by (auto simp: disclaimed_def)

lemma disclaimed_same: "db_emails d' = db_emails d \<Longrightarrow> disclaimed d d'"
  by (auto simp: disclaimed_def)

lemma disclaimed_trans: "disclaimed a b \<Longrightarrow> disclaimed b c \<Longrightarrow> disclaimed a c"
  unfolding disclaimed_def by (metis)

lemma disclaimed_update:
  assumes "db_emails d' = sql_update p f (db_emails d)" and "\<And>e. e_id (f e) = e_id e \<and> e_claimed_at (f e) = None"
  shows "disclaimed d d'"
  using assms by (auto simp: disclaimed_def sql_update_def)

abbreviation after :: "sys \<Rightarrow> db \<Rightarrow> final list \<Rightarrow> sys" where
  "after s d fs \<equiv> s\<lparr>sy_db := d, sy_log := fs @ sy_log s\<rparr>"

lemma past_after:
  assumes "past_claims s" "disclaimed (sy_db s) d"
  shows "past_claims (after s d fs)"
  using assms by (fastforce simp: past_claims_def disclaimed_def)

lemma sys_db_id: "s\<lparr>sy_db := sy_db s\<rparr> = s" by simp

lemma quiet_steps:
  assumes "quiet (sy_db s) d"
  shows "(step cfg)\<^sup>*\<^sup>* s (s\<lparr>sy_db := d\<rparr>)"
proof -
  obtain as fs where d: "d = (sy_db s)\<lparr>db_assignments := as, db_faults := fs\<rparr>" using assms by (auto simp: quiet_def)
  have "step cfg s (s\<lparr>sy_db := (sy_db s)\<lparr>db_assignments := as\<rparr>\<rparr>)" by (rule step.assign)
  moreover have "step cfg (s\<lparr>sy_db := (sy_db s)\<lparr>db_assignments := as\<rparr>\<rparr>)
      (s\<lparr>sy_db := (sy_db s)\<lparr>db_assignments := as\<rparr>\<rparr>\<lparr>sy_db :=
         (sy_db (s\<lparr>sy_db := (sy_db s)\<lparr>db_assignments := as\<rparr>\<rparr>))\<lparr>db_faults := fs\<rparr>\<rparr>)" by (rule step.fail)
  ultimately show ?thesis by (simp add: d)
qed

lemma query_find:
  assumes "Query (\<lambda>d. find p (db_emails d)) d = (Inr (Some row), d')"
  shows "row \<in> set (db_emails d) \<and> p row"
  using assms unfolding Query_def by (cases rule: Exec_cases) (auto simp: find_Some_iff)

lemma find_get_row:
  assumes "GetAny parse i d = (Inr (Some row), d')"
  shows "row \<in> set (db_emails d) \<and> e_id row = i"
proof (cases "pruneByID parse i")
  case None
  then show ?thesis using assms query_find [of "\<lambda>e. e_id e = i"] by (simp add: GetAny_def lookup_row_def)
next
  case (Some w)
  obtain a b where w: "w = (a, b)" by (rule prod.exhaust)
  let ?p = "\<lambda>e. e_id e = i \<and> a \<le> e_created_at e \<and> e_created_at e < b"
  obtain r d1 where r: "Query (\<lambda>d. find ?p (db_emails d)) d = (r, d1)" by (rule prod.exhaust)
  from quiet_emails [OF quiet_query [OF r]] have "db_emails d1 = db_emails d" .
  moreover have "r = Inr (Some row) \<and> d1 = d' \<or> Query (\<lambda>d. find (\<lambda>e. e_id e = i) (db_emails d)) d1 = (Inr (Some row), d')"
    using assms r by (auto simp: GetAny_def lookup_row_def Some w split: sum.splits option.splits)
  ultimately show ?thesis using r query_find [of ?p d row d'] query_find [of "\<lambda>e. e_id e = i" d1 row d'] by auto
qed

lemma settle_disclaims:
  assumes "settle (store_source locked) row st msg via sent fin d = (fs, d')"
  shows "disclaimed d d'"
proof -
  have "snd (Finalize (e_id row) (e_created_at row) (e_claimed_at row) st msg via sent d) = d'"
    using assms by (auto simp: settle_def Let_def split: prod.splits)
  then obtain r where "Finalize (e_id row) (e_created_at row) (e_claimed_at row) st msg via sent d = (r, d')"
    by (metis prod.collapse)
  then obtain r0 where "Exec (update_emails (held_under (e_id row) (e_created_at row) (e_claimed_at row))
      (finalize_row st msg via sent)) d = (r0, d')" using rows_affected_db by (fastforce simp: Finalize_def)
  from exec_update_emails [OF this] show ?thesis
    by (auto intro: disclaimed_same disclaimed_update [where f = "finalize_row st msg via sent"] simp: finalize_row_def)
qed

lemma complete_disclaims:
  assumes "Complete (store_source locked) cfg now rnd row (report_outcome_for a outs) d = (fs, d')"
  shows "disclaimed d d'"
  using assms by (auto simp: Complete_def finish_def report_outcome_for_def outcome_defs Let_def
      split: if_splits intro: settle_disclaims)

text \<open>Without a claim there is nothing an outcome could end.\<close>

lemma complete_unclaimed:
  assumes "Complete (store_source locked) cfg now rnd row (report_outcome_for a outs) d = (fs, d')"
    and "e_claimed_at row = None"
  shows "fs = [] \<and> quiet d d'"
proof -
  have "settle (store_source locked) row st msg via sent fin d = (fs, d') \<Longrightarrow> fs = [] \<and> quiet d d'" for st msg via sent fin
  proof -
    assume s: "settle (store_source locked) row st msg via sent fin d = (fs, d')"
    let ?p = "held_under (e_id row) (e_created_at row) None"
    have none: "sql_update ?p f es = es" "sql_count ?p es = 0" for f es
      by (induction es) (auto simp: sql_update_def sql_count_def held_under_def)
    obtain r where f: "Finalize (e_id row) (e_created_at row) None st msg via sent d = (r, d')" "fs = (if write_ok r then fin else [])"
      using s assms(2) by (auto simp: settle_def Let_def split: prod.splits)
    obtain r0 where ex: "Exec (update_emails ?p (finalize_row st msg via sent)) d = (r0, d')" "rows_affected (r0, d') = (r, d')"
      using f(1) rows_affected_db by (fastforce simp: Finalize_def)
    have "quiet d d'" by (rule quiet_exec [OF ex(1)]) (simp add: update_emails_def none)
    moreover have "\<not> write_ok r"
      using ex(1) by (cases rule: Exec_cases) (use ex(2) in \<open>auto simp: rows_affected_def write_ok_def update_emails_def none\<close>)
    ultimately show "fs = [] \<and> quiet d d'" using f(2) by simp
  qed
  then show ?thesis
    using assms(1) by (auto simp: Complete_def finish_def report_outcome_for_def outcome_defs Let_def split: if_splits)
qed

lemma complete_steps:
  assumes "past_claims s" and "row \<in> set (db_emails (sy_db s))"
    and "Complete (store_source locked) cfg (sy_now s) rnd row (report_outcome_for a outs) (sy_db s) = (fs, d)"
  shows "(step cfg)\<^sup>*\<^sup>* s (after s d fs)"
proof (cases "e_claimed_at row")
  case None
  with complete_unclaimed [OF assms(3)] have "fs = []" "quiet (sy_db s) d" by simp_all
  then show ?thesis using quiet_steps [of s d] by simp
next
  case (Some t)
  let ?r = "s\<lparr>sy_read := row # sy_read s\<rparr>"
  have "t < sy_now s" using assms(1,2) Some by (simp add: past_claims_def)
  then have "step cfg ?r (after ?r d fs)"
    using assms(3) Some by (intro step.complete [where row = row and t = t]) simp_all
  then have "(step cfg)\<^sup>*\<^sup>* s (after ?r d fs)"
    using step.read_row [OF assms(2)] by (meson converse_rtranclp_into_rtranclp r_into_rtranclp)
  moreover have "step cfg (after ?r d fs) ((after ?r d fs)\<lparr>sy_read := sy_read s\<rparr>)"
    by (rule step.forget) auto
  ultimately have "(step cfg)\<^sup>*\<^sup>* s ((after ?r d fs)\<lparr>sy_read := sy_read s\<rparr>)"
    by (rule rtranclp.rtrancl_into_rtrancl)
  then show ?thesis by simp
qed

text \<open>What one part of a report or of a sweep does to the system.\<close>

definition system_run :: "worker_config \<Rightarrow> sys \<Rightarrow> db \<Rightarrow> final list \<Rightarrow> bool" where
  "system_run cfg s d fs =
     ((step cfg)\<^sup>*\<^sup>* s (after s d fs) \<and> disclaimed (sy_db s) d)"

lemma system_run_quiet: "quiet (sy_db s) d \<Longrightarrow> system_run cfg s d []"
  using quiet_steps [of s d cfg] disclaimed_same [OF quiet_emails, of "sy_db s" d] by (simp add: system_run_def)

lemma system_run_trans:
  assumes "system_run cfg s d fs" and "system_run cfg (after s d fs) d' gs"
  shows "system_run cfg s d' (gs @ fs)"
  using assms disclaimed_trans [of "sy_db s" d d'] by (auto simp: system_run_def)

lemma system_run_after_quiet:
  assumes "quiet (sy_db s) d" and "system_run cfg (s\<lparr>sy_db := d\<rparr>) d' fs"
  shows "system_run cfg s d' fs"
  using system_run_trans [OF system_run_quiet [OF assms(1)], of cfg d' fs] assms(2) by simp

lemma past_quiet: "past_claims s \<Longrightarrow> quiet (sy_db s) d \<Longrightarrow> past_claims (s\<lparr>sy_db := d\<rparr>)"
  using past_after [of s d "[]"] disclaimed_same [OF quiet_emails, of "sy_db s" d] by simp

lemma complete_one_cases:
  assumes "complete_one cfg locked parse now ttl rnd nodeID i outs d = ((fs, n), d')"
  obtains (kept) "fs = []" "n = 0" "quiet d d'"
    | (ended) a row d3 where "a \<in> set (db_assignments d)" "held_by nodeID i a" "unreported outs (as_recipients a) = []"
        "quiet d d3" "row \<in> set (db_emails d3)" "e_id row = i" "n = 1"
        "Complete (store_source locked) cfg now rnd row (report_outcome_for a outs) d3 = (fs, d')"
proof -
  obtain r d1 where get: "GetAssignment nodeID i d = (r, d1)" by (rule prod.exhaust)
  note q1 = quiet_statements(2) [OF get]
  obtain r2 d2 where row: "GetAny parse i d1 = (r2, d2)" by (rule prod.exhaust)
  note q2 = quiet_trans [OF q1 quiet_get [OF row]]
  obtain r3 d3 where del: "DeleteAssignment nodeID i d2 = (r3, d3)" by (rule prod.exhaust)
  note q3 = quiet_trans [OF q2 quiet_drop [OF del]]
  note split = assms [unfolded complete_one_def get, simplified]
  show thesis
  proof (cases "\<exists>a. r = Inr (Some a)")
    case False
    then have "r = Inr None \<or> isl r" by (metis option.exhaust sum.exhaust_disc sum.collapse(2))
    then show thesis using split kept q1 by (auto simp: isl_def)
  next
    case True
    then obtain a where a: "r = Inr (Some a)" by blast
    have held: "a \<in> set (db_assignments d) \<and> held_by nodeID i a"
      using get a unfolding GetAssignment_def Query_def
      by (cases rule: Exec_cases) (auto simp: find_Some_iff pop_fault_eq)
    show thesis
    proof (cases "unreported outs (as_recipients a) = []")
      case False
      obtain r4 d4 where upd: "UpdateAssignment nodeID i (unreported outs (as_recipients a))
          (as_delivered a + count_delivered outs) (now + ttl) d1 = (r4, d4)" by (rule prod.exhaust)
      have "fs = []" "n = 0" "d' = d4" using split a False upd by simp_all
      then show thesis using kept quiet_trans [OF q1 quiet_statements(4) [OF upd]] by blast
    next
      case True
      show thesis
      proof (cases "\<exists>e. r2 = Inr (Some e)")
        case False
        then have "r2 = Inr None \<or> isl r2" by (metis option.exhaust sum.exhaust_disc sum.collapse(2))
        then show thesis using split a True row kept q2 by (auto simp: isl_def)
      next
        case e: True
        then obtain e where e: "r2 = Inr (Some e)" by blast
        show thesis
        proof (cases "r3 = Inr True")
          case False
          then have "r3 = Inr False \<or> isl r3" by (cases r3) auto
          then show thesis using split a True row e del kept q3 by (auto simp: isl_def)
        next
          case gone: True
          have mem: "e \<in> set (db_emails d3)" "e_id e = i"
            using find_get_row [of parse i d1 e d2] row e quiet_emails [OF q1] quiet_emails [OF q3] by auto
          obtain gs d4 where c: "Complete (store_source locked) cfg now rnd e (report_outcome_for a outs) d3 = (gs, d4)"
            by (rule prod.exhaust)
          have "gs = fs" "d4 = d'" "n = 1" using split a True row e del gone c by simp_all
          then show thesis using ended [of a d3 e] held True q3 mem c by blast
        qed
      qed
    qed
  qed
qed

lemma complete_one_run:
  assumes "past_claims s"
    and "complete_one cfg locked parse (sy_now s) ttl rnd nodeID i outs (sy_db s) = ((fs, n), d)"
  shows "system_run cfg s d fs"
  using assms(2)
proof (cases rule: complete_one_cases)
  case kept
  then show ?thesis using system_run_quiet by blast
next
  case (ended a row d3)
  then have "(step cfg)\<^sup>*\<^sup>* (s\<lparr>sy_db := d3\<rparr>) (after (s\<lparr>sy_db := d3\<rparr>) d fs)"
    by (intro complete_steps [OF past_quiet [OF assms(1) ended(4)], where row = row and a = a and outs = outs]) simp_all
  then have "system_run cfg (s\<lparr>sy_db := d3\<rparr>) d fs"
    using complete_disclaims [OF ended(8)] by (simp add: system_run_def)
  then show ?thesis by (rule system_run_after_quiet [OF ended(4)])
qed

lemma complete_each_run:
  assumes "past_claims s"
    and "complete_each cfg locked parse (sy_now s) ttl rnd nodeID outs_of is (sy_db s) = ((fs, n), d)"
  shows "system_run cfg s d fs"
  using assms
proof (induction "is" arbitrary: s fs n)
  case Nil
  then show ?case by (auto intro: system_run_quiet)
next
  case (Cons i js)
  obtain fs1 n1 d1 where one: "complete_one cfg locked parse (sy_now s) ttl rnd nodeID i (outs_of i) (sy_db s) = ((fs1, n1), d1)"
    by (metis prod.exhaust)
  obtain gs m where rest: "complete_each cfg locked parse (sy_now s) ttl rnd nodeID outs_of js d1 = ((gs, m), d)" and fs: "fs = gs @ fs1"
    using Cons.prems(2) one by (auto split: prod.splits)
  have r1: "system_run cfg s d1 fs1"
    by (rule complete_one_run [OF Cons.prems(1) one])
  have "system_run cfg (after s d1 fs1) d gs"
  proof (rule Cons.IH)
    show "past_claims (after s d1 fs1)" using past_after [OF Cons.prems(1)] r1 by (simp add: system_run_def)
    show "complete_each cfg locked parse (sy_now (after s d1 fs1)) ttl rnd nodeID outs_of js (sy_db (after s d1 fs1)) = ((gs, m), d)"
      using rest by simp
  qed
  with r1 fs show ?case using system_run_trans by blast
qed

section \<open>Taking back\<close>

lemma requeue_handed_run:
  assumes "handed < sy_now s" and "RequeueHanded i c handed (sy_now s) msg (sy_db s) = (r, d)"
  shows "system_run cfg s d []"
proof -
  from step.handed_back [OF assms] have "step cfg s (s\<lparr>sy_db := d\<rparr>)" .
  moreover obtain r0 where "Exec (update_emails (handed_before i c handed) (requeue_row (sy_now s) msg)) (sy_db s) = (r0, d)"
    using assms(2) rows_affected_db by (fastforce simp: RequeueHanded_def)
  then have "disclaimed (sy_db s) d" using exec_update_emails
    by (fastforce intro: disclaimed_same disclaimed_update [where f = "requeue_row (sy_now s) msg"] simp: requeue_row_def)
  ultimately show ?thesis by (simp add: system_run_def r_into_rtranclp)
qed

lemma release_each_run:
  assumes "\<forall>a \<in> set as. as_created_at a < sy_now s"
    and "release_each (sy_now s) as n (sy_db s) = (x, d)"
  shows "system_run cfg s d []"
  using assms
proof (induction as arbitrary: s n)
  case Nil
  then show ?case by (auto intro: system_run_quiet)
next
  case (Cons a as)
  obtain r d1 where del: "DeleteAssignment (as_node_id a) (as_email_id a) (sy_db s) = (r, d1)" by (rule prod.exhaust)
  note q = quiet_drop [OF del]
  obtain r2 d2 where rq: "RequeueHanded (as_email_id a) (as_email_created_at a) (as_created_at a) (sy_now s)
      (release_reason (as_node_id a)) d1 = (r2, d2)" by (rule prod.exhaust)
  have run2: "system_run cfg (s\<lparr>sy_db := d1\<rparr>) d2 []"
    using rq Cons.prems(1) by (intro requeue_handed_run [where handed = "as_created_at a" and i = "as_email_id a"]) simp_all
  note run = system_run_after_quiet [OF q run2]
  have on: "system_run cfg (s\<lparr>sy_db := d1\<rparr>) d []" if "release_each (sy_now s) as m d1 = (x, d)" for m
    using Cons.IH [of "s\<lparr>sy_db := d1\<rparr>"] Cons.prems(1) that by simp
  have on2: "system_run cfg (s\<lparr>sy_db := d2\<rparr>) d []" if "release_each (sy_now s) as m d2 = (x, d)" for m
    using Cons.IH [of "s\<lparr>sy_db := d2\<rparr>"] Cons.prems(1) that by simp
  consider (stop) "d = d1" | (skip) m where "release_each (sy_now s) as m d1 = (x, d)" | (halt) "d = d2"
    | (go) m where "release_each (sy_now s) as m d2 = (x, d)"
    using Cons.prems(2) del rq by (auto split: sum.splits bool.splits)
  then show ?case
  proof cases
    case stop then show ?thesis using system_run_quiet q by blast
  next
    case skip then show ?thesis using system_run_after_quiet [OF q on] by blast
  next
    case halt then show ?thesis using run by simp
  next
    case go
    then show ?thesis using system_run_trans [OF run, of d "[]"] on2 by simp
  qed
qed

section \<open>A report without faults\<close>

definition end_row :: "worker_config \<Rightarrow> time \<Rightarrow> outcome \<Rightarrow> email \<Rightarrow> email" where
  "end_row cfg now out e =
     (if o_kind out = KindDone then finalize_row StatusSent (err_text out) (o_server_id out) (Some now) e
      else finalize_row StatusFailed (err_text out) [] None e)"

definition end_final :: "time \<Rightarrow> outcome \<Rightarrow> email \<Rightarrow> final" where
  "end_final now out e =
     (if o_kind out = KindDone
      then \<lparr>f_job = e\<lparr>e_sent_at := Some now\<rparr>, f_status = StatusSent, f_error = err_text out, f_refused = o_refused out\<rparr>
      else \<lparr>f_job = e, f_status = StatusFailed, f_error = err_text out, f_refused = []\<rparr>)"

lemma report_kind: "o_kind (report_outcome_for a outs) \<in> {KindDone, KindFail}"
  by (simp add: report_outcome_for_def outcome_defs)

definition claim_of :: "email \<Rightarrow> email \<Rightarrow> bool" where
  "claim_of row = held_under (e_id row) (e_created_at row) (e_claimed_at row)"

lemma settle_calm:
  assumes "db_faults d = []"
  shows "settle (store_source locked) row st msg via sent fin d =
     (if list_ex (claim_of row) (db_emails d) then fin else [],
      d\<lparr>db_emails := sql_update (claim_of row) (finalize_row st msg via sent) (db_emails d)\<rparr>)"
proof -
  have "Finalize (e_id row) (e_created_at row) (e_claimed_at row) st msg via sent d =
      (Inr (0 < sql_count (claim_of row) (db_emails d)),
       d\<lparr>db_emails := sql_update (claim_of row) (finalize_row st msg via sent) (db_emails d)\<rparr>)"
    using assms by (simp add: Finalize_def Exec_no_fault rows_affected_def update_emails_def claim_of_def [symmetric])
  moreover have "0 < sql_count (claim_of row) es \<longleftrightarrow> list_ex (claim_of row) es" for es
    by (induction es) (auto simp: sql_count_def)
  ultimately show ?thesis by (simp add: settle_def write_ok_def)
qed

lemma complete_calm:
  assumes "db_faults d = []" and "o_kind out \<in> {KindDone, KindFail}"
  shows "Complete (store_source locked) cfg now rnd row out d =
     (if list_ex (claim_of row) (db_emails d) then [end_final now out row] else [],
      d\<lparr>db_emails := sql_update (claim_of row) (end_row cfg now out) (db_emails d)\<rparr>)"
proof -
  have "end_row cfg now out = (if o_kind out = KindDone then finalize_row StatusSent (err_text out) (o_server_id out) (Some now)
      else finalize_row StatusFailed (err_text out) [] None)" by (rule ext) (simp add: end_row_def)
  then show ?thesis
    using assms by (auto simp: Complete_def finish_def settle_calm end_final_def notify_def notifyRefused_def Let_def)
qed

definition narrow_row :: "time \<Rightarrow> report_outcome list \<Rightarrow> assignment \<Rightarrow> assignment \<Rightarrow> assignment" where
  "narrow_row expires outs a b =
     b\<lparr>as_recipients := unreported outs (as_recipients a), as_delivered := as_delivered a + count_delivered outs,
       as_expires_at := expires\<rparr>"

lemma complete_one_calm:
  assumes "db_faults d = []" and "ids_ok d"
  shows "complete_one cfg locked parse now ttl rnd nodeID i outs d =
    (case find (held_by nodeID i) (db_assignments d) of
       None \<Rightarrow> (([], 0), d)
     | Some a \<Rightarrow>
         if unreported outs (as_recipients a) \<noteq> []
         then (([], 0), d\<lparr>db_assignments := sql_update (held_by nodeID i) (narrow_row (now + ttl) outs a) (db_assignments d)\<rparr>)
         else (case find (\<lambda>e. e_id e = i) (db_emails d) of
                 None \<Rightarrow> (([], 0), d)
               | Some row \<Rightarrow>
                   ((if list_ex (claim_of row) (db_emails d) then [end_final now (report_outcome_for a outs) row] else [], 1),
                    d\<lparr>db_assignments := sql_delete (held_by nodeID i) (db_assignments d),
                      db_emails := sql_update (claim_of row) (end_row cfg now (report_outcome_for a outs)) (db_emails d)\<rparr>)))"
proof -
  have get: "GetAssignment nodeID i d = (Inr (find (held_by nodeID i) (db_assignments d)), d)"
    using assms(1) by (simp add: GetAssignment_def Query_no_fault)
  have row: "GetAny parse i d = (Inr (find (\<lambda>e. e_id e = i) (db_emails d)), d)"
    using lookup_row_whole [OF assms, of "\<lambda>e. e_id e = i" i] by (simp add: GetAny_def)
  show ?thesis
  proof (cases "find (held_by nodeID i) (db_assignments d)")
    case None
    then show ?thesis by (simp add: complete_one_def get)
  next
    case (Some a)
    then have "0 < sql_count (held_by nodeID i) (db_assignments d)"
      by (auto simp: find_Some_iff sql_count_pos)
    then have del: "DeleteAssignment nodeID i d = (Inr True, d\<lparr>db_assignments := sql_delete (held_by nodeID i) (db_assignments d)\<rparr>)"
      using assms(1) by (simp add: DeleteAssignment_def Exec_no_fault rows_affected_def)
    have upd: "UpdateAssignment nodeID i (unreported outs (as_recipients a)) (as_delivered a + count_delivered outs) (now + ttl) d =
        (Inr (), d\<lparr>db_assignments := sql_update (held_by nodeID i) (narrow_row (now + ttl) outs a) (db_assignments d)\<rparr>)"
      using assms(1) by (simp add: UpdateAssignment_def Exec_no_fault change_assignments_def narrow_row_def [abs_def])
    show ?thesis
      using Some assms(1)
      by (cases "find (\<lambda>e. e_id e = i) (db_emails d)")
        (simp_all add: complete_one_def get row del upd complete_calm [OF _ report_kind] del: o_apply)
  qed
qed

text \<open>
  What a report means for one message, given its assignment to the reporting node and its row: the
  announcements, and both afterwards.
\<close>

definition part_of :: "string \<Rightarrow> string \<Rightarrow> db \<Rightarrow> assignment option \<times> email option" where
  "part_of nodeID i d = (find (held_by nodeID i) (db_assignments d), find (\<lambda>e. e_id e = i) (db_emails d))"

definition in_delivery :: "email \<Rightarrow> bool" where
  "in_delivery e = (e_status e = StatusProcessing \<and> e_claimed_at e \<noteq> None)"

fun report_message ::
    "worker_config \<Rightarrow> time \<Rightarrow> time \<Rightarrow> report_outcome list \<Rightarrow> assignment option \<times> email option \<Rightarrow>
     final list \<times> assignment option \<times> email option" where
  "report_message cfg now ttl outs (None, row) = ([], None, row)"
| "report_message cfg now ttl outs (Some a, row) =
     (if unreported outs (as_recipients a) \<noteq> [] then ([], Some (narrow_row (now + ttl) outs a a), row)
      else (case row of
              None \<Rightarrow> ([], Some a, None)
            | Some e \<Rightarrow>
                if in_delivery e
                then ([end_final now (report_outcome_for a outs) e], None, Some (end_row cfg now (report_outcome_for a outs) e))
                else ([], None, Some e)))"

lemma find_update_other:
  assumes "\<And>x. q x \<Longrightarrow> \<not> p x" and "\<And>x. q x \<Longrightarrow> \<not> p (f x)"
  shows "find p (sql_update q f xs) = find p xs"
  using assms by (induction xs) (auto simp: sql_update_def)

lemma find_update_same:
  assumes "\<And>x. p (f x) = p x"
  shows "find p (sql_update p f xs) = map_option f (find p xs)"
  using assms by (induction xs) (auto simp: sql_update_def)

lemma find_delete_other:
  assumes "\<And>x. q x \<Longrightarrow> \<not> p x"
  shows "find p (sql_delete q xs) = find p xs"
  using assms by (induction xs) (auto simp: sql_delete_def)

lemma find_delete_same: "find p (sql_delete p xs) = None"
  by (induction xs) (auto simp: sql_delete_def)

lemma end_row_id [simp]: "e_id (end_row cfg now out e) = e_id e"
  by (simp add: end_row_def finalize_row_def)

lemma end_final_id [simp]: "e_id (f_job (end_final now out e)) = e_id e"
  by (simp add: end_final_def)

lemma ids_ok_assignments [simp]: "ids_ok (d\<lparr>db_assignments := as\<rparr>) = ids_ok d"
  by (simp add: ids_ok_def)

lemma ids_ok_end [simp]:
  "ids_ok (d\<lparr>db_assignments := as, db_emails := sql_update p (end_row cfg now out) (db_emails d)\<rparr>) = ids_ok d"
  by (simp add: ids_ok_def map_sql_update)

lemma claim_live:
  assumes "ids_ok d" and "find (\<lambda>e. e_id e = i) (db_emails d) = Some e"
  shows "list_ex (claim_of e) (db_emails d) = in_delivery e"
    and "find (\<lambda>e. e_id e = i) (sql_update (claim_of e) (end_row cfg now out) (db_emails d)) =
         Some (if in_delivery e then end_row cfg now out e else e)"
proof -
  have e: "e \<in> set (db_emails d)" "e_id e = i" using assms(2) by (auto simp: find_Some_iff)
  have only: "x = e" if "x \<in> set (db_emails d)" "claim_of e x" for x
    using that e assms(1) by (auto simp: ids_ok_def distinct_map claim_of_def held_under_def inj_on_def)
  have self: "claim_of e e = in_delivery e" by (auto simp: claim_of_def held_under_def in_delivery_def)
  then show "list_ex (claim_of e) (db_emails d) = in_delivery e" using only e by (auto simp: list_ex_iff)
  let ?f = "\<lambda>x. if claim_of e x then end_row cfg now out x else x"
  have "find (\<lambda>e. e_id e = i) (map ?f xs) = map_option ?f (find (\<lambda>e. e_id e = i) xs)" for xs
    by (induction xs) auto
  then show "find (\<lambda>e. e_id e = i) (sql_update (claim_of e) (end_row cfg now out) (db_emails d)) =
      Some (if in_delivery e then end_row cfg now out e else e)"
    using assms(2) self by (simp add: sql_update_def)
qed

lemma complete_one_part:
  assumes "db_faults d = []" and "ids_ok d"
    and "complete_one cfg locked parse now ttl rnd nodeID j outs d = ((fs, n), d')"
  shows "db_faults d' = [] \<and> ids_ok d' \<and> (\<forall>f \<in> set fs. e_id (f_job f) = j) \<and>
    (if i = j then (fs, part_of nodeID j d') = report_message cfg now ttl outs (part_of nodeID j d)
     else part_of nodeID i d' = part_of nodeID i d)"
proof -
  have as: "j \<noteq> i \<Longrightarrow> find (held_by nodeID i) (sql_update (held_by nodeID j) (narrow_row t outs a) as) = find (held_by nodeID i) as"
    "j \<noteq> i \<Longrightarrow> find (held_by nodeID i) (sql_delete (held_by nodeID j) as) = find (held_by nodeID i) as" for t a as
    by (auto simp: held_by_def narrow_row_def intro!: find_update_other find_delete_other)
  have same: "find (held_by nodeID j) (sql_update (held_by nodeID j) (narrow_row t outs a) as) =
      map_option (narrow_row t outs a) (find (held_by nodeID j) as)" for t a as
    by (rule find_update_same) (simp add: held_by_def narrow_row_def)
  have es: "find (\<lambda>e. e_id e = i) (sql_update (claim_of row) (end_row cfg now out) es) = find (\<lambda>e. e_id e = i) es"
    if "e_id row = j" "j \<noteq> i" for row out es
    using that by (intro find_update_other) (auto simp: claim_of_def held_under_def)
  show ?thesis
  proof (cases "find (held_by nodeID j) (db_assignments d)")
    case None
    then show ?thesis using assms by (auto simp: complete_one_calm part_of_def)
  next
    case (Some a)
    show ?thesis
    proof (cases "find (\<lambda>e. e_id e = j) (db_emails d)")
      case None
      then show ?thesis using assms Some as same by (auto simp: complete_one_calm part_of_def split: if_splits)
    next
      case row: (Some row)
      then have "e_id row = j" by (auto simp: find_Some_iff)
      then show ?thesis
        using assms(1,3) Some row as same es claim_live [OF assms(2) row]
        by (auto simp: complete_one_calm [OF assms(1,2)] part_of_def find_delete_same assms(2) split: if_splits)
    qed
  qed
qed

lemma complete_each_part:
  assumes "db_faults d = []" and "ids_ok d" and "distinct is"
    and "complete_each cfg locked parse now ttl rnd nodeID outs_of is d = ((fs, n), d')"
  shows "([f \<leftarrow> fs. e_id (f_job f) = i], part_of nodeID i d') =
    (if i \<in> set is then report_message cfg now ttl (outs_of i) (part_of nodeID i d) else ([], part_of nodeID i d))"
  using assms
proof (induction "is" arbitrary: d fs n)
  case (Cons j js)
  obtain fs1 n1 d1 where one: "complete_one cfg locked parse now ttl rnd nodeID j (outs_of j) d = ((fs1, n1), d1)"
    by (metis prod.exhaust)
  obtain gs m where rest: "complete_each cfg locked parse now ttl rnd nodeID outs_of js d1 = ((gs, m), d')" and fs: "fs = gs @ fs1"
    using Cons.prems(4) one by (auto split: prod.splits)
  note run = complete_one_part [OF Cons.prems(1,2) one, of i]
  have js: "distinct js" "j \<notin> set js" using Cons.prems(3) by auto
  have ih: "([f \<leftarrow> gs. e_id (f_job f) = i], part_of nodeID i d') =
    (if i \<in> set js then report_message cfg now ttl (outs_of i) (part_of nodeID i d1) else ([], part_of nodeID i d1))"
    using Cons.IH [OF _ _ js(1) rest] run by simp
  show ?case
  proof (cases "i = j")
    case True
    with run have "[f \<leftarrow> fs1. e_id (f_job f) = i] = fs1" by (auto simp: filter_id_conv)
    then show ?thesis using True ih run js fs by auto
  next
    case False
    with run have "[f \<leftarrow> fs1. e_id (f_job f) = i] = []" by (auto simp: filter_empty_conv)
    then show ?thesis using False ih run fs by auto
  qed
qed simp

section \<open>Properties\<close>

text \<open>
  C1: Reports and sweeps refine the delivery system.  Where the claims of the rows and the creation
  of the expired assignments lie in the past, everything a node's report or a sweep does, in whatever
  order the messages are visited, whoever claimed them meanwhile and whichever statements fail, is a
  sequence of steps of the delivery system, with the announcements it logs; so what holds of every
  reachable state holds with relay nodes too.
\<close>
theorem relay_refines_delivery:
  assumes "past_claims s"
    and "\<forall>a \<in> set (db_assignments (sy_db s)). as_expires_at a \<le> sy_now s \<longrightarrow> as_created_at a < sy_now s"
    and "completeAssigned cfg locked parse valid_id order (sy_now s) ttl rnd nodeID outs (sy_db s) = ((fs, n), d)"
    and "ReleaseExpired (sy_now s) (sy_db s) = (x, d')"
  shows "(step cfg)\<^sup>*\<^sup>* s (s\<lparr>sy_db := d, sy_log := fs @ sy_log s\<rparr>) \<and> (step cfg)\<^sup>*\<^sup>* s (s\<lparr>sy_db := d'\<rparr>)"
proof
  show "(step cfg)\<^sup>*\<^sup>* s (s\<lparr>sy_db := d, sy_log := fs @ sy_log s\<rparr>)"
    using complete_each_run [OF assms(1) assms(3) [unfolded completeAssigned_def]] by (simp add: system_run_def)
next
  obtain r d1 where list: "ExpiredAssignments (sy_now s) 200 (sy_db s) = (r, d1)" by (rule prod.exhaust)
  note q = quiet_statements(3) [OF list]
  have "system_run cfg s d' []"
  proof (cases r)
    case (Inl e)
    then show ?thesis using assms(4) list system_run_quiet [OF q] by (simp add: ReleaseExpired_def)
  next
    case (Inr as)
    have "set as \<subseteq> {a \<in> set (db_assignments (sy_db s)). as_expires_at a \<le> sy_now s}"
      using list Inr unfolding ExpiredAssignments_def Query_def
      by (cases rule: Exec_cases) (auto simp: by_expiry_def pop_fault_eq dest!: in_set_takeD)
    then have "\<forall>a \<in> set as. as_created_at a < sy_now (s\<lparr>sy_db := d1\<rparr>)" using assms(2) by auto
    moreover have "release_each (sy_now (s\<lparr>sy_db := d1\<rparr>)) as 0 (sy_db (s\<lparr>sy_db := d1\<rparr>)) = (x, d')"
      using assms(4) list Inr by (simp add: ReleaseExpired_def)
    ultimately show ?thesis
      using release_each_run system_run_after_quiet [OF q] by blast
  qed
  then show "(step cfg)\<^sup>*\<^sup>* s (s\<lparr>sy_db := d'\<rparr>)" by (simp add: system_run_def)
qed

text \<open>
  What a report about one message has to lead to, said without the code's own helpers: \<open>about\<close> are the
  outcomes it names for the message, \<open>a\<close> and \<open>e\<close> the assignment and the row before, \<open>fs\<close>, \<open>a'\<close> and \<open>e'\<close> the
  announcements, the assignment and the row after.
\<close>

definition apart_from_outcome :: "email \<Rightarrow> email \<Rightarrow> bool" where
  "apart_from_outcome e e' =
     (e'\<lparr>e_status := e_status e, e_error_message := e_error_message e, e_sent_at := e_sent_at e,
         e_delivered_via := e_delivered_via e, e_html_body := e_html_body e, e_text_body := e_text_body e,
         e_claimed_at := e_claimed_at e, e_next_attempt_at := e_next_attempt_at e\<rparr> = e)"

definition settled_by_report ::
    "time \<Rightarrow> time \<Rightarrow> report_outcome list \<Rightarrow> assignment \<Rightarrow> email \<Rightarrow> final list \<Rightarrow> assignment option \<Rightarrow> email \<Rightarrow> bool" where
  "settled_by_report now ttl about a e fs a' e' =
     (let missing = [r \<leftarrow> as_recipients a. \<forall>out \<in> set about. to_lower (ro_recipient out) \<noteq> to_lower r];
          delivered = [out \<leftarrow> about. ro_delivered out];
          reasons = [x \<leftarrow> map ro_reason [out \<leftarrow> about. \<not> ro_delivered out]. x \<noteq> []];
          reason = (if reasons = [] then ''every recipient was refused by the destination'' else clampReason (last reasons)) in
      if missing \<noteq> []
      then fs = [] \<and> e' = e \<and>
           a' = Some (a\<lparr>as_recipients := missing, as_delivered := as_delivered a + int (length delivered),
                        as_expires_at := now + ttl\<rparr>)
      else a' = None \<and>
        (if e_status e \<noteq> StatusProcessing \<or> e_claimed_at e = None then fs = [] \<and> e' = e
         else apart_from_outcome e e' \<and> e_claimed_at e' = None \<and>
           (if 0 < as_delivered a \<or> delivered \<noteq> []
            then fs = [\<lparr>f_job = e\<lparr>e_sent_at := Some now\<rparr>, f_status = StatusSent, f_error = [], f_refused = []\<rparr>] \<and>
                 e_status e' = StatusSent \<and> e_sent_at e' = Some now \<and> e_error_message e' = [] \<and>
                 e_delivered_via e' = (if as_server_id a = [] then e_delivered_via e else as_server_id a)
            else fs = [\<lparr>f_job = e, f_status = StatusFailed, f_error = reason, f_refused = []\<rparr>] \<and>
                 e_status e' = StatusFailed \<and> e_sent_at e' = None \<and> e_error_message e' = reason)))"

lemma unreported_missing: "unreported outs rs = [r \<leftarrow> rs. \<forall>out \<in> set outs. to_lower (ro_recipient out) \<noteq> to_lower r]"
proof -
  have "to_lower r \<notin> (to_lower \<circ> ro_recipient) ` set outs \<longleftrightarrow> (\<forall>out \<in> set outs. to_lower (ro_recipient out) \<noteq> to_lower r)" for r
    by (metis (no_types, lifting) comp_apply image_iff)
  then show ?thesis by (simp add: unreported_def)
qed

lemma last_reason_last:
  "last_reason outs = (let xs = [x \<leftarrow> map ro_reason [out \<leftarrow> outs. \<not> ro_delivered out]. x \<noteq> []] in
     if xs = [] then [] else clampReason (last xs))"
  unfolding last_reason_def by (induction outs rule: rev_induct) (auto simp: Let_def)

lemma clampReason_empty: "clampReason x = [] \<Longrightarrow> x = []"
proof (rule ccontr)
  assume e: "clampReason x = []" "x \<noteq> []"
  then have long: "\<not> length (runes x) \<le> maxReasonLen" by (auto simp: clampReason_def split: if_splits)
  then obtain r rs where "runes x = r # rs" by (cases "runes x") (auto simp: maxReasonLen_def)
  with e long have "rune_text r = []" by (simp add: clampReason_def maxReasonLen_def)
  then show False by (cases r) (auto simp: rune_text_def replacement_def split: if_splits)
qed

lemma report_reason:
  "(if last_reason outs = [] then msg else last_reason outs) =
     (let xs = [x \<leftarrow> map ro_reason [out \<leftarrow> outs. \<not> ro_delivered out]. x \<noteq> []] in
      if xs = [] then msg else clampReason (last xs))"
proof -
  have "last [x \<leftarrow> ys. x \<noteq> []] \<noteq> []" if "[x \<leftarrow> ys. x \<noteq> []] \<noteq> []" for ys :: "string list"
    using last_in_set [OF that] by simp
  then have "clampReason (last [x \<leftarrow> ys. x \<noteq> []]) \<noteq> []" if "[x \<leftarrow> ys. x \<noteq> []] \<noteq> []" for ys
    using that clampReason_empty by blast
  then show ?thesis by (simp add: last_reason_last Let_def)
qed

lemma report_settles:
  assumes "report_message cfg now ttl about (Some a, Some e) = (fs, a', r')" and "0 \<le> as_delivered a"
  shows "\<exists>e'. r' = Some e' \<and> settled_by_report now ttl about a e fs a' e'"
proof (cases "unreported about (as_recipients a) \<noteq> []")
  case True
  with assms show ?thesis
    by (auto simp: settled_by_report_def unreported_missing narrow_row_def count_delivered_def Let_def)
next
  case all: False
  show ?thesis
  proof (cases "in_delivery e")
    case False
    with assms all show ?thesis
      by (auto simp: settled_by_report_def unreported_missing in_delivery_def Let_def)
  next
    case True
    let ?out = "report_outcome_for a about"
    have eq: "fs = [end_final now ?out e]" "a' = None" "r' = Some (end_row cfg now ?out e)"
      using assms(1) all True by auto
    have none: "as_delivered a + count_delivered about = 0 \<longleftrightarrow> \<not> (0 < as_delivered a \<or> [out \<leftarrow> about. ro_delivered out] \<noteq> [])"
      using assms(2) by (cases "[out \<leftarrow> about. ro_delivered out]") (simp_all add: count_delivered_def)
    obtain c where live: "e_status e = StatusProcessing" "e_claimed_at e = Some c" using True by (auto simp: in_delivery_def)
    note base = settled_by_report_def Let_def all [unfolded unreported_missing, simplified not_not] live eq apart_from_outcome_def
    show ?thesis
    proof (cases "as_delivered a + count_delivered about = 0")
      case True
      have said: "err_text ?out = (let xs = [x \<leftarrow> map ro_reason [out \<leftarrow> about. \<not> ro_delivered out]. x \<noteq> []] in
          if xs = [] then ''every recipient was refused by the destination'' else clampReason (last xs))"
        unfolding report_reason [symmetric] using True by (simp add: report_outcome_for_def outcome_defs err_text_def)
      have kind: "o_kind ?out \<noteq> KindDone" using True by (simp add: report_outcome_for_def outcome_defs)
      show ?thesis
        using True [unfolded none] kind
        by (intro exI [of _ "end_row cfg now ?out e"]) (simp add: base end_row_def end_final_def finalize_row_def said)
    next
      case False
      have out: "err_text ?out = []" "o_kind ?out = KindDone" "o_server_id ?out = as_server_id a" "o_refused ?out = []"
        using False by (simp_all add: report_outcome_for_def outcome_defs err_text_def)
      show ?thesis
        using False [unfolded none] out
        by (intro exI [of _ "end_row cfg now ?out e"]) (auto simp: base end_row_def end_final_def finalize_row_def)
    qed
  qed
qed

text \<open>
  C2: A report ends each message as its outcomes say.  When no statement fails, and in whatever order
  the messages are visited, a message reported on that the node holds keeps the recipients not reported
  yet, with the count of delivered ones, its time extended; when none is left the assignment is gone and
  the message, if still in delivery, is announced once and ends sent through the node when any recipient
  was ever delivered to, now or in an earlier report, failed with the last reason given otherwise.
  Messages not reported on, or held by another node, are left as they are.
\<close>
theorem report_ends_messages:
  assumes "db_faults d = []" and "ids_ok d" and "\<And>xs. mset (order xs) = mset xs"
    and "\<forall>a \<in> set (db_assignments d). 0 \<le> as_delivered a"
    and "completeAssigned cfg locked parse valid_id order now ttl rnd nodeID outs d = ((fs, n), d')"
  shows "let about = [out \<leftarrow> outs. ro_email_id out = i \<and> i \<noteq> [] \<and> valid_id i \<and> ro_recipient out \<noteq> []];
             mine = [f \<leftarrow> fs. e_id (f_job f) = i] in
    case part_of nodeID i d of
      (Some a, Some e) \<Rightarrow>
        (if about \<noteq> []
         then \<exists>e'. snd (part_of nodeID i d') = Some e' \<and> settled_by_report now ttl about a e mine (fst (part_of nodeID i d')) e'
         else mine = [] \<and> part_of nodeID i d' = part_of nodeID i d)
    | (None, _) \<Rightarrow> mine = [] \<and> part_of nodeID i d' = part_of nodeID i d
    | (Some _, None) \<Rightarrow> mine = []"
proof -
  let ?about = "[out \<leftarrow> outs. ro_email_id out = i \<and> i \<noteq> [] \<and> valid_id i \<and> ro_recipient out \<noteq> []]"
  have of: "reported_of valid_id outs i = ?about"
    unfolding reported_of_def by (rule filter_cong) (auto simp: usable_def)
  have ids: "i \<in> set (reported_ids valid_id outs) \<longleftrightarrow> ?about \<noteq> []"
    unfolding of [symmetric] by (force simp: reported_ids_def reported_of_def filter_empty_conv)
  note m = assms(3) [of "reported_ids valid_id outs"]
  have "distinct (reported_ids valid_id outs)" by (simp add: reported_ids_def)
  then have "distinct (order (reported_ids valid_id outs))" "set (order (reported_ids valid_id outs)) = set (reported_ids valid_id outs)"
    using mset_eq_imp_distinct_iff [OF m] mset_eq_setD [OF m] by simp_all
  with complete_each_part [OF assms(1,2) _ assms(5) [unfolded completeAssigned_def], of i]
  have run: "([f \<leftarrow> fs. e_id (f_job f) = i], part_of nodeID i d') =
    (if ?about \<noteq> [] then report_message cfg now ttl ?about (part_of nodeID i d) else ([], part_of nodeID i d))"
    using of ids by simp
  obtain x y where part: "part_of nodeID i d = (x, y)" by (rule prod.exhaust)
  show ?thesis
  proof (cases x)
    case None
    with run part show ?thesis by (auto simp: Let_def split: if_splits)
  next
    case a: (Some a)
    then have "0 \<le> as_delivered a" using part assms(4) by (auto simp: part_of_def find_Some_iff)
    show ?thesis
    proof (cases y)
      case None
      with run part a show ?thesis by (auto simp: Let_def split: if_splits)
    next
      case e: (Some e)
      show ?thesis
      proof (cases "?about = []")
        case True
        with run part a e show ?thesis by (simp add: Let_def)
      next
        case False
        obtain gs ar where gs: "report_message cfg now ttl ?about (Some a, Some e) = (gs, ar)" by (rule prod.exhaust)
        obtain a' r' where ar: "ar = (a', r')" by (rule prod.exhaust)
        note r = gs [unfolded ar]
        have "([f \<leftarrow> fs. e_id (f_job f) = i], part_of nodeID i d') = (gs, a', r')"
          using run unfolding part a e r if_P [OF False] .
        then have "[f \<leftarrow> fs. e_id (f_job f) = i] = gs" "part_of nodeID i d' = (a', r')"
          by (simp_all only: prod.inject)
        with report_settles [OF r \<open>0 \<le> as_delivered a\<close>] False show ?thesis
          unfolding part a e by (simp add: Let_def)
      qed
    qed
  qed
qed

lemma batch_from_bound: "n + sum_list (map (length \<circ> cm_raw) (batch_from n as)) \<le> max n claimMaxBytes"
  by (induction n as rule: batch_from.induct) (auto simp: claimed_view_def)

lemma batch_from_prefix: "\<exists>k \<le> length as. batch_from n as = map claimed_view (take k as)"
proof (induction n as rule: batch_from.induct)
  case (2 n a as)
  show ?case
  proof (cases "claimMaxBytes < n + length (as_raw a)")
    case True
    then show ?thesis by (intro exI [of _ 0]) simp
  next
    case False
    with 2 obtain k where "k \<le> length as" "batch_from (n + length (as_raw a)) as = map claimed_view (take k as)" by blast
    then show ?thesis using False by (intro exI [of _ "Suc k"]) simp
  qed
qed simp

text \<open>
  C3: What one claim hands out.  The answer is the beginning of the node's waiting assignments,
  oldest first, without those the node says it holds: never more than the limit, never more than 32
  MiB unless the first message alone is larger, and never empty while one waits.
\<close>
theorem claim_bounded_and_progresses:
  assumes "Claim nodeID claim_max ttl now asked holding d = (Inr out, d')" and "0 < claim_max"
  shows "\<exists>k. out = map claimed_view (take k (by_created
        (filter (\<lambda>a. as_node_id a = nodeID \<and> as_email_id a \<notin> set holding) (db_assignments d')))) \<and>
    int (length out) \<le> claim_limit claim_max asked \<and>
    sum_list (map (length \<circ> cm_raw) out) \<le> max claimMaxBytes (length (cm_raw (hd out))) \<and>
    (out = [] \<longleftrightarrow> (\<forall>a \<in> set (db_assignments d'). as_node_id a = nodeID \<longrightarrow> as_email_id a \<in> set holding))"
proof -
  let ?w = "by_created (filter (\<lambda>a. as_node_id a = nodeID \<and> as_email_id a \<notin> set holding) (db_assignments d'))"
  let ?l = "nat (claim_limit claim_max asked)"
  obtain d1 where ext: "ExtendAssignments nodeID holding (now + ttl) d = (Inr (), d1)"
    and rest: "(case ListAssigned nodeID ?l holding d1 of (Inl e, d) \<Rightarrow> (Inl e, d) | (Inr as, d) \<Rightarrow> (Inr (claim_batch as), d)) = (Inr out, d')"
    using assms(1) by (auto simp: Claim_def split: prod.splits sum.splits)
  then obtain as where list: "ListAssigned nodeID ?l holding d1 = (Inr as, d')" and out: "out = claim_batch as"
    by (auto split: prod.splits sum.splits)
  have as: "as = take ?l ?w"
    using list unfolding ListAssigned_def Query_def by (cases rule: Exec_cases) (auto simp: pop_fault_eq)
  have pos: "0 < ?l" using assms(2) by (simp add: claim_limit_def)
  have none: "?w = [] \<longleftrightarrow> (\<forall>a \<in> set (db_assignments d'). as_node_id a = nodeID \<longrightarrow> as_email_id a \<in> set holding)"
  proof -
    have "set ?w = {a \<in> set (db_assignments d'). as_node_id a = nodeID \<and> as_email_id a \<notin> set holding}"
      by (simp add: by_created_def)
    moreover have "?w = [] \<longleftrightarrow> set ?w = {}" by (rule set_empty [symmetric])
    ultimately have "?w = [] \<longleftrightarrow> {a \<in> set (db_assignments d'). as_node_id a = nodeID \<and> as_email_id a \<notin> set holding} = {}"
      by (simp only:)
    then show ?thesis by blast
  qed
  show ?thesis
  proof (cases as)
    case Nil
    then show ?thesis using out as pos none by (intro exI [of _ 0]) auto
  next
    case (Cons a bs)
    obtain k where k: "k \<le> length bs" "batch_from (length (as_raw a)) bs = map claimed_view (take k bs)"
      using batch_from_prefix by blast
    have o: "out = map claimed_view (take (Suc k) as)" using out Cons k by simp
    moreover have "Suc k \<le> length as" using k(1) Cons by simp
    then have "Suc k \<le> ?l" unfolding as by simp
    then have "take (Suc k) as = take (Suc k) ?w" unfolding as by (simp add: min_absorb1)
    moreover have "length out \<le> ?l" using o as by simp
    moreover have "sum_list (map (length \<circ> cm_raw) out) \<le> max claimMaxBytes (length (cm_raw (hd out)))"
      using out Cons batch_from_bound [of "length (as_raw a)" bs] by (simp add: claimed_view_def max.commute)
    moreover have "?w \<noteq> []" using Cons as by auto
    moreover have "out \<noteq> []" using o Cons by simp
    ultimately have "out = map claimed_view (take (Suc k) ?w)" "int (length out) \<le> claim_limit claim_max asked"
      "sum_list (map (length \<circ> cm_raw) out) \<le> max claimMaxBytes (length (cm_raw (hd out)))" "?w \<noteq> []" "out \<noteq> []"
      using pos by simp_all
    with none show ?thesis by blast
  qed
qed

section \<open>Samples\<close>

definition handed_row :: email where
  "handed_row = zero_email\<lparr>e_id := ''m'', e_project_id := ''p'', e_created_at := 1, e_status := StatusProcessing,
     e_claimed_at := Some 5, e_recipients := [''a@x.test'', ''b@x.test'']\<rparr>"

definition handed_assignment :: assignment where
  "handed_assignment = \<lparr>as_email_id = ''m'', as_node_id = ''n'', as_server_id = ''s'', as_email_created_at = 1,
     as_envelope_from = [], as_recipients = [''a@x.test'', ''b@x.test''], as_raw = ''raw'', as_delivered = 0,
     as_created_at = 6, as_expires_at = 10\<rparr>"

definition handed_db :: db where
  "handed_db = \<lparr>db_emails = [handed_row], db_assignments = [handed_assignment], db_volume = [], db_keys = [], db_faults = []\<rparr>"

definition handed_sys :: sys where
  "handed_sys = \<lparr>sy_db = handed_db, sy_now = 100, sy_flight = [], sy_read = [], sy_log = []\<rparr>"

definition outcome_of :: "string \<Rightarrow> bool \<Rightarrow> report_outcome" where
  "outcome_of r ok = \<lparr>ro_email_id = ''m'', ro_recipient = r, ro_delivered = ok, ro_permanent = \<not> ok, ro_reason = ''no''\<rparr>"

definition both_outcomes :: "report_outcome list" where
  "both_outcomes = [outcome_of ''A@x.test'' False, outcome_of ''b@x.test'' True]"

lemmas handed_simps = handed_row_def handed_assignment_def handed_db_def handed_sys_def zero_email_def

lemma handed_db_ok: "db_faults handed_db = []" "ids_ok handed_db"
  by (simp_all add: handed_simps ids_ok_def)

lemma relay_refines_delivery_witness:
  "(step sample_config)\<^sup>*\<^sup>* handed_sys (handed_sys\<lparr>
      sy_db := snd (completeAssigned sample_config {} (\<lambda>_. None) (\<lambda>_. True) id 100 30 0 ''n'' both_outcomes handed_db),
      sy_log := fst (fst (completeAssigned sample_config {} (\<lambda>_. None) (\<lambda>_. True) id 100 30 0 ''n'' both_outcomes handed_db)) @ []\<rparr>)"
proof -
  let ?c = "completeAssigned sample_config {} (\<lambda>_. None) (\<lambda>_. True) id 100 30 0 ''n'' both_outcomes handed_db"
  have a: "past_claims handed_sys"
    by (simp add: past_claims_def handed_simps)
  have c: "\<forall>a \<in> set (db_assignments (sy_db handed_sys)). as_expires_at a \<le> sy_now handed_sys \<longrightarrow> as_created_at a < sy_now handed_sys"
    by (simp add: handed_simps)
  have e: "completeAssigned sample_config {} (\<lambda>_. None) (\<lambda>_. True) id (sy_now handed_sys) 30 0 ''n'' both_outcomes (sy_db handed_sys) =
      ((fst (fst ?c), snd (fst ?c)), snd ?c)" by (simp add: handed_sys_def)
  have f: "ReleaseExpired (sy_now handed_sys) (sy_db handed_sys) =
      (fst (ReleaseExpired 100 handed_db), snd (ReleaseExpired 100 handed_db))" by (simp add: handed_sys_def)
  from conjunct1 [OF relay_refines_delivery [OF a c e f]] show ?thesis by (simp add: handed_sys_def)
qed

lemma both_outcomes_of: "reported_of (\<lambda>_. True) both_outcomes ''m'' = both_outcomes"
  "''m'' \<in> set (reported_ids (\<lambda>_. True) both_outcomes)"
  by (simp_all add: reported_of_def reported_ids_def both_outcomes_def outcome_of_def usable_def)

lemma handed_part: "part_of ''n'' ''m'' handed_db = (Some handed_assignment, Some handed_row)"
  by (simp add: part_of_def handed_simps held_by_def)

lemma both_reported: "unreported both_outcomes (as_recipients handed_assignment) = []"
  by code_simp

text \<open>One recipient of two was delivered to in this report, and one of an earlier message in an earlier one.\<close>

definition refused_now :: "report_outcome list" where
  "refused_now = [outcome_of ''b@x.test'' False]"

definition narrowed_db :: db where
  "narrowed_db = handed_db\<lparr>db_assignments := [handed_assignment\<lparr>as_recipients := [''b@x.test''], as_delivered := 1\<rparr>]\<rparr>"

lemma report_ends_messages_witness:
  "\<exists>e'. find (\<lambda>e. e_id e = ''m'') (db_emails (snd (completeAssigned sample_config {} (\<lambda>_. None) (\<lambda>_. True) id 100 30 0 ''n''
       refused_now narrowed_db))) = Some e' \<and> e_status e' = StatusSent \<and> e_delivered_via e' = ''s'' \<and> e_sent_at e' = Some 100"
proof -
  let ?c = "completeAssigned sample_config {} (\<lambda>_. None) (\<lambda>_. True) id 100 30 0 ''n'' refused_now narrowed_db"
  have calm: "db_faults narrowed_db = []" "ids_ok narrowed_db" "\<forall>a \<in> set (db_assignments narrowed_db). 0 \<le> as_delivered a"
    by (simp_all add: narrowed_db_def handed_simps ids_ok_def)
  have c: "?c = ((fst (fst ?c), snd (fst ?c)), snd ?c)" by simp
  have part: "part_of ''n'' ''m'' narrowed_db =
      (Some (handed_assignment\<lparr>as_recipients := [''b@x.test''], as_delivered := 1\<rparr>), Some handed_row)"
    by (simp add: part_of_def narrowed_db_def handed_simps held_by_def)
  have about: "[out \<leftarrow> refused_now. ro_email_id out = ''m'' \<and> ''m'' \<noteq> [] \<and> True \<and> ro_recipient out \<noteq> []] = refused_now"
    by (simp add: refused_now_def outcome_of_def)
  have missing: "[r \<leftarrow> [''b@x.test'']. \<forall>out \<in> set refused_now. to_lower (ro_recipient out) \<noteq> to_lower r] = []"
    by (simp add: refused_now_def outcome_of_def)
  have row: "refused_now \<noteq> []" "e_status handed_row = StatusProcessing" "e_claimed_at handed_row = Some 5"
    "as_server_id handed_assignment = ''s''"
    by (simp_all add: refused_now_def handed_simps)
  from report_ends_messages [OF calm(1,2) _ calm(3) c, of "''m''"] obtain e' where
    "snd (part_of ''n'' ''m'' (snd ?c)) = Some e'"
    "settled_by_report 100 30 refused_now (handed_assignment\<lparr>as_recipients := [''b@x.test''], as_delivered := 1\<rparr>) handed_row
       [f \<leftarrow> fst (fst ?c). e_id (f_job f) = ''m''] (fst (part_of ''n'' ''m'' (snd ?c))) e'"
    unfolding part Let_def about using row(1) by auto
  with missing row show ?thesis
    by (intro exI [of _ e']) (simp add: settled_by_report_def Let_def part_of_def)
qed

lemma claim_bounded_and_progresses_witness:
  "fst (Claim ''n'' 20 30 7 0 [] handed_db) = Inr [claimed_view handed_assignment] \<and>
   sum_list (map (length \<circ> cm_raw) [claimed_view handed_assignment]) \<le> max claimMaxBytes (length (cm_raw (claimed_view handed_assignment)))"
proof -
  have "Claim ''n'' 20 30 7 0 [] handed_db = (Inr [claimed_view handed_assignment], handed_db)"
    by (simp add: Claim_def ExtendAssignments_def ListAssigned_def Query_no_fault handed_db_ok claim_limit_def)
      (simp add: handed_simps by_created_def)
  from claim_bounded_and_progresses [OF this] this show ?thesis by simp
qed

text \<open>
  A report of an expired assignment no sweep took back yet: the row was recovered and claimed again
  meanwhile, and the report ends it under that worker's claim.
\<close>

definition recovered_db :: db where "recovered_db = snd (RecoverStuck 40 45 handed_db)"
definition reclaimed_db :: db where "reclaimed_db = snd (ClaimDue 50 1 0 {} recovered_db)"

lemma reclaimed_rows:
  "db_emails reclaimed_db = [claim_row 50 (recover_row 45 handed_row)]" "db_faults reclaimed_db = []"
  "db_assignments reclaimed_db = [handed_assignment]"
  by (simp_all add: reclaimed_db_def recovered_db_def RecoverStuck_def ClaimDue_def Exec_no_fault handed_simps
      update_emails_def stuck_def live_assignment_def claim_stmt_def claim_ids_def claimable_def recover_row_def
      claim_row_def sql_update_def Let_def)

lemma expired_report_writes_peers_claim:
  "\<exists>peer. db_emails reclaimed_db = [peer] \<and> e_status peer = StatusProcessing \<and> e_claimed_at peer = Some 50 \<and>
     part_of ''n'' ''m'' (snd (completeAssigned sample_config {} (\<lambda>_. None) (\<lambda>_. True) id 60 30 0 ''n'' both_outcomes reclaimed_db)) =
       (None, Some (finalize_row StatusSent [] ''s'' (Some 60) peer))"
proof -
  let ?c = "completeAssigned sample_config {} (\<lambda>_. None) (\<lambda>_. True) id 60 30 0 ''n'' both_outcomes reclaimed_db"
  let ?peer = "claim_row 50 (recover_row 45 handed_row)"
  have ok: "ids_ok reclaimed_db" by (simp add: ids_ok_def reclaimed_rows)
  have c: "complete_each sample_config {} (\<lambda>_. None) 60 30 0 ''n'' (reported_of (\<lambda>_. True) both_outcomes)
      (id (reported_ids (\<lambda>_. True) both_outcomes)) reclaimed_db = ((fst (fst ?c), snd (fst ?c)), snd ?c)"
    by (simp add: completeAssigned_def)
  have "distinct (id (reported_ids (\<lambda>_. True) both_outcomes))" by (simp add: reported_ids_def)
  from complete_each_part [OF reclaimed_rows(2) ok this c, of "''m''"]
  have "part_of ''n'' ''m'' (snd ?c) = snd (report_message sample_config 60 30 both_outcomes (part_of ''n'' ''m'' reclaimed_db))"
    using both_outcomes_of by (auto simp: prod_eq_iff)
  moreover have "part_of ''n'' ''m'' reclaimed_db = (Some handed_assignment, Some ?peer)"
    by (simp add: part_of_def reclaimed_rows held_by_def claim_row_def recover_row_def handed_simps)
  moreover have "in_delivery ?peer" by (simp add: in_delivery_def claim_row_def)
  moreover have "as_delivered handed_assignment + count_delivered both_outcomes \<noteq> 0" "as_server_id handed_assignment = ''s''"
    by (simp_all add: both_outcomes_def outcome_of_def count_delivered_def handed_assignment_def)
  ultimately have "part_of ''n'' ''m'' (snd ?c) = (None, Some (finalize_row StatusSent [] ''s'' (Some 60) ?peer))"
    by (simp add: both_reported report_outcome_for_def end_row_def outcome_defs err_text_def)
  then show ?thesis by (intro exI [of _ ?peer]) (simp add: reclaimed_rows claim_row_def)
qed

end
