(* ===== verification/Spool.thy ===== *)
theory Spool
  imports Statement
begin

text \<open>
  The disk queue of a relay node (\<^verbatim>\<open>internal/relayagent/spool.go\<close>): bbolt buckets, which are maps walked in
  the order of their keys, and the files beside them.  Each transaction and each file operation is a
  statement that can fail; a crash is the failure of everything after it.  Entries are stored as the
  values they encode; entries that do not decode are not modelled.
\<close>

section \<open>Buckets\<close>

type_synonym 'v bucket = "(string \<times> 'v) list"

definition bucket_get :: "string \<Rightarrow> 'v bucket \<Rightarrow> 'v option" where
  "bucket_get k b = map_of b k"

fun bucket_put :: "string \<Rightarrow> 'v \<Rightarrow> 'v bucket \<Rightarrow> 'v bucket" where
  "bucket_put k v [] = [(k, v)]"
| "bucket_put k v ((j, x) # b) =
     (if k < j then (k, v) # (j, x) # b else if k = j then (k, v) # b else (j, x) # bucket_put k v b)"

definition bucket_delete :: "string \<Rightarrow> 'v bucket \<Rightarrow> 'v bucket" where
  "bucket_delete k b = filter (\<lambda>x. fst x \<noteq> k) b"

definition bucket_ok :: "'v bucket \<Rightarrow> bool" where
  "bucket_ok b = sorted_wrt (<) (map fst b)"

lemma bucket_ok_Nil [simp]: "bucket_ok []"
  by (simp add: bucket_ok_def)

lemma bucket_put_keys: "fst ` set (bucket_put k v b) = insert k (fst ` set b)"
  by (induction b rule: bucket_put.induct) auto

lemma bucket_ok_put: "bucket_ok b \<Longrightarrow> bucket_ok (bucket_put k v b)"
proof (induction k v b rule: bucket_put.induct)
  case (2 k v j x b)
  have "fst y \<in> insert k (fst ` set b)" if "y \<in> set (bucket_put k v b)" for y
    using that bucket_put_keys [of k v b] by blast
  then show ?case using 2 by (fastforce simp: bucket_ok_def)
qed (simp add: bucket_ok_def)

lemma bucket_ok_delete: "bucket_ok b \<Longrightarrow> bucket_ok (bucket_delete k b)"
  unfolding bucket_ok_def bucket_delete_def by (induction b) auto

lemma bucket_get_put: "bucket_ok b \<Longrightarrow> bucket_get i (bucket_put k v b) = (if i = k then Some v else bucket_get i b)"
proof (induction k v b rule: bucket_put.induct)
  case (2 k v j x b)
  then show ?case by (auto simp: bucket_ok_def bucket_get_def)
qed (simp add: bucket_get_def)

lemma bucket_get_delete: "bucket_get i (bucket_delete k b) = (if i = k then None else bucket_get i b)"
  by (induction b) (auto simp: bucket_get_def bucket_delete_def)

lemma bucket_get_in: "bucket_ok b \<Longrightarrow> bucket_get k b = Some v \<longleftrightarrow> (k, v) \<in> set b"
proof -
  assume "bucket_ok b"
  then have "distinct (map fst b)" by (simp add: bucket_ok_def strict_sorted_iff)
  then show ?thesis by (simp add: bucket_get_def)
qed

section \<open>The spool\<close>

record spooled =
  sm_id :: string
  sm_email_id :: string
  sm_envelope_from :: string
  sm_domain :: string
  sm_recipients :: "string list"
  sm_attempts :: int
  sm_accepted_at :: time
  sm_next_attempt :: time
  sm_last_error :: string
  sm_size :: nat

record node_outcome =
  no_email_id :: string
  no_recipient :: string
  no_delivered :: bool
  no_permanent :: bool
  no_reason :: string

record received =
  rx_id :: string
  rx_envelope_from :: string
  rx_recipients :: "string list"
  rx_client_ip :: string
  rx_helo :: string
  rx_attempts :: int
  rx_received_at :: time
  rx_next_attempt :: time
  rx_last_error :: string
  rx_size :: nat

text \<open>\<open>so_taken\<close> is what destinations took, which only the world knows.\<close>

record spool =
  so_messages :: "spooled bucket"
  so_outcomes :: "node_outcome bucket"
  so_inbound :: "received bucket"
  so_meta :: "string bucket"
  so_data :: "string bucket"
  so_received :: "string bucket"
  so_taken :: "(string \<times> string) list"

type_synonym nworld = "spool world"

definition empty_spool :: spool where
  "empty_spool = \<lparr>so_messages = [], so_outcomes = [], so_inbound = [], so_meta = [], so_data = [], so_received = [], so_taken = []\<rparr>"

definition change :: "(spool \<Rightarrow> spool) \<Rightarrow> nworld \<Rightarrow> (spool, unit) answer" where
  "change f = Run (\<lambda>s. (f s, ()))"

definition save :: "spooled \<Rightarrow> nworld \<Rightarrow> (spool, unit) answer" where
  "save m = change (\<lambda>s. s\<lparr>so_messages := bucket_put (sm_id m) m (so_messages s)\<rparr>)"

definition write_body :: "string \<Rightarrow> string \<Rightarrow> nworld \<Rightarrow> (spool, unit) answer" where
  "write_body i body = change (\<lambda>s. s\<lparr>so_data := bucket_put i body (so_data s)\<rparr>)"

definition remove_body :: "string \<Rightarrow> nworld \<Rightarrow> (spool, unit) answer" where
  "remove_body i = change (\<lambda>s. s\<lparr>so_data := bucket_delete i (so_data s)\<rparr>)"

text \<open>Bytes first, metadata second; removal the other way round.\<close>

definition PutSpooled :: "spooled \<Rightarrow> string \<Rightarrow> nworld \<Rightarrow> (spool, unit) answer" where
  "PutSpooled m body w =
     (case write_body (sm_id m) body w of
        (Inl e, w) \<Rightarrow> (Inl (''write message body: '' @ e), w)
      | (Inr _, w) \<Rightarrow>
          (case save (m\<lparr>sm_size := length body\<rparr>) w of
             (Inl e, w) \<Rightarrow> (Inl e, snd (remove_body (sm_id m) w))
           | (Inr _, w) \<Rightarrow> (Inr (), w)))"

definition UpdateSpooled :: "spooled \<Rightarrow> nworld \<Rightarrow> (spool, unit) answer" where
  "UpdateSpooled m = save m"

definition Body :: "string \<Rightarrow> nworld \<Rightarrow> (spool, string) answer" where
  "Body i w =
     andThen (Read (\<lambda>s. bucket_get i (so_data s)) w) (\<lambda>b w.
       case b of None \<Rightarrow> (Inl ''file does not exist'', w) | Some body \<Rightarrow> Return body w)"

definition RemoveSpooled :: "string \<Rightarrow> nworld \<Rightarrow> (spool, unit) answer" where
  "RemoveSpooled i w =
     andThen (change (\<lambda>s. s\<lparr>so_messages := bucket_delete i (so_messages s)\<rparr>) w) (\<lambda>_ w. remove_body i w)"

definition by_accepted :: "spooled list \<Rightarrow> spooled list" where
  "by_accepted = sort_key sm_accepted_at"

definition limited :: "int \<Rightarrow> 'a list \<Rightarrow> 'a list" where
  "limited limit xs = (if 0 < limit \<and> limit < int (length xs) then take (nat limit) xs else xs)"

definition DueSpooled :: "time \<Rightarrow> int \<Rightarrow> nworld \<Rightarrow> (spool, spooled list) answer" where
  "DueSpooled now limit =
     Read (\<lambda>s. limited limit (by_accepted (filter (\<lambda>m. sm_next_attempt m \<le> now) (map snd (so_messages s)))))"

definition HasSpooled :: "string \<Rightarrow> nworld \<Rightarrow> (spool, bool) answer" where
  "HasSpooled i = Read (\<lambda>s. bucket_get i (so_messages s) \<noteq> None)"

definition AllSpooled :: "nworld \<Rightarrow> (spool, spooled list) answer" where
  "AllSpooled = Read (\<lambda>s. by_accepted (map snd (so_messages s)))"

section \<open>Outcomes\<close>

definition outcomeKeySep :: char where "outcomeKeySep = CHR ''|''"

definition OutcomeKey :: "string \<Rightarrow> string \<Rightarrow> string" where
  "OutcomeKey emailID recipient = emailID @ outcomeKeySep # recipient"

definition HasOutcome :: "string \<Rightarrow> string \<Rightarrow> nworld \<Rightarrow> (spool, bool) answer" where
  "HasOutcome emailID recipient = Read (\<lambda>s. bucket_get (OutcomeKey emailID recipient) (so_outcomes s) \<noteq> None)"

definition PutOutcome :: "string \<Rightarrow> node_outcome \<Rightarrow> nworld \<Rightarrow> (spool, unit) answer" where
  "PutOutcome k out = change (\<lambda>s. s\<lparr>so_outcomes := bucket_put k out (so_outcomes s)\<rparr>)"

definition Outcomes :: "int \<Rightarrow> nworld \<Rightarrow> (spool, node_outcome bucket) answer" where
  "Outcomes limit = Read (\<lambda>s. limited limit (so_outcomes s))"

definition RemoveOutcomes :: "string list \<Rightarrow> nworld \<Rightarrow> (spool, unit) answer" where
  "RemoveOutcomes ks = change (\<lambda>s. s\<lparr>so_outcomes := foldl (\<lambda>b k. bucket_delete k b) (so_outcomes s) ks\<rparr>)"

text \<open>What the node says it holds: the queue and the outcomes not reported yet, read together.\<close>

definition held_ids :: "spool \<Rightarrow> string list" where
  "held_ids s =
     rev (remdups (rev (filter (\<lambda>i. i \<noteq> [])
       (map (sm_email_id \<circ> snd) (so_messages s) @ map (fst \<circ> cut outcomeKeySep \<circ> fst) (so_outcomes s)))))"

definition EmailIDs :: "nworld \<Rightarrow> (spool, string list) answer" where
  "EmailIDs = Read held_ids"

section \<open>Received mail\<close>

definition save_received :: "received \<Rightarrow> nworld \<Rightarrow> (spool, unit) answer" where
  "save_received m = change (\<lambda>s. s\<lparr>so_inbound := bucket_put (rx_id m) m (so_inbound s)\<rparr>)"

definition remove_received_body :: "string \<Rightarrow> nworld \<Rightarrow> (spool, unit) answer" where
  "remove_received_body i = change (\<lambda>s. s\<lparr>so_received := bucket_delete i (so_received s)\<rparr>)"

definition PutReceived :: "received \<Rightarrow> string \<Rightarrow> nworld \<Rightarrow> (spool, unit) answer" where
  "PutReceived m body w =
     (case change (\<lambda>s. s\<lparr>so_received := bucket_put (rx_id m) body (so_received s)\<rparr>) w of
        (Inl e, w) \<Rightarrow> (Inl (''write received message: '' @ e), w)
      | (Inr _, w) \<Rightarrow>
          (case save_received (m\<lparr>rx_size := length body\<rparr>) w of
             (Inl e, w) \<Rightarrow> (Inl e, snd (remove_received_body (rx_id m) w))
           | (Inr _, w) \<Rightarrow> (Inr (), w)))"

definition RemoveReceived :: "string \<Rightarrow> nworld \<Rightarrow> (spool, unit) answer" where
  "RemoveReceived i w =
     andThen (change (\<lambda>s. s\<lparr>so_inbound := bucket_delete i (so_inbound s)\<rparr>) w) (\<lambda>_ w. remove_received_body i w)"

definition ReceivedDue :: "time \<Rightarrow> int \<Rightarrow> nworld \<Rightarrow> (spool, received list) answer" where
  "ReceivedDue now limit =
     Read (\<lambda>s. limited limit (sort_key rx_received_at (filter (\<lambda>m. rx_next_attempt m \<le> now) (map snd (so_inbound s)))))"

section \<open>Orphans\<close>

text \<open>Files whose entry is not in their own bucket, each removed by itself; a failed removal is skipped.\<close>

fun sweep_files :: "(string \<Rightarrow> nworld \<Rightarrow> (spool, unit) answer) \<Rightarrow> string list \<Rightarrow> nat \<Rightarrow> nworld \<Rightarrow> nat \<times> nworld" where
  "sweep_files remove [] n w = (n, w)"
| "sweep_files remove (i # is) n w =
     (case remove i w of (Inl _, w) \<Rightarrow> sweep_files remove is n w | (Inr _, w) \<Rightarrow> sweep_files remove is (Suc n) w)"

definition sweepDir ::
    "(spool \<Rightarrow> string set) \<Rightarrow> (spool \<Rightarrow> string list) \<Rightarrow> (string \<Rightarrow> nworld \<Rightarrow> (spool, unit) answer) \<Rightarrow>
     nworld \<Rightarrow> (spool, nat) answer" where
  "sweepDir known files remove w =
     andThen (Read known w) (\<lambda>ids w.
       andThen (Read files w) (\<lambda>names w.
         case sweep_files remove (filter (\<lambda>i. i \<notin> ids) names) 0 w of (n, w) \<Rightarrow> Return n w))"

definition SweepOrphans :: "nworld \<Rightarrow> (spool, nat) answer" where
  "SweepOrphans w =
     andThen (sweepDir (\<lambda>s. fst ` set (so_messages s)) (\<lambda>s. map fst (so_data s)) remove_body w) (\<lambda>n w.
       andThen (sweepDir (\<lambda>s. fst ` set (so_inbound s)) (\<lambda>s. map fst (so_received s)) remove_received_body w)
         (\<lambda>m w. Return (n + m) w))"

end
