(* ===== verification/Node.thy ===== *)
theory Node
  imports Spool Smtp Relay "HOL-Library.AList"
begin

text \<open>
  The sending half of a relay node: finding the exchangers of a domain (\<^verbatim>\<open>internal/core/mx\<close>), offering a
  message to them (\<^verbatim>\<open>internal/core/smtpclient/direct.go\<close>), and the delivery, claim and report loops of
  \<^verbatim>\<open>internal/relayagent\<close> over the spool.  DNS answers, the peers at the other end, the hash in a spool
  id and the orders Go leaves open (a map's iteration, the shuffle of equal preferences) are
  arguments; the cache of DNS answers is not modelled.
\<close>

section \<open>Mail exchangers\<close>

datatype dns_error = NotFoundError error | DnsFailure error

record mx_record =
  mx_host :: string
  mx_pref :: nat

record resolver =
  rs_mx :: "string \<Rightarrow> dns_error + mx_record list"
  rs_host :: "string \<Rightarrow> dns_error + string list"
  rs_shuffle :: "mx_record list \<Rightarrow> mx_record list"

record mx_error =
  me_perm :: bool
  me_text :: error

definition mx_fault :: "string \<Rightarrow> bool \<Rightarrow> error \<Rightarrow> mx_error" where
  "mx_fault domain perm e = \<lparr>me_perm = perm, me_text = ''mx '' @ domain @ '': '' @ e\<rparr>"

definition trim_suffix_dot :: "string \<Rightarrow> string" where
  "trim_suffix_dot s = (if s \<noteq> [] \<and> last s = CHR ''.'' then butlast s else s)"

definition nullMX :: "mx_record list \<Rightarrow> bool" where
  "nullMX rs = (length rs = 1 \<and> trim_space (mx_host (hd rs)) \<in> {''.'', []})"

definition usableTargets :: "(mx_record list \<Rightarrow> mx_record list) \<Rightarrow> mx_record list \<Rightarrow> mx_record list" where
  "usableTargets shuffle rs =
     (let named = map (\<lambda>r. r\<lparr>mx_host := trim_suffix_dot (trim_space (mx_host r))\<rparr>) rs;
          out = map (\<lambda>r. r\<lparr>mx_host := to_lower (mx_host r)\<rparr>) (filter (\<lambda>r. mx_host r \<notin> {[], ''.''}) named)
      in sort_key mx_pref (shuffle out))"

definition noExchanger :: error where "noExchanger = ''domain has no mail exchanger and no address''"

definition resolve_hosts :: "resolver \<Rightarrow> string \<Rightarrow> mx_record list \<Rightarrow> mx_error + string list" where
  "resolve_hosts r domain records =
     (if nullMX records then Inl (mx_fault domain True ''domain accepts no mail (null MX)'')
      else (let targets = usableTargets (rs_shuffle r) records in
        if targets \<noteq> [] then Inr (map mx_host targets)
        else (case rs_host r domain of
                Inl (NotFoundError e) \<Rightarrow> Inl (mx_fault domain True noExchanger)
              | Inl (DnsFailure e) \<Rightarrow> Inl (mx_fault domain False e)
              | Inr hosts \<Rightarrow> if hosts = [] then Inl (mx_fault domain True noExchanger) else Inr [domain])))"

definition resolve_records :: "resolver \<Rightarrow> string \<Rightarrow> mx_error + string list" where
  "resolve_records r domain =
     (case rs_mx r domain of
        Inl (DnsFailure e) \<Rightarrow> Inl (mx_fault domain False e)
      | Inl (NotFoundError e) \<Rightarrow> resolve_hosts r domain []
      | Inr records \<Rightarrow> resolve_hosts r domain records)"

definition Resolve :: "resolver \<Rightarrow> string \<Rightarrow> mx_error + string list" where
  "Resolve r domain0 =
     (let domain = trim_suffix_dot (to_lower (trim_space domain0)) in
      if domain = [] then Inl (mx_fault domain True ''empty domain'') else resolve_records r domain)"

section \<open>One conversation\<close>

datatype direct_error = Refusal send_error | Unanswered error

fun direct_text :: "direct_error \<Rightarrow> error" where
  "direct_text (Refusal e) = se_err e"
| "direct_text (Unanswered e) = e"

fun direct_permanent :: "direct_error \<Rightarrow> bool" where
  "direct_permanent (Refusal e) = Permanent e"
| "direct_permanent (Unanswered e) = False"

record raw_message =
  rw_envelope_from :: string
  rw_to :: "string list"
  rw_data :: string

record direct_result =
  dr_host :: string
  dr_accepted :: "string list"
  dr_rejected :: "(string \<times> send_error) list"

text \<open>The recipients the peer takes, in order, and the others with their last reply each.\<close>

fun offer_each ::
    "(int \<Rightarrow> string) \<Rightarrow> parser \<Rightarrow> peer \<Rightarrow> nat \<Rightarrow> string list \<Rightarrow> direct_result \<Rightarrow> direct_result" where
  "offer_each show_code parse p i [] res = res"
| "offer_each show_code parse p i (addr # addrs) res =
     (let rcpt = EnvelopeAddress parse addr; r = pe_rcpt p i rcpt in
      offer_each show_code parse p (Suc i) addrs
        (if r = Fine then res\<lparr>dr_accepted := dr_accepted res @ [rcpt]\<rparr>
         else res\<lparr>dr_rejected := AList.update rcpt (wrapSendError show_code StageRcpt rcpt ''smtp rcpt to failed'' r) (dr_rejected res)\<rparr>))"

text \<open>
  The second part of the answer tells whether the peer holds the message.  \<open>connect\<close> is how the
  session was opened: \<open>None\<close> when it was, in the clear or not.
\<close>

definition sendDirectTo ::
    "(int \<Rightarrow> string) \<Rightarrow> parser \<Rightarrow> direct_error option \<Rightarrow> peer \<Rightarrow> string \<Rightarrow> raw_message \<Rightarrow>
     (direct_error + direct_result) \<times> bool" where
  "sendDirectTo show_code parse connect p host msg =
     (case connect of
        Some e \<Rightarrow> (Inl e, False)
      | None \<Rightarrow>
          (let r = pe_mail p (EnvelopeAddress parse (rw_envelope_from msg)) in
           if r \<noteq> Fine then (Inl (Refusal (wrapSendError show_code StageMail (rw_envelope_from msg) ''smtp mail from failed'' r)), False)
           else (let res = offer_each show_code parse p 0 (rw_to msg) \<lparr>dr_host = host, dr_accepted = [], dr_rejected = []\<rparr> in
             if dr_accepted res = [] then (Inr res, False)
             else if pe_data p \<noteq> Fine then (Inl (Refusal (wrapSendError show_code StageData [] ''smtp data failed'' (pe_data p))), False)
             else if pe_write p \<noteq> Fine then (Inl (Unanswered (''smtp write failed: '' @ reply_text show_code (pe_write p))), False)
             else if pe_close p \<noteq> Fine then (Inl (Refusal (wrapSendError show_code StageData [] ''smtp close failed'' (pe_close p))), False)
             else (Inr res, True))))"

fun direct_walk ::
    "(int \<Rightarrow> string) \<Rightarrow> parser \<Rightarrow> (string \<Rightarrow> direct_error option) \<Rightarrow> (string \<Rightarrow> peer) \<Rightarrow> raw_message \<Rightarrow> string list \<Rightarrow>
     direct_error \<Rightarrow> (direct_error + direct_result) \<times> bool" where
  "direct_walk show_code parse connect peer msg [] lastErr =
     (Inl (Unanswered (''no mail exchanger accepted the message: '' @ direct_text lastErr)), False)"
| "direct_walk show_code parse connect peer msg (host # hosts) lastErr =
     (case sendDirectTo show_code parse (connect host) (peer host) host msg of
        (Inr res, held) \<Rightarrow> (Inr res, held)
      | (Inl e, held) \<Rightarrow>
          if direct_permanent e then (Inl e, held)
          else direct_walk show_code parse connect peer msg hosts e)"

definition SendDirect ::
    "(int \<Rightarrow> string) \<Rightarrow> parser \<Rightarrow> (string \<Rightarrow> direct_error option) \<Rightarrow> (string \<Rightarrow> peer) \<Rightarrow> string list \<Rightarrow> raw_message \<Rightarrow>
     (direct_error + direct_result) \<times> bool" where
  "SendDirect show_code parse connect peer hosts msg =
     (if hosts = [] then (Inl (Unanswered ''no mail exchangers to try''), False)
      else if rw_to msg = [] then (Inl (Unanswered ''no recipients''), False)
      else direct_walk show_code parse connect peer msg hosts (Unanswered []))"

section \<open>Delivering\<close>

record node_env =
  ev_show_code :: "int \<Rightarrow> string"
  ev_parse :: parser
  ev_resolver :: resolver
  ev_connect :: "string \<Rightarrow> direct_error option"
  ev_peer :: "string \<Rightarrow> peer"
  ev_hash :: "string \<Rightarrow> string"
  ev_order :: "string list \<Rightarrow> string list"
  ev_max_lifetime :: time
  ev_lifetime_text :: string

text \<open>
  The gap between attempts.  Go computes the power as a float, which is exact up to \<open>3 ^ 33\<close>, and
  multiplies in 64 bits.
\<close>

definition backoff_base :: int where "backoff_base = 60000000000"
definition backoff_ceiling :: int where "backoff_ceiling = 4 * 3600000000000"

definition node_backoff :: "int \<Rightarrow> time" where
  "node_backoff attempt =
     (let d = (word_of_int (3 ^ nat (max attempt 1 - 1)) :: 64 word) * word_of_int backoff_base in
      if backoff_ceiling < sint d \<or> sint d \<le> 0 then backoff_ceiling else sint d)"

definition expired :: "node_env \<Rightarrow> time \<Rightarrow> spooled \<Rightarrow> bool" where
  "expired env now m = (0 < ev_max_lifetime env \<and> ev_max_lifetime env < now - sm_accepted_at m)"

definition recordOutcome :: "node_outcome \<Rightarrow> nworld \<Rightarrow> nworld" where
  "recordOutcome out w = snd (PutOutcome (OutcomeKey (no_email_id out) (no_recipient out)) out w)"

definition report_out :: "node_outcome \<Rightarrow> nworld \<Rightarrow> nworld" where
  "report_out out w = (if no_email_id out = [] then w else recordOutcome out w)"

definition report_all :: "node_outcome list \<Rightarrow> nworld \<Rightarrow> nworld" where
  "report_all outs w = foldl (\<lambda>w out. report_out out w) w outs"

definition defer_msg :: "time \<Rightarrow> spooled \<Rightarrow> string \<Rightarrow> nworld \<Rightarrow> nworld" where
  "defer_msg now m reason w =
     snd (UpdateSpooled (m\<lparr>sm_last_error := reason, sm_next_attempt := now + node_backoff (sm_attempts m)\<rparr>) w)"

definition failed_outcome :: "spooled \<Rightarrow> bool \<Rightarrow> string \<Rightarrow> string \<Rightarrow> node_outcome" where
  "failed_outcome m permanent reason rcpt =
     \<lparr>no_email_id = sm_email_id m, no_recipient = rcpt, no_delivered = False, no_permanent = permanent, no_reason = reason\<rparr>"

definition delivered_outcome :: "spooled \<Rightarrow> string \<Rightarrow> string \<Rightarrow> node_outcome" where
  "delivered_outcome m host rcpt =
     \<lparr>no_email_id = sm_email_id m, no_recipient = rcpt, no_delivered = True, no_permanent = False,
      no_reason = ''delivered via '' @ host\<rparr>"

definition giveUp :: "node_env \<Rightarrow> time \<Rightarrow> spooled \<Rightarrow> string \<Rightarrow> nworld \<Rightarrow> nworld" where
  "giveUp env now m reason w =
     snd (RemoveSpooled (sm_id m)
       (report_all (map (failed_outcome m (\<not> expired env now m) reason) (sm_recipients m)) w))"

text \<open>What one conversation leaves: an outcome per recipient settled, the others queued again.\<close>

definition settle_result :: "node_env \<Rightarrow> time \<Rightarrow> spooled \<Rightarrow> direct_result \<Rightarrow> nworld \<Rightarrow> nworld" where
  "settle_result env now m res w =
     (let w = report_all (map (delivered_outcome m (dr_host res)) (dr_accepted res)) w;
          rejected = ev_order env (map fst (dr_rejected res));
          refused = filter (\<lambda>r. Permanent (the (map_of (dr_rejected res) r))) rejected;
          again = filter (\<lambda>r. \<not> Permanent (the (map_of (dr_rejected res) r))) rejected;
          w = report_all (map (\<lambda>r. failed_outcome m True (se_err (the (map_of (dr_rejected res) r))) r) refused) w
      in if again = [] then snd (RemoveSpooled (sm_id m) w)
         else defer_msg now (m\<lparr>sm_recipients := again\<rparr>) ''some recipients deferred'' w)"

definition taken_by :: "spooled \<Rightarrow> direct_result \<Rightarrow> bool \<Rightarrow> nworld \<Rightarrow> nworld" where
  "taken_by m res held w =
     (if held then ((fst w)\<lparr>so_taken := so_taken (fst w) @ map (\<lambda>r. (sm_email_id m, r)) (dr_accepted res)\<rparr>, snd w) else w)"

definition attempt :: "node_env \<Rightarrow> time \<Rightarrow> spooled \<Rightarrow> nworld \<Rightarrow> nworld" where
  "attempt env now m0 w =
     (let m = m0\<lparr>sm_attempts := sm_attempts m0 + 1\<rparr> in
      if expired env now m then giveUp env now m (''gave up after '' @ ev_lifetime_text env) w
      else (case Body (sm_id m) w of
              (Inl _, w) \<Rightarrow> giveUp env now m ''message body was lost on the node'' w
            | (Inr body, w) \<Rightarrow>
                (case Resolve (ev_resolver env) (sm_domain m) of
                   Inl e \<Rightarrow> if me_perm e then giveUp env now m (me_text e) w else defer_msg now m (me_text e) w
                 | Inr hosts \<Rightarrow>
                     (case SendDirect (ev_show_code env) (ev_parse env) (ev_connect env) (ev_peer env) hosts
                             \<lparr>rw_envelope_from = sm_envelope_from m, rw_to = sm_recipients m, rw_data = body\<rparr> of
                        (Inl e, held) \<Rightarrow> if direct_permanent e then giveUp env now m (direct_text e) w
                                         else defer_msg now m (direct_text e) w
                      | (Inr res, held) \<Rightarrow> settle_result env now m res (taken_by m res held w)))))"

text \<open>One pass over what is due; the in-flight set keeps two passes off one message.\<close>

definition pass_once :: "node_env \<Rightarrow> time \<Rightarrow> int \<Rightarrow> string set \<Rightarrow> nworld \<Rightarrow> nworld" where
  "pass_once env now concurrency working w =
     (let n = (if concurrency < 1 then 4 else concurrency) in
      case DueSpooled now (n * 4) w of
        (Inl _, w) \<Rightarrow> w
      | (Inr due, w) \<Rightarrow> foldl (\<lambda>w m. attempt env now m w) w (filter (\<lambda>m. sm_id m \<notin> working) due))"

definition SweepExpired :: "node_env \<Rightarrow> time \<Rightarrow> nworld \<Rightarrow> (spool, unit) answer" where
  "SweepExpired env now w =
     andThen (AllSpooled w) (\<lambda>all w.
       Return () (foldl (\<lambda>w m. giveUp env now m (''gave up after '' @ ev_lifetime_text env) w) w (filter (expired env now) all)))"

section \<open>Claiming\<close>

definition claimedID :: "node_env \<Rightarrow> string \<Rightarrow> string \<Rightarrow> string" where
  "claimedID env emailID domain = emailID @ ''-'' @ ev_hash env domain"

fun by_domain_add :: "string \<Rightarrow> string \<Rightarrow> (string \<times> string list) list \<Rightarrow> (string \<times> string list) list" where
  "by_domain_add domain rcpt [] = [(domain, [rcpt])]"
| "by_domain_add domain rcpt ((d, rs) # groups) =
     (if d = domain then (d, rs @ [rcpt]) # groups else (d, rs) # by_domain_add domain rcpt groups)"

fun group_claimed ::
    "string \<Rightarrow> string list \<Rightarrow> (string \<times> string list) list \<Rightarrow> nworld \<Rightarrow> (spool, (string \<times> string list) list) answer" where
  "group_claimed emailID [] groups w = Return groups w"
| "group_claimed emailID (rcpt # rcpts) groups w =
     (case cut_last (CHR ''@'') rcpt of
        (_, domain, ok) \<Rightarrow>
          if \<not> ok \<or> domain = [] then group_claimed emailID rcpts groups w
          else andThen (HasOutcome emailID rcpt w) (\<lambda>settled w.
                 if settled then group_claimed emailID rcpts groups w
                 else group_claimed emailID rcpts (by_domain_add (to_lower domain) rcpt groups) w))"

definition claimed_entry :: "node_env \<Rightarrow> time \<Rightarrow> claimed_message \<Rightarrow> string \<times> string list \<Rightarrow> spooled" where
  "claimed_entry env now m x =
     \<lparr>sm_id = claimedID env (cm_id m) (fst x), sm_email_id = cm_id m, sm_envelope_from = cm_envelope_from m,
      sm_domain = fst x, sm_recipients = snd x, sm_attempts = 0, sm_accepted_at = now, sm_next_attempt = now,
      sm_last_error = [], sm_size = 0\<rparr>"

fun spool_groups ::
    "node_env \<Rightarrow> time \<Rightarrow> claimed_message \<Rightarrow> (string \<times> string list) list \<Rightarrow> nat \<Rightarrow> nworld \<Rightarrow> (nat \<times> error option) \<times> nworld" where
  "spool_groups env now m [] n w = ((n, None), w)"
| "spool_groups env now m (x # xs) n w =
     (case HasSpooled (claimedID env (cm_id m) (fst x)) w of
        (Inl e, w) \<Rightarrow> ((n, Some e), w)
      | (Inr held, w) \<Rightarrow>
          if held then spool_groups env now m xs n w
          else (case PutSpooled (claimed_entry env now m x) (cm_raw m) w of
                  (Inl e, w) \<Rightarrow> ((n, Some e), w)
                | (Inr _, w) \<Rightarrow> spool_groups env now m xs (Suc n) w))"

definition spoolClaimed :: "node_env \<Rightarrow> time \<Rightarrow> claimed_message \<Rightarrow> nworld \<Rightarrow> (nat \<times> error option) \<times> nworld" where
  "spoolClaimed env now m w =
     (case group_claimed (cm_id m) (cm_recipients m) [] w of
        (Inl e, w) \<Rightarrow> ((0, Some e), w)
      | (Inr groups, w) \<Rightarrow>
          spool_groups env now m (map (\<lambda>d. (d, the (map_of groups d))) (ev_order env (map fst groups))) 0 w)"

definition spool_all :: "node_env \<Rightarrow> time \<Rightarrow> claimed_message list \<Rightarrow> nworld \<Rightarrow> nworld" where
  "spool_all env now msgs w = foldl (\<lambda>w m. snd (spoolClaimed env now m w)) w msgs"

section \<open>The control channel\<close>

text \<open>
  A call on the control plane, whose state is \<open>'p\<close>: what the node hears is its answer or an error,
  fatal or not, whatever the control plane did.
\<close>

type_synonym ('p, 'q, 'a) control_call = "'q \<Rightarrow> 'p \<Rightarrow> (bool + 'a) \<times> 'p"

definition wire_outcome :: "node_outcome \<Rightarrow> report_outcome" where
  "wire_outcome out = \<lparr>ro_email_id = no_email_id out, ro_recipient = no_recipient out, ro_delivered = no_delivered out,
     ro_permanent = no_permanent out, ro_reason = no_reason out\<rparr>"

definition flushOutcomes :: "('p, report_outcome list, unit) control_call \<Rightarrow> 'p \<times> nworld \<Rightarrow> 'p \<times> nworld" where
  "flushOutcomes call x =
     (case Outcomes 200 (snd x) of
        (Inl _, w) \<Rightarrow> (fst x, w)
      | (Inr [], w) \<Rightarrow> (fst x, w)
      | (Inr outs, w) \<Rightarrow>
          (case call (map (wire_outcome \<circ> snd) outs) (fst x) of
             (Inl False, p) \<Rightarrow> (p, w)
           | (_, p) \<Rightarrow> (p, snd (RemoveOutcomes (map fst outs) w))))"

text \<open>The first half of a turn of the claim loop asks, naming what the node holds, the second spools the answer.\<close>

definition holding :: "nworld \<Rightarrow> string list \<times> nworld" where
  "holding w = (case EmailIDs w of (Inl _, w) \<Rightarrow> ([], w) | (Inr ids, w) \<Rightarrow> (ids, w))"

definition ask :: "('p, string list, claimed_message list) control_call \<Rightarrow> 'p \<times> nworld \<Rightarrow> claimed_message list \<times> 'p \<times> nworld" where
  "ask call x =
     (case holding (snd x) of
        (ids, w) \<Rightarrow> (case call ids (fst x) of (Inl _, p) \<Rightarrow> ([], p, w) | (Inr msgs, p) \<Rightarrow> (msgs, p, w)))"

end
