(* ===== verification/Headers.thy ===== *)
theory Headers
  imports Prelude
begin

text \<open>
  Custom message headers (\<^verbatim>\<open>internal/core/mailheader\<close>): which a caller may set, how a project's defaults
  are laid under them and what a forwarded message may keep.  A Go map is the list of its entries in
  the order an iteration takes them.
\<close>

type_synonym headers = "(string \<times> string) list"

definition MaxCustom :: nat where "MaxCustom = 20"
definition MaxNameLen :: nat where "MaxNameLen = 128"
definition MaxValueLen :: nat where "MaxValueLen = 4096"

definition ControlPrefix :: string where "ControlPrefix = ''x-mailyard-''"
definition ResentPrefix :: string where "ResentPrefix = ''resent-''"
definition MIMEPrefix :: string where "MIMEPrefix = ''content-''"

definition reserved :: "string list" where
  "reserved =
    [''from'', ''to'', ''cc'', ''bcc'', ''subject'', ''date'',
     ''mime-version'', ''list-unsubscribe'', ''list-unsubscribe-post'',
     ''return-path'', ''message-id'', ''received'', ''dkim-signature'',
     ''reply-to'', ''sender'', ''disposition-notification-to'',
     ''return-receipt-to'', ''errors-to'']"

definition has_prefix :: "string \<Rightarrow> string \<Rightarrow> bool" where
  "has_prefix s p = snd (cut_prefix p s)"

definition Reserved :: "string \<Rightarrow> bool" where
  "Reserved name =
     (let lower = to_lower name in
      List.member reserved lower \<or> has_prefix lower ControlPrefix \<or> has_prefix lower MIMEPrefix \<or>
      has_prefix lower ResentPrefix)"

definition ValidName :: "string \<Rightarrow> bool" where
  "ValidName name =
     (name \<noteq> [] \<and> list_all (\<lambda>c. 33 \<le> (of_char c :: nat) \<and> (of_char c :: nat) \<le> 126 \<and> c \<noteq> CHR '':'') name)"

definition validValue :: "string \<Rightarrow> bool" where
  "validValue v = list_all (\<lambda>c. \<not> ((of_char c :: nat) < 32 \<and> c \<noteq> CHR 0x09) \<and> (of_char c :: nat) \<noteq> 127) v"

datatype header_fault =
    KindInvalidName string | KindReserved string | KindInvalidValue string | KindTooMany
  | KindTooLong string | KindDuplicate string

fun fault_name :: "header_fault \<Rightarrow> string" where
  "fault_name (KindInvalidName n) = n"
| "fault_name (KindReserved n) = n"
| "fault_name (KindInvalidValue n) = n"
| "fault_name KindTooMany = []"
| "fault_name (KindTooLong n) = n"
| "fault_name (KindDuplicate n) = n"

definition quoted :: "string \<Rightarrow> string" where
  "quoted s = [CHR 0x22] @ s @ [CHR 0x22]"

fun fault_text :: "header_fault \<Rightarrow> error" where
  "fault_text (KindInvalidName n) = ''header '' @ quoted n @ '' is not a valid header name''"
| "fault_text (KindReserved n) = ''header '' @ quoted n @ '' is reserved and cannot be overridden''"
| "fault_text (KindInvalidValue n) = ''header '' @ quoted n @ '' contains invalid characters''"
| "fault_text KindTooMany = ''at most 20 custom headers''"
| "fault_text (KindTooLong n) =
     ''header '' @ quoted n @ '' is too long: a name is at most 128 characters, a value 4096''"
| "fault_text (KindDuplicate n) =
     ''header '' @ quoted n @ '' is given more than once, header names are compared without regard to case''"

fun validate_each :: "string set \<Rightarrow> headers \<Rightarrow> header_fault option" where
  "validate_each seen [] = None"
| "validate_each seen ((name, val) # hs) =
     (if \<not> ValidName name then Some (KindInvalidName name)
      else if to_lower name \<in> seen then Some (KindDuplicate name)
      else if Reserved name then Some (KindReserved name)
      else if MaxNameLen < length name \<or> MaxValueLen < length val then Some (KindTooLong name)
      else if \<not> validValue val then Some (KindInvalidValue name)
      else validate_each (insert (to_lower name) seen) hs)"

definition ValidateHeaders :: "headers \<Rightarrow> header_fault option" where
  "ValidateHeaders hs = (if MaxCustom < length hs then Some KindTooMany else validate_each {} hs)"

definition hasFold :: "headers \<Rightarrow> string \<Rightarrow> bool" where
  "hasFold hs name = list_ex (\<lambda>(k, _). equal_fold k name) hs"

definition listedFold :: "string list \<Rightarrow> string \<Rightarrow> bool" where
  "listedFold ks name = list_ex (\<lambda>k. equal_fold k name) ks"

definition Merge :: "headers \<Rightarrow> headers \<Rightarrow> headers" where
  "Merge defaults own =
     (if defaults = [] then own else filter (\<lambda>(name, _). \<not> hasFold own name) defaults @ own)"

definition Forwardable :: "headers \<Rightarrow> string list \<Rightarrow> headers" where
  "Forwardable parsed drops = filter (\<lambda>(name, _). \<not> (Reserved name \<or> listedFold drops name)) parsed"

section \<open>What passes\<close>

text \<open>A set of headers that may be written: distinct names in any case, none of the builder's, no line break.\<close>

definition header_ok :: "string \<times> string \<Rightarrow> bool" where
  "header_ok h = (ValidName (fst h) \<and> \<not> Reserved (fst h) \<and> validValue (snd h))"

definition headers_ok :: "headers \<Rightarrow> bool" where
  "headers_ok hs = (distinct (map (to_lower \<circ> fst) hs) \<and> list_all header_ok hs)"

lemma validate_each_ok:
  "validate_each seen hs = None \<Longrightarrow>
   distinct (map (to_lower \<circ> fst) hs) \<and> list_all header_ok hs \<and> (to_lower \<circ> fst) ` set hs \<inter> seen = {}"
  by (induction seen hs rule: validate_each.induct) (auto simp: header_ok_def split: if_splits)

lemma ValidateHeaders_ok: "ValidateHeaders hs = None \<Longrightarrow> headers_ok hs \<and> length hs \<le> MaxCustom"
  using validate_each_ok [of "{}" hs] by (auto simp: ValidateHeaders_def headers_ok_def split: if_splits)

lemma hasFold_iff: "hasFold hs name \<longleftrightarrow> (\<exists>h \<in> set hs. to_lower (fst h) = to_lower name)"
  by (force simp: hasFold_def equal_fold_def list_ex_iff)

lemma Merge_ok:
  assumes "headers_ok defaults" "headers_ok own"
  shows "headers_ok (Merge defaults own)"
proof -
  let ?keep = "filter (\<lambda>(name, _). \<not> hasFold own name) defaults"
  have "distinct (map (to_lower \<circ> fst) ?keep)"
    using assms(1) by (simp add: headers_ok_def distinct_map_filter)
  moreover have "(to_lower \<circ> fst) ` set ?keep \<inter> (to_lower \<circ> fst) ` set own = {}"
    by (fastforce simp: hasFold_iff)
  ultimately show ?thesis
    using assms by (auto simp: headers_ok_def Merge_def list_all_iff)
qed

lemma map_of_filter_keys: "map_of (filter (\<lambda>(name, _). P name) hs) k = (if P k then map_of hs k else None)"
  by (induction hs) auto

text \<open>A default stands where the message says nothing of that name, in any case.\<close>

lemma Merge_lookup:
  "map_of (Merge defaults own) k =
     (case map_of own k of Some v \<Rightarrow> Some v | None \<Rightarrow> if hasFold own k then None else map_of defaults k)"
proof (cases "hasFold own k")
  case True
  then show ?thesis
    by (simp add: Merge_def map_of_filter_keys map_add_def split: option.splits)
next
  case False
  then have "map_of own k = None" by (force simp: hasFold_iff map_of_eq_None_iff)
  with False show ?thesis by (simp add: Merge_def map_of_filter_keys map_add_def split: option.split)
qed

lemma Forwardable_ok: "h \<in> set (Forwardable parsed drops) \<Longrightarrow> \<not> Reserved (fst h)"
  by (auto simp: Forwardable_def)

lemma no_break_iff: "\<not> has_line_break s \<longleftrightarrow> (\<forall>c \<in> set s. (of_char c :: nat) \<noteq> 13 \<and> (of_char c :: nat) \<noteq> 10)"
  by (auto simp: has_line_break_def list_ex_iff)

lemma header_no_break:
  assumes "header_ok h"
  shows "\<not> has_line_break (fst h) \<and> \<not> has_line_break (snd h)"
proof -
  have "(of_char c :: nat) \<noteq> 13 \<and> (of_char c :: nat) \<noteq> 10" if "c \<in> set (fst h)" for c
    using assms that by (fastforce simp: header_ok_def ValidName_def list_all_iff)
  moreover have "(of_char c :: nat) \<noteq> 13 \<and> (of_char c :: nat) \<noteq> 10" if "c \<in> set (snd h)" for c
  proof (cases "c = CHR 0x09")
    case False
    with assms that show ?thesis by (fastforce simp: header_ok_def validValue_def list_all_iff)
  qed simp
  ultimately show ?thesis unfolding no_break_iff by blast
qed

end
