(* ===== verification/Accept.thy ===== *)
theory Accept
  imports Processor EmailLog Headers "HOL-Library.AList"
begin

text \<open>
  Accepting a message (\<^verbatim>\<open>internal/domain/email/service.go\<close>): the checks of a request, the plan's volume
  (\<^verbatim>\<open>internal/core/quota\<close>), the row that is stored, the dry run of all that, and the retry and the
  cancellation of a stored message.  Parsing of addresses, URLs and media types is the standard
  library's and an argument, and so are the signed links and the rewriting of a body for tracking.
\<close>

section \<open>State\<close>

text \<open>The columns of a project and of a plan the accept path reads.\<close>

record project_conf =
  pc_id :: string
  pc_name :: string
  pc_plan_id :: string
  pc_strict_senders :: bool
  pc_track_opens :: bool
  pc_track_clicks :: bool
  pc_default_headers :: headers

record plan =
  pl_id :: string
  pl_name :: string
  pl_is_default :: bool
  pl_hourly :: int
  pl_daily :: int

record tracked_link =
  tl_project_id :: string
  tl_campaign_id :: string
  tl_original_url :: string
  tl_hash :: string

text \<open>\<open>ac_events\<close> and \<open>ac_withdrawn\<close> are what the dispatcher and the campaign runner were told.\<close>

record accept_db =
  ac_proc :: proc_db
  ac_db :: db
  ac_projects :: "project_conf list"
  ac_plans :: "plan list"
  ac_links :: "tracked_link list"
  ac_blobs :: "(string \<times> string) list"
  ac_captures :: "(string \<times> string) list"
  ac_events :: "(string \<times> email) list"
  ac_withdrawn :: "(string \<times> string) list"

type_synonym aworld = "accept_db world"

definition in_proc :: "(pworld \<Rightarrow> (proc_db, 'a) answer) \<Rightarrow> aworld \<Rightarrow> (accept_db, 'a) answer" where
  "in_proc = Zoom ac_proc (\<lambda>t s. s\<lparr>ac_proc := t\<rparr>)"

text \<open>The email store keeps the faults to come in its own state.\<close>

definition in_store :: "(db \<Rightarrow> (error + 'a) \<times> db) \<Rightarrow> aworld \<Rightarrow> (accept_db, 'a) answer" where
  "in_store m w =
     (case m ((ac_db (fst w))\<lparr>db_faults := snd w\<rparr>) of
        (r, d) \<Rightarrow> (r, ((fst w)\<lparr>ac_db := d\<lparr>db_faults := db_faults (ac_db (fst w))\<rparr>\<rparr>, db_faults d)))"

definition Emit :: "string \<Rightarrow> email \<Rightarrow> aworld \<Rightarrow> aworld" where
  "Emit name e w = ((fst w)\<lparr>ac_events := ac_events (fst w) @ [(name, e)]\<rparr>, snd w)"

definition GetProject :: "string \<Rightarrow> aworld \<Rightarrow> (accept_db, project_conf option) answer" where
  "GetProject i = Read (\<lambda>s. find (\<lambda>p. pc_id p = i) (ac_projects s))"

definition GetPlan :: "string \<Rightarrow> aworld \<Rightarrow> (accept_db, plan option) answer" where
  "GetPlan i = Read (\<lambda>s. find (\<lambda>p. pl_id p = i) (ac_plans s))"

definition GetDefaultPlan :: "aworld \<Rightarrow> (accept_db, plan option) answer" where
  "GetDefaultPlan = Read (\<lambda>s. find pl_is_default (ac_plans s))"

definition UpsertTrackedLink :: "tracked_link \<Rightarrow> aworld \<Rightarrow> (accept_db, unit) answer" where
  "UpsertTrackedLink l =
     Run (\<lambda>s. (if list_ex (\<lambda>k. tl_project_id k = tl_project_id l \<and> tl_campaign_id k = tl_campaign_id l \<and>
                     tl_hash k = tl_hash l) (ac_links s)
               then s else s\<lparr>ac_links := ac_links s @ [l]\<rparr>, ()))"

section \<open>Failures\<close>

datatype send_failure = Rejected error | Conflicting error | OverQuota error | Broken error

type_synonym 'a verdict = "(send_failure + 'a) \<times> aworld"

text \<open>The early returns: of a statement that failed, and of a step that refused.\<close>

definition asking :: "(accept_db, 'a) answer \<Rightarrow> ('a \<Rightarrow> aworld \<Rightarrow> 'b verdict) \<Rightarrow> 'b verdict" where
  "asking r k = (case r of (Inl e, w) \<Rightarrow> (Inl (Broken e), w) | (Inr x, w) \<Rightarrow> k x w)"

definition passing :: "'a verdict \<Rightarrow> ('a \<Rightarrow> aworld \<Rightarrow> 'b verdict) \<Rightarrow> 'b verdict" where
  "passing r k = (case r of (Inl e, w) \<Rightarrow> (Inl e, w) | (Inr x, w) \<Rightarrow> k x w)"

definition accepted :: "'a \<Rightarrow> aworld \<Rightarrow> 'a verdict" where
  "accepted x w = (Inr x, w)"

definition refused :: "send_failure \<Rightarrow> aworld \<Rightarrow> 'a verdict" where
  "refused e w = (Inl e, w)"

definition sendFailure :: "send_failure \<Rightarrow> 'a response" where
  "sendFailure e =
     (case e of Rejected m \<Rightarrow> BadRequest m | Conflicting m \<Rightarrow> Conflict m | OverQuota m \<Rightarrow> TooManyRequests m
      | Broken m \<Rightarrow> Internal m)"

section \<open>The request\<close>

record send_request =
  rq_id :: string
  rq_from :: string
  rq_credential_id :: string
  rq_to :: "string list"
  rq_header_to :: string
  rq_cc :: string
  rq_reply_to :: string
  rq_subject :: string
  rq_html :: string
  rq_text :: string
  rq_headers :: headers
  rq_tags :: "string list"
  rq_metadata :: "string \<rightharpoonup> string"
  rq_attachments :: "attachment list"
  rq_send_at :: "time option"
  rq_template_name :: string
  rq_unsubscribe_url :: string
  rq_unsubscribe_mailto :: string
  rq_unsubscribe_post :: bool
  rq_unsubscribe_list_id :: string
  rq_track_off :: bool
  rq_disable_signing :: bool
  rq_tracked :: bool
  rq_route :: route
  rq_system :: bool

record url =
  u_scheme :: string
  u_host :: string
  u_opaque :: string
  u_text :: string

text \<open>Signing of links and rewriting of a body, when there is a public address and a key.\<close>

record tracker =
  tk_unsubscribe :: "string \<Rightarrow> string \<Rightarrow> string"
  tk_web_view :: "string \<Rightarrow> string"
  tk_process :: "string \<Rightarrow> string \<Rightarrow> bool \<Rightarrow> bool \<Rightarrow> string \<Rightarrow> string \<times> (string \<times> string) list"

record windows =
  wi_meta :: int
  wi_body :: int
  wi_attachment :: int

record service =
  sv_max_recipients :: int
  sv_max_attachment :: int
  sv_max_total :: int
  sv_max_attempts :: int
  sv_blob :: bool
  sv_tracking :: "tracker option"
  sv_settings :: "windows option"
  sv_parse :: parser
  sv_print :: "string \<Rightarrow> string \<Rightarrow> string"
  sv_url :: "string \<Rightarrow> url option"
  sv_media :: "string \<Rightarrow> bool"
  sv_uuid :: "string \<Rightarrow> int list option"
  sv_show :: "int \<Rightarrow> string"

text \<open>The readings of the clock while one request is served.\<close>

record instants =
  at_shape :: time
  at_route :: time
  at_quota :: time
  at_row :: time

section \<open>Attachments\<close>

text \<open>Standard base64: line breaks are skipped, the padding ends the last group of four.\<close>

definition std_char :: "char \<Rightarrow> char" where
  "std_char c =
     (if c = CHR ''+'' then CHR ''-'' else if c = CHR ''/'' then CHR ''_''
      else if c = CHR ''-'' \<or> c = CHR ''_'' then CHR ''='' else c)"

definition unpadded :: "string \<Rightarrow> string" where
  "unpadded s =
     (if has_suffix s ''=='' then take (length s - 2) s else if has_suffix s ''='' then take (length s - 1) s else s)"

definition StdDecode :: "string \<Rightarrow> string option" where
  "StdDecode s0 =
     (let s = filter (\<lambda>c. c \<noteq> CHR 0x0D \<and> c \<noteq> CHR 0x0A) s0 in
      if length s mod 4 \<noteq> 0 then None else b64_decode (map std_char (unpadded s)))"

definition decodedLen :: "string \<Rightarrow> int" where
  "decodedLen b64 =
     (let n = int (length b64 div 4 * 3) in
      if has_suffix b64 ''=='' then n - 2 else if has_suffix b64 ''='' then n - 1 else n)"

fun attachments_fault :: "service \<Rightarrow> int \<Rightarrow> client_attachment list \<Rightarrow> int \<Rightarrow> error option" where
  "attachments_fault sv maxTotal [] sofar =
     (if maxTotal < sofar then Some (''total attachment size exceeds maximum of '' @ sv_show sv maxTotal @ '' bytes'') else None)"
| "attachments_fault sv maxTotal (a # as) sofar =
     (if ca_filename a = [] then Some ''attachment filename is required''
      else if ca_content_type a \<noteq> [] \<and> \<not> sv_media sv (ca_content_type a)
      then Some (''attachment '' @ quoted (ca_filename a) @ '' has an invalid content type '' @ quoted (ca_content_type a))
      else (case StdDecode (ca_content a) of
              None \<Rightarrow> Some (''attachment '' @ quoted (ca_filename a) @ '' has invalid base64 content'')
            | Some decoded \<Rightarrow>
                if sv_max_attachment sv < int (length decoded)
                then Some (''attachment '' @ quoted (ca_filename a) @ '' exceeds maximum size of '' @ sv_show sv (sv_max_attachment sv) @ '' bytes'')
                else attachments_fault sv maxTotal as (sofar + int (length decoded))))"

definition own_attachment :: "attachment \<Rightarrow> bool" where
  "own_attachment a = (at_template_attachment_id a = [] \<and> at_template_asset_id a = [])"

definition attachment_total :: "attachment list \<Rightarrow> int" where
  "attachment_total as = sum_list (map (\<lambda>a. if own_attachment a then decodedLen (at_content a) else at_size a) as)"

definition validateAttachments :: "service \<Rightarrow> attachment list \<Rightarrow> error option" where
  "validateAttachments sv as =
     (case attachments_fault sv (sv_max_total sv) (toClientAttachments (filter own_attachment as)) 0 of
        Some e \<Rightarrow> Some e
      | None \<Rightarrow>
          if sv_max_total sv < attachment_total as
          then Some (''total attachment size exceeds maximum of '' @ sv_show sv (sv_max_total sv) @ '' bytes'') else None)"

definition safe_char :: "char \<Rightarrow> bool" where
  "safe_char c =
     (let n = (of_char c :: nat) in
      97 \<le> n \<and> n \<le> 122 \<or> 65 \<le> n \<and> n \<le> 90 \<or> 48 \<le> n \<and> n \<le> 57 \<or> c \<in> {CHR ''-'', CHR ''_'', CHR ''.''})"

definition trim_set :: "char set \<Rightarrow> string \<Rightarrow> string" where
  "trim_set cs s = rev (dropWhile (\<lambda>c. c \<in> cs) (rev (dropWhile (\<lambda>c. c \<in> cs) s)))"

definition SanitizeFilename :: "string \<Rightarrow> string" where
  "SanitizeFilename name =
     (if name = [] then ''attachment''
      else (let out = trim_set {CHR ''.'', CHR ''_''}
                  (map (\<lambda>r. if length r = 1 \<and> safe_char (hd r) then hd r else CHR ''_'') (runes name))
            in if out = [] then ''attachment'' else take 120 out))"

section \<open>The shape of a message\<close>

definition parses :: "service \<Rightarrow> string \<Rightarrow> bool" where
  "parses sv addr = (sv_parse sv addr \<noteq> None)"

definition maxUnsubscribeLinkLen :: nat where "maxUnsubscribeLinkLen = 1000"

definition url_fault :: "service \<Rightarrow> string \<Rightarrow> error option" where
  "url_fault sv u =
     (if u = [] then None
      else if maxUnsubscribeLinkLen < length u then Some ''list_unsubscribe_url is longer than 1000 characters''
      else if has_line_break u then Some ''list_unsubscribe_url contains a line break''
      else (case sv_url sv u of
              None \<Rightarrow> Some (''list_unsubscribe_url '' @ quoted u @ '' is not a valid URL'')
            | Some p \<Rightarrow>
                if u_scheme p \<notin> {''http'', ''https''} then
                  Some (if u_scheme p = ''mailto'' then ''list_unsubscribe_url '' @ quoted u @ '' is a mailto - put it in list_unsubscribe_mailto''
                        else if u_scheme p = [] then ''list_unsubscribe_url '' @ quoted u @ '' needs an http:// or https:// prefix''
                        else ''list_unsubscribe_url must be http or https, got '' @ quoted (u_scheme p))
                else if u_host p = [] then Some (''list_unsubscribe_url '' @ quoted u @ '' has no host'')
                else None))"

definition mailto_form :: "service \<Rightarrow> string \<Rightarrow> error + string" where
  "mailto_form sv m0 =
     (if m0 = [] then Inr []
      else if maxUnsubscribeLinkLen < length m0 then Inl ''list_unsubscribe_mailto is longer than 1000 characters''
      else if has_line_break m0 then Inl ''list_unsubscribe_mailto contains a line break''
      else (let m = (if CHR '':'' \<in> set m0 then m0 else ''mailto:'' @ m0) in
        case sv_url sv m of
          None \<Rightarrow> Inl (''list_unsubscribe_mailto '' @ quoted m0 @ '' must be a mailto: address'')
        | Some p \<Rightarrow>
            if u_scheme p \<noteq> ''mailto'' then Inl (''list_unsubscribe_mailto '' @ quoted m0 @ '' must be a mailto: address'')
            else if \<not> parses sv (u_opaque p) then Inl (''list_unsubscribe_mailto '' @ quoted m0 @ '' does not carry a valid address'')
            else Inr (u_text p)))"

definition normalizeUnsubscribeLinks :: "service \<Rightarrow> send_request \<Rightarrow> error + send_request" where
  "normalizeUnsubscribeLinks sv rq =
     (let url = trim_space (rq_unsubscribe_url rq) in
      case url_fault sv url of
        Some e \<Rightarrow> Inl e
      | None \<Rightarrow>
          (case mailto_form sv (trim_space (rq_unsubscribe_mailto rq)) of
             Inl e \<Rightarrow> Inl e
           | Inr m \<Rightarrow>
               if rq_unsubscribe_post rq \<and> url = [] then
                 Inl ''list_unsubscribe_post requires an http(s) list_unsubscribe_url: one-click is a POST and a mailto cannot receive one''
               else if rq_unsubscribe_list_id rq \<noteq> [] \<and> (url \<noteq> [] \<or> m \<noteq> []) then
                 Inl ''unsubscribe_list_id makes Mailyard mint its own List-Unsubscribe, so it cannot be combined with list_unsubscribe_url or list_unsubscribe_mailto''
               else Inr (rq\<lparr>rq_unsubscribe_url := url, rq_unsubscribe_mailto := m\<rparr>)))"

definition reservedHeaderHint :: "(string \<times> string) list" where
  "reservedHeaderHint =
    [(''list-unsubscribe'', ''use list_unsubscribe_url and list_unsubscribe_mailto''),
     (''list-unsubscribe-post'', ''use list_unsubscribe_post''), (''reply-to'', ''use reply_to''),
     (''to'', ''use to''), (''cc'', ''use cc''), (''bcc'', ''use bcc'')]"

definition header_refusal :: "header_fault \<Rightarrow> error" where
  "header_refusal f =
     (case (f, map_of reservedHeaderHint (to_lower (fault_name f))) of
        (KindReserved _, Some hint) \<Rightarrow> fault_text f @ '' - '' @ hint
      | _ \<Rightarrow> fault_text f)"

definition address_fault :: "service \<Rightarrow> string \<Rightarrow> string \<Rightarrow> error option" where
  "address_fault sv what addr =
     (if has_line_break addr then Some (what @ '' address contains a line break'')
      else if \<not> parses sv addr then Some (what @ '' address '' @ quoted addr @ '' is invalid'')
      else None)"

fun recipients_fault :: "service \<Rightarrow> string list \<Rightarrow> error option" where
  "recipients_fault sv [] = None"
| "recipients_fault sv (r # rs) =
     (case address_fault sv ''recipient'' r of Some e \<Rightarrow> Some e | None \<Rightarrow> recipients_fault sv rs)"

definition first_fault :: "error option list \<Rightarrow> error option" where
  "first_fault fs = (case filter (\<lambda>f. f \<noteq> None) fs of [] \<Rightarrow> None | f # _ \<Rightarrow> f)"

definition shape_fault :: "service \<Rightarrow> time \<Rightarrow> send_request \<Rightarrow> error option" where
  "shape_fault sv now rq = first_fault
     [address_fault sv ''from'' (rq_from rq),
      if has_line_break (rq_header_to rq) \<or> has_line_break (rq_cc rq) then Some ''a recipient header contains a line break'' else None,
      if rq_reply_to rq \<noteq> [] then address_fault sv ''reply_to'' (rq_reply_to rq) else None,
      if rq_to rq = [] then Some ''at least one recipient is required'' else None,
      if 0 < sv_max_recipients sv \<and> sv_max_recipients sv < int (length (rq_to rq))
      then Some (''too many recipients: '' @ sv_show sv (int (length (rq_to rq))) @ '' exceeds the limit of '' @ sv_show sv (sv_max_recipients sv)) else None,
      recipients_fault sv (rq_to rq),
      if trim_space (rq_subject rq) = [] then Some ''subject is required'' else None,
      if trim_space (rq_html rq) = [] \<and> trim_space (rq_text rq) = [] then Some ''either html or text body is required'' else None,
      map_option header_refusal (ValidateHeaders (rq_headers rq)),
      if rq_attachments rq \<noteq> [] then validateAttachments sv (rq_attachments rq) else None,
      (case rq_send_at rq of
         None \<Rightarrow> None
       | Some t \<Rightarrow> if t < now - 60000000000 then Some ''send_at is in the past'' else None)]"

definition ValidateShape :: "service \<Rightarrow> time \<Rightarrow> send_request \<Rightarrow> send_failure + send_request" where
  "ValidateShape sv now rq =
     (case shape_fault sv now rq of
        Some e \<Rightarrow> Inl (Rejected e)
      | None \<Rightarrow> (case normalizeUnsubscribeLinks sv rq of Inl e \<Rightarrow> Inl (Rejected e) | Inr rq \<Rightarrow> Inr rq))"

section \<open>The checks of a send\<close>

definition require_sender :: "service \<Rightarrow> string \<Rightarrow> string \<Rightarrow> aworld \<Rightarrow> unit verdict" where
  "require_sender sv projID sender w =
     (case RequireVerifiedSender (sv_parse sv) projID sender (pd_smtp (ac_proc (fst w)), snd w) of
        (r, (t, fs)) \<Rightarrow>
          (let w = ((fst w)\<lparr>ac_proc := (ac_proc (fst w))\<lparr>pd_smtp := t\<rparr>\<rparr>, fs) in
           case r of
             None \<Rightarrow> accepted () w
           | Some (RequestError e) \<Rightarrow> refused (Rejected e) w
           | Some (StoreError e) \<Rightarrow> refused (Broken e) w))"

definition check_list :: "string \<Rightarrow> send_request \<Rightarrow> aworld \<Rightarrow> unit verdict" where
  "check_list projID rq w =
     (if rq_unsubscribe_list_id rq = [] then accepted () w
      else if 1 < length (rq_to rq) then refused (Rejected ''a send scoped to an unsubscribe list must have exactly one recipient'') w
      else asking (in_proc (in_sup (GetList projID (rq_unsubscribe_list_id rq))) w) (\<lambda>l w.
        if l = None then refused (Rejected (''unsubscribe list '' @ quoted (rq_unsubscribe_list_id rq) @ '' not found in this project'')) w
        else accepted () w))"

definition check_strict :: "string \<Rightarrow> string \<Rightarrow> aworld \<Rightarrow> unit verdict" where
  "check_strict projID sender w =
     asking (GetProject projID w) (\<lambda>p w.
       case p of
         None \<Rightarrow> accepted () w
       | Some p \<Rightarrow>
           if \<not> pc_strict_senders p then accepted () w
           else asking (in_proc (GetSenderByEmail projID sender) w) (\<lambda>reg w.
             if reg = None then refused (Rejected (''sender '' @ quoted sender @ '' is not a registered sender address (strict mode is on for this project)'')) w
             else accepted () w))"

definition check_route :: "service \<Rightarrow> instants \<Rightarrow> string \<Rightarrow> string \<Rightarrow> route \<Rightarrow> aworld \<Rightarrow> unit verdict" where
  "check_route sv at projID sender route w =
     asking (in_proc (in_smtp (ResolveServer (at_route at) (sv_parse sv) projID sender route)) w) (\<lambda>srv w.
       if srv = None then refused (Rejected (''no enabled smtp server accepts sender '' @ quoted sender @ '', configure one first'')) w
       else accepted () w)"

text \<open>The request comes back with its unsubscribe links in the form they are stored in.\<close>

definition Validate :: "service \<Rightarrow> instants \<Rightarrow> string \<Rightarrow> send_request \<Rightarrow> aworld \<Rightarrow> send_request verdict" where
  "Validate sv at projID rq w =
     (case ValidateShape sv (at_shape at) rq of
        Inl e \<Rightarrow> refused e w
      | Inr rq \<Rightarrow>
          (let sender = senderAddress (sv_parse sv) (rq_from rq) in
           passing (require_sender sv projID sender w) (\<lambda>_ w.
           passing (check_route sv at projID sender (rq_route rq) w) (\<lambda>_ w.
           passing (check_list projID rq w) (\<lambda>_ w.
           if rq_system rq then accepted rq w
           else passing (check_strict projID sender w) (\<lambda>_ w. accepted rq w))))))"

section \<open>The plan's volume\<close>

record volume =
  vo_hourly :: int
  vo_daily :: int
  vo_plan :: string

definition no_volume :: volume where "no_volume = \<lparr>vo_hourly = 0, vo_daily = 0, vo_plan = []\<rparr>"

definition Bounded :: "volume \<Rightarrow> bool" where "Bounded v = (0 < vo_hourly v \<or> 0 < vo_daily v)"

definition WindowHour :: string where "WindowHour = ''hour''"
definition WindowDay :: string where "WindowDay = ''day''"

definition Refused_in :: "service \<Rightarrow> volume \<Rightarrow> string \<Rightarrow> send_failure" where
  "Refused_in sv v window =
     OverQuota (if window = WindowHour
       then ''hourly email limit reached ('' @ sv_show sv (vo_hourly v) @ '' per hour on plan '' @ quoted (vo_plan v) @ '')''
       else ''daily email limit reached ('' @ sv_show sv (vo_daily v) @ '' per day on plan '' @ quoted (vo_plan v) @ '')'')"

definition planFor :: "string \<Rightarrow> aworld \<Rightarrow> (accept_db, plan option) answer" where
  "planFor projID w =
     andThen (GetProject projID w) (\<lambda>p w.
       case p of
         None \<Rightarrow> Return None w
       | Some p \<Rightarrow> if pc_plan_id p \<noteq> [] then GetPlan (pc_plan_id p) w else GetDefaultPlan w)"

definition check_window :: "service \<Rightarrow> string \<Rightarrow> volume \<Rightarrow> string \<Rightarrow> int \<Rightarrow> time \<Rightarrow> aworld \<Rightarrow> unit verdict" where
  "check_window sv projID vol window limit since w =
     (if limit \<le> 0 then accepted () w
      else asking (in_store (AcceptedSince projID since) w) (\<lambda>n w.
        if limit \<le> n then refused (Refused_in sv vol window) w else accepted () w))"

definition CheckSend :: "service \<Rightarrow> time \<Rightarrow> string \<Rightarrow> aworld \<Rightarrow> volume verdict" where
  "CheckSend sv now projID w =
     asking (planFor projID w) (\<lambda>p w.
       case p of
         None \<Rightarrow> accepted no_volume w
       | Some p \<Rightarrow>
           if pl_hourly p \<le> 0 \<and> pl_daily p \<le> 0 then accepted no_volume w
           else (let vol = \<lparr>vo_hourly = max (pl_hourly p) 0, vo_daily = max (pl_daily p) 0, vo_plan = pl_name p\<rparr> in
             passing (check_window sv projID vol WindowHour (pl_hourly p) (now - hour) w) (\<lambda>_ w.
             passing (check_window sv projID vol WindowDay (pl_daily p) (now - day) w) (\<lambda>_ w.
             accepted vol w))))"

section \<open>The row\<close>

definition withDisplayRecipients :: "send_request \<Rightarrow> string \<rightharpoonup> string" where
  "withDisplayRecipients rq =
     (let put = (\<lambda>k v h. if v = [] then h else h(k \<mapsto> v)) in
      put HeaderReplyTo (rq_reply_to rq) (put HeaderDisplayCc (rq_cc rq)
        (put HeaderDisplayTo (rq_header_to rq) (map_of (rq_headers rq)))))"

definition withProjectDefaults :: "string \<Rightarrow> send_request \<Rightarrow> aworld \<Rightarrow> (accept_db, send_request) answer" where
  "withProjectDefaults projID rq w =
     andThen (GetProject projID w) (\<lambda>p w.
       Return (case p of None \<Rightarrow> rq | Some p \<Rightarrow> rq\<lparr>rq_headers := Merge (pc_default_headers p) (rq_headers rq)\<rparr>) w)"

type_synonym registered = "(sender_row \<times> signing_key option) option"

definition registeredSender :: "service \<Rightarrow> string \<Rightarrow> string \<Rightarrow> aworld \<Rightarrow> registered \<times> aworld" where
  "registeredSender sv projID from w =
     (let addr = EnvelopeAddress (sv_parse sv) from in
      if addr = [] then (None, w)
      else (case in_proc (GetSenderByEmail projID (to_lower addr)) w of
              (Inl _, w) \<Rightarrow> (None, w)
            | (Inr reg, w) \<Rightarrow> (reg, w)))"

definition withRegisteredName :: "service \<Rightarrow> registered \<Rightarrow> string \<Rightarrow> string" where
  "withRegisteredName sv reg from =
     (case reg of
        None \<Rightarrow> from
      | Some (r, _) \<Rightarrow>
          if sn_name r = [] then from
          else (let addr = EnvelopeAddress (sv_parse sv) from in
                if addr \<noteq> trim_space from then from else FormatAddress (sv_print sv) (sn_name r) addr))"

definition mintsLinks :: "string \<Rightarrow> string \<Rightarrow> aworld \<Rightarrow> (accept_db, bool) answer" where
  "mintsLinks projID listID w =
     (if listID = [] then Return False w
      else andThen (in_proc (in_sup (GetList projID listID)) w) (\<lambda>l w.
        Return (case l of None \<Rightarrow> False | Some l \<Rightarrow> ul_active l) w))"

text \<open>The placeholders a template leaves for links only the message knows.\<close>

definition webViewPlaceholder :: string where "webViewPlaceholder = ''/__mailyard_web_view__''"
definition unsubscribePlaceholder :: string where "unsubscribePlaceholder = ''/__mailyard_unsubscribe__''"

fun swap_all :: "string \<Rightarrow> string \<Rightarrow> nat \<Rightarrow> string \<Rightarrow> string" where
  "swap_all old new k [] = []"
| "swap_all old new (Suc k) (c # s) = swap_all old new k s"
| "swap_all old new 0 (c # s) =
     (if has_prefix (c # s) old then new @ swap_all old new (length old - 1) s else c # swap_all old new 0 s)"

definition HasSystemSentinels :: "string \<Rightarrow> bool" where
  "HasSystemSentinels s = (contains webViewPlaceholder s \<or> contains unsubscribePlaceholder s)"

definition SubstituteSystemLinks :: "string \<Rightarrow> string \<Rightarrow> string \<Rightarrow> string" where
  "SubstituteSystemLinks webView unsubscribe s =
     swap_all unsubscribePlaceholder unsubscribe 0 (swap_all webViewPlaceholder webView 0 s)"

definition hasSystemLinks :: "email \<Rightarrow> bool" where
  "hasSystemLinks e = (HasSystemSentinels (e_subject e) \<or> HasSystemSentinels (e_html_body e) \<or> HasSystemSentinels (e_text_body e))"

definition resolveSystemLinks :: "service \<Rightarrow> email \<Rightarrow> string \<Rightarrow> email" where
  "resolveSystemLinks sv e unsubURL =
     (if \<not> hasSystemLinks e then e
      else (let web = (case sv_tracking sv of None \<Rightarrow> [] | Some t \<Rightarrow> tk_web_view t (e_id e));
                sub = SubstituteSystemLinks web unsubURL
            in e\<lparr>e_subject := sub (e_subject e), e_html_body := sub (e_html_body e), e_text_body := sub (e_text_body e)\<rparr>))"

fun upsert_links :: "string \<Rightarrow> (string \<times> string) list \<Rightarrow> aworld \<Rightarrow> aworld" where
  "upsert_links projID [] w = w"
| "upsert_links projID ((url, hash) # ls) w =
     upsert_links projID ls
       (snd (UpsertTrackedLink \<lparr>tl_project_id = projID, tl_campaign_id = [], tl_original_url = url, tl_hash = hash\<rparr> w))"

definition applyTracking :: "service \<Rightarrow> string \<Rightarrow> email \<Rightarrow> bool \<Rightarrow> aworld \<Rightarrow> email \<times> aworld" where
  "applyTracking sv projID e off w =
     (case sv_tracking sv of
        None \<Rightarrow> (e, w)
      | Some t \<Rightarrow>
          if off \<or> e_html_body e = [] then (e, w)
          else (case GetProject projID w of
                  (Inr (Some p), w) \<Rightarrow>
                    if \<not> pc_track_opens p \<and> \<not> pc_track_clicks p then (e, w)
                    else (case tk_process t (e_id e) projID (pc_track_opens p) (pc_track_clicks p) (e_html_body e) of
                            (html, links) \<Rightarrow> (e\<lparr>e_html_body := html, e_tracked := True\<rparr>, upsert_links projID links w))
                | (_, w) \<Rightarrow> (e, w)))"

definition BlobPut :: "string \<Rightarrow> string \<Rightarrow> aworld \<Rightarrow> (accept_db, unit) answer" where
  "BlobPut key raw = Run (\<lambda>s. (s\<lparr>ac_blobs := AList.update key raw (ac_blobs s)\<rparr>, ()))"

definition blob_key :: "service \<Rightarrow> string \<Rightarrow> nat \<Rightarrow> attachment \<Rightarrow> string" where
  "blob_key sv emailID i a = ''emails/'' @ emailID @ ''/'' @ sv_show sv (int i) @ ''_'' @ SanitizeFilename (at_filename a)"

fun offload_each :: "service \<Rightarrow> string \<Rightarrow> nat \<Rightarrow> attachment list \<Rightarrow> aworld \<Rightarrow> attachment list verdict" where
  "offload_each sv emailID i [] w = accepted [] w"
| "offload_each sv emailID i (a # as) w =
     (if at_content a = [] \<or> at_storage_key a \<noteq> [] \<or> \<not> own_attachment a
      then passing (offload_each sv emailID (Suc i) as w) (\<lambda>as. accepted (a # as))
      else (case StdDecode (at_content a) of
              None \<Rightarrow> refused (Rejected (''attachment '' @ quoted (at_filename a) @ '' is not valid base64'')) w
            | Some raw \<Rightarrow>
                asking (BlobPut (blob_key sv emailID i a) raw w) (\<lambda>_ w.
                passing (offload_each sv emailID (Suc i) as w) (\<lambda>as.
                  accepted (a\<lparr>at_storage_key := blob_key sv emailID i a, at_size := int (length raw), at_content := []\<rparr> # as)))))"

definition offloadAttachments :: "service \<Rightarrow> email \<Rightarrow> aworld \<Rightarrow> email verdict" where
  "offloadAttachments sv e w =
     (if \<not> sv_blob sv then accepted e w
      else passing (offload_each sv (e_id e) 0 (e_attachments e) w) (\<lambda>as. accepted (e\<lparr>e_attachments := as\<rparr>)))"

section \<open>Sending\<close>

definition put_email :: "service \<Rightarrow> email \<Rightarrow> volume \<Rightarrow> aworld \<Rightarrow> unit verdict" where
  "put_email sv e vol w =
     (if \<not> Bounded vol then asking (in_store (Put (e_created_at e) e) w) (\<lambda>_. accepted ())
      else asking (in_store (PutWithin (e_created_at e) e (vo_hourly vol) (vo_daily vol)) w) (\<lambda>window w.
        if window \<noteq> [] then refused (Refused_in sv vol window) w else accepted () w))"

text \<open>The recipients left after the do-not-send list, those it took out, and the limits of the plan.\<close>

definition admit :: "service \<Rightarrow> instants \<Rightarrow> string \<Rightarrow> send_request \<Rightarrow> aworld \<Rightarrow> (string list \<times> string list \<times> volume) verdict" where
  "admit sv at projID rq w =
     (if rq_system rq then accepted (rq_to rq, [], no_volume) w
      else passing (CheckSend sv (at_quota at) projID w) (\<lambda>vol w.
        asking (in_proc (in_sup (FilterSuppressedForList (sv_parse sv) projID (rq_unsubscribe_list_id rq) (rq_to rq))) w)
          (\<lambda>(allowed, blocked) w. accepted (allowed, blocked, vol) w)))"

definition stamp_link :: "service \<Rightarrow> bool \<Rightarrow> string list \<Rightarrow> send_request \<Rightarrow> string \<times> send_request" where
  "stamp_link sv mint allowed rq =
     (case (sv_tracking sv, allowed) of
        (Some t, [rcpt]) \<Rightarrow>
          if \<not> mint then ([], rq)
          else (let u = tk_unsubscribe t (rq_unsubscribe_list_id rq) (to_lower (EnvelopeAddress (sv_parse sv) rcpt)) in
                (u, if rq_unsubscribe_url rq = [] then rq\<lparr>rq_unsubscribe_url := u, rq_unsubscribe_post := True\<rparr> else rq))
      | _ \<Rightarrow> ([], rq))"

definition email_of ::
    "service \<Rightarrow> time \<Rightarrow> string \<Rightarrow> string \<Rightarrow> string \<Rightarrow> string \<Rightarrow> registered \<Rightarrow> string list \<Rightarrow> send_request \<Rightarrow> email" where
  "email_of sv now new_id projID createdBy apiKeyID reg allowed rq =
     zero_email\<lparr>e_id := (if rq_id rq = [] then new_id else rq_id rq), e_project_id := projID, e_created_by := createdBy,
       e_api_key_id := apiKeyID, e_credential_id := rq_credential_id rq, e_smtp_server_id := rt_server_id (rq_route rq),
       e_smtp_group_id := rt_group_id (rq_route rq), e_sender := withRegisteredName sv reg (rq_from rq),
       e_recipients := allowed, e_subject := rq_subject rq, e_template_name := rq_template_name rq,
       e_html_body := rq_html rq, e_text_body := rq_text rq, e_attachments := rq_attachments rq,
       e_headers := withDisplayRecipients rq, e_tags := rq_tags rq, e_metadata := rq_metadata rq,
       e_list_unsubscribe_url := rq_unsubscribe_url rq, e_list_unsubscribe_mailto := rq_unsubscribe_mailto rq,
       e_unsubscribe_list_id := rq_unsubscribe_list_id rq, e_list_unsubscribe_post := rq_unsubscribe_post rq,
       e_tracked := rq_tracked rq, e_signing := signingFor reg (rq_disable_signing rq), e_system := rq_system rq,
       e_status := StatusQueued, e_max_attempts := sv_max_attempts sv, e_next_attempt_at := Some now, e_created_at := now\<rparr>"

definition scheduled :: "time \<Rightarrow> time option \<Rightarrow> email \<Rightarrow> email" where
  "scheduled now sendAt e =
     (case sendAt of
        None \<Rightarrow> e
      | Some t \<Rightarrow> if now < t then e\<lparr>e_status := StatusScheduled, e_scheduled_at := Some t, e_next_attempt_at := Some t\<rparr> else e)"

definition suppressed_row :: "string list \<Rightarrow> email \<Rightarrow> email" where
  "suppressed_row to e =
     e\<lparr>e_recipients := to, e_status := StatusSuppressed, e_error_message := ''all recipients are suppressed'',
       e_next_attempt_at := None\<rparr>"

definition EventEmailSuppressed :: string where "EventEmailSuppressed = ''email.suppressed''"
definition EventEmailQueued :: string where "EventEmailQueued = ''email.queued''"
definition EventEmailCancelled :: string where "EventEmailCancelled = ''email.cancelled''"

definition wrapped :: "error \<Rightarrow> 'a verdict \<Rightarrow> 'a verdict" where
  "wrapped what r = (case r of (Inl (Broken e), w) \<Rightarrow> (Inl (Broken (what @ e)), w) | _ \<Rightarrow> r)"

text \<open>What is written once the row is made up.\<close>

definition store_email ::
    "service \<Rightarrow> time \<Rightarrow> send_request \<Rightarrow> string list \<Rightarrow> string list \<Rightarrow> volume \<Rightarrow> email \<Rightarrow> aworld \<Rightarrow> (email \<times> string list) verdict" where
  "store_email sv now rq allowed blocked vol e w =
     (if allowed = [] then
        (let e = suppressed_row (rq_to rq) e in
         passing (put_email sv e vol w) (\<lambda>_ w. accepted (e, blocked) (Emit EventEmailSuppressed e w)))
      else
        passing (wrapped ''offload attachments: '' (offloadAttachments sv (scheduled now (rq_send_at rq) e) w)) (\<lambda>e w.
        passing (put_email sv e vol w) (\<lambda>_ w.
          accepted (e, blocked) (if e_system e then w else Emit EventEmailQueued e w))))"

definition Send ::
    "service \<Rightarrow> instants \<Rightarrow> string \<Rightarrow> string \<Rightarrow> string \<Rightarrow> string \<Rightarrow> send_request \<Rightarrow> aworld \<Rightarrow> (email \<times> string list) verdict" where
  "Send sv at new_id projID createdBy apiKeyID rq0 w =
     passing (Validate sv at projID rq0 w) (\<lambda>rq w.
     passing (admit sv at projID rq w) (\<lambda>(allowed, blocked, vol) w.
     asking (mintsLinks projID (rq_unsubscribe_list_id rq) w) (\<lambda>mint w.
       (case stamp_link sv mint allowed rq of (unsubURL, rq) \<Rightarrow>
        (case registeredSender sv projID (rq_from rq) w of (reg, w) \<Rightarrow>
         asking (if rq_system rq then Return rq w else withProjectDefaults projID rq w) (\<lambda>rq w.
           (let now = at_row at;
                e = resolveSystemLinks sv (email_of sv now new_id projID createdBy apiKeyID reg allowed rq) unsubURL in
            case (if e_tracked e \<or> e_system e then (e, w) else applyTracking sv projID e (rq_track_off rq) w) of
              (e, w) \<Rightarrow> store_email sv now rq allowed blocked vol e w)))))))"

definition DryRun :: "service \<Rightarrow> instants \<Rightarrow> string \<Rightarrow> send_request \<Rightarrow> aworld \<Rightarrow> string list verdict" where
  "DryRun sv at projID rq0 w =
     passing (Validate sv at projID rq0 w) (\<lambda>rq w.
       if rq_system rq then accepted [] w
       else passing (CheckSend sv (at_quota at) projID w) (\<lambda>_ w.
         asking (in_proc (in_sup (FilterSuppressedForList (sv_parse sv) projID (rq_unsubscribe_list_id rq) (rq_to rq))) w)
           (\<lambda>(_, blocked). accepted blocked)))"

section \<open>The platform's own mail\<close>

definition system_request :: "string \<Rightarrow> string list \<Rightarrow> string \<Rightarrow> string \<Rightarrow> string \<Rightarrow> headers \<Rightarrow> send_request" where
  "system_request from to subject html text hs =
     \<lparr>rq_id = [], rq_from = from, rq_credential_id = [], rq_to = to, rq_header_to = [], rq_cc = [], rq_reply_to = [],
      rq_subject = subject, rq_html = html, rq_text = text, rq_headers = hs, rq_tags = [], rq_metadata = Map.empty,
      rq_attachments = [], rq_send_at = None, rq_template_name = [], rq_unsubscribe_url = [], rq_unsubscribe_mailto = [],
      rq_unsubscribe_post = False, rq_unsubscribe_list_id = [], rq_track_off = True, rq_disable_signing = False,
      rq_tracked = False, rq_route = \<lparr>rt_server_id = [], rt_group_id = []\<rparr>, rq_system = True\<rparr>"

definition SendSystem ::
    "service \<Rightarrow> instants \<Rightarrow> string \<Rightarrow> string \<Rightarrow> string \<Rightarrow> string list \<Rightarrow> string \<Rightarrow> string \<Rightarrow> string \<Rightarrow> headers \<Rightarrow> aworld \<Rightarrow> unit verdict" where
  "SendSystem sv at new_id projID from to subject html text hs w =
     passing (Send sv at new_id projID [] [] (system_request from to subject html text hs) w) (\<lambda>_. accepted ())"

definition CheckSystem :: "service \<Rightarrow> instants \<Rightarrow> string \<Rightarrow> string \<Rightarrow> aworld \<Rightarrow> unit verdict" where
  "CheckSystem sv at projID from w =
     asking (GetProject projID w) (\<lambda>p w.
       case p of
         None \<Rightarrow> refused (Broken ''platform_mail_project names a project that does not exist'') w
       | Some p \<Rightarrow>
           (case require_sender sv projID from w of
              (Inl (Rejected e), w) \<Rightarrow> refused (Rejected (''platform_mail_from: '' @ e)) w
            | (Inl (Broken e), w) \<Rightarrow> refused (Broken (''platform_mail_from: '' @ e)) w
            | (Inl e, w) \<Rightarrow> refused e w
            | (Inr _, w) \<Rightarrow>
                asking (in_proc (in_smtp (ResolveServer (at_route at) (sv_parse sv) projID from \<lparr>rt_server_id = [], rt_group_id = []\<rparr>)) w)
                  (\<lambda>srv w. if srv = None
                     then refused (Broken (''project '' @ pc_name p @ '' has no SMTP server that can carry mail from '' @ from)) w
                     else accepted () w)))"

section \<open>Retrying and cancelling\<close>

text \<open>Content goes with the row it hangs off at the latest; zero days keep it for ever.\<close>

definition ContentWindows :: "windows \<Rightarrow> int \<times> int" where
  "ContentWindows ws =
     (let clamp = (\<lambda>days. if days \<le> 0 then wi_meta ws
                          else if 0 < wi_meta ws \<and> wi_meta ws < days then wi_meta ws else days)
      in (clamp (wi_body ws), clamp (wi_attachment ws)))"

definition past_window :: "time \<Rightarrow> email \<Rightarrow> int \<Rightarrow> bool" where
  "past_window now e days = (0 < days \<and> e_created_at e < now - days * day)"

definition contentRetired :: "service \<Rightarrow> time \<Rightarrow> email \<Rightarrow> bool" where
  "contentRetired sv now e =
     (if trim_space (e_html_body e) = [] \<and> trim_space (e_text_body e) = [] then True
      else (case sv_settings sv of
              None \<Rightarrow> False
            | Some ws \<Rightarrow> (case ContentWindows ws of (b, a) \<Rightarrow> past_window now e b \<or> past_window now e a)))"

definition RetrySend :: "service \<Rightarrow> time \<Rightarrow> time \<Rightarrow> string \<Rightarrow> string \<Rightarrow> aworld \<Rightarrow> email option verdict" where
  "RetrySend sv now reset_at projID i w =
     asking (in_store (Get (sv_uuid sv) projID i) w) (\<lambda>e w.
       case e of
         None \<Rightarrow> accepted None w
       | Some e \<Rightarrow>
           if e_status e \<noteq> StatusFailed
           then refused (Rejected (''only failed emails can be retried (status is '' @ quoted (status_text (e_status e)) @ '')'')) w
           else if contentRetired sv now e
           then refused (Conflicting ''the content of this email is past its retention window and may have been removed, so it cannot be retried. Send it again as a new message'') w
           else passing (if e_system e then accepted (e_recipients e) w
                         else asking (in_proc (in_sup (FilterSuppressedForList (sv_parse sv) projID (e_unsubscribe_list_id e) (e_recipients e))) w)
                           (\<lambda>(kept, _) w. if kept = [] then refused (Conflicting ''every recipient of this email is now suppressed'') w
                                           else accepted kept w)) (\<lambda>recipients w.
             asking (in_store (Reset projID i recipients reset_at) w) (\<lambda>ok w.
               if \<not> ok then refused (Rejected ''email is no longer in a retryable state'') w
               else asking (in_store (Get (sv_uuid sv) projID i) w) accepted)))"

definition CancelSend :: "service \<Rightarrow> string \<Rightarrow> string \<Rightarrow> aworld \<Rightarrow> email option verdict" where
  "CancelSend sv projID i w =
     asking (in_store (Get (sv_uuid sv) projID i) w) (\<lambda>e w.
       case e of
         None \<Rightarrow> accepted None w
       | Some e \<Rightarrow>
           if e_status e \<notin> {StatusPending, StatusQueued, StatusScheduled}
           then refused (Rejected (''only a scheduled or queued email can be cancelled (status is '' @ quoted (status_text (e_status e)) @ '')'')) w
           else asking (in_store (EmailStore.Cancel projID i (e_created_at e)) w) (\<lambda>ok w.
             if \<not> ok then refused (Rejected ''email was claimed for delivery before it could be cancelled'') w
             else asking (in_store (Get (sv_uuid sv) projID i) w) (\<lambda>e w.
               case e of
                 None \<Rightarrow> accepted None w
               | Some e \<Rightarrow>
                   (case Emit EventEmailCancelled e w of (s, fs) \<Rightarrow>
                      accepted (Some e) (s\<lparr>ac_withdrawn := ac_withdrawn s @ [(projID, i)]\<rparr>, fs)))))"

section \<open>One send per idempotency key\<close>

datatype send_answer = Message email "string list" bool | Capture string

text \<open>The captures of the sandbox, a project and an id each.\<close>

definition GetCapture :: "string \<Rightarrow> string \<Rightarrow> aworld \<Rightarrow> (accept_db, string option) answer" where
  "GetCapture projID i = Read (\<lambda>s. if List.member (ac_captures s) (projID, i) then Some i else None)"

definition ResolveRoute :: "string \<Rightarrow> string \<Rightarrow> string \<Rightarrow> aworld \<Rightarrow> route verdict" where
  "ResolveRoute projID serverID groupSlug w =
     (if groupSlug = [] then accepted \<lparr>rt_server_id = serverID, rt_group_id = []\<rparr> w
      else asking (in_proc (in_smtp (GetBySlug projID groupSlug)) w) (\<lambda>g w.
        case g of
          None \<Rightarrow> refused (Rejected (''smtp server group '' @ quoted groupSlug @ '' does not exist'')) w
        | Some g \<Rightarrow> accepted \<lparr>rt_server_id = serverID, rt_group_id = gp_id g\<rparr> w))"

definition maxIdempotencyKey :: nat where "maxIdempotencyKey = 255"

text \<open>\<open>may_read\<close> is what the caller's permissions say of the record a key produced.\<close>

definition replay :: "service \<Rightarrow> (key_holder \<Rightarrow> bool) \<Rightarrow> string \<Rightarrow> string \<Rightarrow> key_holder \<Rightarrow> aworld \<Rightarrow> send_answer response \<times> aworld" where
  "replay sv may_read projID key held w =
     (if Pending held then (Conflict (''a request with Idempotency-Key '' @ quoted key @ '' is still being processed''), w)
      else if \<not> may_read held then (Conflict (''Idempotency-Key '' @ quoted key @ '' was already used''), w)
      else if kh_sandbox_email_id held \<noteq> [] then
        Answer (GetCapture projID (kh_sandbox_email_id held) w) (\<lambda>c w.
          (case c of None \<Rightarrow> Gone ''the capture this Idempotency-Key produced is no longer in the sandbox''
                   | Some c \<Rightarrow> Ok (Capture c), w))
      else Answer (in_store (Get (sv_uuid sv) projID (kh_email_id held)) w) (\<lambda>e w.
          (case e of None \<Rightarrow> Gone ''the message this Idempotency-Key produced is no longer in the log''
                   | Some e \<Rightarrow> Ok (Message e [] True), w)))"

definition releaseKey :: "string \<Rightarrow> string \<Rightarrow> aworld \<Rightarrow> aworld" where
  "releaseKey projID key w = snd (in_store (ReleaseKey projID key) w)"

definition send_answered :: "(email \<times> string list) verdict \<Rightarrow> send_answer response \<times> aworld" where
  "send_answered r = (case r of (Inl e, w) \<Rightarrow> (sendFailure e, w) | (Inr (e, blocked), w) \<Rightarrow> (Ok (Message e blocked False), w))"

definition sendOnce ::
    "service \<Rightarrow> (key_holder \<Rightarrow> bool) \<Rightarrow> (time \<times> (db \<Rightarrow> db)) list \<Rightarrow> string \<Rightarrow> string \<Rightarrow>
     (aworld \<Rightarrow> (email \<times> string list) verdict) \<Rightarrow> aworld \<Rightarrow> send_answer response \<times> aworld" where
  "sendOnce sv may_read rounds projID key0 send w =
     (let key = trim_space key0 in
      if maxIdempotencyKey < length key then (BadRequest ''Idempotency-Key must be at most 255 characters'', w)
      else if key = [] then send_answered (send w)
      else Answer (in_store (ReserveKey projID key rounds) w) (\<lambda>(held, reserved) w.
        if \<not> reserved then replay sv may_read projID key held w
        else (case send w of
                (Inl e, w) \<Rightarrow> (sendFailure e, releaseKey projID key w)
              | (Inr (e, blocked), w) \<Rightarrow>
                  (Ok (Message e blocked False), snd (in_store (CompleteKey projID key (e_id e)) w)))))"

end
