(* ===== verification/Accepted.thy ===== *)
theory Accepted
  imports Accept Failover Blocklist
begin

text \<open>
  What accepting a message guarantees: a dry run foretells a send, a stored message asks nobody who
  is blocked, and the row that is written is the request's, whichever statement fails meanwhile.
\<close>

section \<open>Calls that keep something\<close>

lemma keeps_verdicts [keeping]: "keeps I (accepted x)" "keeps I (refused e)"
  by (simp_all add: keeps_def accepted_def refused_def)

lemma keeps_asking [keeping]:
  assumes "keeps I m" "\<And>x. keeps I (k x)"
  shows "keeps I (\<lambda>w. asking (m w) k)"
  using assms by (auto simp: keeps_def asking_def case_prod_unfold split: sum.splits) (metis prod.collapse)+

lemma keeps_passing [keeping]:
  assumes "keeps I m" "\<And>x. keeps I (k x)"
  shows "keeps I (\<lambda>w. passing (m w) k)"
  using assms by (auto simp: keeps_def passing_def case_prod_unfold split: sum.splits) (metis prod.collapse)+

lemma snd_wrapped [simp]: "snd (wrapped what r) = snd r"
  by (simp add: wrapped_def split: prod.splits sum.splits send_failure.splits)

lemma keeps_wrapped [keeping]: "keeps I m \<Longrightarrow> keeps I (\<lambda>w. wrapped what (m w))"
  by (simp add: keeps_def)

lemma keeps_Zoom:
  assumes "keeps J m" "\<And>s. I s \<Longrightarrow> J (get s)" "\<And>s t. I s \<Longrightarrow> J t \<Longrightarrow> I (put t s)"
  shows "keeps I (Zoom get put m)"
  using assms by (auto simp: keeps_def Zoom_def split: prod.splits) (metis fst_conv snd_conv)

text \<open>A query of one part leaves the whole as it was.\<close>

lemma still_Zoom:
  assumes "query m" "\<And>s. put (get s) s = s"
  shows "keeps (\<lambda>s. s = s0) (Zoom get put m)"
  using assms by (auto simp: keeps_def query_def answers_def Zoom_def split: prod.splits) (metis fst_conv snd_conv)

lemma still_query: "query m \<Longrightarrow> keeps (\<lambda>s. s = s0) m"
  by (auto simp: keeps_def query_def answers_def)

lemma query_parts [intro]:
  "query m \<Longrightarrow> query (in_proc m)" "query n \<Longrightarrow> query (in_proc (in_smtp n))" "query l \<Longrightarrow> query (in_proc (in_sup l))"
  unfolding in_proc_def in_smtp_def in_sup_def by (auto intro!: query_Zoom)

lemma still_in_store:
  assumes "\<And>d r d'. m d = (r, d') \<Longrightarrow> d' = d\<lparr>db_faults := db_faults d'\<rparr>"
  shows "keeps (\<lambda>s. s = s0) (in_store m)"
  unfolding keeps_def
proof (intro allI impI)
  fix w :: aworld
  assume s0: "fst w = s0"
  obtain r d where m: "m ((ac_db (fst w))\<lparr>db_faults := snd w\<rparr>) = (r, d)" by (rule prod.exhaust)
  have "d = (ac_db (fst w))\<lparr>db_faults := db_faults d\<rparr>" using assms [OF m] by simp
  then have "d\<lparr>db_faults := db_faults (ac_db (fst w))\<rparr> = ac_db (fst w)"
    by (metis db.surjective db.update_convs(5))
  then show "fst (snd (in_store m w)) = s0" using m s0 by (simp add: in_store_def)
qed

lemma query_reads [intro]:
  "query (GetProject i)" "query (GetPlan i)" "query GetDefaultPlan" "query (GetList p i)"
  "query (GetSenderByEmail p a)" "query (GetSigning p a)" "query (GetCapture p i)" "query (GetBySlug p a)"
  unfolding GetProject_def GetPlan_def GetDefaultPlan_def GetList_def GetSenderByEmail_def GetSigning_def
    GetCapture_def GetBySlug_def by (rule query_Read)+

lemma filter_query [intro]: "query (FilterSuppressedForList parse projID listID emails)"
  unfolding FilterSuppressedForList_def [abs_def] Let_def by (intro query_if query_andThen query_Read query_Return)

lemma server_query [intro]: "query (ResolveServer now parse projID sender route)"
  unfolding ResolveServer_def [abs_def] by (intro query_andThen query_Return candidates_query)

lemma planFor_query [intro]: "query (planFor projID)"
  unfolding planFor_def [abs_def] by (intro query_andThen query_option query_if query_Return query_reads)

lemma mintsLinks_query [intro]: "query (mintsLinks projID listID)"
  unfolding mintsLinks_def [abs_def] by (intro query_if query_andThen query_Return query_parts query_reads)

lemma defaults_query [intro]: "query (withProjectDefaults projID rq)"
  unfolding withProjectDefaults_def [abs_def] by (intro query_andThen query_Return query_reads)

lemma Query_only_faults: "Query q d = (r, d') \<Longrightarrow> d' = d\<lparr>db_faults := db_faults d'\<rparr>"
  using Query_cases [of q d r d'] by (auto simp: pop_fault_eq)

lemma lookup_only_faults:
  assumes "lookup_row window p d = (r, d')"
  shows "d' = d\<lparr>db_faults := db_faults d'\<rparr>"
proof (cases window)
  case None
  with assms show ?thesis by (simp add: lookup_row_def Query_only_faults)
next
  case (Some x)
  obtain a b where x: "x = (a, b)" by (rule prod.exhaust)
  let ?q = "\<lambda>d. find (\<lambda>e. p e \<and> a \<le> e_created_at e \<and> e_created_at e < b) (db_emails d)"
  obtain r1 d1 where q: "Query ?q d = (r1, d1)" by (rule prod.exhaust)
  have d1: "d1 = d\<lparr>db_faults := db_faults d1\<rparr>" by (rule Query_only_faults [OF q])
  show ?thesis
  proof (cases "r1 = Inr None")
    case False
    with assms Some x q d1 show ?thesis by (auto simp: lookup_row_def split: sum.splits option.splits)
  next
    case True
    then have "Query (\<lambda>d. find p (db_emails d)) d1 = (r, d')" using assms Some x q by (simp add: lookup_row_def)
    from Query_only_faults [OF this] show ?thesis by (subst (asm) d1) simp
  qed
qed

lemma still_Get: "keeps (\<lambda>s. s = s0) (in_store (Get parse projID i))"
  by (rule still_in_store) (simp add: Get_def lookup_only_faults)

lemma still_require: "keeps (\<lambda>s. s = s0) (require_sender sv projID sender)"
  unfolding keeps_def
proof (intro allI impI)
  fix w :: aworld
  assume s0: "fst w = s0"
  let ?w = "(pd_smtp (ac_proc (fst w)), snd w)"
  have "fst (snd (RequireVerifiedSender (sv_parse sv) projID sender ?w)) = fst ?w"
    using owns_query [of "sv_parse sv" projID sender] unfolding query_def answers_def
    by (auto simp: RequireVerifiedSender_def Let_def split: prod.splits sum.splits) (metis fst_conv snd_conv)+
  then show "fst (snd (require_sender sv projID sender w)) = s0"
    using s0 by (auto simp: require_sender_def Let_def accepted_def refused_def split: prod.splits option.splits refusal.splits)
qed

lemma still_Validate: "keeps (\<lambda>s. s = s0) (Validate sv at projID rq)"
  unfolding Validate_def [abs_def] Let_def check_route_def [abs_def] check_list_def [abs_def] check_strict_def [abs_def]
  by (cases "ValidateShape sv (at_shape at) rq")
    (auto intro!: keeping still_require still_query)

lemma still_registered: "keeps (\<lambda>s. s = s0) (registeredSender sv projID from)"
  unfolding keeps_def
proof (intro allI impI)
  fix w :: aworld
  assume "fst w = s0"
  let ?m = "in_proc (GetSenderByEmail projID (to_lower (EnvelopeAddress (sv_parse sv) from)))"
  obtain r w1 where m: "?m w = (r, w1)" by (rule prod.exhaust)
  have "keeps (\<lambda>s. s = s0) ?m" by (intro still_query query_parts query_reads)
  then have "fst w1 = s0" using keeps_apply [of "\<lambda>s. s = s0" ?m w] m \<open>fst w = s0\<close> by simp
  with m show "fst (snd (registeredSender sv projID from w)) = s0"
    using \<open>fst w = s0\<close> by (cases r) (simp_all add: registeredSender_def Let_def)
qed

lemma query_in_store:
  assumes "\<And>d fs. q (d\<lparr>db_faults := fs\<rparr>) = q d"
  shows "query (in_store (Query q))"
  unfolding query_def
proof (rule exI [of _ "\<lambda>s. q (ac_db s)"], intro allI)
  fix w :: aworld
  let ?d = "(ac_db (fst w))\<lparr>db_faults := snd w\<rparr>"
  obtain r d' where m: "Query q ?d = (r, d')" by (rule prod.exhaust)
  have d': "d' = ?d\<lparr>db_faults := db_faults d'\<rparr>" by (rule Query_only_faults [OF m])
  then have same: "d'\<lparr>db_faults := db_faults (ac_db (fst w))\<rparr> = ac_db (fst w)"
    by (metis db.surjective db.update_convs(5))
  have q: "q d' = q (ac_db (fst w))" using assms d' by metis
  have calm: "snd w = [] \<Longrightarrow> r = Inr (q d') \<and> db_faults d' = []"
    using m by (auto simp: Query_def Exec_def pop_fault_def)
  show "answers (\<lambda>s. q (ac_db s)) w (in_store (Query q) w)"
    using Query_cases [OF m] same q calm m by (cases w) (auto simp: answers_def in_store_def)
qed

lemma query_store [intro]: "query (in_store (AcceptedSince projID since))"
  unfolding AcceptedSince_def [abs_def] by (rule query_in_store) (simp add: volume_since_def)

lemma still_CheckSend: "keeps (\<lambda>s. s = s0) (CheckSend sv now projID)"
  unfolding CheckSend_def [abs_def] check_window_def [abs_def] Let_def
  by (intro keeping still_query planFor_query query_store)

lemma still_admit: "keeps (\<lambda>s. s = s0) (admit sv at projID rq)"
  unfolding admit_def [abs_def] by (intro keeping still_CheckSend still_query query_parts filter_query)

lemma still_DryRun: "keeps (\<lambda>s. s = s0) (DryRun sv at projID rq)"
  unfolding DryRun_def [abs_def] by (intro keeping still_Validate still_CheckSend still_query query_parts filter_query)

section \<open>Checks on a calm day\<close>

text \<open>Without faults a check ends in the world it began in.\<close>

definition steady :: "(aworld \<Rightarrow> 'r \<times> aworld) \<Rightarrow> bool" where
  "steady m = (\<forall>s. snd (m (s, [])) = (s, []))"

lemma steady_verdicts: "steady (accepted x)" "steady (refused e)"
  by (simp_all add: steady_def accepted_def refused_def)

lemma steady_asking:
  assumes "query m" "\<And>x. steady (k x)"
  shows "steady (\<lambda>w. asking (m w) k)"
  unfolding steady_def
proof
  fix s
  obtain x where "m (s, []) = (Inr x, (s, []))" using query_calm [OF assms(1)] by blast
  then show "snd (asking (m (s, [])) k) = (s, [])" using assms(2) [of x] by (simp add: asking_def steady_def)
qed

lemma steady_passing:
  assumes "steady m" "\<And>x. steady (k x)"
  shows "steady (\<lambda>w. passing (m w) k)"
  unfolding steady_def
proof
  fix s
  obtain r where m: "m (s, []) = (r, (s, []))"
    using assms(1) unfolding steady_def by (metis prod.collapse)
  show "snd (passing (m (s, [])) k) = (s, [])"
    using assms(2) by (cases r) (simp_all add: m passing_def steady_def)
qed

lemma steady_if: "steady m \<Longrightarrow> steady n \<Longrightarrow> steady (\<lambda>w. if b then m w else n w)"
  by (cases b) auto

lemma steady_option: "steady m \<Longrightarrow> (\<And>x. steady (n x)) \<Longrightarrow> steady (\<lambda>w. case a of None \<Rightarrow> m w | Some x \<Rightarrow> n x w)"
  by (cases a) auto

lemmas steady_intros = steady_verdicts steady_asking steady_passing steady_if steady_option

lemma steady_require: "steady (require_sender sv projID sender)"
  unfolding steady_def
proof
  fix s :: accept_db
  obtain b where "ownsVerifiedDomain (sv_parse sv) projID sender (pd_smtp (ac_proc s), []) = (Inr b, (pd_smtp (ac_proc s), []))"
    using query_calm [OF owns_query] by blast
  then show "snd (require_sender sv projID sender (s, [])) = (s, [])"
    by (simp add: require_sender_def RequireVerifiedSender_def Let_def accepted_def refused_def)
qed

lemma steady_Validate: "steady (Validate sv at projID rq)"
  unfolding Validate_def [abs_def] Let_def check_route_def [abs_def] check_list_def [abs_def] check_strict_def [abs_def]
  by (cases "ValidateShape sv (at_shape at) rq")
    (auto intro!: steady_intros steady_require)

lemma steady_CheckSend: "steady (CheckSend sv now projID)"
  unfolding CheckSend_def [abs_def] check_window_def [abs_def] Let_def
  by (intro steady_intros planFor_query query_store)

section \<open>A dry run foretells the send\<close>

lemma created_or_own [simp]: "created_or (e_created_at e) e = e"
  by (simp add: created_or_def)

lemma put_calm:
  assumes "db_faults d = []" "\<forall>r \<in> set (db_emails d). e_id r \<noteq> e_id e"
  shows "\<exists>d'. Put (e_created_at e) e d = (Inr (), d') \<and> db_emails d' = db_emails d @ [put_row e] \<and> db_faults d' = []"
proof -
  have "\<not> list_ex (same_row e) (db_emails d)" using assms(2) by (auto simp: same_row_def list_ex_iff)
  then show ?thesis
    using assms(1) by (simp add: Put_def Exec_no_fault put_stmt_def put_system_stmt_def flat_def)
qed

lemma put_within_calm:
  assumes "db_faults d = []" "\<forall>r \<in> set (db_emails d). e_id r \<noteq> e_id e"
    and "0 < hourly \<longrightarrow> volume_since (e_project_id e) (e_created_at e - hour) d < hourly"
    and "0 < daily \<longrightarrow> volume_since (e_project_id e) (e_created_at e - day) d < daily"
  shows "\<exists>d'. PutWithin (e_created_at e) e hourly daily d = (Inr [], d') \<and> db_emails d' = db_emails d @ [put_row e] \<and> db_faults d' = []"
proof -
  have "\<not> list_ex (same_row e) (db_emails d)" using assms(2) by (auto simp: same_row_def list_ex_iff)
  moreover have "check_windows e [(hourly, hour, ''hour''), (daily, day, ''day'')] d = (Inr [], d)"
    using assms(1,3,4) by (auto simp: Query_no_fault)
  ultimately show ?thesis
    using assms(1) by (simp add: PutWithin_def Query_no_fault Exec_no_fault put_stmt_def flat_def pop_fault_def)
qed

lemma date_trunc_mono: "a \<le> b \<Longrightarrow> date_trunc_minute a \<le> date_trunc_minute b"
  unfolding date_trunc_minute_def by (simp add: minus_mod_eq_mult_div zdiv_mono1)

lemma volume_since_mono:
  assumes "a \<le> b" "\<forall>v \<in> set (db_volume d). 0 \<le> v_accepted v"
  shows "volume_since p b d \<le> volume_since p a d"
proof -
  have "sum_list (map v_accepted (filter (\<lambda>v. v_project v = p \<and> date_trunc_minute b \<le> v_minute v) vs)) \<le>
      sum_list (map v_accepted (filter (\<lambda>v. v_project v = p \<and> date_trunc_minute a \<le> v_minute v) vs))"
    if "\<forall>v \<in> set vs. 0 \<le> v_accepted v" for vs
    using that date_trunc_mono [OF assms(1)] by (induction vs) auto
  then show ?thesis using assms(2) by (simp add: volume_since_def)
qed

lemma AcceptedSince_calm: "in_store (AcceptedSince projID since) (s, []) = (Inr (volume_since projID since (ac_db s)), (s, []))"
  by (simp add: in_store_def AcceptedSince_def Query_no_fault volume_since_def)

lemma check_window_calm:
  "check_window sv projID vol window limit since (s, []) = (Inr (), (s, [])) \<longleftrightarrow>
     (0 < limit \<longrightarrow> volume_since projID since (ac_db s) < limit)"
  by (auto simp: check_window_def asking_def AcceptedSince_calm accepted_def refused_def)

lemma CheckSend_limits:
  assumes "CheckSend sv now projID (s, []) = (Inr vol, w)"
  shows "(0 < vo_hourly vol \<longrightarrow> volume_since projID (now - hour) (ac_db s) < vo_hourly vol) \<and>
    (0 < vo_daily vol \<longrightarrow> volume_since projID (now - day) (ac_db s) < vo_daily vol)"
proof -
  obtain p where p: "planFor projID (s, []) = (Inr p, (s, []))" using query_calm [OF planFor_query] by blast
  show ?thesis
  proof (cases "p = None \<or> (\<exists>q. p = Some q \<and> pl_hourly q \<le> 0 \<and> pl_daily q \<le> 0)")
    case True
    then have "vol = no_volume" using assms p by (auto simp: CheckSend_def asking_def accepted_def)
    then show ?thesis by (simp add: no_volume_def)
  next
    case False
    then obtain q where q: "p = Some q" "\<not> (pl_hourly q \<le> 0 \<and> pl_daily q \<le> 0)" by auto
    let ?vol = "\<lparr>vo_hourly = max (pl_hourly q) 0, vo_daily = max (pl_daily q) 0, vo_plan = pl_name q\<rparr>"
    let ?h = "check_window sv projID ?vol WindowHour (pl_hourly q) (now - hour)"
    let ?d = "check_window sv projID ?vol WindowDay (pl_daily q) (now - day)"
    have run: "passing (?h (s, [])) (\<lambda>_ w. passing (?d w) (\<lambda>_ w. accepted ?vol w)) = (Inr vol, w)"
      using assms p q by (simp add: CheckSend_def asking_def Let_def)
    have "steady ?h" "steady ?d"
      unfolding check_window_def [abs_def] by (intro steady_intros query_store)+
    then obtain rh rd where h: "?h (s, []) = (rh, (s, []))" and d: "?d (s, []) = (rd, (s, []))"
      unfolding steady_def by (metis prod.collapse)
    with run have "rh = Inr ()" "rd = Inr ()" "vol = ?vol"
      by (auto simp: passing_def accepted_def split: sum.splits)
    then show ?thesis using h d check_window_calm by (auto simp: max_def)
  qed
qed

lemma put_email_calm:
  assumes "\<forall>r \<in> set (db_emails (ac_db s)). e_id r \<noteq> e_id e"
    and "0 < vo_hourly vol \<longrightarrow> volume_since (e_project_id e) (e_created_at e - hour) (ac_db s) < vo_hourly vol"
    and "0 < vo_daily vol \<longrightarrow> volume_since (e_project_id e) (e_created_at e - day) (ac_db s) < vo_daily vol"
  shows "\<exists>s'. put_email sv e vol (s, []) = (Inr (), (s', [])) \<and> db_emails (ac_db s') = db_emails (ac_db s) @ [put_row e]"
proof -
  let ?d = "(ac_db s)\<lparr>db_faults := []\<rparr>"
  have d: "db_faults ?d = []" "\<forall>r \<in> set (db_emails ?d). e_id r \<noteq> e_id e" using assms(1) by simp_all
  have v: "volume_since p t ?d = volume_since p t (ac_db s)" for p t by (simp add: volume_since_def)
  show ?thesis
  proof (cases "Bounded vol")
    case False
    obtain d' where "Put (e_created_at e) e ?d = (Inr (), d')" "db_emails d' = db_emails (ac_db s) @ [put_row e]" "db_faults d' = []"
      using put_calm [OF d] by auto
    with False show ?thesis by (simp add: put_email_def in_store_def asking_def accepted_def)
  next
    case True
    obtain d' where "PutWithin (e_created_at e) e (vo_hourly vol) (vo_daily vol) ?d = (Inr [], d')"
        "db_emails d' = db_emails (ac_db s) @ [put_row e]" "db_faults d' = []"
      using put_within_calm [OF d] assms(2,3) by (auto simp: v)
    with True show ?thesis by (simp add: put_email_def in_store_def asking_def accepted_def)
  qed
qed

lemma attachments_decode:
  "attachments_fault sv maxTotal cs sofar = None \<Longrightarrow> c \<in> set cs \<Longrightarrow> StdDecode (ca_content c) \<noteq> None"
  by (induction sv maxTotal cs sofar rule: attachments_fault.induct) (auto split: if_splits option.splits)

lemma first_fault_None: "first_fault fs = None \<longleftrightarrow> (\<forall>f \<in> set fs. f = None)"
  by (induction fs) (auto simp: first_fault_def split: list.splits)

lemma shape_decodes:
  assumes "shape_fault sv now rq = None" "a \<in> set (rq_attachments rq)" "own_attachment a"
  shows "StdDecode (at_content a) \<noteq> None"
proof -
  have "validateAttachments sv (rq_attachments rq) = None"
    using assms(1,2) unfolding shape_fault_def first_fault_None by (auto split: if_splits)
  then have "attachments_fault sv (sv_max_total sv) (toClientAttachments (filter own_attachment (rq_attachments rq))) 0 = None"
    by (simp add: validateAttachments_def split: option.splits)
  moreover have "\<lparr>ca_filename = at_filename a, ca_content = at_content a, ca_content_type = at_content_type a,
      ca_content_id = at_content_id a\<rparr> \<in> set (toClientAttachments (filter own_attachment (rq_attachments rq)))"
    using assms(2,3) by (auto simp: toClientAttachments_def)
  ultimately show ?thesis using attachments_decode by fastforce
qed

lemma offload_calm:
  assumes "\<forall>a \<in> set as. own_attachment a \<longrightarrow> StdDecode (at_content a) \<noteq> None"
  shows "\<exists>as' s'. offload_each sv i k as (s, []) = (Inr as', (s', [])) \<and> ac_db s' = ac_db s"
  using assms
proof (induction as arbitrary: k s)
  case Nil
  show ?case by (simp add: accepted_def)
next
  case (Cons a as)
  show ?case
  proof (cases "at_content a = [] \<or> at_storage_key a \<noteq> [] \<or> \<not> own_attachment a")
    case True
    obtain as' s' where "offload_each sv i (Suc k) as (s, []) = (Inr as', (s', []))" "ac_db s' = ac_db s"
      using Cons.IH [of "Suc k" s] Cons.prems by auto
    with True show ?thesis by (simp add: passing_def accepted_def)
  next
    case False
    with Cons.prems obtain raw where raw: "StdDecode (at_content a) = Some raw" by auto
    let ?s = "s\<lparr>ac_blobs := AList.update (blob_key sv i k a) raw (ac_blobs s)\<rparr>"
    obtain as' s' where "offload_each sv i (Suc k) as (?s, []) = (Inr as', (s', []))" "ac_db s' = ac_db ?s"
      using Cons.IH [of "Suc k" ?s] Cons.prems by auto
    with False raw show ?thesis by (simp add: passing_def accepted_def asking_def BlobPut_def)
  qed
qed

lemma offloadAttachments_calm:
  assumes "\<forall>a \<in> set (e_attachments e). own_attachment a \<longrightarrow> StdDecode (at_content a) \<noteq> None"
  shows "\<exists>as' s'. wrapped what (offloadAttachments sv e (s, [])) = (Inr (e\<lparr>e_attachments := as'\<rparr>), (s', [])) \<and> ac_db s' = ac_db s"
proof (cases "sv_blob sv")
  case False
  then show ?thesis
    by (intro exI [of _ "e_attachments e"] exI [of _ s]) (simp add: offloadAttachments_def accepted_def wrapped_def)
next
  case True
  obtain as' s' where "offload_each sv (e_id e) 0 (e_attachments e) (s, []) = (Inr as', (s', []))" "ac_db s' = ac_db s"
    using offload_calm [OF assms] by blast
  with True show ?thesis by (simp add: offloadAttachments_def passing_def accepted_def wrapped_def) blast
qed

lemma upsert_links_calm: "\<exists>s'. upsert_links projID ls (s, []) = (s', []) \<and> ac_db s' = ac_db s"
proof (induction ls arbitrary: s)
  case Nil
  show ?case by simp
next
  case (Cons l ls)
  obtain url hash where l: "l = (url, hash)" by (rule prod.exhaust)
  obtain s1 where "snd (UpsertTrackedLink \<lparr>tl_project_id = projID, tl_campaign_id = [], tl_original_url = url, tl_hash = hash\<rparr> (s, []))
      = (s1, [])" "ac_db s1 = ac_db s"
    by (auto simp: UpsertTrackedLink_def)
  with Cons.IH [of s1] show ?case by (simp add: l)
qed

definition same_parts :: "email \<Rightarrow> email \<Rightarrow> bool" where
  "same_parts e e' = (e_id e' = e_id e \<and> e_project_id e' = e_project_id e \<and> e_created_at e' = e_created_at e \<and>
     e_system e' = e_system e \<and> e_attachments e' = e_attachments e)"

lemma applyTracking_calm:
  "\<exists>e' s'. applyTracking sv projID e off (s, []) = (e', (s', [])) \<and> ac_db s' = ac_db s \<and> same_parts e e'"
proof (cases "sv_tracking sv")
  case None
  then show ?thesis by (simp add: applyTracking_def same_parts_def)
next
  case (Some t)
  obtain p where p: "GetProject projID (s, []) = (Inr p, (s, []))" by (simp add: GetProject_def)
  show ?thesis
  proof (cases "off \<or> e_html_body e = [] \<or> p = None \<or> (\<exists>q. p = Some q \<and> \<not> pc_track_opens q \<and> \<not> pc_track_clicks q)")
    case True
    with Some p show ?thesis by (auto simp: applyTracking_def same_parts_def)
  next
    case False
    then obtain q where q: "p = Some q" "\<not> (\<not> pc_track_opens q \<and> \<not> pc_track_clicks q)" by auto
    obtain html links where h: "tk_process t (e_id e) projID (pc_track_opens q) (pc_track_clicks q) (e_html_body e) = (html, links)"
      by (rule prod.exhaust)
    obtain s' where "upsert_links projID links (s, []) = (s', [])" "ac_db s' = ac_db s" using upsert_links_calm by blast
    with False Some p q h show ?thesis by (auto simp: applyTracking_def same_parts_def)
  qed
qed

lemma store_email_calm:
  assumes fresh: "\<forall>r \<in> set (db_emails (ac_db s)). e_id r \<noteq> e_id e"
    and hourly: "0 < vo_hourly vol \<longrightarrow> volume_since (e_project_id e) (e_created_at e - hour) (ac_db s) < vo_hourly vol"
    and daily: "0 < vo_daily vol \<longrightarrow> volume_since (e_project_id e) (e_created_at e - day) (ac_db s) < vo_daily vol"
    and decode: "\<forall>a \<in> set (e_attachments e). own_attachment a \<longrightarrow> StdDecode (at_content a) \<noteq> None"
  shows "\<exists>e' s'. store_email sv now rq allowed blocked vol e (s, []) = (Inr (e', blocked), (s', [])) \<and>
    db_emails (ac_db s') = db_emails (ac_db s) @ [put_row e']"
proof (cases "allowed = []")
  case True
  let ?e = "suppressed_row (rq_to rq) e"
  obtain s' where "put_email sv ?e vol (s, []) = (Inr (), (s', []))" "db_emails (ac_db s') = db_emails (ac_db s) @ [put_row ?e]"
    using put_email_calm [of s ?e vol sv] fresh hourly daily by (auto simp: suppressed_row_def)
  with True show ?thesis by (simp add: store_email_def Let_def passing_def accepted_def Emit_def)
next
  case False
  let ?e = "scheduled now (rq_send_at rq) e"
  have parts: "same_parts e ?e" by (auto simp: same_parts_def scheduled_def split: option.split)
  obtain as' s1 where off: "wrapped ''offload attachments: '' (offloadAttachments sv ?e (s, [])) = (Inr (?e\<lparr>e_attachments := as'\<rparr>), (s1, []))"
      and s1: "ac_db s1 = ac_db s"
    using offloadAttachments_calm [of ?e] decode parts unfolding same_parts_def by metis
  let ?e' = "?e\<lparr>e_attachments := as'\<rparr>"
  obtain s2 where put: "put_email sv ?e' vol (s1, []) = (Inr (), (s2, []))" "db_emails (ac_db s2) = db_emails (ac_db s) @ [put_row ?e']"
    using put_email_calm [of s1 ?e' vol sv] fresh hourly daily parts s1 by (auto simp: same_parts_def)
  with False off show ?thesis
    by (cases "e_system ?e'") (simp_all add: store_email_def passing_def accepted_def Emit_def)
qed

text \<open>What checking leaves of a request, and what the send does after the checks.\<close>

lemma Validate_keeps_request:
  assumes "Validate sv at projID rq w = (Inr rq', w')"
  shows "shape_fault sv (at_shape at) rq = None \<and>
    (\<exists>u m. rq' = rq\<lparr>rq_unsubscribe_url := u, rq_unsubscribe_mailto := m\<rparr>)"
proof -
  obtain rq1 where v: "ValidateShape sv (at_shape at) rq = Inr rq1"
    using assms by (cases "ValidateShape sv (at_shape at) rq") (auto simp: Validate_def refused_def)
  then have "shape_fault sv (at_shape at) rq = None"
    and "\<exists>u m. rq1 = rq\<lparr>rq_unsubscribe_url := u, rq_unsubscribe_mailto := m\<rparr>"
    by (auto simp: ValidateShape_def normalizeUnsubscribeLinks_def Let_def split: option.splits sum.splits if_splits)
  moreover have "rq' = rq1"
    using assms v by (auto simp: Validate_def Let_def passing_def accepted_def split: prod.splits sum.splits if_splits)
  ultimately show ?thesis by blast
qed

definition finish_send ::
    "service \<Rightarrow> instants \<Rightarrow> string \<Rightarrow> string \<Rightarrow> string \<Rightarrow> string \<Rightarrow> send_request \<Rightarrow> string list \<Rightarrow> string list \<Rightarrow> volume \<Rightarrow> aworld \<Rightarrow> (email \<times> string list) verdict" where
  "finish_send sv at new_id projID createdBy apiKeyID rq allowed blocked vol w =
     asking (mintsLinks projID (rq_unsubscribe_list_id rq) w) (\<lambda>mint w.
       (case stamp_link sv mint allowed rq of (unsubURL, rq) \<Rightarrow>
        (case registeredSender sv projID (rq_from rq) w of (reg, w) \<Rightarrow>
         asking (if rq_system rq then Return rq w else withProjectDefaults projID rq w) (\<lambda>rq w.
           (let now = at_row at;
                e = resolveSystemLinks sv (email_of sv now new_id projID createdBy apiKeyID reg allowed rq) unsubURL in
            case (if e_tracked e \<or> e_system e then (e, w) else applyTracking sv projID e (rq_track_off rq) w) of
              (e, w) \<Rightarrow> store_email sv now rq allowed blocked vol e w)))))"

lemma Send_finish:
  "Send sv at new_id projID createdBy apiKeyID rq0 w =
     passing (Validate sv at projID rq0 w) (\<lambda>rq w.
     passing (admit sv at projID rq w) (\<lambda>(allowed, blocked, vol).
       finish_send sv at new_id projID createdBy apiKeyID rq allowed blocked vol))"
  unfolding Send_def finish_send_def case_prod_unfold ..

lemma stamp_link_parts:
  "stamp_link sv mint allowed rq = (u, rq') \<Longrightarrow>
   rq_id rq' = rq_id rq \<and> rq_attachments rq' = rq_attachments rq \<and> rq_from rq' = rq_from rq \<and> rq_system rq' = rq_system rq \<and>
   rq_to rq' = rq_to rq \<and> rq_send_at rq' = rq_send_at rq \<and> rq_headers rq' = rq_headers rq \<and> rq_header_to rq' = rq_header_to rq \<and>
   rq_cc rq' = rq_cc rq \<and> rq_reply_to rq' = rq_reply_to rq \<and> rq_unsubscribe_list_id rq' = rq_unsubscribe_list_id rq"
  by (auto simp: stamp_link_def Let_def split: option.splits list.splits if_splits)

lemma withProjectDefaults_Inr:
  assumes "withProjectDefaults projID rq w = (Inr rq', w')"
  shows "(\<exists>p. find (\<lambda>p. pc_id p = projID) (ac_projects (fst w)) = p \<and>
     rq' = (case p of None \<Rightarrow> rq | Some p \<Rightarrow> rq\<lparr>rq_headers := Merge (pc_default_headers p) (rq_headers rq)\<rparr>))"
  using andThen_Inr [OF assms [unfolded withProjectDefaults_def]] Read_Inr
  by (fastforce simp: GetProject_def)

definition message_id :: "send_request \<Rightarrow> string \<Rightarrow> string" where
  "message_id rq new_id = (if rq_id rq = [] then new_id else rq_id rq)"

lemma email_of_parts [simp]:
  "e_id (email_of sv now new_id p c k reg allowed rq) = message_id rq new_id"
  "e_project_id (email_of sv now new_id p c k reg allowed rq) = p"
  "e_created_at (email_of sv now new_id p c k reg allowed rq) = now"
  "e_attachments (email_of sv now new_id p c k reg allowed rq) = rq_attachments rq"
  "e_system (email_of sv now new_id p c k reg allowed rq) = rq_system rq"
  "e_recipients (email_of sv now new_id p c k reg allowed rq) = allowed"
  "e_status (email_of sv now new_id p c k reg allowed rq) = StatusQueued"
  "e_headers (email_of sv now new_id p c k reg allowed rq) = withDisplayRecipients rq"
  "e_sender (email_of sv now new_id p c k reg allowed rq) = withRegisteredName sv reg (rq_from rq)"
  "e_next_attempt_at (email_of sv now new_id p c k reg allowed rq) = Some now"
  "e_claimed_at (email_of sv now new_id p c k reg allowed rq) = None"
  "e_unsubscribe_list_id (email_of sv now new_id p c k reg allowed rq) = rq_unsubscribe_list_id rq"
  by (simp_all add: email_of_def message_id_def zero_email_def)

lemma resolve_links_parts [simp]:
  "e_id (resolveSystemLinks sv e u) = e_id e" "e_project_id (resolveSystemLinks sv e u) = e_project_id e"
  "e_created_at (resolveSystemLinks sv e u) = e_created_at e" "e_attachments (resolveSystemLinks sv e u) = e_attachments e"
  "e_system (resolveSystemLinks sv e u) = e_system e" "e_recipients (resolveSystemLinks sv e u) = e_recipients e"
  "e_status (resolveSystemLinks sv e u) = e_status e" "e_headers (resolveSystemLinks sv e u) = e_headers e"
  "e_sender (resolveSystemLinks sv e u) = e_sender e" "e_next_attempt_at (resolveSystemLinks sv e u) = e_next_attempt_at e"
  "e_claimed_at (resolveSystemLinks sv e u) = e_claimed_at e"
  "e_unsubscribe_list_id (resolveSystemLinks sv e u) = e_unsubscribe_list_id e"
  by (simp_all add: resolveSystemLinks_def Let_def)

lemma finish_send_calm:
  assumes fresh: "\<forall>r \<in> set (db_emails (ac_db s)). e_id r \<noteq> message_id rq new_id"
    and hourly: "0 < vo_hourly vol \<longrightarrow> volume_since projID (at_row at - hour) (ac_db s) < vo_hourly vol"
    and daily: "0 < vo_daily vol \<longrightarrow> volume_since projID (at_row at - day) (ac_db s) < vo_daily vol"
    and decode: "\<forall>a \<in> set (rq_attachments rq). own_attachment a \<longrightarrow> StdDecode (at_content a) \<noteq> None"
  shows "\<exists>e s'. finish_send sv at new_id projID c k rq allowed blocked vol (s, []) = (Inr (e, blocked), (s', [])) \<and>
    db_emails (ac_db s') = db_emails (ac_db s) @ [put_row e]"
proof -
  obtain mint where mint: "mintsLinks projID (rq_unsubscribe_list_id rq) (s, []) = (Inr mint, (s, []))"
    using query_calm [OF mintsLinks_query] by blast
  obtain u rq1 where stamp: "stamp_link sv mint allowed rq = (u, rq1)" by (rule prod.exhaust)
  obtain reg where reg: "registeredSender sv projID (rq_from rq1) (s, []) = (reg, (s, []))"
  proof -
    obtain x where "in_proc (GetSenderByEmail projID (to_lower (EnvelopeAddress (sv_parse sv) (rq_from rq1)))) (s, []) = (Inr x, (s, []))"
      using query_calm [OF query_parts(1) [OF query_reads(5)]] by blast
    with that show thesis by (cases "EnvelopeAddress (sv_parse sv) (rq_from rq1) = []") (simp_all add: registeredSender_def Let_def)
  qed
  obtain rq2 where hs: "(if rq_system rq1 then Return rq1 (s, []) else withProjectDefaults projID rq1 (s, [])) = (Inr rq2, (s, []))"
    using query_calm [OF defaults_query] by (cases "rq_system rq1") (simp, metis)
  have rq2: "rq_id rq2 = rq_id rq1 \<and> rq_attachments rq2 = rq_attachments rq1"
  proof (cases "rq_system rq1")
    case False
    with hs withProjectDefaults_Inr [of projID rq1 "(s, [])"] show ?thesis by (auto split: option.splits)
  qed (use hs in simp)
  let ?e = "resolveSystemLinks sv (email_of sv (at_row at) new_id projID c k reg allowed rq2) u"
  obtain e1 s1 where track: "(if e_tracked ?e \<or> e_system ?e then (?e, (s, [])) else applyTracking sv projID ?e (rq_track_off rq2) (s, [])) = (e1, (s1, []))"
      and s1: "ac_db s1 = ac_db s" and parts: "same_parts ?e e1"
    using applyTracking_calm [of sv projID ?e "rq_track_off rq2" s]
    by (cases "e_tracked ?e \<or> e_system ?e") (simp add: same_parts_def, metis)
  have e1: "e_id e1 = message_id rq new_id" "e_project_id e1 = projID" "e_created_at e1 = at_row at"
      "e_attachments e1 = rq_attachments rq"
    using parts rq2 stamp_link_parts [OF stamp] by (simp_all add: same_parts_def message_id_def)
  obtain e s' where "store_email sv (at_row at) rq2 allowed blocked vol e1 (s1, []) = (Inr (e, blocked), (s', []))"
      "db_emails (ac_db s') = db_emails (ac_db s) @ [put_row e]"
    using store_email_calm [of s1 e1 vol sv "at_row at" rq2 allowed blocked] assms e1 s1 by auto
  with mint stamp reg hs track show ?thesis
    by (simp add: finish_send_def asking_def Let_def)
qed

lemma passing_cases:
  assumes "passing r k = (y, w')"
  obtains (failed) e where "r = (Inl e, w')" "y = Inl e"
    | (ran) x w where "r = (Inr x, w)" "k x w = (y, w')"
  using assms by (auto simp: passing_def split: prod.splits sum.splits)

lemma steady_result:
  assumes "steady m"
  obtains r where "m (s, []) = (r, (s, []))"
  using assms unfolding steady_def by (metis prod.collapse)

text \<open>
  C15: A dry run foretells the send it stands for.  On a day without faults, with a plan whose counters
  no other request moves and an id nobody has, a dry run changes nothing; it is refused exactly when
  the send is, for the same reason and with nothing stored; and where it passes, the send stores one
  row and names the same recipients as blocked.
\<close>
theorem dry_run_foretells_send:
  assumes dry: "DryRun sv at projID rq (s, []) = (d, w1)"
    and send: "Send sv at new_id projID createdBy apiKeyID rq (s, []) = (r, w2)"
    and clock: "at_quota at \<le> at_row at" and counters: "\<forall>v \<in> set (db_volume (ac_db s)). 0 \<le> v_accepted v"
    and fresh: "\<forall>e \<in> set (db_emails (ac_db s)). e_id e \<noteq> message_id rq new_id"
  shows "w1 = (s, []) \<and>
    (case d of
       Inl e \<Rightarrow> r = Inl e \<and> w2 = (s, [])
     | Inr blocked \<Rightarrow> \<exists>e. r = Inr (e, blocked) \<and> db_emails (ac_db (fst w2)) = db_emails (ac_db s) @ [put_row e])"
proof -
  obtain v where v: "Validate sv at projID rq (s, []) = (v, (s, []))" by (rule steady_result [OF steady_Validate])
  show ?thesis
  proof (cases v)
    case (Inl e)
    with v dry send show ?thesis by (auto simp: DryRun_def Send_finish passing_def)
  next
    case (Inr rq1)
    note rq1 = Validate_keeps_request [OF v [unfolded Inr]]
    have decode: "\<forall>a \<in> set (rq_attachments rq1). own_attachment a \<longrightarrow> StdDecode (at_content a) \<noteq> None"
      and id: "message_id rq1 new_id = message_id rq new_id"
      using rq1 shape_decodes by (auto simp: message_id_def)
    note stored = finish_send_calm [of s rq1 new_id _ projID at sv createdBy apiKeyID, OF _ _ _ decode, unfolded id, OF fresh]
    show ?thesis
    proof (cases "rq_system rq1")
      case True
      with v Inr dry send show ?thesis
        using stored [of no_volume "rq_to rq1" "[]"]
        by (auto simp: DryRun_def Send_finish passing_def admit_def accepted_def no_volume_def)
    next
      case False
      obtain c where c: "CheckSend sv (at_quota at) projID (s, []) = (c, (s, []))"
        by (rule steady_result [OF steady_CheckSend])
      obtain allowed blocked where f: "in_proc (in_sup (FilterSuppressedForList (sv_parse sv) projID (rq_unsubscribe_list_id rq1) (rq_to rq1))) (s, [])
          = (Inr (allowed, blocked), (s, []))"
        using query_calm [OF query_parts(3) [OF filter_query]] by (metis surj_pair)
      show ?thesis
      proof (cases c)
        case (Inl e)
        with v Inr False c dry send show ?thesis by (auto simp: DryRun_def Send_finish passing_def admit_def)
      next
        case (Inr vol)
        note limits = CheckSend_limits [OF c [unfolded Inr]]
        have "volume_since projID (at_row at - t) (ac_db s) \<le> volume_since projID (at_quota at - t) (ac_db s)" for t
          using clock counters by (intro volume_since_mono) simp_all
        then have "0 < vo_hourly vol \<longrightarrow> volume_since projID (at_row at - hour) (ac_db s) < vo_hourly vol"
            "0 < vo_daily vol \<longrightarrow> volume_since projID (at_row at - day) (ac_db s) < vo_daily vol"
          using limits by (meson le_less_trans)+
        with v \<open>v = Inr rq1\<close> False c Inr f dry send show ?thesis
          using stored [of vol allowed blocked]
          by (auto simp: DryRun_def Send_finish passing_def admit_def asking_def accepted_def)
      qed
    qed
  qed
qed

section \<open>The row a send stores\<close>

lemma asking_cases:
  assumes "asking r k = (y, w')"
  obtains (failed) e where "r = (Inl e, w')" "y = Inl (Broken e)"
    | (ran) x w where "r = (Inr x, w)" "k x w = (y, w')"
  using assms by (auto simp: asking_def split: prod.splits sum.splits)

definition emails_of :: "aworld \<Rightarrow> email list" where
  "emails_of w = db_emails (ac_db (fst w))"

text \<open>Everything of a row but its texts, its attachments and what tracking writes.\<close>

definition kin :: "email \<Rightarrow> email \<Rightarrow> bool" where
  "kin e e' = (e_id e' = e_id e \<and> e_project_id e' = e_project_id e \<and> e_created_at e' = e_created_at e \<and>
     e_system e' = e_system e \<and> e_recipients e' = e_recipients e \<and> e_status e' = e_status e \<and> e_headers e' = e_headers e \<and>
     e_sender e' = e_sender e \<and> e_next_attempt_at e' = e_next_attempt_at e \<and> e_claimed_at e' = e_claimed_at e \<and>
     e_unsubscribe_list_id e' = e_unsubscribe_list_id e)"

lemma upsert_links_db:
  "ac_db (fst (upsert_links projID ls w)) = ac_db (fst w) \<and> ac_projects (fst (upsert_links projID ls w)) = ac_projects (fst w)"
proof (induction projID ls w rule: upsert_links.induct)
  case (2 projID url hash ls w)
  have "keeps (\<lambda>s. ac_db s = ac_db (fst w) \<and> ac_projects s = ac_projects (fst w))
      (UpsertTrackedLink \<lparr>tl_project_id = projID, tl_campaign_id = [], tl_original_url = url, tl_hash = hash\<rparr>)"
    unfolding UpsertTrackedLink_def by (rule keeps_Run) simp
  from keeps_apply [OF this] 2 show ?case by simp
qed simp

lemma applyTracking_kin:
  assumes "applyTracking sv projID e off w = (e', w')"
  shows "kin e e' \<and> ac_db (fst w') = ac_db (fst w) \<and> ac_projects (fst w') = ac_projects (fst w)"
proof -
  obtain p w1 where p: "GetProject projID w = (p, w1)" by (rule prod.exhaust)
  then have "fst w1 = fst w" unfolding GetProject_def by (rule Read_state)
  with assms p show ?thesis
    by (auto simp: applyTracking_def kin_def upsert_links_db split: option.splits if_splits sum.splits prod.splits)
qed

lemma offload_db:
  "offload_each sv i k as w = (r, w') \<Longrightarrow> ac_db (fst w') = ac_db (fst w)"
proof (induction as arbitrary: k r w w')
  case Nil
  then show ?case by (simp add: accepted_def)
next
  case (Cons a as)
  have put: "ac_db (fst (snd (BlobPut key raw w))) = ac_db (fst w)" for key raw w
    using keeps_apply [of "\<lambda>s. ac_db s = ac_db (fst w)" "BlobPut key raw" w] unfolding BlobPut_def
    by (simp add: keeps_Run)
  show ?case
  proof (cases "at_content a = [] \<or> at_storage_key a \<noteq> [] \<or> \<not> own_attachment a")
    case True
    with Cons.prems have "passing (offload_each sv i (Suc k) as w) (\<lambda>as. accepted (a # as)) = (r, w')" by simp
    then show ?thesis
      by (cases rule: passing_cases) (use Cons.IH in \<open>auto simp: accepted_def\<close>)
  next
    case False
    show ?thesis
    proof (cases "StdDecode (at_content a)")
      case None
      with False Cons.prems show ?thesis by (simp add: refused_def)
    next
      case (Some raw)
      let ?a = "a\<lparr>at_storage_key := blob_key sv i k a, at_size := int (length raw), at_content := []\<rparr>"
      from Cons.prems False Some have "asking (BlobPut (blob_key sv i k a) raw w) (\<lambda>_ w.
          passing (offload_each sv i (Suc k) as w) (\<lambda>as. accepted (?a # as))) = (r, w')" by simp
      then show ?thesis
      proof (cases rule: asking_cases)
        case (failed e)
        with put show ?thesis by (metis snd_conv)
      next
        case (ran x w1)
        then have w1: "ac_db (fst w1) = ac_db (fst w)" using put by (metis snd_conv)
        from ran(2) show ?thesis
          by (cases rule: passing_cases) (use Cons.IH w1 in \<open>auto simp: accepted_def\<close>)
      qed
    qed
  qed
qed

lemma offloadAttachments_row:
  assumes "wrapped what (offloadAttachments sv e w) = (r, w')"
  shows "ac_db (fst w') = ac_db (fst w) \<and> (\<forall>e'. r = Inr e' \<longrightarrow> (\<exists>as. e' = e\<lparr>e_attachments := as\<rparr>))"
proof -
  obtain r1 where r1: "offloadAttachments sv e w = (r1, w')" and eq: "\<forall>e'. r = Inr e' \<longrightarrow> r1 = Inr e'"
    using assms by (auto simp: wrapped_def split: prod.splits sum.splits send_failure.splits)
  show ?thesis
  proof (cases "sv_blob sv")
    case False
    with r1 eq show ?thesis by (auto simp: offloadAttachments_def accepted_def intro: exI [of _ "e_attachments e"])
  next
    case True
    with r1 have "passing (offload_each sv (e_id e) 0 (e_attachments e) w) (\<lambda>as. accepted (e\<lparr>e_attachments := as\<rparr>)) = (r1, w')"
      by (simp add: offloadAttachments_def)
    then show ?thesis
      by (cases rule: passing_cases) (use eq offload_db in \<open>auto simp: accepted_def\<close>)
  qed
qed

lemma put_email_rows:
  assumes "put_email sv e vol w = (r, w')"
  shows "(r \<noteq> Inr () \<and> emails_of w' = emails_of w) \<or> emails_of w' = emails_of w @ [put_row e]"
proof (cases "Bounded vol")
  case False
  let ?d = "(ac_db (fst w))\<lparr>db_faults := snd w\<rparr>"
  obtain p d where p: "Put (e_created_at e) e ?d = (p, d)" by (rule prod.exhaust)
  have "(p \<noteq> Inr () \<and> db_emails d = db_emails ?d) \<or> db_emails d = db_emails ?d @ [put_row e]"
  proof -
    obtain r0 where x: "Exec (if e_system e then put_system_stmt e else put_stmt e) ?d = (r0, d)" and f: "flat (r0, d) = (p, d)"
      using p by (cases "Exec (if e_system e then put_system_stmt e else put_stmt e) ?d") (auto simp: Put_def Let_def flat_def split: sum.splits)
    from x show ?thesis
      by (cases rule: Exec_cases) (use f in \<open>auto simp: flat_def put_stmt_def put_system_stmt_def split: if_splits\<close>)
  qed
  with assms False p show ?thesis
    by (auto simp: put_email_def in_store_def asking_def accepted_def emails_of_def split: sum.splits)
next
  case True
  let ?d = "(ac_db (fst w))\<lparr>db_faults := snd w\<rparr>"
  obtain p d where p: "PutWithin (e_created_at e) e (vo_hourly vol) (vo_daily vol) ?d = (p, d)" by (rule prod.exhaust)
  have "(p \<noteq> Inr [] \<and> db_emails d = db_emails ?d) \<or> db_emails d = db_emails ?d @ [put_row e]"
    using p by (cases rule: put_within_cases) auto
  with assms True p show ?thesis
    by (auto simp: put_email_def in_store_def asking_def accepted_def refused_def emails_of_def split: sum.splits if_splits)
qed

text \<open>The row written is the one made up, with its status, its schedule and its offloaded attachments.\<close>

definition final_row :: "time \<Rightarrow> send_request \<Rightarrow> string list \<Rightarrow> email \<Rightarrow> attachment list \<Rightarrow> email" where
  "final_row now rq allowed e as =
     (if allowed = [] then suppressed_row (rq_to rq) e else (scheduled now (rq_send_at rq) e)\<lparr>e_attachments := as\<rparr>)"

lemma store_email_rows:
  assumes "store_email sv now rq allowed blocked vol e w = (r, w')"
  shows "(isl r \<and> emails_of w' = emails_of w) \<or>
    (\<exists>as. let e' = final_row now rq allowed e as in emails_of w' = emails_of w @ [put_row e'] \<and> (isl r \<or> r = Inr (e', blocked)))"
proof (cases "allowed = []")
  case True
  let ?e = "suppressed_row (rq_to rq) e"
  from assms True have "passing (put_email sv ?e vol w) (\<lambda>_ w. accepted (?e, blocked) (Emit EventEmailSuppressed ?e w)) = (r, w')"
    by (simp add: store_email_def Let_def)
  then show ?thesis
    by (cases rule: passing_cases)
      (use put_email_rows [of sv ?e vol w] True in \<open>auto simp: accepted_def Emit_def emails_of_def final_row_def Let_def\<close>)
next
  case False
  let ?s = "scheduled now (rq_send_at rq) e"
  from assms False have "passing (wrapped ''offload attachments: '' (offloadAttachments sv ?s w)) (\<lambda>e w.
      passing (put_email sv e vol w) (\<lambda>_ w. accepted (e, blocked) (if e_system e then w else Emit EventEmailQueued e w))) = (r, w')"
    by (simp add: store_email_def)
  then show ?thesis
  proof (cases rule: passing_cases)
    case (failed e1)
    with offloadAttachments_row show ?thesis by (fastforce simp: emails_of_def)
  next
    case (ran e1 w1)
    obtain as where e1: "e1 = ?s\<lparr>e_attachments := as\<rparr>" and w1: "emails_of w1 = emails_of w"
      using offloadAttachments_row [OF ran(1)] by (auto simp: emails_of_def)
    from ran(2) show ?thesis
      by (cases rule: passing_cases)
        (use put_email_rows [of sv e1 vol w1] False w1 in
          \<open>auto simp: accepted_def Emit_def emails_of_def final_row_def Let_def e1 intro!: exI [of _ as] split: if_splits\<close>)
  qed
qed

definition default_headers :: "project_conf list \<Rightarrow> string \<Rightarrow> headers" where
  "default_headers ps projID = (case find (\<lambda>p. pc_id p = projID) ps of None \<Rightarrow> [] | Some p \<Rightarrow> pc_default_headers p)"

text \<open>The request a row is made of: the caller's, with the project's headers under it and a link stamped.\<close>

definition as_asked :: "project_conf list \<Rightarrow> string \<Rightarrow> send_request \<Rightarrow> send_request \<Rightarrow> bool" where
  "as_asked ps projID rq rq' =
     (rq_id rq' = rq_id rq \<and> rq_to rq' = rq_to rq \<and> rq_from rq' = rq_from rq \<and> rq_send_at rq' = rq_send_at rq \<and>
      rq_system rq' = rq_system rq \<and> rq_header_to rq' = rq_header_to rq \<and> rq_cc rq' = rq_cc rq \<and> rq_reply_to rq' = rq_reply_to rq \<and>
      rq_unsubscribe_list_id rq' = rq_unsubscribe_list_id rq \<and>
      rq_headers rq' = (if rq_system rq then rq_headers rq else Merge (default_headers ps projID) (rq_headers rq)))"

definition made ::
    "service \<Rightarrow> instants \<Rightarrow> string \<Rightarrow> string \<Rightarrow> project_conf list \<Rightarrow> send_request \<Rightarrow> string list \<Rightarrow> email \<Rightarrow> bool" where
  "made sv at new_id projID ps rq allowed e =
     (\<exists>c k reg rq' e1 as. as_asked ps projID rq rq' \<and> kin (email_of sv (at_row at) new_id projID c k reg allowed rq') e1 \<and>
        e = final_row (at_row at) rq' allowed e1 as)"

lemma Merge_Nil [simp]: "Merge [] own = own"
  by (simp add: Merge_def)

lemma kin_trans: "kin a b \<Longrightarrow> kin b c \<Longrightarrow> kin a c"
  by (simp add: kin_def)

lemma kin_resolve: "kin e (resolveSystemLinks sv e u)"
  by (simp add: kin_def)

lemma still_apply: "keeps (\<lambda>s. s = fst w) m \<Longrightarrow> m w = (r, w') \<Longrightarrow> fst w' = fst w"
  using keeps_apply [of "\<lambda>s. s = fst w" m w] by simp

lemma finish_send_rows:
  assumes "finish_send sv at new_id projID c k rq allowed blocked vol w = (r, w')"
  shows "(isl r \<and> emails_of w' = emails_of w) \<or>
    (\<exists>e. emails_of w' = emails_of w @ [put_row e] \<and> made sv at new_id projID (ac_projects (fst w)) rq allowed e \<and>
       (isl r \<or> r = Inr (e, blocked)))"
  using assms unfolding finish_send_def
proof (cases rule: asking_cases)
  case (failed e)
  then show ?thesis using still_apply [OF still_query [OF mintsLinks_query]] by (auto simp: emails_of_def)
next
  case (ran mint w1)
  have w1: "fst w1 = fst w" using still_apply [OF still_query [OF mintsLinks_query] ran(1)] .
  obtain u rq1 where stamp: "stamp_link sv mint allowed rq = (u, rq1)" by (rule prod.exhaust)
  obtain reg w2 where reg: "registeredSender sv projID (rq_from rq1) w1 = (reg, w2)" by (rule prod.exhaust)
  have w2: "fst w2 = fst w" using still_apply [OF still_registered reg] w1 by simp
  note step = ran(2) [unfolded stamp prod.case reg prod.case]
  from step show ?thesis
  proof (cases rule: asking_cases)
    case (failed e)
    then show ?thesis using still_apply [OF still_query [OF defaults_query]] w2 by (auto simp: emails_of_def split: if_splits)
  next
    case (ran rq2 w3)
    have w3: "fst w3 = fst w"
      using ran(1) still_apply [OF still_query [OF defaults_query]] w2 by (auto split: if_splits)
    have stamped: "as_asked (ac_projects (fst w)) projID rq rq2"
    proof (cases "rq_system rq1")
      case True
      with ran(1) have "rq2 = rq1" by simp
      with True stamp_link_parts [OF stamp] show ?thesis by (simp add: as_asked_def)
    next
      case False
      with ran(1) have "rq2 = rq1\<lparr>rq_headers := Merge (default_headers (ac_projects (fst w)) projID) (rq_headers rq1)\<rparr>"
        using withProjectDefaults_Inr [of projID rq1 w2 rq2 w3] w2 by (auto simp: default_headers_def split: option.splits)
      then show ?thesis using stamp_link_parts [OF stamp] False by (simp add: as_asked_def)
    qed
    let ?o = "email_of sv (at_row at) new_id projID c k reg allowed rq2"
    let ?e = "resolveSystemLinks sv ?o u"
    obtain e1 w4 where track: "(if e_tracked ?e \<or> e_system ?e then (?e, w3) else applyTracking sv projID ?e (rq_track_off rq2) w3) = (e1, w4)"
      by (rule prod.exhaust)
    have e1: "kin ?o e1" and w4: "emails_of w4 = emails_of w"
      using track applyTracking_kin [of sv projID ?e "rq_track_off rq2" w3 e1 w4] w3 kin_resolve [of ?o sv u] kin_trans
      by (auto simp: emails_of_def split: if_splits)
    from ran(2) track have "store_email sv (at_row at) rq2 allowed blocked vol e1 w4 = (r, w')"
      by (simp add: Let_def)
    from store_email_rows [OF this] show ?thesis
    proof
      assume "isl r \<and> emails_of w' = emails_of w4"
      with w4 show ?thesis by simp
    next
      assume "\<exists>as. let e' = final_row (at_row at) rq2 allowed e1 as in
        emails_of w' = emails_of w4 @ [put_row e'] \<and> (isl r \<or> r = Inr (e', blocked))"
      then obtain as where "emails_of w' = emails_of w @ [put_row (final_row (at_row at) rq2 allowed e1 as)]"
          "isl r \<or> r = Inr (final_row (at_row at) rq2 allowed e1 as, blocked)"
        using w4 by (auto simp: Let_def)
      then show ?thesis using stamped e1 unfolding made_def by blast
    qed
  qed
qed

definition barred :: "service \<Rightarrow> accept_db \<Rightarrow> string \<Rightarrow> string \<Rightarrow> string \<Rightarrow> bool" where
  "barred sv s projID listID r =
     (\<exists>p \<in> set (su_suppressions (pd_sup (ac_proc s))). blocks projID listID p \<and> sp_email p = mailboxKey (sv_parse sv) r)"

lemma filter_here:
  assumes "in_proc (in_sup (FilterSuppressedForList (sv_parse sv) projID listID emails)) w = (Inr (allowed, blocked), w')"
  shows "fst w' = fst w \<and> allowed = filter (\<lambda>r. \<not> barred sv (fst w) projID listID r) emails \<and>
    blocked = filter (barred sv (fst w) projID listID) emails"
proof -
  have same: "fst w' = fst w"
    using still_apply [OF still_query [OF query_parts(3) [OF filter_query]] assms] .
  let ?v = "(pd_sup (ac_proc (fst w)), snd w)"
  obtain v where "FilterSuppressedForList (sv_parse sv) projID listID emails ?v = (Inr (allowed, blocked), v)"
    using assms by (auto simp: in_proc_def in_sup_def Zoom_def split: prod.splits)
  from Filter_Inr [OF this] same show ?thesis by (simp add: barred_def [abs_def])
qed

lemma admit_Inr:
  assumes "admit sv at projID rq w = (Inr (allowed, blocked, vol), w')"
  shows "fst w' = fst w \<and>
    (if rq_system rq then allowed = rq_to rq \<and> blocked = []
     else allowed = filter (\<lambda>r. \<not> barred sv (fst w) projID (rq_unsubscribe_list_id rq) r) (rq_to rq) \<and>
       blocked = filter (barred sv (fst w) projID (rq_unsubscribe_list_id rq)) (rq_to rq))"
proof (cases "rq_system rq")
  case True
  with assms show ?thesis by (auto simp: admit_def accepted_def)
next
  case False
  with assms have "passing (CheckSend sv (at_quota at) projID w) (\<lambda>vol w.
      asking (in_proc (in_sup (FilterSuppressedForList (sv_parse sv) projID (rq_unsubscribe_list_id rq) (rq_to rq))) w)
        (\<lambda>(allowed, blocked) w. accepted (allowed, blocked, vol) w)) = (Inr (allowed, blocked, vol), w')"
    by (simp add: admit_def)
  then show ?thesis
  proof (cases rule: passing_cases)
    case (ran v w1)
    have w1: "fst w1 = fst w" using still_apply [OF still_CheckSend ran(1)] .
    from ran(2) show ?thesis
    proof (cases rule: asking_cases)
      case (ran x w2)
      then have "x = (allowed, blocked)" "w2 = w'" by (auto simp: accepted_def split: prod.splits)
      with filter_here [of sv projID _ _ w1 allowed blocked w2] ran(1) w1 False show ?thesis by simp
    qed simp
  qed simp
qed

lemma Send_rows:
  assumes "Send sv at new_id projID c k rq w = (r, w')"
  shows "(isl r \<and> emails_of w' = emails_of w) \<or>
    (\<exists>e allowed blocked. emails_of w' = emails_of w @ [put_row e] \<and>
       made sv at new_id projID (ac_projects (fst w)) rq allowed e \<and> (isl r \<or> r = Inr (e, blocked)) \<and>
       shape_fault sv (at_shape at) rq = None \<and>
       (if rq_system rq then allowed = rq_to rq \<and> blocked = []
        else allowed = filter (\<lambda>r. \<not> barred sv (fst w) projID (rq_unsubscribe_list_id rq) r) (rq_to rq) \<and>
          blocked = filter (barred sv (fst w) projID (rq_unsubscribe_list_id rq)) (rq_to rq)))"
  using assms unfolding Send_finish
proof (cases rule: passing_cases)
  case (failed e)
  then show ?thesis using still_apply [OF still_Validate] by (auto simp: emails_of_def)
next
  case (ran rq1 w1)
  have w1: "fst w1 = fst w" using still_apply [OF still_Validate ran(1)] .
  obtain u m where rq1: "rq1 = rq\<lparr>rq_unsubscribe_url := u, rq_unsubscribe_mailto := m\<rparr>"
    and shape: "shape_fault sv (at_shape at) rq = None"
    using Validate_keeps_request [OF ran(1)] by blast
  have same_asked: "as_asked ps projID rq1 rq' = as_asked ps projID rq rq'" for ps rq'
    by (simp add: as_asked_def rq1)
  from ran(2) show ?thesis
  proof (cases rule: passing_cases)
    case (failed e)
    then show ?thesis using still_apply [OF still_admit] w1 by (auto simp: emails_of_def)
  next
    case (ran x w2)
    obtain allowed blocked vol where x: "x = (allowed, blocked, vol)" by (metis prod.exhaust)
    note adm = admit_Inr [OF ran(1) [unfolded x]]
    have w2: "emails_of w2 = emails_of w" "ac_projects (fst w2) = ac_projects (fst w)" using adm w1 by (simp_all add: emails_of_def)
    from ran(2) x have "finish_send sv at new_id projID c k rq1 allowed blocked vol w2 = (r, w')" by simp
    from finish_send_rows [OF this] show ?thesis
    proof
      assume "isl r \<and> emails_of w' = emails_of w2"
      with w2 show ?thesis by simp
    next
      assume "\<exists>e. emails_of w' = emails_of w2 @ [put_row e] \<and>
        made sv at new_id projID (ac_projects (fst w2)) rq1 allowed e \<and> (isl r \<or> r = Inr (e, blocked))"
      then obtain e where e: "emails_of w' = emails_of w @ [put_row e]"
        "made sv at new_id projID (ac_projects (fst w)) rq1 allowed e" "isl r \<or> r = Inr (e, blocked)"
        using w2 by auto
      have "made sv at new_id projID (ac_projects (fst w)) rq allowed e"
        using e(2) unfolding made_def same_asked .
      with e adm w1 shape show ?thesis by (intro disjI2 exI [of _ e] exI [of _ allowed] exI [of _ blocked]) (simp add: rq1)
    qed
  qed
qed

lemma final_row_parts [simp]:
  "e_id (final_row now rq allowed e as) = e_id e" "e_project_id (final_row now rq allowed e as) = e_project_id e"
  "e_created_at (final_row now rq allowed e as) = e_created_at e" "e_system (final_row now rq allowed e as) = e_system e"
  "e_headers (final_row now rq allowed e as) = e_headers e" "e_sender (final_row now rq allowed e as) = e_sender e"
  "e_claimed_at (final_row now rq allowed e as) = e_claimed_at e"
  "e_unsubscribe_list_id (final_row now rq allowed e as) = e_unsubscribe_list_id e"
  by (simp_all add: final_row_def suppressed_row_def scheduled_def split: option.split)

lemma final_row_state:
  assumes "e_status e = StatusQueued" "e_next_attempt_at e \<noteq> None" "e_recipients e = allowed"
  shows "if allowed = [] then e_status (final_row now rq allowed e as) = StatusSuppressed \<and>
      e_next_attempt_at (final_row now rq allowed e as) = None \<and> e_recipients (final_row now rq allowed e as) = rq_to rq
    else e_status (final_row now rq allowed e as) \<in> {StatusQueued, StatusScheduled} \<and>
      e_next_attempt_at (final_row now rq allowed e as) \<noteq> None \<and> e_recipients (final_row now rq allowed e as) = allowed"
  using assms by (simp add: final_row_def suppressed_row_def scheduled_def split: option.split)

lemma made_parts:
  assumes "made sv at new_id projID ps rq allowed e"
  shows "e_system e = rq_system rq \<and> e_claimed_at e = None \<and> e_id e = message_id rq new_id \<and> e_project_id e = projID \<and>
    e_created_at e = at_row at \<and> e_unsubscribe_list_id e = rq_unsubscribe_list_id rq \<and>
    (if allowed = [] then e_status e = StatusSuppressed \<and> e_next_attempt_at e = None \<and> e_recipients e = rq_to rq
     else e_status e \<in> {StatusQueued, StatusScheduled} \<and> e_next_attempt_at e \<noteq> None \<and> e_recipients e = allowed)"
proof -
  obtain c k reg rq' e1 as where rq': "as_asked ps projID rq rq'"
    and e1: "kin (email_of sv (at_row at) new_id projID c k reg allowed rq') e1" and e: "e = final_row (at_row at) rq' allowed e1 as"
    using assms unfolding made_def by blast
  have "e_status e1 = StatusQueued" "e_next_attempt_at e1 \<noteq> None" "e_recipients e1 = allowed"
    using e1 by (simp_all add: kin_def)
  from final_row_state [OF this, of "at_row at" rq' as] show ?thesis
    using e1 rq' by (cases "allowed = []") (simp_all add: e kin_def as_asked_def message_id_def)
qed

text \<open>
  C16: A send reaches nobody who asked not to get mail.  Whatever fails meanwhile, a send of a project's
  own mail that is answered stored one row; the recipients it reports as dropped are exactly those on
  the do-not-send list, and the row asks the others - or, when there are no others, is kept for the
  record in a state no worker claims.
\<close>
theorem blocked_get_no_mail:
  assumes send: "Send sv at new_id projID createdBy apiKeyID rq w = (Inr (e, blocked), w')" and own: "\<not> rq_system rq"
  shows "emails_of w' = emails_of w @ [put_row e] \<and>
    blocked = filter (barred sv (fst w) projID (rq_unsubscribe_list_id rq)) (rq_to rq) \<and>
    (if \<forall>r \<in> set (rq_to rq). barred sv (fst w) projID (rq_unsubscribe_list_id rq) r
     then e_status e = StatusSuppressed \<and> (\<forall>now. \<not> claimable now e)
     else e_recipients e = filter (\<lambda>r. \<not> barred sv (fst w) projID (rq_unsubscribe_list_id rq) r) (rq_to rq) \<and>
       e_status e \<in> {StatusQueued, StatusScheduled})"
proof -
  obtain allowed where e: "emails_of w' = emails_of w @ [put_row e]" "made sv at new_id projID (ac_projects (fst w)) rq allowed e"
    and split: "allowed = filter (\<lambda>r. \<not> barred sv (fst w) projID (rq_unsubscribe_list_id rq) r) (rq_to rq)"
      "blocked = filter (barred sv (fst w) projID (rq_unsubscribe_list_id rq)) (rq_to rq)"
    using Send_rows [OF send] own by auto
  let ?all = "\<forall>r \<in> set (rq_to rq). barred sv (fst w) projID (rq_unsubscribe_list_id rq) r"
  have empty: "allowed = [] \<longleftrightarrow> ?all"
    unfolding split by (simp add: filter_empty_conv)
  note parts = made_parts [OF e(2)]
  show ?thesis
  proof (cases ?all)
    case True
    with parts empty have "e_status e = StatusSuppressed \<and> (\<forall>now. \<not> claimable now e)" by (simp add: claimable_def)
    then show ?thesis unfolding if_P [OF True] using e(1) split(2) by blast
  next
    case False
    with parts empty have "e_recipients e = allowed \<and> e_status e \<in> {StatusQueued, StatusScheduled}" by argo
    then show ?thesis unfolding if_not_P [OF False] using e(1) split by blast
  qed
qed

section \<open>A sample project\<close>

definition plain_service :: service where
  "plain_service = \<lparr>sv_max_recipients = 10, sv_max_attachment = 100, sv_max_total = 100, sv_max_attempts = 3, sv_blob = False,
     sv_tracking = None, sv_settings = None, sv_parse = (\<lambda>a. if CHR ''@'' \<in> set a then Some a else None),
     sv_print = (\<lambda>n a. a), sv_url = (\<lambda>_. None), sv_media = (\<lambda>_. True), sv_uuid = (\<lambda>_. None), sv_show = (\<lambda>_. ''n'')\<rparr>"

definition project_sample :: project_conf where
  "project_sample = \<lparr>pc_id = ''p'', pc_name = ''P'', pc_plan_id = [], pc_strict_senders = False, pc_track_opens = False,
     pc_track_clicks = False, pc_default_headers = [(''X-Team'', ''a''), (''X-Area'', ''b'')]\<rparr>"

definition accept_sample :: accept_db where
  "accept_sample = \<lparr>ac_proc = proc_db_sample,
     ac_db = \<lparr>db_emails = [], db_assignments = [], db_volume = [], db_keys = [], db_faults = []\<rparr>,
     ac_projects = [project_sample], ac_plans = [\<lparr>pl_id = ''f'', pl_name = ''Free'', pl_is_default = True, pl_hourly = 2, pl_daily = 0\<rparr>],
     ac_links = [], ac_blobs = [], ac_captures = [], ac_events = [], ac_withdrawn = []\<rparr>"

definition request_sample :: "string list \<Rightarrow> send_request" where
  "request_sample to =
     (system_request ''a@example.com'' to ''Hello'' [] ''text'' [(''X-area'', ''c'')])\<lparr>rq_system := False, rq_cc := ''d@x''\<rparr>"

abbreviation instants_sample :: instants where
  "instants_sample \<equiv> \<lparr>at_shape = 1, at_route = 1, at_quota = 1, at_row = 2\<rparr>"

abbreviation dry_sample where
  "dry_sample to \<equiv> DryRun plain_service instants_sample ''p'' (request_sample to) (accept_sample, [])"

abbreviation send_sample where
  "send_sample to \<equiv> Send plain_service instants_sample ''m'' ''p'' [] [] (request_sample to) (accept_sample, [])"

lemma sample_checks:
  "fst (dry_sample [''c@x'', ''A@x'']) = Inr [''A@x''] \<and> fst (dry_sample [''c'']) = Inl (Rejected ''recipient address \"c\" is invalid'')"
  by code_simp
lemma sample_barred: "\<not> barred plain_service accept_sample ''p'' [] ''c@x''" "barred plain_service accept_sample ''p'' [] ''A@x''"
  by code_simp+

lemma sample_sends:
  "map (\<lambda>e. (e_id e, e_recipients e, e_status e)) (emails_of (snd (send_sample [''c@x'', ''A@x'']))) = [(''m'', [''c@x''], StatusQueued)] \<and> \<not> isl (fst (send_sample [''c@x'', ''A@x'']))"
  by code_simp

lemma sample_sent:
  obtains e blocked w where "send_sample [''c@x'', ''A@x''] = (Inr (e, blocked), w)"
proof -
  obtain r w where r: "send_sample [''c@x'', ''A@x''] = (r, w)" by (rule prod.exhaust)
  have "\<not> isl r" using sample_sends unfolding r by (simp only: fst_conv simp_thms)
  then obtain x where x: "r = Inr x" by (cases r) simp_all
  show thesis by (rule that [of "fst x" "snd x" w]) (simp only: r x prod.collapse)
qed

theorem dry_run_foretells_send_witness:
  "\<exists>e. fst (send_sample [''c@x'', ''A@x'']) = Inr (e, [''A@x'']) \<and>
     fst (send_sample [''c'']) = Inl (Rejected ''recipient address \"c\" is invalid'')"
proof -
  have clock: "at_quota instants_sample \<le> at_row instants_sample" by simp
  have counters: "\<forall>v \<in> set (db_volume (ac_db accept_sample)). 0 \<le> v_accepted v"
    and free: "\<forall>e \<in> set (db_emails (ac_db accept_sample)). e_id e \<noteq> message_id (request_sample to) ''m''" for to
    by (simp_all add: accept_sample_def)
  obtain w1 w2 where d: "dry_sample [''c@x'', ''A@x''] = (Inr [''A@x''], w1)"
      "dry_sample [''c''] = (Inl (Rejected ''recipient address \"c\" is invalid''), w2)"
    using sample_checks by (metis prod.collapse)
  obtain r1 v1 where s1: "send_sample [''c@x'', ''A@x''] = (r1, v1)" by (rule prod.exhaust)
  obtain r2 v2 where s2: "send_sample [''c''] = (r2, v2)" by (rule prod.exhaust)
  from dry_run_foretells_send [OF d(1) s1 clock counters free] dry_run_foretells_send [OF d(2) s2 clock counters free]
  show ?thesis unfolding s1 s2 by auto
qed

theorem blocked_get_no_mail_witness:
  "\<exists>e. emails_of (snd (send_sample [''c@x'', ''A@x''])) = [put_row e] \<and> fst (send_sample [''c@x'', ''A@x'']) = Inr (e, [''A@x''])"
proof -
  obtain e blocked w where s: "send_sample [''c@x'', ''A@x''] = (Inr (e, blocked), w)"
    by (rule sample_sent)
  have own: "\<not> rq_system (request_sample [''c@x'', ''A@x''])" by (simp add: request_sample_def)
  have "blocked = [''A@x'']"
    using blocked_get_no_mail [OF s own] sample_barred by (simp add: request_sample_def system_request_def)
  with blocked_get_no_mail [OF s own] s show ?thesis by (simp add: emails_of_def accept_sample_def)
qed

end
