(* ===== verification/Rows.thy ===== *)
theory Rows
  imports Accepted
begin

text \<open>
  The rows of the email table through their life: what a send puts in them is well formed, the message
  a worker makes of one says what was asked, and no send, retry, cancellation or statement of the
  queue spoils a row, whichever statements fail.
\<close>

section \<open>Well-formed rows\<close>

lemma shape_facts:
  assumes "shape_fault sv now rq = None"
  shows "\<not> has_line_break (rq_from rq) \<and> \<not> has_line_break (rq_header_to rq) \<and> \<not> has_line_break (rq_cc rq) \<and>
    \<not> has_line_break (rq_reply_to rq) \<and> rq_to rq \<noteq> [] \<and> headers_ok (rq_headers rq) \<and>
    (\<forall>r \<in> set (rq_to rq). parses sv r \<and> \<not> has_line_break r)"
proof -
  have to: "recipients_fault sv rs = None \<Longrightarrow> \<forall>r \<in> set rs. parses sv r \<and> \<not> has_line_break r" for rs
    by (induction rs) (auto simp: address_fault_def split: option.splits if_splits)
  have if_none: "(if b then Some x else None) = None \<longleftrightarrow> \<not> b" for b :: bool and x :: error by simp
  note all = assms [unfolded shape_fault_def first_fault_None list.set insert_iff ball_simps if_none option.map_disc_iff]
  have addr: "address_fault sv what a = None \<Longrightarrow> \<not> has_line_break a" for what a
    by (auto simp: address_fault_def split: if_splits)
  have reply: "(if rq_reply_to rq \<noteq> [] then address_fault sv ''reply_to'' (rq_reply_to rq) else None) = None"
    using all by blast
  have "\<not> has_line_break (rq_reply_to rq)"
  proof (cases "rq_reply_to rq = []")
    case True
    then show ?thesis by (simp add: has_line_break_def)
  next
    case False
    with reply have "address_fault sv ''reply_to'' (rq_reply_to rq) = None" by simp
    then show ?thesis by (rule addr)
  qed
  with all show ?thesis using ValidateHeaders_ok [of "rq_headers rq"] to addr by blast
qed

definition entry_ok :: "string \<Rightarrow> string \<Rightarrow> bool" where
  "entry_ok k v =
     (header_ok (k, v) \<or> k \<in> {HeaderDisplayTo, HeaderDisplayCc, HeaderReplyTo} \<and> \<not> has_line_break v)"

definition status_ok :: "email \<Rightarrow> bool" where
  "status_ok e =
     (case e_status e of
        StatusQueued \<Rightarrow> e_next_attempt_at e \<noteq> None \<and> e_claimed_at e = None
      | StatusScheduled \<Rightarrow> e_next_attempt_at e \<noteq> None \<and> e_claimed_at e = None
      | StatusProcessing \<Rightarrow> e_claimed_at e \<noteq> None
      | StatusPending \<Rightarrow> True
      | _ \<Rightarrow> e_next_attempt_at e = None \<and> e_claimed_at e = None)"

definition addressed_ok :: "service \<Rightarrow> string list \<Rightarrow> bool" where
  "addressed_ok sv rs = (rs \<noteq> [] \<and> (\<forall>r \<in> set rs. parses sv r \<and> \<not> has_line_break r))"

definition row_ok :: "service \<Rightarrow> email \<Rightarrow> bool" where
  "row_ok sv e =
     (addressed_ok sv (e_recipients e) \<and> \<not> has_line_break (e_sender e) \<and>
      (\<forall>k v. e_headers e k = Some v \<longrightarrow> entry_ok k v) \<and> status_ok e)"

lemma set_trim_space: "set (trim_space s) \<subseteq> set s"
proof -
  have drop: "set (dropWhile is_space t) \<subseteq> set t" for t by (auto dest: set_dropWhileD)
  have "set (dropWhile is_space (rev (dropWhile is_space s))) \<subseteq> set s"
    using drop [of s] drop [of "rev (dropWhile is_space s)"] by simp
  then show ?thesis by (simp add: trim_space_def)
qed

lemma no_break_subset: "\<not> has_line_break s \<Longrightarrow> set t \<subseteq> set s \<Longrightarrow> \<not> has_line_break t"
  unfolding no_break_iff by blast

lemma registered_cases:
  "withRegisteredName sv reg from = from \<or>
   (\<exists>n. withRegisteredName sv reg from = FormatAddress (sv_print sv) n (trim_space from))"
  unfolding withRegisteredName_def Let_def by (cases reg) (simp, simp split: prod.split, blast)

lemma sender_no_break:
  assumes "\<not> has_line_break from" and print: "\<And>n a. \<not> has_line_break a \<Longrightarrow> \<not> has_line_break (sv_print sv n a)"
  shows "\<not> has_line_break (withRegisteredName sv reg from)"
  using registered_cases [of sv reg "from"]
proof
  assume "\<exists>n. withRegisteredName sv reg from = FormatAddress (sv_print sv) n (trim_space from)"
  moreover have "\<not> has_line_break (trim_space (trim_space from))"
    using assms(1) set_trim_space by (meson no_break_subset)
  ultimately show ?thesis using print by (auto simp: FormatAddress_def Let_def split: if_splits)
qed (use assms(1) in simp)

lemma display_entry:
  assumes "withDisplayRecipients rq k = Some v"
  shows "map_of (rq_headers rq) k = Some v \<or> (k = HeaderDisplayTo \<and> v = rq_header_to rq) \<or>
    (k = HeaderDisplayCc \<and> v = rq_cc rq) \<or> (k = HeaderReplyTo \<and> v = rq_reply_to rq)"
  using assms by (auto simp: withDisplayRecipients_def Let_def split: if_splits)

lemma made_ok:
  assumes "made sv at new_id projID ps rq allowed e" "shape_fault sv (at_shape at) rq = None" "set allowed \<subseteq> set (rq_to rq)"
    and print: "\<And>n a. \<not> has_line_break a \<Longrightarrow> \<not> has_line_break (sv_print sv n a)"
    and defaults: "headers_ok (default_headers ps projID)"
  shows "row_ok sv (put_row e)"
proof -
  obtain c k reg rq' e1 as where rq': "as_asked ps projID rq rq'"
    and e1: "kin (email_of sv (at_row at) new_id projID c k reg allowed rq') e1" and e: "e = final_row (at_row at) rq' allowed e1 as"
    using assms(1) unfolding made_def by blast
  note shape = shape_facts [OF assms(2)]
  have sender: "\<not> has_line_break (e_sender e)"
    using e1 rq' shape sender_no_break [OF _ print] by (simp add: e kin_def as_asked_def)
  have hs: "headers_ok (rq_headers rq')"
    using rq' shape Merge_ok [OF defaults] by (simp add: as_asked_def)
  have "entry_ok k v" if "e_headers e k = Some v" for k v
  proof -
    have "withDisplayRecipients rq' k = Some v" using that e1 by (simp add: e kin_def)
    from display_entry [OF this] show ?thesis
    proof (elim disjE)
      assume "map_of (rq_headers rq') k = Some v"
      then have "(k, v) \<in> set (rq_headers rq')" by (rule map_of_SomeD)
      with hs show ?thesis by (auto simp: headers_ok_def list_all_iff entry_ok_def)
    qed (use shape rq' in \<open>auto simp: entry_ok_def as_asked_def\<close>)
  qed
  moreover have "addressed_ok sv (e_recipients e)" "status_ok e"
    using made_parts [OF assms(1)] shape assms(3)
    by (cases "allowed = []"; auto simp: addressed_ok_def status_ok_def split: status.splits)+
  moreover have "status_ok (put_row e) = status_ok e" by (simp add: status_ok_def put_row_def cong: status.case_cong)
  ultimately show ?thesis using sender by (simp add: row_ok_def put_row_def)
qed

section \<open>The message made of a row\<close>

lemma display_names_reserved:
  "Reserved HeaderDisplayTo" "Reserved HeaderDisplayCc" "Reserved HeaderReplyTo"
  "HeaderDisplayTo \<noteq> HeaderDisplayCc" "HeaderDisplayTo \<noteq> HeaderReplyTo" "HeaderDisplayCc \<noteq> HeaderReplyTo"
  by code_simp+

lemma headers_ok_lookup: "headers_ok hs \<Longrightarrow> map_of hs k = Some v \<Longrightarrow> \<not> Reserved k"
  by (auto dest!: map_of_SomeD simp: headers_ok_def list_all_iff header_ok_def)

lemma display_back:
  assumes "headers_ok (rq_headers rq)"
  shows "header_at (withDisplayRecipients rq) HeaderDisplayTo = rq_header_to rq"
    "header_at (withDisplayRecipients rq) HeaderDisplayCc = rq_cc rq"
    "header_at (withDisplayRecipients rq) HeaderReplyTo = rq_reply_to rq"
    "(withDisplayRecipients rq)(HeaderDisplayTo := None, HeaderDisplayCc := None, HeaderReplyTo := None) = map_of (rq_headers rq)"
proof -
  have "map_of (rq_headers rq) k = None" if "Reserved k" for k
    using headers_ok_lookup [OF assms] that by (cases "map_of (rq_headers rq) k") auto
  note none = this [OF display_names_reserved(1)] this [OF display_names_reserved(2)] this [OF display_names_reserved(3)]
  show "header_at (withDisplayRecipients rq) HeaderDisplayTo = rq_header_to rq"
    "header_at (withDisplayRecipients rq) HeaderDisplayCc = rq_cc rq"
    "header_at (withDisplayRecipients rq) HeaderReplyTo = rq_reply_to rq"
    "(withDisplayRecipients rq)(HeaderDisplayTo := None, HeaderDisplayCc := None, HeaderReplyTo := None) = map_of (rq_headers rq)"
    using none display_names_reserved(4-6)
    by (auto simp: withDisplayRecipients_def Let_def header_at_def fun_eq_iff split: option.splits)
qed

lemma newMessage_headers:
  assumes "headers_ok (rq_headers rq)" "e_headers e = withDisplayRecipients rq"
  shows "ms_header_to (newMessage p e as) = rq_header_to rq \<and> ms_cc (newMessage p e as) = rq_cc rq \<and>
    ms_reply_to (newMessage p e as) = rq_reply_to rq \<and> ms_headers (newMessage p e as) = map_of (rq_headers rq)"
proof (cases "rq_header_to rq \<noteq> [] \<or> rq_cc rq \<noteq> [] \<or> rq_reply_to rq \<noteq> []")
  case True
  with display_back [OF assms(1)] assms(2) show ?thesis by (simp add: newMessage_def Let_def)
next
  case False
  then have "withDisplayRecipients rq = map_of (rq_headers rq)" by (simp add: withDisplayRecipients_def Let_def)
  with False display_back [OF assms(1)] assms(2) show ?thesis by (simp add: newMessage_def Let_def)
qed

text \<open>
  C17: The message a worker builds says what the request said.  When a send is answered, the message made of
  the stored row names the recipients, Cc and Reply-To lines the request gave; its other headers are the
  request's with the project's under them, the caller's one winning; and none has a name that belongs to
  the builder.
\<close>
theorem message_carries_request:
  assumes send: "Send sv at new_id projID createdBy apiKeyID rq w = (Inr (e, blocked), w')"
    and defaults: "headers_ok (default_headers (ac_projects (fst w)) projID)"
  shows "ms_header_to (newMessage p (put_row e) as) = rq_header_to rq \<and> ms_cc (newMessage p (put_row e) as) = rq_cc rq \<and>
    ms_reply_to (newMessage p (put_row e) as) = rq_reply_to rq \<and>
    (\<forall>h. ms_headers (newMessage p (put_row e) as) h =
       (case map_of (rq_headers rq) h of
          Some v \<Rightarrow> Some v
        | None \<Rightarrow> if rq_system rq \<or> hasFold (rq_headers rq) h then None
                  else map_of (default_headers (ac_projects (fst w)) projID) h)) \<and>
    (\<forall>h v. ms_headers (newMessage p (put_row e) as) h = Some v \<longrightarrow> \<not> Reserved h)"
proof -
  obtain allowed where m: "made sv at new_id projID (ac_projects (fst w)) rq allowed e" and shape: "shape_fault sv (at_shape at) rq = None"
    using Send_rows [OF send] by auto
  obtain c k reg rq' e1 as' where rq': "as_asked (ac_projects (fst w)) projID rq rq'"
    and e1: "kin (email_of sv (at_row at) new_id projID c k reg allowed rq') e1" and e: "e = final_row (at_row at) rq' allowed e1 as'"
    using m unfolding made_def by blast
  have ok: "headers_ok (rq_headers rq')" using rq' shape_facts [OF shape] Merge_ok [OF defaults] by (simp add: as_asked_def)
  have hs: "e_headers (put_row e) = withDisplayRecipients rq'" using e1 by (simp add: e kin_def put_row_def)
  note msg = newMessage_headers [OF ok hs, of p as]
  have "map_of (rq_headers rq') h = (case map_of (rq_headers rq) h of Some v \<Rightarrow> Some v
      | None \<Rightarrow> if rq_system rq \<or> hasFold (rq_headers rq) h then None else map_of (default_headers (ac_projects (fst w)) projID) h)" for h
    using rq' by (simp add: as_asked_def Merge_lookup split: option.split)
  with msg rq' headers_ok_lookup [OF ok] show ?thesis by (simp add: as_asked_def)
qed

section \<open>Rows through the queue\<close>

text \<open>What the statements of the queue make of a row.\<close>

lemma row_ok_changes:
  assumes "row_ok sv e"
  shows "row_ok sv (claim_row now e)" "row_ok sv (requeue_row next msg e)" "row_ok sv (recover_row now e)"
    "st \<in> {StatusSent, StatusFailed, StatusSuppressed} \<Longrightarrow> row_ok sv (finalize_row st msg via sent e)"
    "row_ok sv (cancel_row e)" "addressed_ok sv rs \<Longrightarrow> row_ok sv (reset_row now rs e)"
  using assms by (auto simp: row_ok_def status_ok_def claim_row_def requeue_row_def recover_row_def finalize_row_def
      cancel_row_def reset_row_def)

lemma rows_ok_update:
  assumes "\<forall>e \<in> set es. row_ok sv e" "\<And>e. e \<in> set es \<Longrightarrow> p e \<Longrightarrow> row_ok sv (f e)"
  shows "\<forall>e \<in> set (sql_update p f es). row_ok sv e"
  using assms by (auto simp: sql_update_def)

section \<open>Retrying and cancelling\<close>

lemma lookup_result:
  assumes "lookup_row window p d = (Inr (Some e), d')"
  shows "e \<in> set (db_emails d) \<and> p e"
proof -
  have hit: "x = find q (db_emails d2) \<Longrightarrow> x = Some e \<Longrightarrow> db_emails d2 = db_emails d \<Longrightarrow> e \<in> set (db_emails d) \<and> q e" for x q d2
    by (metis find_Some_iff nth_mem)
  have read: "fst (Query q d1) = Inr x \<Longrightarrow> x = q (snd (Query q d1)) \<and> db_emails (snd (Query q d1)) = db_emails d1" for q :: "db \<Rightarrow> email option" and d1 x
    using Query_cases [of q d1] by (metis Inl_Inr_False Inr_inject emails_pop prod.collapse)
  show ?thesis
  proof (cases window)
    case None
    with assms have "Query (\<lambda>d. find p (db_emails d)) d = (Inr (Some e), d')" by (simp add: lookup_row_def)
    with read [of "\<lambda>d. find p (db_emails d)" d "Some e"] hit show ?thesis by (metis fst_conv snd_conv)
  next
    case (Some x)
    obtain a b where x: "x = (a, b)" by (rule prod.exhaust)
    let ?q = "\<lambda>d. find (\<lambda>e. p e \<and> a \<le> e_created_at e \<and> e_created_at e < b) (db_emails d)"
    obtain r1 d1 where q: "Query ?q d = (r1, d1)" by (rule prod.exhaust)
    show ?thesis
    proof (cases "r1 = Inr None")
      case True
      then have second: "Query (\<lambda>d. find p (db_emails d)) d1 = (Inr (Some e), d')" using assms Some x q by (simp add: lookup_row_def)
      have "db_emails d1 = db_emails d" using read [of ?q d None] q True by simp
      with read [of "\<lambda>d. find p (db_emails d)" d1 "Some e"] second hit show ?thesis by (metis fst_conv snd_conv)
    next
      case False
      with assms Some x q have "r1 = Inr (Some e)" by (auto simp: lookup_row_def split: sum.splits option.splits)
      with read [of ?q d "Some e"] q hit show ?thesis by (metis (mono_tags, lifting) fst_conv snd_conv)
    qed
  qed
qed

lemma Get_row:
  assumes "in_store (Get parse projID i) w = (Inr (Some e), w')"
  shows "e \<in> set (emails_of w) \<and> e_project_id e = projID \<and> e_id e = i \<and> \<not> e_system e"
proof -
  obtain d where "Get parse projID i ((ac_db (fst w))\<lparr>db_faults := snd w\<rparr>) = (Inr (Some e), d)"
    using assms by (auto simp: in_store_def split: prod.splits)
  from lookup_result [OF this [unfolded Get_def]] show ?thesis by (simp add: emails_of_def)
qed

text \<open>A store statement that updates rows and says whether there were any.\<close>

lemma store_update:
  assumes "in_store (\<lambda>d. rows_affected (Exec (update_emails p f) d)) w = (r, w')"
  shows "ac_projects (fst w') = ac_projects (fst w) \<and> ac_proc (fst w') = ac_proc (fst w) \<and>
    ((r \<noteq> Inr True \<and> emails_of w' = emails_of w) \<or> (r \<noteq> Inr False \<and> emails_of w' = sql_update p f (emails_of w)))"
proof -
  let ?d = "(ac_db (fst w))\<lparr>db_faults := snd w\<rparr>"
  obtain r0 d where x: "Exec (update_emails p f) ?d = (r0, d)" by (rule prod.exhaust)
  have w': "fst w' = (fst w)\<lparr>ac_db := d\<lparr>db_faults := db_faults (ac_db (fst w))\<rparr>\<rparr>"
    and r: "r = (case r0 of Inl e \<Rightarrow> Inl e | Inr n \<Rightarrow> Inr (0 < n))"
    using assms x by (auto simp: in_store_def rows_affected_def split: sum.splits)
  from x show ?thesis
  proof (cases rule: Exec_cases)
    case (ran n)
    then show ?thesis
      using w' r sql_count_zero_update [of p "emails_of w" f]
      by (cases "n = 0") (auto simp: update_emails_def emails_of_def)
  qed (use w' r in \<open>auto simp: update_emails_def emails_of_def\<close>)
qed

lemma Retry_rows:
  assumes "RetrySend sv now reset_at projID i w = (r, w')"
  shows "ac_projects (fst w') = ac_projects (fst w) \<and>
   ((emails_of w' = emails_of w \<and> (isl r \<or> r = Inr None)) \<or>
    (\<exists>e kept. e \<in> set (emails_of w) \<and> e_project_id e = projID \<and> e_id e = i \<and> e_status e = StatusFailed \<and>
       \<not> contentRetired sv now e \<and> kept \<noteq> [] \<and>
       kept = filter (\<lambda>r. \<not> barred sv (fst w) projID (e_unsubscribe_list_id e) r) (e_recipients e) \<and>
       emails_of w' = sql_update (retryable projID i) (reset_row reset_at kept) (emails_of w)))"
  using assms unfolding RetrySend_def
proof (cases rule: asking_cases)
  case (failed e)
  then show ?thesis using still_apply [OF still_Get] by (auto simp: emails_of_def)
next
  case (ran x w1)
  have w1: "fst w1 = fst w" using still_apply [OF still_Get ran(1)] .
  show ?thesis
  proof (cases "x = None \<or> (\<exists>e. x = Some e \<and> (e_status e \<noteq> StatusFailed \<or> contentRetired sv now e))")
    case True
    with ran(2) w1 show ?thesis by (auto simp: accepted_def refused_def emails_of_def split: if_splits)
  next
    case False
    then obtain e where x: "x = Some e" and e: "e_status e = StatusFailed" "\<not> contentRetired sv now e" by auto
    note row = Get_row [OF ran(1) [unfolded x]]
    let ?filter = "in_proc (in_sup (FilterSuppressedForList (sv_parse sv) projID (e_unsubscribe_list_id e) (e_recipients e)))"
    have "passing (asking (?filter w1) (\<lambda>(kept, _) w. if kept = [] then refused (Conflicting ''every recipient of this email is now suppressed'') w
             else accepted kept w)) (\<lambda>recipients w.
           asking (in_store (Reset projID i recipients reset_at) w) (\<lambda>ok w.
             if \<not> ok then refused (Rejected ''email is no longer in a retryable state'') w
             else asking (in_store (Get (sv_uuid sv) projID i) w) accepted)) = (r, w')"
      using ran(2) x e row by simp
    then show ?thesis
    proof (cases rule: passing_cases)
      case (failed err)
      from failed(1) show ?thesis
      proof (cases rule: asking_cases)
        case (failed m)
        then show ?thesis using still_apply [OF still_query [OF query_parts(3) [OF filter_query]]] w1 \<open>r = Inl err\<close>
          by (auto simp: emails_of_def)
      next
        case (ran y w2)
        obtain kept blocked where y: "y = (kept, blocked)" by (rule prod.exhaust)
        from filter_here [OF ran(1) [unfolded y]] ran(2) y w1 \<open>r = Inl err\<close> show ?thesis
          by (auto simp: refused_def accepted_def emails_of_def split: if_splits)
      qed
    next
      case (ran kept w2)
      from ran(1) have kept: "kept = filter (\<lambda>r. \<not> barred sv (fst w) projID (e_unsubscribe_list_id e) r) (e_recipients e)"
        and some: "kept \<noteq> []" and w2: "fst w2 = fst w"
      proof (atomize (full), cases rule: asking_cases)
        case (ran y w3)
        obtain k blocked where y: "y = (k, blocked)" by (rule prod.exhaust)
        from filter_here [OF ran(1) [unfolded y]] ran(2) y w1
        show "kept = filter (\<lambda>r. \<not> barred sv (fst w) projID (e_unsubscribe_list_id e) r) (e_recipients e) \<and> kept \<noteq> [] \<and> fst w2 = fst w"
          by (auto simp: refused_def accepted_def split: if_splits)
      qed simp
      from ran(2) show ?thesis
      proof (cases rule: asking_cases)
        case (failed m)
        from store_update [OF failed(1) [unfolded Reset_def]] failed(2) w2 row e kept some show ?thesis
          by (auto simp: emails_of_def)
      next
        case (ran ok w3)
        note upd = store_update [OF ran(1) [unfolded Reset_def]]
        have w': "fst w' = fst w3"
        proof (cases ok)
          case True
          with ran(2) have "asking (in_store (Get (sv_uuid sv) projID i) w3) accepted = (r, w')" by simp
          then show ?thesis
            by (cases rule: asking_cases) (use still_apply [OF still_Get] in \<open>auto simp: accepted_def\<close>)
        qed (use ran(2) in \<open>simp add: refused_def\<close>)
        show ?thesis
        proof (cases ok)
          case True
          with upd have "emails_of w' = sql_update (retryable projID i) (reset_row reset_at kept) (emails_of w)"
            using w' w2 by (simp add: emails_of_def)
          then show ?thesis using row e kept some upd w' w2 by auto
        next
          case False
          with ran(2) have "isl r" by (auto simp: refused_def)
          with upd False w' w2 show ?thesis by (simp add: emails_of_def)
        qed
      qed
    qed
  qed
qed

lemma CancelSend_rows:
  assumes "CancelSend sv projID i w = (r, w')"
  shows "ac_projects (fst w') = ac_projects (fst w) \<and>
   ((emails_of w' = emails_of w \<and> (isl r \<or> r = Inr None)) \<or>
    (\<exists>created. emails_of w' = sql_update (cancellable projID i created) cancel_row (emails_of w)))"
  using assms unfolding CancelSend_def
proof (cases rule: asking_cases)
  case (failed e)
  then show ?thesis using still_apply [OF still_Get] by (auto simp: emails_of_def)
next
  case (ran x w1)
  have w1: "fst w1 = fst w" using still_apply [OF still_Get ran(1)] .
  show ?thesis
  proof (cases "x = None \<or> (\<exists>e. x = Some e \<and> e_status e \<notin> {StatusPending, StatusQueued, StatusScheduled})")
    case True
    with ran(2) w1 show ?thesis by (auto simp: accepted_def refused_def emails_of_def)
  next
    case False
    then obtain e where x: "x = Some e" and e: "e_status e \<in> {StatusPending, StatusQueued, StatusScheduled}" by auto
    let ?last = "\<lambda>e w. case e of None \<Rightarrow> accepted None w
               | Some e \<Rightarrow> (case Emit EventEmailCancelled e w of (s, fs) \<Rightarrow>
                      accepted (Some e) (s\<lparr>ac_withdrawn := ac_withdrawn s @ [(projID, i)]\<rparr>, fs))"
    have "asking (in_store (EmailStore.Cancel projID i (e_created_at e)) w1) (\<lambda>ok w.
        if \<not> ok then refused (Rejected ''email was claimed for delivery before it could be cancelled'') w
        else asking (in_store (Get (sv_uuid sv) projID i) w) ?last) = (r, w')"
      using ran(2) unfolding x by (simp only: option.case e simp_thms if_False)
    then show ?thesis
    proof (cases rule: asking_cases)
      case (failed m)
      from store_update [OF failed(1) [unfolded Cancel_def]] failed(2) w1 show ?thesis by (auto simp: emails_of_def)
    next
      case (ran ok w2)
      note upd = store_update [OF ran(1) [unfolded Cancel_def]]
      show ?thesis
      proof (cases ok)
        case False
        with ran(2) upd w1 show ?thesis by (auto simp: refused_def emails_of_def)
      next
        case True
        with ran(2) have "asking (in_store (Get (sv_uuid sv) projID i) w2) ?last = (r, w')" by simp
        then have "emails_of w' = emails_of w2 \<and> ac_projects (fst w') = ac_projects (fst w2)"
          by (cases rule: asking_cases)
            (auto simp: accepted_def Emit_def emails_of_def dest: still_apply [OF still_Get] split: option.splits)
        with upd True w1 show ?thesis by (auto simp: emails_of_def)
      qed
    qed
  qed
qed

section \<open>Every row is well formed\<close>

text \<open>The operations on messages, with any faults: those of the accept path and the statements of the queue.\<close>

inductive mail_step :: "service \<Rightarrow> accept_db \<Rightarrow> accept_db \<Rightarrow> bool" for sv where
  sent: "Send sv at new_id projID c k rq (s, fs) = (r, (s', fs')) \<Longrightarrow> mail_step sv s s'"
| retried: "RetrySend sv now t projID i (s, fs) = (r, (s', fs')) \<Longrightarrow> mail_step sv s s'"
| cancelled: "CancelSend sv projID i (s, fs) = (r, (s', fs')) \<Longrightarrow> mail_step sv s s'"
| claimed: "ClaimDue now limit perProject locked ((ac_db s)\<lparr>db_faults := fs\<rparr>) = (r, d) \<Longrightarrow> mail_step sv s (s\<lparr>ac_db := d\<rparr>)"
| requeued: "Requeue i created claimed t msg ((ac_db s)\<lparr>db_faults := fs\<rparr>) = (r, d) \<Longrightarrow> mail_step sv s (s\<lparr>ac_db := d\<rparr>)"
| taken_back: "RequeueHanded i created handed t msg ((ac_db s)\<lparr>db_faults := fs\<rparr>) = (r, d) \<Longrightarrow> mail_step sv s (s\<lparr>ac_db := d\<rparr>)"
| recovered: "RecoverStuck t now ((ac_db s)\<lparr>db_faults := fs\<rparr>) = (r, d) \<Longrightarrow> mail_step sv s (s\<lparr>ac_db := d\<rparr>)"
| finalized: "Finalize i created claimed st msg via sent ((ac_db s)\<lparr>db_faults := fs\<rparr>) = (r, d) \<Longrightarrow>
    st \<in> {StatusSent, StatusFailed, StatusSuppressed} \<Longrightarrow> mail_step sv s (s\<lparr>ac_db := d\<rparr>)"

definition typed :: "service \<Rightarrow> accept_db \<Rightarrow> bool" where
  "typed sv s = ((\<forall>e \<in> set (db_emails (ac_db s)). row_ok sv e) \<and>
     (\<forall>p \<in> set (ac_projects s). headers_ok (pc_default_headers p)))"

lemma typed_update:
  assumes "typed sv s" "Exec (update_emails p f) ((ac_db s)\<lparr>db_faults := fs\<rparr>) = (r, d)" "\<And>e. row_ok sv e \<Longrightarrow> row_ok sv (f e)"
  shows "typed sv (s\<lparr>ac_db := d\<rparr>)"
  using exec_update_emails [OF assms(2)] assms(1,3) rows_ok_update [of "db_emails (ac_db s)" sv p f]
  by (auto simp: typed_def)

lemma typed_claim:
  assumes "typed sv s" "ClaimDue now limit perProject locked ((ac_db s)\<lparr>db_faults := fs\<rparr>) = (r, d)"
  shows "typed sv (s\<lparr>ac_db := d\<rparr>)"
proof -
  obtain fair where "Exec (claim_stmt now limit locked fair) ((ac_db s)\<lparr>db_faults := fs\<rparr>) = (r, d)"
    using assms(2) by (auto simp: ClaimDue_def split: if_splits)
  then have "db_emails d = db_emails (ac_db s) \<or> (\<exists>p. db_emails d = sql_update p (claim_row now) (db_emails (ac_db s)))"
    by (cases rule: Exec_cases) (auto simp: claim_stmt_def Let_def)
  then show ?thesis
    using assms(1) rows_ok_update [of "db_emails (ac_db s)" sv _ "claim_row now"] row_ok_changes(1)
    by (auto simp: typed_def)
qed

lemma still_keeps: "(\<And>s0. keeps (\<lambda>s. s = s0) m) \<Longrightarrow> keeps I m"
  unfolding keeps_def by metis

lemma keeps_in_store [keeping]: "keeps (\<lambda>s. ac_projects s = ps) (in_store m)"
  by (simp add: keeps_def in_store_def split: prod.split)

lemma keeps_put_email [keeping]: "keeps (\<lambda>s. ac_projects s = ps) (put_email sv e vol)"
  unfolding put_email_def [abs_def] by (intro keeping)

lemma keeps_offload_each: "keeps (\<lambda>s. ac_projects s = ps) (offload_each sv i k as)"
proof (induction as arbitrary: k)
  case Nil
  show ?case by (simp add: keeps_def accepted_def)
next
  case (Cons a as)
  have put: "keeps (\<lambda>s. ac_projects s = ps) (BlobPut key raw)" for key raw
    unfolding BlobPut_def by (rule keeps_Run) simp
  show ?case
    unfolding offload_each.simps [abs_def] by (intro keeping put Cons.IH)
qed

lemma keeps_offload [keeping]: "keeps (\<lambda>s. ac_projects s = ps) (offloadAttachments sv e)"
  unfolding offloadAttachments_def [abs_def] by (intro keeping keeps_offload_each)

lemma keeps_tracking [keeping]: "keeps (\<lambda>s. ac_projects s = ps) (applyTracking sv projID e off)"
  unfolding keeps_def using applyTracking_kin by (metis prod.collapse)

lemma keeps_Emit [keeping]: "keeps (\<lambda>s. ac_projects s = ps) (\<lambda>w. (x, Emit name e w))"
  by (simp add: keeps_def Emit_def)

lemma keeps_store_email [keeping]: "keeps (\<lambda>s. ac_projects s = ps) (store_email sv now rq allowed blocked vol e)"
proof -
  have told: "keeps (\<lambda>s. ac_projects s = ps) (\<lambda>w. accepted x (Emit name e w))" for x :: "email \<times> string list" and name e
    by (simp add: keeps_def accepted_def Emit_def)
  have told_if: "keeps (\<lambda>s. ac_projects s = ps) (\<lambda>w. accepted x (if b then w else Emit name e w))" for x :: "email \<times> string list" and name e b
    by (simp add: keeps_def accepted_def Emit_def)
  show ?thesis
    unfolding store_email_def [abs_def] Let_def by (intro keeping told told_if)
qed

lemmas still_parts = still_keeps [OF still_Validate] still_keeps [OF still_admit] still_keeps [OF still_registered]
  still_keeps [OF still_query [OF mintsLinks_query]] still_keeps [OF still_query [OF defaults_query]]

lemma keeps_Send: "keeps (\<lambda>s. ac_projects s = ps) (Send sv at new_id projID c k rq)"
  unfolding Send_finish [abs_def] finish_send_def [abs_def] Let_def
  by (intro keeping still_parts)

lemma default_headers_ok: "typed sv s \<Longrightarrow> headers_ok (default_headers (ac_projects s) projID)"
  using find_Some_iff [of "\<lambda>p. pc_id p = projID" "ac_projects s"]
  by (auto simp: typed_def default_headers_def headers_ok_def split: option.splits)

lemma mail_step_typed:
  assumes "mail_step sv s s'" "typed sv s" and print: "\<And>n a. \<not> has_line_break a \<Longrightarrow> \<not> has_line_break (sv_print sv n a)"
  shows "typed sv s'"
  using assms(1,2)
proof cases
  case (sent at new_id projID c k rq fs r fs')
  have same: "ac_projects s' = ac_projects s"
    using keeps_apply [OF keeps_Send [of "ac_projects s" sv at new_id projID c k rq], of "(s, fs)"] sent by simp
  from Send_rows [OF sent] show ?thesis
  proof
    assume "isl r \<and> emails_of (s', fs') = emails_of (s, fs)"
    then show ?thesis using assms(2) same by (simp add: typed_def emails_of_def)
  next
    assume "\<exists>e allowed blocked. emails_of (s', fs') = emails_of (s, fs) @ [put_row e] \<and>
       made sv at new_id projID (ac_projects (fst (s, fs))) rq allowed e \<and> (isl r \<or> r = Inr (e, blocked)) \<and>
       shape_fault sv (at_shape at) rq = None \<and>
       (if rq_system rq then allowed = rq_to rq \<and> blocked = []
        else allowed = filter (\<lambda>r. \<not> barred sv (fst (s, fs)) projID (rq_unsubscribe_list_id rq) r) (rq_to rq) \<and>
          blocked = filter (barred sv (fst (s, fs)) projID (rq_unsubscribe_list_id rq)) (rq_to rq))"
    then obtain e allowed where e: "emails_of (s', fs') = emails_of (s, fs) @ [put_row e]"
      "made sv at new_id projID (ac_projects s) rq allowed e" "shape_fault sv (at_shape at) rq = None" "set allowed \<subseteq> set (rq_to rq)"
      by (auto split: if_splits)
    from made_ok [OF e(2,3,4) print default_headers_ok [OF assms(2)]]
    show ?thesis using assms(2) same e(1) by (simp add: typed_def emails_of_def)
  qed
next
  case (retried now t projID i fs r fs')
  from Retry_rows [OF retried] have same: "ac_projects s' = ac_projects s" by simp
  from Retry_rows [OF retried] consider "db_emails (ac_db s') = db_emails (ac_db s)"
    | e kept p where "e \<in> set (db_emails (ac_db s))" "kept \<noteq> []" "kept = filter p (e_recipients e)"
        "db_emails (ac_db s') = sql_update (retryable projID i) (reset_row t kept) (db_emails (ac_db s))"
    by (auto simp: emails_of_def)
  then show ?thesis
  proof cases
    case 1
    with assms(2) same show ?thesis by (simp add: typed_def)
  next
    case (2 e kept p)
    then have "addressed_ok sv kept" using assms(2) by (auto simp: typed_def row_ok_def addressed_ok_def)
    then have "\<forall>e \<in> set (db_emails (ac_db s')). row_ok sv e"
      unfolding 2(4) using assms(2) by (intro rows_ok_update) (auto simp: typed_def intro: row_ok_changes(6))
    with assms(2) same show ?thesis by (simp add: typed_def)
  qed
next
  case (cancelled projID i fs r fs')
  from CancelSend_rows [OF cancelled] obtain p where same: "ac_projects s' = ac_projects s"
    and "db_emails (ac_db s') = db_emails (ac_db s) \<or> db_emails (ac_db s') = sql_update p cancel_row (db_emails (ac_db s))"
    by (auto simp: emails_of_def)
  moreover have "\<forall>e \<in> set (sql_update p cancel_row (db_emails (ac_db s))). row_ok sv e"
    using assms(2) by (intro rows_ok_update) (auto simp: typed_def intro: row_ok_changes(5))
  ultimately show ?thesis using assms(2) by (auto simp: typed_def)
next
  case (claimed now limit perProject locked fs r d)
  show ?thesis unfolding claimed(1) by (rule typed_claim [OF assms(2) claimed(2)])
next
  case (requeued i created claimed t msg fs r d)
  from rows_affected_db [OF requeued(2) [unfolded Requeue_def]] obtain r0
    where "Exec (update_emails (held_under i created claimed) (requeue_row t msg)) ((ac_db s)\<lparr>db_faults := fs\<rparr>) = (r0, d)" by blast
  then show ?thesis unfolding requeued(1) by (rule typed_update [OF assms(2)]) (rule row_ok_changes(2))
next
  case (taken_back i created handed t msg fs r d)
  from rows_affected_db [OF taken_back(2) [unfolded RequeueHanded_def]] obtain r0
    where "Exec (update_emails (handed_before i created handed) (requeue_row t msg)) ((ac_db s)\<lparr>db_faults := fs\<rparr>) = (r0, d)" by blast
  then show ?thesis unfolding taken_back(1) by (rule typed_update [OF assms(2)]) (rule row_ok_changes(2))
next
  case (recovered t now fs r d)
  let ?p = "stuck t now (snd (pop_fault ((ac_db s)\<lparr>db_faults := fs\<rparr>)))"
  have "db_emails d = db_emails (ac_db s) \<or> db_emails d = sql_update ?p (recover_row now) (db_emails (ac_db s))"
    using recovered(2) unfolding RecoverStuck_def by (cases rule: Exec_cases) (auto simp: update_emails_def)
  moreover have "\<forall>e \<in> set (sql_update ?p (recover_row now) (db_emails (ac_db s))). row_ok sv e"
    using assms(2) by (intro rows_ok_update) (auto simp: typed_def intro: row_ok_changes(3))
  ultimately show ?thesis unfolding recovered(1) using assms(2) by (auto simp: typed_def)
next
  case (finalized i created claimed st msg via sent fs r d)
  from rows_affected_db [OF finalized(2) [unfolded Finalize_def]] obtain r0
    where "Exec (update_emails (held_under i created claimed) (finalize_row st msg via sent)) ((ac_db s)\<lparr>db_faults := fs\<rparr>) = (r0, d)" by blast
  then show ?thesis unfolding finalized(1) by (rule typed_update [OF assms(2)]) (rule row_ok_changes(4) [OF _ finalized(3)])
qed

text \<open>
  C14: Every row of the email table is well formed in every state.  From an empty table, through any
  sends, retries, cancellations, claims, requeues, recoveries and outcomes with any statement
  failing, a row has at least one recipient, each of them parses, neither they nor the sender nor a
  header value holds a line break, a header is either one of the three the builder takes out again or a
  valid name that is not the builder's own, and the due and claim columns are set as the status says.
\<close>
theorem rows_well_formed:
  assumes "(mail_step sv)\<^sup>*\<^sup>* s0 s" and empty: "db_emails (ac_db s0) = []"
    and defaults: "\<forall>p \<in> set (ac_projects s0). headers_ok (pc_default_headers p)"
    and print: "\<And>n a. \<not> has_line_break a \<Longrightarrow> \<not> has_line_break (sv_print sv n a)"
  shows "\<forall>e \<in> set (db_emails (ac_db s)). row_ok sv e"
proof -
  have "typed sv s"
    using assms(1)
  proof (induction rule: rtranclp_induct)
    case base
    show ?case using empty defaults by (simp add: typed_def)
  next
    case (step s1 s2)
    show ?case by (rule mail_step_typed [OF step(2) step(3) print])
  qed
  then show ?thesis by (simp add: typed_def)
qed

lemma sample_defaults: "headers_ok (default_headers (ac_projects accept_sample) ''p'')"
  by code_simp

theorem message_carries_request_witness:
  "\<forall>p. \<exists>e b w. send_sample [''c@x'', ''A@x''] = (Inr (e, b), w) \<and>
    ms_cc (newMessage p (put_row e) []) = ''d@x'' \<and> ms_headers (newMessage p (put_row e) []) ''X-Team'' = Some ''a'' \<and>
    ms_headers (newMessage p (put_row e) []) ''X-area'' = Some ''c'' \<and> ms_headers (newMessage p (put_row e) []) ''X-Area'' = None"
proof
  fix p :: processor
  obtain e blocked w where s: "send_sample [''c@x'', ''A@x''] = (Inr (e, blocked), w)"
    by (rule sample_sent)
  have ok: "headers_ok (default_headers (ac_projects (fst (accept_sample, []))) ''p'')" using sample_defaults by simp
  have fold: "hasFold [(''X-area'', ''c'')] ''X-Area''" "\<not> hasFold [(''X-area'', ''c'')] ''X-Team''"
    "default_headers (ac_projects accept_sample) ''p'' = [(''X-Team'', ''a''), (''X-Area'', ''b'')]"
    by code_simp+
  from message_carries_request [OF s ok, of p "[]"] s fold
  show "\<exists>e b w. send_sample [''c@x'', ''A@x''] = (Inr (e, b), w) \<and>
      ms_cc (newMessage p (put_row e) []) = ''d@x'' \<and> ms_headers (newMessage p (put_row e) []) ''X-Team'' = Some ''a'' \<and>
      ms_headers (newMessage p (put_row e) []) ''X-area'' = Some ''c'' \<and> ms_headers (newMessage p (put_row e) []) ''X-Area'' = None"
    by (auto simp: request_sample_def system_request_def)
qed

theorem rows_well_formed_witness:
  "filter (\<lambda>e. \<not> row_ok plain_service e) (emails_of (snd (send_sample [''c@x'', ''A@x'']))) = []"
proof -
  obtain s fs r where s: "send_sample [''c@x'', ''A@x''] = (r, (s, fs))" by (metis prod.exhaust)
  have run: "(mail_step plain_service)\<^sup>*\<^sup>* accept_sample s" using s by (intro r_into_rtranclp) (rule sent)
  have "\<forall>e \<in> set (db_emails (ac_db s)). row_ok plain_service e"
  proof (rule rows_well_formed [OF run])
    show "db_emails (ac_db accept_sample) = []" by (simp add: accept_sample_def)
    show "\<forall>p \<in> set (ac_projects accept_sample). headers_ok (pc_default_headers p)"
      using sample_defaults by (simp add: accept_sample_def default_headers_def project_sample_def)
    show "\<not> has_line_break (sv_print plain_service n a)" if "\<not> has_line_break a" for n a
      using that by (simp add: plain_service_def)
  qed
  then show ?thesis unfolding s by (simp add: emails_of_def filter_empty_conv)
qed

end
