(* ===== verification/Audience.thy ===== *)
theory Audience
  imports Headers Keyset Sql Statement "HOL-Library.Multiset"
begin

text \<open>
  The audiences of campaigns (\<^verbatim>\<open>internal/domain/subscriber\<close>, \<^verbatim>\<open>internal/domain/subscriberlist\<close> and their models):
  subscribers, lists with members or with rules, opt-outs from one list, and the walk over pages that
  makes a list into the people a campaign is sent to.
\<close>

section \<open>Subscribers and rules\<close>

text \<open>
  A value decoded from JSON.  \<open>Finite m e\<close> is the float \<open>m * 2 ^ e\<close>; \<open>Other\<close> is a boolean, an array or
  an object, with the text Go's \<^verbatim>\<open>%v\<close> gives it.
\<close>

datatype number = Finite int int | PlusInf | MinusInf | NotANumber

datatype field_value = Null | Text string | Number number | Other string

definition scaled :: "int \<Rightarrow> int \<Rightarrow> int \<Rightarrow> int" where
  "scaled k m e = m * 2 ^ nat (e - k)"

fun number_eq :: "number \<Rightarrow> number \<Rightarrow> bool" where
  "number_eq (Finite m e) (Finite n f) = (scaled (min e f) m e = scaled (min e f) n f)"
| "number_eq PlusInf PlusInf = True"
| "number_eq MinusInf MinusInf = True"
| "number_eq x y = False"

fun number_less :: "number \<Rightarrow> number \<Rightarrow> bool" where
  "number_less (Finite m e) (Finite n f) = (scaled (min e f) m e < scaled (min e f) n f)"
| "number_less (Finite m e) PlusInf = True"
| "number_less MinusInf (Finite n f) = True"
| "number_less MinusInf PlusInf = True"
| "number_less x y = False"

text \<open>How numbers are printed and read.\<close>

record reading =
  rg_show :: "number \<Rightarrow> string"
  rg_float :: "string \<Rightarrow> number option"

record subscriber =
  sb_id :: string
  sb_project_id :: string
  sb_email :: string
  sb_name :: string
  sb_status :: string
  sb_custom_fields :: "string \<rightharpoonup> field_value"
  sb_timezone :: string
  sb_language :: string
  sb_subscribed_at :: "time option"
  sb_unsubscribed_at :: "time option"
  sb_created_at :: time
  sb_updated_at :: "time option"

record filter_rule =
  fr_field :: string
  fr_operator :: string
  fr_value :: field_value

record subscriber_list =
  sl_id :: string
  sl_project_id :: string
  sl_name :: string
  sl_description :: string
  sl_type :: string
  sl_rules :: "filter_rule list"
  sl_created_at :: time
  sl_updated_at :: "time option"

definition StatusSubscribed :: string where "StatusSubscribed = ''subscribed''"
definition StatusUnsubscribed :: string where "StatusUnsubscribed = ''unsubscribed''"
definition TypeDynamic :: string where "TypeDynamic = ''dynamic''"

definition lowerStr :: "reading \<Rightarrow> field_value \<Rightarrow> string" where
  "lowerStr rg v =
     (case v of Null \<Rightarrow> [] | Text s \<Rightarrow> to_lower s | Number n \<Rightarrow> to_lower (rg_show rg n) | Other s \<Rightarrow> to_lower s)"

definition toFloat :: "reading \<Rightarrow> field_value \<Rightarrow> number option" where
  "toFloat rg v = (case v of Number n \<Rightarrow> Some n | Text s \<Rightarrow> rg_float rg s | _ \<Rightarrow> None)"

definition looseEqual :: "reading \<Rightarrow> field_value \<Rightarrow> field_value \<Rightarrow> bool" where
  "looseEqual rg a b =
     (case (toFloat rg a, toFloat rg b) of
        (Some x, Some y) \<Rightarrow> number_eq x y
      | _ \<Rightarrow> equal_fold (lowerStr rg a) (lowerStr rg b))"

definition fieldValue :: "subscriber \<Rightarrow> string \<Rightarrow> field_value option" where
  "fieldValue sub field =
     (let (key, found) = cut_prefix ''custom_fields.'' field in
      if found then sb_custom_fields sub key
      else if field = ''email'' then Some (Text (sb_email sub))
      else if field = ''name'' then Some (Text (sb_name sub))
      else if field = ''status'' then Some (Text (sb_status sub))
      else if field = ''timezone'' then Some (Text (sb_timezone sub))
      else if field = ''language'' then Some (Text (sb_language sub))
      else None)"

definition matchRule :: "reading \<Rightarrow> subscriber \<Rightarrow> filter_rule \<Rightarrow> bool" where
  "matchRule rg sub r =
     (let val = fieldValue sub (fr_field r);
          texts = (\<lambda>p. case val of None \<Rightarrow> False | Some v \<Rightarrow> p (lowerStr rg v) (lowerStr rg (fr_value r)));
          numbers = (\<lambda>p. case val of None \<Rightarrow> False | Some v \<Rightarrow>
            (case (toFloat rg v, toFloat rg (fr_value r)) of (Some a, Some b) \<Rightarrow> p a b | _ \<Rightarrow> False));
          op = fr_operator r
      in if op = ''exists'' then val \<noteq> None \<and> val \<noteq> Some Null
         else if op = ''eq'' then (case val of None \<Rightarrow> False | Some v \<Rightarrow> looseEqual rg v (fr_value r))
         else if op = ''neq'' then (case val of None \<Rightarrow> True | Some v \<Rightarrow> \<not> looseEqual rg v (fr_value r))
         else if op = ''contains'' then texts (\<lambda>a b. contains b a)
         else if op = ''starts_with'' then texts has_prefix
         else if op = ''ends_with'' then texts has_suffix
         else if op = ''gt'' then numbers (\<lambda>a b. number_less b a)
         else if op = ''lt'' then numbers number_less
         else False)"

definition MatchRules :: "reading \<Rightarrow> subscriber \<Rightarrow> filter_rule list \<Rightarrow> bool" where
  "MatchRules rg sub rules = list_all (matchRule rg sub) rules"

section \<open>Tables\<close>

record membership =
  mb_list_id :: string
  mb_subscriber_id :: string
  mb_created_at :: time

record opt_out =
  oo_list_id :: string
  oo_subscriber_id :: string
  oo_reason :: string
  oo_at :: time

record audience_db =
  ad_subscribers :: "subscriber list"
  ad_lists :: "subscriber_list list"
  ad_members :: "membership list"
  ad_opt_outs :: "opt_out list"

type_synonym uworld = "audience_db world"

definition normalizeEmail :: "string \<Rightarrow> string" where
  "normalizeEmail e = to_lower (trim_space e)"

definition GetSubscriber :: "string \<Rightarrow> string \<Rightarrow> uworld \<Rightarrow> (audience_db, subscriber option) answer" where
  "GetSubscriber projID i = Read (\<lambda>s. find (\<lambda>x. sb_project_id x = projID \<and> sb_id x = i) (ad_subscribers s))"

definition GetSubscriberByEmail :: "string \<Rightarrow> string \<Rightarrow> uworld \<Rightarrow> (audience_db, subscriber option) answer" where
  "GetSubscriberByEmail projID email =
     Read (\<lambda>s. find (\<lambda>x. sb_project_id x = projID \<and> sb_email x = normalizeEmail email) (ad_subscribers s))"

definition sub_order :: "subscriber \<Rightarrow> time \<times> string" where
  "sub_order x = (sb_created_at x, sb_id x)"

definition sql_page :: "int \<Rightarrow> int \<Rightarrow> 'r list \<Rightarrow> 'r list" where
  "sql_page limit offset rows = take (nat limit) (drop (nat offset) rows)"

definition ListPage :: "string \<Rightarrow> int \<Rightarrow> int \<Rightarrow> uworld \<Rightarrow> (audience_db, subscriber list) answer" where
  "ListPage projID limit offset =
     Read (\<lambda>s. sql_page limit offset (sort_key sub_order (filter (\<lambda>x. sb_project_id x = projID) (ad_subscribers s))))"

text \<open>A row is written under its id; the address is unique in a project.\<close>

definition PutSubscriber :: "subscriber \<Rightarrow> uworld \<Rightarrow> (audience_db, unit) answer" where
  "PutSubscriber x0 =
     (let status = (if sb_status x0 = [] then StatusSubscribed else sb_status x0);
          x = x0\<lparr>sb_status := status, sb_email := normalizeEmail (sb_email x0),
                sb_subscribed_at := (if status = StatusSubscribed \<and> sb_subscribed_at x0 = None
                                     then Some (sb_created_at x0) else sb_subscribed_at x0)\<rparr> in
      Try (\<lambda>s.
        if list_ex (\<lambda>y. sb_project_id y = sb_project_id x \<and> sb_email y = sb_email x \<and> sb_id y \<noteq> sb_id x) (ad_subscribers s)
        then Inl ''duplicate key''
        else if list_ex (\<lambda>y. sb_id y = sb_id x) (ad_subscribers s)
        then Inr (s\<lparr>ad_subscribers := sql_update (\<lambda>y. sb_id y = sb_id x)
               (\<lambda>y. x\<lparr>sb_project_id := sb_project_id y, sb_created_at := sb_created_at y\<rparr>) (ad_subscribers s)\<rparr>, ())
        else Inr (s\<lparr>ad_subscribers := ad_subscribers s @ [x]\<rparr>, ())))"

definition DeleteSubscriber :: "string \<Rightarrow> string \<Rightarrow> uworld \<Rightarrow> (audience_db, unit) answer" where
  "DeleteSubscriber projID i =
     Run (\<lambda>s. (if list_ex (\<lambda>x. sb_project_id x = projID \<and> sb_id x = i) (ad_subscribers s)
               then s\<lparr>ad_subscribers := sql_delete (\<lambda>x. sb_project_id x = projID \<and> sb_id x = i) (ad_subscribers s),
                      ad_members := sql_delete (\<lambda>m. mb_subscriber_id m = i) (ad_members s),
                      ad_opt_outs := sql_delete (\<lambda>u. oo_subscriber_id u = i) (ad_opt_outs s)\<rparr>
               else s, ()))"

definition SetStatusByEmail :: "time \<Rightarrow> string \<Rightarrow> string \<Rightarrow> string \<Rightarrow> uworld \<Rightarrow> (audience_db, bool) answer" where
  "SetStatusByEmail now projID email status =
     (let p = (\<lambda>x. sb_project_id x = projID \<and> sb_email x = normalizeEmail email) in
      Run (\<lambda>s. (s\<lparr>ad_subscribers := sql_update p (\<lambda>x. x\<lparr>sb_status := status,
                   sb_unsubscribed_at := (if status = StatusUnsubscribed then Some now else None), sb_updated_at := Some now\<rparr>)
                 (ad_subscribers s)\<rparr>, 0 < sql_count p (ad_subscribers s))))"

section \<open>Lists\<close>

definition list_is :: "string \<Rightarrow> string \<Rightarrow> subscriber_list \<Rightarrow> bool" where
  "list_is projID listID l = (sl_project_id l = projID \<and> sl_id l = listID)"

definition GetSubscriberList :: "string \<Rightarrow> string \<Rightarrow> uworld \<Rightarrow> (audience_db, subscriber_list option) answer" where
  "GetSubscriberList projID i = Read (\<lambda>s. find (list_is projID i) (ad_lists s))"

definition PutSubscriberList :: "subscriber_list \<Rightarrow> uworld \<Rightarrow> (audience_db, unit) answer" where
  "PutSubscriberList l =
     Run (\<lambda>s. (if list_ex (\<lambda>k. sl_id k = sl_id l) (ad_lists s)
               then s\<lparr>ad_lists := sql_update (\<lambda>k. sl_id k = sl_id l) (\<lambda>k. k\<lparr>sl_name := sl_name l,
                      sl_description := sl_description l, sl_type := sl_type l, sl_rules := sl_rules l,
                      sl_updated_at := sl_updated_at l\<rparr>) (ad_lists s)\<rparr>
               else s\<lparr>ad_lists := ad_lists s @ [l]\<rparr>, ()))"

definition DeleteSubscriberList :: "string \<Rightarrow> string \<Rightarrow> uworld \<Rightarrow> (audience_db, unit) answer" where
  "DeleteSubscriberList projID i =
     Run (\<lambda>s. (if list_ex (list_is projID i) (ad_lists s)
               then s\<lparr>ad_lists := sql_delete (list_is projID i) (ad_lists s),
                      ad_members := sql_delete (\<lambda>m. mb_list_id m = i) (ad_members s),
                      ad_opt_outs := sql_delete (\<lambda>u. oo_list_id u = i) (ad_opt_outs s)\<rparr>
               else s, ()))"

definition no_rows :: error where "no_rows = ''sql: no rows in result set''"

text \<open>The pair is written only when list and subscriber are the project's.\<close>

definition pair_of :: "string \<Rightarrow> string \<Rightarrow> string \<Rightarrow> audience_db \<Rightarrow> bool" where
  "pair_of projID listID subID s =
     (list_ex (list_is projID listID) (ad_lists s) \<and>
      list_ex (\<lambda>x. sb_project_id x = projID \<and> sb_id x = subID) (ad_subscribers s))"

definition is_member :: "string \<Rightarrow> string \<Rightarrow> membership \<Rightarrow> bool" where
  "is_member listID subID m = (mb_list_id m = listID \<and> mb_subscriber_id m = subID)"

definition AddMember :: "time \<Rightarrow> string \<Rightarrow> string \<Rightarrow> string \<Rightarrow> uworld \<Rightarrow> (audience_db, unit) answer" where
  "AddMember now projID listID subID w =
     andThen (Run (\<lambda>s.
       if pair_of projID listID subID s \<and> \<not> list_ex (is_member listID subID) (ad_members s)
       then (s\<lparr>ad_members := ad_members s @ [\<lparr>mb_list_id = listID, mb_subscriber_id = subID, mb_created_at = now\<rparr>]\<rparr>, 1)
       else (s, 0 :: nat)) w) (\<lambda>n w.
     if n \<noteq> 0 then Return () w
     else andThen (Read (\<lambda>s. list_ex (list_is projID listID) (ad_lists s) \<and> list_ex (is_member listID subID) (ad_members s)) w)
            (\<lambda>held w. if held then Return () w else (Inl no_rows, w)))"

definition RemoveMember :: "string \<Rightarrow> string \<Rightarrow> string \<Rightarrow> uworld \<Rightarrow> (audience_db, bool) answer" where
  "RemoveMember projID listID subID =
     Run (\<lambda>s. if list_ex (list_is projID listID) (ad_lists s)
              then (s\<lparr>ad_members := sql_delete (is_member listID subID) (ad_members s)\<rparr>,
                    0 < sql_count (is_member listID subID) (ad_members s))
              else (s, False))"

definition is_opt_out :: "string \<Rightarrow> string \<Rightarrow> opt_out \<Rightarrow> bool" where
  "is_opt_out listID subID u = (oo_list_id u = listID \<and> oo_subscriber_id u = subID)"

definition Unsubscribe :: "time \<Rightarrow> string \<Rightarrow> string \<Rightarrow> string \<Rightarrow> string \<Rightarrow> uworld \<Rightarrow> (audience_db, unit) answer" where
  "Unsubscribe now projID listID subID reason w =
     andThen (Run (\<lambda>s.
       if \<not> pair_of projID listID subID s then (s, 0 :: nat)
       else if list_ex (is_opt_out listID subID) (ad_opt_outs s)
       then (s\<lparr>ad_opt_outs := sql_update (is_opt_out listID subID) (\<lambda>u. u\<lparr>oo_reason := reason\<rparr>) (ad_opt_outs s)\<rparr>, 1)
       else (s\<lparr>ad_opt_outs := ad_opt_outs s @ [\<lparr>oo_list_id = listID, oo_subscriber_id = subID, oo_reason = reason, oo_at = now\<rparr>]\<rparr>, 1)) w)
       (\<lambda>n w. if n = 0 then (Inl no_rows, w) else Return () w)"

definition Resubscribe :: "string \<Rightarrow> string \<Rightarrow> string \<Rightarrow> uworld \<Rightarrow> (audience_db, unit) answer" where
  "Resubscribe projID listID subID =
     Run (\<lambda>s. (if list_ex (list_is projID listID) (ad_lists s)
               then s\<lparr>ad_opt_outs := sql_delete (is_opt_out listID subID) (ad_opt_outs s)\<rparr> else s, ()))"

definition opted_out :: "string \<Rightarrow> string \<Rightarrow> audience_db \<Rightarrow> string \<Rightarrow> bool" where
  "opted_out projID listID s subID =
     (list_ex (list_is projID listID) (ad_lists s) \<and> list_ex (is_opt_out listID subID) (ad_opt_outs s))"

definition IsOptedOut :: "string \<Rightarrow> string \<Rightarrow> string \<Rightarrow> uworld \<Rightarrow> (audience_db, bool) answer" where
  "IsOptedOut projID listID subID = Read (\<lambda>s. opted_out projID listID s subID)"

definition UnsubscribedIDs :: "string \<Rightarrow> string \<Rightarrow> uworld \<Rightarrow> (audience_db, string set) answer" where
  "UnsubscribedIDs projID listID =
     Read (\<lambda>s. if list_ex (list_is projID listID) (ad_lists s)
               then set (map oo_subscriber_id (filter (\<lambda>u. oo_list_id u = listID) (ad_opt_outs s))) else {})"

text \<open>
  Members come in the order they joined; how rows of one instant are ordered is left to the database
  at each query, and is the argument \<open>tie\<close>.
\<close>

type_synonym tie = "int \<Rightarrow> (membership \<times> subscriber) list \<Rightarrow> (membership \<times> subscriber) list"

definition joined_members :: "string \<Rightarrow> string \<Rightarrow> audience_db \<Rightarrow> (membership \<times> subscriber) list" where
  "joined_members projID listID s =
     (if list_ex (list_is projID listID) (ad_lists s)
      then concat (map (\<lambda>m. map (Pair m) (filter (\<lambda>x. sb_id x = mb_subscriber_id m) (ad_subscribers s)))
             (filter (\<lambda>m. mb_list_id m = listID) (ad_members s)))
      else [])"

definition ListMembers :: "tie \<Rightarrow> string \<Rightarrow> string \<Rightarrow> int \<Rightarrow> int \<Rightarrow> uworld \<Rightarrow> (audience_db, subscriber list) answer" where
  "ListMembers tie projID listID limit offset =
     (let limit = (if limit \<le> 0 \<or> 500 < limit then 100 else limit) in
      Read (\<lambda>s. map snd (sql_page limit (max offset 0)
        (sort_key (mb_created_at \<circ> fst) (tie offset (joined_members projID listID s))))))"

section \<open>The audience of a list\<close>

definition resolvePageSize :: int where "resolvePageSize = 500"

text \<open>
  The walk reads a page after the other until one is short.  \<open>meantime\<close> is what other requests do to
  the tables before the page of an offset is read.
\<close>

type_synonym meantime = "int \<Rightarrow> audience_db \<Rightarrow> audience_db"

partial_function (option) walk_pages ::
    "meantime \<Rightarrow> (int \<Rightarrow> uworld \<Rightarrow> (audience_db, subscriber list) answer) \<Rightarrow> int \<Rightarrow> subscriber list \<Rightarrow> uworld \<Rightarrow>
     (audience_db, subscriber list) answer option" where
  "walk_pages meantime fetch offset acc w =
     (case fetch offset (meantime offset (fst w), snd w) of
        (Inl e, w) \<Rightarrow> Some (Inl e, w)
      | (Inr page, w) \<Rightarrow>
          if int (length page) < resolvePageSize then Some (Inr (acc @ page), w)
          else walk_pages meantime fetch (offset + resolvePageSize) (acc @ page) w)"

text \<open>Recipients, and those of the audience who opted out of this list.\<close>

definition ResolveAudience ::
    "reading \<Rightarrow> meantime \<Rightarrow> tie \<Rightarrow> string \<Rightarrow> subscriber_list \<Rightarrow> uworld \<Rightarrow>
     (audience_db, subscriber list \<times> subscriber list) answer option" where
  "ResolveAudience rg meantime tie projID l w =
     (case UnsubscribedIDs projID (sl_id l) w of
        (Inl e, w) \<Rightarrow> Some (Inl e, w)
      | (Inr opted, w) \<Rightarrow>
          (let keep = filter (\<lambda>x. sb_status x = StatusSubscribed);
               parts = (\<lambda>subs. (filter (\<lambda>x. sb_id x \<notin> opted) (keep subs), filter (\<lambda>x. sb_id x \<in> opted) (keep subs)))
           in map_option (\<lambda>r. case r of (Inl e, w) \<Rightarrow> (Inl e, w) | (Inr subs, w) \<Rightarrow> (Inr (parts subs), w))
                (if sl_type l = TypeDynamic
                 then map_option (\<lambda>r. case r of (Inl e, w) \<Rightarrow> (Inl e, w)
                        | (Inr subs, w) \<Rightarrow> (Inr (filter (\<lambda>x. MatchRules rg x (sl_rules l)) subs), w))
                      (walk_pages meantime (ListPage projID resolvePageSize) 0 [] w)
                 else walk_pages meantime (ListMembers tie projID (sl_id l) resolvePageSize) 0 [] w)))"

section \<open>The walk ends\<close>

lemma walk_ends:
  assumes inv: "\<And>i s. P s \<Longrightarrow> P (meantime i s)"
    and reads: "\<And>i w r w'. fetch i w = (r, w') \<Longrightarrow> fst w' = fst w"
    and short: "\<And>i s fs x w'. P s \<Longrightarrow> int B \<le> i \<Longrightarrow> fetch i (s, fs) = (Inr x, w') \<Longrightarrow> int (length x) < resolvePageSize"
  shows "P (fst w) \<Longrightarrow> walk_pages meantime fetch offset acc w \<noteq> None"
proof (induction "nat (int B - offset)" arbitrary: offset acc w rule: less_induct)
  case less
  obtain r w' where f: "fetch offset (meantime offset (fst w), snd w) = (r, w')" by (rule prod.exhaust)
  note P = inv [OF less(2), of offset]
  show ?case
  proof (cases r)
    case (Inr page)
    show ?thesis
    proof (cases "int (length page) < resolvePageSize")
      case False
      have "offset < int B" using short [OF P _ f [unfolded Inr]] False by (meson not_less)
      then have "nat (int B - (offset + resolvePageSize)) < nat (int B - offset)" by (simp add: resolvePageSize_def)
      from less(1) [OF this] reads [OF f] P False show ?thesis by (subst walk_pages.simps) (simp add: f Inr)
    qed (subst walk_pages.simps, simp add: f Inr)
  qed (subst walk_pages.simps, simp add: f)
qed

text \<open>When nothing else writes and every page is cut from the same rows, the walk reads them all, or fails.\<close>

definition cuts :: "audience_db \<Rightarrow> subscriber list \<Rightarrow> (int \<Rightarrow> uworld \<Rightarrow> (audience_db, subscriber list) answer) \<Rightarrow> bool" where
  "cuts s rows fetch =
     (\<forall>i fs r w'. 0 \<le> i \<longrightarrow> fetch i (s, fs) = (r, w') \<longrightarrow>
        fst w' = s \<and> (case r of Inl e \<Rightarrow> fs \<noteq> [] | Inr x \<Rightarrow> x = sql_page resolvePageSize i rows \<and> (fs = [] \<longrightarrow> snd w' = [])))"

lemma walk_exact:
  assumes "cuts s rows fetch" "0 \<le> offset" "walk_pages (\<lambda>_ s. s) fetch offset acc (s, fs) = Some (r, w')"
  shows "fst w' = s \<and> (case r of Inl e \<Rightarrow> fs \<noteq> [] | Inr out \<Rightarrow> out = acc @ drop (nat offset) rows)"
  using assms(2,3)
proof (induction "length rows - nat offset" arbitrary: offset acc fs rule: less_induct)
  case less
  obtain r1 s1 fs1 where f: "fetch offset (s, fs) = (r1, (s1, fs1))" by (metis prod.exhaust)
  have one: "s1 = s" "case r1 of Inl e \<Rightarrow> fs \<noteq> [] | Inr x \<Rightarrow> x = sql_page resolvePageSize offset rows \<and> (fs = [] \<longrightarrow> fs1 = [])"
    using assms(1) [unfolded cuts_def, rule_format, OF less(2) f] by (simp_all split: sum.splits)
  show ?case
  proof (cases r1)
    case (Inl e)
    with less(3) f one show ?thesis by (subst (asm) walk_pages.simps) auto
  next
    case (Inr page)
    with one have page: "page = take 500 (drop (nat offset) rows)" and fs: "fs = [] \<longrightarrow> fs1 = []"
      by (simp_all add: sql_page_def resolvePageSize_def)
    show ?thesis
    proof (cases "int (length page) < resolvePageSize")
      case True
      then have "page = drop (nat offset) rows" by (auto simp: page resolvePageSize_def)
      with less(3) f Inr True one show ?thesis by (subst (asm) walk_pages.simps) auto
    next
      case False
      then have long: "nat offset + 500 \<le> length rows" by (auto simp: page resolvePageSize_def)
      from less(3) have "walk_pages (\<lambda>_ s. s) fetch (offset + resolvePageSize) (acc @ page) (s, fs1) = Some (r, w')"
        by (subst (asm) walk_pages.simps) (use f Inr False one in simp)
      from less(1) [OF _ _ this] less(2) long
      have rest: "fst w' = s" "case r of Inl e \<Rightarrow> fs1 \<noteq> [] | Inr out \<Rightarrow> out = (acc @ page) @ drop (nat (offset + resolvePageSize)) rows"
        by (simp_all add: resolvePageSize_def nat_add_distrib)
      have "drop (nat (offset + resolvePageSize)) rows = drop 500 (drop (nat offset) rows)"
        using less(2) by (simp add: resolvePageSize_def nat_add_distrib add.commute)
      then have "page @ drop (nat (offset + resolvePageSize)) rows = drop (nat offset) rows"
        unfolding page by (simp only: append_take_drop_id)
      with rest fs show ?thesis by (auto split: sum.splits)
    qed
  qed
qed

lemma Read_answer: "Read q (s, fs) = (r, w') \<Longrightarrow>
    fst w' = s \<and> (case r of Inl e \<Rightarrow> fs \<noteq> [] | Inr x \<Rightarrow> x = q s \<and> (fs = [] \<longrightarrow> snd w' = []))"
  by (cases fs; force simp: Read_def Run_def split: option.splits fault.splits)

section \<open>Who is in it\<close>

definition members_of :: "reading \<Rightarrow> string \<Rightarrow> subscriber_list \<Rightarrow> audience_db \<Rightarrow> subscriber list" where
  "members_of rg projID l s =
     (if sl_type l = TypeDynamic
      then filter (\<lambda>x. sb_project_id x = projID \<and> MatchRules rg x (sl_rules l)) (ad_subscribers s)
      else map snd (joined_members projID (sl_id l) s))"

lemma sorted_unique:
  fixes f :: "'a \<Rightarrow> 'b :: linorder"
  assumes "mset xs = mset ys" "distinct (map f ys)"
  shows "sort_key f xs = sort_key f ys"
proof (rule map_sorted_distinct_set_unique)
  have set_eq: "set xs = set ys" using assms(1) by (rule mset_eq_setD)
  then show "inj_on f (set (sort_key f xs) \<union> set (sort_key f ys))"
    using assms(2) by (simp add: distinct_map)
  have "mset (map f xs) = mset (map f ys)" using assms(1) by simp
  then have "distinct (map f xs)" using assms(2) mset_eq_imp_distinct_iff by blast
  then show "distinct (map f (sort_key f xs))" by (simp add: distinct_map)
  show "distinct (map f (sort_key f ys))" using assms(2) by (simp add: distinct_map)
  show "set (sort_key f xs) = set (sort_key f ys)" using set_eq by simp
qed simp_all

text \<open>The rows pages are cut from when nothing else writes.\<close>

definition listed :: "string \<Rightarrow> subscriber_list \<Rightarrow> audience_db \<Rightarrow> subscriber list" where
  "listed projID l s =
     (if sl_type l = TypeDynamic then sort_key sub_order (filter (\<lambda>x. sb_project_id x = projID) (ad_subscribers s))
      else map snd (sort_key (mb_created_at \<circ> fst) (joined_members projID (sl_id l) s)))"

definition list_fetch :: "tie \<Rightarrow> string \<Rightarrow> subscriber_list \<Rightarrow> int \<Rightarrow> uworld \<Rightarrow> (audience_db, subscriber list) answer" where
  "list_fetch tie projID l =
     (if sl_type l = TypeDynamic then ListPage projID resolvePageSize else ListMembers tie projID (sl_id l) resolvePageSize)"

lemma list_fetch_cuts:
  assumes ties: "\<And>i xs. mset (tie i xs) = mset xs"
    and times: "sl_type l = TypeDynamic \<or> distinct (map (mb_created_at \<circ> fst) (joined_members projID (sl_id l) s))"
  shows "cuts s (listed projID l s) (list_fetch tie projID l)"
  unfolding cuts_def
proof (intro allI impI)
  fix i :: int and fs r w' assume i: "0 \<le> i" and f: "list_fetch tie projID l i (s, fs) = (r, w')"
  show "fst w' = s \<and> (case r of Inl e \<Rightarrow> fs \<noteq> [] | Inr x \<Rightarrow> x = sql_page resolvePageSize i (listed projID l s) \<and> (fs = [] \<longrightarrow> snd w' = []))"
  proof (cases "sl_type l = TypeDynamic")
    case True
    with f have "Read (\<lambda>s. sql_page resolvePageSize i (listed projID l s)) (s, fs) = (r, w')"
      by (simp add: list_fetch_def ListPage_def listed_def)
    then show ?thesis by (rule Read_answer)
  next
    case False
    have "sort_key (mb_created_at \<circ> fst) (tie i (joined_members projID (sl_id l) s)) =
        sort_key (mb_created_at \<circ> fst) (joined_members projID (sl_id l) s)"
      using times False by (intro sorted_unique [OF ties]) simp
    then have page: "map snd (sql_page resolvePageSize (max i 0) (sort_key (mb_created_at \<circ> fst) (tie i (joined_members projID (sl_id l) s)))) =
        sql_page resolvePageSize i (listed projID l s)"
      using i False by (simp add: listed_def sql_page_def take_map drop_map max_absorb1)
    from f False have "Read (\<lambda>s. map snd (sql_page resolvePageSize (max i 0)
        (sort_key (mb_created_at \<circ> fst) (tie i (joined_members projID (sl_id l) s))))) (s, fs) = (r, w')"
      by (simp add: list_fetch_def ListMembers_def resolvePageSize_def)
    from Read_answer [OF this] page show ?thesis by (simp split: sum.splits)
  qed
qed

lemma list_fetch_short:
  assumes "length (ad_subscribers s) \<le> B" "length (joined_members projID (sl_id l) s) \<le> B"
    and ties: "\<And>i xs. mset (tie i xs) = mset xs" and "int B \<le> i" "list_fetch tie projID l i (s, fs) = (Inr x, w')"
  shows "int (length x) < resolvePageSize"
proof (cases "sl_type l = TypeDynamic")
  case True
  then have "x = sql_page resolvePageSize i (sort_key sub_order (filter (\<lambda>x. sb_project_id x = projID) (ad_subscribers s)))"
    using assms(5) by (simp add: list_fetch_def ListPage_def) (drule Read_answer, simp)
  moreover have "length (filter (\<lambda>x. sb_project_id x = projID) (ad_subscribers s)) \<le> B"
    using assms(1) length_filter_le le_trans by blast
  ultimately show ?thesis using assms(4) by (simp add: sql_page_def resolvePageSize_def)
next
  case False
  then have "x = map snd (sql_page resolvePageSize (max i 0) (sort_key (mb_created_at \<circ> fst) (tie i (joined_members projID (sl_id l) s))))"
    using assms(5) by (simp add: list_fetch_def ListMembers_def resolvePageSize_def) (drule Read_answer, simp)
  moreover have "length (tie i (joined_members projID (sl_id l) s)) \<le> B"
    using assms(2) mset_eq_length [OF ties] by metis
  ultimately show ?thesis using assms(4) by (simp add: sql_page_def resolvePageSize_def)
qed

lemma audience_parts:
  "mset (filter (\<lambda>x. sb_id x \<notin> S) subs @ filter (\<lambda>x. sb_id x \<in> S) subs) = mset (subs :: subscriber list)"
  by (induction subs) auto

lemma listed_people:
  "mset (if sl_type l = TypeDynamic then filter (\<lambda>x. MatchRules rg x (sl_rules l)) (listed projID l s) else listed projID l s) =
   mset (members_of rg projID l s)"
  by (simp add: listed_def members_of_def filter_filter_mset conj_commute)

definition split_audience :: "string set \<Rightarrow> subscriber list \<Rightarrow> subscriber list \<times> subscriber list" where
  "split_audience opted subs =
     (let keep = filter (\<lambda>x. sb_status x = StatusSubscribed) subs
      in (filter (\<lambda>x. sb_id x \<notin> opted) keep, filter (\<lambda>x. sb_id x \<in> opted) keep))"

lemma ResolveAudience_run:
  assumes walk: "\<And>w1. fst w1 = fst w \<Longrightarrow> walk_pages meantime (list_fetch tie projID l) 0 [] w1 \<noteq> None"
  shows "\<exists>r w'. ResolveAudience rg meantime tie projID l w = Some (r, w') \<and>
    ((\<exists>e. r = Inl e \<and> UnsubscribedIDs projID (sl_id l) w = (Inl e, w')) \<or>
     (\<exists>opted w1 r1. UnsubscribedIDs projID (sl_id l) w = (Inr opted, w1) \<and>
        walk_pages meantime (list_fetch tie projID l) 0 [] w1 = Some (r1, w') \<and>
        (case r1 of Inl e \<Rightarrow> r = Inl e
         | Inr subs \<Rightarrow> r = Inr (split_audience opted
             (if sl_type l = TypeDynamic then filter (\<lambda>x. MatchRules rg x (sl_rules l)) subs else subs)))))"
proof -
  obtain r0 w1 where u: "UnsubscribedIDs projID (sl_id l) w = (r0, w1)" by (rule prod.exhaust)
  show ?thesis
  proof (cases r0)
    case (Inl e)
    with u show ?thesis by (simp add: ResolveAudience_def)
  next
    case (Inr opted)
    obtain r1 w' where v: "walk_pages meantime (list_fetch tie projID l) 0 [] w1 = Some (r1, w')" using walk [of w1] Read_state [OF u [unfolded UnsubscribedIDs_def]] by auto
    show ?thesis
      using u v Inr by (cases "sl_type l = TypeDynamic"; cases r1)
        (simp_all add: ResolveAudience_def list_fetch_def split_audience_def Let_def)
  qed
qed

definition audience_ok :: "reading \<Rightarrow> string \<Rightarrow> subscriber_list \<Rightarrow> uworld \<Rightarrow> error + subscriber list \<times> subscriber list \<Rightarrow> bool" where
  "audience_ok rg projID l w r =
     (case r of
        Inl e \<Rightarrow> snd w \<noteq> []
      | Inr (recipients, optedOut) \<Rightarrow>
          mset (recipients @ optedOut) = filter_mset (\<lambda>x. sb_status x = StatusSubscribed) (mset (members_of rg projID l (fst w))) \<and>
          list_all (\<lambda>x. \<not> opted_out projID (sl_id l) (fst w) (sb_id x)) recipients \<and>
          list_all (\<lambda>x. opted_out projID (sl_id l) (fst w) (sb_id x)) optedOut)"

text \<open>
  C18: Making a list into its audience ends and is exact.  However other requests change the tables
  between the pages, the walk ends as long as the rows stay under some number; and when nobody writes
  meanwhile and no two members of a static list joined it in one instant, it fails only with a statement, and otherwise
  answers every subscribed member of the list - or every subscriber its rules match - exactly once, the
  ones who opted out of the list apart.
\<close>
theorem audience_resolved:
  assumes start: "P (fst w)" and others: "\<And>i s. P s \<Longrightarrow> P (meantime i s)"
    and bounded: "\<And>s. P s \<Longrightarrow> length (ad_subscribers s) \<le> B \<and> length (joined_members projID (sl_id l) s) \<le> B"
    and ties: "\<And>i xs. mset (tie i xs) = mset xs"
  shows "\<exists>r w'. ResolveAudience rg meantime tie projID l w = Some (r, w') \<and>
    (meantime = (\<lambda>_ s. s) \<and> (sl_type l = TypeDynamic \<or> distinct (map (mb_created_at \<circ> fst) (joined_members projID (sl_id l) (fst w)))) \<longrightarrow>
       fst w' = fst w \<and> audience_ok rg projID l w r)"
proof -
  have "walk_pages meantime (list_fetch tie projID l) 0 [] w1 \<noteq> None" if "fst w1 = fst w" for w1
  proof (rule walk_ends [of P])
    show "int (length x) < resolvePageSize" if "P s" "int B \<le> i" "list_fetch tie projID l i (s, fs) = (Inr x, w')" for i s fs x w'
      using list_fetch_short [OF _ _ ties that(2,3)] bounded [OF that(1)] by blast
  qed (use others start that in \<open>auto simp: list_fetch_def ListPage_def ListMembers_def Let_def dest: Read_state split: if_splits\<close>)
  from ResolveAudience_run [where rg = rg and w = w, OF this] obtain r w' where run: "ResolveAudience rg meantime tie projID l w = Some (r, w')"
    and parts: "(\<exists>e. r = Inl e \<and> UnsubscribedIDs projID (sl_id l) w = (Inl e, w')) \<or>
     (\<exists>opted w1 r1. UnsubscribedIDs projID (sl_id l) w = (Inr opted, w1) \<and>
        walk_pages meantime (list_fetch tie projID l) 0 [] w1 = Some (r1, w') \<and>
        (case r1 of Inl e \<Rightarrow> r = Inl e
         | Inr subs \<Rightarrow> r = Inr (split_audience opted
             (if sl_type l = TypeDynamic then filter (\<lambda>x. MatchRules rg x (sl_rules l)) subs else subs))))"
    by blast
  obtain s fs where w: "w = (s, fs)" by (rule prod.exhaust)
  have "fst w' = s \<and> audience_ok rg projID l (s, fs) r"
    if quiet: "meantime = (\<lambda>_ s. s)"
      and times: "sl_type l = TypeDynamic \<or> distinct (map (mb_created_at \<circ> fst) (joined_members projID (sl_id l) s))"
    using parts
  proof (elim disjE exE conjE)
    fix e assume "r = Inl e" "UnsubscribedIDs projID (sl_id l) w = (Inl e, w')"
    then show ?thesis using Read_answer by (fastforce simp: UnsubscribedIDs_def w audience_ok_def)
  next
    fix opted w1 r1
    assume u: "UnsubscribedIDs projID (sl_id l) w = (Inr opted, w1)"
      and v: "walk_pages meantime (list_fetch tie projID l) 0 [] w1 = Some (r1, w')"
      and r: "case r1 of Inl e \<Rightarrow> r = Inl e | Inr subs \<Rightarrow> r = Inr (split_audience opted
             (if sl_type l = TypeDynamic then filter (\<lambda>x. MatchRules rg x (sl_rules l)) subs else subs))"
    have w1: "w1 = (s, snd w1)" "fs = [] \<longrightarrow> snd w1 = []" and opted: "x \<in> opted \<longleftrightarrow> opted_out projID (sl_id l) s x" for x
      using Read_answer [OF u [unfolded UnsubscribedIDs_def w]]
      by (auto simp: prod_eq_iff opted_out_def is_opt_out_def list_ex_iff)
    have "walk_pages (\<lambda>_ s. s) (list_fetch tie projID l) 0 [] (s, snd w1) = Some (r1, w')"
      using v w1(1) by (simp add: quiet)
    note got = walk_exact [OF list_fetch_cuts [OF ties times] order_refl this]
    show ?thesis
    proof (cases r1)
      case (Inl e)
      with got r w1 show ?thesis by (auto simp: audience_ok_def)
    next
      case (Inr subs)
      with got have subs: "subs = listed projID l s" by simp
      let ?people = "if sl_type l = TypeDynamic then filter (\<lambda>x. MatchRules rg x (sl_rules l)) subs else subs"
      have "r = Inr (split_audience opted ?people)" using r Inr by simp
      moreover have "mset ?people = mset (members_of rg projID l s)" unfolding subs by (rule listed_people)
      ultimately show ?thesis
        using got audience_parts [of opted "filter (\<lambda>x. sb_status x = StatusSubscribed) ?people"]
        by (simp add: split_audience_def Let_def opted audience_ok_def list_all_iff)
    qed
  qed
  with run w show ?thesis by auto
qed


definition reading_sample :: reading where
  "reading_sample = \<lparr>rg_show = (\<lambda>_. []), rg_float = (\<lambda>_. None)\<rparr>"

definition subscriber_sample :: "string \<Rightarrow> string \<Rightarrow> subscriber" where
  "subscriber_sample i email = \<lparr>sb_id = i, sb_project_id = ''p'', sb_email = email, sb_name = [], sb_status = StatusSubscribed,
     sb_custom_fields = Map.empty, sb_timezone = [], sb_language = [], sb_subscribed_at = Some 1, sb_unsubscribed_at = None,
     sb_created_at = 1, sb_updated_at = None\<rparr>"

definition list_sample :: "string \<Rightarrow> subscriber_list" where
  "list_sample type = \<lparr>sl_id = ''l'', sl_project_id = ''p'', sl_name = ''L'', sl_description = [], sl_type = type,
     sl_rules = [\<lparr>fr_field = ''email'', fr_operator = ''ends_with'', fr_value = Text ''@X''\<rparr>], sl_created_at = 1, sl_updated_at = None\<rparr>"

definition audience_sample :: "time \<Rightarrow> audience_db" where
  "audience_sample joined =
     \<lparr>ad_subscribers = [subscriber_sample ''1'' ''a@x'', subscriber_sample ''2'' ''b@x'', subscriber_sample ''3'' ''c@y''],
      ad_lists = [list_sample ''static''],
      ad_members = [\<lparr>mb_list_id = ''l'', mb_subscriber_id = ''1'', mb_created_at = 2\<rparr>,
                    \<lparr>mb_list_id = ''l'', mb_subscriber_id = ''2'', mb_created_at = joined\<rparr>],
      ad_opt_outs = [\<lparr>oo_list_id = ''l'', oo_subscriber_id = ''2'', oo_reason = [], oo_at = 9\<rparr>]\<rparr>"

theorem audience_resolved_witness:
  "\<exists>rs us w'. ResolveAudience reading_sample (\<lambda>_ s. s) (\<lambda>_ xs. xs) ''p'' (list_sample ''static'') (audience_sample 3, []) = Some (Inr (rs, us), w') \<and>
     image_mset sb_id (mset rs + mset us) = {#''1'', ''2''#} \<and>
     (\<exists>ds vs v'. ResolveAudience reading_sample (\<lambda>_ s. s) (\<lambda>_ xs. xs) ''p'' (list_sample ''dynamic'') (audience_sample 3, []) = Some (Inr (ds, vs), v') \<and>
        image_mset sb_id (mset ds + mset vs) = {#''1'', ''2''#})"
proof -
  let ?s = "audience_sample 3"
  have rows: "length (ad_subscribers ?s) \<le> 3 \<and> length (joined_members ''p'' (sl_id (list_sample t)) ?s) \<le> 3" for t
    by (simp add: audience_sample_def joined_members_def list_sample_def)
  have times: "distinct (map (mb_created_at \<circ> fst) (joined_members ''p'' (sl_id (list_sample t)) ?s))" for t
    by (simp add: audience_sample_def joined_members_def list_sample_def subscriber_sample_def list_is_def)
  have people: "map sb_id (filter (\<lambda>x. sb_status x = StatusSubscribed) (members_of reading_sample ''p'' (list_sample ''static'') ?s)) = [''1'', ''2'']"
    "map sb_id (filter (\<lambda>x. sb_status x = StatusSubscribed) (members_of reading_sample ''p'' (list_sample ''dynamic'') ?s)) = [''1'', ''2'']"
    by code_simp+
  have got: "\<exists>rs us w'. ResolveAudience reading_sample (\<lambda>_ s. s) (\<lambda>_ xs. xs) ''p'' (list_sample t) (?s, []) = Some (Inr (rs, us), w') \<and>
     image_mset sb_id (mset rs + mset us) = {#''1'', ''2''#}"
    if ids: "map sb_id (filter (\<lambda>x. sb_status x = StatusSubscribed) (members_of reading_sample ''p'' (list_sample t) ?s)) = [''1'', ''2'']" for t
  proof -
    obtain r w' where r: "ResolveAudience reading_sample (\<lambda>_ s. s) (\<lambda>_ xs. xs) ''p'' (list_sample t) (?s, []) = Some (r, w')"
        "audience_ok reading_sample ''p'' (list_sample t) (?s, []) r"
      using audience_resolved [of "\<lambda>s. s = ?s" "(?s, [])" "\<lambda>_ s. s" 3 "''p''" "list_sample t" "\<lambda>_ xs. xs" reading_sample]
        rows [of t] times [of t] by auto
    then obtain rs us where "r = Inr (rs, us)"
      "mset (rs @ us) = mset (filter (\<lambda>x. sb_status x = StatusSubscribed) (members_of reading_sample ''p'' (list_sample t) ?s))"
      by (auto simp: audience_ok_def split: sum.splits)
    moreover from this(2) have "image_mset sb_id (mset rs + mset us) = {#''1'', ''2''#}"
      using arg_cong [OF ids, of mset] by (simp del: mset_filter)
    ultimately show ?thesis using r by blast
  qed
  from got [OF people(1)] got [OF people(2)] show ?thesis by blast
qed

text \<open>Members who joined in one instant may trade places between two pages, and one is then read twice, the other never.\<close>

lemma tied_member_missed:
  "let tie = (\<lambda>i xs. if i = 0 then xs else rev xs);
       page = (\<lambda>i. fst (ListMembers tie ''p'' ''l'' 1 i (audience_sample 2, [])))
   in map_sum id (map sb_id) (page 0) = Inr [''1''] \<and> map_sum id (map sb_id) (page 1) = Inr [''1'']"
  by code_simp

end
