(* ===== verification/Campaigns.thy ===== *)
theory Campaigns
  imports Accept Audience
begin

text \<open>
  Campaigns and their messages: the statements of \<^verbatim>\<open>internal/domain/campaign/store.go\<close>, the requests an
  operator makes (\<^verbatim>\<open>endpoint.go\<close>) and the end of a campaign (\<^verbatim>\<open>done.go\<close>).  The runner that sends one is
  in theory Runner.
\<close>

section \<open>State\<close>

datatype camp_status = CampDraft | CampScheduled | CampSending | CampPaused | CampSent | CampCancelled

datatype msg_status = MsgPending | MsgQueued | MsgSent | MsgFailed | MsgSkipped

record variant =
  va_name :: string
  va_subject :: string
  va_template_id :: string
  va_split :: int

record campaign =
  cp_id :: string
  cp_project_id :: string
  cp_created_by :: string
  cp_name :: string
  cp_subject :: string
  cp_from_email :: string
  cp_from_name :: string
  cp_reply_to :: string
  cp_template_id :: string
  cp_language :: string
  cp_template_data :: "string \<rightharpoonup> field_value"
  cp_headers :: headers
  cp_status :: camp_status
  cp_list_id :: string
  cp_smtp_group_id :: string
  cp_send_rate :: int
  cp_local_time :: bool
  cp_ab_enabled :: bool
  cp_variants :: "variant list"
  cp_unsubscribe_disabled :: bool
  cp_disable_signing :: bool
  cp_scheduled_at :: "time option"
  cp_scheduled_offset :: "int option"
  cp_started_at :: "time option"
  cp_completed_at :: "time option"
  cp_next_batch_at :: "time option"
  cp_settled_at :: "time option"
  cp_created_at :: time
  cp_updated_at :: "time option"

record camp_message =
  cg_id :: string
  cg_campaign_id :: string
  cg_subscriber_id :: string
  cg_email_id :: string
  cg_status :: msg_status
  cg_error :: error
  cg_variant :: string
  cg_deliver_at :: "time option"
  cg_sent_at :: "time option"
  cg_opened_at :: "time option"
  cg_clicked_at :: "time option"
  cg_unsubscribed_at :: "time option"
  cg_created_at :: time

text \<open>\<open>cd_events\<close> and \<open>cd_notices\<close> are what the dispatcher and the notifier were told of a campaign.\<close>

record camp_db =
  cd_accept :: accept_db
  cd_audience :: audience_db
  cd_campaigns :: "campaign list"
  cd_messages :: "camp_message list"
  cd_events :: "(string \<times> string) list"
  cd_notices :: "(string \<times> string) list"

type_synonym cworld = "camp_db world"

definition in_audience :: "(uworld \<Rightarrow> (audience_db, 'a) answer) \<Rightarrow> cworld \<Rightarrow> (camp_db, 'a) answer" where
  "in_audience = Zoom cd_audience (\<lambda>t s. s\<lparr>cd_audience := t\<rparr>)"

definition in_mail :: "(aworld \<Rightarrow> 'r \<times> aworld) \<Rightarrow> cworld \<Rightarrow> 'r \<times> cworld" where
  "in_mail m w = (case m (cd_accept (fst w), snd w) of (r, (t, fs)) \<Rightarrow> (r, ((fst w)\<lparr>cd_accept := t\<rparr>, fs)))"

definition announce :: "string \<Rightarrow> string \<Rightarrow> cworld \<Rightarrow> cworld" where
  "announce what i w = ((fst w)\<lparr>cd_events := cd_events (fst w) @ [(what, i)]\<rparr>, snd w)"

definition notify_of :: "string \<Rightarrow> string \<Rightarrow> cworld \<Rightarrow> cworld" where
  "notify_of type i w = ((fst w)\<lparr>cd_notices := cd_notices (fst w) @ [(type, i)]\<rparr>, snd w)"

definition EventCampaignStarted :: string where "EventCampaignStarted = ''campaign.started''"
definition EventCampaignCompleted :: string where "EventCampaignCompleted = ''campaign.completed''"
definition TypeCampaignStarted :: string where "TypeCampaignStarted = ''campaign_started''"
definition TypeCampaignDone :: string where "TypeCampaignDone = ''campaign_done''"
definition TypeCampaignHeld :: string where "TypeCampaignHeld = ''campaign_held''"

section \<open>Statements on campaigns\<close>

definition camp_is :: "string \<Rightarrow> string \<Rightarrow> campaign \<Rightarrow> bool" where
  "camp_is projID i c = (cp_project_id c = projID \<and> cp_id c = i)"

definition GetCampaign :: "string \<Rightarrow> string \<Rightarrow> cworld \<Rightarrow> (camp_db, campaign option) answer" where
  "GetCampaign projID i = Read (\<lambda>s. find (camp_is projID i) (cd_campaigns s))"

definition GetAnyCampaign :: "string \<Rightarrow> cworld \<Rightarrow> (camp_db, campaign option) answer" where
  "GetAnyCampaign i = Read (\<lambda>s. find (\<lambda>c. cp_id c = i) (cd_campaigns s))"

definition update_camps :: "(campaign \<Rightarrow> bool) \<Rightarrow> (campaign \<Rightarrow> campaign) \<Rightarrow> camp_db \<Rightarrow> camp_db \<times> nat" where
  "update_camps p f s = (s\<lparr>cd_campaigns := sql_update p f (cd_campaigns s)\<rparr>, sql_count p (cd_campaigns s))"

definition moved :: "(camp_db, nat) answer \<Rightarrow> (camp_db, bool) answer" where
  "moved r = andThen r (\<lambda>n. Return (0 < n))"

text \<open>On conflict the content is written and no column of the lifecycle.\<close>

definition content_of :: "campaign \<Rightarrow> campaign \<Rightarrow> campaign" where
  "content_of c k =
     k\<lparr>cp_name := cp_name c, cp_subject := cp_subject c, cp_from_email := cp_from_email c, cp_from_name := cp_from_name c,
       cp_reply_to := cp_reply_to c, cp_template_id := cp_template_id c, cp_language := cp_language c,
       cp_template_data := cp_template_data c, cp_headers := cp_headers c, cp_list_id := cp_list_id c,
       cp_smtp_group_id := cp_smtp_group_id c, cp_send_rate := cp_send_rate c, cp_local_time := cp_local_time c,
       cp_ab_enabled := cp_ab_enabled c, cp_variants := cp_variants c,
       cp_unsubscribe_disabled := cp_unsubscribe_disabled c, cp_disable_signing := cp_disable_signing c,
       cp_updated_at := cp_updated_at c\<rparr>"

definition PutCampaign :: "campaign \<Rightarrow> cworld \<Rightarrow> (camp_db, unit) answer" where
  "PutCampaign c =
     Run (\<lambda>s. (if list_ex (\<lambda>k. cp_id k = cp_id c) (cd_campaigns s)
               then fst (update_camps (\<lambda>k. cp_id k = cp_id c) (content_of c) s)
               else s\<lparr>cd_campaigns := cd_campaigns s @ [c\<lparr>cp_scheduled_offset := None, cp_settled_at := None\<rparr>]\<rparr>, ()))"

definition DeleteCampaign :: "string \<Rightarrow> string \<Rightarrow> cworld \<Rightarrow> (camp_db, unit) answer" where
  "DeleteCampaign projID i =
     Run (\<lambda>s. (if list_ex (camp_is projID i) (cd_campaigns s)
               then s\<lparr>cd_campaigns := sql_delete (camp_is projID i) (cd_campaigns s),
                      cd_messages := sql_delete (\<lambda>m. cg_campaign_id m = i) (cd_messages s),
                      cd_accept := (cd_accept s)\<lparr>ac_links := sql_delete (\<lambda>k. tl_campaign_id k = i) (ac_links (cd_accept s))\<rparr>\<rparr>
               else s, ()))"

definition launch_row ::
    "time \<Rightarrow> camp_status \<Rightarrow> time option \<Rightarrow> int option \<Rightarrow> time option \<Rightarrow> time option \<Rightarrow> campaign \<Rightarrow> campaign" where
  "launch_row now st scheduledAt scheduledOffset startedAt nextBatchAt c =
     c\<lparr>cp_status := st, cp_scheduled_at := scheduledAt, cp_scheduled_offset := scheduledOffset,
       cp_started_at := startedAt, cp_next_batch_at := nextBatchAt, cp_updated_at := Some now\<rparr>"

definition Launch ::
    "time \<Rightarrow> string \<Rightarrow> string \<Rightarrow> camp_status \<Rightarrow> time option \<Rightarrow> int option \<Rightarrow> time option \<Rightarrow> time option \<Rightarrow> cworld \<Rightarrow>
     (camp_db, bool) answer" where
  "Launch now projID i st scheduledAt scheduledOffset startedAt nextBatchAt w =
     moved (Run (update_camps (\<lambda>c. camp_is projID i c \<and> cp_status c \<in> {CampDraft, CampScheduled})
       (launch_row now st scheduledAt scheduledOffset startedAt nextBatchAt)) w)"

definition TransitionStatus :: "time \<Rightarrow> string \<Rightarrow> string \<Rightarrow> camp_status \<Rightarrow> camp_status list \<Rightarrow> cworld \<Rightarrow> (camp_db, bool) answer" where
  "TransitionStatus now projID i to froms w =
     (if froms = [] then (Inl ''transition requires at least one from state'', w)
      else moved (Run (update_camps (\<lambda>c. camp_is projID i c \<and> cp_status c \<in> set froms)
             (\<lambda>c. c\<lparr>cp_status := to, cp_updated_at := Some now\<rparr>)) w))"

definition run_state_row :: "time \<Rightarrow> camp_status \<Rightarrow> time option \<Rightarrow> time option \<Rightarrow> time option \<Rightarrow> campaign \<Rightarrow> campaign" where
  "run_state_row now st startedAt completedAt nextBatchAt c =
     c\<lparr>cp_status := st, cp_started_at := (if startedAt = None then cp_started_at c else startedAt),
       cp_completed_at := completedAt, cp_next_batch_at := nextBatchAt, cp_updated_at := Some now\<rparr>"

definition SetRunState ::
    "time \<Rightarrow> string \<Rightarrow> camp_status \<Rightarrow> time option \<Rightarrow> time option \<Rightarrow> time option \<Rightarrow> camp_status list \<Rightarrow> cworld \<Rightarrow> (camp_db, bool) answer" where
  "SetRunState now i st startedAt completedAt nextBatchAt froms w =
     (if froms = [] then (Inl ''set run state requires at least one from state'', w)
      else moved (Run (update_camps (\<lambda>c. cp_id c = i \<and> cp_status c \<in> set froms)
             (run_state_row now st startedAt completedAt nextBatchAt)) w))"

definition StatusOf :: "string \<Rightarrow> string \<Rightarrow> cworld \<Rightarrow> (camp_db, camp_status option) answer" where
  "StatusOf projID i = Read (\<lambda>s. map_option cp_status (find (camp_is projID i) (cd_campaigns s)))"

definition scheduled_due :: "time \<Rightarrow> campaign \<Rightarrow> bool" where
  "scheduled_due now c =
     (cp_status c = CampScheduled \<and>
      (case cp_scheduled_at c of
         None \<Rightarrow> False
       | Some t \<Rightarrow> t \<le> now \<or>
           cp_local_time c \<and> t + (case cp_scheduled_offset c of None \<Rightarrow> 0 | Some z \<Rightarrow> z) * 1000000000 - 14 * hour \<le> now))"

definition PromoteScheduled :: "time \<Rightarrow> cworld \<Rightarrow> (camp_db, nat) answer" where
  "PromoteScheduled now =
     Run (update_camps (scheduled_due now)
       (\<lambda>c. c\<lparr>cp_status := CampSending, cp_started_at := Some now, cp_next_batch_at := Some now, cp_updated_at := Some now\<rparr>))"

text \<open>
  Of the sending campaigns whose next batch is due, the one due longest, those with no time last; rows
  other nodes hold are stepped over, and \<open>tie\<close> is the order the database takes rows of one time in.
\<close>

definition camp_due :: "time \<Rightarrow> campaign \<Rightarrow> bool" where
  "camp_due now c = (cp_status c = CampSending \<and> (case cp_next_batch_at c of None \<Rightarrow> True | Some t \<Rightarrow> t \<le> now))"

definition due_order :: "campaign \<Rightarrow> bool \<times> time" where
  "due_order c = (case cp_next_batch_at c of None \<Rightarrow> (True, 0) | Some t \<Rightarrow> (False, t))"

definition next_due :: "(campaign list \<Rightarrow> campaign list) \<Rightarrow> time \<Rightarrow> string set \<Rightarrow> camp_db \<Rightarrow> campaign option" where
  "next_due tie now locked s =
     (case sort_key due_order (tie (filter (\<lambda>c. camp_due now c \<and> cp_id c \<notin> locked) (cd_campaigns s))) of
        [] \<Rightarrow> None | c # _ \<Rightarrow> Some c)"

definition ClaimDueCampaign ::
    "(campaign list \<Rightarrow> campaign list) \<Rightarrow> time \<Rightarrow> int \<Rightarrow> string set \<Rightarrow> cworld \<Rightarrow> (camp_db, campaign option) answer" where
  "ClaimDueCampaign tie now leaseFor locked w =
     andThen (Run (\<lambda>s. case next_due tie now locked s of
         None \<Rightarrow> (s, None)
       | Some c \<Rightarrow> (fst (update_camps (\<lambda>k. cp_id k = cp_id c) (\<lambda>k. k\<lparr>cp_next_batch_at := Some (now + leaseFor)\<rparr>) s), Some (cp_id c))) w)
       (\<lambda>i w. case i of None \<Rightarrow> Return None w | Some i \<Rightarrow> GetAnyCampaign i w)"

section \<open>Statements on messages\<close>

definition of_camp :: "string \<Rightarrow> msg_status \<Rightarrow> camp_message \<Rightarrow> bool" where
  "of_camp i st m = (cg_campaign_id m = i \<and> cg_status m = st)"

definition update_msgs :: "(camp_message \<Rightarrow> bool) \<Rightarrow> (camp_message \<Rightarrow> camp_message) \<Rightarrow> camp_db \<Rightarrow> camp_db \<times> nat" where
  "update_msgs p f s = (s\<lparr>cd_messages := sql_update p f (cd_messages s)\<rparr>, sql_count p (cd_messages s))"

definition same_person :: "camp_message \<Rightarrow> camp_message \<Rightarrow> bool" where
  "same_person m k = (cg_campaign_id k = cg_campaign_id m \<and> cg_subscriber_id k = cg_subscriber_id m)"

fun insert_msgs :: "camp_message list \<Rightarrow> camp_message list \<Rightarrow> camp_message list" where
  "insert_msgs [] ms = ms"
| "insert_msgs (n # ns) ms = insert_msgs ns (if list_ex (same_person n) ms then ms else ms @ [n])"

definition fanOutChunk :: nat where "fanOutChunk = 5000"

fun chunks :: "nat \<Rightarrow> 'a list \<Rightarrow> 'a list list" where
  "chunks n xs = (if xs = [] \<or> n = 0 then [] else take n xs # chunks n (drop n xs))"

declare chunks.simps [simp del]

fun insert_chunks :: "camp_message list list \<Rightarrow> cworld \<Rightarrow> (camp_db, unit \<times> bool) answer" where
  "insert_chunks [] w = Return ((), True) w"
| "insert_chunks (c # cs) w =
     andThen (Run (\<lambda>s. (s\<lparr>cd_messages := insert_msgs c (cd_messages s)\<rparr>, ())) w) (\<lambda>_. insert_chunks cs)"

text \<open>The rows get ids and the instant of the fan-out.\<close>

definition BulkCreateMessages :: "time \<Rightarrow> (nat \<Rightarrow> string) \<Rightarrow> camp_message list \<Rightarrow> cworld \<Rightarrow> (camp_db, unit) answer" where
  "BulkCreateMessages now ids msgs =
     Transaction (insert_chunks (chunks fanOutChunk
       (map (\<lambda>(k, m). m\<lparr>cg_id := ids k, cg_created_at := now\<rparr>) (enumerate 0 msgs))))"

definition HasMessages :: "string \<Rightarrow> cworld \<Rightarrow> (camp_db, bool) answer" where
  "HasMessages i = Read (\<lambda>s. 0 < sql_count (\<lambda>m. cg_campaign_id m = i) (cd_messages s))"

definition due_msg :: "string \<Rightarrow> time \<Rightarrow> camp_message \<Rightarrow> bool" where
  "due_msg i now m = (of_camp i MsgPending m \<and> (case cg_deliver_at m of None \<Rightarrow> True | Some t \<Rightarrow> t \<le> now))"

text \<open>The rows of one fan-out share their instant: \<open>tie\<close> is the order the database takes them in.\<close>

definition PendingDue ::
    "(camp_message list \<Rightarrow> camp_message list) \<Rightarrow> string \<Rightarrow> time \<Rightarrow> int \<Rightarrow> cworld \<Rightarrow> (camp_db, camp_message list) answer" where
  "PendingDue tie i now limit =
     Read (\<lambda>s. take (nat limit) (sort_key cg_created_at (tie (filter (due_msg i now) (cd_messages s)))))"

definition CountPending :: "string \<Rightarrow> cworld \<Rightarrow> (camp_db, nat) answer" where
  "CountPending i = Read (\<lambda>s. sql_count (of_camp i MsgPending) (cd_messages s))"

definition NextDeliverAt :: "string \<Rightarrow> cworld \<Rightarrow> (camp_db, time option) answer" where
  "NextDeliverAt i =
     Read (\<lambda>s. case List.map_filter cg_deliver_at (filter (of_camp i MsgPending) (cd_messages s)) of
                 [] \<Rightarrow> None | t # ts \<Rightarrow> Some (foldl min t ts))"

definition UpdateMessage :: "string \<Rightarrow> msg_status \<Rightarrow> error \<Rightarrow> string \<Rightarrow> cworld \<Rightarrow> (camp_db, unit) answer" where
  "UpdateMessage i st err emailID =
     Run (\<lambda>s. (fst (update_msgs (\<lambda>m. cg_id m = i)
       (\<lambda>m. m\<lparr>cg_email_id := (if emailID = [] then cg_email_id m else emailID), cg_status := st, cg_error := err\<rparr>) s), ()))"

definition QueueMessage :: "string \<Rightarrow> string \<Rightarrow> cworld \<Rightarrow> (camp_db, bool) answer" where
  "QueueMessage i emailID w =
     moved (Run (update_msgs (\<lambda>m. cg_id m = i \<and> cg_status m = MsgPending)
       (\<lambda>m. m\<lparr>cg_email_id := emailID, cg_status := MsgQueued, cg_error := []\<rparr>)) w)"

definition MarkMessageByEmail :: "time \<Rightarrow> string \<Rightarrow> msg_status \<Rightarrow> error \<Rightarrow> cworld \<Rightarrow> (camp_db, string) answer" where
  "MarkMessageByEmail now emailID st err =
     Run (\<lambda>s. let p = (\<lambda>m. cg_email_id m = emailID \<and> emailID \<noteq> []) in
       (fst (update_msgs p (\<lambda>m. m\<lparr>cg_status := st, cg_error := err, cg_sent_at := (if st = MsgSent then Some now else None)\<rparr>) s),
        case find p (cd_messages s) of None \<Rightarrow> [] | Some m \<Rightarrow> cg_campaign_id m))"

definition settled_now :: "string \<Rightarrow> string \<Rightarrow> camp_db \<Rightarrow> campaign \<Rightarrow> bool" where
  "settled_now projID i s c =
     (camp_is projID i c \<and> cp_status c = CampSent \<and> cp_settled_at c = None \<and>
      \<not> list_ex (\<lambda>m. cg_campaign_id m = i \<and> cg_status m \<in> {MsgPending, MsgQueued}) (cd_messages s))"

definition ClaimSettled :: "time \<Rightarrow> string \<Rightarrow> string \<Rightarrow> cworld \<Rightarrow> (camp_db, bool) answer" where
  "ClaimSettled now projID i w =
     moved (Run (\<lambda>s. update_camps (settled_now projID i s) (\<lambda>c. c\<lparr>cp_settled_at := Some now\<rparr>) s) w)"

definition SkipPending :: "string \<Rightarrow> error \<Rightarrow> cworld \<Rightarrow> (camp_db, nat) answer" where
  "SkipPending i reason =
     Run (update_msgs (of_camp i MsgPending) (\<lambda>m. m\<lparr>cg_status := MsgSkipped, cg_error := reason\<rparr>))"

definition MessageStats :: "string \<Rightarrow> cworld \<Rightarrow> (camp_db, msg_status \<Rightarrow> nat) answer" where
  "MessageStats i = Read (\<lambda>s st. sql_count (of_camp i st) (cd_messages s))"

definition MarkOpened_msg :: "string \<Rightarrow> time \<Rightarrow> cworld \<Rightarrow> (camp_db, bool) answer" where
  "MarkOpened_msg i t w =
     moved (Run (update_msgs (\<lambda>m. cg_id m = i \<and> cg_opened_at m = None) (\<lambda>m. m\<lparr>cg_opened_at := Some t\<rparr>)) w)"

definition MarkClicked_msg :: "string \<Rightarrow> time \<Rightarrow> cworld \<Rightarrow> (camp_db, unit) answer" where
  "MarkClicked_msg i t w =
     andThen (Run (update_msgs (\<lambda>m. cg_id m = i \<and> cg_clicked_at m = None) (\<lambda>m. m\<lparr>cg_clicked_at := Some t\<rparr>)) w) (\<lambda>_ w.
     andThen (MarkOpened_msg i t w) (\<lambda>_. Return ()))"

definition MarkUnsubscribed_msg :: "string \<Rightarrow> time \<Rightarrow> cworld \<Rightarrow> (camp_db, bool) answer" where
  "MarkUnsubscribed_msg i t w =
     moved (Run (update_msgs (\<lambda>m. cg_id m = i \<and> cg_unsubscribed_at m = None) (\<lambda>m. m\<lparr>cg_unsubscribed_at := Some t\<rparr>)) w)"

section \<open>The end of a campaign\<close>

definition Finish :: "time \<Rightarrow> string \<Rightarrow> string \<Rightarrow> cworld \<Rightarrow> (camp_db, unit) answer" where
  "Finish now projID i w =
     (if i = [] then Return () w
      else andThen (ClaimSettled now projID i w) (\<lambda>won w.
        if \<not> won then Return () w
        else andThen (GetCampaign projID i w) (\<lambda>c w.
          if c = None then Return () w
          else andThen (MessageStats i w) (\<lambda>_ w.
            Return () (notify_of TypeCampaignDone i (announce EventCampaignCompleted i w))))))"

definition Settle :: "time \<Rightarrow> string \<Rightarrow> string \<Rightarrow> msg_status \<Rightarrow> error \<Rightarrow> cworld \<Rightarrow> (camp_db, unit) answer" where
  "Settle now projID emailID st err w =
     andThen (MarkMessageByEmail now emailID st err w) (\<lambda>i. Finish now projID i)"

section \<open>What an operator asks\<close>

record campaign_input =
  ci_name :: string
  ci_subject :: string
  ci_from_email :: string
  ci_from_name :: string
  ci_reply_to :: string
  ci_template_id :: string
  ci_language :: string
  ci_template_data :: "string \<rightharpoonup> field_value"
  ci_list_id :: string
  ci_headers :: headers
  ci_smtp_group :: string
  ci_send_rate :: int
  ci_local_time :: bool
  ci_ab_enabled :: bool
  ci_variants :: "variant list"
  ci_unsubscribe_disabled :: bool
  ci_disable_signing :: bool

text \<open>
  What the template store answers of a template of a project: an error, nothing, or whether it has an
  active version.  \<open>parsed\<close> is the request's time of launch.
\<close>

type_synonym templates = "string \<Rightarrow> string \<Rightarrow> error + bool option"

datatype launch_time = AtOnce | Malformed | AtTime time int

fun variants_fault :: "templates \<Rightarrow> string \<Rightarrow> string set \<Rightarrow> int \<Rightarrow> variant list \<Rightarrow> 'a response option" where
  "variants_fault tv projID seen acc [] =
     (if 100 < acc then Some (BadRequest ''variant split percentages exceed 100'') else None)"
| "variants_fault tv projID seen acc (v # vs) =
     (if va_name v \<in> seen then Some (BadRequest (''duplicate variant name '' @ va_name v))
      else (let go = variants_fault tv projID (insert (va_name v) seen) (acc + va_split v) vs in
        if va_template_id v = [] then go
        else (case tv projID (va_template_id v) of
                Inl e \<Rightarrow> Some (Internal e)
              | Inr None \<Rightarrow> Some (NotFound (''variant template not found: '' @ va_name v))
              | Inr (Some False) \<Rightarrow> Some (BadRequest (''variant template has no active version: '' @ va_name v))
              | Inr (Some True) \<Rightarrow> go)))"

definition group_id_of :: "string \<Rightarrow> string \<Rightarrow> cworld \<Rightarrow> ('a response + string) \<times> cworld" where
  "group_id_of projID slug w =
     (if slug = [] then (Inr [], w)
      else (case in_mail (in_proc (in_smtp (GetBySlug projID slug))) w of
              (Inl e, w) \<Rightarrow> (Inl (Internal e), w)
            | (Inr None, w) \<Rightarrow> (Inl (BadRequest (''smtp server group '' @ slug @ '' does not exist'')), w)
            | (Inr (Some g), w) \<Rightarrow> (Inr (gp_id g), w)))"

text \<open>The refusal, or the id of the group the input names.\<close>

definition validateCampaignRefs :: "templates \<Rightarrow> string \<Rightarrow> campaign_input \<Rightarrow> cworld \<Rightarrow> ('a response + string) \<times> cworld" where
  "validateCampaignRefs tv projID inp w =
     (case ValidateHeaders (ci_headers inp) of
        Some e \<Rightarrow> (Inl (BadRequest (fault_text e)), w)
      | None \<Rightarrow>
          (case tv projID (ci_template_id inp) of
             Inl e \<Rightarrow> (Inl (Internal e), w)
           | Inr None \<Rightarrow> (Inl (NotFound ''template not found''), w)
           | Inr (Some False) \<Rightarrow> (Inl (BadRequest ''template has no active version''), w)
           | Inr (Some True) \<Rightarrow>
               (case group_id_of projID (ci_smtp_group inp) w of
                  (Inl r, w) \<Rightarrow> (Inl r, w)
                | (Inr g, w) \<Rightarrow>
                    (case in_audience (GetSubscriberList projID (ci_list_id inp)) w of
                       (Inl e, w) \<Rightarrow> (Inl (Internal e), w)
                     | (Inr None, w) \<Rightarrow> (Inl (NotFound ''subscriber list not found''), w)
                     | (Inr (Some l), w) \<Rightarrow>
                         if ci_ab_enabled inp then
                           (if length (ci_variants inp) < 2 then (Inl (BadRequest ''ab testing requires at least two variants''), w)
                            else (case variants_fault tv projID {} 0 (ci_variants inp) of
                                    Some r \<Rightarrow> (Inl r, w) | None \<Rightarrow> (Inr g, w)))
                         else (Inr g, w)))))"

definition toModel :: "campaign_input \<Rightarrow> string \<Rightarrow> string \<Rightarrow> string \<Rightarrow> string \<Rightarrow> time \<Rightarrow> campaign" where
  "toModel inp projID grp i createdBy createdAt =
     \<lparr>cp_id = i, cp_project_id = projID, cp_created_by = createdBy, cp_name = ci_name inp, cp_subject = ci_subject inp,
      cp_from_email = ci_from_email inp, cp_from_name = ci_from_name inp, cp_reply_to = ci_reply_to inp,
      cp_template_id = ci_template_id inp, cp_language = ci_language inp, cp_template_data = ci_template_data inp,
      cp_headers = ci_headers inp, cp_status = CampDraft, cp_list_id = ci_list_id inp, cp_smtp_group_id = grp,
      cp_send_rate = ci_send_rate inp, cp_local_time = ci_local_time inp, cp_ab_enabled = ci_ab_enabled inp,
      cp_variants = ci_variants inp, cp_unsubscribe_disabled = ci_unsubscribe_disabled inp,
      cp_disable_signing = ci_disable_signing inp, cp_scheduled_at = None, cp_scheduled_offset = None, cp_started_at = None,
      cp_completed_at = None, cp_next_batch_at = None, cp_settled_at = None, cp_created_at = createdAt, cp_updated_at = None\<rparr>"

definition reread :: "campaign \<Rightarrow> (campaign \<Rightarrow> campaign response) \<Rightarrow> cworld \<Rightarrow> campaign response \<times> cworld" where
  "reread c k w =
     Answer (GetCampaign (cp_project_id c) (cp_id c) w) (\<lambda>fresh w. (k (case fresh of None \<Rightarrow> c | Some f \<Rightarrow> f), w))"

definition CreateCampaign :: "templates \<Rightarrow> time \<Rightarrow> string \<Rightarrow> string \<Rightarrow> string \<Rightarrow> campaign_input \<Rightarrow> cworld \<Rightarrow> campaign response \<times> cworld" where
  "CreateCampaign tv now new_id userID projID inp w =
     (case validateCampaignRefs tv projID inp w of
        (Inl r, w) \<Rightarrow> (r, w)
      | (Inr g, w) \<Rightarrow>
          (let c = toModel inp projID g new_id userID now in Answer (PutCampaign c w) (\<lambda>_. reread c Ok)))"

text \<open>\<open>bind\<close> lays the request's body over the stored campaign's own input.\<close>

definition UpdateCampaign ::
    "templates \<Rightarrow> time \<Rightarrow> string \<Rightarrow> string \<Rightarrow> (campaign \<Rightarrow> campaign_input) \<Rightarrow> cworld \<Rightarrow> campaign response \<times> cworld" where
  "UpdateCampaign tv now projID i bind w =
     Answer (GetCampaign projID i w) (\<lambda>c w.
       case c of
         None \<Rightarrow> (NotFound ''campaign not found'', w)
       | Some c \<Rightarrow>
           if cp_status c \<noteq> CampDraft then (Conflict ''only draft campaigns can be edited'', w)
           else (case validateCampaignRefs tv projID (bind c) w of
                   (Inl r, w) \<Rightarrow> (r, w)
                 | (Inr g, w) \<Rightarrow>
                     (let u = (toModel (bind c) projID g (cp_id c) (cp_created_by c) (cp_created_at c))
                            \<lparr>cp_status := cp_status c, cp_updated_at := Some now\<rparr>
                      in Answer (PutCampaign u w) (\<lambda>_. reread u Ok))))"

definition DeleteCampaignHandler :: "string \<Rightarrow> string \<Rightarrow> cworld \<Rightarrow> campaign response \<times> cworld" where
  "DeleteCampaignHandler projID i w =
     Answer (GetCampaign projID i w) (\<lambda>c w.
       case c of
         None \<Rightarrow> (NotFound ''campaign not found'', w)
       | Some c \<Rightarrow>
           if cp_status c \<notin> {CampDraft, CampCancelled} then (Conflict ''only draft or cancelled campaigns can be deleted'', w)
           else Answer (DeleteCampaign projID (cp_id c) w) (\<lambda>_ w. (NoContent, w)))"

fun failure_text :: "send_failure \<Rightarrow> error" where
  "failure_text (Rejected e) = e"
| "failure_text (Conflicting e) = e"
| "failure_text (OverQuota e) = e"
| "failure_text (Broken e) = e"

definition finished_text :: error where "finished_text = ''campaign is already running or finished''"

definition launch_at :: "time \<Rightarrow> string \<Rightarrow> campaign \<Rightarrow> cworld \<Rightarrow> campaign response \<times> cworld" where
  "launch_at now projID c w =
     Answer (Launch now projID (cp_id c) (cp_status c) (cp_scheduled_at c) (cp_scheduled_offset c) (cp_started_at c) (cp_next_batch_at c) w)
       (\<lambda>ok w. (if ok then Ok c else Conflict finished_text, w))"

definition SendCampaign ::
    "service \<Rightarrow> time \<Rightarrow> string \<Rightarrow> string \<Rightarrow> launch_time \<Rightarrow> cworld \<Rightarrow> campaign response \<times> cworld" where
  "SendCampaign sv now projID i at w =
     Answer (GetCampaign projID i w) (\<lambda>c w.
       case c of
         None \<Rightarrow> (NotFound ''campaign not found'', w)
       | Some c \<Rightarrow>
           if cp_status c \<notin> {CampDraft, CampScheduled} then (Conflict finished_text, w)
           else if sv_tracking sv = None then
             (BadRequest ''campaigns need a public URL to mint tracking and unsubscribe links - set server.public_url, otherwise this would send bulk mail with no List-Unsubscribe header and land in spam'', w)
           else (case in_mail (require_sender sv projID (cp_from_email c)) w of
                   (Inl e, w) \<Rightarrow> (BadRequest (failure_text e), w)
                 | (Inr _, w) \<Rightarrow>
                     Answer (in_audience (GetSubscriberList projID (cp_list_id c)) w) (\<lambda>l w.
                       if l = None then (BadRequest ''the campaign's subscriber list no longer exists'', w)
                       else (case at of
                               Malformed \<Rightarrow> (BadRequest ''scheduled_at must be an RFC 3339 timestamp'', w)
                             | AtTime t offset \<Rightarrow>
                                 if t < now then (BadRequest ''scheduled_at is in the past'', w)
                                 else launch_at now projID (c\<lparr>cp_status := CampScheduled, cp_scheduled_at := Some t,
                                        cp_scheduled_offset := Some offset, cp_updated_at := Some now\<rparr>) w
                             | AtOnce \<Rightarrow>
                                 launch_at now projID (c\<lparr>cp_status := CampSending, cp_started_at := Some now,
                                   cp_next_batch_at := Some now, cp_updated_at := Some now\<rparr>) w))))"

definition respondWith :: "string \<Rightarrow> string \<Rightarrow> cworld \<Rightarrow> campaign response \<times> cworld" where
  "respondWith projID i w =
     Answer (GetCampaign projID i w) (\<lambda>c w. (case c of None \<Rightarrow> NotFound ''campaign not found'' | Some c \<Rightarrow> Ok c, w))"

definition refuseTransition :: "string \<Rightarrow> string \<Rightarrow> error \<Rightarrow> cworld \<Rightarrow> campaign response \<times> cworld" where
  "refuseTransition projID i msg w =
     Answer (GetCampaign projID i w) (\<lambda>c w. (case c of None \<Rightarrow> NotFound ''campaign not found'' | Some c \<Rightarrow> Conflict msg, w))"

definition PauseCampaign :: "time \<Rightarrow> string \<Rightarrow> string \<Rightarrow> cworld \<Rightarrow> campaign response \<times> cworld" where
  "PauseCampaign now projID i w =
     Answer (TransitionStatus now projID i CampPaused [CampSending] w) (\<lambda>ok.
       if ok then respondWith projID i else refuseTransition projID i ''campaign is not sending'')"

definition ResumeCampaign :: "time \<Rightarrow> string \<Rightarrow> string \<Rightarrow> cworld \<Rightarrow> campaign response \<times> cworld" where
  "ResumeCampaign now projID i w =
     Answer (GetCampaign projID i w) (\<lambda>c w.
       case c of
         None \<Rightarrow> (NotFound ''campaign not found'', w)
       | Some c \<Rightarrow>
           Answer (TransitionStatus now projID (cp_id c) CampSending [CampPaused] w) (\<lambda>ok w.
             if \<not> ok then (Conflict ''campaign is not paused'', w)
             else (let at = (case cp_next_batch_at c of Some t \<Rightarrow> if 0 < cp_send_rate c \<and> now < t then t else now | None \<Rightarrow> now) in
               Answer (SetRunState now (cp_id c) CampSending None None (Some at) [CampSending] w)
                 (\<lambda>_. respondWith projID i))))"

definition CancelCampaign :: "time \<Rightarrow> string \<Rightarrow> string \<Rightarrow> cworld \<Rightarrow> campaign response \<times> cworld" where
  "CancelCampaign now projID i w =
     Answer (TransitionStatus now projID i CampCancelled [CampScheduled, CampSending, CampPaused] w) (\<lambda>ok w.
       if \<not> ok then refuseTransition projID i ''campaign cannot be cancelled from its current state'' w
       else Answer (SkipPending i ''campaign cancelled'' w) (\<lambda>_. respondWith projID i))"

definition DuplicateCampaign :: "time \<Rightarrow> string \<Rightarrow> string option \<Rightarrow> string \<Rightarrow> string \<Rightarrow> cworld \<Rightarrow> campaign response \<times> cworld" where
  "DuplicateCampaign now new_id userID projID i w =
     Answer (GetCampaign projID i w) (\<lambda>c w.
       case c of
         None \<Rightarrow> (NotFound ''campaign not found'', w)
       | Some c \<Rightarrow>
           (let d = c\<lparr>cp_id := new_id, cp_name := cp_name c @ '' (copy)'', cp_status := CampDraft, cp_scheduled_at := None,
                    cp_scheduled_offset := None, cp_started_at := None, cp_completed_at := None, cp_next_batch_at := None,
                    cp_created_at := now, cp_updated_at := None,
                    cp_created_by := (case userID of None \<Rightarrow> cp_created_by c | Some u \<Rightarrow> u)\<rparr>
            in Answer (PutCampaign d w) (\<lambda>_. reread d Ok)))"

end
