(* ===== verification/Runner.thy ===== *)
theory Runner
  imports Campaigns
begin

text \<open>
  The campaign runner (\<^verbatim>\<open>internal/domain/campaign/runner.go\<close>): the fan-out of an audience into messages,
  batches of messages handed to the accept path, and the loop that takes one due campaign after the
  other.  Templates and their rendering, the tracking links, the files of a template (with the page that
  names its images), time zones, the shuffle of an audience and the signals to stop are arguments.
\<close>

section \<open>What the runner is given\<close>

record rendered =
  re_subject :: string
  re_html :: string
  re_text :: string

text \<open>A template in one language: its name, and what it makes of data.\<close>

record loaded =
  lo_name :: string
  lo_render :: "(string \<rightharpoonup> field_value) \<Rightarrow> error + rendered"

record camp_tracker =
  ck_web_view :: "string \<Rightarrow> string"
  ck_unsubscribe :: "string \<Rightarrow> string"
  ck_process :: "string \<Rightarrow> string \<Rightarrow> string \<Rightarrow> string \<times> (string \<times> string) list"

record runner =
  ru_service :: service
  ru_tracking :: "camp_tracker option"
  ru_batch_size :: int
  ru_poll_interval :: time
  ru_reading :: reading
  ru_resolve :: "string \<Rightarrow> string \<Rightarrow> string \<Rightarrow> error + loaded"
  ru_subject :: "string \<Rightarrow> (string \<rightharpoonup> field_value) \<Rightarrow> error + string"
  ru_attach :: "loaded \<Rightarrow> string \<Rightarrow> error + attachment list \<times> string"
  ru_local :: "time \<Rightarrow> int option \<Rightarrow> string \<Rightarrow> time option"
  ru_shuffle :: "camp_message list \<Rightarrow> camp_message list"
  ru_tie_members :: tie
  ru_tie_campaigns :: "campaign list \<Rightarrow> campaign list"
  ru_tie_messages :: "camp_message list \<Rightarrow> camp_message list"

text \<open>One batch: the readings of its clock, the ids it draws and whether it is told to stop before a message.\<close>

record batch_run =
  ba_claim :: time
  ba_due :: time
  ba_fan :: time
  ba_next :: time
  ba_floor :: time
  ba_write :: time
  ba_send :: "nat \<Rightarrow> instants"
  ba_ids :: "nat \<Rightarrow> string"
  ba_email :: "nat \<Rightarrow> string"
  ba_stop :: "nat \<Rightarrow> bool"
  ba_meantime :: meantime
  ba_locked :: "string set"

definition claimLease :: time where "claimLease = 2 * 60000000000"
definition msgOptedOut :: error where "msgOptedOut = ''opted out of the list''"

section \<open>Fan-out\<close>

definition new_message :: "campaign \<Rightarrow> subscriber \<Rightarrow> camp_message" where
  "new_message c x =
     \<lparr>cg_id = [], cg_campaign_id = cp_id c, cg_subscriber_id = sb_id x, cg_email_id = [], cg_status = MsgPending,
      cg_error = [], cg_variant = [], cg_deliver_at = None, cg_sent_at = None, cg_opened_at = None,
      cg_clicked_at = None, cg_unsubscribed_at = None, cg_created_at = 0\<rparr>"

definition localDeliverAt :: "runner \<Rightarrow> campaign \<Rightarrow> subscriber \<Rightarrow> time option" where
  "localDeliverAt ru c x =
     (case (case cp_scheduled_at c of None \<Rightarrow> cp_started_at c | Some t \<Rightarrow> Some t) of
        None \<Rightarrow> None
      | Some t \<Rightarrow>
          if sb_timezone x = [] then Some t
          else (case ru_local ru t (if cp_scheduled_at c \<noteq> None then cp_scheduled_offset c else None) (sb_timezone x) of
                  None \<Rightarrow> Some t | Some u \<Rightarrow> Some u))"

text \<open>Each variant takes its share of what is left, at least one message, and the last takes the rest.\<close>

fun slice_variants :: "nat \<Rightarrow> variant list \<Rightarrow> camp_message list \<Rightarrow> camp_message list" where
  "slice_variants n [] ms = ms"
| "slice_variants n (v # vs) ms =
     (let share = nat (int n * va_split v div 100); count = (if share = 0 then 1 else share)
      in map (\<lambda>m. m\<lparr>cg_variant := va_name v\<rparr>) (take count ms) @
         (if vs = [] then map (\<lambda>m. m\<lparr>cg_variant := va_name v\<rparr>) (drop count ms) else slice_variants n vs (drop count ms)))"

definition assignVariants :: "runner \<Rightarrow> campaign \<Rightarrow> camp_message list \<Rightarrow> camp_message list" where
  "assignVariants ru c ms =
     (if \<not> cp_ab_enabled c \<or> cp_variants c = [] \<or> ms = [] then ms
      else slice_variants (length ms) (cp_variants c) (ru_shuffle ru ms))"

definition fan_messages :: "runner \<Rightarrow> campaign \<Rightarrow> subscriber list \<Rightarrow> subscriber list \<Rightarrow> camp_message list" where
  "fan_messages ru c recipients optedOut =
     assignVariants ru c (map (\<lambda>x. if cp_local_time c then (new_message c x)\<lparr>cg_deliver_at := localDeliverAt ru c x\<rparr>
                                   else new_message c x) recipients) @
     map (\<lambda>x. (new_message c x)\<lparr>cg_status := MsgSkipped, cg_error := msgOptedOut\<rparr>) optedOut"

text \<open>Whether it fanned out, or found the list gone; \<open>None\<close> when the walk over the audience does not end.\<close>

definition in_audience_opt ::
    "(uworld \<Rightarrow> (audience_db, 'a) answer option) \<Rightarrow> cworld \<Rightarrow> (camp_db, 'a) answer option" where
  "in_audience_opt m w =
     map_option (\<lambda>(r, (t, fs)). (r, ((fst w)\<lparr>cd_audience := t\<rparr>, fs))) (m (cd_audience (fst w), snd w))"

definition fanOut :: "runner \<Rightarrow> batch_run \<Rightarrow> campaign \<Rightarrow> cworld \<Rightarrow> (camp_db, bool) answer option" where
  "fanOut ru ba c w =
     (case in_audience (GetSubscriberList (cp_project_id c) (cp_list_id c)) w of
        (Inl e, w) \<Rightarrow> Some (Inl e, w)
      | (Inr None, w) \<Rightarrow> Some (Inr False, w)
      | (Inr (Some l), w) \<Rightarrow>
          map_option (\<lambda>r. andThen r (\<lambda>(recipients, optedOut) w.
              let ms = fan_messages ru c recipients optedOut in
              andThen (if ms = [] then Return () w else BulkCreateMessages (ba_fan ba) (ba_ids ba) ms w) (\<lambda>_ w.
                Return True (notify_of TypeCampaignStarted (cp_id c) (announce EventCampaignStarted (cp_id c) w)))))
            (in_audience_opt (ResolveAudience (ru_reading ru) (ba_meantime ba) (ru_tie_members ru) (cp_project_id c) l) w))"

section \<open>One message\<close>

definition resolveVariant :: "campaign \<Rightarrow> string \<Rightarrow> string \<times> string" where
  "resolveVariant c variant =
     (if \<not> cp_ab_enabled c \<or> variant = [] then (cp_template_id c, [])
      else (case find (\<lambda>v. va_name v = variant) (cp_variants c) of
              None \<Rightarrow> (cp_template_id c, [])
            | Some v \<Rightarrow> (if va_template_id v \<noteq> [] then va_template_id v else cp_template_id c, va_subject v)))"

definition WithSystemVars :: "(string \<rightharpoonup> field_value) \<Rightarrow> string \<rightharpoonup> field_value" where
  "WithSystemVars d =
     d(''mailyard_web_view_url'' \<mapsto> Text webViewPlaceholder, ''mailyard_mail_web_link'' \<mapsto> Text webViewPlaceholder,
       ''mailyard_unsubscribe_url'' \<mapsto> Text unsubscribePlaceholder)"

definition subscriber_data :: "campaign \<Rightarrow> subscriber \<Rightarrow> string \<rightharpoonup> field_value" where
  "subscriber_data c x =
     WithSystemVars ((cp_template_data c ++ sb_custom_fields x)(''email'' \<mapsto> Text (sb_email x), ''name'' \<mapsto> Text (sb_name x)))"

definition renderForSubscriber :: "runner \<Rightarrow> campaign \<Rightarrow> string \<Rightarrow> subscriber \<Rightarrow> error + rendered \<times> loaded" where
  "renderForSubscriber ru c variant x =
     (let (templateID, variantSubject) = resolveVariant c variant;
          data = subscriber_data c x;
          language = (if sb_language x \<noteq> [] then sb_language x else cp_language c)
      in case ru_resolve ru (cp_project_id c) templateID language of
           Inl e \<Rightarrow> Inl e
         | Inr t \<Rightarrow>
             (case lo_render t data of
                Inl e \<Rightarrow> Inl e
              | Inr out \<Rightarrow>
                  (let subject = (if variantSubject = [] then re_subject out
                                  else (case ru_subject ru variantSubject data of Inl _ \<Rightarrow> variantSubject | Inr v \<Rightarrow> v))
                   in Inr (out\<lparr>re_subject := (if subject = [] then cp_subject c else subject)\<rparr>, t))))"

definition camp_request :: "runner \<Rightarrow> campaign \<Rightarrow> subscriber \<Rightarrow> rendered \<Rightarrow> loaded \<Rightarrow> send_request" where
  "camp_request ru c x out t =
     \<lparr>rq_id = [], rq_from = (if cp_from_name c \<noteq> [] then FormatAddress (sv_print (ru_service ru)) (cp_from_name c) (cp_from_email c)
                             else cp_from_email c),
      rq_credential_id = [], rq_to = [sb_email x], rq_header_to = [], rq_cc = [], rq_reply_to = cp_reply_to c,
      rq_subject = re_subject out, rq_html = re_html out, rq_text = re_text out, rq_headers = cp_headers c, rq_tags = [],
      rq_metadata = Map.empty, rq_attachments = [], rq_send_at = None, rq_template_name = lo_name t,
      rq_unsubscribe_url = [], rq_unsubscribe_mailto = [], rq_unsubscribe_post = False, rq_unsubscribe_list_id = [],
      rq_track_off = False, rq_disable_signing = cp_disable_signing c, rq_tracked = False,
      rq_route = \<lparr>rt_server_id = [], rt_group_id = cp_smtp_group_id c\<rparr>, rq_system = False\<rparr>"

definition substituted :: "string \<Rightarrow> string \<Rightarrow> send_request \<Rightarrow> send_request" where
  "substituted web unsub rq =
     rq\<lparr>rq_subject := SubstituteSystemLinks web unsub (rq_subject rq), rq_html := SubstituteSystemLinks web unsub (rq_html rq),
        rq_text := SubstituteSystemLinks web unsub (rq_text rq)\<rparr>"

text \<open>Links a batch stored already are not stored again: \<open>seen\<close> are their hashes.\<close>

fun upsert_seen :: "string \<Rightarrow> string \<Rightarrow> (string \<times> string) list \<Rightarrow> string set \<Rightarrow> cworld \<Rightarrow> string set \<times> cworld" where
  "upsert_seen projID i [] seen w = (seen, w)"
| "upsert_seen projID i ((url, hash) # ls) seen w =
     (if hash \<in> seen then upsert_seen projID i ls seen w
      else upsert_seen projID i ls (insert hash seen)
             (snd (in_mail (UpsertTrackedLink \<lparr>tl_project_id = projID, tl_campaign_id = i, tl_original_url = url, tl_hash = hash\<rparr>) w)))"

definition applyCampTracking ::
    "runner \<Rightarrow> campaign \<Rightarrow> camp_message \<Rightarrow> string \<Rightarrow> send_request \<Rightarrow> string set \<Rightarrow> cworld \<Rightarrow> send_request \<times> string set \<times> cworld" where
  "applyCampTracking ru c m new_id rq seen w =
     (case ru_tracking ru of
        None \<Rightarrow> (substituted [] [] rq, seen, w)
      | Some t \<Rightarrow>
          (let unsub = (if cp_unsubscribe_disabled c then [] else ck_unsubscribe t (cg_id m));
               rq = substituted (ck_web_view t new_id) unsub (rq\<lparr>rq_id := new_id\<rparr>);
               (html, links) = ck_process t new_id (cp_id c) (rq_html rq);
               (seen, w) = upsert_seen (cp_project_id c) (cp_id c) links seen w;
               rq = rq\<lparr>rq_html := html, rq_tracked := True\<rparr>
           in (if cp_unsubscribe_disabled c then rq else rq\<lparr>rq_unsubscribe_url := unsub, rq_unsubscribe_post := True\<rparr>, seen, w)))"

text \<open>What became of a message: dealt with, or failed - by a plan's limit, or otherwise.\<close>

definition updated :: "(camp_db, unit) answer \<Rightarrow> (send_failure option) \<times> cworld" where
  "updated r = (case r of (Inl e, w) \<Rightarrow> (Some (Broken e), w) | (Inr _, w) \<Rightarrow> (None, w))"

definition record_sent :: "runner \<Rightarrow> campaign \<Rightarrow> camp_message \<Rightarrow> email \<Rightarrow> cworld \<Rightarrow> (send_failure option) \<times> cworld" where
  "record_sent ru c m e w =
     (if e_status e = StatusSuppressed then updated (UpdateMessage (cg_id m) MsgSkipped ''recipient suppressed'' (e_id e) w)
      else (case QueueMessage (cg_id m) (e_id e) w of
              (Inl err, w) \<Rightarrow> (Some (Broken err), w)
            | (Inr True, w) \<Rightarrow> (None, w)
            | (Inr False, w) \<Rightarrow>
                (case in_mail (CancelSend (ru_service ru) (cp_project_id c) (e_id e)) w of
                   (Inl _, w) \<Rightarrow> updated (UpdateMessage (cg_id m) MsgQueued [] (e_id e) w)
                 | (Inr _, w) \<Rightarrow> (None, w))))"

definition send_to ::
    "runner \<Rightarrow> instants \<Rightarrow> string \<Rightarrow> campaign \<Rightarrow> camp_message \<Rightarrow> subscriber \<Rightarrow> string set \<Rightarrow> cworld \<Rightarrow>
     (send_failure option) \<times> string set \<times> cworld" where
  "send_to ru at email_id c m x seen w =
     (case renderForSubscriber ru c (cg_variant m) x of
        Inl e \<Rightarrow> (Some (Broken e), seen, w)
      | Inr (out, t) \<Rightarrow>
          (case ru_attach ru t (re_html out) of
             Inl e \<Rightarrow> (Some (Broken e), seen, w)
           | Inr (files, html) \<Rightarrow>
               (case applyCampTracking ru c m email_id
                       ((camp_request ru c x out t)\<lparr>rq_attachments := files, rq_html := html\<rparr>) seen w of
                  (rq, seen, w) \<Rightarrow>
                    (case in_mail (Send (ru_service ru) at email_id (cp_project_id c) (cp_created_by c) [] rq) w of
                       (Inl e, w) \<Rightarrow> (Some e, seen, w)
                     | (Inr (e, _), w) \<Rightarrow> (case record_sent ru c m e w of (r, w) \<Rightarrow> (r, seen, w))))))"

definition deliverMessage ::
    "runner \<Rightarrow> instants \<Rightarrow> string \<Rightarrow> campaign \<Rightarrow> camp_message \<Rightarrow> string set \<Rightarrow> cworld \<Rightarrow>
     (send_failure option) \<times> string set \<times> cworld" where
  "deliverMessage ru at email_id c m seen w =
     (let skip = (\<lambda>why w. case updated (UpdateMessage (cg_id m) MsgSkipped why [] w) of (r, w) \<Rightarrow> (r, seen, w)) in
      case in_audience (GetSubscriber (cp_project_id c) (cg_subscriber_id m)) w of
        (Inl e, w) \<Rightarrow> (Some (Broken e), seen, w)
      | (Inr None, w) \<Rightarrow> skip ''subscriber missing or no longer subscribed'' w
      | (Inr (Some x), w) \<Rightarrow>
          if sb_status x \<noteq> StatusSubscribed then skip ''subscriber missing or no longer subscribed'' w
          else (case in_audience (IsOptedOut (cp_project_id c) (cp_list_id c) (sb_id x)) w of
                  (Inl e, w) \<Rightarrow> (Some (Broken e), seen, w)
                | (Inr True, w) \<Rightarrow> skip msgOptedOut w
                | (Inr False, w) \<Rightarrow> send_to ru at email_id c m x seen w))"

section \<open>One batch\<close>

text \<open>The state is read before every message; a failed read does not stop the batch, a plan's limit does.\<close>

fun deliver_each ::
    "runner \<Rightarrow> batch_run \<Rightarrow> campaign \<Rightarrow> nat \<Rightarrow> string set \<Rightarrow> camp_message list \<Rightarrow> cworld \<Rightarrow> bool \<times> cworld" where
  "deliver_each ru ba c k seen [] w = (False, w)"
| "deliver_each ru ba c k seen (m # ms) w =
     (if ba_stop ba k then (False, w)
      else (case StatusOf (cp_project_id c) (cp_id c) w of
              (r, w) \<Rightarrow>
                if (case r of Inl _ \<Rightarrow> False | Inr st \<Rightarrow> st \<noteq> Some CampSending) then (False, w)
                else (case deliverMessage ru (ba_send ba k) (ba_email ba k) c m seen w of
                        (None, seen, w) \<Rightarrow> deliver_each ru ba c (Suc k) seen ms w
                      | (Some (OverQuota _), seen, w) \<Rightarrow> (True, w)
                      | (Some e, seen, w) \<Rightarrow>
                          deliver_each ru ba c (Suc k) seen ms (snd (UpdateMessage (cg_id m) MsgFailed (failure_text e) [] w)))))"

definition deliverBatch :: "runner \<Rightarrow> batch_run \<Rightarrow> campaign \<Rightarrow> camp_message list \<Rightarrow> cworld \<Rightarrow> bool \<times> cworld" where
  "deliverBatch ru ba c batch = deliver_each ru ba c 0 {} batch"

definition complete :: "batch_run \<Rightarrow> campaign \<Rightarrow> cworld \<Rightarrow> cworld" where
  "complete ba c w =
     (case SetRunState (ba_write ba) (cp_id c) CampSent None (Some (ba_next ba)) None [CampSending] w of
        (Inl _, w) \<Rightarrow> w
      | (Inr False, w) \<Rightarrow> w
      | (Inr True, w) \<Rightarrow>
          (case MessageStats (cp_id c) w of (_, w) \<Rightarrow> snd (Finish (ba_write ba) (cp_project_id c) (cp_id c) w)))"

definition abandon :: "batch_run \<Rightarrow> campaign \<Rightarrow> cworld \<Rightarrow> cworld" where
  "abandon ba c w = snd (SetRunState (ba_write ba) (cp_id c) CampCancelled None None None [CampSending] w)"

text \<open>The gap a rate asks for, in exact arithmetic where Go rounds in floats.\<close>

definition rate_gap :: "campaign \<Rightarrow> nat \<Rightarrow> time" where
  "rate_gap c n = int n * 60000000000 div cp_send_rate c"

definition next_batch :: "runner \<Rightarrow> batch_run \<Rightarrow> campaign \<Rightarrow> nat \<Rightarrow> cworld \<Rightarrow> time \<times> cworld" where
  "next_batch ru ba c n w =
     (if n \<noteq> 0 then (if 0 < cp_send_rate c then ba_next ba + rate_gap c n else ba_next ba, w)
      else (case NextDeliverAt (cp_id c) w of
              (Inr (Some t), w) \<Rightarrow> (if ba_next ba < t then t else ba_next ba + ru_poll_interval ru, w)
            | (_, w) \<Rightarrow> (ba_next ba + ru_poll_interval ru, w)))"

definition finish_batch :: "runner \<Rightarrow> batch_run \<Rightarrow> campaign \<Rightarrow> nat \<Rightarrow> bool \<Rightarrow> cworld \<Rightarrow> cworld" where
  "finish_batch ru ba c n quotaPaused w =
     (case CountPending (cp_id c) w of
        (Inl _, w) \<Rightarrow> w
      | (Inr remaining, w) \<Rightarrow>
          if remaining = 0 then complete ba c w
          else (case next_batch ru ba c n w of
                  (t, w) \<Rightarrow>
                    (let w = (if quotaPaused then notify_of TypeCampaignHeld (cp_id c) w else w);
                         t = (if quotaPaused \<and> t < ba_floor ba + ru_poll_interval ru then ba_floor ba + ru_poll_interval ru else t)
                     in snd (SetRunState (ba_write ba) (cp_id c) CampSending None None (Some t) [CampSending] w))))"

definition run_batch :: "runner \<Rightarrow> batch_run \<Rightarrow> campaign \<Rightarrow> cworld \<Rightarrow> cworld" where
  "run_batch ru ba c w =
     (case PendingDue (ru_tie_messages ru) (cp_id c) (ba_due ba) (ru_batch_size ru) w of
        (Inl _, w) \<Rightarrow> w
      | (Inr batch, w) \<Rightarrow>
          (case (if batch = [] then (False, w) else deliverBatch ru ba c batch w) of
             (quotaPaused, w) \<Rightarrow> finish_batch ru ba c (length batch) quotaPaused w))"

definition processBatch :: "runner \<Rightarrow> batch_run \<Rightarrow> campaign \<Rightarrow> cworld \<Rightarrow> cworld option" where
  "processBatch ru ba c w =
     (case HasMessages (cp_id c) w of
        (Inl _, w) \<Rightarrow> Some w
      | (Inr True, w) \<Rightarrow> Some (run_batch ru ba c w)
      | (Inr False, w) \<Rightarrow>
          map_option (\<lambda>r. case r of
              (Inl _, w) \<Rightarrow> w
            | (Inr False, w) \<Rightarrow> abandon ba c w
            | (Inr True, w) \<Rightarrow> run_batch ru ba c w) (fanOut ru ba c w))"

section \<open>The loop\<close>

text \<open>\<open>runs k\<close> is the batch of the \<open>k\<close>-th turn, \<open>stop k\<close> the signal before it.\<close>

partial_function (option) drain ::
    "runner \<Rightarrow> (nat \<Rightarrow> batch_run) \<Rightarrow> (nat \<Rightarrow> bool) \<Rightarrow> nat \<Rightarrow> cworld \<Rightarrow> cworld option" where
  "drain ru runs stop k w =
     (if stop k then Some w
      else (case ClaimDueCampaign (ru_tie_campaigns ru) (ba_claim (runs k)) claimLease (ba_locked (runs k)) w of
              (Inl _, w) \<Rightarrow> Some w
            | (Inr None, w) \<Rightarrow> Some w
            | (Inr (Some c), w) \<Rightarrow> Option.bind (processBatch ru (runs k) c w) (drain ru runs stop (Suc k))))"

definition poll_campaigns :: "runner \<Rightarrow> (nat \<Rightarrow> batch_run) \<Rightarrow> (nat \<Rightarrow> bool) \<Rightarrow> time \<Rightarrow> bool \<Rightarrow> cworld \<Rightarrow> cworld option" where
  "poll_campaigns ru runs stop now closing w =
     (case PromoteScheduled now w of
        (Inl _, w) \<Rightarrow> if closing then Some w else drain ru runs stop 0 w
      | (Inr _, w) \<Rightarrow> drain ru runs stop 0 w)"

end
