(* ===== verification/Lifecycle.thy ===== *)
theory Lifecycle
  imports Runner Accepted
begin

text \<open>
  The life of a campaign: an abstract machine over the campaigns of all projects, the proof that every
  request and every turn of the runner is a run of it whichever statements fail, and what follows for
  campaigns that are over.  A run may stop after any statement, so the machine also covers requests and
  runners whose statements interleave.
\<close>

section \<open>The machine\<close>

text \<open>The model's comment: draft, then scheduled or at once sending, then sent, with paused and cancelled as exits.\<close>

fun life :: "camp_status \<Rightarrow> camp_status \<Rightarrow> bool" where
  "life CampDraft st = (st \<in> {CampScheduled, CampSending})"
| "life CampScheduled st = (st \<in> {CampSending, CampCancelled})"
| "life CampSending st = (st \<in> {CampPaused, CampSent, CampCancelled})"
| "life CampPaused st = (st \<in> {CampSending, CampCancelled})"
| "life _ _ = False"

definition unsettled_message :: "string \<Rightarrow> camp_db \<Rightarrow> bool" where
  "unsettled_message i s = list_ex (\<lambda>m. cg_campaign_id m = i \<and> cg_status m \<in> {MsgPending, MsgQueued}) (cd_messages s)"

text \<open>
  What one statement may do to a campaign: keep its status or move it along its life, and stamp it as
  settled once it is sent and none of its messages is open.
\<close>

definition advanced :: "camp_db \<Rightarrow> campaign \<Rightarrow> campaign \<Rightarrow> bool" where
  "advanced s c c' =
     (cp_id c' = cp_id c \<and> cp_project_id c' = cp_project_id c \<and> cp_created_by c' = cp_created_by c \<and> cp_created_at c' = cp_created_at c \<and>
      (cp_status c' = cp_status c \<or> life (cp_status c) (cp_status c')) \<and>
      (cp_settled_at c' = cp_settled_at c \<or>
       cp_settled_at c = None \<and> cp_status c = CampSent \<and> cp_status c' = CampSent \<and> \<not> unsettled_message (cp_id c) s))"

inductive camp_step :: "camp_db \<Rightarrow> camp_db \<Rightarrow> bool" where
  advance: "\<lbrakk>\<And>c. c \<in> set (cd_campaigns s) \<Longrightarrow> advanced s c (f c); cd_campaigns s' = map f (cd_campaigns s)\<rbrakk> \<Longrightarrow> camp_step s s'"
| create: "\<lbrakk>cp_status c = CampDraft; cp_settled_at c = None; cp_id c \<notin> cp_id ` set (cd_campaigns s);
            cd_campaigns s' = cd_campaigns s @ [c]\<rbrakk> \<Longrightarrow> camp_step s s'"
| remove: "cd_campaigns s' = filter (\<lambda>c. \<not> camp_is projID i c) (cd_campaigns s) \<Longrightarrow> camp_step s s'"

text \<open>A request of an operator, a settled email, an event of a reader, or a turn of the runner's loop.\<close>

inductive camp_call :: "cworld \<Rightarrow> cworld \<Rightarrow> bool" where
  created: "CreateCampaign tv now i u p inp w = (r, w') \<Longrightarrow> camp_call w w'"
| edited: "UpdateCampaign tv now p i bind w = (r, w') \<Longrightarrow> camp_call w w'"
| deleted: "DeleteCampaignHandler p i w = (r, w') \<Longrightarrow> camp_call w w'"
| launched: "SendCampaign sv now p i at w = (r, w') \<Longrightarrow> camp_call w w'"
| paused: "PauseCampaign now p i w = (r, w') \<Longrightarrow> camp_call w w'"
| resumed: "ResumeCampaign now p i w = (r, w') \<Longrightarrow> camp_call w w'"
| cancelled: "CancelCampaign now p i w = (r, w') \<Longrightarrow> camp_call w w'"
| duplicated: "DuplicateCampaign now i u p j w = (r, w') \<Longrightarrow> camp_call w w'"
| settled: "Settle now p e st err w = (a, w') \<Longrightarrow> camp_call w w'"
| seen: "MarkClicked_msg i now w = (a, w') \<Longrightarrow> camp_call w w'"
| opened: "MarkOpened_msg i now w = (b, w') \<Longrightarrow> camp_call w w'"
| left: "MarkUnsubscribed_msg i now w = (b, w') \<Longrightarrow> camp_call w w'"
| turn: "poll_campaigns ru runs stop now closing w = Some w' \<Longrightarrow> camp_call w w'"

section \<open>Calls of other shapes\<close>

text \<open>Calls that answer two things besides the world, that answer the world alone, or that may not end.\<close>

definition keeps_pair :: "('s \<Rightarrow> bool) \<Rightarrow> ('s world \<Rightarrow> 'a \<times> 'b \<times> 's world) \<Rightarrow> bool" where
  "keeps_pair I m = (\<forall>w. I (fst w) \<longrightarrow> I (fst (snd (snd (m w)))))"

definition keeps_end :: "('s \<Rightarrow> bool) \<Rightarrow> ('s world \<Rightarrow> 's world) \<Rightarrow> bool" where
  "keeps_end I f = (\<forall>w. I (fst w) \<longrightarrow> I (fst (f w)))"

definition keeps_opt :: "('s \<Rightarrow> bool) \<Rightarrow> ('s world \<Rightarrow> 's world option) \<Rightarrow> bool" where
  "keeps_opt I f = (\<forall>w w'. I (fst w) \<longrightarrow> f w = Some w' \<longrightarrow> I (fst w'))"

lemma keeps_boolean [keeping]:
  "keeps I m \<Longrightarrow> keeps I n \<Longrightarrow> keeps I (\<lambda>w. case b of True \<Rightarrow> m w | False \<Rightarrow> n w)"
  "keeps_pair I p \<Longrightarrow> keeps_pair I q \<Longrightarrow> keeps_pair I (\<lambda>w. case b of True \<Rightarrow> p w | False \<Rightarrow> q w)"
  "keeps_end I f \<Longrightarrow> keeps_end I g \<Longrightarrow> keeps_end I (\<lambda>w. case b of True \<Rightarrow> f w | False \<Rightarrow> g w)"
  by (cases b; simp)+

section \<open>Statements are steps\<close>

definition follows :: "camp_db \<Rightarrow> camp_db \<Rightarrow> bool" where
  "follows s0 s = camp_step\<^sup>*\<^sup>* s0 s"

lemma follows_step: "follows s0 s \<Longrightarrow> camp_step s s' \<Longrightarrow> follows s0 s'"
  unfolding follows_def by (rule rtranclp.rtrancl_into_rtrancl)

lemma advanced_refl [simp]: "advanced s c c"
  by (simp add: advanced_def)

lemma follows_same: "follows s0 s \<Longrightarrow> cd_campaigns s' = cd_campaigns s \<Longrightarrow> follows s0 s'"
  by (erule follows_step, rule camp_step.advance [of _ "\<lambda>c. c"]) simp_all

lemma follows_update:
  assumes "follows s0 s" "\<And>c. p c \<Longrightarrow> advanced s c (f c)"
  shows "follows s0 (fst (update_camps p f s))"
  by (rule follows_step [OF assms(1)], rule camp_step.advance [of _ "\<lambda>c. if p c then f c else c"])
    (simp_all add: assms(2) update_camps_def sql_update_def)

lemma follows_mail [keeping]: "keeps (follows s0) (in_mail m)"
  by (auto simp: keeps_def in_mail_def case_prod_unfold intro: follows_same)

lemma follows_audience [keeping]: "keeps (follows s0) (in_audience m)"
  by (auto simp: keeps_def in_audience_def Zoom_def case_prod_unfold intro: follows_same)

lemma follows_told [keeping]:
  "keeps (follows s0) (\<lambda>w. (x, announce what i w))" "keeps (follows s0) (\<lambda>w. (x, notify_of type i w))"
  by (auto simp: keeps_def announce_def notify_of_def intro: follows_same)

lemma follows_quiet:
  assumes "\<And>s. cd_campaigns (fst (st s)) = cd_campaigns s"
  shows "keeps (follows s0) (Run st)"
  by (rule keeps_Run) (erule follows_same, rule assms)

lemma follows_camps:
  assumes "\<And>s c. p s c \<Longrightarrow> advanced s c (f c)"
  shows "keeps (follows s0) (Run (\<lambda>s. update_camps (p s) f s))"
  by (rule keeps_Run) (erule follows_update, rule assms)

lemma keeps_moved [keeping]: "keeps I m \<Longrightarrow> keeps I (\<lambda>w. moved (m w))"
  unfolding moved_def by (intro keeping)

text \<open>The reads, and the statements on messages.\<close>

lemmas camp_reads = GetCampaign_def GetAnyCampaign_def StatusOf_def HasMessages_def PendingDue_def CountPending_def
  NextDeliverAt_def MessageStats_def

lemma follows_reads [keeping]:
  "keeps I (GetCampaign p i)" "keeps I (GetAnyCampaign i)" "keeps I (StatusOf p i)" "keeps I (HasMessages i)"
  "keeps I (PendingDue tie i now limit)" "keeps I (CountPending i)" "keeps I (NextDeliverAt i)" "keeps I (MessageStats i)"
  unfolding camp_reads by (rule keeping)+

lemma follows_messages [keeping]:
  "keeps (follows s0) (UpdateMessage i st err e)" "keeps (follows s0) (QueueMessage i e)"
  "keeps (follows s0) (MarkMessageByEmail now e st err)" "keeps (follows s0) (SkipPending i err)"
  "keeps (follows s0) (MarkOpened_msg i now)" "keeps (follows s0) (MarkUnsubscribed_msg i now)"
  unfolding UpdateMessage_def QueueMessage_def [abs_def] MarkMessageByEmail_def SkipPending_def MarkOpened_msg_def [abs_def]
    MarkUnsubscribed_msg_def [abs_def]
  by (intro keeping follows_quiet, simp add: update_msgs_def Let_def)+

lemma follows_clicked [keeping]: "keeps (follows s0) (MarkClicked_msg i now)"
  unfolding MarkClicked_msg_def [abs_def] by (intro keeping follows_quiet) (simp add: update_msgs_def)

text \<open>The statements that write campaigns.\<close>

lemma follows_put [keeping]: "cp_status c = CampDraft \<Longrightarrow> keeps (follows s0) (PutCampaign c)"
  unfolding PutCampaign_def
proof (rule keeps_Run)
  fix s
  assume s: "follows s0 s" and draft: "cp_status c = CampDraft"
  show "follows s0 (fst (if list_ex (\<lambda>k. cp_id k = cp_id c) (cd_campaigns s)
      then fst (update_camps (\<lambda>k. cp_id k = cp_id c) (content_of c) s)
      else s\<lparr>cd_campaigns := cd_campaigns s @ [c\<lparr>cp_scheduled_offset := None, cp_settled_at := None\<rparr>]\<rparr>, ()))"
  proof (cases "list_ex (\<lambda>k. cp_id k = cp_id c) (cd_campaigns s)")
    case True
    have "follows s0 (fst (update_camps (\<lambda>k. cp_id k = cp_id c) (content_of c) s))"
      by (rule follows_update [OF s]) (simp add: advanced_def content_of_def)
    with True show ?thesis by simp
  next
    case False
    have "camp_step s (s\<lparr>cd_campaigns := cd_campaigns s @ [c\<lparr>cp_scheduled_offset := None, cp_settled_at := None\<rparr>]\<rparr>)"
      by (rule camp_step.create [of "c\<lparr>cp_scheduled_offset := None, cp_settled_at := None\<rparr>"])
        (use draft False in \<open>auto simp: list_ex_iff\<close>)
    with False follows_step [OF s] show ?thesis by simp
  qed
qed

lemma follows_delete [keeping]: "keeps (follows s0) (DeleteCampaign p i)"
  unfolding DeleteCampaign_def
proof (rule keeps_Run)
  fix s
  assume s: "follows s0 s"
  have "camp_step s (s\<lparr>cd_campaigns := sql_delete (camp_is p i) (cd_campaigns s), cd_messages := ms, cd_accept := a\<rparr>)" for ms a
    by (rule camp_step.remove [of _ p i]) (simp add: sql_delete_def)
  with s show "follows s0 (fst (if list_ex (camp_is p i) (cd_campaigns s)
      then s\<lparr>cd_campaigns := sql_delete (camp_is p i) (cd_campaigns s),
             cd_messages := sql_delete (\<lambda>m. cg_campaign_id m = i) (cd_messages s),
             cd_accept := (cd_accept s)\<lparr>ac_links := sql_delete (\<lambda>k. tl_campaign_id k = i) (ac_links (cd_accept s))\<rparr>\<rparr>
      else s, ()))"
    by (simp add: follows_step)
qed

lemma follows_launch [keeping]:
  "st \<in> {CampScheduled, CampSending} \<Longrightarrow> keeps (follows s0) (Launch now p i st t z b n)"
  unfolding Launch_def [abs_def] by (intro keeping follows_camps) (auto simp: advanced_def launch_row_def)

lemma follows_transition:
  "(\<And>f. f \<in> set froms \<Longrightarrow> life f st) \<Longrightarrow> keeps (follows s0) (TransitionStatus now p i st froms)"
  unfolding TransitionStatus_def [abs_def] by (intro keeping follows_camps) (auto simp: advanced_def)

lemma follows_run_state:
  "st = CampSending \<or> life CampSending st \<Longrightarrow> keeps (follows s0) (SetRunState now i st b d n [CampSending])"
  unfolding SetRunState_def [abs_def] by (intro keeping follows_camps) (auto simp: advanced_def run_state_row_def)

lemma follows_promote [keeping]: "keeps (follows s0) (PromoteScheduled now)"
  unfolding PromoteScheduled_def by (intro follows_camps) (simp add: advanced_def scheduled_due_def)

lemma follows_settled [keeping]: "keeps (follows s0) (ClaimSettled now p i)"
  unfolding ClaimSettled_def [abs_def]
  by (intro keeping follows_camps) (auto simp: advanced_def settled_now_def camp_is_def unsettled_message_def)

lemma follows_claim [keeping]: "keeps (follows s0) (ClaimDueCampaign tie now lease locked)"
proof -
  have "keeps (follows s0) (Run (\<lambda>s. case next_due tie now locked s of
         None \<Rightarrow> (s, None)
       | Some c \<Rightarrow> (fst (update_camps (\<lambda>k. cp_id k = cp_id c) (\<lambda>k. k\<lparr>cp_next_batch_at := Some (now + lease)\<rparr>) s), Some (cp_id c))))"
    by (rule keeps_Run) (auto split: option.split intro!: follows_update simp: advanced_def)
  then show ?thesis unfolding ClaimDueCampaign_def [abs_def] by (intro keeping)
qed

section \<open>Requests are runs\<close>

lemma follows_finish [keeping]: "keeps (follows s0) (Finish now p i)"
proof -
  have "keeps (follows s0) (\<lambda>w. Return () (notify_of a i (announce b i w)))" for a b
    by (auto simp: keeps_def announce_def notify_of_def intro: follows_same)
  then show ?thesis unfolding Finish_def [abs_def] by (intro keeping)
qed

lemma follows_settle [keeping]: "keeps (follows s0) (Settle now p e st err)"
  unfolding Settle_def [abs_def] by (intro keeping)

lemma follows_validate [keeping]: "keeps (follows s0) (validateCampaignRefs tv p inp)"
proof -
  have "keeps (follows s0) (group_id_of p slug)" for slug
    unfolding group_id_of_def [abs_def] by (intro keeping)
  then show ?thesis unfolding validateCampaignRefs_def [abs_def] by (intro keeping)
qed

lemma follows_reread [keeping]: "keeps (follows s0) (reread c k)"
  unfolding reread_def [abs_def] by (intro keeping)

lemma follows_create: "keeps (follows s0) (CreateCampaign tv now i u p inp)"
  unfolding CreateCampaign_def [abs_def] Let_def by (intro keeping) (simp_all add: toModel_def)

lemma follows_edit: "keeps (follows s0) (UpdateCampaign tv now p i bind)"
proof -
  have "keeps (follows s0) (\<lambda>w. if cp_status c \<noteq> CampDraft then (Conflict ''only draft campaigns can be edited'', w)
     else (case validateCampaignRefs tv p (bind c) w of
             (Inl r, w) \<Rightarrow> (r, w)
           | (Inr g, w) \<Rightarrow>
               Answer (PutCampaign ((toModel (bind c) p g (cp_id c) (cp_created_by c) (cp_created_at c))
                 \<lparr>cp_status := cp_status c, cp_updated_at := Some now\<rparr>) w)
               (\<lambda>_. reread ((toModel (bind c) p g (cp_id c) (cp_created_by c) (cp_created_at c))
                 \<lparr>cp_status := cp_status c, cp_updated_at := Some now\<rparr>) Ok)))" for c
  proof (cases "cp_status c = CampDraft")
    case True
    then show ?thesis by (simp only: simp_thms if_False) (intro keeping; simp)
  qed (simp only: simp_thms if_True, rule keeping)
  then show ?thesis
    unfolding UpdateCampaign_def [abs_def] Let_def by (intro keeps_Answer keeps_option follows_reads keeps_stay)
qed

lemma follows_handlers:
  "keeps (follows s0) (DeleteCampaignHandler p i)" "keeps (follows s0) (SendCampaign sv now p i at)"
  "keeps (follows s0) (PauseCampaign now p i)" "keeps (follows s0) (ResumeCampaign now p i)"
  "keeps (follows s0) (CancelCampaign now p i)" "keeps (follows s0) (DuplicateCampaign now j u p i)"
proof -
  have responds: "keeps (follows s0) (respondWith p i)" "keeps (follows s0) (refuseTransition p i e)" for p i e
    unfolding respondWith_def [abs_def] refuseTransition_def [abs_def] by (intro keeping)+
  have launch: "cp_status c \<in> {CampScheduled, CampSending} \<Longrightarrow> keeps (follows s0) (launch_at now p c)" for c
    unfolding launch_at_def [abs_def] by (intro keeping)
  show "keeps (follows s0) (DeleteCampaignHandler p i)"
    unfolding DeleteCampaignHandler_def [abs_def] by (intro keeping)
  show "keeps (follows s0) (SendCampaign sv now p i at)"
    unfolding SendCampaign_def [abs_def] by (cases at) (simp_all only: launch_time.case, (intro keeping launch; simp)+)
  show "keeps (follows s0) (PauseCampaign now p i)"
    unfolding PauseCampaign_def [abs_def] by (intro keeping follows_transition responds) simp_all
  show "keeps (follows s0) (ResumeCampaign now p i)"
    unfolding ResumeCampaign_def [abs_def] Let_def by (intro keeping follows_transition follows_run_state responds) simp_all
  show "keeps (follows s0) (CancelCampaign now p i)"
    unfolding CancelCampaign_def [abs_def] by (intro keeping follows_transition responds) auto
  show "keeps (follows s0) (DuplicateCampaign now j u p i)"
    unfolding DuplicateCampaign_def [abs_def] Let_def by (intro keeping) simp
qed

section \<open>Turns of the runner are runs\<close>

lemma keeps_pairs [keeping]:
  "keeps_pair I (\<lambda>w. (x, y, w))"
  "keeps I m \<Longrightarrow> (\<And>x. keeps_pair I (k x)) \<Longrightarrow> keeps_pair I (\<lambda>w. case m w of (x, w) \<Rightarrow> k x w)"
  "keeps_pair I p \<Longrightarrow> (\<And>x y. keeps_pair I (h x y)) \<Longrightarrow> keeps_pair I (\<lambda>w. case p w of (x, y, w) \<Rightarrow> h x y w)"
  "keeps_pair I p \<Longrightarrow> (\<And>x y. keeps I (g x y)) \<Longrightarrow> keeps I (\<lambda>w. case p w of (x, y, w) \<Rightarrow> g x y w)"
  unfolding keeps_pair_def keeps_def case_prod_unfold by - (simp, blast+)

lemma keeps_pair_cases [keeping]:
  "keeps_pair I p \<Longrightarrow> keeps_pair I q \<Longrightarrow> keeps_pair I (\<lambda>w. if b then p w else q w)"
  "keeps_pair I q \<Longrightarrow> (\<And>x. keeps_pair I (h x)) \<Longrightarrow> keeps_pair I (\<lambda>w. case a of None \<Rightarrow> q w | Some x \<Rightarrow> h x w)"
  "(\<And>x. keeps_pair I (k x)) \<Longrightarrow> (\<And>x. keeps_pair I (l x)) \<Longrightarrow> keeps_pair I (\<lambda>w. case e of Inl x \<Rightarrow> k x w | Inr x \<Rightarrow> l x w)"
  "(\<And>x y. keeps_pair I (j x y)) \<Longrightarrow> keeps_pair I (\<lambda>w. case d of (x, y) \<Rightarrow> j x y w)"
  by (auto simp: keeps_pair_def split: option.split sum.split prod.split)

lemma keeps_ends [keeping]:
  "keeps_end I (\<lambda>w. w)"
  "keeps I m \<Longrightarrow> keeps_end I (\<lambda>w. snd (m w))"
  "keeps I m \<Longrightarrow> (\<And>x. keeps_end I (k x)) \<Longrightarrow> keeps_end I (\<lambda>w. case m w of (x, w) \<Rightarrow> k x w)"
  "keeps_end I f \<Longrightarrow> keeps_end I g \<Longrightarrow> keeps_end I (\<lambda>w. if b then f w else g w)"
  "(\<And>x. keeps_end I (k x)) \<Longrightarrow> (\<And>x. keeps_end I (l x)) \<Longrightarrow> keeps_end I (\<lambda>w. case e of Inl x \<Rightarrow> k x w | Inr x \<Rightarrow> l x w)"
  unfolding keeps_end_def keeps_def case_prod_unfold by - (blast, blast, blast, simp, (cases e; simp))

lemma keeps_end_apply: "keeps_end I f \<Longrightarrow> I (fst w) \<Longrightarrow> I (fst (f w))"
  unfolding keeps_end_def by blast

lemma keeps_pair_apply: "keeps_pair I m \<Longrightarrow> I (fst w) \<Longrightarrow> m w = (x, y, w') \<Longrightarrow> I (fst w')"
  unfolding keeps_pair_def by (metis snd_conv)

lemma keeps_then: "keeps I m \<Longrightarrow> keeps I k \<Longrightarrow> keeps I (\<lambda>w. k (snd (m w)))"
  unfolding keeps_def by blast

lemma keeps_updated [keeping]: "keeps I m \<Longrightarrow> keeps I (\<lambda>w. updated (m w))"
  unfolding updated_def by (intro keeping)

lemma follows_record [keeping]: "keeps (follows s0) (record_sent ru c m e)"
  unfolding record_sent_def [abs_def] by (intro keeping)

lemma follows_seen [keeping]: "keeps (follows s0) (upsert_seen p i ls seen)"
proof (induction ls arbitrary: seen)
  case Nil
  have "upsert_seen p i [] seen = (\<lambda>w. (seen, w))" by (rule ext) simp
  then show ?case by (simp only:) (rule keeping)
next
  case (Cons l ls)
  obtain url hash where l: "l = (url, hash)" by (rule prod.exhaust)
  have "upsert_seen p i (l # ls) seen = (\<lambda>w. if hash \<in> seen then upsert_seen p i ls seen w
      else upsert_seen p i ls (insert hash seen)
        (snd (in_mail (UpsertTrackedLink \<lparr>tl_project_id = p, tl_campaign_id = i, tl_original_url = url, tl_hash = hash\<rparr>) w)))"
    by (rule ext) (simp add: l)
  then show ?case by (simp only:) (intro keeping Cons.IH keeps_then [where k = "upsert_seen p i ls (insert hash seen)"])
qed

lemma follows_tracking [keeping]: "keeps_pair (follows s0) (applyCampTracking ru c m i rq seen)"
  unfolding applyCampTracking_def [abs_def] Let_def by (intro keeping)

lemma follows_message [keeping]: "keeps_pair (follows s0) (deliverMessage ru at e c m seen)"
proof -
  have "keeps_pair (follows s0) (send_to ru at e c m x seen)" for x
    unfolding send_to_def [abs_def] by (intro keeping)
  then show ?thesis unfolding deliverMessage_def [abs_def] Let_def by (intro keeping)
qed

lemma deliver_each_Cons:
  "deliver_each ru ba c k seen (m # ms) w =
     (if ba_stop ba k then (False, w)
      else (case StatusOf (cp_project_id c) (cp_id c) w of
              (r, w) \<Rightarrow>
                if (case r of Inl _ \<Rightarrow> False | Inr st \<Rightarrow> st \<noteq> Some CampSending) then (False, w)
                else (case deliverMessage ru (ba_send ba k) (ba_email ba k) c m seen w of
                        (r, seen, w) \<Rightarrow>
                          (case r of
                             None \<Rightarrow> deliver_each ru ba c (Suc k) seen ms w
                           | Some e \<Rightarrow>
                               if (\<exists>t. e = OverQuota t) then (True, w)
                               else deliver_each ru ba c (Suc k) seen ms (snd (UpdateMessage (cg_id m) MsgFailed (failure_text e) [] w))))))"
  by (simp split: prod.split option.split send_failure.split)

lemma follows_each [keeping]: "keeps (follows s0) (deliver_each ru ba c k seen ms)"
proof (induction ms arbitrary: k seen)
  case Nil
  have "deliver_each ru ba c k seen [] = (\<lambda>w. (False, w))" by (rule ext) simp
  then show ?case by (simp only:) (rule keeping)
next
  case (Cons m ms)
  have failed: "keeps (follows s0) (\<lambda>w. deliver_each ru ba c (Suc k) x ms (snd (UpdateMessage (cg_id m) MsgFailed t [] w)))" for x t
    by (rule keeps_then [OF _ Cons.IH]) (rule keeping)
  show ?case unfolding deliver_each_Cons [abs_def] by (intro keeping Cons.IH failed)
qed

lemma follows_batch [keeping]: "keeps_end (follows s0) (run_batch ru ba c)"
proof -
  have complete: "keeps_end (follows s0) (complete ba c)"
    unfolding complete_def [abs_def] by (intro keeping follows_run_state) simp
  have next_at: "keeps (follows s0) (next_batch ru ba c n)" for n
    unfolding next_batch_def [abs_def] by (intro keeping)
  have wait: "keeps_end (follows s0) (\<lambda>w. snd (SetRunState b i CampSending None None t [CampSending]
      (if q then notify_of TypeCampaignHeld i w else w)))" for b i t q
    unfolding keeps_end_def
    by (intro allI impI keeps_apply [OF follows_run_state]) (auto simp: notify_of_def intro: follows_same)
  have finish: "keeps_end (follows s0) (finish_batch ru ba c n q)" for n q
    unfolding finish_batch_def [abs_def] Let_def by (intro keeping complete next_at wait)
  show ?thesis unfolding run_batch_def [abs_def] deliverBatch_def by (intro keeping finish)
qed

lemma follows_bulk: "keeps (follows s0) (BulkCreateMessages now is ms)"
proof -
  have chunks: "keeps (follows s0) (insert_chunks cs)" for cs
  proof (induction cs)
    case Nil
    have "insert_chunks [] = Return ((), True)" by (rule ext) simp
    then show ?case by (simp only:) (rule keeping)
  next
    case (Cons c cs)
    show ?case unfolding insert_chunks.simps(2) [abs_def] by (intro keeping follows_quiet Cons.IH) simp
  qed
  show ?thesis unfolding BulkCreateMessages_def by (intro keeping chunks)
qed

lemma follows_fan:
  assumes "fanOut ru ba c w = Some (r, w')" "follows s0 (fst w)"
  shows "follows s0 (fst w')"
proof -
  let ?told = "\<lambda>w. Return True (notify_of TypeCampaignStarted (cp_id c) (announce EventCampaignStarted (cp_id c) w))"
  let ?rest = "\<lambda>recipients optedOut w. let ms = fan_messages ru c recipients optedOut in
      andThen (if ms = [] then Return () w else BulkCreateMessages (ba_fan ba) (ba_ids ba) ms w) (\<lambda>_. ?told)"
  have told: "keeps (follows s0) ?told"
    by (auto simp: keeps_def announce_def notify_of_def intro: follows_same)
  have rest: "keeps (follows s0) (?rest x y)" for x y
    unfolding Let_def by (intro keeping told follows_bulk)
  obtain a w1 where list: "in_audience (GetSubscriberList (cp_project_id c) (cp_list_id c)) w = (a, w1)" by (rule prod.exhaust)
  have w1: "follows s0 (fst w1)" using keeps_apply [OF follows_audience assms(2)] list by (metis snd_conv)
  consider (early) "w' = w1" | (walked) l where "a = Inr (Some l)"
    using assms(1) list by (cases a) (auto simp: fanOut_def split: option.splits)
  then show ?thesis
  proof cases
    case (walked l)
    obtain q w2 where q: "in_audience_opt (ResolveAudience (ru_reading ru) (ba_meantime ba) (ru_tie_members ru) (cp_project_id c) l) w1 = Some (q, w2)"
      and r: "(r, w') = andThen (q, w2) (\<lambda>(x, y). ?rest x y)"
      using assms(1) list walked by (auto simp: fanOut_def)
    have w2: "follows s0 (fst w2)"
      using q w1 by (auto simp: in_audience_opt_def intro: follows_same)
    show ?thesis
    proof (cases q)
      case (Inr xy)
      obtain x y where "xy = (x, y)" by (rule prod.exhaust)
      with r Inr have "?rest x y w2 = (r, w')" by simp
      then show ?thesis using keeps_apply [OF rest w2, of x y] by (metis snd_conv)
    qed (use r w2 in simp)
  qed (use w1 in simp)
qed

lemma follows_process: "keeps_opt (follows s0) (processBatch ru ba c)"
  unfolding keeps_opt_def
proof (intro allI impI)
  fix w w'
  assume w: "follows s0 (fst w)" and run: "processBatch ru ba c w = Some w'"
  have abandon: "keeps_end (follows s0) (abandon ba c)"
    unfolding abandon_def [abs_def] by (intro keeping follows_run_state) simp
  obtain a w1 where h: "HasMessages (cp_id c) w = (a, w1)" by (rule prod.exhaust)
  have w1: "follows s0 (fst w1)" using keeps_apply [of "follows s0", OF follows_reads(4) w, of "cp_id c"] h by simp
  consider "w' = w1" | "w' = run_batch ru ba c w1"
    | r w2 where "fanOut ru ba c w1 = Some (r, w2)" "w' = w2 \<or> w' = abandon ba c w2 \<or> w' = run_batch ru ba c w2"
  proof (cases a)
    case (Inl e)
    with run h that(1) show thesis by (simp add: processBatch_def)
  next
    case (Inr b)
    show thesis
    proof (cases b)
      case False
      with run h Inr obtain r w2 where "fanOut ru ba c w1 = Some (r, w2)"
        and "w' = (case r of Inl _ \<Rightarrow> w2 | Inr False \<Rightarrow> abandon ba c w2 | Inr True \<Rightarrow> run_batch ru ba c w2)"
        by (auto simp: processBatch_def split: sum.split bool.split)
      then show thesis by (intro that(3)) (auto split: sum.splits bool.splits)
    qed (use run h Inr that(2) in \<open>simp add: processBatch_def\<close>)
  qed
  then show "follows s0 (fst w')"
    by cases (use w1 follows_fan [OF _ w1] keeps_end_apply [OF follows_batch] keeps_end_apply [OF abandon] in \<open>auto simp del: split_paired_All\<close>)
qed

lemma follows_drain:
  assumes "drain ru runs stop k w = Some w'" "follows s0 (fst w)"
  shows "follows s0 (fst w')"
proof -
  have "follows s0 (fst w) \<longrightarrow> follows s0 (fst w')"
  proof (rule drain.raw_induct [where P = "\<lambda>_ _ _ _ w w'. follows s0 (fst w) \<longrightarrow> follows s0 (fst w')", OF _ assms(1)])
    fix drain :: "runner \<Rightarrow> (nat \<Rightarrow> batch_run) \<Rightarrow> (nat \<Rightarrow> bool) \<Rightarrow> nat \<Rightarrow> cworld \<Rightarrow> cworld option"
      and ru :: runner and runs :: "nat \<Rightarrow> batch_run" and stop k w w'
    assume IH: "\<And>ru runs stop k w w'. drain ru runs stop k w = Some w' \<Longrightarrow> follows s0 (fst w) \<longrightarrow> follows s0 (fst w')"
    let ?claim = "ClaimDueCampaign (ru_tie_campaigns ru) (ba_claim (runs k)) claimLease (ba_locked (runs k))"
    assume turn: "(if stop k then Some w
        else (case ?claim w of
                (Inl _, w) \<Rightarrow> Some w
              | (Inr None, w) \<Rightarrow> Some w
              | (Inr (Some c), w) \<Rightarrow> Option.bind (processBatch ru (runs k) c w) (drain ru runs stop (Suc k)))) = Some w'"
    show "follows s0 (fst w) \<longrightarrow> follows s0 (fst w')"
    proof
      assume w: "follows s0 (fst w)"
      obtain a w1 where claim: "?claim w = (a, w1)" by (rule prod.exhaust)
      have w1: "follows s0 (fst w1)" using keeps_apply [OF follows_claim w] claim by (metis snd_conv)
      consider "w' = w" | "w' = w1"
        | c w2 where "processBatch ru (runs k) c w1 = Some w2" "drain ru runs stop (Suc k) w2 = Some w'"
        using turn claim by (auto split: if_splits sum.splits option.splits simp: bind_eq_Some_conv)
      then show "follows s0 (fst w')"
      proof cases
        case (3 c w2)
        have "follows s0 (fst w2)" using follows_process 3(1) w1 unfolding keeps_opt_def by blast
        with IH [OF 3(2)] show ?thesis by blast
      qed (use w w1 in simp_all)
    qed
  qed
  with assms(2) show ?thesis by blast
qed

lemma follows_poll:
  assumes "poll_campaigns ru runs stop now closing w = Some w'" "follows s0 (fst w)"
  shows "follows s0 (fst w')"
proof -
  obtain a w1 where p: "PromoteScheduled now w = (a, w1)" by (rule prod.exhaust)
  have w1: "follows s0 (fst w1)" using keeps_apply [OF follows_promote assms(2)] p by (metis snd_conv)
  then show ?thesis
    using assms(1) p follows_drain by (auto simp: poll_campaigns_def split: sum.splits if_splits)
qed

text \<open>
  C19: Whatever an operator, a reader or the runner does, and whichever of its statements fail, a campaign
  moves along its life and no other way: every request and every turn of the runner, with its fan-out,
  its batches and its loop, is a run of the abstract machine, which creates drafts, lets a status only go
  on to a successor, stamps a campaign as settled once, and deletes.
\<close>
theorem campaigns_follow_lifecycle:
  assumes "camp_call w w'"
  shows "camp_step\<^sup>*\<^sup>* (fst w) (fst w')"
proof -
  have start: "follows (fst w) (fst w)" by (simp add: follows_def)
  note kept = keeps_apply [of "follows (fst w)", OF _ start]
  from assms have "follows (fst w) (fst w')"
  proof cases
    case created then show ?thesis using kept [OF follows_create] by (metis snd_conv)
  next
    case edited then show ?thesis using kept [OF follows_edit] by (metis snd_conv)
  next
    case deleted then show ?thesis using kept [OF follows_handlers(1)] by (metis snd_conv)
  next
    case launched then show ?thesis using kept [OF follows_handlers(2)] by (metis snd_conv)
  next
    case paused then show ?thesis using kept [OF follows_handlers(3)] by (metis snd_conv)
  next
    case resumed then show ?thesis using kept [OF follows_handlers(4)] by (metis snd_conv)
  next
    case cancelled then show ?thesis using kept [OF follows_handlers(5)] by (metis snd_conv)
  next
    case duplicated then show ?thesis using kept [OF follows_handlers(6)] by (metis snd_conv)
  next
    case settled then show ?thesis using kept [OF follows_settle] by (metis snd_conv)
  next
    case seen then show ?thesis using kept [OF follows_clicked] by (metis snd_conv)
  next
    case opened then show ?thesis using kept [OF follows_messages(5)] by (metis snd_conv)
  next
    case left then show ?thesis using kept [OF follows_messages(6)] by (metis snd_conv)
  next
    case turn then show ?thesis using follows_poll start by blast
  qed
  then show ?thesis unfolding follows_def .
qed

section \<open>Campaigns that are over\<close>

definition ids_of_camps :: "camp_db \<Rightarrow> string set" where
  "ids_of_camps s = cp_id ` set (cd_campaigns s)"

text \<open>A run in which the campaign is not deleted.\<close>

definition kept_step :: "string \<Rightarrow> camp_db \<Rightarrow> camp_db \<Rightarrow> bool" where
  "kept_step i s s' = (camp_step s s' \<and> i \<in> ids_of_camps s')"

definition all_of :: "string \<Rightarrow> (campaign \<Rightarrow> bool) \<Rightarrow> camp_db \<Rightarrow> bool" where
  "all_of i P s = (\<forall>c \<in> set (cd_campaigns s). cp_id c = i \<longrightarrow> P c)"

lemma kept_all:
  assumes "(kept_step i)\<^sup>*\<^sup>* s s'" "i \<in> ids_of_camps s" "all_of i P s"
    and P: "\<And>s c c'. P c \<Longrightarrow> advanced s c c' \<Longrightarrow> P c'"
  shows "all_of i P s'"
  using assms(1)
proof (induction rule: rtranclp_induct)
  case (step t u)
  have here: "i \<in> ids_of_camps t"
    using step.hyps(1) by (cases rule: rtranclp.cases) (use assms(2) in \<open>auto simp: kept_step_def\<close>)
  from step.hyps(2) have "camp_step t u" by (simp add: kept_step_def)
  then show ?case
  proof cases
    case (advance f)
    have "P (f c)" if "c \<in> set (cd_campaigns t)" "cp_id (f c) = i" for c
    proof (rule P)
      show "advanced t c (f c)" using that(1) by (rule advance)
      then show "P c" using that step.IH by (simp add: all_of_def advanced_def)
    qed
    with advance show ?thesis by (auto simp: all_of_def)
  next
    case (create c)
    then show ?thesis using step.IH here by (auto simp: all_of_def ids_of_camps_def)
  next
    case remove
    then show ?thesis using step.IH by (auto simp: all_of_def)
  qed
qed (rule assms(3))

lemma finished_kept:
  assumes "(kept_step i)\<^sup>*\<^sup>* s s'" "i \<in> ids_of_camps s" "st \<in> {CampSent, CampCancelled}" "all_of i (\<lambda>c. cp_status c = st) s"
  shows "all_of i (\<lambda>c. cp_status c = st) s'"
  using assms(1,2,4) by (rule kept_all) (use assms(3) in \<open>auto simp: advanced_def\<close>)

lemma settled_kept:
  assumes "(kept_step i)\<^sup>*\<^sup>* s s'" "i \<in> ids_of_camps s" "all_of i (\<lambda>c. cp_settled_at c \<noteq> None) s"
  shows "all_of i (\<lambda>c. cp_settled_at c \<noteq> None) s'"
  using assms by (rule kept_all) (auto simp: advanced_def)

section \<open>The announcement\<close>

lemma claimed_settled:
  assumes "ClaimSettled now p i w = (Inr True, w1)"
  shows "(\<exists>c \<in> set (cd_campaigns (fst w)). settled_now p i (fst w) c) \<and>
    fst w1 = fst (update_camps (settled_now p i (fst w)) (\<lambda>c. c\<lparr>cp_settled_at := Some now\<rparr>) (fst w))"
proof -
  obtain n w2 where run: "Run (\<lambda>s. update_camps (settled_now p i s) (\<lambda>c. c\<lparr>cp_settled_at := Some now\<rparr>) s) w = (Inr n, w2)"
    and "(Inr (0 < n), w2) = (Inr True :: error + bool, w1)"
    using andThen_Inr [OF assms [unfolded ClaimSettled_def moved_def]] by auto
  then have "0 < n" "w2 = w1" by simp_all
  with Run_Inr [OF run] show ?thesis by (auto simp: update_camps_def sql_count_pos)
qed

lemma Finish_cases:
  assumes "Finish now p i w = (r, w')"
  obtains (silent) "cd_events (fst w') = cd_events (fst w)"
    | (told) w1 where "ClaimSettled now p i w = (Inr True, w1)" "cd_events (fst w1) = cd_events (fst w)"
        "cd_campaigns (fst w') = cd_campaigns (fst w1)"
        "cd_events (fst w') = cd_events (fst w1) @ [(EventCampaignCompleted, i)]"
proof -
  obtain a w1 where claim: "ClaimSettled now p i w = (a, w1)" by (rule prod.exhaust)
  have "keeps (\<lambda>s. cd_events s = cd_events (fst w)) (ClaimSettled now p i)"
    unfolding ClaimSettled_def [abs_def] by (intro keeping keeps_Run) (simp add: update_camps_def)
  then have w1: "cd_events (fst w1) = cd_events (fst w)" using keeps_apply [of "\<lambda>s. cd_events s = cd_events (fst w)"] claim by (metis snd_conv)
  obtain g w2 where get: "GetCampaign p i w1 = (g, w2)" by (rule prod.exhaust)
  then have w2: "fst w2 = fst w1" unfolding GetCampaign_def by (rule Read_state)
  obtain t w3 where stats: "MessageStats i w2 = (t, w3)" by (rule prod.exhaust)
  then have w3: "fst w3 = fst w2" unfolding MessageStats_def by (rule Read_state)
  have "w' = w \<or> w' = w1 \<or> w' = w2 \<or> w' = w3 \<or> a = Inr True \<and> w' = notify_of TypeCampaignDone i (announce EventCampaignCompleted i w3)"
    using assms claim get stats by (auto simp: Finish_def andThen_def split: if_splits sum.splits option.splits)
  then show thesis
    using silent told claim w1 w2 w3 by (auto simp: announce_def notify_of_def)
qed

text \<open>
  C20: A campaign is announced as completed at most once, and only when it is over.  If an attempt to
  finish a campaign announces it, none of its messages was pending or queued any more; and then no
  attempt announces it again, neither the runner's nor that of any worker that settles a message, at
  any later state and whatever else ran in between, as long as the campaign is not deleted.
\<close>
theorem completion_announced_once:
  assumes pk: "distinct (map cp_id (cd_campaigns (fst w)))"
    and first: "Finish now p i w = (r, w1)" and told: "cd_events (fst w1) \<noteq> cd_events (fst w)"
    and run: "(kept_step i)\<^sup>*\<^sup>* (fst w1) (fst w2)" and again: "Finish now' p' i w2 = (r', w3)"
  shows "cd_events (fst w1) = cd_events (fst w) @ [(EventCampaignCompleted, i)] \<and> \<not> unsettled_message i (fst w) \<and>
    cd_events (fst w3) = cd_events (fst w2)"
  using first
proof (cases rule: Finish_cases)
  case (told v)
  obtain c where c: "c \<in> set (cd_campaigns (fst w))" "settled_now p i (fst w) c"
    and v: "fst v = fst (update_camps (settled_now p i (fst w)) (\<lambda>c. c\<lparr>cp_settled_at := Some now\<rparr>) (fst w))"
    using claimed_settled [OF told(1)] by blast
  have only: "d = c" if "d \<in> set (cd_campaigns (fst w))" "cp_id d = i" for d
    using that c pk by (auto simp: settled_now_def camp_is_def distinct_map dest: inj_onD)
  have rows: "cd_campaigns (fst w1) = sql_update (settled_now p i (fst w)) (\<lambda>c. c\<lparr>cp_settled_at := Some now\<rparr>) (cd_campaigns (fst w))"
    using told(3) v by (simp add: update_camps_def)
  have stamped: "all_of i (\<lambda>c. cp_settled_at c \<noteq> None) (fst w1)"
    using only c(2) by (auto simp: all_of_def rows set_sql_update)
  have "map cp_id (cd_campaigns (fst w1)) = map cp_id (cd_campaigns (fst w))"
    unfolding rows by (rule map_sql_update) simp
  moreover have "i \<in> ids_of_camps (fst w)"
    using c by (auto simp: ids_of_camps_def settled_now_def camp_is_def)
  ultimately have "i \<in> ids_of_camps (fst w1)"
    unfolding ids_of_camps_def set_map [symmetric] by (simp only:)
  from settled_kept [OF run this stamped] have later: "all_of i (\<lambda>c. cp_settled_at c \<noteq> None) (fst w2)" .
  from again have "cd_events (fst w3) = cd_events (fst w2)"
  proof (cases rule: Finish_cases)
    case (told u)
    from claimed_settled [OF told(1)] later show ?thesis by (auto simp: all_of_def settled_now_def camp_is_def)
  qed
  moreover have "\<not> unsettled_message i (fst w)" using c(2) by (simp add: settled_now_def unsettled_message_def)
  ultimately show ?thesis using told by simp
qed (use told in simp)

section \<open>Examples\<close>

definition campaign_sample :: "camp_status \<Rightarrow> campaign" where
  "campaign_sample st =
     \<lparr>cp_id = ''c'', cp_project_id = ''p'', cp_created_by = ''u'', cp_name = ''News'', cp_subject = ''Hello'',
      cp_from_email = ''a@example.com'', cp_from_name = [], cp_reply_to = [], cp_template_id = ''t'', cp_language = ''en'',
      cp_template_data = Map.empty, cp_headers = [], cp_status = st, cp_list_id = ''l'', cp_smtp_group_id = [],
      cp_send_rate = 0, cp_local_time = False, cp_ab_enabled = False, cp_variants = [], cp_unsubscribe_disabled = False,
      cp_disable_signing = False, cp_scheduled_at = None, cp_scheduled_offset = None, cp_started_at = Some 1,
      cp_completed_at = None, cp_next_batch_at = Some 1, cp_settled_at = None, cp_created_at = 1, cp_updated_at = None\<rparr>"

definition message_sample :: "string \<Rightarrow> string \<Rightarrow> msg_status \<Rightarrow> camp_message" where
  "message_sample i x st =
     \<lparr>cg_id = i, cg_campaign_id = ''c'', cg_subscriber_id = x, cg_email_id = [], cg_status = st, cg_error = [], cg_variant = [],
      cg_deliver_at = None, cg_sent_at = None, cg_opened_at = None, cg_clicked_at = None, cg_unsubscribed_at = None, cg_created_at = 1\<rparr>"

definition camp_db_sample :: "camp_status \<Rightarrow> camp_message list \<Rightarrow> camp_db" where
  "camp_db_sample st ms =
     \<lparr>cd_accept = accept_sample, cd_audience = audience_sample 3, cd_campaigns = [campaign_sample st], cd_messages = ms,
      cd_events = [], cd_notices = []\<rparr>"

theorem campaigns_follow_lifecycle_witness:
  "\<exists>w'. PauseCampaign 5 ''p'' ''c'' (camp_db_sample CampSending [], []) = (Ok ((campaign_sample CampPaused)\<lparr>cp_updated_at := Some 5\<rparr>), w') \<and>
     camp_step\<^sup>*\<^sup>* (camp_db_sample CampSending []) (fst w')"
proof -
  let ?w = "(camp_db_sample CampSending [], []) :: cworld"
  obtain r w' where run: "PauseCampaign 5 ''p'' ''c'' ?w = (r, w')" by (rule prod.exhaust)
  have "r = Ok ((campaign_sample CampPaused)\<lparr>cp_updated_at := Some 5\<rparr>)"
    using run by (auto simp: PauseCampaign_def TransitionStatus_def respondWith_def moved_def GetCampaign_def update_camps_def
      camp_db_sample_def campaign_sample_def camp_is_def sql_update_def sql_count_def)
  with run campaigns_follow_lifecycle [OF camp_call.paused [OF run]] show ?thesis by auto
qed

theorem completion_announced_once_witness:
  "cd_events (fst (snd (Finish 7 ''p'' ''c'' (camp_db_sample CampSent [message_sample ''m'' ''1'' MsgSent], [])))) =
     [(EventCampaignCompleted, ''c'')] \<and>
   cd_events (fst (snd (Finish 9 ''p'' ''c'' (snd (Finish 7 ''p'' ''c'' (camp_db_sample CampSent [message_sample ''m'' ''1'' MsgSent], [])))))) =
     [(EventCampaignCompleted, ''c'')]"
proof -
  let ?w = "(camp_db_sample CampSent [message_sample ''m'' ''1'' MsgSent], []) :: cworld"
  obtain r w1 where first: "Finish 7 ''p'' ''c'' ?w = (r, w1)" by (rule prod.exhaust)
  obtain r' w3 where again: "Finish 9 ''p'' ''c'' w1 = (r', w3)" by (rule prod.exhaust)
  have pk: "distinct (map cp_id (cd_campaigns (fst ?w)))" and none: "cd_events (fst ?w) = []"
    by (simp_all add: camp_db_sample_def)
  have told: "cd_events (fst w1) \<noteq> cd_events (fst ?w)"
    using first by (auto simp: Finish_def ClaimSettled_def moved_def GetCampaign_def MessageStats_def update_camps_def settled_now_def
      announce_def notify_of_def camp_db_sample_def campaign_sample_def message_sample_def camp_is_def sql_update_def sql_count_def)
  from completion_announced_once [OF pk first told rtranclp.rtrancl_refl again] show ?thesis
    using none by (simp add: first again)
qed

end
