(* ===== verification/Mailing.thy ===== *)
theory Mailing
  imports Lifecycle Rows
begin

text \<open>
  The mail of a campaign: what a batch puts into the email table, whichever of its statements fail.
\<close>

section \<open>Whom a message is for\<close>

definition camp_emails :: "camp_db \<Rightarrow> email list" where
  "camp_emails s = db_emails (ac_db (cd_accept s))"

definition subscriber_of :: "camp_db \<Rightarrow> campaign \<Rightarrow> camp_message \<Rightarrow> subscriber option" where
  "subscriber_of s c m =
     find (\<lambda>x. sb_project_id x = cp_project_id c \<and> sb_id x = cg_subscriber_id m) (ad_subscribers (cd_audience s))"

text \<open>The subscriber exists, is subscribed, and has not left the campaign's list.\<close>

definition wants :: "camp_db \<Rightarrow> campaign \<Rightarrow> camp_message \<Rightarrow> bool" where
  "wants s c m =
     (case subscriber_of s c m of
        None \<Rightarrow> False
      | Some x \<Rightarrow> sb_status x = StatusSubscribed \<and> \<not> opted_out (cp_project_id c) (cp_list_id c) (cd_audience s) (sb_id x))"

definition address_of :: "camp_db \<Rightarrow> campaign \<Rightarrow> camp_message \<Rightarrow> string" where
  "address_of s c m = (case subscriber_of s c m of None \<Rightarrow> [] | Some x \<Rightarrow> sb_email x)"

text \<open>Of a row of the email table: its id, its project and whom it asks.\<close>

definition asked :: "email \<Rightarrow> string \<times> string \<times> string list" where
  "asked e = (e_id e, e_project_id e, e_recipients e)"

lemma asked_put [simp]: "asked (put_row e) = asked e"
  by (simp add: asked_def put_row_def)

lemma wants_cong: "cd_audience s = cd_audience s' \<Longrightarrow> wants s = wants s' \<and> address_of s = address_of s'"
  by (simp add: fun_eq_iff wants_def address_of_def subscriber_of_def split: option.split)

section \<open>Calls that send nothing\<close>

text \<open>The email table asks what it asked, and the audience is the same.\<close>

definition quiet_mail :: "camp_db \<Rightarrow> camp_db \<Rightarrow> bool" where
  "quiet_mail s0 s = (map asked (camp_emails s) = map asked (camp_emails s0) \<and> cd_audience s = cd_audience s0)"

lemma quiet_messages:
  "keeps (quiet_mail s0) (UpdateMessage i st err e)" "keeps (quiet_mail s0) (QueueMessage i e)"
  unfolding UpdateMessage_def QueueMessage_def [abs_def]
  by (intro keeping keeps_Run, simp add: quiet_mail_def camp_emails_def update_msgs_def)+

lemma quiet_audience: "query m \<Longrightarrow> keeps (quiet_mail s0) (in_audience m)"
  unfolding in_audience_def
  by (rule keeps_Zoom [where J = "\<lambda>a. a = cd_audience s0"]) (auto simp: quiet_mail_def camp_emails_def still_query)

lemma quiet_cancel: "keeps (quiet_mail s0) (in_mail (CancelSend sv p i))"
proof -
  have "map asked (camp_emails (fst w')) = map asked (camp_emails (fst w)) \<and> cd_audience (fst w') = cd_audience (fst w)"
    if run: "in_mail (CancelSend sv p i) w = (r, w')" for w r w'
  proof -
    obtain r1 v where c: "CancelSend sv p i (cd_accept (fst w), snd w) = (r1, v)" by (rule prod.exhaust)
    then have w': "w' = ((fst w)\<lparr>cd_accept := fst v\<rparr>, snd v)" using run by (simp add: in_mail_def split: prod.splits)
    have "map asked (emails_of v) = map asked (emails_of (cd_accept (fst w), snd w))"
      using CancelSend_rows [OF c] by (auto simp: map_sql_update asked_def cancel_row_def)
    then show ?thesis by (simp add: w' camp_emails_def emails_of_def)
  qed
  then show ?thesis by (auto simp: keeps_def quiet_mail_def) (metis prod.collapse)+
qed

lemma quiet_record: "keeps (quiet_mail s0) (record_sent ru c m e)"
  unfolding record_sent_def [abs_def] by (intro keeping quiet_messages quiet_cancel)

lemma quiet_links: "keeps (quiet_mail s0) (upsert_seen p i ls seen)"
proof (induction ls arbitrary: seen)
  case Nil
  have "upsert_seen p i [] seen = (\<lambda>w. (seen, w))" by (rule ext) simp
  then show ?case by (simp only:) (rule keeping)
next
  case (Cons l ls)
  obtain url hash where l: "l = (url, hash)" by (rule prod.exhaust)
  let ?l = "\<lparr>tl_project_id = p, tl_campaign_id = i, tl_original_url = url, tl_hash = hash\<rparr>"
  have "ac_db (fst (snd (UpsertTrackedLink ?l v))) = ac_db (fst v)" for v
    using keeps_apply [of "\<lambda>s. ac_db s = ac_db (fst v)" "UpsertTrackedLink ?l" v] by (simp add: UpsertTrackedLink_def keeps_Run)
  then have one: "keeps (quiet_mail s0) (in_mail (UpsertTrackedLink ?l))"
    by (auto simp: keeps_def in_mail_def quiet_mail_def camp_emails_def split: prod.splits) (metis fst_conv snd_conv)
  have "upsert_seen p i (l # ls) seen = (\<lambda>w. if hash \<in> seen then upsert_seen p i ls seen w
      else upsert_seen p i ls (insert hash seen) (snd (in_mail (UpsertTrackedLink ?l) w)))"
    by (rule ext) (simp add: l)
  then show ?case
    by (simp only:) (intro keeping Cons.IH one keeps_then [where k = "upsert_seen p i ls (insert hash seen)"])
qed

lemma quiet_tracking: "keeps_pair (quiet_mail s0) (applyCampTracking ru c m i rq seen)"
  unfolding applyCampTracking_def [abs_def] Let_def by (intro keeping quiet_links)

section \<open>One message\<close>

text \<open>A batch added one email for a message, or none.\<close>

definition mailed :: "camp_db \<Rightarrow> campaign \<Rightarrow> camp_message \<Rightarrow> string \<Rightarrow> camp_db \<Rightarrow> bool" where
  "mailed s c m i s' =
     (wants s c m \<and> map asked (camp_emails s') = map asked (camp_emails s) @ [(i, cp_project_id c, [address_of s c m])] \<and>
      cd_audience s' = cd_audience s)"

lemma quiet_mail_refl [simp]: "quiet_mail s s"
  by (simp add: quiet_mail_def)

lemma send_one:
  assumes "in_mail (Send sv at i p u k rq) w = (r, w')" "rq_to rq = [a]" "rq_id rq \<in> {[], i}" "\<not> rq_system rq"
  shows "quiet_mail (fst w) (fst w') \<or>
    map asked (camp_emails (fst w')) = map asked (camp_emails (fst w)) @ [(i, p, [a])] \<and> cd_audience (fst w') = cd_audience (fst w)"
proof -
  let ?v = "(cd_accept (fst w), snd w)"
  obtain r1 v where send: "Send sv at i p u k rq ?v = (r1, v)" by (rule prod.exhaust)
  then have w': "w' = ((fst w)\<lparr>cd_accept := fst v\<rparr>, snd v)" using assms(1) by (simp add: in_mail_def split: prod.splits)
  from Send_rows [OF send] show ?thesis
  proof
    assume "isl r1 \<and> emails_of v = emails_of ?v"
    then show ?thesis by (simp add: w' quiet_mail_def camp_emails_def emails_of_def)
  next
    assume "\<exists>e allowed blocked. emails_of v = emails_of ?v @ [put_row e] \<and> made sv at i p (ac_projects (fst ?v)) rq allowed e \<and>
       (isl r1 \<or> r1 = Inr (e, blocked)) \<and> shape_fault sv (at_shape at) rq = None \<and>
       (if rq_system rq then allowed = rq_to rq \<and> blocked = []
        else allowed = filter (\<lambda>r. \<not> barred sv (fst ?v) p (rq_unsubscribe_list_id rq) r) (rq_to rq) \<and>
          blocked = filter (barred sv (fst ?v) p (rq_unsubscribe_list_id rq)) (rq_to rq))"
    then obtain e allowed where rows: "emails_of v = emails_of ?v @ [put_row e]"
      and made: "made sv at i p (ac_projects (fst ?v)) rq allowed e"
      and allowed: "allowed = filter (\<lambda>r. \<not> barred sv (fst ?v) p (rq_unsubscribe_list_id rq) r) [a]"
      using assms(2,4) by auto
    have "asked e = (i, p, [a])"
      using made_parts [OF made] allowed assms(2,3) by (auto simp: asked_def message_id_def split: if_splits)
    with rows show ?thesis by (simp add: w' camp_emails_def emails_of_def)
  qed
qed

text \<open>The request of a message asks one address and keeps its id through the tracking.\<close>

lemma tracked_request:
  assumes "applyCampTracking ru c m i rq seen w = (rq', seen', w')"
  shows "rq_to rq' = rq_to rq \<and> rq_system rq' = rq_system rq \<and> rq_id rq' \<in> {rq_id rq, i}"
  using assms by (auto simp: applyCampTracking_def substituted_def Let_def split: option.splits prod.splits if_splits)

lemma send_to_mails:
  assumes run: "send_to ru at i c m x seen w = (r, seen', w')" and x: "subscriber_of (fst w) c m = Some x" and wants: "wants (fst w) c m"
  shows "quiet_mail (fst w) (fst w') \<or> mailed (fst w) c m i (fst w')"
proof (cases "\<exists>out t files html. renderForSubscriber ru c (cg_variant m) x = Inr (out, t) \<and> ru_attach ru t (re_html out) = Inr (files, html)")
  case False
  with run show ?thesis by (auto simp: send_to_def split: sum.splits)
next
  case True
  then obtain out t files html where out: "renderForSubscriber ru c (cg_variant m) x = Inr (out, t)"
    and files: "ru_attach ru t (re_html out) = Inr (files, html)" by blast
  let ?rq = "(camp_request ru c x out t)\<lparr>rq_attachments := files, rq_html := html\<rparr>"
  obtain rq sn w1 where track: "applyCampTracking ru c m i ?rq seen w = (rq, sn, w1)" by (metis prod.exhaust)
  obtain r2 w2 where send: "in_mail (Send (ru_service ru) at i (cp_project_id c) (cp_created_by c) [] rq) w1 = (r2, w2)" by (rule prod.exhaust)
  have w1: "quiet_mail (fst w) (fst w1)"
    by (rule keeps_pair_apply [OF quiet_tracking quiet_mail_refl track])
  have rq: "rq_to rq = [sb_email x]" "rq_id rq \<in> {[], i}" "\<not> rq_system rq"
    using tracked_request [OF track] by (simp_all add: camp_request_def)
  have w': "quiet_mail (fst w2) (fst w')"
  proof (cases r2)
    case (Inl e)
    with run out files track send show ?thesis by (simp add: send_to_def)
  next
    case (Inr eb)
    obtain e b where "eb = (e, b)" by (rule prod.exhaust)
    with run out files track send Inr have "record_sent ru c m e w2 = (r, w')" by (simp add: send_to_def split: prod.splits)
    then show ?thesis using keeps_apply [OF quiet_record, of "fst w2" w2 ru c m e] by simp
  qed
  have addr: "address_of (fst w) c m = sb_email x" using x by (simp add: address_of_def)
  from send_one [OF send rq] show ?thesis
    using w1 w' wants addr by (auto simp: mailed_def quiet_mail_def)
qed

lemma audience_read:
  assumes "in_audience (Read q) w = (r, w')"
  shows "fst w' = fst w \<and> (\<forall>x. r = Inr x \<longrightarrow> x = q (cd_audience (fst w)))"
proof -
  obtain r1 v where v: "Read q (cd_audience (fst w), snd w) = (r1, v)" by (rule prod.exhaust)
  then have w': "r = r1" "w' = ((fst w)\<lparr>cd_audience := fst v\<rparr>, snd v)"
    using assms by (simp_all add: in_audience_def Zoom_def split: prod.splits)
  have "fst v = cd_audience (fst w)" using Read_state [OF v] by simp
  moreover have "x = q (cd_audience (fst w))" if "r = Inr x" for x
    using Read_Inr [of q "(cd_audience (fst w), snd w)" x v] v w'(1) that by simp
  ultimately show ?thesis using w' by simp
qed

lemma deliver_mails:
  assumes run: "deliverMessage ru at i c m seen w = (r, seen', w')"
  shows "quiet_mail (fst w) (fst w') \<or> mailed (fst w) c m i (fst w')"
proof -
  let ?get = "in_audience (GetSubscriber (cp_project_id c) (cg_subscriber_id m))"
  have skip: "quiet_mail (fst v) (fst w')" if "updated (UpdateMessage (cg_id m) MsgSkipped why [] v) = (r, w')" for why v
    using keeps_apply [OF keeps_updated [OF quiet_messages(1)], of "fst v" v] that by (metis snd_conv quiet_mail_refl)
  obtain g w1 where get: "?get w = (g, w1)" by (rule prod.exhaust)
  have w1: "fst w1 = fst w" and g: "\<And>x. g = Inr x \<Longrightarrow> x = subscriber_of (fst w) c m"
    using audience_read [OF get [unfolded GetSubscriber_def]] by (simp_all add: subscriber_of_def)
  show ?thesis
  proof (cases "\<exists>x. g = Inr (Some x) \<and> sb_status x = StatusSubscribed")
    case False
    with run get w1 skip [of _ w1] show ?thesis
      by (auto simp: deliverMessage_def Let_def split: sum.splits option.splits prod.splits if_splits)
  next
    case True
    then obtain x where x: "g = Inr (Some x)" "sb_status x = StatusSubscribed" by blast
    obtain o2 w2 where out: "in_audience (IsOptedOut (cp_project_id c) (cp_list_id c) (sb_id x)) w1 = (o2, w2)" by (rule prod.exhaust)
    have w2: "fst w2 = fst w" and left: "\<And>b. o2 = Inr b \<Longrightarrow> b = opted_out (cp_project_id c) (cp_list_id c) (cd_audience (fst w)) (sb_id x)"
      using audience_read [OF out [unfolded IsOptedOut_def]] w1 by simp_all
    show ?thesis
    proof (cases "o2 = Inr False")
      case False
      with run get x out w2 skip [of _ w2] show ?thesis
        by (auto simp: deliverMessage_def Let_def split: sum.splits bool.splits prod.splits)
    next
      case True
      with run get x out have "send_to ru at i c m x seen w2 = (r, seen', w')" by (simp add: deliverMessage_def Let_def)
      from send_to_mails [OF this] show ?thesis
        using w2 g [OF x(1), symmetric] left [OF True] x(2) by (simp add: wants_def)
    qed
  qed
qed

section \<open>A batch\<close>

definition mail_of :: "batch_run \<Rightarrow> camp_db \<Rightarrow> campaign \<Rightarrow> camp_message list \<Rightarrow> nat \<Rightarrow> string \<times> string \<times> string list" where
  "mail_of ba s c batch k = (ba_email ba k, cp_project_id c, [address_of s c (batch ! k)])"

lemma deliver_each_step:
  assumes "deliver_each ru ba c k seen (m # ms) w = (q, w')"
  obtains (stopped) v where "quiet_mail (fst w) (fst v)" "w' = v"
    | (went) seen2 v where "quiet_mail (fst w) (fst v) \<or> mailed (fst w) c m (ba_email ba k) (fst v)"
        "w' = v \<or> deliver_each ru ba c (Suc k) seen2 ms v = (q, w')"
proof -
  obtain st w1 where status: "StatusOf (cp_project_id c) (cp_id c) w = (st, w1)" by (rule prod.exhaust)
  then have w1: "fst w1 = fst w" unfolding StatusOf_def by (rule Read_state)
  obtain r seen2 w2 where one: "deliverMessage ru (ba_send ba k) (ba_email ba k) c m seen w1 = (r, seen2, w2)" by (metis prod.exhaust)
  from deliver_mails [OF this] w1 have w2: "quiet_mail (fst w) (fst w2) \<or> mailed (fst w) c m (ba_email ba k) (fst w2)" by simp
  have failed: "quiet_mail (fst w2) (fst (snd (UpdateMessage (cg_id m) MsgFailed t [] w2)))" for t
    using keeps_apply [OF quiet_messages(1), of "fst w2" w2] by simp
  have later: "quiet_mail (fst w) s \<or> mailed (fst w) c m (ba_email ba k) s" if "quiet_mail (fst w2) s" for s
    using w2 that by (auto simp: quiet_mail_def mailed_def)
  have "w' = w \<or> w' = w1 \<or> w' = w2 \<or>
      (\<exists>t. deliver_each ru ba c (Suc k) seen2 ms (snd (UpdateMessage (cg_id m) MsgFailed t [] w2)) = (q, w')) \<or>
      deliver_each ru ba c (Suc k) seen2 ms w2 = (q, w')"
    using assms status one unfolding deliver_each_Cons by (auto split: if_splits option.splits)
  then show thesis
  proof (elim disjE exE)
    assume "w' = w" then show thesis by (intro stopped) simp_all
  next
    assume "w' = w1" with w1 show thesis by (intro stopped) simp_all
  next
    assume "w' = w2" with w2 show thesis by (intro went [of w2 seen2]) simp_all
  next
    fix t
    assume "deliver_each ru ba c (Suc k) seen2 ms (snd (UpdateMessage (cg_id m) MsgFailed t [] w2)) = (q, w')"
    then show thesis by (rule went [OF later [OF failed] disjI2])
  next
    assume "deliver_each ru ba c (Suc k) seen2 ms w2 = (q, w')"
    with w2 show thesis by (intro went [of w2 seen2]) simp_all
  qed
qed

lemma each_mails:
  assumes "deliver_each ru ba c k seen ms w = (q, w')"
  shows "\<exists>ks. sorted_wrt (<) ks \<and> set ks \<subseteq> {k..<k + length ms} \<and> (\<forall>j \<in> set ks. wants (fst w) c (ms ! (j - k))) \<and>
    map asked (camp_emails (fst w')) = map asked (camp_emails (fst w)) @
      map (\<lambda>j. (ba_email ba j, cp_project_id c, [address_of (fst w) c (ms ! (j - k))])) ks"
  using assms
proof (induction ms arbitrary: k seen w)
  case (Cons m ms)
  let ?mail = "\<lambda>j. (ba_email ba j, cp_project_id c, [address_of (fst w) c ((m # ms) ! (j - k))])"
  from Cons.prems show ?case
  proof (cases rule: deliver_each_step)
    case (stopped v)
    then show ?thesis by (intro exI [of _ "[]"]) (simp add: quiet_mail_def)
  next
    case (went seen2 v)
    have same: "cd_audience (fst v) = cd_audience (fst w)" using went(1) by (auto simp: quiet_mail_def mailed_def)
    from went(2) obtain ks where ks: "sorted_wrt (<) ks" "set ks \<subseteq> {Suc k..<Suc k + length ms}"
        "\<forall>j \<in> set ks. wants (fst v) c (ms ! (j - Suc k))"
        "map asked (camp_emails (fst w')) = map asked (camp_emails (fst v)) @
          map (\<lambda>j. (ba_email ba j, cp_project_id c, [address_of (fst v) c (ms ! (j - Suc k))])) ks"
      using Cons.IH [of "Suc k" seen2 v] by (elim disjE) (auto intro: exI [of _ "[]"])
    have at: "ms ! (j - Suc k) = (m # ms) ! (j - k)" if "j \<in> set ks" for j
      using that ks(2) by (auto simp: nth_Cons' Suc_diff_Suc dest!: subsetD)
    have rest: "map (\<lambda>j. (ba_email ba j, cp_project_id c, [address_of (fst v) c (ms ! (j - Suc k))])) ks = map ?mail ks"
        "\<forall>j \<in> set ks. wants (fst w) c ((m # ms) ! (j - k))"
      using at ks(3) wants_cong [OF same] by simp_all
    from went(1) show ?thesis
    proof
      assume "quiet_mail (fst w) (fst v)"
      with ks rest show ?thesis by (intro exI [of _ ks]) (auto simp: quiet_mail_def)
    next
      assume "mailed (fst w) c m (ba_email ba k) (fst v)"
      with ks rest show ?thesis by (intro exI [of _ "k # ks"]) (auto simp: mailed_def)
    qed
  qed
qed (auto intro: exI [of _ "[]"])

text \<open>
  C21: A campaign mails only people who want it, each of its messages at most once per batch.  Whichever statements fail, the rows a batch adds to the email table are one for each of some of its
  messages, in their order, each asking just the message's subscriber, who exists, is subscribed and has
  not left the list; and a batch of a campaign whose state, when it is read before the first message, turns
  out paused, cancelled or deleted changes nothing.  A read of the state that fails does not stop a batch.
\<close>
theorem campaign_mail_wanted:
  assumes "deliverBatch ru ba c batch w = (q, w')"
  shows "(\<exists>ks. sorted_wrt (<) ks \<and> set ks \<subseteq> {..<length batch} \<and> (\<forall>k \<in> set ks. wants (fst w) c (batch ! k)) \<and>
      map asked (camp_emails (fst w')) = map asked (camp_emails (fst w)) @ map (mail_of ba (fst w) c batch) ks) \<and>
    (\<forall>st w1. StatusOf (cp_project_id c) (cp_id c) w = (Inr st, w1) \<and> st \<noteq> Some CampSending \<longrightarrow> fst w' = fst w)"
proof -
  obtain ks where "sorted_wrt (<) ks" "set ks \<subseteq> {0..<0 + length batch}" "\<forall>j \<in> set ks. wants (fst w) c (batch ! (j - 0))"
      "map asked (camp_emails (fst w')) = map asked (camp_emails (fst w)) @
        map (\<lambda>j. (ba_email ba j, cp_project_id c, [address_of (fst w) c (batch ! (j - 0))])) ks"
    using each_mails [OF assms [unfolded deliverBatch_def]] by blast
  moreover have "fst w' = fst w" if "StatusOf (cp_project_id c) (cp_id c) w = (Inr st, w1)" "st \<noteq> Some CampSending" for st w1
  proof (cases batch)
    case (Cons m ms)
    have "fst w1 = fst w" using that(1) Read_state unfolding StatusOf_def by blast
    then show ?thesis using assms that by (auto simp: deliverBatch_def Cons split: if_splits)
  qed (use assms in \<open>simp add: deliverBatch_def\<close>)
  ultimately show ?thesis by (auto simp: mail_of_def [abs_def] lessThan_atLeast0)
qed

section \<open>Example\<close>

definition runner_sample :: runner where
  "runner_sample =
     \<lparr>ru_service = plain_service, ru_tracking = None, ru_batch_size = 10, ru_poll_interval = 10, ru_reading = reading_sample,
      ru_resolve = (\<lambda>_ _ _. Inr \<lparr>lo_name = ''t'', lo_render = (\<lambda>_. Inr \<lparr>re_subject = ''Hello'', re_html = [], re_text = ''text''\<rparr>)\<rparr>),
      ru_subject = (\<lambda>t _. Inr t), ru_attach = (\<lambda>_ html. Inr ([], html)), ru_local = (\<lambda>t _ _. Some t), ru_shuffle = (\<lambda>ms. ms),
      ru_tie_members = (\<lambda>_ xs. xs), ru_tie_campaigns = (\<lambda>xs. xs), ru_tie_messages = (\<lambda>xs. xs)\<rparr>"

definition batch_sample :: batch_run where
  "batch_sample =
     \<lparr>ba_claim = 2, ba_due = 2, ba_fan = 2, ba_next = 2, ba_floor = 2, ba_write = 2, ba_send = (\<lambda>_. instants_sample),
      ba_ids = (\<lambda>k. [char_of (97 + k)]), ba_email = (\<lambda>k. ''e'' @ [char_of (48 + k)]), ba_stop = (\<lambda>_. False),
      ba_meantime = (\<lambda>_ s. s), ba_locked = {}\<rparr>"

text \<open>One subscriber wants the mail, the other left the list.\<close>

abbreviation "mail_batch_sample \<equiv> [message_sample ''m'' ''1'' MsgPending, message_sample ''n'' ''2'' MsgPending]"

abbreviation "mail_run_sample \<equiv>
  deliverBatch runner_sample batch_sample (campaign_sample CampSending) mail_batch_sample (camp_db_sample CampSending mail_batch_sample, [])"

lemma sample_mails: "length (camp_emails (fst (snd mail_run_sample))) = 1"
  by code_simp

theorem campaign_mail_wanted_witness:
  "map asked (camp_emails (fst (snd mail_run_sample))) = [(''e0'', ''p'', [''a@x''])]"
proof -
  let ?s = "camp_db_sample CampSending mail_batch_sample" and ?c = "campaign_sample CampSending"
  obtain q w' where run: "mail_run_sample = (q, w')" by (rule prod.exhaust)
  have empty: "camp_emails ?s = []" by (simp add: camp_emails_def camp_db_sample_def accept_sample_def)
  have left: "\<not> wants ?s ?c (mail_batch_sample ! 1)" and mail: "mail_of batch_sample ?s ?c mail_batch_sample 0 = (''e0'', ''p'', [''a@x''])"
    by code_simp+
  obtain ks where ks: "set ks \<subseteq> {..<2}" "\<forall>k \<in> set ks. wants ?s ?c (mail_batch_sample ! k)"
      "map asked (camp_emails (fst w')) = map (mail_of batch_sample ?s ?c mail_batch_sample) ks"
    using campaign_mail_wanted [OF run] empty by (auto simp: numeral_2_eq_2)
  have zero: "\<forall>k \<in> set ks. k = 0"
  proof
    fix k assume k: "k \<in> set ks"
    then have "k = 0 \<or> k = 1" using ks(1) by auto
    with k ks(2) left show "k = 0" by auto
  qed
  have "length ks = 1"
    using arg_cong [OF ks(3), of length] sample_mails run by simp
  then obtain k where k: "ks = [k]" by (cases ks) auto
  with zero have "ks = [0]" by simp
  with ks(3) mail run show ?thesis by simp
qed

end
