(* ===== verification/Accounts.thy ===== *)
theory Accounts
  imports Statement
begin

text \<open>
  The accounts of the installation (\<^verbatim>\<open>internal/domain/user/store.go\<close>): the users table, its lockout
  columns and the recovery codes.  The tables of sessions, reset links, passkeys and projects stand in the same
  record, because a deleted account takes its rows there with it.  A NULL password hash or role is the empty string, as the stores
  read it; the number of passkeys a read resolves is not modelled.
\<close>

section \<open>Tables\<close>

definition AccountLocal :: int where "AccountLocal = 1"
definition AccountOIDC :: int where "AccountOIDC = 2"

record account =
  ua_id :: string
  ua_email :: string
  ua_password_hash :: string
  ua_account_type :: int
  ua_admin :: bool
  ua_disabled :: bool
  ua_email_verified :: bool
  ua_totp_secret :: string
  ua_totp_enabled :: bool
  ua_created_at :: time
  ua_last_login_at :: "time option"
  ua_totp_last_step :: nat
  ua_totp_failures :: int
  ua_totp_locked_until :: "time option"
  ua_login_failures :: int
  ua_login_locked_until :: "time option"

record recovery_code =
  rv_id :: string
  rv_user_id :: string
  rv_code_hash :: string
  rv_used_at :: "time option"

record tenant =
  tn_id :: string
  tn_name :: string
  tn_slug :: string
  tn_description :: string
  tn_owner_id :: string
  tn_default_language :: string
  tn_plan_id :: string
  tn_default_role_id :: string
  tn_strict_senders :: bool
  tn_track_opens :: bool
  tn_track_clicks :: bool
  tn_bounce_address :: string
  tn_alert_email :: string
  tn_sandbox_retention_days :: int
  tn_default_headers :: "(string \<times> string) list"
  tn_submission_drop_headers :: "string list"
  tn_created_at :: time
  tn_updated_at :: "time option"

record member_row =
  ms_id :: string
  ms_project_id :: string
  ms_user_id :: string
  ms_owner :: bool
  ms_role_id :: string
  ms_created_at :: time

record project_role =
  pr_id :: string
  pr_project_id :: string
  pr_name :: string
  pr_description :: string
  pr_permissions :: "string list"
  pr_created_at :: time
  pr_updated_at :: "time option"

datatype invitation_status = InvitationPending | InvitationAccepted | InvitationDeclined

record invitation =
  iv_id :: string
  iv_project_id :: string
  iv_email :: string
  iv_role_id :: string
  iv_token :: string
  iv_status :: invitation_status
  iv_invited_by :: string
  iv_expires_at :: time
  iv_created_at :: time

record invitation_send =
  is_id :: string
  is_project_id :: string
  is_email :: string
  is_created_at :: time

record session =
  se_id :: string
  se_user_id :: string
  se_user_agent :: string
  se_ip :: string
  se_created_at :: time
  se_last_seen_at :: time
  se_expires_at :: time
  se_revoked :: bool
  se_auth_provider_id :: string

record reset_token =
  rt_id :: string
  rt_user_id :: string
  rt_token_hash :: string
  rt_expires_at :: time
  rt_used_at :: "time option"
  rt_created_at :: time
  rt_request_ip :: string

record passkey =
  pk_id :: string
  pk_user_id :: string
  pk_credential_id :: string
  pk_name :: string
  pk_credential :: string
  pk_created_at :: time
  pk_last_used_at :: "time option"

record tenant_db =
  td_users :: "account list"
  td_codes :: "recovery_code list"
  td_sessions :: "session list"
  td_resets :: "reset_token list"
  td_passkeys :: "passkey list"
  td_challenges :: "(string \<times> time) list"
  td_projects :: "tenant list"
  td_members :: "member_row list"
  td_roles :: "project_role list"
  td_invitations :: "invitation list"
  td_sends :: "invitation_send list"

type_synonym tworld = "tenant_db world"

definition DuplicateKey :: error where "DuplicateKey = ''duplicate key value violates unique constraint''"
definition NoSuchRow :: error where "NoSuchRow = ''insert violates foreign key constraint''"

definition IsAdmin :: "account \<Rightarrow> bool" where
  "IsAdmin u = ua_admin u"

definition ManagesOwnCredentials :: "account \<Rightarrow> bool" where
  "ManagesOwnCredentials u = (ua_account_type u \<noteq> AccountOIDC)"

definition account_is :: "string \<Rightarrow> account \<Rightarrow> bool" where
  "account_is i u = (ua_id u = i)"

definition enabled_admin :: "account \<Rightarrow> bool" where
  "enabled_admin u = (ua_admin u \<and> \<not> ua_disabled u)"

definition update_accounts :: "(account \<Rightarrow> bool) \<Rightarrow> (account \<Rightarrow> account) \<Rightarrow> tenant_db \<Rightarrow> tenant_db \<times> bool" where
  "update_accounts p f s = (s\<lparr>td_users := sql_update p f (td_users s)\<rparr>, 0 < sql_count p (td_users s))"

section \<open>Reading and writing an account\<close>

definition GetUser :: "string \<Rightarrow> tworld \<Rightarrow> (tenant_db, account option) answer" where
  "GetUser email = Read (\<lambda>s. find (\<lambda>u. ua_email u = email) (td_users s))"

definition GetUserByID :: "string \<Rightarrow> tworld \<Rightarrow> (tenant_db, account option) answer" where
  "GetUserByID i = Read (\<lambda>s. find (account_is i) (td_users s))"

text \<open>The columns an upsert takes from the row it is given_or, and a row that is inserted.\<close>

definition account_of :: "account \<Rightarrow> account \<Rightarrow> account" where
  "account_of u k = k\<lparr>ua_email := ua_email u, ua_password_hash := ua_password_hash u, ua_account_type := ua_account_type u,
     ua_admin := ua_admin u, ua_disabled := ua_disabled u, ua_email_verified := ua_email_verified u,
     ua_totp_secret := ua_totp_secret u, ua_totp_enabled := ua_totp_enabled u, ua_last_login_at := ua_last_login_at u\<rparr>"

definition new_account :: "account \<Rightarrow> account" where
  "new_account u = u\<lparr>ua_totp_last_step := 0, ua_totp_failures := 0, ua_totp_locked_until := None, ua_login_failures := 0,
     ua_login_locked_until := None\<rparr>"

definition stamped_account :: "time \<Rightarrow> account \<Rightarrow> account" where
  "stamped_account now u =
     u\<lparr>ua_account_type := (if ua_account_type u = 0 then AccountLocal else ua_account_type u),
       ua_created_at := (if ua_created_at u = zero_time then now else ua_created_at u)\<rparr>"

definition put_account :: "time \<Rightarrow> account \<Rightarrow> tenant_db \<Rightarrow> error + (tenant_db \<times> unit)" where
  "put_account now u s =
     (if list_ex (\<lambda>k. ua_email k = ua_email u \<and> ua_id k \<noteq> ua_id u) (td_users s) then Inl DuplicateKey
      else if list_ex (account_is (ua_id u)) (td_users s)
      then Inr (fst (update_accounts (account_is (ua_id u)) (account_of (stamped_account now u)) s), ())
      else Inr (s\<lparr>td_users := td_users s @ [new_account (stamped_account now u)]\<rparr>, ()))"

definition PutUser :: "time \<Rightarrow> account \<Rightarrow> tworld \<Rightarrow> (tenant_db, unit) answer" where
  "PutUser now u = Try (put_account now u)"

text \<open>Deleting an account takes along what refers to it.\<close>

definition delete_account :: "string \<Rightarrow> tenant_db \<Rightarrow> tenant_db" where
  "delete_account i s =
     (if list_ex (account_is i) (td_users s)
      then s\<lparr>td_users := sql_delete (account_is i) (td_users s),
             td_codes := sql_delete (\<lambda>c. rv_user_id c = i) (td_codes s),
             td_sessions := sql_delete (\<lambda>c. se_user_id c = i) (td_sessions s),
             td_resets := sql_delete (\<lambda>c. rt_user_id c = i) (td_resets s),
             td_passkeys := sql_delete (\<lambda>c. pk_user_id c = i) (td_passkeys s),
             td_members := sql_delete (\<lambda>m. ms_user_id m = i) (td_members s)\<rparr>
      else s)"

definition DeleteUser :: "string \<Rightarrow> tworld \<Rightarrow> (tenant_db, unit) answer" where
  "DeleteUser i = Run (\<lambda>s. (delete_account i s, ()))"

section \<open>Keeping an administrator\<close>

definition lockActiveAdmins :: "string \<Rightarrow> tworld \<Rightarrow> (tenant_db, nat \<times> bool) answer" where
  "lockActiveAdmins i =
     Read (\<lambda>s. (length (filter (\<lambda>u. enabled_admin u \<and> ua_id u \<noteq> i) (td_users s)),
               list_ex (\<lambda>u. enabled_admin u \<and> ua_id u = i) (td_users s)))"

text \<open>The result of a guarded write: \<open>False\<close> is \<^verbatim>\<open>ErrLastAdmin\<close>.\<close>

definition PutKeepingAnAdmin :: "time \<Rightarrow> account \<Rightarrow> tworld \<Rightarrow> (tenant_db, bool) answer" where
  "PutKeepingAnAdmin now u =
     Transaction (\<lambda>w. andThen (lockActiveAdmins (ua_id u) w) (\<lambda>(others, target) w.
       if others = 0 \<and> (\<not> ua_admin u \<or> ua_disabled u) then Return (False, False) w
       else andThen (PutUser now u w) (\<lambda>_ w. Return (True, True) w)))"

definition DeleteKeepingAnAdmin :: "string \<Rightarrow> tworld \<Rightarrow> (tenant_db, bool) answer" where
  "DeleteKeepingAnAdmin i =
     Transaction (\<lambda>w. andThen (lockActiveAdmins i w) (\<lambda>(others, target) w.
       if target \<and> others = 0 then Return (False, False) w
       else andThen (DeleteUser i w) (\<lambda>_ w. Return (True, True) w)))"

definition PutFirst :: "time \<Rightarrow> account \<Rightarrow> bool \<Rightarrow> tworld \<Rightarrow> (tenant_db, bool) answer" where
  "PutFirst now u onlyIfFirst =
     Transaction (\<lambda>w. andThen (Read (\<lambda>_. ()) w) (\<lambda>_ w.
       andThen (Read (\<lambda>s. length (td_users s)) w) (\<lambda>n w.
         if n \<noteq> 0 \<and> onlyIfFirst then Return (False, False) w
         else andThen (PutUser now (u\<lparr>ua_admin := n = 0\<rparr>) w) (\<lambda>_ w. Return (n = 0, True) w))))"

section \<open>Writing one fact\<close>

definition MarkEmailVerified :: "string \<Rightarrow> tworld \<Rightarrow> (tenant_db, bool) answer" where
  "MarkEmailVerified i = Run (update_accounts (account_is i) (\<lambda>u. u\<lparr>ua_email_verified := True\<rparr>))"

definition SetPassword :: "string \<Rightarrow> string \<Rightarrow> tworld \<Rightarrow> (tenant_db, bool) answer" where
  "SetPassword i h = Run (update_accounts (account_is i) (\<lambda>u. u\<lparr>ua_password_hash := h\<rparr>))"

definition SetTOTP :: "string \<Rightarrow> string \<Rightarrow> bool \<Rightarrow> tworld \<Rightarrow> (tenant_db, bool) answer" where
  "SetTOTP i sec en = Run (update_accounts (account_is i) (\<lambda>u. u\<lparr>ua_totp_secret := sec, ua_totp_enabled := en\<rparr>))"

definition TouchLastLogin :: "time \<Rightarrow> string \<Rightarrow> tworld \<Rightarrow> (tenant_db, bool) answer" where
  "TouchLastLogin now email = Run (update_accounts (\<lambda>u. ua_email u = email) (\<lambda>u. u\<lparr>ua_last_login_at := Some now\<rparr>))"

definition ClaimTOTPStep :: "string \<Rightarrow> nat \<Rightarrow> tworld \<Rightarrow> (tenant_db, bool) answer" where
  "ClaimTOTPStep i step =
     Run (update_accounts (\<lambda>u. ua_id u = i \<and> ua_totp_last_step u < step) (\<lambda>u. u\<lparr>ua_totp_last_step := step\<rparr>))"

definition CountUsers :: "tworld \<Rightarrow> (tenant_db, nat) answer" where
  "CountUsers = Read (\<lambda>s. length (td_users s))"

section \<open>Lockout\<close>

text \<open>
  The column is read into a value that is not valid until the read succeeded, and that is tested before
  the error is: a read that failed answers \<open>None\<close>, like an account that is not locked.
\<close>

definition LockedUntil :: "(account \<Rightarrow> time option) \<Rightarrow> string \<Rightarrow> tworld \<Rightarrow> (tenant_db, time option) answer" where
  "LockedUntil col i w =
     (case Read (\<lambda>s. find (account_is i) (td_users s)) w of
        (Inl e, w) \<Rightarrow> (Inr None, w)
      | (Inr None, w) \<Rightarrow> (Inr None, w)
      | (Inr (Some u), w) \<Rightarrow> (Inr (col u), w))"

definition TOTPLockedUntil :: "string \<Rightarrow> tworld \<Rightarrow> (tenant_db, time option) answer" where
  "TOTPLockedUntil = LockedUntil ua_totp_locked_until"

definition LoginLockedUntil :: "string \<Rightarrow> tworld \<Rightarrow> (tenant_db, time option) answer" where
  "LoginLockedUntil = LockedUntil ua_login_locked_until"

definition totp_failed :: "time \<Rightarrow> int \<Rightarrow> int \<Rightarrow> account \<Rightarrow> account" where
  "totp_failed now limit lock u =
     u\<lparr>ua_totp_failures := (if ua_totp_failures u + 1 \<ge> limit then 0 else ua_totp_failures u + 1),
       ua_totp_locked_until := (if ua_totp_failures u + 1 \<ge> limit then Some (now + lock) else ua_totp_locked_until u)\<rparr>"

definition login_failed :: "time \<Rightarrow> int \<Rightarrow> int \<Rightarrow> account \<Rightarrow> account" where
  "login_failed now limit lock u =
     u\<lparr>ua_login_failures := (if ua_login_failures u + 1 \<ge> limit then 0 else ua_login_failures u + 1),
       ua_login_locked_until := (if ua_login_failures u + 1 \<ge> limit then Some (now + lock) else ua_login_locked_until u)\<rparr>"

text \<open>The statement returns the column it wrote; \<open>later\<close> is the clock when the answer is compared with it.\<close>

definition still_locked :: "time \<Rightarrow> time option \<Rightarrow> bool" where
  "still_locked later until = (case until of None \<Rightarrow> False | Some t \<Rightarrow> later < t)"

definition RecordFailure ::
    "(account \<Rightarrow> account) \<Rightarrow> (account \<Rightarrow> time option) \<Rightarrow> time \<Rightarrow> string \<Rightarrow> tworld \<Rightarrow> (tenant_db, bool) answer" where
  "RecordFailure f col later i =
     Run (\<lambda>s. (fst (update_accounts (account_is i) f s),
               (case find (account_is i) (td_users s) of None \<Rightarrow> False | Some u \<Rightarrow> still_locked later (col (f u)))))"

definition RecordTOTPFailure :: "time \<Rightarrow> time \<Rightarrow> string \<Rightarrow> int \<Rightarrow> int \<Rightarrow> tworld \<Rightarrow> (tenant_db, bool) answer" where
  "RecordTOTPFailure now later i limit lock = RecordFailure (totp_failed now limit lock) ua_totp_locked_until later i"

definition RecordLoginFailure :: "time \<Rightarrow> time \<Rightarrow> string \<Rightarrow> int \<Rightarrow> int \<Rightarrow> tworld \<Rightarrow> (tenant_db, bool) answer" where
  "RecordLoginFailure now later i limit lock = RecordFailure (login_failed now limit lock) ua_login_locked_until later i"

definition ClearTOTPFailures :: "string \<Rightarrow> tworld \<Rightarrow> (tenant_db, bool) answer" where
  "ClearTOTPFailures i =
     Run (update_accounts (account_is i) (\<lambda>u. u\<lparr>ua_totp_failures := 0, ua_totp_locked_until := None\<rparr>))"

definition ClearLoginFailures :: "string \<Rightarrow> tworld \<Rightarrow> (tenant_db, bool) answer" where
  "ClearLoginFailures i =
     Run (update_accounts (account_is i) (\<lambda>u. u\<lparr>ua_login_failures := 0, ua_login_locked_until := None\<rparr>))"

section \<open>Recovery codes\<close>

definition add_code :: "string \<Rightarrow> string \<Rightarrow> string \<Rightarrow> tenant_db \<Rightarrow> error + (tenant_db \<times> unit)" where
  "add_code i u h s =
     (if list_ex (\<lambda>c. rv_id c = i \<or> rv_user_id c = u \<and> rv_code_hash c = h) (td_codes s) then Inl DuplicateKey
      else if \<not> list_ex (account_is u) (td_users s) then Inl NoSuchRow
      else Inr (s\<lparr>td_codes := td_codes s @ [\<lparr>rv_id = i, rv_user_id = u, rv_code_hash = h, rv_used_at = None\<rparr>]\<rparr>, ()))"

fun add_codes :: "string \<Rightarrow> (string \<times> string) list \<Rightarrow> tworld \<Rightarrow> (tenant_db, unit) answer" where
  "add_codes u [] w = Return () w"
| "add_codes u ((i, h) # hs) w = andThen (Try (add_code i u h) w) (\<lambda>_ w. add_codes u hs w)"

definition codes_of :: "string \<Rightarrow> recovery_code \<Rightarrow> bool" where
  "codes_of i c = (rv_user_id c = i)"

definition ReplaceRecoveryCodes :: "string \<Rightarrow> (string \<times> string) list \<Rightarrow> tworld \<Rightarrow> (tenant_db, unit) answer" where
  "ReplaceRecoveryCodes u hs =
     Transaction (\<lambda>w. andThen (Run (\<lambda>s. (s\<lparr>td_codes := sql_delete (codes_of u) (td_codes s)\<rparr>, ())) w) (\<lambda>_ w.
       andThen (add_codes u hs w) (\<lambda>_ w. Return ((), True) w)))"

definition unspent :: "string \<Rightarrow> string \<Rightarrow> recovery_code \<Rightarrow> bool" where
  "unspent u h c = (rv_user_id c = u \<and> rv_code_hash c = h \<and> rv_used_at c = None)"

definition ClaimRecoveryCode :: "time \<Rightarrow> string \<Rightarrow> string \<Rightarrow> tworld \<Rightarrow> (tenant_db, bool) answer" where
  "ClaimRecoveryCode now u h =
     Run (\<lambda>s. (s\<lparr>td_codes := sql_update (unspent u h) (\<lambda>c. c\<lparr>rv_used_at := Some now\<rparr>) (td_codes s)\<rparr>,
               0 < sql_count (unspent u h) (td_codes s)))"

definition RemainingRecoveryCodes :: "string \<Rightarrow> tworld \<Rightarrow> (tenant_db, nat) answer" where
  "RemainingRecoveryCodes u = Read (\<lambda>s. sql_count (\<lambda>c. rv_user_id c = u \<and> rv_used_at c = None) (td_codes s))"

definition DeleteRecoveryCodes :: "string \<Rightarrow> tworld \<Rightarrow> (tenant_db, unit) answer" where
  "DeleteRecoveryCodes u = Run (\<lambda>s. (s\<lparr>td_codes := sql_delete (codes_of u) (td_codes s)\<rparr>, ()))"

section \<open>Facts\<close>

text \<open>What the comment on the login path counts on does not hold: a failed read is not a locked account.\<close>

lemma failed_read_unlocks:
  "LoginLockedUntil i (s, Some (Refused e) # fs) = (Inr None, (s, fs))"
  "TOTPLockedUntil i (s, Some (Refused e) # fs) = (Inr None, (s, fs))"
  by (simp_all add: LoginLockedUntil_def TOTPLockedUntil_def LockedUntil_def Read_def Run_def)

lemma all_rewritten:
  assumes "\<And>r. p r \<Longrightarrow> \<not> q (f r)" "\<And>r. q r \<Longrightarrow> p r"
  shows "\<forall>r \<in> set (sql_update p f rs). \<not> q r"
proof
  fix c
  assume "c \<in> set (sql_update p f rs)"
  then obtain r where "c = (if p r then f r else r)" unfolding sql_update_def by fastforce
  with assms(1) [of r] assms(2) [of r] show "\<not> q c" by (cases "p r") auto
qed

text \<open>A recovery code that was claimed is not claimed again, and a step claimed once refuses itself and what is before it.\<close>

lemma code_claimed_once:
  assumes "ClaimRecoveryCode now u h w = (Inr b, w')"
  shows "\<exists>fs. ClaimRecoveryCode now' u h (fst w', []) = (Inr False, (fst w', fs))"
proof -
  have s: "td_codes (fst w') = sql_update (unspent u h) (\<lambda>c. c\<lparr>rv_used_at := Some now\<rparr>) (td_codes (fst w))"
    using Run_Inr [OF assms [unfolded ClaimRecoveryCode_def]] by simp
  have none: "\<forall>c \<in> set (td_codes (fst w')). \<not> unspent u h c"
    unfolding s by (rule all_rewritten) (simp_all add: unspent_def)
  then have "sql_count (unspent u h) (td_codes (fst w')) = 0"
    by (simp add: sql_count_def filter_empty_conv)
  with none show ?thesis by (simp add: ClaimRecoveryCode_def sql_update_noop)
qed

lemma step_claimed_once:
  assumes "ClaimTOTPStep i step w = (Inr b, w')" "step' \<le> step"
  shows "\<exists>fs. ClaimTOTPStep i step' (fst w', []) = (Inr False, (fst w', fs))"
proof -
  let ?p = "\<lambda>k u. ua_id u = i \<and> ua_totp_last_step u < k"
  have s: "td_users (fst w') = sql_update (?p step) (\<lambda>u. u\<lparr>ua_totp_last_step := step\<rparr>) (td_users (fst w))"
    using Run_Inr [OF assms(1) [unfolded ClaimTOTPStep_def]] by (simp add: update_accounts_def)
  have none: "\<forall>u \<in> set (td_users (fst w')). \<not> ?p step' u"
    unfolding s by (rule all_rewritten) (use assms(2) in simp_all)
  then have "sql_count (?p step') (td_users (fst w')) = 0"
    by (auto simp: sql_count_def filter_empty_conv)
  with none show ?thesis by (simp add: ClaimTOTPStep_def update_accounts_def sql_update_noop)
qed

end
