(* ===== verification/Projects.thy ===== *)
theory Projects
  imports Accounts
begin

text \<open>
  The projects, memberships, roles and invitations (\<^verbatim>\<open>internal/domain/project/store.go\<close>): every statement of the
  store, the joins that resolve a member's role, and the guards that keep an owner in every project.  The
  secure hash of an invitation's token is an argument.
\<close>

section \<open>Projects\<close>

definition tenant_is :: "string \<Rightarrow> tenant \<Rightarrow> bool" where
  "tenant_is i p = (tn_id p = i)"

definition Get_project :: "string \<Rightarrow> tworld \<Rightarrow> (tenant_db, tenant option) answer" where
  "Get_project i = Read (\<lambda>s. find (tenant_is i) (td_projects s))"

definition GetProjectBySlug :: "string \<Rightarrow> tworld \<Rightarrow> (tenant_db, tenant option) answer" where
  "GetProjectBySlug slug = Read (\<lambda>s. find (\<lambda>p. tn_slug p = slug) (td_projects s))"

text \<open>An update leaves the plan and the default role alone, each has a writer of its own.\<close>

definition tenant_of :: "tenant \<Rightarrow> tenant \<Rightarrow> tenant" where
  "tenant_of w k = w\<lparr>tn_id := tn_id k, tn_plan_id := tn_plan_id k, tn_default_role_id := tn_default_role_id k,
     tn_created_at := tn_created_at k\<rparr>"

definition insert_project :: "tenant \<Rightarrow> tenant_db \<Rightarrow> error + (tenant_db \<times> unit)" where
  "insert_project w s =
     (if list_ex (\<lambda>k. tn_id k = tn_id w \<or> tn_slug k = tn_slug w) (td_projects s) then Inl DuplicateKey
      else Inr (s\<lparr>td_projects := td_projects s @ [w]\<rparr>, ()))"

definition put_project :: "tenant \<Rightarrow> tenant_db \<Rightarrow> error + (tenant_db \<times> unit)" where
  "put_project w s =
     (if list_ex (\<lambda>k. tn_slug k = tn_slug w \<and> tn_id k \<noteq> tn_id w) (td_projects s) then Inl DuplicateKey
      else if list_ex (tenant_is (tn_id w)) (td_projects s)
      then Inr (s\<lparr>td_projects := sql_update (tenant_is (tn_id w)) (tenant_of w) (td_projects s)\<rparr>, ())
      else insert_project w s)"

definition stamped_project :: "time \<Rightarrow> tenant \<Rightarrow> tenant" where
  "stamped_project now w = (if tn_created_at w = zero_time then w\<lparr>tn_created_at := now\<rparr> else w)"

definition PutProject :: "time \<Rightarrow> tenant \<Rightarrow> tworld \<Rightarrow> (tenant_db, unit) answer" where
  "PutProject now w = Try (put_project (stamped_project now w))"

text \<open>The tables of this record go with the project.\<close>

definition delete_project :: "string \<Rightarrow> tenant_db \<Rightarrow> tenant_db" where
  "delete_project i s =
     (if list_ex (tenant_is i) (td_projects s)
      then s\<lparr>td_projects := sql_delete (tenant_is i) (td_projects s),
             td_members := sql_delete (\<lambda>m. ms_project_id m = i) (td_members s),
             td_roles := sql_delete (\<lambda>r. pr_project_id r = i) (td_roles s),
             td_invitations := sql_delete (\<lambda>v. iv_project_id v = i) (td_invitations s),
             td_sends := sql_delete (\<lambda>v. is_project_id v = i) (td_sends s)\<rparr>
      else s)"

definition DeleteProject :: "string \<Rightarrow> tworld \<Rightarrow> (tenant_db, unit) answer" where
  "DeleteProject i = Run (\<lambda>s. (delete_project i s, ()))"

definition ListProjects :: "tworld \<Rightarrow> (tenant_db, tenant list) answer" where
  "ListProjects = Read (\<lambda>s. sort_key tn_created_at (td_projects s))"

definition ListForUser :: "string \<Rightarrow> tworld \<Rightarrow> (tenant_db, tenant list) answer" where
  "ListForUser u =
     Read (\<lambda>s. sort_key tn_created_at
                (filter (\<lambda>p. list_ex (\<lambda>m. ms_user_id m = u \<and> ms_project_id m = tn_id p) (td_members s)) (td_projects s)))"

definition SetPlan :: "time \<Rightarrow> string \<Rightarrow> string \<Rightarrow> tworld \<Rightarrow> (tenant_db, bool) answer" where
  "SetPlan now i plan =
     Run (\<lambda>s. (s\<lparr>td_projects := sql_update (tenant_is i) (\<lambda>p. p\<lparr>tn_plan_id := plan, tn_updated_at := Some now\<rparr>) (td_projects s)\<rparr>,
               0 < sql_count (tenant_is i) (td_projects s)))"

section \<open>Members\<close>

record member =
  mb_id :: string
  mb_project_id :: string
  mb_user_id :: string
  mb_email :: string
  mb_owner :: bool
  mb_role_id :: string
  mb_role_name :: string
  mb_inherited_role :: bool
  mb_role_permissions :: "string list"
  mb_has_role :: bool
  mb_created_at :: time

definition member_is :: "string \<Rightarrow> string \<Rightarrow> member_row \<Rightarrow> bool" where
  "member_is p u m = (ms_project_id m = p \<and> ms_user_id m = u)"

definition role_is :: "string \<Rightarrow> string \<Rightarrow> project_role \<Rightarrow> bool" where
  "role_is p i r = (pr_project_id r = p \<and> pr_id r = i)"

text \<open>The role a member_row role_carries: its own, or the default of the project.\<close>

definition carried_role :: "tenant \<Rightarrow> member_row \<Rightarrow> string" where
  "carried_role p m = (if ms_role_id m \<noteq> [] then ms_role_id m else tn_default_role_id p)"

definition joined_member :: "tenant_db \<Rightarrow> member_row \<Rightarrow> member option" where
  "joined_member s m =
     (case (find (account_is (ms_user_id m)) (td_users s), find (tenant_is (ms_project_id m)) (td_projects s)) of
        (Some u, Some p) \<Rightarrow>
          (let r = (if carried_role p m = [] then None else find (role_is (ms_project_id m) (carried_role p m)) (td_roles s)) in
           Some \<lparr>mb_id = ms_id m, mb_project_id = ms_project_id m, mb_user_id = ms_user_id m, mb_email = ua_email u,
             mb_owner = ms_owner m, mb_role_id = carried_role p m,
             mb_role_name = (case r of None \<Rightarrow> [] | Some r \<Rightarrow> pr_name r),
             mb_inherited_role = (ms_role_id m = [] \<and> tn_default_role_id p \<noteq> []),
             mb_role_permissions = (case r of None \<Rightarrow> [] | Some r \<Rightarrow> pr_permissions r),
             mb_has_role = (r \<noteq> None), mb_created_at = ms_created_at m\<rparr>)
      | _ \<Rightarrow> None)"

definition member_of :: "tenant_db \<Rightarrow> string \<Rightarrow> string \<Rightarrow> member option" where
  "member_of s p u = Option.bind (find (member_is p u) (td_members s)) (joined_member s)"

definition GetMember :: "string \<Rightarrow> string \<Rightarrow> tworld \<Rightarrow> (tenant_db, member option) answer" where
  "GetMember p u = Read (\<lambda>s. member_of s p u)"

definition ListMembers_of :: "string \<Rightarrow> tworld \<Rightarrow> (tenant_db, member list) answer" where
  "ListMembers_of p =
     Read (\<lambda>s. List.map_filter (joined_member s) (sort_key ms_created_at (filter (\<lambda>m. ms_project_id m = p) (td_members s))))"

definition MembershipsForUser :: "string \<Rightarrow> tworld \<Rightarrow> (tenant_db, member list) answer" where
  "MembershipsForUser u = Read (\<lambda>s. List.map_filter (joined_member s) (filter (\<lambda>m. ms_user_id m = u) (td_members s)))"

text \<open>A member who is there keeps the row as it is.\<close>

definition insert_member :: "member_row \<Rightarrow> tenant_db \<Rightarrow> error + (tenant_db \<times> unit)" where
  "insert_member m s =
     (if list_ex (\<lambda>k. ms_id k = ms_id m \<or> member_is (ms_project_id m) (ms_user_id m) k) (td_members s) then Inl DuplicateKey
      else if \<not> list_ex (tenant_is (ms_project_id m)) (td_projects s) \<or> \<not> list_ex (account_is (ms_user_id m)) (td_users s)
      then Inl NoSuchRow
      else Inr (s\<lparr>td_members := td_members s @ [m]\<rparr>, ()))"

definition put_member :: "member_row \<Rightarrow> tenant_db \<Rightarrow> error + (tenant_db \<times> unit)" where
  "put_member m s =
     (if list_ex (member_is (ms_project_id m) (ms_user_id m)) (td_members s) then Inr (s, ())
      else insert_member m s)"

definition PutMember :: "member_row \<Rightarrow> tworld \<Rightarrow> (tenant_db, unit) answer" where
  "PutMember m = Try (put_member m)"

definition role_in :: "tenant_db \<Rightarrow> string \<Rightarrow> string \<Rightarrow> bool" where
  "role_in s p i = list_ex (role_is p i) (td_roles s)"

definition set_role :: "string \<Rightarrow> string \<Rightarrow> string \<Rightarrow> tenant_db \<Rightarrow> tenant_db \<times> bool" where
  "set_role p u i s =
     (let hit = (\<lambda>m. member_is p u m \<and> (i = [] \<or> role_in s p i)) in
      (s\<lparr>td_members := sql_update hit (\<lambda>m. m\<lparr>ms_role_id := i\<rparr>) (td_members s)\<rparr>, 0 < sql_count hit (td_members s)))"

definition SetMemberRole :: "string \<Rightarrow> string \<Rightarrow> string \<Rightarrow> tworld \<Rightarrow> (tenant_db, bool) answer" where
  "SetMemberRole p u i = Run (set_role p u i)"

section \<open>The last owner\<close>

definition owners_of :: "string \<Rightarrow> tenant_db \<Rightarrow> string set" where
  "owners_of p s = {ms_user_id m | m. m \<in> set (td_members s) \<and> ms_project_id m = p \<and> ms_owner m}"

definition lockOwners :: "string \<Rightarrow> tworld \<Rightarrow> (tenant_db, string list) answer" where
  "lockOwners p = Read (\<lambda>s. remdups (map ms_user_id (filter (\<lambda>m. ms_project_id m = p \<and> ms_owner m) (td_members s))))"

definition last_owner :: "string \<Rightarrow> string list \<Rightarrow> bool" where
  "last_owner u owners = (List.member owners u \<and> length owners = 1)"

definition set_owner :: "string \<Rightarrow> string \<Rightarrow> bool \<Rightarrow> tenant_db \<Rightarrow> tenant_db \<times> bool" where
  "set_owner p u b s =
     (s\<lparr>td_members := sql_update (member_is p u) (\<lambda>m. m\<lparr>ms_owner := b\<rparr>) (td_members s)\<rparr>,
      0 < sql_count (member_is p u) (td_members s))"

definition SetMemberOwner :: "string \<Rightarrow> string \<Rightarrow> bool \<Rightarrow> tworld \<Rightarrow> (tenant_db, bool) answer" where
  "SetMemberOwner p u b =
     Transaction (\<lambda>w. andThen (if b then Return [] w else lockOwners p w) (\<lambda>owners w.
       if \<not> b \<and> last_owner u owners then Return (False, False) w
       else andThen (Run (set_owner p u b) w) (\<lambda>n w. Return (n, True) w)))"

definition remove_member :: "string \<Rightarrow> string \<Rightarrow> tenant_db \<Rightarrow> tenant_db \<times> bool" where
  "remove_member p u s =
     (s\<lparr>td_members := sql_delete (member_is p u) (td_members s)\<rparr>, 0 < sql_count (member_is p u) (td_members s))"

definition RemoveProjectMember :: "string \<Rightarrow> string \<Rightarrow> tworld \<Rightarrow> (tenant_db, bool) answer" where
  "RemoveProjectMember p u =
     Transaction (\<lambda>w. andThen (lockOwners p w) (\<lambda>owners w.
       if last_owner u owners then Return (False, False) w
       else andThen (Run (remove_member p u) w) (\<lambda>n w. Return (n, True) w)))"

section \<open>Roles\<close>

record role_info =
  ri_role :: project_role
  ri_members :: nat
  ri_default :: bool

definition counted_role :: "tenant_db \<Rightarrow> project_role \<Rightarrow> role_info option" where
  "counted_role s r =
     map_option (\<lambda>p. \<lparr>ri_role = r,
        ri_members = sql_count (\<lambda>m. ms_project_id m = pr_project_id r \<and> carried_role p m = pr_id r) (td_members s),
        ri_default = (tn_default_role_id p = pr_id r)\<rparr>)
       (find (tenant_is (pr_project_id r)) (td_projects s))"

definition GetRole :: "string \<Rightarrow> string \<Rightarrow> tworld \<Rightarrow> (tenant_db, role_info option) answer" where
  "GetRole p i = Read (\<lambda>s. Option.bind (find (role_is p i) (td_roles s)) (counted_role s))"

definition ListRoles_of :: "string \<Rightarrow> tworld \<Rightarrow> (tenant_db, role_info list) answer" where
  "ListRoles_of p =
     Read (\<lambda>s. List.map_filter (counted_role s) (sort_key pr_name (filter (\<lambda>r. pr_project_id r = p) (td_roles s))))"

definition role_of :: "time \<Rightarrow> project_role \<Rightarrow> project_role \<Rightarrow> project_role" where
  "role_of now r k = k\<lparr>pr_name := pr_name r, pr_description := pr_description r, pr_permissions := pr_permissions r,
     pr_updated_at := Some now\<rparr>"

text \<open>An upsert whose row belongs to another project writes nothing and says nothing.\<close>

definition put_role :: "time \<Rightarrow> project_role \<Rightarrow> tenant_db \<Rightarrow> error + (tenant_db \<times> unit)" where
  "put_role now r s =
     (if list_ex (\<lambda>k. pr_project_id k = pr_project_id r \<and> pr_name k = pr_name r \<and> pr_id k \<noteq> pr_id r) (td_roles s)
      then Inl DuplicateKey
      else if list_ex (\<lambda>k. pr_id k = pr_id r) (td_roles s)
      then Inr (s\<lparr>td_roles := sql_update (role_is (pr_project_id r) (pr_id r)) (role_of now r) (td_roles s)\<rparr>, ())
      else if \<not> list_ex (tenant_is (pr_project_id r)) (td_projects s) then Inl NoSuchRow
      else Inr (s\<lparr>td_roles := td_roles s @ [r\<lparr>pr_updated_at := Some now\<rparr>]\<rparr>, ()))"

definition PutRole :: "time \<Rightarrow> project_role \<Rightarrow> tworld \<Rightarrow> (tenant_db, unit) answer" where
  "PutRole now r = Try (put_role now (if pr_created_at r = zero_time then r\<lparr>pr_created_at := now\<rparr> else r))"

definition role_holders :: "string \<Rightarrow> string \<Rightarrow> tenant_db \<Rightarrow> nat" where
  "role_holders p i s = sql_count (\<lambda>m. ms_project_id m = p \<and> ms_role_id m = i) (td_members s)"

definition names_default :: "string \<Rightarrow> string \<Rightarrow> tenant_db \<Rightarrow> bool" where
  "names_default p i s = list_ex (\<lambda>k. tn_id k = p \<and> tn_default_role_id k = i) (td_projects s)"

definition delete_role :: "string \<Rightarrow> string \<Rightarrow> tenant_db \<Rightarrow> tenant_db \<times> bool" where
  "delete_role p i s =
     (let hit = (\<lambda>r. role_is p i r \<and> role_holders p i s = 0 \<and> \<not> names_default p i s) in
      (s\<lparr>td_roles := sql_delete hit (td_roles s)\<rparr>, 0 < sql_count hit (td_roles s)))"

definition DeleteRole :: "string \<Rightarrow> string \<Rightarrow> tworld \<Rightarrow> (tenant_db, bool \<times> nat \<times> bool) answer" where
  "DeleteRole p i =
     Transaction (\<lambda>w. andThen (Read (\<lambda>_. ()) w) (\<lambda>_ w.
       andThen (Run (delete_role p i) w) (\<lambda>n w.
         if n then Return ((True, 0, False), True) w
         else andThen (Read (\<lambda>s. (role_holders p i s, names_default p i s)) w) (\<lambda>(h, d) w. Return ((False, h, d), True) w))))"

definition set_default :: "string \<Rightarrow> string \<Rightarrow> tenant_db \<Rightarrow> tenant_db \<times> bool" where
  "set_default p i s =
     (let hit = (\<lambda>k. tenant_is p k \<and> (i = [] \<or> role_in s p i)) in
      (s\<lparr>td_projects := sql_update hit (\<lambda>k. k\<lparr>tn_default_role_id := i\<rparr>) (td_projects s)\<rparr>, 0 < sql_count hit (td_projects s)))"

definition SetDefaultRole :: "string \<Rightarrow> string \<Rightarrow> tworld \<Rightarrow> (tenant_db, bool) answer" where
  "SetDefaultRole p i = Run (set_default p i)"

section \<open>Invitations\<close>

record invitation_load =
  ld_pending_to_address :: nat
  ld_sent_since :: nat
  ld_sent_to_address :: nat
  ld_pending :: nat

definition same_address :: "string \<Rightarrow> string \<Rightarrow> bool" where
  "same_address a b = (to_lower a = to_lower b)"

definition insert_invitation :: "(string \<Rightarrow> string) \<Rightarrow> invitation \<Rightarrow> tenant_db \<Rightarrow> error + (tenant_db \<times> unit)" where
  "insert_invitation hash v s =
     (if list_ex (\<lambda>k. iv_id k = iv_id v \<or> iv_token k = hash (iv_token v)) (td_invitations s) then Inl DuplicateKey
      else if \<not> list_ex (tenant_is (iv_project_id v)) (td_projects s) then Inl NoSuchRow
      else Inr (s\<lparr>td_invitations := td_invitations s @ [v\<lparr>iv_token := hash (iv_token v)\<rparr>]\<rparr>, ()))"

definition put_invitation :: "(string \<Rightarrow> string) \<Rightarrow> invitation \<Rightarrow> tenant_db \<Rightarrow> error + (tenant_db \<times> unit)" where
  "put_invitation hash v s =
     (if list_ex (\<lambda>k. iv_id k = iv_id v) (td_invitations s)
      then Inr (s\<lparr>td_invitations := sql_update (\<lambda>k. iv_id k = iv_id v)
                     (\<lambda>k. k\<lparr>iv_email := iv_email v, iv_role_id := iv_role_id v, iv_status := iv_status v\<rparr>) (td_invitations s)\<rparr>, ())
      else insert_invitation hash v s)"

definition PutInvitation :: "(string \<Rightarrow> string) \<Rightarrow> time \<Rightarrow> invitation \<Rightarrow> tworld \<Rightarrow> (tenant_db, unit) answer" where
  "PutInvitation hash now v =
     Try (put_invitation hash (if iv_created_at v = zero_time then v\<lparr>iv_created_at := now\<rparr> else v))"

definition pending_now :: "invitation \<Rightarrow> invitation \<Rightarrow> bool" where
  "pending_now v k = (iv_project_id k = iv_project_id v \<and> iv_status k = InvitationPending \<and> iv_created_at v < iv_expires_at k)"

definition sent_since :: "time \<Rightarrow> invitation \<Rightarrow> invitation_send \<Rightarrow> bool" where
  "sent_since since v k = (is_project_id k = iv_project_id v \<and> since \<le> is_created_at k)"

definition add_send :: "string \<Rightarrow> invitation \<Rightarrow> tenant_db \<Rightarrow> error + (tenant_db \<times> unit)" where
  "add_send i v s =
     (if list_ex (\<lambda>k. is_id k = i) (td_sends s) then Inl DuplicateKey
      else Inr (s\<lparr>td_sends := td_sends s @ [\<lparr>is_id = i, is_project_id = iv_project_id v, is_email = iv_email v,
                    is_created_at = iv_created_at v\<rparr>]\<rparr>, ()))"

definition PutInvitationWithin ::
    "(string \<Rightarrow> string) \<Rightarrow> string \<Rightarrow> invitation \<Rightarrow> time \<Rightarrow> (invitation_load \<Rightarrow> bool) \<Rightarrow> tworld \<Rightarrow>
     (tenant_db, invitation_load \<times> bool) answer" where
  "PutInvitationWithin hash i v since refuse =
     Transaction (\<lambda>w. andThen (Read (\<lambda>_. ()) w) (\<lambda>_ w.
       andThen (Read (\<lambda>s. (sql_count (\<lambda>k. pending_now v k \<and> same_address (iv_email k) (iv_email v)) (td_invitations s),
                           sql_count (pending_now v) (td_invitations s))) w) (\<lambda>(to, pending) w.
       andThen (Read (\<lambda>s. (sql_count (\<lambda>k. sent_since since v k \<and> same_address (is_email k) (iv_email v)) (td_sends s),
                           sql_count (sent_since since v) (td_sends s))) w) (\<lambda>(sent_to, sent) w.
         let load = \<lparr>ld_pending_to_address = to, ld_sent_since = sent, ld_sent_to_address = sent_to, ld_pending = pending\<rparr> in
         if refuse load then Return ((load, False), False) w
         else andThen (Try (insert_invitation hash v) w) (\<lambda>_ w.
           andThen (Try (add_send i v) w) (\<lambda>_ w. Return ((load, True), True) w))))))"

definition PruneInvitationSendsBefore :: "time \<Rightarrow> tworld \<Rightarrow> (tenant_db, nat) answer" where
  "PruneInvitationSendsBefore t =
     Run (\<lambda>s. (s\<lparr>td_sends := sql_delete (\<lambda>k. is_created_at k < t) (td_sends s)\<rparr>, sql_count (\<lambda>k. is_created_at k < t) (td_sends s)))"

definition GetInvitationByToken :: "(string \<Rightarrow> string) \<Rightarrow> string \<Rightarrow> tworld \<Rightarrow> (tenant_db, invitation option) answer" where
  "GetInvitationByToken hash t = Read (\<lambda>s. find (\<lambda>k. iv_token k = hash t) (td_invitations s))"

definition ListInvitations_of :: "string \<Rightarrow> tworld \<Rightarrow> (tenant_db, (invitation \<times> string) list) answer" where
  "ListInvitations_of p =
     Read (\<lambda>s. map (\<lambda>v. (v, case find (role_is (iv_project_id v) (iv_role_id v)) (td_roles s) of None \<Rightarrow> [] | Some r \<Rightarrow> pr_name r))
       (sort_key iv_created_at (filter (\<lambda>v. iv_project_id v = p) (td_invitations s))))"

definition DeleteInvitation_of :: "string \<Rightarrow> string \<Rightarrow> tworld \<Rightarrow> (tenant_db, unit) answer" where
  "DeleteInvitation_of p i =
     Run (\<lambda>s. (s\<lparr>td_invitations := sql_delete (\<lambda>v. iv_project_id v = p \<and> iv_id v = i) (td_invitations s)\<rparr>, ()))"

section \<open>New projects\<close>

definition blank_project :: tenant where
  "blank_project = \<lparr>tn_id = [], tn_name = [], tn_slug = [], tn_description = [], tn_owner_id = [], tn_default_language = [],
     tn_plan_id = [], tn_default_role_id = [], tn_strict_senders = False, tn_track_opens = False, tn_track_clicks = False,
     tn_bounce_address = [], tn_alert_email = [], tn_sandbox_retention_days = 0, tn_default_headers = [],
     tn_submission_drop_headers = [], tn_created_at = zero_time, tn_updated_at = None\<rparr>"

definition EnsureDefaultProject :: "time \<Rightarrow> string \<Rightarrow> tworld \<Rightarrow> (tenant_db, tenant) answer" where
  "EnsureDefaultProject now i w =
     andThen (GetProjectBySlug ''default'' w) (\<lambda>found w.
       case found of
         Some p \<Rightarrow> Return p w
       | None \<Rightarrow>
           let p = blank_project\<lparr>tn_id := i, tn_name := ''Default'', tn_slug := ''default'', tn_default_language := ''en'',
                     tn_created_at := now\<rparr> in
           andThen (PutProject now p w) (\<lambda>_ w. Return p w))"

definition insertWithOwner :: "time \<Rightarrow> string \<Rightarrow> tenant \<Rightarrow> string \<Rightarrow> tworld \<Rightarrow> (tenant_db, unit) answer" where
  "insertWithOwner now i p u =
     Transaction (\<lambda>w. andThen (Try (insert_project p) w) (\<lambda>_ w.
       andThen (Try (insert_member \<lparr>ms_id = i, ms_project_id = tn_id p, ms_user_id = u, ms_owner = True, ms_role_id = [],
                  ms_created_at = now\<rparr>) w) (\<lambda>_ w. Return ((), True) w)))"

definition CreateWithOwner :: "time \<Rightarrow> string \<Rightarrow> tenant \<Rightarrow> string \<Rightarrow> tworld \<Rightarrow> (tenant_db, unit) answer" where
  "CreateWithOwner now i p u = insertWithOwner now i (stamped_project now p) u"

end
