(* ===== verification/Members.thy ===== *)
theory Members
  imports Projects Permission Headers
begin

text \<open>
  The project surface (\<^verbatim>\<open>internal/domain/project/endpoint.go\<close>, \<^verbatim>\<open>role_endpoint.go\<close>, \<^verbatim>\<open>create.go\<close>,
  \<^verbatim>\<open>resolve.go\<close>): who the caller is in a project, and every request on projects, members, roles and
  invitations.  A request's body arrives bound and normalized, or as the error that binding answers.  The
  domains a project has verified, the sandbox ceiling of its plan, the keys of its stored objects and the
  object store are arguments; the audit trail and the mail an invitation sends are not modelled.
\<close>

section \<open>The caller\<close>

text \<open>\<^verbatim>\<open>RequestContext\<close>: the account the session resolved, and whether a platform credential made the call.\<close>

record caller =
  ca_user :: "account option"
  ca_platform_key :: bool

record access =
  aa_member :: bool
  aa_owner :: bool
  aa_perms :: perm_set

definition IsPlatformAdmin :: "caller option \<Rightarrow> bool" where
  "IsPlatformAdmin rc =
     (case rc of
        None \<Rightarrow> False
      | Some c \<Rightarrow> ca_platform_key c \<or> (case ca_user c of None \<Rightarrow> False | Some u \<Rightarrow> IsAdmin u))"

definition everything :: access where
  "everything = \<lparr>aa_member = True, aa_owner = True, aa_perms = NewSet [All]\<rparr>"

definition no_access :: access where
  "no_access = \<lparr>aa_member = False, aa_owner = False, aa_perms = None\<rparr>"

definition access_of :: "member option \<Rightarrow> access" where
  "access_of m =
     (case m of
        None \<Rightarrow> no_access
      | Some m \<Rightarrow> \<lparr>aa_member = True, aa_owner = mb_owner m,
                    aa_perms = ForMember (mb_owner m) (mb_role_permissions m) (mb_has_role m)\<rparr>)"

definition callerAccess :: "bool \<Rightarrow> caller option \<Rightarrow> string \<Rightarrow> tworld \<Rightarrow> (tenant_db, access) answer" where
  "callerAccess off rc p w =
     (if off then Return everything w
      else case rc of
             None \<Rightarrow> Return no_access w
           | Some c \<Rightarrow>
               if IsPlatformAdmin rc then Return everything w
               else case ca_user c of
                      None \<Rightarrow> Return no_access w
                    | Some u \<Rightarrow> andThen (GetMember p (ua_id u) w) (\<lambda>m w. Return (access_of m) w))"

definition loadWithMember :: "bool \<Rightarrow> caller option \<Rightarrow> string \<Rightarrow> tworld \<Rightarrow> (tenant_db, (tenant \<times> access) option) answer" where
  "loadWithMember off rc i w =
     andThen (Get_project i w) (\<lambda>p w.
       case p of
         None \<Rightarrow> Return None w
       | Some p \<Rightarrow> andThen (callerAccess off rc (tn_id p) w) (\<lambda>acc w. Return (Some (p, acc)) w))"

text \<open>The head of every request on one project: load it, and refuse what the caller may not do.\<close>

definition permitted ::
    "bool \<Rightarrow> caller option \<Rightarrow> string \<Rightarrow> (access \<Rightarrow> bool) \<Rightarrow> (tenant \<Rightarrow> access \<Rightarrow> tworld \<Rightarrow> 'r response \<times> tworld) \<Rightarrow>
     tworld \<Rightarrow> 'r response \<times> tworld" where
  "permitted off rc i may k w =
     Answer (loadWithMember off rc i w) (\<lambda>found w.
       case found of
         None \<Rightarrow> (NotFound ''project not found'', w)
       | Some (p, acc) \<Rightarrow>
           if may acc then k p acc w
           else if \<not> aa_member acc then (NotFound ''project not found'', w)
           else (Forbidden ''insufficient permissions in this project'', w))"

definition may :: "resource \<Rightarrow> action \<Rightarrow> access \<Rightarrow> bool" where
  "may r a acc = Has (aa_perms acc) r a"

definition is_self :: "caller option \<Rightarrow> string \<Rightarrow> bool" where
  "is_self rc i = (case rc of None \<Rightarrow> False | Some c \<Rightarrow> (case ca_user c of None \<Rightarrow> False | Some u \<Rightarrow> ua_id u = i))"

text \<open>A request's body: the error of binding it, or its fields.\<close>

definition Bind :: "(error + 'i) \<Rightarrow> ('i \<Rightarrow> tworld \<Rightarrow> 'r response \<times> tworld) \<Rightarrow> tworld \<Rightarrow> 'r response \<times> tworld" where
  "Bind body k w = (case body of Inl e \<Rightarrow> (BadRequest e, w) | Inr x \<Rightarrow> k x w)"

section \<open>Listing\<close>

definition MayCreate :: "bool \<Rightarrow> bool \<Rightarrow> caller option \<Rightarrow> bool" where
  "MayCreate off setting rc =
     (off \<or> IsPlatformAdmin rc \<or> (case rc of None \<Rightarrow> False | Some c \<Rightarrow> ca_user c \<noteq> None \<and> setting))"

definition ResolveDefault :: "string \<Rightarrow> tworld \<Rightarrow> (tenant_db, tenant option) answer" where
  "ResolveDefault u w = andThen (ListForUser u w) (\<lambda>mine w. Return (case mine of [p] \<Rightarrow> Some p | _ \<Rightarrow> None) w)"

definition project_access :: "access \<Rightarrow> bool \<times> string list" where
  "project_access acc = (aa_owner acc, ListOf (aa_perms acc))"

definition accessForList ::
    "bool \<Rightarrow> caller option \<Rightarrow> tenant list \<Rightarrow> tworld \<Rightarrow> (tenant_db, (string \<times> bool \<times> string list) list) answer" where
  "accessForList off rc ps w =
     (if off \<or> IsPlatformAdmin rc then Return (map (\<lambda>p. (tn_id p, project_access everything)) ps) w
      else case rc of
             None \<Rightarrow> Return [] w
           | Some c \<Rightarrow>
               (case ca_user c of
                  None \<Rightarrow> Return [] w
                | Some u \<Rightarrow>
                    andThen (MembershipsForUser (ua_id u) w) (\<lambda>ms w.
                      Return (map (\<lambda>p. (tn_id p, project_access (access_of (find (\<lambda>m. mb_project_id m = tn_id p) (rev ms))))) ps) w)))"

definition ListProjectsHandler ::
    "bool \<Rightarrow> bool \<Rightarrow> caller option \<Rightarrow> tworld \<Rightarrow> (tenant list \<times> (string \<times> bool \<times> string list) list \<times> bool) response \<times> tworld" where
  "ListProjectsHandler off setting rc w =
     (let listed = (\<lambda>m. Answer m (\<lambda>ps w. Answer (accessForList off rc ps w) (\<lambda>acc w. (Ok (ps, acc, MayCreate off setting rc), w)))) in
      if off \<or> IsPlatformAdmin rc then listed (ListProjects w)
      else case rc of
             None \<Rightarrow> (Unauthorized ''not authenticated'', w)
           | Some c \<Rightarrow> (case ca_user c of
                          None \<Rightarrow> (Unauthorized ''not authenticated'', w)
                        | Some u \<Rightarrow> listed (ListForUser (ua_id u) w)))"

definition GetProjectHandler :: "bool \<Rightarrow> caller option \<Rightarrow> string \<Rightarrow> tworld \<Rightarrow> (tenant \<times> bool \<times> string list) response \<times> tworld" where
  "GetProjectHandler off rc i = permitted off rc i aa_member (\<lambda>p acc w. (Ok (p, project_access acc), w))"

section \<open>Creating a project\<close>

record project_input =
  ci_name :: string
  ci_slug :: string
  ci_description :: string
  ci_default_language :: string
  ci_owner_email :: string

definition alnum :: "char \<Rightarrow> bool" where
  "alnum c = ((97 \<le> (of_char c :: nat) \<and> (of_char c :: nat) \<le> 122) \<or> (48 \<le> (of_char c :: nat) \<and> (of_char c :: nat) \<le> 57))"

fun slug_from :: "string \<Rightarrow> bool \<Rightarrow> string \<Rightarrow> string" where
  "slug_from b dash [] = b"
| "slug_from b dash (c # cs) =
     (if alnum c then slug_from (b @ [c]) False cs
      else if \<not> dash \<and> b \<noteq> [] then slug_from (b @ ''-'') True cs
      else slug_from b dash cs)"

definition trim_dashes :: "string \<Rightarrow> string" where
  "trim_dashes s = rev (dropWhile (\<lambda>c. c = CHR ''-'') (rev (dropWhile (\<lambda>c. c = CHR ''-'') s)))"

definition slugify :: "string \<Rightarrow> string" where
  "slugify name = trim_dashes (slug_from [] False (to_lower name))"

definition ownerOf :: "caller \<Rightarrow> string \<Rightarrow> tworld \<Rightarrow> ('r response + account) \<times> tworld" where
  "ownerOf c email w =
     (if email = []
      then case ca_user c of
             Some u \<Rightarrow> (Inr u, w)
           | None \<Rightarrow> (Inl (BadRequest ''owner_email is required with a platform credential''), w)
      else if \<not> IsPlatformAdmin (Some c)
      then case ca_user c of
             Some u \<Rightarrow> if equal_fold (ua_email u) email then (Inr u, w)
                       else (Inl (Forbidden ''only a platform administrator may create a project for another account''), w)
           | None \<Rightarrow> (Inl (Forbidden ''only a platform administrator may create a project for another account''), w)
      else case GetUser email w of
             (Inl e, w) \<Rightarrow> (Inl (Internal e), w)
           | (Inr None, w) \<Rightarrow> (Inl (BadRequest ''No account has this address''), w)
           | (Inr (Some u), w) \<Rightarrow>
               if ua_disabled u then (Inl (BadRequest ''This account is disabled''), w) else (Inr u, w))"

definition CreateProject ::
    "time \<Rightarrow> string \<Rightarrow> string \<Rightarrow> caller option \<Rightarrow> error + project_input \<Rightarrow> tworld \<Rightarrow> (tenant \<times> string) response \<times> tworld" where
  "CreateProject now i mi rc body w =
     (case rc of
        None \<Rightarrow> (Forbidden ''project creation requires an authenticated user'', w)
      | Some c \<Rightarrow>
          if ca_user c = None \<and> \<not> ca_platform_key c
          then (Forbidden ''project creation requires an authenticated user'', w)
          else Bind body (\<lambda>inp w.
            case ownerOf c (ci_owner_email inp) w of
              (Inl resp, w) \<Rightarrow> (resp, w)
            | (Inr owner, w) \<Rightarrow>
                let given_or = to_lower (ci_slug inp);
                    slug = (if given_or = [] then slugify (ci_name inp) else given_or) in
                if given_or \<noteq> [] \<and> slugify given_or \<noteq> given_or
                then (BadRequest ''slug may only hold lowercase letters, digits and single dashes between them'', w)
                else if slug = [] then (BadRequest ''slug could not be derived from the name, set one explicitly'', w)
                else Answer (GetProjectBySlug slug w) (\<lambda>existing w.
                  if existing \<noteq> None then (Conflict ''a project with this slug already exists'', w)
                  else let p = blank_project\<lparr>tn_id := i, tn_name := ci_name inp, tn_slug := slug, tn_description := ci_description inp,
                         tn_owner_id := ua_id owner,
                         tn_default_language := (if ci_default_language inp = [] then ''en'' else ci_default_language inp)\<rparr> in
                    Answer (CreateWithOwner now mi p (ua_id owner) w) (\<lambda>_ w. (Ok (stamped_project now p, ua_email owner), w)))) w)"

section \<open>Changing and deleting a project\<close>

record update_input =
  ui_name :: string
  ui_description :: "string option"
  ui_default_language :: string
  ui_strict_senders :: "bool option"
  ui_track_opens :: "bool option"
  ui_track_clicks :: "bool option"
  ui_bounce_address :: "string option"
  ui_alert_email :: "string option"
  ui_sandbox_retention_days :: "int option"
  ui_default_headers :: "headers option"
  ui_submission_drop_headers :: "string list option"

text \<open>
  What other stores answer: whether a verified domain of the project covers a host, and the ceiling of its
  plan on how long captures are kept.
\<close>

record project_ports =
  pp_covering :: "string \<Rightarrow> string \<Rightarrow> error + bool"
  pp_ceiling :: "string \<Rightarrow> error + int"

definition given_or :: "'a option \<Rightarrow> 'a \<Rightarrow> 'a" where
  "given_or new old = (case new of None \<Rightarrow> old | Some x \<Rightarrow> x)"

definition project_owns_domain :: "project_ports \<Rightarrow> string \<Rightarrow> string \<Rightarrow> error + bool" where
  "project_owns_domain pp p addr =
     (let (_, host, ok) = cut_last (CHR ''@'') addr in if ok then pp_covering pp host p else Inr False)"

definition clamped_days :: "project_ports \<Rightarrow> string \<Rightarrow> int \<Rightarrow> int" where
  "clamped_days pp p days =
     (case pp_ceiling pp p of
        Inl _ \<Rightarrow> days
      | Inr ceiling \<Rightarrow> if 0 < ceiling \<and> (days \<le> 0 \<or> ceiling < days) then ceiling else days)"

fun drop_names :: "string list \<Rightarrow> error + string list" where
  "drop_names [] = Inr []"
| "drop_names (raw # names) =
     (let name = trim_space raw in
      if name = [] then drop_names names
      else if \<not> ValidName name then Inl (''header '' @ quoted name @ '' is not a valid header name'')
      else case drop_names names of Inl e \<Rightarrow> Inl e | Inr ns \<Rightarrow> Inr (name # ns))"

definition bounce_of :: "project_ports \<Rightarrow> update_input \<Rightarrow> tenant \<Rightarrow> tenant response + tenant" where
  "bounce_of pp inp p =
     (case ui_bounce_address inp of
        None \<Rightarrow> Inr p
      | Some raw \<Rightarrow>
          let addr = to_lower (trim_space raw) in
          if addr = [] then Inr (p\<lparr>tn_bounce_address := addr\<rparr>)
          else case project_owns_domain pp (tn_id p) addr of
                 Inl e \<Rightarrow> Inl (Internal e)
               | Inr ok \<Rightarrow> if ok then Inr (p\<lparr>tn_bounce_address := addr\<rparr>)
                           else Inl (BadRequest ''bounce address must be on a domain verified to this project''))"

definition patched_headers :: "update_input \<Rightarrow> tenant \<Rightarrow> tenant response + tenant" where
  "patched_headers inp p =
     (case (case ui_default_headers inp of None \<Rightarrow> None | Some hs \<Rightarrow> ValidateHeaders hs) of
        Some fault \<Rightarrow> Inl (BadRequest (fault_text fault))
      | None \<Rightarrow>
          (case (case ui_submission_drop_headers inp of None \<Rightarrow> Inr (tn_submission_drop_headers p) | Some ns \<Rightarrow> drop_names ns) of
             Inl e \<Rightarrow> Inl (BadRequest e)
           | Inr ns \<Rightarrow> Inr (p\<lparr>tn_default_headers := given_or (ui_default_headers inp) (tn_default_headers p),
                               tn_submission_drop_headers := ns\<rparr>)))"

definition patched_project :: "project_ports \<Rightarrow> update_input \<Rightarrow> tenant \<Rightarrow> tenant response + tenant" where
  "patched_project pp inp p =
     (let p = p\<lparr>tn_name := (if ui_name inp = [] then tn_name p else ui_name inp),
                tn_description := given_or (ui_description inp) (tn_description p),
                tn_default_language := (if ui_default_language inp = [] then tn_default_language p else ui_default_language inp),
                tn_strict_senders := given_or (ui_strict_senders inp) (tn_strict_senders p),
                tn_track_opens := given_or (ui_track_opens inp) (tn_track_opens p),
                tn_track_clicks := given_or (ui_track_clicks inp) (tn_track_clicks p)\<rparr> in
      case bounce_of pp inp p of
        Inl r \<Rightarrow> Inl r
      | Inr p \<Rightarrow>
          patched_headers inp
            (p\<lparr>tn_alert_email := (case ui_alert_email inp of None \<Rightarrow> tn_alert_email p | Some a \<Rightarrow> to_lower (trim_space a)),
               tn_sandbox_retention_days :=
                 (case ui_sandbox_retention_days inp of None \<Rightarrow> tn_sandbox_retention_days p
                  | Some days \<Rightarrow> clamped_days pp (tn_id p) days)\<rparr>))"

definition UpdateProject ::
    "project_ports \<Rightarrow> time \<Rightarrow> bool \<Rightarrow> caller option \<Rightarrow> string \<Rightarrow> error + update_input \<Rightarrow> tworld \<Rightarrow> tenant response \<times> tworld" where
  "UpdateProject pp now off rc i body =
     permitted off rc i (may ''settings'' ActionWrite) (\<lambda>p acc.
       Bind body (\<lambda>inp w.
         case patched_project pp inp p of
           Inl resp \<Rightarrow> (resp, w)
         | Inr q \<Rightarrow>
             let q = q\<lparr>tn_updated_at := Some now\<rparr> in
             Answer (PutProject now q w) (\<lambda>_ w. (Ok q, w))))"

text \<open>
  The objects go before the rows that name them: \<open>found\<close> is what the three stores answer when asked for
  their keys, \<open>dropped\<close> what the object store answers for each of them.
\<close>

fun collected :: "(error + string list) list \<Rightarrow> error + string list" where
  "collected [] = Inr []"
| "collected (Inl e # fs) = Inl e"
| "collected (Inr ks # fs) = (case collected fs of Inl e \<Rightarrow> Inl e | Inr ks' \<Rightarrow> Inr (ks @ ks'))"

fun first_failure :: "(string \<Rightarrow> error option) \<Rightarrow> string list \<Rightarrow> error option" where
  "first_failure dropped [] = None"
| "first_failure dropped (k # ks) = (case dropped k of Some e \<Rightarrow> Some (''delete attachment '' @ k @ '': '' @ e) | None \<Rightarrow> first_failure dropped ks)"

definition DeleteProjectHandler ::
    "(error + string list) list \<Rightarrow> (string \<Rightarrow> error option) option \<Rightarrow> bool \<Rightarrow> caller option \<Rightarrow> string \<Rightarrow> tworld \<Rightarrow>
     unit response \<times> tworld" where
  "DeleteProjectHandler found store off rc i =
     permitted off rc i aa_owner (\<lambda>p acc w.
       case collected found of
         Inl e \<Rightarrow> (Internal e, w)
       | Inr ks \<Rightarrow>
           (case (case store of None \<Rightarrow> None | Some dropped \<Rightarrow> first_failure dropped ks) of
              Some e \<Rightarrow> (Internal e, w)
            | None \<Rightarrow> Answer (DeleteProject (tn_id p) w) (\<lambda>_ w. (NoContent, w))))"

section \<open>Granting within what one holds\<close>

definition lacks :: "string \<Rightarrow> string list \<Rightarrow> error" where
  "lacks why short = why @ join '', '' short @ '' - ask a project owner''"

definition refuseDelegating :: "access \<Rightarrow> project_role \<Rightarrow> error option" where
  "refuseDelegating acc r =
     (let short = Missing (aa_perms acc) (pr_permissions r) in
      if short = [] then None
      else Some (lacks (''the role '' @ pr_name r @ '' grants permissions you do not hold yourself: '') short))"

definition refuseGranting :: "access \<Rightarrow> string list \<Rightarrow> error option" where
  "refuseGranting acc ps =
     (let short = Missing (aa_perms acc) ps in
      if short = [] then None else Some (lacks ''a role cannot grant a permission you do not hold yourself: '' short))"

text \<open>\<open>None\<close> lets the request go on, as \<^verbatim>\<open>refused\<close> false does.\<close>

definition refuseAssigning :: "tenant \<Rightarrow> access \<Rightarrow> string \<Rightarrow> tworld \<Rightarrow> 'r response option \<times> tworld" where
  "refuseAssigning p acc role w =
     (let inherited = (role = []); carried = (if inherited then tn_default_role_id p else role) in
      if carried = [] then (None, w)
      else case GetRole (tn_id p) carried w of
             (Inl e, w) \<Rightarrow> (Some (Internal e), w)
           | (Inr None, w) \<Rightarrow> (if inherited then None else Some (NotFound ''role not found''), w)
           | (Inr (Some r), w) \<Rightarrow>
               if \<not> inherited then (map_option Forbidden (refuseDelegating acc (ri_role r)), w)
               else
                 let short = Missing (aa_perms acc) (pr_permissions (ri_role r)) in
                 if short = [] then (None, w)
                 else (Some (Forbidden (lacks (''without a role of their own this member inherits the default role '' @
                               pr_name (ri_role r) @ '', which grants permissions you do not hold yourself: '') short)), w))"

text \<open>The early return on a refusal.\<close>

definition Unless :: "'r response option \<times> tworld \<Rightarrow> (tworld \<Rightarrow> 'r response \<times> tworld) \<Rightarrow> 'r response \<times> tworld" where
  "Unless r k = (case r of (Some resp, w) \<Rightarrow> (resp, w) | (None, w) \<Rightarrow> k w)"

section \<open>Members\<close>

definition MissingRole :: "'r response" where "MissingRole = NotFound ''role not found''"
definition KeepAnOwner :: "'r response" where
  "KeepAnOwner = Conflict ''a project must keep at least one owner - promote somebody else first''"

definition ListMembersHandler :: "bool \<Rightarrow> caller option \<Rightarrow> string \<Rightarrow> tworld \<Rightarrow> member list response \<times> tworld" where
  "ListMembersHandler off rc i =
     permitted off rc i (may ''members'' ActionRead) (\<lambda>p acc w. Answer (ListMembers_of (tn_id p) w) (\<lambda>ms w. (Ok ms, w)))"

text \<open>Assigning a role and answering with the member as it is then.\<close>

definition assign_role :: "string \<Rightarrow> string \<Rightarrow> string option \<Rightarrow> tworld \<Rightarrow> member option response \<times> tworld" where
  "assign_role p u role w =
     (let reread = (\<lambda>w. Answer (GetMember p u w) (\<lambda>m w. (Ok m, w))) in
      case role of
        None \<Rightarrow> reread w
      | Some r \<Rightarrow> Answer (SetMemberRole p u r w) (\<lambda>assigned w. if \<not> assigned then (MissingRole, w) else reread w))"

definition AddProjectMember ::
    "time \<Rightarrow> string \<Rightarrow> bool \<Rightarrow> caller option \<Rightarrow> string \<Rightarrow> error + (string \<times> string) \<Rightarrow> tworld \<Rightarrow> member option response \<times> tworld" where
  "AddProjectMember now mi off rc i body =
     permitted off rc i (may ''members'' ActionWrite) (\<lambda>p acc.
       Bind body (\<lambda>(email, role) w.
         Answer (GetUser email w) (\<lambda>u w.
           case u of
             None \<Rightarrow> (NotFound ''no user with this email, send an invitation instead'', w)
           | Some u \<Rightarrow>
               Unless (refuseAssigning p acc role w) (\<lambda>w.
                 Answer (PutMember \<lparr>ms_id = mi, ms_project_id = tn_id p, ms_user_id = ua_id u, ms_owner = False,
                           ms_role_id = role, ms_created_at = now\<rparr> w) (\<lambda>_ w.
                   assign_role (tn_id p) (ua_id u) (if role = [] then None else Some role) w)))))"

definition UpdateMember ::
    "bool \<Rightarrow> caller option \<Rightarrow> string \<Rightarrow> string \<Rightarrow> error + (string option \<times> bool option) \<Rightarrow> tworld \<Rightarrow> member option response \<times> tworld" where
  "UpdateMember off rc i u body =
     permitted off rc i (may ''members'' ActionWrite) (\<lambda>p acc.
       Bind body (\<lambda>(role, owner) w.
         if role = None \<and> owner = None then (BadRequest ''nothing to change - set role_id, owner, or both'', w)
         else if owner \<noteq> None \<and> \<not> aa_owner acc then (Forbidden ''only a project owner may grant or revoke ownership'', w)
         else Answer (GetMember (tn_id p) u w) (\<lambda>m w.
           case m of
             None \<Rightarrow> (NotFound ''member not found'', w)
           | Some m \<Rightarrow>
               Unless (case role of None \<Rightarrow> (None, w) | Some r \<Rightarrow> refuseAssigning p acc r w) (\<lambda>w.
                 if owner \<noteq> None \<and> owner \<noteq> Some (mb_owner m)
                 then Answer (SetMemberOwner (tn_id p) u (the owner) w) (\<lambda>changed w.
                   if \<not> changed then (KeepAnOwner, w) else assign_role (tn_id p) u role w)
                 else assign_role (tn_id p) u role w))))"

definition RemoveMemberHandler :: "bool \<Rightarrow> caller option \<Rightarrow> string \<Rightarrow> string \<Rightarrow> tworld \<Rightarrow> unit response \<times> tworld" where
  "RemoveMemberHandler off rc i u =
     permitted off rc i aa_member (\<lambda>p acc w.
       if \<not> is_self rc u \<and> \<not> may ''members'' ActionDelete acc
       then (Forbidden ''the members:delete permission is required'', w)
       else Answer (GetMember (tn_id p) u w) (\<lambda>m w.
         case m of
           None \<Rightarrow> (NotFound ''member not found'', w)
         | Some m \<Rightarrow>
             if mb_owner m \<and> \<not> is_self rc u \<and> \<not> aa_owner acc
             then (Forbidden ''only a project owner may remove another owner'', w)
             else Answer (RemoveProjectMember (tn_id p) u w) (\<lambda>removed w.
               if \<not> removed then (KeepAnOwner, w) else (NoContent, w))))"

section \<open>Invitations\<close>

definition invitationTTL :: time where "invitationTTL = 7 * 24 * 3600 * 1000000000"
definition invitationWindow :: time where "invitationWindow = 3600 * 1000000000"
definition maxInvitationsPerHour :: nat where "maxInvitationsPerHour = 50"
definition maxPendingInvitations :: nat where "maxPendingInvitations = 200"

definition refuseInvitation :: "invitation_load \<Rightarrow> bool" where
  "refuseInvitation l =
     (0 < ld_pending_to_address l \<or> 0 < ld_sent_to_address l \<or> maxInvitationsPerHour \<le> ld_sent_since l \<or>
      maxPendingInvitations \<le> ld_pending l)"

definition ListInvitationsHandler :: "bool \<Rightarrow> caller option \<Rightarrow> string \<Rightarrow> tworld \<Rightarrow> (invitation \<times> string) list response \<times> tworld" where
  "ListInvitationsHandler off rc i =
     permitted off rc i (may ''members'' ActionWrite) (\<lambda>p acc w. Answer (ListInvitations_of (tn_id p) w) (\<lambda>vs w. (Ok vs, w)))"

definition over_budget :: "invitation_load \<Rightarrow> 'r response" where
  "over_budget l =
     (if 0 < ld_pending_to_address l then Conflict ''an invitation to this address is already pending''
      else if maxPendingInvitations \<le> ld_pending l
      then TooManyRequests ''this project has too many pending invitations, cancel some or wait for them to expire''
      else if maxInvitationsPerHour \<le> ld_sent_since l
      then TooManyRequests ''this project has sent too many invitations in the last hour, try again later''
      else TooManyRequests ''this address was invited less than an hour ago, try again later'')"

text \<open>
  \<open>token\<close> is what the random source answers, \<open>vi\<close> and \<open>si\<close> the ids of the two rows, \<open>mailing\<close> whether the
  installation has system mail and a public address.  The plain token is answered once.
\<close>

definition CreateInvitation ::
    "(string \<Rightarrow> string) \<Rightarrow> bool \<Rightarrow> error + string \<Rightarrow> time \<Rightarrow> string \<Rightarrow> string \<Rightarrow> bool \<Rightarrow> caller option \<Rightarrow> string \<Rightarrow>
     error + (string \<times> string) \<Rightarrow> tworld \<Rightarrow> (invitation \<times> string \<times> bool) response \<times> tworld" where
  "CreateInvitation hash mailing token now vi si off rc i body =
     permitted off rc i (may ''members'' ActionWrite) (\<lambda>p acc.
       Bind body (\<lambda>(email, role) w.
         Unless (refuseAssigning p acc role w) (\<lambda>w.
           case token of
             Inl e \<Rightarrow> (Internal e, w)
           | Inr t \<Rightarrow>
               let v = \<lparr>iv_id = vi, iv_project_id = tn_id p, iv_email = email, iv_role_id = role, iv_token = t,
                         iv_status = InvitationPending,
                         iv_invited_by = (case rc of None \<Rightarrow> [] | Some c \<Rightarrow> (case ca_user c of None \<Rightarrow> [] | Some u \<Rightarrow> ua_id u)),
                         iv_expires_at = now + invitationTTL, iv_created_at = now\<rparr> in
               Answer (PutInvitationWithin hash si v (now - invitationWindow) refuseInvitation w) (\<lambda>(load, created) w.
                 if \<not> created then (over_budget load, w) else (Ok (v, t, mailing), w)))))"

definition DeleteInvitationHandler :: "bool \<Rightarrow> caller option \<Rightarrow> string \<Rightarrow> string \<Rightarrow> tworld \<Rightarrow> unit response \<times> tworld" where
  "DeleteInvitationHandler off rc i v =
     permitted off rc i (may ''members'' ActionDelete) (\<lambda>p acc w.
       Answer (DeleteInvitation_of (tn_id p) v w) (\<lambda>_ w. (NoContent, w)))"

text \<open>The guards both answers to an invitation share.\<close>

definition invited ::
    "(string \<Rightarrow> string) \<Rightarrow> time \<Rightarrow> caller option \<Rightarrow> string \<Rightarrow> (account \<Rightarrow> invitation \<Rightarrow> tworld \<Rightarrow> 'r response \<times> tworld) \<Rightarrow>
     tworld \<Rightarrow> 'r response \<times> tworld" where
  "invited hash now rc t k w =
     (case (case rc of None \<Rightarrow> None | Some c \<Rightarrow> ca_user c) of
        None \<Rightarrow> (Unauthorized ''not authenticated'', w)
      | Some u \<Rightarrow>
          Answer (GetInvitationByToken hash t w) (\<lambda>v w.
            case v of
              None \<Rightarrow> (NotFound ''invitation not found or already used'', w)
            | Some v \<Rightarrow>
                if iv_status v \<noteq> InvitationPending then (NotFound ''invitation not found or already used'', w)
                else if iv_expires_at v < now then (Gone ''invitation expired'', w)
                else if \<not> equal_fold (iv_email v) (ua_email u)
                then (Forbidden ''this invitation was issued to a different email address'', w)
                else k u v w))"

text \<open>A role that is gone falls back to the project's default.\<close>

definition offered_role :: "invitation \<Rightarrow> tworld \<Rightarrow> (tenant_db, string) answer" where
  "offered_role v w =
     (if iv_role_id v = [] then Return [] w
      else andThen (GetRole (iv_project_id v) (iv_role_id v) w) (\<lambda>r w. Return (if r = None then [] else iv_role_id v) w))"

definition bare_member :: "member_row \<Rightarrow> member" where
  "bare_member m = \<lparr>mb_id = ms_id m, mb_project_id = ms_project_id m, mb_user_id = ms_user_id m, mb_email = [], mb_owner = ms_owner m,
     mb_role_id = ms_role_id m, mb_role_name = [], mb_inherited_role = False, mb_role_permissions = [], mb_has_role = False,
     mb_created_at = ms_created_at m\<rparr>"

definition AcceptInvitation ::
    "(string \<Rightarrow> string) \<Rightarrow> time \<Rightarrow> string \<Rightarrow> caller option \<Rightarrow> string \<Rightarrow> tworld \<Rightarrow> (tenant option \<times> member) response \<times> tworld" where
  "AcceptInvitation hash now mi rc t =
     invited hash now rc t (\<lambda>u v w.
       Answer (offered_role v w) (\<lambda>role w.
         let m = \<lparr>ms_id = mi, ms_project_id = iv_project_id v, ms_user_id = ua_id u, ms_owner = False, ms_role_id = role,
                  ms_created_at = now\<rparr> in
         Answer (PutMember m w) (\<lambda>_ w.
           Answer (PutInvitation hash now (v\<lparr>iv_status := InvitationAccepted\<rparr>) w) (\<lambda>_ w.
             Answer (Get_project (iv_project_id v) w) (\<lambda>p w.
               Answer (GetMember (iv_project_id v) (ua_id u) w) (\<lambda>stored w.
                 (Ok (p, given_or stored (bare_member m)), w)))))))"

definition DeclineInvitation ::
    "(string \<Rightarrow> string) \<Rightarrow> time \<Rightarrow> caller option \<Rightarrow> string \<Rightarrow> tworld \<Rightarrow> bool response \<times> tworld" where
  "DeclineInvitation hash now rc t =
     invited hash now rc t (\<lambda>u v w.
       Answer (PutInvitation hash now (v\<lparr>iv_status := InvitationDeclined\<rparr>) w) (\<lambda>_ w.
         let (_, w) = Get_project (iv_project_id v) w in (Ok True, w)))"

section \<open>Roles\<close>

record role_input =
  oi_name :: string
  oi_description :: string
  oi_permissions :: "string list"

record role_update_input =
  oj_name :: string
  oj_description :: "string option"
  oj_permissions :: "string list option"

fun normalize_into :: "string list \<Rightarrow> string list \<Rightarrow> error + string list" where
  "normalize_into out [] = Inr out"
| "normalize_into out (raw # rest) =
     (let p = to_lower (trim_space raw) in
      if p = [] then normalize_into out rest
      else if p = All then Inl ''the wildcard is not allowed in a role - make the member an owner instead''
      else if Parse p = None then Inl (''unknown permission '' @ raw)
      else normalize_into (if List.member out p then out else out @ [p]) rest)"

definition normalizeRolePermissions :: "string list \<Rightarrow> error + string list" where
  "normalizeRolePermissions ps =
     (if Size < length ps then Inl ''too many permissions - the catalogue is smaller than this list''
      else normalize_into [] ps)"

definition mustListRoles :: "string \<Rightarrow> tworld \<Rightarrow> role_info list \<times> tworld" where
  "mustListRoles p w = (case ListRoles_of p w of (Inl _, w) \<Rightarrow> ([], w) | (Inr rs, w) \<Rightarrow> (rs, w))"

definition ListRolesHandler :: "bool \<Rightarrow> caller option \<Rightarrow> string \<Rightarrow> tworld \<Rightarrow> role_info list response \<times> tworld" where
  "ListRolesHandler off rc i =
     permitted off rc i (may ''members'' ActionRead) (\<lambda>p acc w. Answer (ListRoles_of (tn_id p) w) (\<lambda>rs w. (Ok rs, w)))"

definition CreateRole ::
    "time \<Rightarrow> string \<Rightarrow> bool \<Rightarrow> caller option \<Rightarrow> string \<Rightarrow> error + role_input \<Rightarrow> tworld \<Rightarrow> project_role response \<times> tworld" where
  "CreateRole now ri off rc i body =
     permitted off rc i (may ''members'' ActionWrite) (\<lambda>p acc.
       Bind body (\<lambda>inp w.
         case normalizeRolePermissions (oi_permissions inp) of
           Inl why \<Rightarrow> (BadRequest why, w)
         | Inr ps \<Rightarrow>
             (case refuseGranting acc ps of
                Some why \<Rightarrow> (Forbidden why, w)
              | None \<Rightarrow>
                  let (roles, w) = mustListRoles (tn_id p) w in
                  if list_ex (\<lambda>r. equal_fold (pr_name (ri_role r)) (oi_name inp)) roles
                  then (Conflict ''a role with this name already exists'', w)
                  else
                    let r = \<lparr>pr_id = ri, pr_project_id = tn_id p, pr_name = oi_name inp, pr_description = oi_description inp,
                             pr_permissions = ps, pr_created_at = now, pr_updated_at = None\<rparr> in
                    Answer (PutRole now r w) (\<lambda>_ w. (Ok r, w)))))"

text \<open>The permissions of an update: as they were, or the new list when the caller may grant it.\<close>

definition regranted :: "access \<Rightarrow> role_update_input \<Rightarrow> project_role \<Rightarrow> project_role response + project_role" where
  "regranted acc inp r =
     (case oj_permissions inp of
        None \<Rightarrow> Inr r
      | Some raw \<Rightarrow>
          (case normalizeRolePermissions raw of
             Inl why \<Rightarrow> Inl (BadRequest why)
           | Inr ps \<Rightarrow> (case refuseGranting acc ps of
                          Some why \<Rightarrow> Inl (Forbidden why)
                        | None \<Rightarrow> Inr (r\<lparr>pr_permissions := ps\<rparr>))))"

definition UpdateRole ::
    "time \<Rightarrow> bool \<Rightarrow> caller option \<Rightarrow> string \<Rightarrow> string \<Rightarrow> error + role_update_input \<Rightarrow> tworld \<Rightarrow> project_role response \<times> tworld" where
  "UpdateRole now off rc i ri body =
     permitted off rc i (may ''members'' ActionWrite) (\<lambda>p acc w.
       Answer (GetRole (tn_id p) ri w) (\<lambda>found w.
         case found of
           None \<Rightarrow> (MissingRole, w)
         | Some info \<Rightarrow>
             Bind body (\<lambda>inp w.
               case regranted acc inp (ri_role info) of
                 Inl resp \<Rightarrow> (resp, w)
               | Inr r \<Rightarrow>
                   let (roles, w) = (if oj_name inp = [] then ([], w) else mustListRoles (tn_id p) w) in
                   if list_ex (\<lambda>o'. pr_id (ri_role o') \<noteq> pr_id r \<and> equal_fold (pr_name (ri_role o')) (oj_name inp)) roles
                   then (Conflict ''a role with this name already exists'', w)
                   else
                     let r = r\<lparr>pr_name := (if oj_name inp = [] then pr_name r else oj_name inp),
                               pr_description := (case oj_description inp of None \<Rightarrow> pr_description r | Some d \<Rightarrow> trim_space d)\<rparr> in
                     Answer (PutRole now r w) (\<lambda>_ w. (Ok r, w))) w))"

definition DeleteRoleHandler :: "bool \<Rightarrow> caller option \<Rightarrow> string \<Rightarrow> string \<Rightarrow> tworld \<Rightarrow> unit response \<times> tworld" where
  "DeleteRoleHandler off rc i ri =
     permitted off rc i (may ''members'' ActionDelete) (\<lambda>p acc w.
       Answer (DeleteRole (tn_id p) ri w) (\<lambda>(deleted, held, is_default) w.
         (if deleted then NoContent
          else if is_default then Conflict ''this is the project's default role - name a different default first''
          else if 0 < held then Conflict ''this role is assigned to members - move them to another role first''
          else MissingRole, w)))"

definition SetDefaultRoleHandler ::
    "bool \<Rightarrow> caller option \<Rightarrow> string \<Rightarrow> error + string \<Rightarrow> tworld \<Rightarrow> tenant response \<times> tworld" where
  "SetDefaultRoleHandler off rc i body =
     permitted off rc i (may ''members'' ActionWrite) (\<lambda>p acc.
       Bind body (\<lambda>role w.
         let write = (\<lambda>w. Answer (SetDefaultRole (tn_id p) role w) (\<lambda>ok w.
               if \<not> ok then (MissingRole, w) else (Ok (p\<lparr>tn_default_role_id := role\<rparr>), w))) in
         if role = [] then write w
         else Answer (GetRole (tn_id p) role w) (\<lambda>found w.
           case found of
             None \<Rightarrow> (MissingRole, w)
           | Some info \<Rightarrow>
               (case refuseDelegating acc (ri_role info) of
                  Some why \<Rightarrow> (Forbidden why, w)
                | None \<Rightarrow> write w))))"

end
