(* ===== verification/Sessions.thy ===== *)
theory Sessions
  imports Accounts
begin

text \<open>
  What an account signs in with besides its password: tracked sessions, single-use reset links and
  passkeys (\<^verbatim>\<open>internal/domain/session\<close>, \<^verbatim>\<open>passwordreset\<close>, \<^verbatim>\<open>passkey\<close>).
\<close>

section \<open>Sessions\<close>

definition session_active :: "time \<Rightarrow> session \<Rightarrow> bool" where
  "session_active now m = (\<not> se_revoked m \<and> now < se_expires_at m)"

definition update_sessions :: "(session \<Rightarrow> bool) \<Rightarrow> tenant_db \<Rightarrow> tenant_db \<times> nat" where
  "update_sessions p s =
     (s\<lparr>td_sessions := sql_update p (\<lambda>m. m\<lparr>se_revoked := True\<rparr>) (td_sessions s)\<rparr>, sql_count p (td_sessions s))"

definition GetSession :: "string \<Rightarrow> tworld \<Rightarrow> (tenant_db, session option) answer" where
  "GetSession i = Read (\<lambda>s. find (\<lambda>m. se_id m = i) (td_sessions s))"

definition live_of :: "string \<Rightarrow> time \<Rightarrow> session \<Rightarrow> bool" where
  "live_of u now m = (se_user_id m = u \<and> \<not> se_revoked m \<and> now < se_expires_at m)"

definition ListSessionsForUser :: "string \<Rightarrow> time \<Rightarrow> tworld \<Rightarrow> (tenant_db, session list) answer" where
  "ListSessionsForUser u now =
     Read (\<lambda>s. rev (sort_key se_last_seen_at (rev (filter (live_of u now) (td_sessions s)))))"

definition stamped_session :: "time \<Rightarrow> session \<Rightarrow> session" where
  "stamped_session now m =
     m\<lparr>se_created_at := (if se_created_at m = zero_time then now else se_created_at m),
       se_last_seen_at := (if se_last_seen_at m = zero_time then now else se_last_seen_at m)\<rparr>"

definition put_session :: "session \<Rightarrow> tenant_db \<Rightarrow> error + (tenant_db \<times> unit)" where
  "put_session m s =
     (if list_ex (\<lambda>k. se_id k = se_id m) (td_sessions s)
      then Inr (s\<lparr>td_sessions := sql_update (\<lambda>k. se_id k = se_id m)
                     (\<lambda>k. k\<lparr>se_last_seen_at := se_last_seen_at m, se_revoked := se_revoked m\<rparr>) (td_sessions s)\<rparr>, ())
      else if \<not> list_ex (account_is (se_user_id m)) (td_users s) then Inl NoSuchRow
      else Inr (s\<lparr>td_sessions := td_sessions s @ [m]\<rparr>, ()))"

definition PutSession :: "time \<Rightarrow> session \<Rightarrow> tworld \<Rightarrow> (tenant_db, unit) answer" where
  "PutSession now m = Try (put_session (stamped_session now m))"

definition RevokeSession :: "string \<Rightarrow> string \<Rightarrow> tworld \<Rightarrow> (tenant_db, nat) answer" where
  "RevokeSession u i = Run (update_sessions (\<lambda>m. se_user_id m = u \<and> se_id m = i \<and> \<not> se_revoked m))"

text \<open>An empty id to keep is bound as NULL and is distinct from every id.\<close>

definition RevokeOthers :: "string \<Rightarrow> string \<Rightarrow> tworld \<Rightarrow> (tenant_db, nat) answer" where
  "RevokeOthers u keep = Run (update_sessions (\<lambda>m. se_user_id m = u \<and> (keep = [] \<or> se_id m \<noteq> keep) \<and> \<not> se_revoked m))"

definition RevokeAllForUser :: "string \<Rightarrow> tworld \<Rightarrow> (tenant_db, nat) answer" where
  "RevokeAllForUser u = Run (update_sessions (\<lambda>m. se_user_id m = u \<and> \<not> se_revoked m))"

definition TouchSession :: "string \<Rightarrow> time \<Rightarrow> tworld \<Rightarrow> (tenant_db, unit) answer" where
  "TouchSession i t =
     Run (\<lambda>s. (s\<lparr>td_sessions := sql_update (\<lambda>m. se_id m = i) (\<lambda>m. m\<lparr>se_last_seen_at := t\<rparr>) (td_sessions s)\<rparr>, ()))"

definition PurgeExpiredSessions :: "time \<Rightarrow> tworld \<Rightarrow> (tenant_db, nat) answer" where
  "PurgeExpiredSessions before =
     Run (\<lambda>s. (s\<lparr>td_sessions := sql_delete (\<lambda>m. se_expires_at m < before) (td_sessions s)\<rparr>,
               sql_count (\<lambda>m. se_expires_at m < before) (td_sessions s)))"

section \<open>Reset links\<close>

definition reset_ttl :: time where "reset_ttl = 30 * 60 * 1000000000"

definition Usable :: "time \<Rightarrow> reset_token \<Rightarrow> bool" where
  "Usable now t = (rt_used_at t = None \<and> now < rt_expires_at t)"

definition GetByHash :: "string \<Rightarrow> tworld \<Rightarrow> (tenant_db, reset_token option) answer" where
  "GetByHash h = Read (\<lambda>s. find (\<lambda>t. rt_token_hash t = h) (td_resets s))"

definition stamped_reset :: "time \<Rightarrow> reset_token \<Rightarrow> reset_token" where
  "stamped_reset now t = (if rt_created_at t = zero_time then t\<lparr>rt_created_at := now\<rparr> else t)"

definition add_reset :: "reset_token \<Rightarrow> tenant_db \<Rightarrow> error + (tenant_db \<times> unit)" where
  "add_reset t s =
     (if list_ex (\<lambda>k. rt_id k = rt_id t \<or> rt_token_hash k = rt_token_hash t) (td_resets s) then Inl DuplicateKey
      else if \<not> list_ex (account_is (rt_user_id t)) (td_users s) then Inl NoSuchRow
      else Inr (s\<lparr>td_resets := td_resets s @ [t]\<rparr>, ()))"

definition PutReset :: "time \<Rightarrow> reset_token \<Rightarrow> tworld \<Rightarrow> (tenant_db, unit) answer" where
  "PutReset now t = Try (add_reset (stamped_reset now t))"

definition burn :: "time \<Rightarrow> (reset_token \<Rightarrow> bool) \<Rightarrow> tenant_db \<Rightarrow> tenant_db \<times> bool" where
  "burn now p s =
     (s\<lparr>td_resets := sql_update (\<lambda>t. p t \<and> rt_used_at t = None) (\<lambda>t. t\<lparr>rt_used_at := Some now\<rparr>) (td_resets s)\<rparr>,
      0 < sql_count (\<lambda>t. p t \<and> rt_used_at t = None) (td_resets s))"

definition MarkUsed :: "string \<Rightarrow> time \<Rightarrow> tworld \<Rightarrow> (tenant_db, bool) answer" where
  "MarkUsed i now = Run (burn now (\<lambda>t. rt_id t = i))"

definition InvalidateForUser :: "string \<Rightarrow> time \<Rightarrow> tworld \<Rightarrow> (tenant_db, bool) answer" where
  "InvalidateForUser u now = Run (burn now (\<lambda>t. rt_user_id t = u))"

definition PutResetWithin :: "time \<Rightarrow> reset_token \<Rightarrow> time \<Rightarrow> (string list \<Rightarrow> bool) \<Rightarrow> tworld \<Rightarrow> (tenant_db, bool) answer" where
  "PutResetWithin now t since spent =
     Transaction (\<lambda>w. andThen (Read (\<lambda>_. ()) w) (\<lambda>_ w.
       andThen (Read (\<lambda>s. map rt_request_ip
                        (filter (\<lambda>k. rt_user_id k = rt_user_id t \<and> since \<le> rt_created_at k) (td_resets s))) w) (\<lambda>ips w.
         if spent ips then Return (False, False) w
         else andThen (Try (add_reset (stamped_reset now t)) w) (\<lambda>_ w. Return (True, True) w))))"

definition DeleteExpiredResets :: "time \<Rightarrow> tworld \<Rightarrow> (tenant_db, nat) answer" where
  "DeleteExpiredResets before =
     Run (\<lambda>s. (s\<lparr>td_resets := sql_delete (\<lambda>t. rt_expires_at t < before \<or> rt_used_at t \<noteq> None) (td_resets s)\<rparr>,
               sql_count (\<lambda>t. rt_expires_at t < before \<or> rt_used_at t \<noteq> None) (td_resets s)))"

section \<open>Passkeys\<close>

definition ListPasskeysForUser :: "string \<Rightarrow> tworld \<Rightarrow> (tenant_db, passkey list) answer" where
  "ListPasskeysForUser u =
     Read (\<lambda>s. rev (sort_key pk_created_at (rev (filter (\<lambda>k. pk_user_id k = u) (td_passkeys s)))))"

definition GetByCredential :: "string \<Rightarrow> tworld \<Rightarrow> (tenant_db, passkey option) answer" where
  "GetByCredential c = Read (\<lambda>s. find (\<lambda>k. pk_credential_id k = c) (td_passkeys s))"

definition add_passkey :: "passkey \<Rightarrow> tenant_db \<Rightarrow> error + (tenant_db \<times> unit)" where
  "add_passkey m s =
     (if list_ex (\<lambda>k. pk_id k = pk_id m \<or> pk_credential_id k = pk_credential_id m) (td_passkeys s) then Inl DuplicateKey
      else if \<not> list_ex (account_is (pk_user_id m)) (td_users s) then Inl NoSuchRow
      else Inr (s\<lparr>td_passkeys := td_passkeys s @ [m]\<rparr>, ()))"

definition PutPasskey :: "time \<Rightarrow> passkey \<Rightarrow> tworld \<Rightarrow> (tenant_db, unit) answer" where
  "PutPasskey now m = Try (add_passkey (if pk_created_at m = zero_time then m\<lparr>pk_created_at := now\<rparr> else m))"

definition passkey_is :: "string \<Rightarrow> string \<Rightarrow> passkey \<Rightarrow> bool" where
  "passkey_is u i k = (pk_user_id k = u \<and> pk_id k = i)"

definition RecordUse :: "string \<Rightarrow> string \<Rightarrow> time \<Rightarrow> tworld \<Rightarrow> (tenant_db, unit) answer" where
  "RecordUse i c now =
     Run (\<lambda>s. (s\<lparr>td_passkeys := sql_update (\<lambda>k. pk_id k = i)
                  (\<lambda>k. k\<lparr>pk_credential := c, pk_last_used_at := Some now\<rparr>) (td_passkeys s)\<rparr>, ()))"

definition RenamePasskey :: "string \<Rightarrow> string \<Rightarrow> string \<Rightarrow> tworld \<Rightarrow> (tenant_db, bool) answer" where
  "RenamePasskey u i name =
     Run (\<lambda>s. (s\<lparr>td_passkeys := sql_update (passkey_is u i) (\<lambda>k. k\<lparr>pk_name := name\<rparr>) (td_passkeys s)\<rparr>,
               0 < sql_count (passkey_is u i) (td_passkeys s)))"

definition DeletePasskey :: "string \<Rightarrow> string \<Rightarrow> tworld \<Rightarrow> (tenant_db, bool) answer" where
  "DeletePasskey u i =
     Run (\<lambda>s. (s\<lparr>td_passkeys := sql_delete (passkey_is u i) (td_passkeys s)\<rparr>, 0 < sql_count (passkey_is u i) (td_passkeys s)))"

definition DeleteAllPasskeys :: "string \<Rightarrow> tworld \<Rightarrow> (tenant_db, nat) answer" where
  "DeleteAllPasskeys u =
     Run (\<lambda>s. (s\<lparr>td_passkeys := sql_delete (\<lambda>k. pk_user_id k = u) (td_passkeys s)\<rparr>,
               sql_count (\<lambda>k. pk_user_id k = u) (td_passkeys s)))"

definition CountPasskeys :: "string \<Rightarrow> tworld \<Rightarrow> (tenant_db, nat) answer" where
  "CountPasskeys u = Read (\<lambda>s. sql_count (\<lambda>k. pk_user_id k = u) (td_passkeys s))"

definition SpendChallenge :: "time \<Rightarrow> string \<Rightarrow> time \<Rightarrow> tworld \<Rightarrow> (tenant_db, bool) answer" where
  "SpendChallenge now c expires w =
     andThen (Run (\<lambda>s. (s\<lparr>td_challenges := sql_delete (\<lambda>k. snd k < now) (td_challenges s)\<rparr>, ())) w) (\<lambda>_ w.
       Run (\<lambda>s. if list_ex (\<lambda>k. fst k = c) (td_challenges s) then (s, False)
                else (s\<lparr>td_challenges := td_challenges s @ [(c, expires)]\<rparr>, True)) w)"

end
