(* ===== verification/Operators.thy ===== *)
theory Operators
  imports Members Sessions
begin

text \<open>
  The administrator's surface on accounts (\<^verbatim>\<open>internal/domain/user/endpoint.go\<close>), mounted behind the
  middleware that asks for an administrator.  Hashing a password is an argument; the audit trail and the
  session cache of the node are not modelled.
\<close>

section \<open>Reading\<close>

definition NoUser :: "'r response" where "NoUser = NotFound ''user not found''"

definition flag :: "string \<Rightarrow> string \<Rightarrow> error + bool option" where
  "flag raw name =
     (if raw = [] then Inr None else if raw = ''true'' then Inr (Some True) else if raw = ''false'' then Inr (Some False)
      else Inl (name @ '' must be true or false''))"

record user_filter =
  uf_query :: string
  uf_admin :: "bool option"
  uf_disabled :: "bool option"
  uf_limit :: nat
  uf_offset :: nat

text \<open>\<open>ilike\<close> is the database's case-insensitive substring match.\<close>

definition user_matches :: "(string \<Rightarrow> string \<Rightarrow> bool) \<Rightarrow> user_filter \<Rightarrow> account \<Rightarrow> bool" where
  "user_matches ilike f u =
     ((uf_query f = [] \<or> ilike (uf_query f) (ua_email u)) \<and>
      (case uf_admin f of None \<Rightarrow> True | Some b \<Rightarrow> ua_admin u = b) \<and>
      (case uf_disabled f of None \<Rightarrow> True | Some b \<Rightarrow> ua_disabled u = b))"

definition FindUsers :: "(string \<Rightarrow> string \<Rightarrow> bool) \<Rightarrow> user_filter \<Rightarrow> tworld \<Rightarrow> (tenant_db, account list \<times> nat) answer" where
  "FindUsers ilike f w =
     andThen (Read (\<lambda>s. sql_count (user_matches ilike f) (td_users s)) w) (\<lambda>n w.
       andThen (Read (\<lambda>s. let found = sort_key ua_created_at (filter (user_matches ilike f) (td_users s)) in
                  if uf_limit f = 0 then found else take (uf_limit f) (List.drop (uf_offset f) found)) w) (\<lambda>us w.
         Return (us, n) w))"

definition ListUsers ::
    "(string \<Rightarrow> string \<Rightarrow> bool) \<Rightarrow> string \<Rightarrow> string \<Rightarrow> string \<Rightarrow> nat \<times> nat \<Rightarrow> string \<Rightarrow> tworld \<Rightarrow>
     (account list \<times> nat) response \<times> tworld" where
  "ListUsers ilike email admin disabled page wanted w =
     (if email \<noteq> []
      then Answer (GetUser (to_lower email) w) (\<lambda>u w. (Ok (case u of None \<Rightarrow> ([], 0) | Some u \<Rightarrow> ([u], 1)), w))
      else case flag admin ''admin'' of
             Inl e \<Rightarrow> (BadRequest e, w)
           | Inr a \<Rightarrow>
               (case flag disabled ''disabled'' of
                  Inl e \<Rightarrow> (BadRequest e, w)
                | Inr d \<Rightarrow>
                    Answer (FindUsers ilike \<lparr>uf_query = wanted, uf_admin = a, uf_disabled = d, uf_limit = fst page, uf_offset = snd page\<rparr> w)
                      (\<lambda>r w. (Ok r, w))))"

text \<open>The head of every request on one account.\<close>

definition on_user :: "string \<Rightarrow> (account \<Rightarrow> tworld \<Rightarrow> 'r response \<times> tworld) \<Rightarrow> tworld \<Rightarrow> 'r response \<times> tworld" where
  "on_user i k w = Answer (GetUserByID i w) (\<lambda>u w. case u of None \<Rightarrow> (NoUser, w) | Some u \<Rightarrow> k u w)"

definition GetUserHandler :: "string \<Rightarrow> tworld \<Rightarrow> account response \<times> tworld" where
  "GetUserHandler i = on_user i (\<lambda>u w. (Ok u, w))"

definition ProjectsOf :: "string \<Rightarrow> tworld \<Rightarrow> tenant list response \<times> tworld" where
  "ProjectsOf i = on_user i (\<lambda>u w. Answer (ListForUser i w) (\<lambda>ps w. (Ok ps, w)))"

section \<open>Creating and changing\<close>

record user_create_input =
  uc_email :: string
  uc_password :: string
  uc_admin :: bool

record user_update_input =
  uu_email :: string
  uu_password :: string
  uu_admin :: "bool option"
  uu_disabled :: "bool option"
  uu_email_verified :: "bool option"

definition EmailTaken :: "'r response" where "EmailTaken = Conflict ''a user with this email already exists''"
definition LastAdmin :: "'r response" where
  "LastAdmin = Conflict ''this is the last enabled administrator - promote somebody else first''"

definition blank_account :: account where
  "blank_account = \<lparr>ua_id = [], ua_email = [], ua_password_hash = [], ua_account_type = AccountLocal, ua_admin = False,
     ua_disabled = False, ua_email_verified = False, ua_totp_secret = [], ua_totp_enabled = False, ua_created_at = zero_time,
     ua_last_login_at = None, ua_totp_last_step = 0, ua_totp_failures = 0, ua_totp_locked_until = None, ua_login_failures = 0,
     ua_login_locked_until = None\<rparr>"

text \<open>An empty password leaves the hash as it is.\<close>

definition hashed :: "(string \<Rightarrow> error + string) \<Rightarrow> string \<Rightarrow> string \<Rightarrow> error + string" where
  "hashed hash pw old = (if pw = [] then Inr old else hash pw)"

definition CreateUser ::
    "(string \<Rightarrow> error + string) \<Rightarrow> time \<Rightarrow> string \<Rightarrow> error + user_create_input \<Rightarrow> tworld \<Rightarrow> account response \<times> tworld" where
  "CreateUser hash now i body =
     Bind body (\<lambda>inp w.
       Answer (GetUser (uc_email inp) w) (\<lambda>existing w.
         if existing \<noteq> None then (EmailTaken, w)
         else case hashed hash (uc_password inp) [] of
                Inl e \<Rightarrow> (Internal e, w)
              | Inr h \<Rightarrow>
                  let u = blank_account\<lparr>ua_id := i, ua_email := uc_email inp, ua_password_hash := h, ua_admin := uc_admin inp,
                            ua_email_verified := True\<rparr> in
                  Answer (PutUser now u w) (\<lambda>_ w. (Ok (stamped_account now u), w))))"

text \<open>Failures to end the sessions or to burn the reset links are only logged.\<close>

definition evict :: "time \<Rightarrow> string \<Rightarrow> tworld \<Rightarrow> tworld" where
  "evict now i w = (let (_, w) = RevokeAllForUser i w; (_, w) = InvalidateForUser i now w in w)"

definition with_flags :: "user_update_input \<Rightarrow> account \<Rightarrow> account" where
  "with_flags inp u =
     u\<lparr>ua_admin := given_or (uu_admin inp) (ua_admin u), ua_disabled := given_or (uu_disabled inp) (ua_disabled u),
       ua_email_verified := given_or (uu_email_verified inp) (ua_email_verified u)\<rparr>"

definition free_email :: "string \<Rightarrow> account \<Rightarrow> tworld \<Rightarrow> (tenant_db, bool) answer" where
  "free_email email u w =
     (if email = [] \<or> email = ua_email u then Return True w
      else andThen (GetUser email w) (\<lambda>other w. Return (other = None) w))"

definition UpdateUser ::
    "(string \<Rightarrow> error + string) \<Rightarrow> time \<Rightarrow> caller option \<Rightarrow> string \<Rightarrow> error + user_update_input \<Rightarrow> tworld \<Rightarrow> account response \<times> tworld" where
  "UpdateUser hash now rc i body =
     Bind body (\<lambda>inp. on_user i (\<lambda>u w.
       if is_self rc (ua_id u) \<and> (uu_admin inp \<noteq> None \<or> uu_disabled inp \<noteq> None)
       then (Forbidden ''cannot change your own admin or disabled flags'', w)
       else Answer (free_email (uu_email inp) u w) (\<lambda>free w.
         if \<not> free then (EmailTaken, w)
         else case hashed hash (uu_password inp) (ua_password_hash u) of
                Inl e \<Rightarrow> (Internal e, w)
              | Inr h \<Rightarrow>
                  let v = with_flags inp (u\<lparr>ua_email := (if uu_email inp = [] then ua_email u else uu_email inp), ua_password_hash := h\<rparr>);
                      guarded = enabled_admin u \<and> \<not> enabled_admin v in
                  Answer (if guarded then PutKeepingAnAdmin now v w else andThen (PutUser now v w) (\<lambda>_ w. Return True w)) (\<lambda>kept w.
                    if \<not> kept then (LastAdmin, w)
                    else (Ok (stamped_account now v), if uu_password inp = [] then w else evict now (ua_id v) w)))))"

section \<open>Deleting\<close>

definition other_owner :: "string \<Rightarrow> member list \<Rightarrow> bool" where
  "other_owner u ms = list_ex (\<lambda>m. mb_owner m \<and> mb_user_id m \<noteq> u) ms"

definition project_name :: "string \<Rightarrow> tworld \<Rightarrow> string \<times> tworld" where
  "project_name i w =
     (case Get_project i w of (Inr (Some p), w) \<Rightarrow> (tn_name p, w) | (_, w) \<Rightarrow> (i, w))"

fun sole_owned :: "string \<Rightarrow> member list \<Rightarrow> tworld \<Rightarrow> (tenant_db, string list) answer" where
  "sole_owned u [] w = Return [] w"
| "sole_owned u (m # ms) w =
     (if \<not> mb_owner m then sole_owned u ms w
      else andThen (ListMembers_of (mb_project_id m) w) (\<lambda>members w.
        if other_owner u members then sole_owned u ms w
        else let (name, w) = project_name (mb_project_id m) w in
          andThen (sole_owned u ms w) (\<lambda>names w. Return (name # names) w)))"

definition soleOwnerOf :: "string \<Rightarrow> tworld \<Rightarrow> (tenant_db, string list) answer" where
  "soleOwnerOf u w = andThen (MembershipsForUser u w) (\<lambda>mine w. sole_owned u mine w)"

definition DeleteUserHandler :: "caller option \<Rightarrow> string \<Rightarrow> tworld \<Rightarrow> unit response \<times> tworld" where
  "DeleteUserHandler rc i w =
     (if is_self rc i then (Forbidden ''cannot delete your own account'', w)
      else on_user i (\<lambda>u w.
        Answer (soleOwnerOf i w) (\<lambda>sole w.
          if sole \<noteq> []
          then (Conflict (''this account is the only owner of '' @ join '', '' sole @
                  '' - make somebody else an owner there, or delete the project, first''), w)
          else Answer (DeleteKeepingAnAdmin i w) (\<lambda>kept w. if \<not> kept then (LastAdmin, w) else (NoContent, w)))) w)"

section \<open>Second factors and sessions\<close>

definition endSessions :: "string \<Rightarrow> tworld \<Rightarrow> tworld" where
  "endSessions i w = snd (RevokeAllForUser i w)"

definition ResetTOTP :: "caller option \<Rightarrow> string \<Rightarrow> tworld \<Rightarrow> account response \<times> tworld" where
  "ResetTOTP rc i w =
     (if is_self rc i then (Forbidden ''disable your own 2FA from your profile, with a code'', w)
      else on_user i (\<lambda>u w.
        if \<not> ua_totp_enabled u \<and> ua_totp_secret u = [] then (BadRequest ''two-factor auth is not enabled for this user'', w)
        else Answer (SetTOTP (ua_id u) [] False w) (\<lambda>_ w.
          Answer (DeleteRecoveryCodes (ua_id u) (endSessions (ua_id u) w)) (\<lambda>_ w.
            (Ok (u\<lparr>ua_totp_secret := [], ua_totp_enabled := False\<rparr>), w)))) w)"

definition ResetPasskeys :: "caller option \<Rightarrow> string \<Rightarrow> tworld \<Rightarrow> nat response \<times> tworld" where
  "ResetPasskeys rc i w =
     (if is_self rc i then (Forbidden ''remove your own passkeys from your profile, with your password'', w)
      else on_user i (\<lambda>u w.
        Answer (DeleteAllPasskeys (ua_id u) w) (\<lambda>n w.
          if n = 0 then (BadRequest ''this user has no passkeys'', w) else (Ok n, endSessions (ua_id u) w))) w)"

definition RevokeSessions :: "string \<Rightarrow> tworld \<Rightarrow> nat response \<times> tworld" where
  "RevokeSessions i = on_user i (\<lambda>u w. Answer (RevokeAllForUser i w) (\<lambda>n w. (Ok n, w)))"

end
