(* ===== verification/Tracing.thy ===== *)
theory Tracing
  imports Statement
begin

text \<open>
  What a call can leave behind when it starts in a given state: a postcondition of the answer and the
  state after it (\<open>yields\<close>), and of the state after a request (\<open>ends\<close>), over all fault lists.  The rules
  run a call backwards, so that what a read answered is known to be what stood in the state.
\<close>

named_theorems tracing \<open>rules that run a call backwards\<close>

definition yields :: "('a option \<Rightarrow> 's \<Rightarrow> bool) \<Rightarrow> 's \<Rightarrow> ('s world \<Rightarrow> ('s, 'a) answer) \<Rightarrow> bool" where
  "yields Q s m = (\<forall>fs. case m (s, fs) of (Inl e, w) \<Rightarrow> Q None (fst w) | (Inr x, w) \<Rightarrow> Q (Some x) (fst w))"

definition ends :: "('s \<Rightarrow> bool) \<Rightarrow> 's \<Rightarrow> ('s world \<Rightarrow> 'r \<times> 's world) \<Rightarrow> bool" where
  "ends P s m = (\<forall>fs. P (fst (snd (m (s, fs)))))"

lemma yieldsI:
  assumes "\<And>fs e w. m (s, fs) = (Inl e, w) \<Longrightarrow> Q None (fst w)" "\<And>fs x w. m (s, fs) = (Inr x, w) \<Longrightarrow> Q (Some x) (fst w)"
  shows "yields Q s m"
  unfolding yields_def using assms by (auto split: prod.split sum.split)

lemma yieldsD:
  assumes "yields Q s m"
  shows "m (s, fs) = (Inl e, w) \<Longrightarrow> Q None (fst w)" "m (s, fs) = (Inr x, w) \<Longrightarrow> Q (Some x) (fst w)"
  using assms [unfolded yields_def, rule_format, of fs] by auto

lemma endsI: "(\<And>fs r w. m (s, fs) = (r, w) \<Longrightarrow> P (fst w)) \<Longrightarrow> ends P s m"
  unfolding ends_def by (metis prod.collapse)

lemma endsD: "ends P s m \<Longrightarrow> m (s, fs) = (r, w) \<Longrightarrow> P (fst w)"
  unfolding ends_def by (metis snd_conv)

section \<open>Statements\<close>

lemma yields_Return [tracing]: "Q (Some x) s \<Longrightarrow> yields Q s (Return x)"
  by (simp add: yields_def)

lemma yields_Run [tracing]:
  assumes "Q None s" "Q None (fst (st s))" "Q (Some (snd (st s))) (fst (st s))"
  shows "yields Q s (Run st)"
proof (rule yieldsI)
  fix fs e w
  assume "Run st (s, fs) = (Inl e, w)"
  then show "Q None (fst w)" using assms by (cases rule: Run_cases) auto
next
  fix fs x w
  assume "Run st (s, fs) = (Inr x, w)"
  then show "Q (Some x) (fst w)" using assms Run_Inr [of st "(s, fs)" x w] by auto
qed

lemma yields_Read [tracing]: "Q None s \<Longrightarrow> Q (Some (q s)) s \<Longrightarrow> yields Q s (Read q)"
  unfolding Read_def by (rule yields_Run) auto

lemma yields_Try [tracing]:
  assumes "Q None s" "\<And>t x. st s = Inr (t, x) \<Longrightarrow> Q None t" "\<And>t x. st s = Inr (t, x) \<Longrightarrow> Q (Some x) t"
  shows "yields Q s (Try st)"
proof (rule yieldsI)
  fix fs e w
  assume "Try st (s, fs) = (Inl e, w)"
  then show "Q None (fst w)" using Try_cases [of st "(s, fs)" "Inl e" w] assms by auto
next
  fix fs x w
  assume "Try st (s, fs) = (Inr x, w)"
  then show "Q (Some x) (fst w)" using Try_cases [of st "(s, fs)" "Inr x" w] assms by auto
qed

lemma yields_andThen [tracing]:
  assumes "yields (\<lambda>a t. case a of None \<Rightarrow> Q None t | Some x \<Rightarrow> yields Q t (k x)) s m"
  shows "yields Q s (\<lambda>w. andThen (m w) k)"
proof -
  have "case andThen (m (s, fs)) k of (Inl e, w) \<Rightarrow> Q None (fst w) | (Inr x, w) \<Rightarrow> Q (Some x) (fst w)" for fs
  proof -
    obtain r w where m: "m (s, fs) = (r, w)" by (rule prod.exhaust)
    show ?thesis
    proof (cases r)
      case (Inl e)
      with yieldsD(1) [OF assms] m show ?thesis by simp
    next
      case (Inr x)
      with yieldsD(2) [OF assms] m have "yields Q (fst w) (k x)" by simp
      then have "case k x (fst w, snd w) of (Inl e, w) \<Rightarrow> Q None (fst w) | (Inr x, w) \<Rightarrow> Q (Some x) (fst w)"
        unfolding yields_def by (rule spec [where x = "snd w"])
      with m Inr show ?thesis by simp
    qed
  qed
  then show ?thesis unfolding yields_def by blast
qed

lemma yields_Transaction [tracing]:
  assumes "yields (\<lambda>a t. case a of None \<Rightarrow> Q None s
                    | Some (x, commit) \<Rightarrow> if commit then Q None s \<and> Q None t \<and> Q (Some x) t else Q (Some x) s) s m"
  shows "yields Q s (Transaction m)"
proof -
  have "case Transaction m (s, fs) of (Inl e, w) \<Rightarrow> Q None (fst w) | (Inr x, w) \<Rightarrow> Q (Some x) (fst w)" for fs
  proof -
    obtain r w where m: "m (s, fs) = (r, w)" by (rule prod.exhaust)
    show ?thesis
    proof (cases r)
      case (Inl e)
      with yieldsD(1) [OF assms m [unfolded Inl]] m show ?thesis by (simp add: Transaction_def)
    next
      case (Inr xc)
      obtain x c where xc: "xc = (x, c)" by (rule prod.exhaust)
      note post = yieldsD(2) [OF assms m [unfolded Inr xc]]
      show ?thesis
      proof (cases c)
        case False
        with post m Inr xc show ?thesis by (simp add: Transaction_def)
      next
        case True
        with post have q: "Q None s" "Q None (fst w)" "Q (Some x) (fst w)" by simp_all
        have "yields Q s (Run (\<lambda>s. (fst w, x)))" by (rule yields_Run) (use q in simp_all)
        then have "case Run (\<lambda>s. (fst w, x)) (s, snd w) of (Inl e, w) \<Rightarrow> Q None (fst w) | (Inr x, w) \<Rightarrow> Q (Some x) (fst w)"
          unfolding yields_def by (rule spec [where x = "snd w"])
        with m Inr xc True show ?thesis by (simp add: Transaction_def)
      qed
    qed
  qed
  then show ?thesis unfolding yields_def by blast
qed

lemma yields_if [tracing]:
  "(b \<Longrightarrow> yields Q s m) \<Longrightarrow> (\<not> b \<Longrightarrow> yields Q s n) \<Longrightarrow> yields Q s (\<lambda>w. if b then m w else n w)"
  by (cases b) auto

lemma yields_option [tracing]:
  "(a = None \<Longrightarrow> yields Q s m) \<Longrightarrow> (\<And>x. a = Some x \<Longrightarrow> yields Q s (n x)) \<Longrightarrow>
     yields Q s (\<lambda>w. case a of None \<Rightarrow> m w | Some x \<Rightarrow> n x w)"
  by (cases a) auto

lemma yields_prod [tracing]: "(\<And>x y. a = (x, y) \<Longrightarrow> yields Q s (m x y)) \<Longrightarrow> yields Q s (\<lambda>w. case a of (x, y) \<Rightarrow> m x y w)"
  by (cases a) auto

lemma yields_case [tracing]: "(\<And>x y. a = (x, y) \<Longrightarrow> yields Q s (m x y)) \<Longrightarrow> yields Q s (case a of (x, y) \<Rightarrow> m x y)"
  by (cases a) auto

lemma yields_Let [tracing]: "yields Q s (m x) \<Longrightarrow> yields Q s (\<lambda>w. let y = x in m y w)"
  by (simp add: Let_def)

lemma yields_mono: "yields R s m \<Longrightarrow> (\<And>a t. R a t \<Longrightarrow> Q a t) \<Longrightarrow> yields Q s m"
  by (rule yieldsI) (blast dest: yieldsD)+

text \<open>Postconditions are met case by case.\<close>

lemma post_cases [tracing]:
  "R \<Longrightarrow> case None of None \<Rightarrow> R | Some x \<Rightarrow> S x"
  "S y \<Longrightarrow> case Some y of None \<Rightarrow> R | Some x \<Rightarrow> S x"
  "T y z \<Longrightarrow> case (y, z) of (x, x') \<Rightarrow> T x x'"
  "(b \<Longrightarrow> R) \<Longrightarrow> (\<not> b \<Longrightarrow> R') \<Longrightarrow> if b then R else R'"
  "R \<Longrightarrow> R' \<Longrightarrow> R \<and> R'"
  by simp_all

section \<open>Requests\<close>

lemma ends_stay [tracing]: "P s \<Longrightarrow> ends P s (\<lambda>w. (r, w))"
  by (simp add: ends_def)

lemma ends_Answer [tracing]:
  assumes "yields (\<lambda>a t. case a of None \<Rightarrow> P t | Some x \<Rightarrow> ends P t (k x)) s m"
  shows "ends P s (\<lambda>w. Answer (m w) k)"
proof (rule endsI)
  fix fs y w'
  assume a: "Answer (m (s, fs)) k = (y, w')"
  then show "P (fst w')"
  proof (cases rule: Answer_cases)
    case (failed e)
    with yieldsD(1) [OF assms failed(1)] show ?thesis by simp
  next
    case (ran x w)
    from yieldsD(2) [OF assms ran(1)] have "ends P (fst w) (k x)" by simp
    moreover have "k x (fst w, snd w) = (y, w')" using ran(2) by simp
    ultimately show ?thesis by (rule endsD)
  qed
qed

lemma ends_if [tracing]: "(b \<Longrightarrow> ends P s m) \<Longrightarrow> (\<not> b \<Longrightarrow> ends P s n) \<Longrightarrow> ends P s (\<lambda>w. if b then m w else n w)"
  by (cases b) auto

lemma ends_option [tracing]:
  "(a = None \<Longrightarrow> ends P s m) \<Longrightarrow> (\<And>x. a = Some x \<Longrightarrow> ends P s (n x)) \<Longrightarrow>
     ends P s (\<lambda>w. case a of None \<Rightarrow> m w | Some x \<Rightarrow> n x w)"
  by (cases a) auto

lemma ends_sum [tracing]:
  "(\<And>x. a = Inl x \<Longrightarrow> ends P s (m x)) \<Longrightarrow> (\<And>x. a = Inr x \<Longrightarrow> ends P s (n x)) \<Longrightarrow>
     ends P s (\<lambda>w. case a of Inl x \<Rightarrow> m x w | Inr x \<Rightarrow> n x w)"
  by (cases a) auto

lemma ends_prod [tracing]: "(\<And>x y. a = (x, y) \<Longrightarrow> ends P s (m x y)) \<Longrightarrow> ends P s (\<lambda>w. case a of (x, y) \<Rightarrow> m x y w)"
  by (cases a) auto

lemma ends_case [tracing]: "(\<And>x y. a = (x, y) \<Longrightarrow> ends P s (m x y)) \<Longrightarrow> ends P s (case a of (x, y) \<Rightarrow> m x y)"
  by (cases a) auto

lemma ends_Let [tracing]: "ends P s (m x) \<Longrightarrow> ends P s (\<lambda>w. let y = x in m y w)"
  by (simp add: Let_def)

text \<open>A step of another shape hands on what it answers and the world it leaves.\<close>

lemma ends_then:
  assumes "ends (\<lambda>t. True) s m" "\<And>fs x w. m (s, fs) = (x, w) \<Longrightarrow> ends P (fst w) (k x)"
  shows "ends P s (\<lambda>w. case m w of (x, w) \<Rightarrow> k x w)"
proof (rule endsI)
  fix fs y w'
  assume a: "(case m (s, fs) of (x, w) \<Rightarrow> k x w) = (y, w')"
  obtain x w where m: "m (s, fs) = (x, w)" by (rule prod.exhaust)
  with a have "k x (fst w, snd w) = (y, w')" by simp
  with assms(2) [OF m] show "P (fst w')" by (rule endsD)
qed

lemma ends_mono: "ends P s m \<Longrightarrow> (\<And>t. P t \<Longrightarrow> Q t) \<Longrightarrow> ends Q s m"
  unfolding ends_def by blast

end
