(* ===== verification/Tenancy.thy ===== *)
theory Tenancy
  imports Operators Tracing
begin

text \<open>
  The requests that write projects, members, roles, invitations and accounts, and the rules that run their
  handlers backwards: what the guards of the two surfaces know of the state when a statement writes.  One
  request runs at a time, any of its statements may fail.
\<close>

section \<open>Requests\<close>

text \<open>
  The gates of the routes (\<^verbatim>\<open>internal/server/middleware.go\<close>): accounts are administered by administrators
  and platform credentials only, and who may make a project is a setting of the installation.
\<close>

definition requireAdmin :: "bool \<Rightarrow> caller option \<Rightarrow> (tworld \<Rightarrow> 'r response \<times> tworld) \<Rightarrow> tworld \<Rightarrow> 'r response \<times> tworld" where
  "requireAdmin off rc k w =
     (if off then k w
      else if \<not> IsPlatformAdmin rc then (Forbidden ''admin privileges required'', w)
      else k w)"

definition requireProjectCreation ::
    "bool \<Rightarrow> bool \<Rightarrow> caller option \<Rightarrow> (tworld \<Rightarrow> 'r response \<times> tworld) \<Rightarrow> tworld \<Rightarrow> 'r response \<times> tworld" where
  "requireProjectCreation off setting rc k w =
     (if \<not> MayCreate off setting rc
      then (Forbidden ''creating projects is restricted to platform administrators on this installation'', w)
      else k w)"

lemma ends_requireAdmin:
  "P s \<Longrightarrow> (off \<or> IsPlatformAdmin rc \<Longrightarrow> ends P s k) \<Longrightarrow> ends P s (requireAdmin off rc k)"
  "P s \<Longrightarrow> ends P s k \<Longrightarrow> ends P s (requireProjectCreation off setting rc k)"
  by (auto simp: ends_def requireAdmin_def requireProjectCreation_def split: if_splits)

text \<open>
  Every request of the two surfaces that writes, as the caller \<open>rc\<close> makes it, behind the gate of its route.  The
  id generated for an account is a new one.
\<close>

inductive request :: "bool \<Rightarrow> caller option \<Rightarrow> tworld \<Rightarrow> tworld \<Rightarrow> bool" for off :: bool and rc :: "caller option" where
  create_project: "requireProjectCreation off setting rc (CreateProject now i mi rc body) w = (r, w') \<Longrightarrow> request off rc w w'"
| update_project: "UpdateProject pp now off rc i upd w = (r', w') \<Longrightarrow> request off rc w w'"
| delete_project: "DeleteProjectHandler found store off rc i w = (u, w') \<Longrightarrow> request off rc w w'"
| add_member: "AddProjectMember now mi off rc i who w = (m, w') \<Longrightarrow> request off rc w w'"
| update_member: "UpdateMember off rc i v what w = (m, w') \<Longrightarrow> request off rc w w'"
| remove_member: "RemoveMemberHandler off rc i v w = (u, w') \<Longrightarrow> request off rc w w'"
| invite: "CreateInvitation hash mailing token now vi si off rc i whom w = (iv, w') \<Longrightarrow> request off rc w w'"
| revoke_invitation: "DeleteInvitationHandler off rc i v w = (u, w') \<Longrightarrow> request off rc w w'"
| accept_invitation: "AcceptInvitation hash now mi rc t w = (j, w') \<Longrightarrow> request off rc w w'"
| decline_invitation: "DeclineInvitation hash now rc t w = (b, w') \<Longrightarrow> request off rc w w'"
| create_role: "CreateRole now ri off rc i role w = (pr, w') \<Longrightarrow> request off rc w w'"
| update_role: "UpdateRole now off rc i ri patch w = (pr, w') \<Longrightarrow> request off rc w w'"
| delete_role: "DeleteRoleHandler off rc i ri w = (u, w') \<Longrightarrow> request off rc w w'"
| set_default_role: "SetDefaultRoleHandler off rc i name w = (r', w') \<Longrightarrow> request off rc w w'"
| create_user: "requireAdmin off rc (CreateUser hashing now i new) w = (ac, w') \<Longrightarrow> \<not> list_ex (account_is i) (td_users (fst w)) \<Longrightarrow> request off rc w w'"
| update_user: "requireAdmin off rc (UpdateUser hashing now rc i change) w = (ac, w') \<Longrightarrow> request off rc w w'"
| delete_user: "requireAdmin off rc (DeleteUserHandler rc i) w = (u, w') \<Longrightarrow> request off rc w w'"
| reset_totp: "requireAdmin off rc (ResetTOTP rc i) w = (ac, w') \<Longrightarrow> request off rc w w'"
| reset_passkeys: "requireAdmin off rc (ResetPasskeys rc i) w = (n, w') \<Longrightarrow> request off rc w w'"
| revoke_sessions: "requireAdmin off rc (RevokeSessions i) w = (n, w') \<Longrightarrow> request off rc w w'"

section \<open>What the guards know\<close>

lemma find_in: "find p xs = Some x \<Longrightarrow> x \<in> set xs \<and> p x"
  by (induction xs) (auto split: if_splits)

lemma find_in_append: "find p (xs @ ys) = (case find p xs of None \<Rightarrow> find p ys | Some x \<Rightarrow> Some x)"
  by (induction xs) auto

lemma list_ex_sql_update: "(\<And>x. q x \<Longrightarrow> p (f x) = p x) \<Longrightarrow> list_ex p (sql_update q f xs) = list_ex p xs"
  by (induction xs) (auto simp: sql_update_def)

lemma find_in_update:
  assumes "\<And>x. q x \<Longrightarrow> p (f x) = p x"
  shows "find p (sql_update q f xs) = map_option (\<lambda>x. if q x then f x else x) (find p xs)"
  using assms by (induction xs) (auto simp: sql_update_def)

lemma find_sql_delete:
  assumes "find p (sql_delete q xs) = Some x" "\<And>y z. p y \<Longrightarrow> p z \<Longrightarrow> q y = q z"
  shows "find p xs = Some x"
  using assms(1)
proof (induction xs)
  case (Cons y ys)
  have "x \<in> set (sql_delete q ys)" "p x" if "find p (sql_delete q ys) = Some x"
    using find_in [OF that] by simp_all
  with Cons assms(2) [of y x] show ?case by (auto simp: sql_delete_def split: if_splits)
qed (simp add: sql_delete_def)

lemma list_ex_deleted: "list_ex p (sql_delete q xs) \<Longrightarrow> list_ex p xs"
  by (auto simp: list_ex_iff)

definition access_at :: "bool \<Rightarrow> caller option \<Rightarrow> tenant_db \<Rightarrow> string \<Rightarrow> access" where
  "access_at off rc s p =
     (if off \<or> IsPlatformAdmin rc then everything
      else case rc of
             None \<Rightarrow> no_access
           | Some c \<Rightarrow> (case ca_user c of None \<Rightarrow> no_access | Some u \<Rightarrow> access_of (member_of s p (ua_id u))))"

lemma yields_callerAccess:
  "Q None s \<Longrightarrow> Q (Some (access_at off rc s p)) s \<Longrightarrow> yields Q s (callerAccess off rc p)"
  unfolding callerAccess_def [abs_def] GetMember_def
  by (intro tracing) (auto simp: access_at_def IsPlatformAdmin_def intro!: tracing)

lemma yields_loadWithMember:
  "Q None s \<Longrightarrow> Q (Some (map_option (\<lambda>p. (p, access_at off rc s (tn_id p))) (find (tenant_is i) (td_projects s)))) s \<Longrightarrow>
     yields Q s (loadWithMember off rc i)"
  unfolding loadWithMember_def [abs_def] Get_project_def
  by (intro tracing) (auto intro!: tracing yields_callerAccess split: option.split)

lemma found_tenant: "find (tenant_is i) (td_projects s) = Some p \<Longrightarrow> tn_id p = i"
  using find_in [of "tenant_is i"] by (fastforce simp: tenant_is_def)

lemma ends_permitted [tracing]:
  assumes "P s" "\<And>p. find (tenant_is (tn_id p)) (td_projects s) = Some p \<Longrightarrow> ok (access_at off rc s (tn_id p)) \<Longrightarrow>
    ends P s (k p (access_at off rc s (tn_id p)))"
  shows "ends P s (permitted off rc i ok k)"
  unfolding permitted_def [abs_def]
  by (rule ends_Answer, rule yields_loadWithMember)
    (use assms found_tenant [of i s] in \<open>auto simp: ends_def split: option.split\<close>)

lemma ends_Bind [tracing]: "P s \<Longrightarrow> (\<And>x. body = Inr x \<Longrightarrow> ends P s (k x)) \<Longrightarrow> ends P s (Bind body k)"
  unfolding Bind_def [abs_def] by (cases body) (auto simp: ends_def)

lemma ends_on_user [tracing]:
  assumes "P s" "\<And>u. find (account_is i) (td_users s) = Some u \<Longrightarrow> ends P s (k u)"
  shows "ends P s (on_user i k)"
  unfolding on_user_def [abs_def] GetUserByID_def
  by (intro tracing) (use assms in \<open>auto intro!: tracing\<close>)

text \<open>A role that may be handed on: what it grants, the caller holds.\<close>

definition grantable :: "tenant_db \<Rightarrow> access \<Rightarrow> string \<Rightarrow> string \<Rightarrow> bool" where
  "grantable s acc p c =
     (\<forall>r. c \<noteq> [] \<longrightarrow> find (role_is p c) (td_roles s) = Some r \<longrightarrow> Missing (aa_perms acc) (pr_permissions r) = [])"

lemma find_role_project: "find (role_is p c) rs = Some r \<Longrightarrow> pr_project_id r = p \<and> pr_id r = c"
  by (auto simp: find_Some_iff role_is_def)

lemma GetRole_None:
  assumes "find (tenant_is p) (td_projects s) = Some pr" "Option.bind (find (role_is p c) (td_roles s)) (counted_role s) = None"
  shows "find (role_is p c) (td_roles s) = None"
  using assms find_role_project [of p c "td_roles s"] by (cases "find (role_is p c) (td_roles s)") (auto simp: counted_role_def)

lemma GetRole_Some:
  assumes "Option.bind (find (role_is p c) (td_roles s)) (counted_role s) = Some info"
  shows "find (role_is p c) (td_roles s) = Some (ri_role info)"
  using assms by (cases "find (role_is p c) (td_roles s)") (auto simp: counted_role_def)

lemma refuseAssigning_state:
  fixes x :: "'r response option"
  assumes p: "find (tenant_is (tn_id p)) (td_projects s) = Some pr"
    and r: "refuseAssigning p acc role (s, fs) = (x, w)"
  shows "fst w = s \<and> (x = None \<longrightarrow> grantable s acc (tn_id p) (if role = [] then tn_default_role_id p else role))"
proof (cases "(if role = [] then tn_default_role_id p else role) = []")
  case True
  then have c: "role = []" "tn_default_role_id p = []" by (simp_all split: if_splits)
  have "refuseAssigning p acc role (s, fs) = (None :: 'r response option, (s, fs))" by (simp add: refuseAssigning_def c)
  with r show ?thesis by (auto simp: grantable_def c)
next
  case False
  let ?c = "if role = [] then tn_default_role_id p else role"
  obtain a w' where g: "GetRole (tn_id p) ?c (s, fs) = (a, w')" by (rule prod.exhaust)
  have st: "fst w' = s" using Read_state [OF g [unfolded GetRole_def]] by simp
  show ?thesis
  proof (cases a)
    case (Inl e)
    with g False st r show ?thesis by (auto simp: refuseAssigning_def Let_def)
  next
    case (Inr found)
    have found: "found = Option.bind (find (role_is (tn_id p) ?c) (td_roles s)) (counted_role s)"
      using Read_Inr [OF g [unfolded GetRole_def Inr]] by simp
    show ?thesis
    proof (cases found)
      case None
      with GetRole_None [OF p] found have "find (role_is (tn_id p) ?c) (td_roles s) = None" by metis
      with g Inr None False st r show ?thesis
        by (auto simp: refuseAssigning_def Let_def grantable_def split: if_splits)
    next
      case (Some info)
      with GetRole_Some found have "find (role_is (tn_id p) ?c) (td_roles s) = Some (ri_role info)" by metis
      with g Inr Some False st r show ?thesis
        by (auto simp: refuseAssigning_def refuseDelegating_def Let_def grantable_def split: if_splits)
    qed
  qed
qed

lemma ends_assigning [tracing]:
  fixes k :: "tworld \<Rightarrow> 'r response \<times> tworld"
  assumes "find (tenant_is (tn_id p)) (td_projects s) = Some p" "P s"
    "grantable s acc (tn_id p) (if role = [] then tn_default_role_id p else role) \<Longrightarrow> ends P s k"
  shows "ends P s (\<lambda>w. Unless (refuseAssigning p acc role w) k)"
proof (rule endsI)
  fix fs y w'
  assume a: "Unless (refuseAssigning p acc role (s, fs)) k = (y, w')"
  obtain x :: "'r response option" and w where r: "refuseAssigning p acc role (s, fs) = (x, w)" by (rule prod.exhaust)
  note st = refuseAssigning_state [OF assms(1) r]
  show "P (fst w')"
  proof (cases x)
    case (Some resp)
    with a r st assms(2) show ?thesis by (auto simp: Unless_def)
  next
    case None
    with a r st have "k (s, snd w) = (y, w')" by (cases w) (auto simp: Unless_def)
    with None st assms(3) show ?thesis by (blast dest: endsD)
  qed
qed

lemma ends_Unless_none [tracing]: "ends P s k \<Longrightarrow> ends P s (\<lambda>w. Unless (None, w) k)"
  by (simp add: ends_def Unless_def)

lemma ends_Unless_option [tracing]:
  "(a = None \<Longrightarrow> ends P s (\<lambda>w. Unless (None, w) k)) \<Longrightarrow> (\<And>x. a = Some x \<Longrightarrow> ends P s (\<lambda>w. Unless (m x w) k)) \<Longrightarrow>
     ends P s (\<lambda>w. Unless (case a of None \<Rightarrow> (None, w) | Some x \<Rightarrow> m x w) k)"
  by (cases a) auto

lemma ends_assign_role [tracing]:
  assumes "P s" "\<And>c. role = Some c \<Longrightarrow> P (fst (set_role p u c s))"
  shows "ends P s (assign_role p u role)"
  unfolding assign_role_def [abs_def] SetMemberRole_def GetMember_def Let_def
  by (intro tracing) (use assms in simp_all)

section \<open>Calls that leave these tables alone\<close>

definition same_tenants :: "tenant_db \<Rightarrow> tenant_db \<Rightarrow> bool" where
  "same_tenants s t =
     (td_users t = td_users s \<and> td_projects t = td_projects s \<and> td_members t = td_members s \<and> td_roles t = td_roles s)"

text \<open>The statements that leave accounts, projects, members and roles alone.\<close>

definition quiet_call :: "(tworld \<Rightarrow> (tenant_db, 'a) answer) \<Rightarrow> bool" where
  "quiet_call m = (\<forall>s. yields (\<lambda>_. same_tenants s) s m)"

lemma yields_quiet:
  assumes "quiet_call m" "\<And>t. same_tenants s t \<Longrightarrow> Q None t" "\<And>x t. same_tenants s t \<Longrightarrow> Q (Some x) t"
  shows "yields Q s m"
proof (rule yields_mono)
  show "yields (\<lambda>_. same_tenants s) s m" using assms(1) by (simp add: quiet_call_def)
  show "Q a t" if "same_tenants s t" for a t using assms(2,3) that by (cases a) auto
qed

lemma quiet_calls:
  "quiet_call (PutInvitation hash now v)" "quiet_call (DeleteInvitation_of p j)"
  "quiet_call (RevokeAllForUser u)" "quiet_call (InvalidateForUser u now)" "quiet_call (DeleteAllPasskeys u)"
  "quiet_call (DeleteRecoveryCodes u)"
  unfolding PutInvitation_def DeleteInvitation_of_def RevokeAllForUser_def InvalidateForUser_def DeleteAllPasskeys_def
    DeleteRecoveryCodes_def quiet_call_def
  by ((rule allI, intro tracing,
      auto simp: same_tenants_def put_invitation_def insert_invitation_def update_sessions_def burn_def split: if_splits)[1])+

lemma quiet_invitation: "quiet_call (PutInvitationWithin hash i v since refuse)"
  unfolding PutInvitationWithin_def quiet_call_def
  by (rule allI, intro tracing) (auto simp: same_tenants_def insert_invitation_def add_send_def split: if_splits)

lemmas yields_quiet_calls [tracing] = quiet_calls [THEN yields_quiet] quiet_invitation [THEN yields_quiet]

lemma quiet_state:
  assumes "quiet_call m"
  shows "same_tenants (fst w) (fst (snd (m w)))"
proof -
  obtain x w' where m: "m (fst w, snd w) = (x, w')" by (rule prod.exhaust)
  from assms have y: "yields (\<lambda>_. same_tenants (fst w)) (fst w) m" by (simp add: quiet_call_def)
  show ?thesis
  proof (cases x)
    case (Inl e)
    with yieldsD(1) [OF y m [unfolded Inl]] m show ?thesis by simp
  next
    case (Inr a)
    with yieldsD(2) [OF y m [unfolded Inr]] m show ?thesis by simp
  qed
qed

lemma quietI: "(\<And>w. same_tenants (fst w) (fst (snd (m w)))) \<Longrightarrow> quiet_call m"
  unfolding quiet_call_def by (intro allI yieldsI) (metis fst_conv snd_conv)+

lemma evict_quiet: "same_tenants (fst w) (fst (evict now u w))" "same_tenants (fst w) (fst (endSessions u w))"
proof -
  note r = quiet_state [OF quiet_calls(3) [of u], of w]
  then show "same_tenants (fst w) (fst (endSessions u w))" by (simp add: endSessions_def)
  have "same_tenants (fst (snd (RevokeAllForUser u w))) (fst (snd (InvalidateForUser u now (snd (RevokeAllForUser u w)))))"
    by (rule quiet_state [OF quiet_calls(4)])
  with r show "same_tenants (fst w) (fst (evict now u w))"
    by (simp add: evict_def same_tenants_def case_prod_unfold)
qed

lemma ends_evicting [tracing]:
  assumes "P s" "\<And>t. same_tenants s t \<Longrightarrow> P t"
  shows "ends P s (\<lambda>w. (r, if b then w else evict now u w))" "ends P s (\<lambda>w. (r, endSessions u w))"
  using assms(1) assms(2) [OF evict_quiet(1) [of "(s, _)", simplified]] assms(2) [OF evict_quiet(2) [of "(s, _)", simplified]]
  by (auto simp: ends_def)

lemma quiet_after_end: "quiet_call (\<lambda>w. DeleteRecoveryCodes u (endSessions u w))"
proof (rule quietI)
  fix w
  show "same_tenants (fst w) (fst (snd (DeleteRecoveryCodes u (endSessions u w))))"
    using evict_quiet(2) [of w u] quiet_state [OF quiet_calls(6) [of u], of "endSessions u w"] by (simp add: same_tenants_def)
qed

lemmas yields_after_end [tracing] = quiet_after_end [THEN yields_quiet]

text \<open>What an account's sole ownership is judged on.\<close>

definition project_members :: "tenant_db \<Rightarrow> string \<Rightarrow> member list" where
  "project_members s p = List.map_filter (joined_member s) (sort_key ms_created_at (filter (\<lambda>m. ms_project_id m = p) (td_members s)))"

definition replaceable :: "tenant_db \<Rightarrow> string \<Rightarrow> bool" where
  "replaceable s u = list_all (\<lambda>m. mb_owner m \<longrightarrow> other_owner u (project_members s (mb_project_id m)))
     (List.map_filter (joined_member s) (filter (\<lambda>m. ms_user_id m = u) (td_members s)))"

lemma Get_project_still: "fst (snd (Get_project i w)) = fst w"
  unfolding Get_project_def using Read_state by (metis prod.collapse)

lemma project_name_still: "fst (snd (project_name i w)) = fst w"
proof -
  obtain x w' where l: "Get_project i w = (x, w')" by (rule prod.exhaust)
  with Get_project_still [of i w] show ?thesis by (simp add: project_name_def split: sum.split option.split)
qed

lemma yields_let_still:
  assumes "\<And>w. fst (snd (m w)) = fst w" "\<And>x. yields Q s (k x)"
  shows "yields Q s (\<lambda>w. let (x, w) = m w in k x w)"
proof (rule yieldsI)
  fix fs e w'
  assume a: "(let (x, w) = m (s, fs) in k x w) = (Inl e, w')"
  obtain x fs' where m: "m (s, fs) = (x, (s, fs'))" using assms(1) [of "(s, fs)"] by (metis fst_conv prod.collapse)
  with a have "k x (s, fs') = (Inl e, w')" by simp
  with assms(2) show "Q None (fst w')" by (rule yieldsD)
next
  fix fs y w'
  assume a: "(let (x, w) = m (s, fs) in k x w) = (Inr y, w')"
  obtain x fs' where m: "m (s, fs) = (x, (s, fs'))" using assms(1) [of "(s, fs)"] by (metis fst_conv prod.collapse)
  with a have "k x (s, fs') = (Inr y, w')" by simp
  with assms(2) show "Q (Some y) (fst w')" by (rule yieldsD)
qed

lemma yields_sole_owned:
  assumes "Q None s" "\<And>names. (names = [] \<Longrightarrow> list_all (\<lambda>m. mb_owner m \<longrightarrow> other_owner u (project_members s (mb_project_id m))) ms) \<Longrightarrow>
    Q (Some names) s"
  shows "yields Q s (sole_owned u ms)"
  using assms
proof (induction ms arbitrary: Q)
  case Nil
  then show ?case by (simp add: yields_def)
next
  case (Cons m ms)
  have e: "sole_owned u (m # ms) = (\<lambda>w. if \<not> mb_owner m then sole_owned u ms w
      else andThen (ListMembers_of (mb_project_id m) w) (\<lambda>members w.
        if other_owner u members then sole_owned u ms w
        else let (name, w) = project_name (mb_project_id m) w in
          andThen (sole_owned u ms w) (\<lambda>names w. Return (name # names) w)))"
    by (rule ext) simp
  show ?case
    unfolding e ListMembers_of_def
    by (intro tracing Cons.IH yields_let_still project_name_still) (use Cons.prems in \<open>auto simp: project_members_def\<close>)
qed

lemma yields_soleOwnerOf [tracing]:
  "Q None s \<Longrightarrow> (\<And>names. (names = [] \<Longrightarrow> replaceable s u) \<Longrightarrow> Q (Some names) s) \<Longrightarrow> yields Q s (soleOwnerOf u)"
  unfolding soleOwnerOf_def [abs_def] MembershipsForUser_def
  by (intro tracing yields_sole_owned) (simp_all add: replaceable_def)

lemma ends_invited [tracing]:
  assumes "P s" "\<And>c u v. \<lbrakk>rc = Some c; ca_user c = Some u; v \<in> set (td_invitations s); iv_status v = InvitationPending;
    equal_fold (iv_email v) (ua_email u)\<rbrakk> \<Longrightarrow> ends P s (k u v)"
  shows "ends P s (invited hash now rc t k)"
  unfolding invited_def [abs_def] GetInvitationByToken_def
  by (intro tracing)
    (use assms find_in [of "\<lambda>k. iv_token k = hash t" "td_invitations s"] in \<open>auto split: option.splits\<close>)

lemma yields_offered_role [tracing]:
  assumes "Q None s" "iv_role_id v = [] \<Longrightarrow> Q (Some []) s"
    "Option.bind (find (role_is (iv_project_id v) (iv_role_id v)) (td_roles s)) (counted_role s) = None \<Longrightarrow> Q (Some []) s"
    "\<And>r. iv_role_id v \<noteq> [] \<Longrightarrow> find (role_is (iv_project_id v) (iv_role_id v)) (td_roles s) = Some r \<Longrightarrow> Q (Some (iv_role_id v)) s"
  shows "yields Q s (offered_role v)"
  unfolding offered_role_def [abs_def] GetRole_def
  by (intro tracing) (use assms in \<open>auto split: if_splits dest: GetRole_Some\<close>)

lemma ends_let_still:
  assumes "\<And>w. fst (snd (m w)) = fst w" "\<And>x. ends P s (k x)"
  shows "ends P s (\<lambda>w. let (x, w) = m w in k x w)"
proof (rule endsI)
  fix fs r w'
  assume a: "(let (x, w) = m (s, fs) in k x w) = (r, w')"
  obtain x fs' where m: "m (s, fs) = (x, (s, fs'))" using assms(1) [of "(s, fs)"] by (metis fst_conv prod.collapse)
  with a have "k x (s, fs') = (r, w')" by simp
  with assms(2) show "P (fst w')" by (rule endsD)
qed

lemma ends_still_sum:
  fixes m :: "tworld \<Rightarrow> ('r response + 'b) \<times> tworld"
  assumes "\<And>w. fst (snd (m w)) = fst w" "P s" "\<And>x. ends P s (k x)"
  shows "ends P s (\<lambda>w. case m w of (Inl r, w) \<Rightarrow> (r, w) | (Inr x, w) \<Rightarrow> k x w)"
proof (rule endsI)
  fix fs r w'
  assume a: "(case m (s, fs) of (Inl r, w) \<Rightarrow> (r, w) | (Inr x, w) \<Rightarrow> k x w) = (r, w')"
  obtain x fs' where m: "m (s, fs) = (x, (s, fs'))" using assms(1) [of "(s, fs)"] by (metis fst_conv prod.collapse)
  show "P (fst w')"
  proof (cases x)
    case (Inl e)
    with a m have "w' = (s, fs')" by simp
    with assms(2) show ?thesis by simp
  next
    case (Inr y)
    with a m have "k y (s, fs') = (r, w')" by simp
    with assms(3) show ?thesis by (rule endsD)
  qed
qed

lemma ownerOf_still: "fst (snd (ownerOf c email w)) = fst w"
proof -
  obtain x w' where l: "GetUser email w = (x, w')" by (rule prod.exhaust)
  with Read_state [OF l [unfolded GetUser_def]] show ?thesis
    by (auto simp: ownerOf_def split: sum.split option.split)
qed

lemma ends_ownerOf [tracing]:
  "P s \<Longrightarrow> (\<And>x. ends P s (k x)) \<Longrightarrow>
     ends P s (\<lambda>w. case ownerOf c email w of (Inl r, w) \<Rightarrow> (r, w) | (Inr x, w) \<Rightarrow> k x w)"
  by (rule ends_still_sum) (simp_all add: ownerOf_still)

lemma mustListRoles_still: "fst (snd (mustListRoles p w)) = fst w"
proof -
  obtain x w' where l: "ListRoles_of p w = (x, w')" by (rule prod.exhaust)
  with Read_state [OF l [unfolded ListRoles_of_def]] show ?thesis by (simp add: mustListRoles_def split: sum.split)
qed

lemma ends_let_reads [tracing]:
  "(\<And>roles. ends P s (k roles)) \<Longrightarrow> ends P s (\<lambda>w. let (roles, w) = mustListRoles p w in k roles w)"
  "(\<And>roles. ends P s (k roles)) \<Longrightarrow> ends P s (\<lambda>w. let (roles, w) = (if b then ([], w) else mustListRoles p w) in k roles w)"
  "(\<And>x. ends P s (l x)) \<Longrightarrow> ends P s (\<lambda>w. let (x, w) = Get_project i w in l x w)"
  by (rule ends_let_still, simp add: mustListRoles_still Get_project_still, assumption)+

end
