(* ===== verification/Grants.thy ===== *)
theory Grants
  imports Tenancy
begin

text \<open>
  No request gives anybody a permission its caller does not hold: what an account may do in a project after
  it, that account could do before, or the caller may do it, or it was offered by an invitation.
\<close>

section \<open>Permissions in a project\<close>

text \<open>
  What an account may do in a project: everything its session's requests are let do there, by its membership or
  because it administers the platform; nothing while it is disabled.
\<close>

definition holds_in :: "tenant_db \<Rightarrow> string \<Rightarrow> string \<Rightarrow> resource \<Rightarrow> action \<Rightarrow> bool" where
  "holds_in s p v r a =
     (case find (account_is v) (td_users s) of
        None \<Rightarrow> False
      | Some u \<Rightarrow> \<not> ua_disabled u \<and>
          Has (aa_perms (access_at False (Some \<lparr>ca_user = Some u, ca_platform_key = False\<rparr>) s p)) r a)"

text \<open>What the membership alone gives.\<close>

definition joined_holds :: "tenant_db \<Rightarrow> string \<Rightarrow> string \<Rightarrow> resource \<Rightarrow> action \<Rightarrow> bool" where
  "joined_holds s p v r a = Has (aa_perms (access_of (member_of s p v))) r a"

definition role_carries :: "tenant_db \<Rightarrow> tenant \<Rightarrow> member_row \<Rightarrow> resource \<Rightarrow> action \<Rightarrow> bool" where
  "role_carries s pr m r a =
     (ms_owner m \<or> (\<exists>ro. carried_role pr m \<noteq> [] \<and> find (role_is (ms_project_id m) (carried_role pr m)) (td_roles s) = Some ro \<and>
        Has (FromStrings (pr_permissions ro)) r a))"

lemma Has_All [simp]: "Has (NewSet [All]) r a"
  by (simp add: Has_def NewSet_def)

lemma Has_nothing [simp]: "\<not> Has None r a" "\<not> Has (Some {}) r a"
  by (simp_all add: Has_def)

lemma joined_holds_iff:
  "joined_holds s p v r a \<longleftrightarrow>
     (\<exists>m pr. find (member_is p v) (td_members s) = Some m \<and> list_ex (account_is v) (td_users s) \<and>
        find (tenant_is p) (td_projects s) = Some pr \<and> role_carries s pr m r a)"
proof (cases "find (member_is p v) (td_members s)")
  case None
  then show ?thesis by (simp add: joined_holds_def member_of_def access_of_def no_access_def)
next
  case (Some m)
  then have m: "ms_project_id m = p" "ms_user_id m = v" by (auto simp: find_Some_iff member_is_def)
  show ?thesis
  proof (cases "find (account_is v) (td_users s)")
    case None
    then have "\<not> list_ex (account_is v) (td_users s)" by (auto simp: list_ex_iff find_None_iff)
    with None Some m show ?thesis by (simp add: joined_holds_def member_of_def joined_member_def access_of_def no_access_def)
  next
    case (Some u)
    then have u: "list_ex (account_is v) (td_users s)" by (auto simp: list_ex_iff find_Some_iff intro: nth_mem)
    with Some \<open>find (member_is p v) (td_members s) = Some m\<close> m show ?thesis
      by (auto simp: joined_holds_def member_of_def joined_member_def access_of_def no_access_def role_carries_def ForMember_def Let_def
          split: option.split)
  qed
qed

section \<open>Nobody is given more than the caller holds\<close>

text \<open>
  Besides by somebody who holds a permission one comes by it with an invitation to one's own address, which
  carries the role it offers or the project's default, or with a project that is new.
\<close>

definition redeemed :: "caller option \<Rightarrow> tenant_db \<Rightarrow> string \<Rightarrow> string \<Rightarrow> resource \<Rightarrow> action \<Rightarrow> bool" where
  "redeemed rc s p v r a =
     (\<exists>c u iv pr ro. rc = Some c \<and> ca_user c = Some u \<and> ua_id u = v \<and>
        iv \<in> set (td_invitations s) \<and> iv_project_id iv = p \<and> iv_status iv = InvitationPending \<and> equal_fold (iv_email iv) (ua_email u) \<and>
        pr \<in> set (td_projects s) \<and> tn_id pr = p \<and> ro \<in> set (td_roles s) \<and>
        role_is p (if iv_role_id iv \<noteq> [] \<and> role_in s p (iv_role_id iv) then iv_role_id iv else tn_default_role_id pr) ro \<and>
        Has (FromStrings (pr_permissions ro)) r a)"

definition project_in :: "tenant_db \<Rightarrow> string \<Rightarrow> bool" where
  "project_in s p = list_ex (tenant_is p) (td_projects s)"

definition kept_within :: "bool \<Rightarrow> caller option \<Rightarrow> tenant_db \<Rightarrow> tenant_db \<Rightarrow> bool" where
  "kept_within off rc s0 s =
     (\<forall>p v r a. joined_holds s p v r a \<longrightarrow>
        joined_holds s0 p v r a \<or> Has (aa_perms (access_at off rc s0 p)) r a \<or> redeemed rc s0 p v r a \<or> \<not> project_in s0 p)"

lemma kept_within_refl [simp]: "kept_within off rc s s"
  by (simp add: kept_within_def)

lemma confinedD:
  "kept_within off rc s0 s \<Longrightarrow> joined_holds s p v r a \<Longrightarrow>
     joined_holds s0 p v r a \<or> Has (aa_perms (access_at off rc s0 p)) r a \<or> redeemed rc s0 p v r a \<or> \<not> project_in s0 p"
  by (simp add: kept_within_def)

lemma confined_narrower:
  assumes "kept_within off rc s0 s" "\<And>p v r a. joined_holds t p v r a \<Longrightarrow> joined_holds s p v r a"
  shows "kept_within off rc s0 t"
  using assms unfolding kept_within_def by blast

text \<open>How the statements change what is found.\<close>

lemma find_member_update:
  assumes "find (member_is p v) (sql_update q f ms) = Some m'" "\<And>x. ms_project_id (f x) = ms_project_id x \<and> ms_user_id (f x) = ms_user_id x"
  obtains m where "find (member_is p v) ms = Some m" "m' = (if q m then f m else m)" "ms_project_id m = p" "ms_user_id m = v"
proof -
  have "find (member_is p v) (sql_update q f ms) = map_option (\<lambda>x. if q x then f x else x) (find (member_is p v) ms)"
    by (rule find_in_update) (simp add: member_is_def assms(2))
  with assms(1) obtain m where m: "find (member_is p v) ms = Some m" "m' = (if q m then f m else m)" by auto
  moreover from m(1) have "ms_project_id m = p" "ms_user_id m = v" by (auto simp: find_Some_iff member_is_def)
  ultimately show thesis by (rule that)
qed

lemma joined_holds_same:
  assumes "td_members t = td_members s" "td_roles t = td_roles s" "td_projects t = td_projects s"
    "\<And>v. list_ex (account_is v) (td_users t) \<Longrightarrow> list_ex (account_is v) (td_users s)"
  shows "joined_holds t p v r a \<Longrightarrow> joined_holds s p v r a"
  using assms(4) by (auto simp: joined_holds_iff role_carries_def assms(1,2,3))

text \<open>A role handed on gives nothing that the caller lacks.\<close>

lemma grantable_gives:
  assumes "grantable s acc p c" "c \<noteq> []" "find (role_is p c) (td_roles s) = Some ro" "Has (FromStrings (pr_permissions ro)) r a"
  shows "Has (aa_perms acc) r a"
  using assms perms.grant_within unfolding grantable_def by blast

lemma owner_holds: "aa_owner (access_at off rc s p) \<Longrightarrow> Has (aa_perms (access_at off rc s p)) r a"
  by (auto simp: access_at_def everything_def no_access_def access_of_def ForMember_def split: if_splits option.splits)

lemma confined_set_role:
  assumes "kept_within off rc s0 t" "td_roles t = td_roles s0" "td_projects t = td_projects s0"
    "find (tenant_is p) (td_projects s0) = Some pr"
    "grantable s0 (access_at off rc s0 p) p (if c = [] then tn_default_role_id pr else c)"
  shows "kept_within off rc s0 (fst (set_role p u c t))"
  unfolding kept_within_def
proof (intro allI impI)
  fix p' v r a
  let ?hit = "\<lambda>m. member_is p u m \<and> (c = [] \<or> role_in t p c)"
  let ?t = "t\<lparr>td_members := sql_update ?hit (\<lambda>m. m\<lparr>ms_role_id := c\<rparr>) (td_members t)\<rparr>"
  assume "joined_holds (fst (set_role p u c t)) p' v r a"
  then have "joined_holds ?t p' v r a" by (simp add: set_role_def Let_def)
  then obtain m' pr' where m': "find (member_is p' v) (sql_update ?hit (\<lambda>m. m\<lparr>ms_role_id := c\<rparr>) (td_members t)) = Some m'"
    and v: "list_ex (account_is v) (td_users t)" and pr': "find (tenant_is p') (td_projects t) = Some pr'"
    and c': "role_carries ?t pr' m' r a"
    by (auto simp: joined_holds_iff)
  obtain m where m: "find (member_is p' v) (td_members t) = Some m" and mm: "m' = (if ?hit m then m\<lparr>ms_role_id := c\<rparr> else m)"
    and is_m: "ms_project_id m = p'" "ms_user_id m = v"
    by (rule find_member_update [OF m']) simp_all
  show "joined_holds s0 p' v r a \<or> Has (aa_perms (access_at off rc s0 p')) r a \<or> redeemed rc s0 p' v r a \<or> \<not> project_in s0 p'"
  proof (cases "ms_owner m \<or> \<not> ?hit m")
    case True
    then have "role_carries t pr' m r a" using c' mm by (auto simp: role_carries_def carried_role_def split: if_splits)
    then have "joined_holds t p' v r a" using m v pr' by (auto simp: joined_holds_iff)
    then show ?thesis by (rule confinedD [OF assms(1)])
  next
    case False
    then have p': "p' = p" and mm: "m' = m\<lparr>ms_role_id := c\<rparr>" using is_m mm by (simp_all add: member_is_def)
    have pr: "pr' = pr" using pr' assms(4) unfolding p' assms(3) by simp
    have "\<not> ms_owner m'" using False by (simp add: mm)
    with c' obtain ro where ro: "carried_role pr' m' \<noteq> []"
      "find (role_is (ms_project_id m') (carried_role pr' m')) (td_roles ?t) = Some ro" "Has (FromStrings (pr_permissions ro)) r a"
      unfolding role_carries_def by blast
    have "ms_project_id m' = p" "td_roles ?t = td_roles s0" using is_m p' assms(2) by (simp_all add: mm)
    with ro pr have ro': "carried_role pr m' \<noteq> []" "find (role_is p (carried_role pr m')) (td_roles s0) = Some ro"
      "Has (FromStrings (pr_permissions ro)) r a" by simp_all
    have e: "carried_role pr m' = (if c = [] then tn_default_role_id pr else c)" by (simp add: mm carried_role_def)
    have "Has (aa_perms (access_at off rc s0 p)) r a" by (rule grantable_gives [OF assms(5) ro' [unfolded e]])
    with p' show ?thesis by simp
  qed
qed

lemma confined_set_owner:
  assumes "kept_within off rc s0 t" "aa_owner (access_at off rc s0 p)"
  shows "kept_within off rc s0 (fst (set_owner p u b t))"
  unfolding kept_within_def
proof (intro allI impI)
  fix p' v r a
  let ?t = "t\<lparr>td_members := sql_update (member_is p u) (\<lambda>m. m\<lparr>ms_owner := b\<rparr>) (td_members t)\<rparr>"
  assume "joined_holds (fst (set_owner p u b t)) p' v r a"
  then have "joined_holds ?t p' v r a" by (simp add: set_owner_def)
  then obtain m' pr' where m': "find (member_is p' v) (sql_update (member_is p u) (\<lambda>m. m\<lparr>ms_owner := b\<rparr>) (td_members t)) = Some m'"
    and v: "list_ex (account_is v) (td_users t)" and pr': "find (tenant_is p') (td_projects t) = Some pr'"
    and c': "role_carries ?t pr' m' r a"
    by (auto simp: joined_holds_iff)
  obtain m where m: "find (member_is p' v) (td_members t) = Some m" and mm: "m' = (if member_is p u m then m\<lparr>ms_owner := b\<rparr> else m)"
    and is_m: "ms_project_id m = p'" "ms_user_id m = v"
    by (rule find_member_update [OF m']) simp_all
  show "joined_holds s0 p' v r a \<or> Has (aa_perms (access_at off rc s0 p')) r a \<or> redeemed rc s0 p' v r a \<or> \<not> project_in s0 p'"
  proof (cases "p' = p")
    case True
    with owner_holds [OF assms(2)] show ?thesis by blast
  next
    case False
    then have "m' = m" using is_m mm by (auto simp: member_is_def)
    then have "role_carries t pr' m r a" using c' by (simp add: role_carries_def)
    then have "joined_holds t p' v r a" using m v pr' by (auto simp: joined_holds_iff)
    then show ?thesis by (rule confinedD [OF assms(1)])
  qed
qed

text \<open>A row that is added is not an owner's, and what its role gives is the caller's or the invitation's to give.\<close>

lemma confined_put_member:
  assumes "put_member m s = Inr (t, x)" "\<not> ms_owner m" "find (tenant_is (ms_project_id m)) (td_projects s) = Some pr"
    "\<And>ro r a. carried_role pr m \<noteq> [] \<Longrightarrow> find (role_is (ms_project_id m) (carried_role pr m)) (td_roles s) = Some ro \<Longrightarrow>
       Has (FromStrings (pr_permissions ro)) r a \<Longrightarrow>
       Has (aa_perms (access_at off rc s (ms_project_id m))) r a \<or> redeemed rc s (ms_project_id m) (ms_user_id m) r a"
  shows "kept_within off rc s t"
proof (cases "list_ex (member_is (ms_project_id m) (ms_user_id m)) (td_members s)")
  case True
  with assms(1) show ?thesis by (simp add: put_member_def)
next
  case False
  with assms(1) have t: "t = s\<lparr>td_members := td_members s @ [m]\<rparr>"
    by (auto simp: put_member_def insert_member_def split: if_splits)
  show ?thesis
    unfolding kept_within_def
  proof (intro allI impI)
    fix p v r a
    assume "joined_holds t p v r a"
    then obtain m' pr' where m': "find (member_is p v) (td_members s @ [m]) = Some m'" and v: "list_ex (account_is v) (td_users s)"
      and pr': "find (tenant_is p) (td_projects s) = Some pr'" and c: "role_carries s pr' m' r a"
      by (auto simp: joined_holds_iff t role_carries_def)
    show "joined_holds s p v r a \<or> Has (aa_perms (access_at off rc s p)) r a \<or> redeemed rc s p v r a \<or> \<not> project_in s p"
    proof (cases "find (member_is p v) (td_members s)")
      case None
      with m' have "m' = m" "p = ms_project_id m" "v = ms_user_id m" by (auto simp: find_in_append member_is_def split: if_splits)
      with c pr' assms(2,3,4) show ?thesis by (auto simp: role_carries_def)
    next
      case (Some m0)
      with m' have "m' = m0" by (simp add: find_in_append)
      with Some v pr' c have "joined_holds s p v r a" by (auto simp: joined_holds_iff)
      then show ?thesis by blast
    qed
  qed
qed

text \<open>Fewer rows, or rows that say the same, give nobody anything.\<close>

lemma confined_fewer:
  assumes "\<And>p v m. find (member_is p v) (td_members t) = Some m \<Longrightarrow> find (member_is p v) (td_members s) = Some m"
    "\<And>v. list_ex (account_is v) (td_users t) \<Longrightarrow> list_ex (account_is v) (td_users s)"
    "\<And>p pr. find (tenant_is p) (td_projects t) = Some pr \<Longrightarrow>
       \<exists>pr0. find (tenant_is p) (td_projects s) = Some pr0 \<and> tn_default_role_id pr0 = tn_default_role_id pr"
    "\<And>p c ro. find (role_is p c) (td_roles t) = Some ro \<Longrightarrow> find (role_is p c) (td_roles s) = Some ro"
  shows "kept_within off rc s t"
proof (rule confined_narrower [OF kept_within_refl])
  fix p v r a
  assume "joined_holds t p v r a"
  then obtain m pr where m: "find (member_is p v) (td_members t) = Some m" "list_ex (account_is v) (td_users t)"
    "find (tenant_is p) (td_projects t) = Some pr" and c: "role_carries t pr m r a"
    by (auto simp: joined_holds_iff)
  obtain pr0 where pr0: "find (tenant_is p) (td_projects s) = Some pr0" "tn_default_role_id pr0 = tn_default_role_id pr"
    using assms(3) m(3) by blast
  have "role_carries s pr0 m r a"
    using c assms(4) pr0(2) by (auto simp: role_carries_def carried_role_def)
  then show "joined_holds s p v r a" using assms(1,2) m(1,2) pr0(1) by (auto simp: joined_holds_iff)
qed

lemma confined_same:
  assumes "td_members t = td_members s" "td_roles t = td_roles s" "td_projects t = td_projects s" "td_users t = td_users s"
  shows "kept_within off rc s t"
  by (rule confined_narrower [OF kept_within_refl joined_holds_same]) (simp_all add: assms)

lemma confined_remove_member: "kept_within off rc s (fst (remove_member p u s))"
  by (rule confined_fewer)
    (auto simp: remove_member_def member_is_def elim!: find_sql_delete)

lemma confined_delete_project: "kept_within off rc s (delete_project i s)"
  by (rule confined_fewer)
    (auto simp: delete_project_def member_is_def tenant_is_def role_is_def split: if_splits elim!: find_sql_delete dest!: find_sql_delete)

lemma confined_delete_role: "kept_within off rc s (fst (delete_role p i s))"
  by (rule confined_fewer)
    (auto simp: delete_role_def Let_def role_is_def elim!: find_sql_delete)

lemma confined_set_default:
  assumes "find (tenant_is p) (td_projects s) = Some pr" "grantable s (access_at off rc s p) p c"
  shows "kept_within off rc s (fst (set_default p c s))"
  unfolding kept_within_def
proof (intro allI impI)
  fix p' v r a
  let ?hit = "\<lambda>k. tenant_is p k \<and> (c = [] \<or> role_in s p c)"
  let ?t = "s\<lparr>td_projects := sql_update ?hit (\<lambda>k. k\<lparr>tn_default_role_id := c\<rparr>) (td_projects s)\<rparr>"
  assume "joined_holds (fst (set_default p c s)) p' v r a"
  then have "joined_holds ?t p' v r a" by (simp add: set_default_def Let_def)
  then obtain m pr' where m: "find (member_is p' v) (td_members s) = Some m" "list_ex (account_is v) (td_users s)"
    and pr': "find (tenant_is p') (sql_update ?hit (\<lambda>k. k\<lparr>tn_default_role_id := c\<rparr>) (td_projects s)) = Some pr'"
    and c': "role_carries ?t pr' m r a"
    by (auto simp: joined_holds_iff)
  have "find (tenant_is p') (sql_update ?hit (\<lambda>k. k\<lparr>tn_default_role_id := c\<rparr>) (td_projects s)) =
      map_option (\<lambda>k. if ?hit k then k\<lparr>tn_default_role_id := c\<rparr> else k) (find (tenant_is p') (td_projects s))"
    by (rule find_in_update) (simp add: tenant_is_def)
  with pr' obtain pr0 where pr0: "find (tenant_is p') (td_projects s) = Some pr0"
    "pr' = (if ?hit pr0 then pr0\<lparr>tn_default_role_id := c\<rparr> else pr0)" by auto
  have is_m: "ms_project_id m = p'" using find_in [OF m(1)] by (simp add: member_is_def)
  show "joined_holds s p' v r a \<or> Has (aa_perms (access_at off rc s p')) r a \<or> redeemed rc s p' v r a \<or> \<not> project_in s p'"
  proof (cases "role_carries s pr0 m r a")
    case True
    with m pr0(1) show ?thesis by (auto simp: joined_holds_iff)
  next
    case False
    with c' pr0(2) have hit: "?hit pr0" by (auto simp: role_carries_def split: if_splits)
    then have p': "p' = p" using find_in [OF pr0(1)] by (simp add: tenant_is_def)
    from False c' have "\<not> ms_owner m" by (auto simp: role_carries_def)
    with c' obtain ro where ro: "carried_role pr' m \<noteq> []"
      "find (role_is (ms_project_id m) (carried_role pr' m)) (td_roles ?t) = Some ro" "Has (FromStrings (pr_permissions ro)) r a"
      unfolding role_carries_def by blast
    have "carried_role pr' m = c"
    proof (rule ccontr)
      assume "carried_role pr' m \<noteq> c"
      then have "carried_role pr' m = carried_role pr0 m" using pr0(2) hit by (auto simp: carried_role_def split: if_splits)
      with ro have "role_carries s pr0 m r a" by (auto simp: role_carries_def)
      with False show False by contradiction
    qed
    with ro is_m p' have "c \<noteq> []" "find (role_is p c) (td_roles s) = Some ro" by simp_all
    with grantable_gives [OF assms(2) _ _ ro(3)] p' show ?thesis by blast
  qed
qed

lemma confined_put_role:
  assumes "put_role now ro s = Inr (t, x)"
    "\<And>r a. Has (FromStrings (pr_permissions ro)) r a \<Longrightarrow> Has (aa_perms (access_at off rc s (pr_project_id ro))) r a \<or>
       (\<exists>old. find (role_is (pr_project_id ro) (pr_id ro)) (td_roles s) = Some old \<and> pr_permissions old = pr_permissions ro)"
  shows "kept_within off rc s t"
  unfolding kept_within_def
proof (intro allI impI)
  fix p v r a
  assume "joined_holds t p v r a"
  have same: "td_members t = td_members s" "td_users t = td_users s" "td_projects t = td_projects s"
    using assms(1) by (auto simp: put_role_def split: if_splits)
  from \<open>joined_holds t p v r a\<close> same obtain m pr where m: "find (member_is p v) (td_members s) = Some m" "list_ex (account_is v) (td_users s)"
    "find (tenant_is p) (td_projects s) = Some pr" and c: "role_carries t pr m r a"
    by (auto simp: joined_holds_iff)
  have is_m: "ms_project_id m = p" using find_in [OF m(1)] by (simp add: member_is_def)
  have found: "\<exists>k. pr_permissions k = pr_permissions k' \<and> find (role_is p c) (td_roles s) = Some k \<or>
      p = pr_project_id ro \<and> c = pr_id ro \<and> pr_permissions k' = pr_permissions ro"
    if k': "find (role_is p c) (td_roles t) = Some k'" for c k'
  proof (cases "list_ex (\<lambda>k. pr_id k = pr_id ro) (td_roles s)")
    case True
    with assms(1) have t: "td_roles t = sql_update (role_is (pr_project_id ro) (pr_id ro)) (role_of now ro) (td_roles s)"
      by (auto simp: put_role_def split: if_splits)
    have "find (role_is p c) (td_roles t) = map_option (\<lambda>k. if role_is (pr_project_id ro) (pr_id ro) k then role_of now ro k else k)
        (find (role_is p c) (td_roles s))"
      unfolding t by (rule find_in_update) (simp add: role_is_def role_of_def)
    with k' obtain k where k: "find (role_is p c) (td_roles s) = Some k"
      "k' = (if role_is (pr_project_id ro) (pr_id ro) k then role_of now ro k else k)" by auto
    show ?thesis
    proof (cases "role_is (pr_project_id ro) (pr_id ro) k")
      case True
      with k find_in [OF k(1)] show ?thesis by (auto simp: role_is_def role_of_def)
    qed (use k in auto)
  next
    case False
    with assms(1) have t: "td_roles t = td_roles s @ [ro\<lparr>pr_updated_at := Some now\<rparr>]"
      by (auto simp: put_role_def split: if_splits)
    with k' show ?thesis
      by (cases "find (role_is p c) (td_roles s)") (auto simp: find_in_append role_is_def split: if_splits)
  qed
  show "joined_holds s p v r a \<or> Has (aa_perms (access_at off rc s p)) r a \<or> redeemed rc s p v r a \<or> \<not> project_in s p"
  proof (cases "role_carries s pr m r a")
    case True
    with m show ?thesis by (auto simp: joined_holds_iff)
  next
    case False
    then have "\<not> ms_owner m" by (auto simp: role_carries_def)
    with c obtain k' where k': "carried_role pr m \<noteq> []" "find (role_is p (carried_role pr m)) (td_roles t) = Some k'"
      "Has (FromStrings (pr_permissions k')) r a"
      unfolding role_carries_def is_m by blast
    have none: "\<not> (find (role_is p (carried_role pr m)) (td_roles s) = Some k \<and> pr_permissions k = pr_permissions k')" for k
      using False k' by (auto simp: role_carries_def is_m)
    with found [OF k'(2)] have "p = pr_project_id ro" "carried_role pr m = pr_id ro" "pr_permissions k' = pr_permissions ro" by auto
    with assms(2) [of r a] k'(3) none show ?thesis by auto
  qed
qed

lemma project_in_iff: "project_in s p \<longleftrightarrow> (\<exists>pr. find (tenant_is p) (td_projects s) = Some pr)"
  unfolding project_in_def by (induction "td_projects s") (auto simp: list_ex_iff find_None_iff2 not_None_eq [symmetric] find_None_iff)

lemma confined_put_project:
  assumes "put_project w s = Inr (t, x)" "project_in s (tn_id w)"
  shows "kept_within off rc s t"
proof -
  have t: "t = s\<lparr>td_projects := sql_update (tenant_is (tn_id w)) (tenant_of w) (td_projects s)\<rparr>"
    using assms by (auto simp: put_project_def project_in_def split: if_splits)
  have "find (tenant_is p) (td_projects t) =
      map_option (\<lambda>k. if tenant_is (tn_id w) k then tenant_of w k else k) (find (tenant_is p) (td_projects s))" for p
    unfolding t by (simp, rule find_in_update) (simp add: tenant_is_def tenant_of_def)
  then show ?thesis by (intro confined_fewer) (auto simp: t tenant_of_def)
qed

lemma confined_new_project:
  assumes "insert_project w s = Inr (t, x)" "insert_member m t = Inr (t', y)" "ms_project_id m = tn_id w"
  shows "kept_within off rc s t'"
  unfolding kept_within_def
proof (intro allI impI)
  fix p v r a
  have new: "\<not> project_in s (tn_id w)" and t: "t = s\<lparr>td_projects := td_projects s @ [w]\<rparr>"
    using assms(1) by (auto simp: insert_project_def project_in_def list_ex_iff tenant_is_def split: if_splits)
  have t': "t' = t\<lparr>td_members := td_members t @ [m]\<rparr>"
    using assms(2) by (auto simp: insert_member_def split: if_splits)
  assume h: "joined_holds t' p v r a"
  show "joined_holds s p v r a \<or> Has (aa_perms (access_at off rc s p)) r a \<or> redeemed rc s p v r a \<or> \<not> project_in s p"
  proof (cases "p = tn_id w")
    case False
    then have "find (member_is p v) (td_members t') = find (member_is p v) (td_members s)"
      "find (tenant_is p) (td_projects t') = find (tenant_is p) (td_projects s)"
      using assms(3) by (auto simp: t t' find_in_append member_is_def tenant_is_def split: option.split)
    with h have "joined_holds s p v r a" by (auto simp: joined_holds_iff role_carries_def t t')
    then show ?thesis by blast
  qed (use new in simp)
qed

section \<open>The requests, one by one\<close>

text \<open>Requests that stay within what the caller holds.\<close>

lemma confined_quiet: "same_tenants s t \<Longrightarrow> kept_within off rc s t"
  by (rule confined_same) (simp_all add: same_tenants_def)

lemma put_member_tables:
  "put_member m s = Inr (t, x) \<Longrightarrow> td_roles t = td_roles s \<and> td_projects t = td_projects s \<and> td_users t = td_users s"
  by (auto simp: put_member_def insert_member_def split: if_splits)

lemma set_owner_tables:
  "td_roles (fst (set_owner p u b s)) = td_roles s" "td_projects (fst (set_owner p u b s)) = td_projects s"
  "td_users (fst (set_owner p u b s)) = td_users s"
  by (simp_all add: set_owner_def)

lemma patched_id: "patched_project pp inp p = Inr q \<Longrightarrow> tn_id q = tn_id p"
  by (auto simp: patched_project_def bounce_of_def patched_headers_def Let_def split: option.splits sum.splits if_splits)

lemma stamped_id [simp]: "tn_id (stamped_project now p) = tn_id p"
  by (simp add: stamped_project_def)

lemma confined_UpdateProject: "ends (kept_within off rc s) s (UpdateProject pp now off rc i upd)"
  unfolding UpdateProject_def PutProject_def
  by (intro tracing) (auto simp: project_in_iff dest!: patched_id intro!: confined_put_project)

lemma confined_DeleteProject: "ends (kept_within off rc s) s (DeleteProjectHandler found store off rc i)"
  unfolding DeleteProjectHandler_def DeleteProject_def
  by (intro tracing) (simp_all add: confined_delete_project)

lemma confined_add:
  assumes "put_member m s = Inr (t, x)" "\<not> ms_owner m" "find (tenant_is (ms_project_id m)) (td_projects s) = Some pr"
    "grantable s (access_at off rc s (ms_project_id m)) (ms_project_id m) (carried_role pr m)"
  shows "kept_within off rc s t"
  by (rule confined_put_member [OF assms(1,2,3)]) (use grantable_gives [OF assms(4)] in blast)

lemma confined_AddMember: "ends (kept_within off rc s) s (AddProjectMember now mi off rc i who)"
  unfolding AddProjectMember_def PutMember_def GetUser_def
  by (intro tracing)
    (auto simp: carried_role_def put_member_tables split: if_splits elim!: confined_add intro!: confined_set_role)

lemma confined_UpdateMember: "ends (kept_within off rc s) s (UpdateMember off rc i v what)"
  unfolding UpdateMember_def SetMemberOwner_def GetMember_def lockOwners_def
  by (intro tracing) (simp_all add: set_owner_tables confined_set_role confined_set_owner)

lemma confined_RemoveMember: "ends (kept_within off rc s) s (RemoveMemberHandler off rc i v)"
  unfolding RemoveMemberHandler_def RemoveProjectMember_def GetMember_def lockOwners_def
  by (intro tracing) (simp_all add: confined_remove_member)

lemma confined_invitations:
  "ends (kept_within off rc s) s (CreateInvitation hash mailing token now vi si off rc i whom)"
  "ends (kept_within off rc s) s (DeleteInvitationHandler off rc i j)"
  unfolding CreateInvitation_def DeleteInvitationHandler_def
  by ((intro tracing, auto simp: confined_quiet split: option.split intro!: tracing)[1])+

lemma accepted_role:
  assumes put: "put_member \<lparr>ms_id = mi, ms_project_id = iv_project_id v, ms_user_id = ua_id u, ms_owner = False, ms_role_id = role,
       ms_created_at = now\<rparr> s = Inr (t, x)"
    and iv: "rc = Some c" "ca_user c = Some u" "v \<in> set (td_invitations s)" "iv_status v = InvitationPending"
    "equal_fold (iv_email v) (ua_email u)"
    and role: "role = iv_role_id v \<and> role \<noteq> [] \<and> role_in s (iv_project_id v) role \<or>
      role = [] \<and> (iv_role_id v = [] \<or>
        Option.bind (find (role_is (iv_project_id v) (iv_role_id v)) (td_roles s)) (counted_role s) = None)"
  shows "kept_within off rc s t"
proof (cases "list_ex (member_is (iv_project_id v) (ua_id u)) (td_members s)")
  case True
  with put show ?thesis by (simp add: put_member_def)
next
  case False
  let ?m = "\<lparr>ms_id = mi, ms_project_id = iv_project_id v, ms_user_id = ua_id u, ms_owner = False, ms_role_id = role,
       ms_created_at = now\<rparr>"
  from False put have "project_in s (iv_project_id v)"
    by (auto simp: put_member_def insert_member_def project_in_def split: if_splits)
  then obtain pr where pr: "find (tenant_is (iv_project_id v)) (td_projects s) = Some pr" by (auto simp: project_in_iff)
  show ?thesis
  proof (rule confined_put_member [OF put])
    show "\<not> ms_owner ?m" "find (tenant_is (ms_project_id ?m)) (td_projects s) = Some pr" using pr by simp_all
    fix ro r a
    assume ro: "carried_role pr ?m \<noteq> []" "find (role_is (ms_project_id ?m) (carried_role pr ?m)) (td_roles s) = Some ro"
      "Has (FromStrings (pr_permissions ro)) r a"
    have none: "\<not> role_in s (iv_project_id v) (iv_role_id v)" if "role = []" "iv_role_id v \<noteq> []"
      using GetRole_None [OF pr] role that by (auto simp: role_in_def list_ex_iff find_None_iff)
    have "role_is (iv_project_id v)
        (if iv_role_id v \<noteq> [] \<and> role_in s (iv_project_id v) (iv_role_id v) then iv_role_id v else tn_default_role_id pr) ro"
      using find_in [OF ro(2)] ro(1) role none by (auto simp: carried_role_def split: if_splits)
    then have "redeemed rc s (iv_project_id v) (ua_id u) r a"
      unfolding redeemed_def
      by (intro exI [of _ c] exI [of _ u] exI [of _ v] exI [of _ pr] exI [of _ ro])
        (use iv ro(3) find_in [OF pr] find_in [OF ro(2)] in \<open>simp add: tenant_is_def\<close>)
    then show "Has (aa_perms (access_at off rc s (ms_project_id ?m))) r a \<or> redeemed rc s (ms_project_id ?m) (ms_user_id ?m) r a"
      by simp
  qed
qed

lemma confined_then_quiet: "kept_within off rc s t \<Longrightarrow> same_tenants t t' \<Longrightarrow> kept_within off rc s t'"
  by (erule confined_narrower) (simp add: joined_holds_iff same_tenants_def role_carries_def)

lemma found_role_in: "find (role_is p c) (td_roles s) = Some r \<Longrightarrow> role_in s p c"
  using find_in [of "role_is p c"] by (auto simp: role_in_def list_ex_iff)

lemma confined_AcceptInvitation: "ends (kept_within off rc s) s (AcceptInvitation hash now mi rc t)"
  unfolding AcceptInvitation_def PutMember_def Get_project_def GetMember_def
  by (intro tracing)
    (rule kept_within_refl | (rule accepted_role, assumption, assumption, assumption, assumption, assumption, assumption,
       simp add: found_role_in)
     | (rule confined_then_quiet [OF accepted_role], assumption, assumption, assumption, assumption, assumption, assumption,
       simp add: found_role_in, assumption))+

lemma confined_DeclineInvitation: "ends (kept_within off rc s) s (DeclineInvitation hash now rc t)"
  unfolding DeclineInvitation_def 
  by (intro tracing) (simp_all add: confined_quiet)

lemma confined_granted:
  assumes "put_role now ro s = Inr (t, x)" "refuseGranting (access_at off rc s (pr_project_id ro)) (pr_permissions ro) = None"
  shows "kept_within off rc s t"
  by (rule confined_put_role [OF assms(1)])
    (use assms(2) perms.grant_within in \<open>auto simp: refuseGranting_def Let_def split: if_splits\<close>)

lemma confined_CreateRole: "ends (kept_within off rc s) s (CreateRole now ri off rc i role)"
  unfolding CreateRole_def PutRole_def
  by (intro tracing) (auto elim!: confined_granted)

lemma confined_regranted:
  assumes "put_role now ro s = Inr (t, x)" "regranted (access_at off rc s p) inp old = Inr r"
    "find (role_is p i) (td_roles s) = Some old"
    "pr_id ro = pr_id r" "pr_project_id ro = pr_project_id r" "pr_permissions ro = pr_permissions r"
  shows "kept_within off rc s t"
proof (cases "oj_permissions inp")
  case None
  with assms(2) have "r = old" by (simp add: regranted_def)
  with assms(3-6) find_role_project [OF assms(3)] show ?thesis by (intro confined_put_role [OF assms(1)]) auto
next
  case (Some raw)
  with assms(2) have "refuseGranting (access_at off rc s p) (pr_permissions r) = None" "pr_project_id r = pr_project_id old"
    by (auto simp: regranted_def split: sum.splits option.splits)
  with assms(5,6) find_role_project [OF assms(3)] show ?thesis by (intro confined_granted [OF assms(1)]) simp
qed

lemma confined_UpdateRole: "ends (kept_within off rc s) s (UpdateRole now off rc i ri patch)"
  unfolding UpdateRole_def PutRole_def GetRole_def
  by (intro tracing) (simp_all, (drule GetRole_Some, erule confined_regranted, assumption, assumption, auto)+)

lemma confined_DeleteRole: "ends (kept_within off rc s) s (DeleteRoleHandler off rc i ri)"
  unfolding DeleteRoleHandler_def DeleteRole_def
  by (intro tracing) (simp_all add: confined_delete_role)

lemma delegable:
  "Option.bind (find (role_is p c) (td_roles s)) (counted_role s) = Some info \<Longrightarrow> refuseDelegating acc (ri_role info) = None \<Longrightarrow>
     grantable s acc p c"
  by (auto dest!: GetRole_Some simp: grantable_def refuseDelegating_def Let_def split: if_splits)

lemma confined_SetDefaultRole: "ends (kept_within off rc s) s (SetDefaultRoleHandler off rc i name)"
  unfolding SetDefaultRoleHandler_def SetDefaultRole_def GetRole_def
  by (intro tracing) (simp_all add: confined_set_default delegable, simp_all add: confined_set_default grantable_def)

lemma confined_CreateProject: "ends (kept_within off rc s) s (CreateProject now i mi rc body)"
  unfolding CreateProject_def CreateWithOwner_def insertWithOwner_def GetProjectBySlug_def
  by (intro tracing) (auto elim!: confined_new_project)

lemmas confined_requests = confined_CreateProject confined_UpdateProject confined_DeleteProject confined_AddMember
  confined_UpdateMember confined_RemoveMember confined_invitations confined_AcceptInvitation confined_DeclineInvitation
  confined_CreateRole confined_UpdateRole confined_DeleteRole confined_SetDefaultRole

section \<open>Accounts\<close>

text \<open>The requests on projects, members, invitations and roles write no account.\<close>

definition same_accounts :: "tenant_db \<Rightarrow> tenant_db \<Rightarrow> bool" where
  "same_accounts s t = (td_users t = td_users s)"

lemma same_accounts_writes [simp]:
  "same_accounts s s" "same_accounts s (fst (set_role p u c t)) = same_accounts s t"
  "same_accounts s (fst (set_owner p u b t)) = same_accounts s t" "same_accounts s (fst (remove_member p u t)) = same_accounts s t"
  "same_accounts s (delete_project i t) = same_accounts s t" "same_accounts s (fst (delete_role p i t)) = same_accounts s t"
  "same_accounts s (fst (set_default p c t)) = same_accounts s t"
  by (simp_all add: same_accounts_def set_role_def set_owner_def remove_member_def delete_project_def delete_role_def set_default_def
      Let_def)

lemma same_accounts_puts:
  "put_member m t = Inr (t', x) \<Longrightarrow> same_accounts s t' = same_accounts s t"
  "insert_member m t = Inr (t', x) \<Longrightarrow> same_accounts s t' = same_accounts s t"
  "insert_project q t = Inr (t', x) \<Longrightarrow> same_accounts s t' = same_accounts s t"
  "put_project q t = Inr (t', x) \<Longrightarrow> same_accounts s t' = same_accounts s t"
  "put_role now ro t = Inr (t', x) \<Longrightarrow> same_accounts s t' = same_accounts s t"
  "same_tenants t t' \<Longrightarrow> same_accounts s t' = same_accounts s t"
  by (auto simp: same_accounts_def put_member_def insert_member_def insert_project_def put_project_def put_role_def
      same_tenants_def split: if_splits)

lemma accounts_stay:
  "ends (same_accounts s) s (CreateProject now i mi rc body)"
  "ends (same_accounts s) s (UpdateProject pp now off rc i upd)"
  "ends (same_accounts s) s (DeleteProjectHandler found store off rc i)"
  "ends (same_accounts s) s (AddProjectMember now mi off rc i who)"
  "ends (same_accounts s) s (UpdateMember off rc i v what)"
  "ends (same_accounts s) s (RemoveMemberHandler off rc i v)"
  "ends (same_accounts s) s (DeleteInvitationHandler off rc i j)"
  "ends (same_accounts s) s (AcceptInvitation hash now mi rc t)"
  "ends (same_accounts s) s (CreateRole now ri off rc i role)"
  "ends (same_accounts s) s (UpdateRole now off rc i ri patch)"
  "ends (same_accounts s) s (DeleteRoleHandler off rc i ri)"
  "ends (same_accounts s) s (SetDefaultRoleHandler off rc i name)"
  unfolding CreateProject_def CreateWithOwner_def insertWithOwner_def GetProjectBySlug_def
    UpdateProject_def PutProject_def DeleteProjectHandler_def DeleteProject_def
    AddProjectMember_def PutMember_def GetUser_def UpdateMember_def SetMemberOwner_def GetMember_def lockOwners_def
    RemoveMemberHandler_def RemoveProjectMember_def DeleteInvitationHandler_def AcceptInvitation_def Get_project_def
    CreateRole_def PutRole_def UpdateRole_def GetRole_def DeleteRoleHandler_def DeleteRole_def
    SetDefaultRoleHandler_def SetDefaultRole_def
  by ((intro tracing; simp add: same_accounts_puts)[1])+

lemma accounts_stay_invited:
  "ends (same_accounts s) s (CreateInvitation hash mailing token now vi si off rc i whom)"
  "ends (same_accounts s) s (DeclineInvitation hash now rc t)"
  unfolding CreateInvitation_def DeclineInvitation_def
  by ((intro tracing, auto simp: same_accounts_puts split: option.split intro!: tracing)[1])+

text \<open>Where no account changes, what an account may do changes as its memberships do.\<close>

lemma holds_in_iff:
  "holds_in s p v r a \<longleftrightarrow>
     (\<exists>u. find (account_is v) (td_users s) = Some u \<and> \<not> ua_disabled u \<and> (ua_admin u \<or> joined_holds s p v r a))"
  using find_in [of "account_is v" "td_users s"]
  by (auto simp: holds_in_def access_at_def IsPlatformAdmin_def IsAdmin_def everything_def joined_holds_def account_is_def
      split: option.split)

definition within_caller :: "bool \<Rightarrow> caller option \<Rightarrow> tenant_db \<Rightarrow> tenant_db \<Rightarrow> bool" where
  "within_caller off rc s0 s =
     (\<forall>p v r a. holds_in s p v r a \<longrightarrow>
        holds_in s0 p v r a \<or> Has (aa_perms (access_at off rc s0 p)) r a \<or> redeemed rc s0 p v r a \<or> \<not> project_in s0 p)"

lemma within_callerI: "kept_within off rc s t \<Longrightarrow> same_accounts s t \<Longrightarrow> within_caller off rc s t"
  unfolding within_caller_def kept_within_def same_accounts_def holds_in_iff by metis

lemma ends_both: "ends P s m \<Longrightarrow> ends Q s m \<Longrightarrow> (\<And>t. P t \<Longrightarrow> Q t \<Longrightarrow> R t) \<Longrightarrow> ends R s m"
  unfolding ends_def by blast

text \<open>Accounts are administered by who may do everything anyway.\<close>

lemma admin_holds: "off \<or> IsPlatformAdmin rc \<Longrightarrow> Has (aa_perms (access_at off rc s p)) r a"
  by (simp add: access_at_def everything_def)

lemma within_admin: "ends (within_caller off rc s) s (requireAdmin off rc k)"
  by (rule ends_requireAdmin) (auto simp: within_caller_def ends_def admin_holds)

lemma request_confined:
  assumes "request off rc (s, fs) w'"
  shows "within_caller off rc s (fst w')"
proof -
  have within: "within_caller off rc s (fst w')"
    if "m (s, fs) = (y, w')" "ends (kept_within off rc s) s m" "ends (same_accounts s) s m"
    for m :: "tworld \<Rightarrow> 'x \<times> tworld" and y
    using that by (blast intro: within_callerI dest: endsD)
  show ?thesis
    using assms
    by cases ((erule endsD [OF within_admin]) |
      (erule endsD [rotated], rule ends_requireAdmin(2), simp add: within_caller_def,
        rule ends_both [OF confined_requests(1) accounts_stay(1) within_callerI], assumption, assumption) |
      (erule within, simp add: confined_requests, simp add: accounts_stay accounts_stay_invited))+
qed

section \<open>The property\<close>

text \<open>
  C7: Whatever is requested of the project and account surfaces behind the gates of their routes - creating and
  changing projects, adding, changing and removing members, inviting and accepting, writing roles and the
  default role, administering accounts, with any of the statements failing - if afterwards an enabled account
  may do something in a project, by its membership or as an administrator of the platform, then it could do it
  before, or the caller may do it there, or an invitation to the caller's own address offered it to that
  account, or the project did not exist.
\<close>

theorem no_request_widens:
  assumes "request off rc w w'" "holds_in (fst w') p v r a"
  shows "holds_in (fst w) p v r a \<or> Has (aa_perms (access_at off rc (fst w) p)) r a \<or> redeemed rc (fst w) p v r a \<or>
    \<not> project_in (fst w) p"
proof -
  have "request off rc (fst w, snd w) w'" using assms(1) by simp
  then have "within_caller off rc (fst w) (fst w')" by (rule request_confined)
  then show ?thesis using assms(2) by (simp add: within_caller_def)
qed

text \<open>A member who may manage members adds a colleague with a role that reads mail, which it may do itself.\<close>

definition sample_account :: "string \<Rightarrow> bool \<Rightarrow> account" where
  "sample_account i adm = blank_account\<lparr>ua_id := i, ua_email := i @ ''@x.io'', ua_admin := adm\<rparr>"

definition sample_tenants :: tenant_db where
  "sample_tenants = \<lparr>td_users = [sample_account ''ann'' True, sample_account ''bob'' False, sample_account ''cat'' False],
     td_codes = [], td_sessions = [], td_resets = [], td_passkeys = [], td_challenges = [],
     td_projects = [blank_project\<lparr>tn_id := ''p'', tn_owner_id := ''ann''\<rparr>],
     td_members = [\<lparr>ms_id = ''m1'', ms_project_id = ''p'', ms_user_id = ''ann'', ms_owner = True, ms_role_id = [], ms_created_at = 1\<rparr>,
       \<lparr>ms_id = ''m2'', ms_project_id = ''p'', ms_user_id = ''bob'', ms_owner = False, ms_role_id = ''lead'', ms_created_at = 2\<rparr>],
     td_roles = [\<lparr>pr_id = ''lead'', pr_project_id = ''p'', pr_name = ''lead'', pr_description = [],
         pr_permissions = [''members:write'', ''emails:read''], pr_created_at = 1, pr_updated_at = None\<rparr>,
       \<lparr>pr_id = ''desk'', pr_project_id = ''p'', pr_name = ''desk'', pr_description = [],
         pr_permissions = [''emails:read''], pr_created_at = 1, pr_updated_at = None\<rparr>],
     td_invitations = [], td_sends = []\<rparr>"

definition sample_caller :: "string \<Rightarrow> bool \<Rightarrow> caller" where
  "sample_caller i adm = \<lparr>ca_user = Some (sample_account i adm), ca_platform_key = False\<rparr>"

definition sample_added :: tworld where
  "sample_added = snd (AddProjectMember 3 ''m3'' False (Some (sample_caller ''bob'' False)) ''p'' (Inr (''cat@x.io'', ''desk'')) (sample_tenants, []))"

lemma sample_added_holds:
  "holds_in (fst sample_added) ''p'' ''cat'' ''emails'' ActionRead \<and>
   \<not> holds_in sample_tenants ''p'' ''cat'' ''emails'' ActionRead"
  by code_simp

theorem no_request_widens_witness:
  "Has (aa_perms (access_at False (Some (sample_caller ''bob'' False)) sample_tenants ''p'')) ''emails'' ActionRead \<or>
   redeemed (Some (sample_caller ''bob'' False)) sample_tenants ''p'' ''cat'' ''emails'' ActionRead \<or> \<not> project_in sample_tenants ''p''"
proof -
  have "request False (Some (sample_caller ''bob'' False)) (sample_tenants, []) sample_added"
    unfolding sample_added_def by (rule request.add_member, rule surjective_pairing)
  then show ?thesis
    using no_request_widens [of False _ "(sample_tenants, [])" sample_added "''p''" "''cat''" "''emails''" ActionRead] sample_added_holds
    by (metis fst_conv)
qed

end
