(* ===== verification/Owners.thy ===== *)
theory Owners
  imports Grants
begin

text \<open>
  No request leaves a project without an owner or the installation without an enabled administrator.
\<close>

section \<open>The invariant\<close>

definition owned :: "tenant_db \<Rightarrow> bool" where
  "owned s = list_all (\<lambda>pr. list_ex (\<lambda>m. ms_project_id m = tn_id pr \<and> ms_owner m) (td_members s)) (td_projects s)"

definition governed :: "tenant_db \<Rightarrow> bool" where
  "governed s = list_ex enabled_admin (td_users s)"

text \<open>The foreign keys of the memberships.\<close>

definition linked :: "tenant_db \<Rightarrow> bool" where
  "linked s = list_all (\<lambda>m. list_ex (account_is (ms_user_id m)) (td_users s) \<and> project_in s (ms_project_id m)) (td_members s)"

definition kept :: "tenant_db \<Rightarrow> bool" where
  "kept s = (distinct (map ua_id (td_users s)) \<and> linked s \<and> owned s \<and> governed s)"

text \<open>What the invariant reads of the memberships.\<close>

definition ownership :: "tenant_db \<Rightarrow> (string \<times> string \<times> bool) set" where
  "ownership s = (\<lambda>m. (ms_project_id m, ms_user_id m, ms_owner m)) ` set (td_members s)"

definition sited :: "string set \<Rightarrow> string set \<Rightarrow> (string \<times> string \<times> bool) set \<Rightarrow> bool" where
  "sited us ps os = ((\<forall>(p, v, b) \<in> os. v \<in> us \<and> p \<in> ps) \<and> (\<forall>p \<in> ps. \<exists>v. (p, v, True) \<in> os))"

lemma in_image: "v \<in> g ` A \<longleftrightarrow> (\<exists>x \<in> A. g x = v)"
  by auto

lemma sited_insert:
  "sited us ps os \<Longrightarrow> v \<in> us \<Longrightarrow> p \<in> ps \<Longrightarrow> sited us ps (insert (p, v, b) os)"
  "sited us ps os \<Longrightarrow> v \<in> us \<Longrightarrow> sited us (insert p ps) (insert (p, v, True) os)"
  by (auto simp: sited_def)

lemma kept_iff:
  "kept s \<longleftrightarrow> distinct (map ua_id (td_users s)) \<and>
     sited (ua_id ` set (td_users s)) (tn_id ` set (td_projects s)) (ownership s) \<and> (\<exists>u \<in> set (td_users s). enabled_admin u)"
proof -
  have "linked s \<longleftrightarrow> (\<forall>(p, v, b) \<in> ownership s. v \<in> ua_id ` set (td_users s) \<and> p \<in> tn_id ` set (td_projects s))"
    by (simp add: linked_def project_in_def list_all_iff list_ex_iff account_is_def tenant_is_def ownership_def in_image)
  moreover have "owned s \<longleftrightarrow> (\<forall>p \<in> tn_id ` set (td_projects s). \<exists>v. (p, v, True) \<in> ownership s)"
    unfolding owned_def list_all_iff list_ex_iff ownership_def ball_simps in_image prod.inject by blast
  ultimately show ?thesis by (auto simp: kept_def sited_def governed_def list_ex_iff)
qed

lemma kept_linked: "kept s \<Longrightarrow> linked s"
  by (simp add: kept_def)

lemma set_after_delete: "set (sql_delete p xs) = {x \<in> set xs. \<not> p x}"
  by (auto simp: sql_delete_def)

lemma image_sql_update: "(\<And>x. p x \<Longrightarrow> g (f x) = g x) \<Longrightarrow> g ` set (sql_update p f xs) = g ` set xs"
  unfolding sql_update_def by (simp only: set_map image_image, rule image_cong) auto

lemma update_keeps_keys: "(\<And>x. p x \<Longrightarrow> g (f x) = g x) \<Longrightarrow> map g (sql_update p f xs) = map g xs"
  by (simp add: sql_update_def)

section \<open>Statements\<close>

named_theorems keeping \<open>statements that keep owners and administrators\<close>

lemma kept_same: "kept s \<Longrightarrow> same_tenants s t \<Longrightarrow> kept t"
  by (simp add: kept_iff same_tenants_def ownership_def)

lemma kept_set_role [keeping]: "kept s \<Longrightarrow> kept (fst (set_role p u c s))"
  by (simp add: kept_iff set_role_def Let_def ownership_def image_sql_update)

lemma kept_set_default [keeping]: "kept s \<Longrightarrow> kept (fst (set_default p c s))"
  by (simp add: kept_iff set_default_def Let_def ownership_def image_sql_update)

lemma kept_put_role: "kept s \<Longrightarrow> put_role now ro s = Inr (t, x) \<Longrightarrow> kept t"
  by (auto simp: kept_iff put_role_def ownership_def split: if_splits)

lemma kept_delete_role [keeping]: "kept s \<Longrightarrow> kept (fst (delete_role p i s))"
  by (simp add: kept_iff delete_role_def Let_def ownership_def)

lemma kept_put_project:
  assumes "put_project w s = Inr (t, x)" "kept s" "project_in s (tn_id w)"
  shows "kept t"
proof -
  have "t = s\<lparr>td_projects := sql_update (tenant_is (tn_id w)) (tenant_of w) (td_projects s)\<rparr>"
    using assms by (auto simp: put_project_def project_in_def split: if_splits)
  with assms(2) show ?thesis by (simp add: kept_iff ownership_def image_sql_update tenant_of_def)
qed

lemma kept_delete_project [keeping]: "kept s \<Longrightarrow> kept (delete_project i s)"
  by (auto simp: kept_iff delete_project_def ownership_def set_after_delete tenant_is_def sited_def image_iff)

lemma kept_put_member:
  assumes "kept s" "put_member m s = Inr (t, x)"
  shows "kept t"
proof (cases "list_ex (member_is (ms_project_id m) (ms_user_id m)) (td_members s)")
  case True
  with assms show ?thesis by (simp add: put_member_def)
next
  case False
  with assms(2) have t: "t = s\<lparr>td_members := td_members s @ [m]\<rparr>" "ms_user_id m \<in> ua_id ` set (td_users s)"
    "ms_project_id m \<in> tn_id ` set (td_projects s)"
    by (auto simp: put_member_def insert_member_def list_ex_iff in_image account_is_def tenant_is_def split: if_splits)
  with assms(1) show ?thesis by (simp add: kept_iff ownership_def sited_insert)
qed

lemma kept_new_project:
  assumes "kept s" "insert_project w s = Inr (t, x)" "insert_member m t = Inr (t', y)" "ms_project_id m = tn_id w" "ms_owner m"
  shows "kept t'"
proof -
  have "t' = s\<lparr>td_projects := td_projects s @ [w], td_members := td_members s @ [m]\<rparr>" "ms_user_id m \<in> ua_id ` set (td_users s)"
    using assms(2,3) by (auto simp: insert_project_def insert_member_def list_ex_iff in_image account_is_def split: if_splits)
  with assms(1,4,5) show ?thesis by (simp add: kept_iff ownership_def sited_insert)
qed

text \<open>Where an owner is not the last, another one stands.\<close>

lemma spare_owner:
  assumes "(p, v0, True) \<in> ownership s"
    "\<not> last_owner u (remdups (map ms_user_id (filter (\<lambda>m. ms_project_id m = p \<and> ms_owner m) (td_members s))))"
  shows "\<exists>v. v \<noteq> u \<and> (p, v, True) \<in> ownership s"
proof (rule ccontr)
  assume none: "\<not> ?thesis"
  let ?os = "map ms_user_id (filter (\<lambda>m. ms_project_id m = p \<and> ms_owner m) (td_members s))"
  have "set ?os = {u}" using assms(1) none by (auto simp: ownership_def image_iff)
  then have "card (set (remdups ?os)) = 1" "u \<in> set (remdups ?os)" by simp_all
  then have "last_owner u (remdups ?os)"
    unfolding last_owner_def by (simp only: distinct_card [OF distinct_remdups]) simp
  with assms(2) show False by contradiction
qed

lemma ownership_set_owner:
  "ownership (fst (set_owner p u b s)) = (\<lambda>(q, v, o'). (q, v, if q = p \<and> v = u then b else o')) ` ownership s"
proof -
  have "td_members (fst (set_owner p u b s)) = map (\<lambda>m. if member_is p u m then m\<lparr>ms_owner := b\<rparr> else m) (td_members s)"
    by (simp add: set_owner_def sql_update_def)
  then show ?thesis
    unfolding ownership_def by (simp only: set_map image_image) (rule image_cong, auto simp: member_is_def)
qed

lemma kept_set_owner:
  assumes "kept s"
    "b \<or> \<not> last_owner u (remdups (map ms_user_id (filter (\<lambda>m. ms_project_id m = p \<and> ms_owner m) (td_members s))))"
  shows "kept (fst (set_owner p u b s))"
proof -
  let ?t = "fst (set_owner p u b s)"
  have same: "td_users ?t = td_users s" "td_projects ?t = td_projects s" by (simp_all add: set_owner_def)
  note k = assms(1) [unfolded kept_iff sited_def]
  have "\<exists>v. (q, v, True) \<in> ownership ?t" if q: "q \<in> tn_id ` set (td_projects s)" for q
  proof -
    from k q obtain v0 where v0: "(q, v0, True) \<in> ownership s" by blast
    then have "\<exists>v. (q, v, True) \<in> ownership s \<and> (q = p \<longrightarrow> v = u \<longrightarrow> b)"
      using spare_owner [of p v0 s u] assms(2) by (cases "q = p") auto
    then show ?thesis unfolding ownership_set_owner by force
  qed
  moreover have "\<forall>(q, v, c) \<in> ownership ?t. v \<in> ua_id ` set (td_users s) \<and> q \<in> tn_id ` set (td_projects s)"
    using k unfolding ownership_set_owner by fastforce
  ultimately show ?thesis using k by (simp add: kept_iff sited_def same)
qed

lemma kept_remove_member:
  assumes "kept s" "\<not> last_owner u (remdups (map ms_user_id (filter (\<lambda>m. ms_project_id m = p \<and> ms_owner m) (td_members s))))"
  shows "kept (fst (remove_member p u s))"
proof -
  let ?t = "fst (remove_member p u s)"
  have same: "td_users ?t = td_users s" "td_projects ?t = td_projects s" by (simp_all add: remove_member_def)
  have os: "ownership ?t = {(q, v, c) \<in> ownership s. \<not> (q = p \<and> v = u)}"
    by (auto simp: ownership_def remove_member_def set_after_delete member_is_def)
  note k = assms(1) [unfolded kept_iff sited_def]
  have "\<exists>v. (q, v, True) \<in> ownership ?t" if q: "q \<in> tn_id ` set (td_projects s)" for q
  proof -
    from k q obtain v0 where v0: "(q, v0, True) \<in> ownership s" by blast
    then show ?thesis unfolding os using spare_owner [of p v0 s u] assms(2) by (cases "q = p") auto
  qed
  moreover have "\<forall>(q, v, c) \<in> ownership ?t. v \<in> ua_id ` set (td_users s) \<and> q \<in> tn_id ` set (td_projects s)"
    using k unfolding os by blast
  ultimately show ?thesis using k by (simp add: kept_iff sited_def same)
qed

section \<open>Accounts\<close>

lemma kept_accounts:
  assumes "kept s" "\<And>u. ua_id (f u) = ua_id u" "\<exists>u \<in> set (td_users (fst (update_accounts q f s))). enabled_admin u"
  shows "kept (fst (update_accounts q f s))"
  using assms by (simp add: kept_iff update_accounts_def ownership_def image_sql_update update_keeps_keys)

lemma kept_flagless [keeping]:
  assumes "kept s" "\<And>u. ua_id (f u) = ua_id u \<and> ua_admin (f u) = ua_admin u \<and> ua_disabled (f u) = ua_disabled u"
  shows "kept (fst (update_accounts q f s))"
proof (rule kept_accounts [OF assms(1)])
  from assms(1) obtain u where u: "u \<in> set (td_users s)" "enabled_admin u" by (auto simp: kept_iff)
  then have "(if q u then f u else u) \<in> set (td_users (fst (update_accounts q f s)))"
    by (force simp: update_accounts_def sql_update_def)
  moreover have "enabled_admin (if q u then f u else u)" using u(2) assms(2) [of u] by (simp add: enabled_admin_def)
  ultimately show "\<exists>u \<in> set (td_users (fst (update_accounts q f s))). enabled_admin u" by blast
qed (use assms(2) in simp)

text \<open>Writing an account keeps an administrator when the account stays or becomes one, was none, or another one is there.\<close>

lemma kept_put_account:
  assumes "kept s" "put_account now v s = Inr (t, x)" "list_ex (account_is (ua_id v)) (td_users s)"
    "enabled_admin v \<or> (\<exists>u \<in> set (td_users s). enabled_admin u \<and> ua_id u \<noteq> ua_id v)"
  shows "kept t"
proof -
  let ?f = "account_of (stamped_account now v)"
  have t: "t = fst (update_accounts (account_is (ua_id v)) ?f s)"
    using assms(2,3) by (auto simp: put_account_def split: if_splits)
  have "\<exists>u \<in> set (td_users t). enabled_admin u"
  proof (cases "enabled_admin v")
    case True
    obtain u where "u \<in> set (td_users s)" "ua_id u = ua_id v" using assms(3) by (auto simp: list_ex_iff account_is_def)
    then have "?f u \<in> set (td_users t)" by (force simp: t update_accounts_def sql_update_def account_is_def)
    moreover have "enabled_admin (?f u)" using True by (simp add: enabled_admin_def account_of_def stamped_account_def)
    ultimately show ?thesis by blast
  next
    case False
    with assms(4) obtain u where "u \<in> set (td_users s)" "enabled_admin u" "ua_id u \<noteq> ua_id v" by blast
    then show ?thesis by (force simp: t update_accounts_def sql_update_def account_is_def)
  qed
  then show ?thesis unfolding t by (rule kept_accounts [OF assms(1), rotated]) (simp add: account_of_def)
qed

lemma kept_new_account:
  assumes "kept s" "put_account now v s = Inr (t, x)" "\<not> list_ex (account_is (ua_id v)) (td_users s)"
  shows "kept t"
proof -
  have "t = s\<lparr>td_users := td_users s @ [new_account (stamped_account now v)]\<rparr>"
    using assms(2,3) by (auto simp: put_account_def split: if_splits)
  with assms(1,3) show ?thesis
    by (fastforce simp: kept_iff ownership_def sited_def new_account_def stamped_account_def list_ex_iff account_is_def)
qed

lemma other_admin:
  "0 < length (filter (\<lambda>u. enabled_admin u \<and> ua_id u \<noteq> i) us) \<Longrightarrow> \<exists>u \<in> set us. enabled_admin u \<and> ua_id u \<noteq> i"
  by (auto simp: filter_empty_conv)

text \<open>An account that is no enabled administrator leaves room for the one there is.\<close>

lemma only_admin:
  assumes "kept s" "find (account_is i) (td_users s) = Some u" "\<not> enabled_admin u"
  shows "\<exists>a \<in> set (td_users s). enabled_admin a \<and> ua_id a \<noteq> ua_id u"
proof -
  from assms(1) obtain a where a: "a \<in> set (td_users s)" "enabled_admin a" by (auto simp: kept_iff)
  have u: "u \<in> set (td_users s)" using find_in [OF assms(2)] by simp
  have "ua_id a \<noteq> ua_id u"
    using a u assms(1,3) by (auto simp: kept_def distinct_map dest: inj_onD)
  with a show ?thesis by blast
qed

lemma found_ex: "list_ex p xs \<Longrightarrow> \<exists>x. find p xs = Some x"
  by (induction xs) auto

lemma replaced_owner:
  assumes "linked s" "replaceable s u" "(p, u, True) \<in> ownership s"
  shows "\<exists>v. v \<noteq> u \<and> (p, v, True) \<in> ownership s"
proof -
  from assms(3) obtain m where m: "m \<in> set (td_members s)" "ms_project_id m = p" "ms_user_id m = u" "ms_owner m"
    by (auto simp: ownership_def)
  have "list_ex (account_is u) (td_users s)" "project_in s p"
    using assms(1) m by (auto simp: linked_def list_all_iff)
  then obtain a pr where "find (account_is u) (td_users s) = Some a" "find (tenant_is p) (td_projects s) = Some pr"
    by (auto simp: project_in_iff dest: found_ex)
  then obtain mb where mb: "joined_member s m = Some mb" "mb_owner mb" "mb_project_id mb = p"
    using m by (simp add: joined_member_def Let_def)
  then have "mb \<in> set (List.map_filter (joined_member s) (filter (\<lambda>m. ms_user_id m = u) (td_members s)))"
    using m by (force simp: List.map_filter_def)
  with assms(2) mb have "other_owner u (project_members s p)" by (auto simp: replaceable_def list_all_iff)
  then obtain m' mb' where "m' \<in> set (td_members s)" "ms_project_id m' = p" "joined_member s m' = Some mb'" "mb_owner mb'" "mb_user_id mb' \<noteq> u"
    by (auto simp: other_owner_def list_ex_iff project_members_def List.map_filter_def)
  then have "ms_user_id m' \<noteq> u" "(p, ms_user_id m', True) \<in> ownership s"
    by (auto simp: joined_member_def Let_def ownership_def in_image split: option.splits)
  then show ?thesis by blast
qed

lemma kept_delete_account:
  assumes "kept s" "replaceable s i" "\<exists>u \<in> set (td_users s). enabled_admin u \<and> ua_id u \<noteq> i"
  shows "kept (delete_account i s)"
proof (cases "list_ex (account_is i) (td_users s)")
  case False
  with assms(1) show ?thesis by (simp add: delete_account_def)
next
  case True
  let ?t = "delete_account i s"
  have us: "td_users ?t = sql_delete (account_is i) (td_users s)" "td_projects ?t = td_projects s"
    using True by (simp_all add: delete_account_def)
  have os: "ownership ?t = {(q, v, c) \<in> ownership s. v \<noteq> i}"
    using True by (auto simp: delete_account_def ownership_def set_after_delete)
  note k = assms(1) [unfolded kept_iff sited_def]
  have "\<exists>v. (q, v, True) \<in> ownership ?t" if q: "q \<in> tn_id ` set (td_projects s)" for q
  proof -
    from k q obtain v0 where v0: "(q, v0, True) \<in> ownership s" by blast
    then show ?thesis
      unfolding os using replaced_owner [OF kept_linked [OF assms(1)] assms(2), of q] by (cases "v0 = i") auto
  qed
  moreover have "\<forall>(q, v, c) \<in> ownership ?t. v \<in> ua_id ` set (td_users ?t) \<and> q \<in> tn_id ` set (td_projects s)"
    using k unfolding os us by (fastforce simp: set_after_delete account_is_def)
  moreover have "distinct (map ua_id (td_users ?t))"
    using k unfolding us sql_delete_def by (simp add: distinct_map_filter)
  moreover have "\<exists>u \<in> set (td_users ?t). enabled_admin u"
    using assms(3) unfolding us by (auto simp: set_after_delete account_is_def)
  ultimately show ?thesis by (simp add: kept_iff sited_def us(2))
qed

section \<open>The requests, one by one\<close>

lemma kept_CreateProject: "kept s \<Longrightarrow> ends kept s (CreateProject now i mi rc body)"
  unfolding CreateProject_def CreateWithOwner_def insertWithOwner_def GetProjectBySlug_def
  by (intro tracing) (auto elim!: kept_new_project)

lemma kept_UpdateProject: "kept s \<Longrightarrow> ends kept s (UpdateProject pp now off rc i upd)"
  unfolding UpdateProject_def PutProject_def
  by (intro tracing) (auto simp: project_in_iff dest!: patched_id elim!: kept_put_project)

lemma kept_DeleteProject: "kept s \<Longrightarrow> ends kept s (DeleteProjectHandler found store off rc i)"
  unfolding DeleteProjectHandler_def DeleteProject_def
  by (intro tracing) (simp_all add: keeping)

lemma kept_AddMember: "kept s \<Longrightarrow> ends kept s (AddProjectMember now mi off rc i who)"
  unfolding AddProjectMember_def PutMember_def GetUser_def
  by (intro tracing) (auto intro: keeping kept_same kept_put_role kept_put_member)

lemma kept_UpdateMember: "kept s \<Longrightarrow> ends kept s (UpdateMember off rc i v what)"
  unfolding UpdateMember_def SetMemberOwner_def GetMember_def lockOwners_def
  by (intro tracing) (blast intro: kept_set_role kept_set_owner)+

lemma kept_RemoveMember: "kept s \<Longrightarrow> ends kept s (RemoveMemberHandler off rc i v)"
  unfolding RemoveMemberHandler_def RemoveProjectMember_def GetMember_def lockOwners_def
  by (intro tracing) (simp_all add: kept_remove_member)

lemma kept_CreateInvitation: "kept s \<Longrightarrow> ends kept s (CreateInvitation hash mailing token now vi si off rc i whom)"
  unfolding CreateInvitation_def by (intro tracing) (auto intro: kept_same split: option.split intro!: tracing)

lemma kept_DeleteInvitation: "kept s \<Longrightarrow> ends kept s (DeleteInvitationHandler off rc i j)"
  unfolding DeleteInvitationHandler_def by (intro tracing) (auto intro: keeping kept_same kept_put_role kept_put_member)

lemma kept_AcceptInvitation: "kept s \<Longrightarrow> ends kept s (AcceptInvitation hash now mi rc t)"
  unfolding AcceptInvitation_def PutMember_def Get_project_def GetMember_def
  by (intro tracing) (auto intro: keeping kept_same kept_put_role kept_put_member)

lemma kept_DeclineInvitation: "kept s \<Longrightarrow> ends kept s (DeclineInvitation hash now rc t)"
  unfolding DeclineInvitation_def by (intro tracing) (auto intro: keeping kept_same kept_put_role kept_put_member)

lemma kept_CreateRole: "kept s \<Longrightarrow> ends kept s (CreateRole now ri off rc i role)"
  unfolding CreateRole_def PutRole_def by (intro tracing) (auto intro: keeping kept_same kept_put_role kept_put_member)

lemma kept_UpdateRole: "kept s \<Longrightarrow> ends kept s (UpdateRole now off rc i ri patch)"
  unfolding UpdateRole_def PutRole_def GetRole_def by (intro tracing) (auto intro: keeping kept_same kept_put_role kept_put_member)

lemma kept_DeleteRole: "kept s \<Longrightarrow> ends kept s (DeleteRoleHandler off rc i ri)"
  unfolding DeleteRoleHandler_def DeleteRole_def by (intro tracing) (auto intro: keeping kept_same kept_put_role kept_put_member)

lemma kept_SetDefaultRole: "kept s \<Longrightarrow> ends kept s (SetDefaultRoleHandler off rc i name)"
  unfolding SetDefaultRoleHandler_def SetDefaultRole_def GetRole_def by (intro tracing) (auto intro: keeping kept_same kept_put_role kept_put_member)

lemma kept_CreateUser:
  "kept s \<Longrightarrow> \<not> list_ex (account_is i) (td_users s) \<Longrightarrow> ends kept s (CreateUser hashing now i new)"
  unfolding CreateUser_def GetUser_def PutUser_def
  by (intro tracing) (auto intro: kept_new_account)

lemma flagged_id [simp]: "ua_id (with_flags inp u) = ua_id u"
  by (simp add: with_flags_def)

lemma found_account: "find (account_is i) (td_users s) = Some u \<Longrightarrow> list_ex (account_is (ua_id u)) (td_users s)"
  using find_in [of "account_is i"] by (auto simp: list_ex_iff account_is_def)

lemma kept_unguarded:
  assumes "put_account now v s = Inr (t, x)" "kept s" "find (account_is i) (td_users s) = Some u"
    "enabled_admin u \<longrightarrow> enabled_admin v" "ua_id v = ua_id u"
  shows "kept t"
proof (rule kept_put_account [OF assms(2,1)])
  show "list_ex (account_is (ua_id v)) (td_users s)" using found_account [OF assms(3)] assms(5) by simp
  show "enabled_admin v \<or> (\<exists>u \<in> set (td_users s). enabled_admin u \<and> ua_id u \<noteq> ua_id v)"
    using assms(4,5) only_admin [OF assms(2,3)] by auto
qed

lemma kept_spared:
  assumes "put_account now v s = Inr (t, x)" "kept s" "find (account_is i) (td_users s) = Some u"
    "length (filter (\<lambda>u'. enabled_admin u' \<and> ua_id u' \<noteq> ua_id u) (td_users s)) = others"
    "0 < others \<or> ua_admin v \<and> \<not> ua_disabled v" "ua_id v = ua_id u"
  shows "kept t"
proof (rule kept_put_account [OF assms(2,1)])
  show "list_ex (account_is (ua_id v)) (td_users s)" using found_account [OF assms(3)] assms(6) by simp
  show "enabled_admin v \<or> (\<exists>u \<in> set (td_users s). enabled_admin u \<and> ua_id u \<noteq> ua_id v)"
    using assms(4,5,6) other_admin [of "ua_id u" "td_users s"] by (auto simp: enabled_admin_def [of v])
qed

lemma kept_UpdateUser: "kept s \<Longrightarrow> ends kept s (UpdateUser hashing now rc i change)"
  unfolding UpdateUser_def GetUser_def PutUser_def free_email_def PutKeepingAnAdmin_def lockActiveAdmins_def
  by (intro tracing)
    (simp_all, ((erule kept_same [rotated])?, (erule kept_spared, assumption, assumption, assumption, assumption, simp) |
      (erule kept_same [rotated])?, erule kept_unguarded, assumption, assumption, assumption, simp)+)

lemma kept_deleted:
  assumes "kept s" "replaceable s i"
    "list_ex (\<lambda>u. enabled_admin u \<and> ua_id u = i) (td_users s) \<longrightarrow>
       0 < length (filter (\<lambda>u. enabled_admin u \<and> ua_id u \<noteq> i) (td_users s))"
  shows "kept (delete_account i s)"
proof (rule kept_delete_account [OF assms(1,2)])
  from assms(1) obtain a where "a \<in> set (td_users s)" "enabled_admin a" by (auto simp: kept_iff)
  then show "\<exists>u \<in> set (td_users s). enabled_admin u \<and> ua_id u \<noteq> i"
    using assms(3) other_admin [of i "td_users s"] by (cases "ua_id a = i") (auto simp: list_ex_iff)
qed

lemma kept_DeleteUser: "kept s \<Longrightarrow> ends kept s (DeleteUserHandler rc i)"
  unfolding DeleteUserHandler_def DeleteKeepingAnAdmin_def lockActiveAdmins_def DeleteUser_def
  by (intro tracing) (simp_all, (erule kept_deleted, assumption, simp)+)

lemma kept_reset:
  assumes "kept s" "same_tenants (fst (update_accounts q (\<lambda>u. u\<lparr>ua_totp_secret := x, ua_totp_enabled := b\<rparr>) s)) t"
  shows "kept t"
  by (rule kept_same [OF _ assms(2)], rule kept_flagless [OF assms(1)]) simp

lemma kept_ResetTOTP: "kept s \<Longrightarrow> ends kept s (ResetTOTP rc i)"
  unfolding ResetTOTP_def SetTOTP_def by (intro tracing) (auto intro: keeping kept_same kept_reset)

lemma kept_ResetPasskeys: "kept s \<Longrightarrow> ends kept s (ResetPasskeys rc i)"
  unfolding ResetPasskeys_def by (intro tracing) (auto intro: keeping kept_same kept_put_role kept_put_member)

lemma kept_RevokeSessions: "kept s \<Longrightarrow> ends kept s (RevokeSessions i)"
  unfolding RevokeSessions_def by (intro tracing) (auto intro: keeping kept_same kept_put_role kept_put_member)

lemmas kept_requests = kept_CreateProject kept_UpdateProject kept_DeleteProject kept_AddMember kept_UpdateMember
  kept_RemoveMember kept_CreateInvitation kept_DeleteInvitation kept_AcceptInvitation kept_DeclineInvitation kept_CreateRole
  kept_UpdateRole kept_DeleteRole kept_SetDefaultRole kept_CreateUser kept_UpdateUser kept_DeleteUser kept_ResetTOTP
  kept_ResetPasskeys kept_RevokeSessions

lemma request_keeps:
  assumes "request off rc (s, fs) w'" "kept s"
  shows "kept (fst w')"
  using assms(1)
proof cases
  case (create_user hashing now i new ac)
  then have "ends kept s (requireAdmin off rc (CreateUser hashing now i new))"
    by (intro ends_requireAdmin kept_CreateUser assms(2)) simp
  then show ?thesis using create_user(1) by (rule endsD)
qed (erule endsD [rotated], simp add: kept_requests ends_requireAdmin assms(2))+

section \<open>The property\<close>

text \<open>Any number of requests of any callers, one after the other, the node's clock and ids going on between them.\<close>

definition requested :: "tworld \<Rightarrow> tworld \<Rightarrow> bool" where
  "requested = (\<lambda>w w'. \<exists>off rc. request off rc w w')\<^sup>*\<^sup>*"

lemma requests_keep: "requested w w' \<Longrightarrow> kept (fst w) \<Longrightarrow> kept (fst w')"
  unfolding requested_def
proof (induction rule: rtranclp_induct)
  case (step w' w'')
  then obtain off rc where "request off rc (fst w', snd w') w''" by auto
  with step.IH [OF step.prems] show ?case by (rule request_keeps [rotated])
qed simp

text \<open>
  C6: Where every project has an owner and the installation an enabled administrator, both stand after any
  sequence of requests to the project and account surfaces, whoever makes them and whichever of their
  statements fail: removals, demotions, disabled and deleted accounts, deleted and created projects included.
\<close>

theorem owners_and_admins_kept:
  assumes "requested w w'" "kept (fst w)"
  shows "list_ex enabled_admin (td_users (fst w')) \<and>
    list_all (\<lambda>pr. \<exists>m \<in> set (td_members (fst w')). ms_project_id m = tn_id pr \<and> ms_owner m \<and>
        list_ex (account_is (ms_user_id m)) (td_users (fst w'))) (td_projects (fst w'))"
proof -
  have k: "linked (fst w')" "owned (fst w')" "governed (fst w')"
    using requests_keep [OF assms] by (simp_all add: kept_def)
  then show ?thesis
    by (auto simp: governed_def owned_def linked_def list_all_iff list_ex_iff [of _ "td_members (fst w')"])
qed

text \<open>The owner makes a member an owner as well and leaves the project.\<close>

definition sample_handed_over :: tworld where
  "sample_handed_over =
     snd (UpdateMember False (Some (sample_caller ''ann'' True)) ''p'' ''bob'' (Inr (None, Some True)) (sample_tenants, []))"

definition sample_left :: tworld where
  "sample_left = snd (RemoveMemberHandler False (Some (sample_caller ''ann'' True)) ''p'' ''ann'' sample_handed_over)"

lemma sample_left_state:
  "kept sample_tenants \<and> td_members (fst sample_left) =
     [\<lparr>ms_id = ''m2'', ms_project_id = ''p'', ms_user_id = ''bob'', ms_owner = True, ms_role_id = ''lead'', ms_created_at = 2\<rparr>]"
  by code_simp

theorem owners_and_admins_kept_witness:
  "list_ex enabled_admin (td_users (fst sample_left)) \<and>
   list_all (\<lambda>pr. \<exists>m \<in> set (td_members (fst sample_left)). ms_project_id m = tn_id pr \<and> ms_owner m \<and>
        list_ex (account_is (ms_user_id m)) (td_users (fst sample_left))) (td_projects (fst sample_left))"
proof (rule owners_and_admins_kept)
  have "request False (Some (sample_caller ''ann'' True)) (sample_tenants, []) sample_handed_over"
    unfolding sample_handed_over_def by (rule request.update_member, rule surjective_pairing)
  moreover have "request False (Some (sample_caller ''ann'' True)) sample_handed_over sample_left"
    unfolding sample_left_def by (rule request.remove_member, rule surjective_pairing)
  ultimately show "requested (sample_tenants, []) sample_left"
    unfolding requested_def by (blast intro: rtranclp.rtrancl_into_rtrancl)
  show "kept (fst (sample_tenants, []))" using sample_left_state by simp
qed

end
