(* ===== verification/Retention.thy ===== *)
theory Retention
  imports Accept
begin

text \<open>
  What removes stored mail together with its files: the email sections of the retention sweep
  (\<^verbatim>\<open>internal/core/retention/retention.go\<close>), the removal of spent partitions of the table
  (\<^verbatim>\<open>internal/core/partition/partition.go\<close>) and the erasure of delivery records on request
  (\<^verbatim>\<open>internal/domain/data/data.go\<close>).  The object store is the set of the keys it holds and an argument
  saying which deletes it refuses; the catalogue's list of partitions is an argument.  What other writers do
  between the listing of the keys and the removal of the rows is an arbitrary change of the tables.
\<close>

section \<open>Files\<close>

text \<open>
  The keys whose delete fails; without an object store attachments are inline.  The text the object store gives for
  a failed delete is left out.
\<close>

type_synonym object_store = "(string \<Rightarrow> bool) option"

fun delete_each :: "(string \<Rightarrow> bool) \<Rightarrow> string list \<Rightarrow> string set \<Rightarrow> nat \<times> nat \<times> string set" where
  "delete_each refuses [] b = (0, 0, b)"
| "delete_each refuses (k # ks) b =
     (if refuses k then (case delete_each refuses ks b of (deleted, failed, b) \<Rightarrow> (deleted, Suc failed, b))
      else (case delete_each refuses ks (b - {k}) of (deleted, failed, b) \<Rightarrow> (Suc deleted, failed, b)))"

definition deleteBlobs :: "object_store \<Rightarrow> string list \<Rightarrow> string set \<Rightarrow> nat \<times> nat \<times> string set" where
  "deleteBlobs store ks b = (case store of None \<Rightarrow> (0, 0, b) | Some refuses \<Rightarrow> delete_each refuses ks b)"

fun drop_until :: "(string \<Rightarrow> bool) \<Rightarrow> string list \<Rightarrow> string set \<Rightarrow> error option \<times> string set" where
  "drop_until refuses [] b = (None, b)"
| "drop_until refuses (k # ks) b =
     (if refuses k then (Some (''erase attachment '' @ k), b) else drop_until refuses ks (b - {k}))"

definition dropBlobs :: "object_store \<Rightarrow> string list \<Rightarrow> string set \<Rightarrow> error option \<times> string set" where
  "dropBlobs store ks b = (case store of None \<Rightarrow> (None, b) | Some refuses \<Rightarrow> drop_until refuses ks b)"

section \<open>Partitions\<close>

record rangePartition =
  pt_name :: string
  pt_lower :: time
  pt_upper :: time

definition holds_row :: "rangePartition \<Rightarrow> email \<Rightarrow> bool" where
  "holds_row p e = (pt_lower p \<le> e_created_at e \<and> e_created_at e < pt_upper p)"

definition digits :: "string \<Rightarrow> bool" where
  "digits s = list_all (\<lambda>c. 48 \<le> (of_char c :: nat) \<and> (of_char c :: nat) \<le> 57) s"

definition mustBeSafeName :: "string \<Rightarrow> bool" where
  "mustBeSafeName n =
     (length n = 18 \<and> (take 8 n = ''emails_d'' \<or> take 8 n = ''emails_w'') \<and>
      digits (take 4 (drop 8 n)) \<and> take 1 (drop 12 n) = ''_'' \<and> digits (take 2 (drop 13 n)) \<and>
      take 1 (drop 15 n) = ''_'' \<and> digits (drop 16 n))"

text \<open>
  The check and the removal are one transaction under the table's lock.  Where the lock is not got in time, or
  the table is gone already, the partition is kept.
\<close>

definition dropOne :: "(string \<Rightarrow> bool) \<Rightarrow> rangePartition \<Rightarrow> db \<Rightarrow> (error + bool) \<times> db" where
  "dropOne locked_out p d =
     (if locked_out (pt_name p) then (Inr False, d)
      else Exec (\<lambda>d. if list_ex (\<lambda>e. holds_row p e \<and> in_flight e) (db_emails d) then (d, False)
                     else (d\<lparr>db_emails := sql_delete (holds_row p) (db_emails d)\<rparr>, True)) d)"

fun drop_each :: "(string \<Rightarrow> bool) \<Rightarrow> time \<Rightarrow> rangePartition list \<Rightarrow> db \<Rightarrow> (error option \<times> string list) \<times> db" where
  "drop_each locked_out before [] d = ((None, []), d)"
| "drop_each locked_out before (p # ps) d =
     (if before < pt_upper p then drop_each locked_out before ps d
      else if \<not> mustBeSafeName (pt_name p) then ((Some (''refusing to use '' @ quoted (pt_name p) @
        '' as a partition name: it is not of the form emails_dYYYY_MM_DD''), []), d)
      else (case dropOne locked_out p d of
              (Inl e, d) \<Rightarrow> ((Some e, []), d)
            | (Inr ok, d) \<Rightarrow>
                (case drop_each locked_out before ps d of
                   ((e, dropped), d) \<Rightarrow> ((e, if ok then pt_name p # dropped else dropped), d))))"

definition DropSpent :: "rangePartition list \<Rightarrow> (string \<Rightarrow> bool) \<Rightarrow> time \<Rightarrow> db \<Rightarrow> (error option \<times> string list) \<times> db" where
  "DropSpent parts locked_out before d =
     (case Query (\<lambda>_. parts) d of
        (Inl e, d) \<Rightarrow> ((Some e, []), d)
      | (Inr ps, d) \<Rightarrow> drop_each locked_out before ps d)"

section \<open>The sweep\<close>

record sweep_result =
  sw_notes :: "(string \<times> error) list"
  sw_purged :: nat
  sw_dropped :: nat
  sw_bodies :: nat
  sw_attachments :: nat
  sw_blobs :: nat
  sw_blob_errors :: nat

record sweeper =
  sr_store :: object_store
  sr_partitions :: "rangePartition list option"
  sr_locked_out :: "string \<Rightarrow> bool"
  sr_meantime :: "nat \<Rightarrow> db \<Rightarrow> db"

type_synonym sweep_state = "sweep_result \<times> db \<times> string set"

definition noted :: "string \<Rightarrow> error option \<Rightarrow> sweep_result \<Rightarrow> sweep_result" where
  "noted sec e res = (case e of None \<Rightarrow> res | Some e \<Rightarrow> res\<lparr>sw_notes := sw_notes res @ [(sec, e)]\<rparr>)"

definition counted :: "nat \<Rightarrow> nat \<Rightarrow> sweep_result \<Rightarrow> sweep_result" where
  "counted n f res = res\<lparr>sw_blobs := sw_blobs res + n, sw_blob_errors := sw_blob_errors res + f\<rparr>"

definition failure :: "error + nat \<Rightarrow> error option" where
  "failure r = (case r of Inl e \<Rightarrow> Some e | Inr _ \<Rightarrow> None)"

definition rows :: "error + nat \<Rightarrow> nat" where
  "rows r = (case r of Inl _ \<Rightarrow> 0 | Inr n \<Rightarrow> n)"

definition clear_attachments :: "sweeper \<Rightarrow> time \<Rightarrow> sweep_state \<Rightarrow> sweep_state" where
  "clear_attachments sw cutoff st =
     (case st of (res, d, b) \<Rightarrow>
        (case StorageKeysOlderThan cutoff d of
           (Inl e, d) \<Rightarrow> (noted ''email attachment keys'' (Some e) res, d, b)
         | (Inr ks, d) \<Rightarrow>
             (case deleteBlobs (sr_store sw) ks b of (n, f, b) \<Rightarrow>
                (case ClearAttachmentsOlderThan cutoff (sr_meantime sw 0 d) of (r, d) \<Rightarrow>
                   (noted ''email attachments'' (failure r) (counted n f res)\<lparr>sw_attachments := rows r\<rparr>, d, b)))))"

definition clear_bodies :: "time \<Rightarrow> sweep_state \<Rightarrow> sweep_state" where
  "clear_bodies cutoff st =
     (case st of (res, d, b) \<Rightarrow>
        (case ClearBodiesOlderThan cutoff d of (r, d) \<Rightarrow>
           (noted ''email bodies'' (failure r) res\<lparr>sw_bodies := rows r\<rparr>, d, b)))"

text \<open>Whole partitions first, then the rows that are left.\<close>

definition purge_rows :: "sweeper \<Rightarrow> time \<Rightarrow> sweep_state \<Rightarrow> sweep_state" where
  "purge_rows sw cutoff st =
     (case st of (res, d, b) \<Rightarrow>
        (case (case sr_partitions sw of
                 None \<Rightarrow> (res, d)
               | Some parts \<Rightarrow>
                   (case DropSpent parts (sr_locked_out sw) cutoff d of
                      ((e, dropped), d) \<Rightarrow> (noted ''email partitions'' e res\<lparr>sw_dropped := length dropped\<rparr>, d))) of
           (res, d) \<Rightarrow>
             (case PurgeOlderThan cutoff d of (r, d) \<Rightarrow>
                (noted ''email purge'' (failure r) res\<lparr>sw_purged := rows r\<rparr>, d, b))))"

definition purge_emails :: "sweeper \<Rightarrow> time \<Rightarrow> sweep_state \<Rightarrow> sweep_state" where
  "purge_emails sw cutoff st =
     (case st of (res, d, b) \<Rightarrow>
        (case StorageKeysOlderThan cutoff d of
           (Inl e, d) \<Rightarrow> (noted ''email purge keys'' (Some e) res, d, b)
         | (Inr ks, d) \<Rightarrow>
             (case deleteBlobs (sr_store sw) ks b of (n, f, b) \<Rightarrow>
                purge_rows sw cutoff (counted n f res, sr_meantime sw 1 d, b))))"

definition empty_result :: sweep_result where
  "empty_result = \<lparr>sw_notes = [], sw_purged = 0, sw_dropped = 0, sw_bodies = 0, sw_attachments = 0, sw_blobs = 0, sw_blob_errors = 0\<rparr>"

text \<open>The email sections of \<^verbatim>\<open>Run\<close>, each when its window is on.\<close>

definition sweep_emails :: "sweeper \<Rightarrow> windows \<Rightarrow> time \<Rightarrow> db \<Rightarrow> string set \<Rightarrow> sweep_state" where
  "sweep_emails sw ws now d b =
     (case ContentWindows ws of (bodies, attachments) \<Rightarrow>
        let st = (empty_result, d, b);
            st = (if 0 < attachments then clear_attachments sw (now - attachments * day) st else st);
            st = (if 0 < bodies then clear_bodies (now - bodies * day) st else st)
        in if 0 < wi_meta ws then purge_emails sw (now - wi_meta ws * day) st else st)"

section \<open>Erasure on request\<close>

record delete_logs =
  dl_older_than_days :: int
  dl_email :: string
  dl_confirm_all :: bool

datatype erasure = NotConfirmed | EraseFailed error | Erased nat

definition erase_rows ::
    "object_store \<Rightarrow> (db \<Rightarrow> db) \<Rightarrow> (db \<Rightarrow> (error + string list) \<times> db) \<Rightarrow> (db \<Rightarrow> (error + nat) \<times> db) \<Rightarrow> db \<Rightarrow> string set \<Rightarrow>
     erasure \<times> db \<times> string set" where
  "erase_rows store meantime keys purge d b =
     (case keys d of
        (Inl e, d) \<Rightarrow> (EraseFailed e, d, b)
      | (Inr ks, d) \<Rightarrow>
          (case dropBlobs store ks b of
             (Some e, b) \<Rightarrow> (EraseFailed e, d, b)
           | (None, b) \<Rightarrow>
               (case purge (meantime d) of
                  (Inl e, d) \<Rightarrow> (EraseFailed e, d, b)
                | (Inr n, d) \<Rightarrow> (Erased n, d, b))))"

definition DeleteEmailLogs ::
    "object_store \<Rightarrow> (db \<Rightarrow> db) \<Rightarrow> time \<Rightarrow> string \<Rightarrow> delete_logs \<Rightarrow> db \<Rightarrow> string set \<Rightarrow> erasure \<times> db \<times> string set" where
  "DeleteEmailLogs store meantime now projID inp d b =
     (if dl_email inp \<noteq> []
      then erase_rows store meantime (StorageKeysForAddress projID (to_lower (dl_email inp)))
             (PurgeForAddress projID (to_lower (dl_email inp))) d b
      else if dl_older_than_days inp = 0 \<and> \<not> dl_confirm_all inp then (NotConfirmed, d, b)
      else let cutoff = (if 0 < dl_older_than_days inp then now - dl_older_than_days inp * day else now)
           in erase_rows store meantime (StorageKeysForProjectOlderThan projID cutoff) (PurgeProjectOlderThan projID cutoff) d b)"

section \<open>What is removed\<close>

lemma delete_each_rest: "snd (snd (delete_each refuses ks b)) = b - {k \<in> set ks. \<not> refuses k}"
proof (induction ks arbitrary: b)
  case (Cons k ks)
  show ?case using Cons.IH [of b] Cons.IH [of "b - {k}"] by (simp add: case_prod_unfold) blast
qed simp

lemma deleteBlobs_rest:
  "deleteBlobs store ks b = (n, f, b') \<Longrightarrow>
     b' = (case store of None \<Rightarrow> b | Some refuses \<Rightarrow> b - {k \<in> set ks. \<not> refuses k})"
proof (cases store)
  case (Some refuses)
  assume "deleteBlobs store ks b = (n, f, b')"
  with Some have "delete_each refuses ks b = (n, f, b')" by (simp add: deleteBlobs_def)
  with delete_each_rest [of refuses ks b] Some show ?thesis by simp
qed (simp add: deleteBlobs_def)

lemma drop_until_rest: "drop_until refuses ks b = (None, b') \<Longrightarrow> b' = b - set ks"
  by (induction refuses ks b rule: drop_until.induct) (auto split: if_splits)

text \<open>Rows that went were old and settled.\<close>

definition only_aged :: "time \<Rightarrow> db \<Rightarrow> db \<Rightarrow> bool" where
  "only_aged before d d' =
     (set (db_emails d') \<subseteq> set (db_emails d) \<and> (\<forall>e \<in> set (db_emails d) - set (db_emails d'). aged before e))"

lemma only_aged_refl [simp]: "only_aged before d d"
  by (simp add: only_aged_def)

lemma only_aged_trans: "only_aged before d d' \<Longrightarrow> only_aged before d' d'' \<Longrightarrow> only_aged before d d''"
  unfolding only_aged_def by blast

lemma only_aged_pop [simp]: "only_aged before d (snd (pop_fault d))"
  by (simp add: only_aged_def pop_fault_eq)

lemma only_aged_Query: "Query q d = (r, d') \<Longrightarrow> only_aged before d d'"
  unfolding Query_def by (elim Exec_cases) (auto simp: only_aged_def pop_fault_eq)

lemma only_aged_drop:
  assumes "dropOne locked_out p d = (r, d')" "pt_upper p \<le> before"
  shows "only_aged before d d'"
proof (cases "locked_out (pt_name p)")
  case False
  with assms(1) show ?thesis
    unfolding dropOne_def if_not_P [OF False]
    by (elim Exec_cases)
      (use assms(2) in \<open>auto simp: only_aged_def pop_fault_eq aged_def holds_row_def list_ex_iff split: if_splits\<close>)
qed (use assms(1) in \<open>simp add: dropOne_def\<close>)

lemma only_aged_drops: "drop_each locked_out before ps d = (r, d') \<Longrightarrow> only_aged before d d'"
proof (induction locked_out before ps d arbitrary: r d' rule: drop_each.induct)
  case (2 locked_out before p ps d)
  show ?case
  proof (cases "before < pt_upper p \<or> \<not> mustBeSafeName (pt_name p)")
    case False
    obtain x d1 where one: "dropOne locked_out p d = (x, d1)" by (rule prod.exhaust)
    have first: "only_aged before d d1" by (rule only_aged_drop [OF one]) (use False in simp)
    show ?thesis
    proof (cases x)
      case (Inr ok)
      obtain e dropped d2 where rest: "drop_each locked_out before ps d1 = ((e, dropped), d2)" by (metis prod.exhaust)
      have "only_aged before d1 d2" by (rule "2.IH"(2)) (use False one Inr rest in simp_all)
      with first 2(3) False one Inr rest show ?thesis by (auto intro: only_aged_trans)
    qed (use first 2(3) False one in simp)
  qed (use 2 in \<open>auto split: if_splits\<close>)
qed simp

lemma only_aged_spent: "DropSpent parts locked_out before d = (r, d') \<Longrightarrow> only_aged before d d'"
  unfolding DropSpent_def
  by (auto split: prod.splits sum.splits dest!: only_aged_Query [of _ d _ _ before] only_aged_drops intro: only_aged_trans)

lemma only_aged_purge: "EmailLog.PurgeOlderThan before d = (r, d') \<Longrightarrow> only_aged before d d'"
  unfolding PurgeOlderThan_def using delete_cases by (fastforce simp: only_aged_def)

lemma purge_rows_aged:
  assumes "purge_rows sw cutoff (res, d, b) = (res', d', b')"
  shows "b' = b \<and> only_aged cutoff d d'"
proof (cases "sr_partitions sw")
  case None
  with assms show ?thesis by (auto simp: purge_rows_def split: prod.splits dest: only_aged_purge)
next
  case (Some parts)
  obtain e dropped d1 where "DropSpent parts (sr_locked_out sw) cutoff d = ((e, dropped), d1)" by (metis prod.exhaust)
  with Some assms only_aged_spent [OF this] show ?thesis
    by (auto simp: purge_rows_def split: prod.splits dest: only_aged_purge intro: only_aged_trans)
qed

section \<open>The property\<close>

text \<open>One row at two times: what the listing reads of it is the same, and it was settled at the first.\<close>

definition stood_as :: "email \<Rightarrow> email \<Rightarrow> bool" where
  "stood_as e0 e = (pk e0 = pk e \<and> e_attachments e0 = e_attachments e \<and> \<not> in_flight e0)"

text \<open>
  C28: Retention removes settled mail together with its files.  When the keys of the files cannot be listed
  the sweep removes nothing.  Otherwise, whichever deletes and statements fail and whatever others write
  between the listing and the removal, the rows that go, by whole partitions or one by one, are older than the
  cutoff and settled, no row in flight goes; and of a row that goes and was settled already, with the same
  attachments, when the keys were listed, no file of its own is left but one whose delete failed.  Every file
  that is deleted was the own file of a settled row older than the cutoff.
\<close>
theorem purge_takes_files:
  assumes "purge_emails sw cutoff (res, d, b) = (res', d', b')"
  shows "(isl (fst (StorageKeysOlderThan cutoff d)) \<longrightarrow> db_emails d' = db_emails d \<and> b' = b) \<and>
    (\<not> isl (fst (StorageKeysOlderThan cutoff d)) \<longrightarrow>
      (let d1 = sr_meantime sw 1 (snd (StorageKeysOlderThan cutoff d)) in
        set (db_emails d') \<subseteq> set (db_emails d1) \<and>
        (\<forall>e \<in> set (db_emails d1) - set (db_emails d'). e_created_at e < cutoff \<and> \<not> in_flight e \<and>
          (\<forall>refuses. sr_store sw = Some refuses \<and> (\<exists>e0 \<in> set (db_emails d). stood_as e0 e) \<longrightarrow>
             list_all refuses (filter (\<lambda>k. k \<in> owned_keys e \<inter> b') (map at_storage_key (e_attachments e)))))) \<and>
      b' \<subseteq> b \<and> (\<forall>k \<in> b - b'. \<exists>e \<in> set (db_emails d). aged cutoff e \<and> k \<in> owned_keys e))"
proof -
  obtain r d0 where keys: "StorageKeysOlderThan cutoff d = (r, d0)" by (rule prod.exhaust)
  show ?thesis
  proof (cases r)
    case (Inl e)
    have "db_emails d0 = db_emails d"
      using keys unfolding StorageKeysOlderThan_def Query_def by (elim Exec_cases) (auto simp: pop_fault_eq)
    with Inl keys assms show ?thesis by (simp add: purge_emails_def)
  next
    case (Inr ks)
    have ks: "set ks = (\<Union>e \<in> {e \<in> set (db_emails d). aged cutoff e}. owned_keys e)"
      using keys Inr unfolding StorageKeysOlderThan_def Query_def
      by (elim Exec_cases) (auto simp: pop_fault_eq storageKeys_set [symmetric])
    obtain n f b1 where del: "deleteBlobs (sr_store sw) ks b = (n, f, b1)" by (metis prod.exhaust)
    let ?d1 = "sr_meantime sw 1 d0"
    have "purge_rows sw cutoff (counted n f res, ?d1, b1) = (res', d', b')"
      using assms keys Inr del by (simp add: purge_emails_def)
    then have b1: "b' = b1" and gone: "only_aged cutoff ?d1 d'" using purge_rows_aged by blast+
    note rest = deleteBlobs_rest [OF del]
    have files: "list_all refuses (filter (\<lambda>k. k \<in> owned_keys e \<inter> b') (map at_storage_key (e_attachments e)))"
      if e: "aged cutoff e" and store: "sr_store sw = Some refuses" and e0: "e0 \<in> set (db_emails d)" "stood_as e0 e" for e e0 refuses
    proof -
      have "aged cutoff e0" "owned_keys e0 = owned_keys e" using e e0(2) by (simp_all add: stood_as_def aged_def pk_def owned_keys_def)
      then have "owned_keys e \<subseteq> set ks" using e0(1) ks by auto
      then show ?thesis using rest store b1 by (auto simp: list_all_iff)
    qed
    have "\<exists>e \<in> set (db_emails d). aged cutoff e \<and> k \<in> owned_keys e" if "k \<in> b - b'" for k
      using that rest b1 ks by (auto split: option.split_asm)
    moreover have "b' \<subseteq> b" using rest b1 by (auto split: option.split_asm)
    moreover have "set (db_emails d') \<subseteq> set (db_emails ?d1)"
      "\<forall>e \<in> set (db_emails ?d1) - set (db_emails d'). aged cutoff e"
      using gone by (simp_all add: only_aged_def)
    moreover have "\<forall>e \<in> set (db_emails ?d1) - set (db_emails d'). \<forall>refuses.
        sr_store sw = Some refuses \<and> (\<exists>e0 \<in> set (db_emails d). stood_as e0 e) \<longrightarrow>
        list_all refuses (filter (\<lambda>k. k \<in> owned_keys e \<inter> b') (map at_storage_key (e_attachments e)))"
      using gone files unfolding only_aged_def by blast
    ultimately show ?thesis using keys Inr by (simp add: Let_def aged_def)
  qed
qed

section \<open>Samples\<close>

definition kept_file :: "string \<Rightarrow> time \<Rightarrow> status \<Rightarrow> email" where
  "kept_file i c st = (log_row i c)\<lparr>e_status := st, e_attachments := [\<lparr>at_filename = ''f.pdf'', at_content = [], at_content_type = [],
     at_storage_key = ''mail/'' @ i, at_size = 1, at_template_attachment_id = [], at_template_asset_id = [], at_content_id = []\<rparr>]\<rparr>"

definition file_db :: db where
  "file_db = log_db\<lparr>db_emails := [kept_file ''a'' 5 StatusSent, kept_file ''b'' 6 StatusProcessing, kept_file ''c'' 9 StatusSent]\<rparr>"

definition sample_sweeper :: "(nat \<Rightarrow> db \<Rightarrow> db) \<Rightarrow> sweeper" where
  "sample_sweeper meantime =
     \<lparr>sr_store = Some (\<lambda>_. False), sr_partitions = Some [\<lparr>pt_name = ''emails_d2026_01_01'', pt_lower = 0, pt_upper = 6\<rparr>],
      sr_locked_out = (\<lambda>_. False), sr_meantime = meantime\<rparr>"

definition sample_purge :: sweep_state where
  "sample_purge = purge_emails (sample_sweeper (\<lambda>_ d. d)) 8 (empty_result, file_db, {''mail/a'', ''mail/b'', ''mail/c''})"

lemma sample_purge_run:
  "(case sample_purge of (res, d, b) \<Rightarrow>
     sw_dropped res = 1 \<and> map e_id (db_emails d) = [''b'', ''c''] \<and> ''mail/b'' \<in> b \<and> ''mail/c'' \<in> b)"
  by code_simp

lemma sample_listing: "\<not> isl (fst (StorageKeysOlderThan 8 file_db))" "snd (StorageKeysOlderThan 8 file_db) = file_db"
  by (simp_all add: StorageKeysOlderThan_def Query_no_fault file_db_def log_db_def)

theorem purge_takes_files_witness:
  "case sample_purge of (res, d, b) \<Rightarrow> map e_id (db_emails d) = [''b'', ''c''] \<and> ''mail/a'' \<notin> b"
proof -
  obtain res d b where run: "sample_purge = (res, d, b)" by (metis prod.exhaust)
  let ?a = "kept_file ''a'' 5 StatusSent"
  have ids: "map e_id (db_emails d) = [''b'', ''c'']" using sample_purge_run unfolding run by simp
  have "?a \<in> set (db_emails file_db)" by (simp add: file_db_def)
  moreover have "?a \<notin> set (db_emails d)"
  proof
    assume "?a \<in> set (db_emails d)"
    then have "e_id ?a \<in> set (map e_id (db_emails d))" by simp
    then show False unfolding ids by (simp add: kept_file_def log_row_def)
  qed
  ultimately have gone: "?a \<in> set (db_emails file_db) - set (db_emails d)" by simp
  have "stood_as ?a ?a" "''mail/a'' \<in> owned_keys ?a" "''mail/a'' \<in> set (map at_storage_key (e_attachments ?a))"
    by (simp_all add: stood_as_def in_flight_def kept_file_def log_row_def owned_keys_def ownsKey_def templateKeyPrefix_def)
  moreover have "list_all (\<lambda>_. False) (filter (\<lambda>k. k \<in> owned_keys ?a \<inter> b) (map at_storage_key (e_attachments ?a)))"
    if "stood_as ?a ?a"
    using purge_takes_files [OF run [unfolded sample_purge_def]] sample_listing gone that
    by (simp add: sample_sweeper_def Let_def) blast
  ultimately have "''mail/a'' \<notin> b" by (auto simp: list_all_iff)
  then show ?thesis unfolding run using ids by simp
qed

text \<open>
  A message that was still being delivered when the keys were listed and settles before the removal goes
  without its file, which then no row names any more.
\<close>

definition settling :: "nat \<Rightarrow> db \<Rightarrow> db" where
  "settling _ d = d\<lparr>db_emails := map (\<lambda>e. if e_status e = StatusProcessing then e\<lparr>e_status := StatusSent\<rparr> else e) (db_emails d)\<rparr>"

lemma settling_message_strands_file:
  "(case purge_emails (sample_sweeper settling) 8 (empty_result, file_db, {''mail/a'', ''mail/b'', ''mail/c''}) of
     (res, d, b) \<Rightarrow> sw_notes res = [] \<and> map e_id (db_emails d) = [''c''] \<and> ''mail/b'' \<in> b)"
  by code_simp

end
