(* ===== verification/Spec2Isabelle.thy ===== *)
theory Spec2Isabelle
  imports Prelude Permission EmailStore Worker Claims Delivery EmailLog Domains Zones Safetext Servers Routing Keyset Address Suppressions Blocklist Smtp Processor Failover Handover Assignments DnsName Node Relay Spool Sql Statement Accept Accepted Headers Rows Audience Campaigns Runner Lifecycle Mailing Accounts Grants Members Operators Owners Projects Sessions Tenancy Tracing Retention
begin

text \<open>
  Verification of the core of Mailyard, a multi-tenant mail platform: a message accepted for a project is a
  row of a table, worker processes claim rows and hand each to a mail server, to a provider or to a relay
  node of the platform, and what the destinations answered comes back into the row, the do-not-send list
  and the event streams.  Around it stand the campaigns that produce mail, the domains that authorize it,
  and the projects and accounts that own it.

  \<^bold>\<open>Parts and theories.\<close>  Each theory models the Go package it names in its opening text; a definition
  has the name of the function it translates wherever that name is free.
  \<^item> Prelude (strings as byte lists and the functions of Go's \<^verbatim>\<open>strings\<close> package), Statement (running a
    statement of the database), Tracing (what a call may leave behind), Sql (\<^verbatim>\<open>LIKE\<close>, stored JSON), Keyset
    (\<^verbatim>\<open>internal/core/keyset\<close>, \<^verbatim>\<open>paging\<close>).
  \<^item> EmailStore, EmailLog, Claims: \<^verbatim>\<open>internal/domain/email/store.go\<close>, the statements of the queue, of the
    log and what they promise one by one.  The state is \<open>db\<close>: the email rows with their volume
    counters, the idempotency keys, and the assignments of messages to relay nodes.  Retention: what removes
    stored mail with its files (\<^verbatim>\<open>internal/core/retention\<close>, \<^verbatim>\<open>internal/core/partition\<close>, \<^verbatim>\<open>internal/domain/data\<close>).
  \<^item> Worker: \<^verbatim>\<open>internal/core/queue\<close>.  The interface it takes from the store is the locale
    \<open>queue_source\<close>, interpreted on the statements of EmailStore.  Delivery: all processes on one table,
    an inductive step relation whose steps are runs of the statements and of the worker.
  \<^item> Headers, Accept, Accepted, Rows: from a request to its row (\<^verbatim>\<open>internal/domain/email/service.go\<close>,
    \<^verbatim>\<open>internal/core/mailheader\<close>, \<^verbatim>\<open>internal/core/quota\<close>), what an answer promises, and every row through its life.
  \<^item> Address, Domains, DnsName, Zones: who may send as which name (\<^verbatim>\<open>internal/domain/domains\<close>).
    Servers, Routing: which servers may carry a message.  Processor, Smtp, Failover: one attempt, from
    the sender check over the candidates to the outcome (\<^verbatim>\<open>processor.go\<close>, \<^verbatim>\<open>internal/core/smtpclient\<close>).
  \<^item> Assignments, Relay, Handover: mail carried by a relay node that fetches it, on the platform
    (\<^verbatim>\<open>internal/domain/relaynode\<close>).  Spool, Node: the node itself (\<^verbatim>\<open>internal/relayagent\<close>, \<^verbatim>\<open>internal/core/mx\<close>).
  \<^item> Suppressions, Blocklist: the do-not-send list, bounces and unsubscribe lists.
  \<^item> Audience, Campaigns, Runner, Lifecycle, Mailing: subscriber lists and the campaigns sent to them
    (\<^verbatim>\<open>internal/domain/campaign\<close>, \<^verbatim>\<open>internal/domain/subscriberlist\<close>); Lifecycle holds their abstract machine.
  \<^item> Permission, Projects, Members, Accounts, Operators, Sessions: the permission catalogue and the surfaces
    of projects and accounts (\<^verbatim>\<open>internal/domain/project\<close>, \<^verbatim>\<open>internal/domain/user\<close>).  Tenancy puts their requests
    behind the gates of their routes; Owners and Grants hold what no request can do.
  \<^item> Safetext: the bounding of remote text.

  \<^bold>\<open>How they interact.\<close>  \<open>Send\<close> (Accept) writes a row; \<open>deliverBatch\<close> (Runner) does it for a campaign's
  messages.  \<open>pollOnce\<close> (Worker) claims rows through \<open>ClaimDue\<close> (EmailStore), \<open>Process\<close>
  (Processor) attempts one with the candidates of \<open>ResolveCandidates\<close> (Routing) and the senders'
  authority of \<open>GetVerifiedCoveringFor\<close> (Domains), and \<open>finish\<close> writes what came of it under the claim
  the job carries.  \<open>Assign\<close> hands a message to a relay node, which claims it (\<open>Claim\<close>), keeps it in its
  spool and reports outcomes (\<open>Report\<close>), which finish the row and feed the do-not-send list (\<open>Record\<close>)
  that the next send is filtered through (\<open>FilterSuppressedForList\<close>).

  \<^bold>\<open>Conventions.\<close>  Time is an integer number of nanoseconds and is passed in.  A call that reaches the
  database or the disk takes a world: the state with a list of faults for the statements to come.  A
  statement is atomic; it can fail without effect, or take effect although its caller sees an error.
  What Go leaves open (the iteration order of a map, a random jitter, a shuffle) and what is outside
  the repository (DNS, the peers, a hash, the parsing of an address, cryptography) is an argument.
  Errors are the left side of a sum, machine integers are words where the width can be met: the retry
  delays of both backoffs are computed in 64 bits.

  \<^bold>\<open>What runs at once.\<close>  In Delivery the statements of nodes, workers, relay reports and operators interleave;
  a relay report's reading of a row and the outcome it writes are two steps with anything between them.  The
  functions of a report and of a sweep run their statements in one go, and Handover shows such a run to be
  steps of that system.  Lifecycle's machine admits any interleaving of the statements on campaigns.  The
  handlers of domains, projects and accounts run one after another: \<open>Verify\<close> reads, waits for DNS and writes in
  one step of Zones, and what happens when two of them overlap is the sample \<open>nested_zones_race\<close>.  Retention
  lets other writers change the tables between a listing of keys and the removal of rows.

  \<^bold>\<open>Approximations.\<close>  Lowering and folding of case touch ASCII letters only, where Go and PostgreSQL also fold
  others.  Stored JSON keeps bytes from 128 on, which the program's encoder replaces where they are no UTF-8.  The
  validator of domain names is an argument assumed to admit only names that \<open>Valid\<close> admits and that have two
  labels; a validator that lets a label end in a hyphen does not meet it.

  \<^bold>\<open>Bounds and fuel.\<close>  Walks over pages carry fuel of one more than the rows of the table, and each page
  but the last removes a row, so the walk ends before the fuel (\<open>log_walk_complete\<close>,
  \<open>blocks_walk_complete\<close>).  The walk over a list's members and the runner's loops are partial functions; that
  the first ends is \<open>audience_resolved\<close>.

  \<^bold>\<open>What is shown.\<close>  The queue: a claim is exactly fair, bounded and ordered, dead claims come back, one
  writer per message, one announcement per claim, an outcome under a lost claim changes nothing, and
  the relay path refines that system.  Accepting: a dry run foretells the send, blocked recipients get no mail,
  rows stay well formed, the message a worker builds says what was asked.  Sending: a zone has one owner under
  serial handlers, only the owner's and the grantee's consent widens who may send, candidates are exactly those
  the rules name, a message is offered until somebody answers, with the settings of each server and the
  signature of a domain the project may send as.  Data: erasure is complete and stays in its project, lookups
  that prune partitions miss nothing, retention removes settled mail with the files it had when they were
  listed, pages lose nothing.  The do-not-send list: filter and lookup agree, reports are confined to the
  reporter's own mail.  Campaigns: they follow their life, are announced as completed once, and mail only the
  subscribed.  Projects and accounts: no request gives anybody what its caller does not hold, an owner and an
  administrator are always left.

  \<^bold>\<open>Not modelled.\<close>  Sockets, TLS, timers and goroutine pools; the HTTP layer (routes, binding of request
  bodies, middleware but for the two gates of Tenancy), configuration and process start; MIME, templates,
  tracking rewriting and cryptography, which are the standard library's and third parties' code around short
  glue; inbound mail, the ceremonies of signing in, certificates, webhooks and the sandbox, which are components
  of their own beside the delivery path; generated clients and vendored packages.
\<close>

end
